(* ===== verification/Prelude.thy ===== *)
theory Prelude
  imports Main
    "HOL-Library.AList"
    "HOL-Library.Char_ord"
    "HOL-Library.List_Lexorder"
    "HOL-Library.Product_Lexorder"
    "HOL-Library.Sublist"
begin

text \<open>
  The Python layer the components share. A Python \<open>str\<close> is a \<^typ>\<open>string\<close> whose
  characters are the code points U+0000 to U+00FF, so the whitespace, case and digit
  tables below are those of \<open>str.strip\<close>, \<open>str.lower\<close> and \<open>str.isdigit\<close> on that
  range. A \<open>dict\<close> whose iteration order matters is an association list updated with
  \<open>AList.update\<close> (in place for a known key, at the end for a new one, as Python does);
  \<open>sorted\<close> of a set of strings or of tuples is \<open>sorted_set\<close>, by code point and
  lexicographically.
\<close>

named_theorems py_str "equations and bounds of the string operations"
named_theorems py_list "facts about ordered duplicate-free lists and sorted sets"

section \<open>Characters\<close>

definition py_space :: "char \<Rightarrow> bool" where
  "py_space c = (let n = of_char c :: nat in
     (9 \<le> n \<and> n \<le> 13) \<or> (28 \<le> n \<and> n \<le> 32) \<or> n = 133 \<or> n = 160)"

definition shell_space :: "char \<Rightarrow> bool" where
  "shell_space c = (let n = of_char c :: nat in (9 \<le> n \<and> n \<le> 13) \<or> n = 32)"

definition is_digit :: "char \<Rightarrow> bool" where
  "is_digit c = (let n = of_char c :: nat in 48 \<le> n \<and> n \<le> 57)"

text \<open>\<open>str.isdigit\<close> also holds of the superscripts two, three and one.\<close>

definition py_isdigit_char :: "char \<Rightarrow> bool" where
  "py_isdigit_char c = (let n = of_char c :: nat in
     (48 \<le> n \<and> n \<le> 57) \<or> n = 178 \<or> n = 179 \<or> n = 185)"

definition is_alpha :: "char \<Rightarrow> bool" where
  "is_alpha c = (let n = of_char c :: nat in (65 \<le> n \<and> n \<le> 90) \<or> (97 \<le> n \<and> n \<le> 122))"

text \<open>The class \<open>\w\<close> of a pattern compiled with \<open>re.ASCII\<close>.\<close>

definition is_word :: "char \<Rightarrow> bool" where
  "is_word c = (is_alpha c \<or> is_digit c \<or> c = CHR ''_'')"

definition lower_char :: "char \<Rightarrow> char" where
  "lower_char c = (let n = of_char c :: nat in
     if (65 \<le> n \<and> n \<le> 90) \<or> (192 \<le> n \<and> n \<le> 222 \<and> n \<noteq> 215) then char_of (n + 32) else c)"

definition lower :: "string \<Rightarrow> string" where
  "lower s = map lower_char s"

lemma shell_space_py_space: "shell_space c \<Longrightarrow> py_space c"
  by (auto simp: shell_space_def py_space_def Let_def)

lemma length_lower [simp]: "length (lower s) = length s"
  by (simp add: lower_def)

lemma lower_Nil_iff [simp]: "lower s = [] \<longleftrightarrow> s = []"
  by (simp add: lower_def)

lemma lower_Nil [simp]: "lower [] = []"
  by (simp add: lower_def)

section \<open>Trimming, prefixes and joining\<close>

definition strip_by :: "(char \<Rightarrow> bool) \<Rightarrow> string \<Rightarrow> string" where
  "strip_by P s = rev (dropWhile P (rev (dropWhile P s)))"

definition py_strip :: "string \<Rightarrow> string" where
  "py_strip s = strip_by py_space s"

definition startswith :: "string \<Rightarrow> string \<Rightarrow> bool" where
  "startswith s p = (take (length p) s = p)"

definition endswith :: "string \<Rightarrow> string \<Rightarrow> bool" where
  "endswith s p = startswith (rev s) (rev p)"

definition removeprefix :: "string \<Rightarrow> string \<Rightarrow> string" where
  "removeprefix s p = (if startswith s p then drop (length p) s else s)"

fun join_with :: "string \<Rightarrow> string list \<Rightarrow> string" where
  "join_with sep [] = []"
| "join_with sep [w] = w"
| "join_with sep (w # ws) = w @ sep @ join_with sep ws"

fun split_on :: "char \<Rightarrow> string \<Rightarrow> string list" where
  "split_on c [] = [[]]"
| "split_on c (x # xs) =
     (if x = c then [] # split_on c xs
      else (case split_on c xs of [] \<Rightarrow> [[x]] | w # ws \<Rightarrow> (x # w) # ws))"

lemma strip_by_id:
  assumes "s \<noteq> [] \<Longrightarrow> \<not> P (hd s) \<and> \<not> P (last s)"
  shows "strip_by P s = s"
proof (cases s)
  case Nil
  then show ?thesis by (simp add: strip_by_def)
next
  case (Cons x xs)
  with assms have "dropWhile P s = s" "\<not> P (last s)" by auto
  moreover from Cons have "rev s = last s # rev (butlast s)"
    by (metis append_butlast_last_id list.distinct(1) rev_eq_Cons_iff rev_rev_ident)
  ultimately show ?thesis
    by (metis dropWhile.simps(2) rev_rev_ident strip_by_def)
qed

lemma dropWhile_ne_notin: "dropWhile P s \<noteq> [] \<Longrightarrow> \<not> P (hd (dropWhile P s))"
  by (induction s) auto

lemma strip_by_split: "\<exists>zs. dropWhile P s = strip_by P s @ zs"
proof -
  let ?d = "dropWhile P s"
  have "rev ?d = takeWhile P (rev ?d) @ dropWhile P (rev ?d)" by simp
  then have "?d = rev (dropWhile P (rev ?d)) @ rev (takeWhile P (rev ?d))"
    by (metis rev_append rev_rev_ident)
  then show ?thesis unfolding strip_by_def by blast
qed

lemma hd_strip_by: "strip_by P s \<noteq> [] \<Longrightarrow> \<not> P (hd (strip_by P s))"
  by (metis Nil_is_append_conv dropWhile_ne_notin hd_append2 strip_by_split)

lemma last_strip_by: "strip_by P s \<noteq> [] \<Longrightarrow> \<not> P (last (strip_by P s))"
  by (simp add: strip_by_def last_rev dropWhile_ne_notin)

lemma strip_by_idem [simp]: "strip_by P (strip_by P s) = strip_by P s"
  by (rule strip_by_id) (simp add: hd_strip_by last_strip_by)

lemma set_strip_by: "set (strip_by P s) \<subseteq> set s"
  unfolding strip_by_def by (metis set_dropWhileD set_rev subsetI)

lemma startswith_iff: "startswith s p \<longleftrightarrow> (\<exists>r. s = p @ r)"
  by (auto simp: startswith_def) (metis append_take_drop_id)

lemma startswith_append [simp, py_str]: "startswith (p @ s) p"
  by (simp add: startswith_def)

lemma startswith_Nil [simp, py_str]: "startswith s []"
  by (simp add: startswith_def)

lemma endswith_single [simp, py_str]: "endswith s [c] \<longleftrightarrow> s \<noteq> [] \<and> last s = c"
  by (cases s rule: rev_cases) (auto simp: endswith_def startswith_def)

lemma removeprefix_append [simp, py_str]: "removeprefix (p @ s) p = s"
  by (simp add: removeprefix_def)

lemma set_join_with: "c \<in> set (join_with sep ws) \<Longrightarrow> c \<in> set sep \<or> (\<exists>w \<in> set ws. c \<in> set w)"
  by (induction sep ws rule: join_with.induct) auto

lemma split_on_ne [simp]: "split_on c s \<noteq> []"
  by (induction s) (auto split: list.splits)

lemma join_split_on [simp, py_str]: "join_with [c] (split_on c s) = s"
proof (induction s)
  case Nil
  then show ?case by simp
next
  case (Cons x xs)
  obtain w ws where w: "split_on c xs = w # ws"
    by (meson neq_Nil_conv split_on_ne)
  with Cons show ?case by (cases ws) auto
qed

lemma split_on_no_sep: "w \<in> set (split_on c s) \<Longrightarrow> c \<notin> set w"
  by (induction s arbitrary: w) (fastforce split: if_splits list.splits)+

lemma split_on_single: "c \<notin> set s \<Longrightarrow> split_on c s = [s]"
  by (induction s) auto

lemma split_on_append: "c \<notin> set w \<Longrightarrow> split_on c (w @ c # s) = w # split_on c s"
  by (induction w) auto

lemma split_join_with:
  "ws \<noteq> [] \<Longrightarrow> \<forall>w \<in> set ws. c \<notin> set w \<Longrightarrow> split_on c (join_with [c] ws) = ws"
  by (induction "[c]" ws rule: join_with.induct)
    (auto simp: split_on_single split_on_append)

section \<open>Searching and splitting\<close>

text \<open>
  \<open>break_at p s\<close> is the first occurrence of \<open>p\<close> in \<open>s\<close>: what stands before it
  and what stands after it. It serves \<open>split(p, 1)\<close> and \<open>partition(p)\<close>;
  \<open>rbreak_char\<close> is the last occurrence of one character (\<open>rsplit(c, 1)\<close>,
  \<open>rpartition(c)\<close>).
\<close>

fun break_at :: "string \<Rightarrow> string \<Rightarrow> (string \<times> string) option" where
  "break_at p [] = (if p = [] then Some ([], []) else None)"
| "break_at p (x # xs) =
     (if startswith (x # xs) p then Some ([], drop (length p) (x # xs))
      else map_option (\<lambda>(a, b). (x # a, b)) (break_at p xs))"

definition contains :: "string \<Rightarrow> string \<Rightarrow> bool" where
  "contains s p = (break_at p s \<noteq> None)"

definition before_first :: "string \<Rightarrow> string \<Rightarrow> string" where
  "before_first p s = (case break_at p s of None \<Rightarrow> s | Some (a, b) \<Rightarrow> a)"

definition rbreak_char :: "char \<Rightarrow> string \<Rightarrow> (string \<times> string) option" where
  "rbreak_char c s =
     (case break_at [c] (rev s) of None \<Rightarrow> None | Some (a, b) \<Rightarrow> Some (rev b, rev a))"

fun replace_all :: "string \<Rightarrow> string \<Rightarrow> string \<Rightarrow> string" where
  "replace_all p q [] = []"
| "replace_all p q (x # xs) =
     (if p \<noteq> [] \<and> startswith (x # xs) p then q @ replace_all p q (drop (length p - 1) xs)
      else x # replace_all p q xs)"

lemma startswith_single [simp, py_str]: "startswith (x # xs) [c] \<longleftrightarrow> x = c"
  by (simp add: startswith_def)

lemma break_at_Some: "break_at p s = Some (a, b) \<Longrightarrow> s = a @ p @ b"
  by (induction s arbitrary: a)
    (auto simp: startswith_def split: if_splits, metis append_take_drop_id)

lemma break_at_char_None [py_str]: "break_at [c] s = None \<longleftrightarrow> c \<notin> set s"
  by (induction s) auto

lemma break_at_char_Some: "break_at [c] s = Some (a, b) \<longleftrightarrow> s = a @ c # b \<and> c \<notin> set a"
proof (induction s arbitrary: a)
  case Nil
  then show ?case by simp
next
  case (Cons x xs)
  show ?case
  proof (cases "x = c")
    case True
    then show ?thesis by (cases a) auto
  next
    case False
    then show ?thesis using Cons.IH by (cases a) auto
  qed
qed

lemma rbreak_char_Some:
  "rbreak_char c s = Some (a, b) \<longleftrightarrow> s = a @ c # b \<and> c \<notin> set b"
proof -
  have "rbreak_char c s = Some (a, b) \<longleftrightarrow> break_at [c] (rev s) = Some (rev b, rev a)"
    by (auto simp: rbreak_char_def split: option.splits)
  also have "\<dots> \<longleftrightarrow> rev s = rev b @ c # rev a \<and> c \<notin> set b"
    by (simp add: break_at_char_Some)
  also have "\<dots> \<longleftrightarrow> s = a @ c # b \<and> c \<notin> set b"
    by (metis append.assoc append_Cons append_Nil rev.simps(2) rev_append rev_rev_ident)
  finally show ?thesis .
qed

lemma rbreak_char_None [py_str]: "rbreak_char c s = None \<longleftrightarrow> c \<notin> set s"
  using break_at_char_None [of c "rev s"] by (auto simp: rbreak_char_def split: option.splits)

lemma break_at_prefix_free:
  "break_at p s = Some (a, b) \<Longrightarrow> p \<noteq> [] \<Longrightarrow> break_at p a = None"
proof (induction s arbitrary: a)
  case Nil
  then show ?case by simp
next
  case (Cons x xs)
  show ?case
  proof (cases "startswith (x # xs) p")
    case True
    with Cons.prems show ?thesis by auto
  next
    case False
    with Cons.prems obtain a' where a': "break_at p xs = Some (a', b)" "a = x # a'"
      by auto
    have "\<not> startswith a p"
    proof
      assume "startswith a p"
      then obtain r where "a = p @ r" by (auto simp: startswith_iff)
      moreover from a' have "xs = a' @ p @ b" by (simp add: break_at_Some)
      ultimately have "x # xs = p @ r @ p @ b" using a' by simp
      with False show False by simp
    qed
    with a' Cons show ?thesis by auto
  qed
qed

lemma break_at_None_imp: "break_at p s = None \<Longrightarrow> s \<noteq> a @ p @ b"
proof (induction s arbitrary: a)
  case Nil
  then show ?case by (auto split: if_splits)
next
  case (Cons x xs)
  show ?case
  proof (cases a)
    case Nil
    with Cons.prems show ?thesis by (auto split: if_splits)
  next
    case (Cons y ys)
    with Cons.prems Cons.IH[of ys] show ?thesis by (auto split: if_splits)
  qed
qed

text \<open>
  A separator whose first character does not come back inside it cannot start before it is
  written: it is found exactly where it was put.
\<close>

lemma break_at_append:
  assumes "c \<notin> set p" and "break_at (c # p) r = None"
  shows "break_at (c # p) (r @ (c # p) @ v) = Some (r, v)"
  using assms(2)
proof (induction r)
  case Nil
  then show ?case by (simp add: startswith_def)
next
  case (Cons x xs)
  then have no: "\<not> startswith (x # xs) (c # p)" "break_at (c # p) xs = None"
    by (auto split: if_splits)
  have "\<not> startswith ((x # xs) @ (c # p) @ v) (c # p)"
  proof
    assume a: "startswith ((x # xs) @ (c # p) @ v) (c # p)"
    then have t: "take (length p) (xs @ (c # p) @ v) = p" by (simp add: startswith_def)
    have "length p > length xs"
    proof (rule ccontr)
      assume "\<not> length p > length xs"
      with a no(1) show False by (simp add: startswith_def)
    qed
    then have "c \<in> set (take (length p) (xs @ (c # p) @ v))"
      by (cases "length p - length xs") auto
    with t assms(1) show False by simp
  qed
  with Cons.IH no show ?case by simp
qed

lemma before_first_idem [simp]:
  "p \<noteq> [] \<Longrightarrow> before_first p (before_first p s) = before_first p s"
  by (auto simp: before_first_def break_at_prefix_free split: option.splits)

section \<open>Numbers\<close>

definition digit_char :: "nat \<Rightarrow> char" where
  "digit_char n = char_of (48 + n)"

fun show_nat :: "nat \<Rightarrow> string" where
  "show_nat n = (if n < 10 then [digit_char n] else show_nat (n div 10) @ [digit_char (n mod 10)])"

declare show_nat.simps [simp del]

definition show_int :: "int \<Rightarrow> string" where
  "show_int i = (if i < 0 then CHR ''-'' # show_nat (nat (- i)) else show_nat (nat i))"

text \<open>\<open>int(text, 10)\<close> on a string of ASCII digits.\<close>

definition digits_val :: "string \<Rightarrow> nat" where
  "digits_val s = foldl (\<lambda>n c. 10 * n + (of_char c - 48)) 0 s"

definition all_digits :: "string \<Rightarrow> bool" where
  "all_digits s = (s \<noteq> [] \<and> list_all is_digit s)"

lemma of_digit_char: "n < 10 \<Longrightarrow> of_char (digit_char n) = 48 + n"
  by (simp add: digit_char_def of_char_of)

lemma is_digit_digit_char [simp]: "n < 10 \<Longrightarrow> is_digit (digit_char n)"
  by (simp add: is_digit_def of_digit_char)

lemma show_nat_digits: "all_digits (show_nat n)"
proof (induction n rule: show_nat.induct)
  case (1 n)
  then show ?case by (subst show_nat.simps) (auto simp: all_digits_def)
qed

lemma show_nat_ne [simp]: "show_nat n \<noteq> []"
  using show_nat_digits[of n] by (simp add: all_digits_def)

lemma digits_val_snoc: "digits_val (s @ [c]) = 10 * digits_val s + (of_char c - 48)"
  by (simp add: digits_val_def)

lemma digits_val_digit: "n < 10 \<Longrightarrow> digits_val [digit_char n] = n"
  by (simp add: digits_val_def of_digit_char)

lemma digits_val_show_nat [simp, py_str]: "digits_val (show_nat n) = n"
  by (induction n rule: show_nat.induct)
    (subst show_nat.simps, auto simp: digits_val_digit digits_val_snoc of_digit_char)

lemma show_nat_inj: "show_nat m = show_nat n \<longleftrightarrow> m = n"
  by (metis digits_val_show_nat)

section \<open>Ordered sets and dictionaries\<close>

definition sorted_set :: "'a::linorder list \<Rightarrow> 'a list" where
  "sorted_set xs = sort (remdups xs)"

text \<open>\<open>list(dict.fromkeys(xs))\<close>: the first occurrence of each element, in order.\<close>

definition nub :: "'a list \<Rightarrow> 'a list" where
  "nub xs = rev (remdups (rev xs))"

lemma set_sorted_set [simp, py_list]: "set (sorted_set xs) = set xs"
  by (simp add: sorted_set_def)

lemma sorted_sorted_set [simp, py_list]: "sorted (sorted_set xs)"
  by (simp add: sorted_set_def)

lemma distinct_sorted_set [simp, py_list]: "distinct (sorted_set xs)"
  by (simp add: sorted_set_def)

lemma sorted_set_Nil_iff [simp]: "sorted_set xs = [] \<longleftrightarrow> xs = []"
  by (metis set_empty set_sorted_set)

lemma sorted_set_cong: "set xs = set ys \<Longrightarrow> sorted_set xs = sorted_set ys"
  by (intro sorted_distinct_set_unique) auto

lemma sorted_set_idem [simp]: "sorted_set (sorted_set xs) = sorted_set xs"
  by (rule sorted_set_cong) simp

lemma set_nub [simp, py_list]: "set (nub xs) = set xs"
  by (simp add: nub_def)

lemma distinct_nub [simp, py_list]: "distinct (nub xs)"
  by (simp add: nub_def)

lemma nub_Nil_iff [simp]: "nub xs = [] \<longleftrightarrow> xs = []"
  by (metis set_empty set_nub)

lemma nub_snoc: "nub (xs @ [x]) = (if x \<in> set xs then nub xs else nub xs @ [x])"
  by (simp add: nub_def)

lemma nub_Nil [simp]: "nub [] = []"
  by (simp add: nub_def)

lemma nub_distinct: "distinct xs \<Longrightarrow> nub xs = xs"
  by (simp add: nub_def distinct_remdups_id)

lemma subseq_nub: "subseq (nub xs) xs"
proof (induction xs rule: rev_induct)
  case Nil
  then show ?case by (simp add: nub_def)
next
  case (snoc x xs)
  then show ?case by (auto simp: nub_snoc intro: list_emb_append_mono list_emb_prefix)
qed

text \<open>\<open>dict.get(k, default)\<close> and \<open>dict.setdefault\<close>.\<close>

definition dict_get :: "('k \<times> 'v) list \<Rightarrow> 'k \<Rightarrow> 'v \<Rightarrow> 'v" where
  "dict_get m k d = (case map_of m k of None \<Rightarrow> d | Some v \<Rightarrow> v)"

definition setdefault :: "'k \<Rightarrow> 'v \<Rightarrow> ('k \<times> 'v) list \<Rightarrow> ('k \<times> 'v) list" where
  "setdefault k v m = (if map_of m k = None then m @ [(k, v)] else m)"

lemma map_of_setdefault:
  "map_of (setdefault k v m) x = (if x = k \<and> map_of m k = None then Some v else map_of m x)"
  by (auto simp: setdefault_def map_add_def split: option.splits)

lemma dict_get_update [simp]:
  "dict_get (AList.update k v m) x d = (if x = k then v else dict_get m x d)"
  by (simp add: dict_get_def update_conv')

end
