(* ===== verification/Line_Specs.thy ===== *)
theory Line_Specs
  imports Prelude
begin

text \<open>
  \<open>src/src/wudup/line_specs.py\<close>: a comma-separated selection of line numbers and ranges.
  A raised \<open>LineSpecError\<close> is \<open>Inl\<close> of its message.
\<close>

type_synonym 'a checked = "string + 'a"

definition clean_line_spec :: "string option \<Rightarrow> string \<Rightarrow> string option checked" where
  "clean_line_spec spec label =
     (case spec of
        None \<Rightarrow> Inr None
      | Some s \<Rightarrow>
          if s = '''' then Inr None
          else let cleaned = filter (\<lambda>c. \<not> shell_space c) s
               in if cleaned = '''' then Inl (label @ '' must not be empty'')
                  else Inr (Some cleaned))"

definition line_spec_parts :: "string \<Rightarrow> string list" where
  "line_spec_parts cleaned =
     (let parts = split_on (CHR '','') cleaned
      in if last parts = '''' then butlast parts else parts)"

definition check_line_number_bounds :: "int \<Rightarrow> int \<Rightarrow> string \<Rightarrow> unit checked" where
  "check_line_number_bounds line_no max_lines label =
     (if line_no > max_lines
      then Inl (label @ '' references line '' @ show_int line_no @ '', but WUD file has ''
                @ show_int max_lines @ '' line(s)'')
      else Inr ())"

definition parse_line_range :: "string \<Rightarrow> string \<Rightarrow> string \<Rightarrow> int \<Rightarrow> string \<Rightarrow> int list checked" where
  "parse_line_range lo hi spec max_lines label =
     (let start = int (digits_val lo); stop = int (digits_val hi)
      in if start < 1 then Inl (label @ '' line numbers must be 1 or greater: '' @ spec)
         else if stop < start then Inl (label @ '' ranges must ascend: '' @ spec)
         else (case check_line_number_bounds stop max_lines label of
                 Inl e \<Rightarrow> Inl e | Inr _ \<Rightarrow> Inr [start..stop]))"

definition parse_line_number :: "string \<Rightarrow> string \<Rightarrow> int \<Rightarrow> string \<Rightarrow> int checked" where
  "parse_line_number part spec max_lines label =
     (let line_no = int (digits_val part)
      in if line_no < 1 then Inl (label @ '' line numbers must be 1 or greater: '' @ spec)
         else (case check_line_number_bounds line_no max_lines label of
                 Inl e \<Rightarrow> Inl e | Inr _ \<Rightarrow> Inr line_no))"

text \<open>The pattern \<open>(\d+)-(\d+)\<close>, matched against the whole part.\<close>

definition range_match :: "string \<Rightarrow> (string \<times> string) option" where
  "range_match part =
     (case break_at ''-'' part of
        Some (a, b) \<Rightarrow> if all_digits a \<and> all_digits b then Some (a, b) else None
      | None \<Rightarrow> None)"

definition parse_line_spec_part :: "string \<Rightarrow> string \<Rightarrow> int \<Rightarrow> string \<Rightarrow> int list checked" where
  "parse_line_spec_part part spec max_lines label =
     (if part = '''' then Inl (''Invalid '' @ label @ '' value: '' @ spec)
      else case range_match part of
        Some (a, b) \<Rightarrow> parse_line_range a b spec max_lines label
      | None \<Rightarrow>
          if all_digits part
          then (case parse_line_number part spec max_lines label of
                  Inl e \<Rightarrow> Inl e | Inr n \<Rightarrow> Inr [n])
          else Inl (''Invalid '' @ label @ '' value: '' @ spec))"

text \<open>The loop that adds each part's numbers to the set and stops at the first error.\<close>

fun collect_parts :: "string list \<Rightarrow> string \<Rightarrow> int \<Rightarrow> string \<Rightarrow> int list checked" where
  "collect_parts [] spec max_lines label = Inr []"
| "collect_parts (p # ps) spec max_lines label =
     (case parse_line_spec_part p spec max_lines label of
        Inl e \<Rightarrow> Inl e
      | Inr ns \<Rightarrow>
          (case collect_parts ps spec max_lines label of
             Inl e \<Rightarrow> Inl e | Inr rest \<Rightarrow> Inr (ns @ rest)))"

definition parse_line_spec :: "string option \<Rightarrow> int \<Rightarrow> string \<Rightarrow> int list checked" where
  "parse_line_spec spec max_lines label =
     (case clean_line_spec spec label of
        Inl e \<Rightarrow> Inl e
      | Inr None \<Rightarrow> Inr []
      | Inr (Some cleaned) \<Rightarrow>
          (case collect_parts (line_spec_parts cleaned) (the spec) max_lines label of
             Inl e \<Rightarrow> Inl e
           | Inr ns \<Rightarrow> Inr (sorted_set ns)))"

section \<open>Lemmas\<close>

lemma check_bounds_Inr: "check_line_number_bounds n m l = Inr u \<longleftrightarrow> n \<le> m"
  by (auto simp: check_line_number_bounds_def)

lemma parse_line_spec_part_bounds:
  "parse_line_spec_part p s m l = Inr ns \<Longrightarrow> n \<in> set ns \<Longrightarrow> 1 \<le> n \<and> n \<le> m"
  by (auto simp: parse_line_spec_part_def parse_line_range_def parse_line_number_def
      check_line_number_bounds_def Let_def split: if_splits option.splits sum.splits)

lemma collect_parts_bounds:
  "collect_parts ps s m l = Inr ns \<Longrightarrow> n \<in> set ns \<Longrightarrow> 1 \<le> n \<and> n \<le> m"
proof (induction ps arbitrary: ns)
  case Nil
  then show ?case by simp
next
  case (Cons p ps)
  from Cons.prems(1) obtain a b where
    "parse_line_spec_part p s m l = Inr a" "collect_parts ps s m l = Inr b" "ns = a @ b"
    by (auto split: sum.splits)
  with Cons.prems(2) Cons.IH show ?case
    by (auto dest: parse_line_spec_part_bounds)
qed

lemma parse_line_spec_Inr:
  assumes "parse_line_spec spec m l = Inr ns"
  shows "\<exists>ps. ns = sorted_set ps \<and> (\<forall>n \<in> set ps. 1 \<le> n \<and> n \<le> m)"
proof -
  from assms consider "ns = []"
    | c ps where "collect_parts (line_spec_parts c) (the spec) m l = Inr ps" "ns = sorted_set ps"
    by (auto simp: parse_line_spec_def split: sum.splits option.splits)
  then show ?thesis
  proof cases
    case 1
    then show ?thesis by (intro exI[of _ "[]"]) (simp add: sorted_set_def)
  next
    case 2
    then show ?thesis by (blast dest: collect_parts_bounds)
  qed
qed

text \<open>The text of a list of line numbers parses back to those numbers.\<close>

definition line_spec_text :: "int list \<Rightarrow> string" where
  "line_spec_text ns = join_with '','' (map show_int ns)"

lemma digit_plain: "is_digit c \<Longrightarrow> \<not> shell_space c \<and> c \<noteq> CHR '','' \<and> c \<noteq> CHR ''-''"
  by (auto simp: is_digit_def shell_space_def Let_def)

lemma all_digits_range_match: "all_digits p \<Longrightarrow> range_match p = None"
proof -
  assume "all_digits p"
  then have "CHR ''-'' \<notin> set p"
    using digit_plain by (auto simp: all_digits_def list_all_iff)
  then have "break_at ''-'' p = None" by (simp add: break_at_char_None)
  then show ?thesis by (simp add: range_match_def)
qed

lemma parse_show_part:
  assumes "1 \<le> n" and "n \<le> m"
  shows "parse_line_spec_part (show_int n) s m l = Inr [n]"
proof -
  have "all_digits (show_int n)" using assms by (simp add: show_int_def show_nat_digits)
  moreover have "int (digits_val (show_int n)) = n" using assms by (simp add: show_int_def)
  ultimately show ?thesis using assms
    by (auto simp: parse_line_spec_part_def all_digits_range_match parse_line_number_def
        check_line_number_bounds_def Let_def all_digits_def)
qed

lemma collect_show_parts:
  "\<forall>n \<in> set ns. 1 \<le> n \<and> n \<le> m \<Longrightarrow> collect_parts (map show_int ns) s m l = Inr ns"
  by (induction ns) (auto simp: parse_show_part)

lemma parse_line_spec_text:
  assumes "ns \<noteq> []" and "\<forall>n \<in> set ns. 1 \<le> n \<and> n \<le> m"
  shows "parse_line_spec (Some (line_spec_text ns)) m l = Inr (sorted_set ns)"
proof -
  let ?ws = "map show_int ns"
  have d: "\<forall>w \<in> set ?ws. all_digits w" using assms(2) by (auto simp: show_int_def show_nat_digits)
  then have nocomma: "\<forall>w \<in> set ?ws. CHR '','' \<notin> set w \<and> w \<noteq> []"
    using digit_plain by (fastforce simp: all_digits_def list_all_iff)
  have chars: "\<forall>c \<in> set (join_with '','' ?ws). is_digit c \<or> c = CHR '',''"
    using d by (fastforce simp: all_digits_def list_all_iff dest: set_join_with)
  have "\<not> shell_space (CHR '','')" by (simp add: shell_space_def Let_def)
  with chars have clean: "filter (\<lambda>c. \<not> shell_space c) (line_spec_text ns) = line_spec_text ns"
    unfolding line_spec_text_def by (auto simp: filter_id_conv dest: digit_plain)
  have ne: "line_spec_text ns \<noteq> []"
    using assms(1) nocomma by (cases ns rule: list.exhaust; cases "tl ns") (auto simp: line_spec_text_def)
  have "split_on (CHR '','') (line_spec_text ns) = ?ws"
    unfolding line_spec_text_def using nocomma assms(1) by (intro split_join_with) auto
  moreover have "last ?ws \<noteq> []" using nocomma assms(1) by (metis last_in_set map_is_Nil_conv)
  ultimately have "line_spec_parts (line_spec_text ns) = ?ws"
    by (simp add: line_spec_parts_def Let_def)
  then show ?thesis
    using ne clean collect_show_parts [OF assms(2)]
    by (simp add: parse_line_spec_def clean_line_spec_def Let_def)
qed

end
