(* ===== verification/File_System.thy ===== *)
theory File_System
  imports Prelude
begin

text \<open>
  What the program uses of the operating system to rewrite a file: paths, contents, owner
  and mode, and the system calls, each of which may fail. \<open>fault k\<close> says whether the
  \<open>k\<close>-th call from the start raises \<open>OSError\<close>, so a theorem for every \<open>fault\<close> covers a
  failure at every point. \<open>tempfile.mkstemp\<close> makes a file no other name refers to: the
  \<open>Temp\<close> paths. The list a caller passes as \<open>written_hashes\<close> is a mutable object whose
  contents outlive an exception, so it is part of the state; so are the lock directories this
  process made (\<open>fs_dirs\<close>) and the lock objects that hold one (\<open>fs_held\<close>).
\<close>

datatype path = Named string | Temp nat

datatype exc =
    OSError string
  | FileNotFound path
  | OwnerConfigError string
  | ComposeTagRewriteError string
  | LockTimeout string
  | LockError string

record file_meta =
  fm_mode :: nat
  fm_uid :: int
  fm_gid :: int

record fentry =
  f_text :: string
  f_meta :: file_meta

record fs =
  fs_files :: "path \<rightharpoonup> fentry"
  fs_next :: nat
  fs_ops :: nat
  fs_written :: "string list"
  fs_dirs :: "string set"
  fs_held :: "nat set"

text \<open>
  A program reads a context \<open>'c\<close>, changes a state \<open>'s\<close> and returns or raises; the state outlives
  an exception, as it does in Python.
\<close>

type_synonym ('c, 's, 'e, 'a) prog = "'c \<Rightarrow> 's \<Rightarrow> ('e + 'a) \<times> 's"

type_synonym faults = "nat \<Rightarrow> bool"
type_synonym 'a io = "(faults, fs, exc, 'a) prog"

definition io_ret :: "'a \<Rightarrow> ('c, 's, 'e, 'a) prog" where
  "io_ret x fault s = (Inr x, s)"

definition io_raise :: "'e \<Rightarrow> ('c, 's, 'e, 'a) prog" where
  "io_raise e fault s = (Inl e, s)"

definition io_bind ::
  "('c, 's, 'e, 'a) prog \<Rightarrow> ('a \<Rightarrow> ('c, 's, 'e, 'b) prog) \<Rightarrow> ('c, 's, 'e, 'b) prog" where
  "io_bind m f fault s =
     (case m fault s of (Inl e, s') \<Rightarrow> (Inl e, s') | (Inr x, s') \<Rightarrow> f x fault s')"

text \<open>\<open>try: m finally: c\<close>; an exception of the clean-up replaces the outcome.\<close>

definition io_finally ::
  "('c, 's, 'e, 'a) prog \<Rightarrow> (('e + 'a) \<Rightarrow> ('c, 's, 'e, unit) prog) \<Rightarrow> ('c, 's, 'e, 'a) prog" where
  "io_finally m c fault s =
     (case m fault s of (r, s') \<Rightarrow>
        (case c r fault s' of (Inl e, s'') \<Rightarrow> (Inl e, s'') | (Inr _, s'') \<Rightarrow> (r, s'')))"

text \<open>\<open>try: m except ...: h\<close>.\<close>

definition io_catch ::
  "('c, 's, 'e, 'a) prog \<Rightarrow> ('e \<Rightarrow> ('c, 's, 'e, 'a) prog) \<Rightarrow> ('c, 's, 'e, 'a) prog" where
  "io_catch m h fault s =
     (case m fault s of (Inl e, s') \<Rightarrow> h e fault s' | (Inr x, s') \<Rightarrow> (Inr x, s'))"

definition sys :: "string \<Rightarrow> (fs \<Rightarrow> (exc + 'a) \<times> fs) \<Rightarrow> 'a io" where
  "sys name act fault s =
     (let s' = s\<lparr>fs_ops := Suc (fs_ops s)\<rparr>
      in if fault (fs_ops s) then (Inl (OSError name), s') else act s')"

definition stat_meta :: "path \<Rightarrow> file_meta io" where
  "stat_meta p = sys ''stat'' (\<lambda>s.
     case fs_files s p of None \<Rightarrow> (Inl (FileNotFound p), s) | Some f \<Rightarrow> (Inr (f_meta f), s))"

definition path_exists :: "path \<Rightarrow> bool io" where
  "path_exists p = sys ''stat'' (\<lambda>s. (Inr (fs_files s p \<noteq> None), s))"

definition read_text :: "path \<Rightarrow> string io" where
  "read_text p = sys ''read'' (\<lambda>s.
     case fs_files s p of None \<Rightarrow> (Inl (FileNotFound p), s) | Some f \<Rightarrow> (Inr (f_text f), s))"

definition upd_file :: "path \<Rightarrow> (fentry \<Rightarrow> fentry) \<Rightarrow> fs \<Rightarrow> (exc + unit) \<times> fs" where
  "upd_file p g s =
     (case fs_files s p of
        None \<Rightarrow> (Inl (FileNotFound p), s)
      | Some f \<Rightarrow> (Inr (), s\<lparr>fs_files := (fs_files s)(p \<mapsto> g f)\<rparr>))"

definition write_text :: "path \<Rightarrow> string \<Rightarrow> unit io" where
  "write_text p t = sys ''write'' (upd_file p (\<lambda>f. f\<lparr>f_text := t\<rparr>))"

definition chown :: "path \<Rightarrow> int \<Rightarrow> int \<Rightarrow> unit io" where
  "chown p u g = sys ''chown'' (upd_file p (\<lambda>f. f\<lparr>f_meta := (f_meta f)\<lparr>fm_uid := u, fm_gid := g\<rparr>\<rparr>))"

definition chmod :: "path \<Rightarrow> nat \<Rightarrow> unit io" where
  "chmod p m = sys ''chmod'' (upd_file p (\<lambda>f. f\<lparr>f_meta := (f_meta f)\<lparr>fm_mode := m\<rparr>\<rparr>))"

definition fsync :: "unit io" where
  "fsync = sys ''fsync'' (\<lambda>s. (Inr (), s))"

definition mkstemp :: "file_meta \<Rightarrow> path io" where
  "mkstemp meta = sys ''mkstemp'' (\<lambda>s.
     (Inr (Temp (fs_next s)),
      s\<lparr>fs_files := (fs_files s)(Temp (fs_next s) \<mapsto> \<lparr>f_text = '''', f_meta = meta\<rparr>),
        fs_next := Suc (fs_next s)\<rparr>))"

definition unlink :: "path \<Rightarrow> unit io" where
  "unlink p = sys ''unlink'' (\<lambda>s.
     if fs_files s p = None then (Inl (FileNotFound p), s)
     else (Inr (), s\<lparr>fs_files := (fs_files s)(p := None)\<rparr>))"

definition os_replace :: "path \<Rightarrow> path \<Rightarrow> unit io" where
  "os_replace src dst = sys ''rename'' (\<lambda>s.
     case fs_files s src of
       None \<Rightarrow> (Inl (FileNotFound src), s)
     | Some f \<Rightarrow> (Inr (), s\<lparr>fs_files := (fs_files s)(dst \<mapsto> f, src := None)\<rparr>))"

text \<open>\<open>unlink\<close> with \<open>FileNotFoundError\<close> ignored.\<close>

definition unlink_quiet :: "path \<Rightarrow> unit io" where
  "unlink_quiet p =
     io_catch (unlink p)
       (\<lambda>e. case e of FileNotFound q \<Rightarrow> io_ret () | _ \<Rightarrow> io_raise e)"

text \<open>The \<open>finally\<close> of a writer: the temporary file is removed unless it was moved into place.\<close>

definition cleanup_tmp :: "path \<Rightarrow> (exc + 'a) \<Rightarrow> unit io" where
  "cleanup_tmp tmp r = (case r of Inr _ \<Rightarrow> io_ret () | Inl _ \<Rightarrow> unlink_quiet tmp)"

section \<open>Reasoning\<close>

text \<open>
  \<open>holds m Q\<close>: from \<open>s\<close>, whatever fails, the outcome and final state of \<open>m\<close> satisfy \<open>Q\<close>.
  One equation per construct, as for a weakest precondition.
\<close>

definition holds ::
  "('c, 's, 'e, 'a) prog \<Rightarrow> 'c \<Rightarrow> 's \<Rightarrow> (('e + 'a) \<Rightarrow> 's \<Rightarrow> bool) \<Rightarrow> bool" where
  "holds m fault s Q = (case m fault s of (r, s') \<Rightarrow> Q r s')"

named_theorems io_holds "one equation per construct and system call"

lemma holds_ret [io_holds]: "holds (io_ret x) fault s Q = Q (Inr x) s"
  by (simp add: holds_def io_ret_def)

lemma holds_raise [io_holds]: "holds (io_raise e) fault s Q = Q (Inl e) s"
  by (simp add: holds_def io_raise_def)

lemma holds_bind [io_holds]:
  "holds (io_bind m f) fault s Q =
   holds m fault s (\<lambda>r s'. case r of Inl e \<Rightarrow> Q (Inl e) s' | Inr x \<Rightarrow> holds (f x) fault s' Q)"
  by (auto simp: holds_def io_bind_def split: prod.splits sum.splits)

lemma holds_finally [io_holds]:
  "holds (io_finally m c) fault s Q =
   holds m fault s (\<lambda>r s'. holds (c r) fault s' (\<lambda>r' s''.
     case r' of Inl e \<Rightarrow> Q (Inl e) s'' | Inr _ \<Rightarrow> Q r s''))"
  by (auto simp: holds_def io_finally_def split: prod.splits sum.splits)

lemma holds_catch [io_holds]:
  "holds (io_catch m h) fault s Q =
   holds m fault s (\<lambda>r s'. case r of Inl e \<Rightarrow> holds (h e) fault s' Q | Inr x \<Rightarrow> Q (Inr x) s')"
  by (auto simp: holds_def io_catch_def split: prod.splits sum.splits)

lemma holds_sys [io_holds]:
  "holds (sys name act) fault s Q =
   (let s' = s\<lparr>fs_ops := Suc (fs_ops s)\<rparr>
    in if fault (fs_ops s) then Q (Inl (OSError name)) s'
       else (case act s' of (r, s'') \<Rightarrow> Q r s''))"
  by (simp add: holds_def sys_def Let_def)

lemma holds_run: "m fault s = (r, s') \<Longrightarrow> holds m fault s Q \<Longrightarrow> Q r s'"
  by (simp add: holds_def)

lemma holds_result:
  fixes m :: "'a io"
  shows "holds m fault s Q \<Longrightarrow> m fault s = (r, s') \<Longrightarrow> Q r s'"
  by (simp add: holds_def)

lemma holds_intro: "(\<And>r s'. m fault s = (r, s') \<Longrightarrow> Q r s') \<Longrightarrow> holds m fault s Q"
  by (auto simp: holds_def split: prod.splits)

lemma holds_mono:
  "holds m fault s Q \<Longrightarrow> (\<And>r s'. Q r s' \<Longrightarrow> Q' r s') \<Longrightarrow> holds m fault s Q'"
  by (auto simp: holds_def split: prod.splits)

lemma holds_bindI:
  assumes "holds m fault s P" and "\<And>e s'. P (Inl e) s' \<Longrightarrow> Q (Inl e) s'"
    and "\<And>x s'. P (Inr x) s' \<Longrightarrow> holds (f x) fault s' Q"
  shows "holds (io_bind m f) fault s Q"
  unfolding holds_bind using assms by (auto intro: holds_mono split: sum.splits)

lemma holds_conj:
  "holds m fault s Q \<Longrightarrow> holds m fault s Q' \<Longrightarrow> holds m fault s (\<lambda>r s'. Q r s' \<and> Q' r s')"
  by (auto simp: holds_def split: prod.splits)

text \<open>Every temporary file has a number below the next one, so a new one is fresh.\<close>

definition fs_ok :: "fs \<Rightarrow> bool" where
  "fs_ok s = (\<forall>n. fs_files s (Temp n) \<noteq> None \<longrightarrow> n < fs_next s)"

lemma fs_ok_fresh: "fs_ok s \<Longrightarrow> fs_files s (Temp (fs_next s)) = None"
  by (auto simp: fs_ok_def)

end
