(* ===== verification/File_Ops.thy ===== *)
theory File_Ops
  imports File_System
begin

text \<open>
  \<open>src/src/wudup/file_ops.py\<close>: owner configuration, the metadata a rewritten file gets,
  and \<open>atomic_rewrite\<close>, which replaces a file through a temporary one. The process's user
  and group are parameters (\<open>os.getuid\<close>, \<open>os.getgid\<close>).
\<close>

section \<open>Owner configuration\<close>

record owner_config =
  oc_uid :: "int option"
  oc_gid :: "int option"

datatype id_value = IdInt int | IdStr string

definition id_str :: "id_value \<Rightarrow> string" where
  "id_str v = (case v of IdInt i \<Rightarrow> show_int i | IdStr s \<Rightarrow> s)"

definition OWNER_PAIR_ERROR :: string where
  "OWNER_PAIR_ERROR = ''OUT_UID and OUT_GID/OUT_GUID must be set together''"

definition owner_configured :: "owner_config \<Rightarrow> bool" where
  "owner_configured oc = (oc_uid oc \<noteq> None \<or> oc_gid oc \<noteq> None)"

definition id_present :: "id_value option \<Rightarrow> bool" where
  "id_present v = (case v of None \<Rightarrow> False | Some x \<Rightarrow> id_str x \<noteq> '''')"

definition parse_numeric_id :: "string \<Rightarrow> id_value option \<Rightarrow> exc + int" where
  "parse_numeric_id name v =
     (let t = (case v of None \<Rightarrow> ''None'' | Some x \<Rightarrow> id_str x)
      in if all_digits t then Inr (int (digits_val t))
         else Inl (OwnerConfigError (name @ '' must be numeric'')))"

definition owner_from_values ::
  "id_value option \<Rightarrow> id_value option \<Rightarrow> id_value option \<Rightarrow> exc + owner_config" where
  "owner_from_values out_uid out_gid out_guid =
     (let gid_value = (if id_present out_gid then out_gid else out_guid)
      in if id_present out_uid \<or> id_present gid_value
         then (if \<not> id_present out_uid \<or> \<not> id_present gid_value
               then Inl (OwnerConfigError OWNER_PAIR_ERROR)
               else case parse_numeric_id ''OUT_UID'' out_uid of
                 Inl e \<Rightarrow> Inl e
               | Inr u \<Rightarrow>
                   (case parse_numeric_id ''OUT_GID/OUT_GUID'' gid_value of
                      Inl e \<Rightarrow> Inl e
                    | Inr g \<Rightarrow> Inr \<lparr>oc_uid = Some u, oc_gid = Some g\<rparr>))
         else Inr \<lparr>oc_uid = None, oc_gid = None\<rparr>)"

definition owner_from_env :: "(string \<rightharpoonup> string) \<Rightarrow> exc + owner_config" where
  "owner_from_env env =
     owner_from_values (map_option IdStr (env ''OUT_UID'')) (map_option IdStr (env ''OUT_GID''))
       (map_option IdStr (env ''OUT_GUID''))"

section \<open>Metadata\<close>

fun show_oct :: "nat \<Rightarrow> string" where
  "show_oct n = (if n < 8 then [digit_char n] else show_oct (n div 8) @ [digit_char (n mod 8)])"

declare show_oct.simps [simp del]

text \<open>\<open>owner or OwnerConfig()\<close>.\<close>

definition owner_or_default :: "owner_config option \<Rightarrow> owner_config" where
  "owner_or_default o' = (case o' of None \<Rightarrow> \<lparr>oc_uid = None, oc_gid = None\<rparr> | Some oc \<Rightarrow> oc)"

definition with_owner :: "owner_config \<Rightarrow> file_meta \<Rightarrow> file_meta io" where
  "with_owner oc meta =
     (if owner_configured oc
      then (case (oc_uid oc, oc_gid oc) of
              (Some u, Some g) \<Rightarrow> io_ret (meta\<lparr>fm_uid := u, fm_gid := g\<rparr>)
            | _ \<Rightarrow> io_raise (OwnerConfigError OWNER_PAIR_ERROR))
      else io_ret meta)"

definition desired_metadata ::
  "int \<Rightarrow> int \<Rightarrow> path \<Rightarrow> owner_config option \<Rightarrow> nat \<Rightarrow> file_meta io" where
  "desired_metadata getuid getgid target ow default_mode =
     io_bind (path_exists target) (\<lambda>ex.
     io_bind (if ex then stat_meta target
              else io_ret (if getuid = 0 then \<lparr>fm_mode = default_mode, fm_uid = 1000, fm_gid = 1000\<rparr>
                           else \<lparr>fm_mode = default_mode, fm_uid = getuid, fm_gid = getgid\<rparr>))
       (with_owner (owner_or_default ow)))"

definition apply_configured_owner :: "path \<Rightarrow> owner_config option \<Rightarrow> unit io" where
  "apply_configured_owner target ow =
     (let oc = owner_or_default ow
      in if \<not> owner_configured oc then io_ret ()
         else case (oc_uid oc, oc_gid oc) of
           (Some u, Some g) \<Rightarrow>
             io_bind (stat_meta target) (\<lambda>st.
               if fm_uid st \<noteq> u \<or> fm_gid st \<noteq> g then chown target u g else io_ret ())
         | _ \<Rightarrow> io_raise (OwnerConfigError OWNER_PAIR_ERROR))"

definition meta_text :: "file_meta \<Rightarrow> string" where
  "meta_text m = show_oct (fm_mode m) @ '' '' @ show_int (fm_uid m) @ '':'' @ show_int (fm_gid m)"

definition apply_metadata :: "path \<Rightarrow> file_meta \<Rightarrow> unit io" where
  "apply_metadata target meta =
     io_bind (stat_meta target) (\<lambda>st.
     io_bind (if fm_uid st \<noteq> fm_uid meta \<or> fm_gid st \<noteq> fm_gid meta
              then chown target (fm_uid meta) (fm_gid meta) else io_ret ()) (\<lambda>_.
     io_bind (chmod target (fm_mode meta)) (\<lambda>_.
     io_bind (stat_meta target) (\<lambda>actual.
       if actual \<noteq> meta
       then io_raise (OSError (''Metadata verification failed: wanted '' @ meta_text meta
                               @ '', got '' @ meta_text actual))
       else io_ret ()))))"

section \<open>Atomic rewrite\<close>

text \<open>
  \<open>mkstemp\<close> creates its file with mode 0600 and the process's owner. Directories are not
  modelled: \<open>create_parent\<close> is one more call that may fail.
\<close>

definition atomic_rewrite ::
  "int \<Rightarrow> int \<Rightarrow> path \<Rightarrow> string \<Rightarrow> owner_config option \<Rightarrow> path option \<Rightarrow> nat \<Rightarrow> bool \<Rightarrow> unit io"
where
  "atomic_rewrite getuid getgid target content ow metadata_source default_mode create_parent =
     io_bind (if create_parent then sys ''mkdir'' (\<lambda>s. (Inr (), s)) else io_ret ()) (\<lambda>_.
     io_bind (desired_metadata getuid getgid
                (case metadata_source of None \<Rightarrow> target | Some p \<Rightarrow> p) ow default_mode) (\<lambda>metadata.
     io_bind (mkstemp \<lparr>fm_mode = 384, fm_uid = getuid, fm_gid = getgid\<rparr>) (\<lambda>tmp.
     io_finally
       (io_bind (write_text tmp content) (\<lambda>_.
        io_bind (apply_metadata tmp metadata) (\<lambda>_.
        os_replace tmp target)))
       (cleanup_tmp tmp))))"

section \<open>Lemmas\<close>

lemmas io_calls = stat_meta_def path_exists_def read_text_def write_text_def chown_def chmod_def
  fsync_def mkstemp_def unlink_def os_replace_def unlink_quiet_def upd_file_def

text \<open>The state a call leaves differs from the old one at temporary files only.\<close>

definition only_temps :: "fs \<Rightarrow> fs \<Rightarrow> bool" where
  "only_temps s s' = ((\<forall>n. fs_files s' (Named n) = fs_files s (Named n)) \<and>
     fs_written s' = fs_written s \<and> fs_dirs s' = fs_dirs s \<and> fs_held s' = fs_held s)"

text \<open>One file, \<open>p\<close>, was replaced by an entry with this text and metadata.\<close>

definition replaced :: "string \<Rightarrow> string \<Rightarrow> file_meta \<Rightarrow> fs \<Rightarrow> fs \<Rightarrow> bool" where
  "replaced n t m s s' =
     (fs_files s' (Named n) = Some \<lparr>f_text = t, f_meta = m\<rparr> \<and>
      (\<forall>k. k \<noteq> n \<longrightarrow> fs_files s' (Named k) = fs_files s (Named k)) \<and>
      fs_written s' = fs_written s \<and> fs_dirs s' = fs_dirs s \<and> fs_held s' = fs_held s)"

lemma desired_metadata_frame:
  "holds (desired_metadata u g p ow mode) fault s (\<lambda>r s'. only_temps s s' \<and>
     fs_files s' = fs_files s \<and> fs_next s' = fs_next s)"
  by (simp add: desired_metadata_def with_owner_def io_holds io_calls Let_def only_temps_def
      split: sum.splits option.splits prod.splits)

lemma fentry_eta: "f = \<lparr>f_text = f_text f, f_meta = f_meta f\<rparr>"
  by simp

lemma file_meta_eqI:
  "fm_mode a = fm_mode b \<Longrightarrow> fm_uid a = fm_uid b \<Longrightarrow> fm_gid a = fm_gid b \<Longrightarrow> a = (b::file_meta)"
  by simp

lemma apply_metadata_holds:
  assumes "fs_files s (Temp k) = Some f"
  shows "holds (apply_metadata (Temp k) meta) fault s (\<lambda>r s'. only_temps s s' \<and>
     fs_next s' = fs_next s \<and>
     (\<forall>j. j \<noteq> k \<longrightarrow> fs_files s' (Temp j) = fs_files s (Temp j)) \<and>
     (\<exists>m. fs_files s' (Temp k) = Some \<lparr>f_text = f_text f, f_meta = m\<rparr> \<and>
       (r = Inr () \<longrightarrow> m = meta)))"
  using assms
  by (cases f; cases meta)
    (auto simp: apply_metadata_def io_holds io_calls Let_def only_temps_def split: if_splits)

lemma atomic_rewrite_tail:
  assumes tmp: "fs_files s (Temp k) = Some f"
  shows "holds (io_finally
       (io_bind (write_text (Temp k) content) (\<lambda>_.
        io_bind (apply_metadata (Temp k) meta) (\<lambda>_.
        os_replace (Temp k) (Named n))))
       (cleanup_tmp (Temp k))) fault s
     (\<lambda>r s'. (\<forall>j. j \<noteq> k \<longrightarrow> fs_files s' (Temp j) = fs_files s (Temp j)) \<and> fs_next s' = fs_next s \<and>
       (case r of Inr _ \<Rightarrow> replaced n content meta s s' \<and> fs_files s' (Temp k) = None
        | Inl e \<Rightarrow> only_temps s s' \<and> (e \<noteq> OSError ''unlink'' \<longrightarrow> fs_files s' (Temp k) = None)))"
proof (cases "fault (fs_ops s)")
  case True
  with tmp show ?thesis
    by (auto simp: io_holds io_calls Let_def only_temps_def cleanup_tmp_def)
next
  case False
  define s1 where "s1 = s\<lparr>fs_ops := Suc (fs_ops s),
     fs_files := (fs_files s)(Temp k \<mapsto> f\<lparr>f_text := content\<rparr>)\<rparr>"
  have w: "write_text (Temp k) content fault s = (Inr (), s1)"
    using False tmp by (simp add: write_text_def sys_def Let_def upd_file_def s1_def)
  have "fs_files s1 (Temp k) = Some (f\<lparr>f_text := content\<rparr>)" by (simp add: s1_def)
  note am = apply_metadata_holds [OF this, of meta fault]
  obtain r2 s2 where r2: "apply_metadata (Temp k) meta fault s1 = (r2, s2)" by fastforce
  from holds_result [OF am r2] have s2: "only_temps s1 s2" "fs_next s2 = fs_next s1"
    "\<And>j. j \<noteq> k \<Longrightarrow> fs_files s2 (Temp j) = fs_files s1 (Temp j)"
    and "\<exists>m. fs_files s2 (Temp k) = Some \<lparr>f_text = content, f_meta = m\<rparr> \<and> (r2 = Inr () \<longrightarrow> m = meta)"
    by auto
  then obtain m where m: "fs_files s2 (Temp k) = Some \<lparr>f_text = content, f_meta = m\<rparr>"
    "r2 = Inr () \<longrightarrow> m = meta" by blast
  from s2 have s1s2: "only_temps s s2" "fs_next s2 = fs_next s" "\<And>j. j \<noteq> k \<Longrightarrow> fs_files s2 (Temp j) = fs_files s (Temp j)"
    by (auto simp: only_temps_def s1_def)
  show ?thesis
  proof (cases r2)
    case (Inl e)
    with m s1s2 show ?thesis
      by (simp add: holds_def io_finally_def io_bind_def w r2)
        (auto simp: io_calls sys_def Let_def only_temps_def io_catch_def io_ret_def io_raise_def
          cleanup_tmp_def)
  next
    case (Inr u)
    with m s1s2 show ?thesis
      by (simp add: holds_def io_finally_def io_bind_def w r2)
        (auto simp: io_calls sys_def Let_def only_temps_def replaced_def io_catch_def io_ret_def
          io_raise_def cleanup_tmp_def)
  qed
qed

text \<open>
  \<open>atomic_rewrite\<close> is atomic under any failure: it returns with the whole new content in
  place, or raises with every file as it was. A temporary file is left behind only when
  removing it failed.
\<close>

lemma atomic_rewrite_holds:
  assumes ok: "fs_ok s"
  shows "holds (atomic_rewrite u g (Named n) content ow src mode mk) fault s (\<lambda>r s'. fs_ok s' \<and> (
     case r of Inr _ \<Rightarrow> (\<exists>m. replaced n content m s s') \<and> (\<forall>k. fs_files s' (Temp k) = fs_files s (Temp k))
     | Inl e \<Rightarrow> only_temps s s' \<and>
         (e \<noteq> OSError ''unlink'' \<longrightarrow> (\<forall>k. fs_files s' (Temp k) = fs_files s (Temp k)))))"
proof -
  let ?src = "case src of None \<Rightarrow> Named n | Some p \<Rightarrow> p"
  obtain r0 s0 where 0: "(if mk then sys ''mkdir'' (\<lambda>s. (Inr (), s)) else io_ret ()) fault s = (r0, s0)"
    by fastforce
  have s0: "only_temps s s0" "fs_files s0 = fs_files s" "fs_next s0 = fs_next s"
    using 0 by (auto simp: sys_def io_ret_def only_temps_def Let_def split: if_splits)
  obtain r1 s1 where 1: "desired_metadata u g ?src ow mode fault s0 = (r1, s1)" by fastforce
  have s1: "only_temps s s1" "fs_files s1 = fs_files s" "fs_next s1 = fs_next s"
    using holds_result [OF desired_metadata_frame 1] s0 by (auto simp: only_temps_def)
  have fresh: "fs_files s (Temp (fs_next s)) = None" using ok by (rule fs_ok_fresh)
  have ok0: "fs_ok s0" "fs_ok s1" "fs_ok (s1\<lparr>fs_ops := k\<rparr>)" for k
    using ok s0 s1 by (simp_all add: fs_ok_def)
  obtain r2 s2 where 2: "mkstemp \<lparr>fm_mode = 384, fm_uid = u, fm_gid = g\<rparr> fault s1 = (r2, s2)"
    by fastforce
  show ?thesis
  proof (cases "isl r0 \<or> isl r1 \<or> isl r2")
    case True
    with s0 s1 ok0 show ?thesis
      by (auto simp: holds_def atomic_rewrite_def io_bind_def 0 1 2 only_temps_def isl_def
          split: sum.splits)
        (use 2 in \<open>auto simp: mkstemp_def sys_def Let_def split: if_splits\<close>)
  next
    case False
    then obtain x0 m x2 where r: "r0 = Inr x0" "r1 = Inr m" "r2 = Inr x2"
      by (cases r0; cases r1; cases r2) auto
    with 2 s1 have x2: "x2 = Temp (fs_next s)" "fs_next s2 = Suc (fs_next s)"
      and s2: "only_temps s s2" "\<And>j. j \<noteq> fs_next s \<Longrightarrow> fs_files s2 (Temp j) = fs_files s (Temp j)"
      and tmp: "\<exists>f. fs_files s2 (Temp (fs_next s)) = Some f"
      by (auto simp: mkstemp_def sys_def Let_def only_temps_def split: if_splits)
    from tmp obtain f where f: "fs_files s2 (Temp (fs_next s)) = Some f" by blast
    have tail: "atomic_rewrite u g (Named n) content ow src mode mk fault s =
      io_finally
       (io_bind (write_text (Temp (fs_next s)) content) (\<lambda>_.
        io_bind (apply_metadata (Temp (fs_next s)) m) (\<lambda>_.
        os_replace (Temp (fs_next s)) (Named n))))
       (cleanup_tmp (Temp (fs_next s))) fault s2"
      by (simp add: atomic_rewrite_def io_bind_def 0 1 2 r x2)
    have okI: "fs_ok s'" if "fs_next s' = fs_next s2"
      "\<forall>j. j \<noteq> fs_next s \<longrightarrow> fs_files s' (Temp j) = fs_files s2 (Temp j)" for s'
      unfolding fs_ok_def
    proof (intro allI impI)
      fix j assume "fs_files s' (Temp j) \<noteq> None"
      then show "j < fs_next s'"
        using ok that s2(2) [of j] x2(2) by (cases "j = fs_next s") (auto simp: fs_ok_def intro: less_SucI)
    qed
    show ?thesis
      unfolding holds_def tail
      using atomic_rewrite_tail [OF f, of content m n fault, unfolded holds_def] s2 fresh
      by (auto intro!: okI simp: only_temps_def replaced_def split: sum.splits prod.splits) metis+
  qed
qed

end
