(* ===== verification/Compose_Persistence.thy ===== *)
theory Compose_Persistence
  imports File_Ops
begin

text \<open>
  \<open>src/src/wudup/compose_persistence.py\<close>: guarded replacement, backup and restoration of a
  Compose file. The SHA-256 of a text is a parameter \<open>sha\<close>, and \<open>unsup\<close> says whether the
  file system reports that it cannot sync a directory (\<open>_DIRECTORY_SYNC_UNSUPPORTED\<close>). The
  caller's \<open>written_hashes\<close> list is \<open>fs_written\<close>; \<open>tracked\<close> says whether one was passed.
\<close>

definition compose_source_hash :: "(string \<Rightarrow> string) \<Rightarrow> path \<Rightarrow> string io" where
  "compose_source_hash sha p = io_bind (read_text p) (\<lambda>t. io_ret (sha t))"

definition os_open :: "unit io" where
  "os_open = sys ''open'' (\<lambda>s. (Inr (), s))"

definition os_flock :: "unit io" where
  "os_flock = sys ''flock'' (\<lambda>s. (Inr (), s))"

definition os_close :: "unit io" where
  "os_close = sys ''close'' (\<lambda>s. (Inr (), s))"

definition compose_write_lock :: "'a io \<Rightarrow> 'a io" where
  "compose_write_lock body =
     io_bind os_open (\<lambda>_. io_finally (io_bind os_flock (\<lambda>_. body)) (\<lambda>_. os_close))"

definition fsync_path :: "unit io" where
  "fsync_path = io_bind os_open (\<lambda>_. io_finally fsync (\<lambda>_. os_close))"

definition fsync_directory :: "bool \<Rightarrow> unit io" where
  "fsync_directory unsup =
     io_bind os_open (\<lambda>_.
       io_finally (io_catch fsync (\<lambda>e. if unsup then io_ret () else io_raise e)) (\<lambda>_. os_close))"

definition sync_replaced_compose :: "bool \<Rightarrow> bool \<Rightarrow> bool io" where
  "sync_replaced_compose unsup can_roll_back =
     io_catch (io_bind (fsync_directory unsup) (\<lambda>_. io_ret True))
       (\<lambda>e. if \<not> can_roll_back then io_ret False
            else io_raise (ComposeTagRewriteError
              ''The Compose file was replaced, but its folder could not be synced to disk''))"

definition record_written :: "bool \<Rightarrow> string \<Rightarrow> unit io" where
  "record_written tracked h fault s =
     (Inr (), if tracked then s\<lparr>fs_written := fs_written s @ [h]\<rparr> else s)"

text \<open>\<open>tmp_path\<close> is \<open>None\<close> once the temporary file was moved over the Compose file.\<close>

definition unlink_if_left :: "path \<Rightarrow> unit io" where
  "unlink_if_left tmp fault s =
     (if fs_files s tmp = None then io_ret () fault s else unlink_quiet tmp fault s)"

definition check_expected_hash :: "(string \<Rightarrow> string) \<Rightarrow> path \<Rightarrow> string \<Rightarrow> string option \<Rightarrow> unit io" where
  "check_expected_hash sha compose pfx expected =
     (case expected of
        None \<Rightarrow> io_ret ()
      | Some h \<Rightarrow>
          io_bind (compose_source_hash sha compose) (\<lambda>cur.
            if cur \<noteq> h
            then io_raise (ComposeTagRewriteError
              (if startswith pfx ''tracking-''
               then ''Compose file changed before tracking repair; preview it again.''
               else ''Compose file changed before it could be rewritten; retry from a fresh state.''))
            else io_ret ()))"

definition tmp_meta :: file_meta where
  "tmp_meta = \<lparr>fm_mode = 384, fm_uid = 0, fm_gid = 0\<rparr>"

definition atomic_replace_compose ::
  "(string \<Rightarrow> string) \<Rightarrow> bool \<Rightarrow> path \<Rightarrow> string \<Rightarrow> string \<Rightarrow> string option \<Rightarrow> bool \<Rightarrow> bool io"
where
  "atomic_replace_compose sha unsup compose rendered pfx expected tracked =
     io_bind (mkstemp tmp_meta) (\<lambda>tmp.
     io_finally
       (io_bind (write_text tmp rendered) (\<lambda>_.
        compose_write_lock
          (io_bind (stat_meta compose) (\<lambda>st.
           io_bind (chown tmp (fm_uid st) (fm_gid st)) (\<lambda>_.
           io_bind (chmod tmp (fm_mode st)) (\<lambda>_.
           io_bind fsync_path (\<lambda>_.
           io_bind (check_expected_hash sha compose pfx expected) (\<lambda>_.
           io_bind (os_replace tmp compose) (\<lambda>_.
           io_bind (record_written tracked (sha rendered)) (\<lambda>_.
           sync_replaced_compose unsup tracked))))))))))
       (\<lambda>_. unlink_if_left tmp))"

definition restore_compose_backup ::
  "(string \<Rightarrow> string) \<Rightarrow> bool \<Rightarrow> path \<Rightarrow> path \<Rightarrow> string \<Rightarrow> bool io" where
  "restore_compose_backup sha unsup backup compose expected =
     io_bind (read_text backup) (\<lambda>t.
       atomic_replace_compose sha unsup compose t ''rollback'' (Some expected) False)"

text \<open>\<open>shutil.copy2\<close>: the content, then the mode.\<close>

definition copy2 :: "path \<Rightarrow> path \<Rightarrow> unit io" where
  "copy2 src dst =
     io_bind (read_text src) (\<lambda>t.
     io_bind (write_text dst t) (\<lambda>_.
     io_bind (stat_meta src) (\<lambda>st. chmod dst (fm_mode st))))"

definition backup_compose :: "bool \<Rightarrow> path \<Rightarrow> path io" where
  "backup_compose unsup compose =
     io_bind (mkstemp tmp_meta) (\<lambda>backup.
     io_bind os_close (\<lambda>_.
     io_catch
       (io_bind (compose_write_lock
          (io_bind (copy2 compose backup) (\<lambda>_.
           io_bind fsync_path (\<lambda>_. fsync_directory unsup)))) (\<lambda>_. io_ret backup))
       (\<lambda>e. io_bind (unlink_quiet backup) (\<lambda>_. io_raise e))))"

section \<open>Replacement\<close>

lemmas persistence_defs = compose_source_hash_def os_open_def os_flock_def os_close_def
  compose_write_lock_def fsync_path_def fsync_directory_def sync_replaced_compose_def
  check_expected_hash_def unlink_quiet_def

lemma holds_record [io_holds]:
  "holds (record_written tr h) fault s Q = Q (Inr ()) (if tr then s\<lparr>fs_written := fs_written s @ [h]\<rparr> else s)"
  by (simp add: holds_def record_written_def)

lemma holds_unlink_if_left [io_holds]:
  "holds (unlink_if_left p) fault s Q =
   (if fs_files s p = None then Q (Inr ()) s else holds (unlink_quiet p) fault s Q)"
  by (simp add: holds_def unlink_if_left_def io_ret_def)

text \<open>Calls that touch no file: only the count of calls moves on.\<close>

definition same_files :: "fs \<Rightarrow> fs \<Rightarrow> bool" where
  "same_files s s' = (fs_files s' = fs_files s \<and> fs_next s' = fs_next s \<and> fs_written s' = fs_written s \<and>
     fs_dirs s' = fs_dirs s \<and> fs_held s' = fs_held s)"

lemma fsync_path_same: "holds fsync_path fault s (\<lambda>r s'. same_files s s')"
  by (simp add: persistence_defs fsync_def io_holds Let_def same_files_def split: sum.splits)

lemma fsync_directory_same: "holds (fsync_directory unsup) fault s (\<lambda>r s'. same_files s s')"
  by (simp add: persistence_defs fsync_def io_holds Let_def same_files_def split: sum.splits)

lemma sync_replaced_same:
  "holds (sync_replaced_compose unsup t) fault s (\<lambda>r s'. same_files s s' \<and> (t \<longrightarrow> r \<noteq> Inr False))"
  unfolding sync_replaced_compose_def holds_catch holds_bind
  by (rule holds_mono [OF fsync_directory_same]) (auto simp: io_holds split: sum.splits)

lemma check_expected_same:
  "holds (check_expected_hash sha p pfx ex) fault s (\<lambda>r s'. same_files s s' \<and>
     (r = Inr () \<longrightarrow> (\<forall>h. ex = Some h \<longrightarrow> (\<exists>f. fs_files s p = Some f \<and> sha (f_text f) = h))))"
  by (cases ex) (auto simp: persistence_defs read_text_def io_holds Let_def same_files_def
      split: option.splits)

text \<open>The Compose file \<open>n\<close> got the text \<open>t\<close>, keeping its owner and mode.\<close>

definition swapped :: "(string \<Rightarrow> string) \<Rightarrow> bool \<Rightarrow> string \<Rightarrow> string \<Rightarrow> fs \<Rightarrow> fs \<Rightarrow> bool" where
  "swapped sha tracked n t s s' =
     ((\<exists>f. fs_files s (Named n) = Some f \<and>
        fs_files s' (Named n) = Some \<lparr>f_text = t, f_meta = f_meta f\<rparr>) \<and>
      (\<forall>k. k \<noteq> n \<longrightarrow> fs_files s' (Named k) = fs_files s (Named k)) \<and>
      fs_written s' = (if tracked then fs_written s @ [sha t] else fs_written s) \<and>
      fs_dirs s' = fs_dirs s \<and> fs_held s' = fs_held s)"

definition hash_is :: "(string \<Rightarrow> string) \<Rightarrow> string option \<Rightarrow> string \<Rightarrow> fs \<Rightarrow> bool" where
  "hash_is sha expected n s =
     (\<forall>h. expected = Some h \<longrightarrow> (\<exists>f. fs_files s (Named n) = Some f \<and> sha (f_text f) = h))"

definition other_temps :: "nat \<Rightarrow> fs \<Rightarrow> fs \<Rightarrow> bool" where
  "other_temps k s s' =
     ((\<forall>j. j \<noteq> k \<longrightarrow> fs_files s' (Temp j) = fs_files s (Temp j)) \<and> fs_next s' = fs_next s)"

text \<open>The temporary file \<open>k\<close> holds \<open>t\<close> and the named files are those of \<open>s\<close>.\<close>

definition staged :: "nat \<Rightarrow> string \<Rightarrow> fs \<Rightarrow> fs \<Rightarrow> bool" where
  "staged k t s s' = (only_temps s s' \<and> other_temps k s s' \<and>
     (\<exists>f. fs_files s' (Temp k) = Some f \<and> f_text f = t))"

definition moved ::
  "(string \<Rightarrow> string) \<Rightarrow> bool \<Rightarrow> string \<Rightarrow> string \<Rightarrow> string option \<Rightarrow> nat \<Rightarrow> fs \<Rightarrow> fs \<Rightarrow> bool" where
  "moved sha tracked n t ex k s s' =
     (swapped sha tracked n t s s' \<and> hash_is sha ex n s \<and> other_temps k s s' \<and>
      fs_files s' (Temp k) = None)"

lemma staged_same: "staged k t s s1 \<Longrightarrow> same_files s1 s2 \<Longrightarrow> staged k t s s2"
  by (simp add: staged_def same_files_def only_temps_def other_temps_def)

lemma moved_same: "moved sha tr n t ex k s s1 \<Longrightarrow> same_files s1 s2 \<Longrightarrow> moved sha tr n t ex k s s2"
  by (simp add: moved_def swapped_def same_files_def other_temps_def)

lemma replace_tail:
  assumes "staged k t s s1" and "fs_files s1 (Temp k) = Some \<lparr>f_text = t, f_meta = f_meta f\<rparr>"
    and "fs_files s (Named n) = Some f" and "hash_is sha ex n s"
  shows "holds (io_bind (os_replace (Temp k) (Named n)) (\<lambda>_.
           io_bind (record_written tracked (sha t)) (\<lambda>_.
           sync_replaced_compose unsup tracked))) fault s1
     (\<lambda>r s'. (isl r \<and> staged k t s s') \<or>
       (moved sha tracked n t ex k s s' \<and> (case r of Inl _ \<Rightarrow> tracked | Inr b \<Rightarrow> tracked \<longrightarrow> b)))"
proof (cases "fault (fs_ops s1)")
  case True
  with assms(1) show ?thesis
    by (simp add: io_holds os_replace_def Let_def)
      (auto simp: staged_def only_temps_def other_temps_def)
next
  case False
  define s2 where "s2 = s1\<lparr>fs_ops := Suc (fs_ops s1),
    fs_files := (fs_files s1)(Named n \<mapsto> \<lparr>f_text = t, f_meta = f_meta f\<rparr>, Temp k := None)\<rparr>"
  define s3 where "s3 = (if tracked then s2\<lparr>fs_written := fs_written s2 @ [sha t]\<rparr> else s2)"
  have m3: "moved sha tracked n t ex k s s3"
    using assms by (auto simp: moved_def swapped_def s3_def s2_def staged_def only_temps_def other_temps_def)
  have eq: "holds (io_bind (os_replace (Temp k) (Named n)) (\<lambda>_.
           io_bind (record_written tracked (sha t)) (\<lambda>_.
           sync_replaced_compose unsup tracked))) fault s1 Q =
        holds (sync_replaced_compose unsup tracked) fault s3 Q" for Q
    using False assms(2) by (simp add: io_holds os_replace_def Let_def s3_def s2_def)
  have iso: "\<not> tracked \<Longrightarrow> sync_replaced_compose unsup tracked fault s3 = (r, s') \<Longrightarrow> \<not> isl r" for r s'
    by (auto simp: sync_replaced_compose_def io_catch_def io_bind_def io_ret_def
        split: prod.splits sum.splits)
  show ?thesis
    unfolding eq
  proof (rule holds_intro)
    fix r s' assume run: "sync_replaced_compose unsup tracked fault s3 = (r, s')"
    have "same_files s3 s' \<and> (tracked \<longrightarrow> r \<noteq> Inr False)"
      by (rule holds_result [OF sync_replaced_same run])
    moreover have iso': "tracked \<or> \<not> isl r" using iso run by blast
    ultimately show "(isl r \<and> staged k t s s') \<or>
       (moved sha tracked n t ex k s s' \<and> (case r of Inl _ \<Rightarrow> tracked | Inr b \<Rightarrow> tracked \<longrightarrow> b))"
      using m3 iso' by (cases r) (auto dest: moved_same)
  qed
qed

definition replace_outcome ::
  "(string \<Rightarrow> string) \<Rightarrow> bool \<Rightarrow> string \<Rightarrow> string \<Rightarrow> string option \<Rightarrow> nat \<Rightarrow> fs \<Rightarrow> (exc + bool) \<Rightarrow> fs \<Rightarrow> bool"
where
  "replace_outcome sha tracked n t ex k s r s' =
     ((isl r \<and> staged k t s s') \<or>
      (moved sha tracked n t ex k s s' \<and>
       (case r of Inl e \<Rightarrow> tracked \<or> e = OSError ''close'' | Inr b \<Rightarrow> tracked \<longrightarrow> b)))"

lemma staged_hash:
  "staged k t s s2 \<Longrightarrow>
   \<forall>h. ex = Some h \<longrightarrow> (\<exists>f. fs_files s2 (Named n) = Some f \<and> sha (f_text f) = h) \<Longrightarrow>
   hash_is sha ex n s"
  by (auto simp: hash_is_def staged_def only_temps_def)

lemma replace_guarded:
  assumes s2: "staged k t s s2" and tmp: "fs_files s2 (Temp k) = Some \<lparr>f_text = t, f_meta = f_meta f\<rparr>"
    and f: "fs_files s (Named n) = Some f"
  shows "holds (io_bind fsync_path (\<lambda>_.
           io_bind (check_expected_hash sha (Named n) pfx ex) (\<lambda>_.
           io_bind (os_replace (Temp k) (Named n)) (\<lambda>_.
           io_bind (record_written tracked (sha t)) (\<lambda>_.
           sync_replaced_compose unsup tracked))))) fault s2
    (\<lambda>r s'. (isl r \<and> staged k t s s') \<or>
       (moved sha tracked n t ex k s s' \<and> (case r of Inl _ \<Rightarrow> tracked | Inr b \<Rightarrow> tracked \<longrightarrow> b)))"
    (is "holds ?m fault s2 ?Q")
proof (rule holds_bindI [OF fsync_path_same])
  show "?Q (Inl e) s3" if "same_files s2 s3" for e s3
    using staged_same [OF s2 that] by simp
next
  fix s3 assume s3: "same_files s2 s3"
  show "holds (io_bind (check_expected_hash sha (Named n) pfx ex) (\<lambda>_.
         io_bind (os_replace (Temp k) (Named n)) (\<lambda>_.
         io_bind (record_written tracked (sha t)) (\<lambda>_.
         sync_replaced_compose unsup tracked)))) fault s3 ?Q"
  proof (rule holds_bindI [OF check_expected_same])
    show "?Q (Inl e) s4" if "same_files s3 s4 \<and> (Inl e = Inr () \<longrightarrow> (\<forall>h. ex = Some h \<longrightarrow>
        (\<exists>f. fs_files s3 (Named n) = Some f \<and> sha (f_text f) = h)))" for e s4
      using staged_same [OF staged_same [OF s2 s3]] that by simp
  next
    fix u :: unit and s4
    assume a: "same_files s3 s4 \<and> (Inr u = (Inr () :: exc + unit) \<longrightarrow> (\<forall>h. ex = Some h \<longrightarrow>
        (\<exists>f. fs_files s3 (Named n) = Some f \<and> sha (f_text f) = h)))"
    have s4: "staged k t s s4" using staged_same [OF staged_same [OF s2 s3]] a by simp
    moreover have "fs_files s4 (Temp k) = Some \<lparr>f_text = t, f_meta = f_meta f\<rparr>"
      using tmp s3 a by (simp add: same_files_def)
    moreover have "hash_is sha ex n s"
      using staged_hash [OF staged_same [OF s2 s3]] a by simp
    ultimately show "holds (io_bind (os_replace (Temp k) (Named n)) (\<lambda>_.
         io_bind (record_written tracked (sha t)) (\<lambda>_.
         sync_replaced_compose unsup tracked))) fault s4 ?Q"
      using f by (intro replace_tail)
  qed
qed

lemma replace_locked:
  assumes st: "staged k t s s1"
  shows "holds (io_bind (stat_meta (Named n)) (\<lambda>st.
           io_bind (chown (Temp k) (fm_uid st) (fm_gid st)) (\<lambda>_.
           io_bind (chmod (Temp k) (fm_mode st)) (\<lambda>_.
           io_bind fsync_path (\<lambda>_.
           io_bind (check_expected_hash sha (Named n) pfx ex) (\<lambda>_.
           io_bind (os_replace (Temp k) (Named n)) (\<lambda>_.
           io_bind (record_written tracked (sha t)) (\<lambda>_.
           sync_replaced_compose unsup tracked)))))))) fault s1
    (\<lambda>r s'. (isl r \<and> staged k t s s') \<or>
       (moved sha tracked n t ex k s s' \<and> (case r of Inl _ \<Rightarrow> tracked | Inr b \<Rightarrow> tracked \<longrightarrow> b)))"
    (is "holds ?m fault s1 ?Q")
proof -
  obtain g where g: "fs_files s1 (Temp k) = Some g" "f_text g = t"
    using st by (auto simp: staged_def)
  let ?P = "\<lambda>st s'. staged k t s s' \<and> (\<exists>f. fs_files s (Named n) = Some f \<and> f_meta f = st)"
  have 1: "holds (stat_meta (Named n)) fault s1
      (\<lambda>r s'. case r of Inl e \<Rightarrow> staged k t s s' | Inr st \<Rightarrow> ?P st s')"
    using st by (simp add: stat_meta_def io_holds Let_def split: option.splits)
      (auto simp: staged_def only_temps_def other_temps_def)
  have 2: "holds (chown (Temp k) (fm_uid st) (fm_gid st)) fault s2
      (\<lambda>r s'. case r of Inl e \<Rightarrow> staged k t s s'
        | Inr _ \<Rightarrow> ?P st s' \<and> (\<exists>g. fs_files s' (Temp k) = Some g \<and>
             fm_uid (f_meta g) = fm_uid st \<and> fm_gid (f_meta g) = fm_gid st))"
    if "?P st s2" for st s2
    using that by (simp add: chown_def io_holds Let_def upd_file_def split: option.splits)
      (auto simp: staged_def only_temps_def other_temps_def)
  have 3: "holds (chmod (Temp k) (fm_mode st)) fault s2
      (\<lambda>r s'. case r of Inl e \<Rightarrow> staged k t s s'
        | Inr _ \<Rightarrow> ?P st s' \<and> fs_files s' (Temp k) = Some \<lparr>f_text = t, f_meta = st\<rparr>)"
    if "?P st s2" and "\<exists>g. fs_files s2 (Temp k) = Some g \<and>
             fm_uid (f_meta g) = fm_uid st \<and> fm_gid (f_meta g) = fm_gid st" for st s2
    using that by (simp add: chmod_def io_holds Let_def upd_file_def split: option.splits)
      (auto simp: staged_def only_temps_def other_temps_def intro: file_meta_eqI)
  show ?thesis
  proof (rule holds_bindI [OF 1])
    fix st s2 assume "case Inr st of Inl (e::exc) \<Rightarrow> staged k t s s2 | Inr st \<Rightarrow> ?P st s2"
    then have P2: "?P st s2" by simp
    show "holds (io_bind (chown (Temp k) (fm_uid st) (fm_gid st)) (\<lambda>_.
           io_bind (chmod (Temp k) (fm_mode st)) (\<lambda>_.
           io_bind fsync_path (\<lambda>_.
           io_bind (check_expected_hash sha (Named n) pfx ex) (\<lambda>_.
           io_bind (os_replace (Temp k) (Named n)) (\<lambda>_.
           io_bind (record_written tracked (sha t)) (\<lambda>_.
           sync_replaced_compose unsup tracked))))))) fault s2 ?Q"
      by (rule holds_bindI [OF 2 [OF P2]], simp, rule holds_bindI [OF 3])
        (auto intro: replace_guarded)
  qed simp
qed

lemma holds_lock:
  assumes "\<And>s'. same_files s s' \<Longrightarrow> holds body fault s' Q"
    and "\<And>e s'. same_files s s' \<Longrightarrow> Q (Inl e) s'"
    and "\<And>r s' s''. Q r s' \<Longrightarrow> same_files s' s'' \<Longrightarrow> Q' r s''"
    and "\<And>r s' s''. Q r s' \<Longrightarrow> same_files s' s'' \<Longrightarrow> Q' (Inl (OSError ''close'')) s''"
    and "\<And>e s'. same_files s s' \<Longrightarrow> Q' (Inl e) s'"
  shows "holds (compose_write_lock body) fault s Q'"
proof -
  let ?s1 = "s\<lparr>fs_ops := Suc (fs_ops s)\<rparr>"
  let ?s2 = "s\<lparr>fs_ops := Suc (Suc (fs_ops s))\<rparr>"
  have same: "same_files s ?s1" "same_files s ?s2" by (simp_all add: same_files_def)
  have close: "holds os_close fault s' (\<lambda>r' s''. case r' of Inl e \<Rightarrow> Q' (Inl e) s'' | Inr _ \<Rightarrow> Q' r s'')"
    if "Q r s'" for r s'
    using assms(3,4) [OF that] by (simp add: os_close_def holds_sys Let_def same_files_def)
  have "holds (io_bind os_flock (\<lambda>_. body)) fault ?s1
     (\<lambda>r s'. holds os_close fault s' (\<lambda>r' s''. case r' of Inl e \<Rightarrow> Q' (Inl e) s'' | Inr _ \<Rightarrow> Q' r s''))"
    unfolding holds_bind os_flock_def holds_sys Let_def
    using assms(1,2) same by (auto intro!: close holds_mono [OF assms(1)])
  then show ?thesis
    using assms(5) same
    by (simp add: compose_write_lock_def holds_bind holds_finally os_open_def holds_sys Let_def)
qed

lemma replace_body:
  assumes st: "staged k t s s1"
  shows "holds (compose_write_lock (io_bind (stat_meta (Named n)) (\<lambda>st.
           io_bind (chown (Temp k) (fm_uid st) (fm_gid st)) (\<lambda>_.
           io_bind (chmod (Temp k) (fm_mode st)) (\<lambda>_.
           io_bind fsync_path (\<lambda>_.
           io_bind (check_expected_hash sha (Named n) pfx ex) (\<lambda>_.
           io_bind (os_replace (Temp k) (Named n)) (\<lambda>_.
           io_bind (record_written tracked (sha t)) (\<lambda>_.
           sync_replaced_compose unsup tracked))))))))) fault s1 (replace_outcome sha tracked n t ex k s)"
  by (rule holds_lock, rule replace_locked)
    (auto intro: staged_same [OF st] simp: replace_outcome_def dest: staged_same moved_same
      split: sum.splits)

text \<open>
  The whole call. \<open>fs_ok\<close> (temporary names are fresh) is kept, no other temporary file
  changes, and the new one is gone unless removing it failed.
\<close>

definition atomic_replace_outcome ::
  "(string \<Rightarrow> string) \<Rightarrow> bool \<Rightarrow> string \<Rightarrow> string \<Rightarrow> string option \<Rightarrow> fs \<Rightarrow> (exc + bool) \<Rightarrow> fs \<Rightarrow> bool"
where
  "atomic_replace_outcome sha tracked n t ex s r s' =
     (((isl r \<and> only_temps s s') \<or>
       (swapped sha tracked n t s s' \<and> hash_is sha ex n s \<and>
        (case r of Inl e \<Rightarrow> tracked \<or> e = OSError ''close'' | Inr b \<Rightarrow> tracked \<longrightarrow> b))) \<and>
      fs_ok s' \<and> (\<forall>j < fs_next s. fs_files s' (Temp j) = fs_files s (Temp j)) \<and>
      fs_next s \<le> fs_next s')"

definition after_mkstemp :: "fs \<Rightarrow> fs" where
  "after_mkstemp s = s\<lparr>fs_ops := Suc (fs_ops s),
     fs_files := (fs_files s)(Temp (fs_next s) \<mapsto> \<lparr>f_text = '''', f_meta = tmp_meta\<rparr>),
     fs_next := Suc (fs_next s)\<rparr>"

lemma atomic_replace_cleanup:
  assumes ok: "fs_ok s"
    and r: "(isl r \<and> staged (fs_next s) '''' (after_mkstemp s) s') \<or>
      replace_outcome sha tracked n t ex (fs_next s) (after_mkstemp s) r s'"
  shows "holds (unlink_if_left (Temp (fs_next s))) fault s' (\<lambda>r' s''. case r' of
     Inl e \<Rightarrow> atomic_replace_outcome sha tracked n t ex s (Inl e) s''
   | Inr _ \<Rightarrow> atomic_replace_outcome sha tracked n t ex s r s'')"
proof -
  have old: "j < Suc (fs_next s)" if "fs_files s (Temp j) = Some y" for j y
    using ok that by (auto simp: fs_ok_def intro: less_SucI)
  from r consider "isl r" "\<exists>u. staged (fs_next s) u (after_mkstemp s) s'"
    | "moved sha tracked n t ex (fs_next s) (after_mkstemp s) s'"
      "case r of Inl e \<Rightarrow> tracked \<or> e = OSError ''close'' | Inr b \<Rightarrow> tracked \<longrightarrow> b"
    by (auto simp: replace_outcome_def)
  then show ?thesis
  proof cases
    case 1
    then have "only_temps s s'" "fs_files s' (Temp (fs_next s)) \<noteq> None"
      "\<And>j. j \<noteq> fs_next s \<Longrightarrow> fs_files s' (Temp j) = fs_files s (Temp j)" "fs_next s' = Suc (fs_next s)"
      by (auto simp: staged_def only_temps_def other_temps_def after_mkstemp_def)
    moreover from this have "j < Suc (fs_next s)" if "fs_files s' (Temp j) = Some y" for j y
      using that old by (cases "j = fs_next s") auto
    ultimately show ?thesis using 1(1) old
      by (simp add: io_holds unlink_quiet_def unlink_def Let_def)
        (auto simp: atomic_replace_outcome_def only_temps_def fs_ok_def)
  next
    case 2
    then have "swapped sha tracked n t s s'" "hash_is sha ex n s" "fs_files s' (Temp (fs_next s)) = None"
      "\<And>j. j \<noteq> fs_next s \<Longrightarrow> fs_files s' (Temp j) = fs_files s (Temp j)" "fs_next s' = Suc (fs_next s)"
      by (auto simp: moved_def swapped_def hash_is_def other_temps_def after_mkstemp_def)
    moreover from this have "j < Suc (fs_next s)" if "fs_files s' (Temp j) = Some y" for j y
      using that old by (cases "j = fs_next s") auto
    ultimately show ?thesis using 2(2)
      by (simp add: io_holds) (auto simp: atomic_replace_outcome_def fs_ok_def)
  qed
qed

lemma atomic_replace_holds:
  assumes ok: "fs_ok s"
  shows "holds (atomic_replace_compose sha unsup (Named n) t pfx ex tracked) fault s
           (atomic_replace_outcome sha tracked n t ex s)"
proof -
  let ?k = "fs_next s"
  let ?s1 = "after_mkstemp s"
  let ?body = "io_bind (stat_meta (Named n)) (\<lambda>st.
           io_bind (chown (Temp ?k) (fm_uid st) (fm_gid st)) (\<lambda>_.
           io_bind (chmod (Temp ?k) (fm_mode st)) (\<lambda>_.
           io_bind fsync_path (\<lambda>_.
           io_bind (check_expected_hash sha (Named n) pfx ex) (\<lambda>_.
           io_bind (os_replace (Temp ?k) (Named n)) (\<lambda>_.
           io_bind (record_written tracked (sha t)) (\<lambda>_.
           sync_replaced_compose unsup tracked)))))))"
  show ?thesis
  proof (cases "fault (fs_ops s)")
    case True
    with ok show ?thesis
      by (simp add: atomic_replace_compose_def mkstemp_def io_holds Let_def
          atomic_replace_outcome_def only_temps_def fs_ok_def)
  next
    case False
    then have mk: "holds (atomic_replace_compose sha unsup (Named n) t pfx ex tracked) fault s Q =
      holds (io_finally (io_bind (write_text (Temp ?k) t) (\<lambda>_. compose_write_lock ?body))
        (\<lambda>_. unlink_if_left (Temp ?k))) fault ?s1 Q" for Q
      by (simp add: atomic_replace_compose_def mkstemp_def holds_bind holds_sys Let_def after_mkstemp_def)
    have w: "holds (write_text (Temp ?k) t) fault ?s1 (\<lambda>r s'. case r of
        Inl e \<Rightarrow> staged ?k '''' ?s1 s' | Inr _ \<Rightarrow> staged ?k t ?s1 s')"
      by (simp add: write_text_def io_holds Let_def upd_file_def after_mkstemp_def)
        (auto simp: staged_def only_temps_def other_temps_def)
    have inner: "holds (io_bind (write_text (Temp ?k) t) (\<lambda>_. compose_write_lock ?body)) fault ?s1
        (\<lambda>r s'. (isl r \<and> staged ?k '''' ?s1 s') \<or> replace_outcome sha tracked n t ex ?k ?s1 r s')"
      by (rule holds_bindI [OF w]) (auto intro: holds_mono [OF replace_body])
    show ?thesis
      unfolding mk holds_finally
      by (rule holds_mono [OF inner]) (rule atomic_replace_cleanup [OF ok])
  qed
qed

section \<open>Backup and restoration\<close>

lemma copy2_holds:
  assumes "staged k u s s1"
  shows "holds (copy2 (Named n) (Temp k)) fault s1 (\<lambda>r s'. case r of
     Inl _ \<Rightarrow> \<exists>u. staged k u s s'
   | Inr _ \<Rightarrow> \<exists>f. fs_files s (Named n) = Some f \<and> staged k (f_text f) s s')"
  using assms
  by (simp add: copy2_def io_holds read_text_def write_text_def stat_meta_def chmod_def upd_file_def Let_def
      split: option.splits)
    (auto simp: staged_def only_temps_def other_temps_def)

definition backup_outcome :: "string \<Rightarrow> fs \<Rightarrow> (exc + path) \<Rightarrow> fs \<Rightarrow> bool" where
  "backup_outcome n s r s' =
     (only_temps s s' \<and> fs_ok s' \<and> fs_next s \<le> fs_next s' \<and>
      (\<forall>j < fs_next s. fs_files s' (Temp j) = fs_files s (Temp j)) \<and>
      (case r of
         Inl _ \<Rightarrow> True
       | Inr b \<Rightarrow> b = Temp (fs_next s) \<and> fs_next s < fs_next s' \<and>
           (\<exists>f g. fs_files s (Named n) = Some f \<and> fs_files s' b = Some g \<and> f_text g = f_text f)))"

lemma staged_mkstemp:
  assumes "fs_ok s" and "staged (fs_next s) u (after_mkstemp s) s'"
  shows "only_temps s s'" "fs_next s' = Suc (fs_next s)" "fs_ok s'"
    "\<forall>j < fs_next s. fs_files s' (Temp j) = fs_files s (Temp j)"
    "\<exists>g. fs_files s' (Temp (fs_next s)) = Some g \<and> f_text g = u"
proof -
  have eq: "fs_next s' = Suc (fs_next s)"
    "\<And>j. j \<noteq> fs_next s \<Longrightarrow> fs_files s' (Temp j) = fs_files s (Temp j)"
    using assms(2) by (auto simp: staged_def only_temps_def other_temps_def after_mkstemp_def)
  then show "fs_next s' = Suc (fs_next s)" "\<forall>j < fs_next s. fs_files s' (Temp j) = fs_files s (Temp j)"
    by auto
  show "only_temps s s'" "\<exists>g. fs_files s' (Temp (fs_next s)) = Some g \<and> f_text g = u"
    using assms(2) by (auto simp: staged_def only_temps_def other_temps_def after_mkstemp_def)
  show "fs_ok s'"
    unfolding fs_ok_def
  proof (intro allI impI)
    fix j assume "fs_files s' (Temp j) \<noteq> None"
    then show "j < fs_next s'"
      using eq assms(1) by (cases "j = fs_next s") (auto simp: fs_ok_def intro: less_SucI)
  qed
qed

lemma backup_cleanup:
  assumes "fs_ok s" and "staged (fs_next s) u (after_mkstemp s) s'"
  shows "holds (io_bind (unlink_quiet (Temp (fs_next s))) (\<lambda>_. io_raise e)) fault s' (backup_outcome n s)"
proof -
  note sm = staged_mkstemp [OF assms]
  then have "j < Suc (fs_next s)" if "fs_files s' (Temp j) = Some y" for j y
    using that by (auto simp: fs_ok_def)
  with sm show ?thesis
    by (simp add: io_holds unlink_quiet_def unlink_def Let_def)
      (auto simp: backup_outcome_def only_temps_def fs_ok_def)
qed

text \<open>What is copied under the lock: the temporary file ends as a copy of the Compose file.\<close>

definition backup_copy :: "bool \<Rightarrow> path \<Rightarrow> path \<Rightarrow> unit io" where
  "backup_copy unsup compose backup =
     io_bind (copy2 compose backup) (\<lambda>_. io_bind fsync_path (\<lambda>_. fsync_directory unsup))"

definition copied :: "string \<Rightarrow> nat \<Rightarrow> fs \<Rightarrow> (exc + unit) \<Rightarrow> fs \<Rightarrow> bool" where
  "copied n k s r s' = (case r of Inl _ \<Rightarrow> \<exists>u. staged k u s s'
     | Inr _ \<Rightarrow> \<exists>f. fs_files s (Named n) = Some f \<and> staged k (f_text f) s s')"

lemma copied_same: "copied n k s r s1 \<Longrightarrow> same_files s1 s2 \<Longrightarrow> copied n k s r s2"
  by (auto simp: copied_def dest: staged_same split: sum.splits)

lemma copied_raise: "copied n k s r s1 \<Longrightarrow> copied n k s (Inl e) s1"
  by (auto simp: copied_def split: sum.splits)

lemma staged_after_mkstemp: "same_files (after_mkstemp s) s' \<Longrightarrow> staged (fs_next s) '''' (after_mkstemp s) s'"
  by (rule staged_same) (simp_all add: staged_def only_temps_def other_temps_def after_mkstemp_def)

lemma backup_copy_holds:
  assumes "staged k u s s1"
  shows "holds (backup_copy unsup (Named n) (Temp k)) fault s1 (copied n k s)"
  unfolding backup_copy_def
proof (rule holds_bindI [OF copy2_holds [OF assms, of n fault]])
  fix x :: unit and s2
  assume "case Inr x of Inl (_::exc) \<Rightarrow> \<exists>u. staged k u s s2
    | Inr _ \<Rightarrow> \<exists>f. fs_files s (Named n) = Some f \<and> staged k (f_text f) s s2"
  then have s2: "copied n k s (Inr ()) s2" by (simp add: copied_def)
  show "holds (io_bind fsync_path (\<lambda>_. fsync_directory unsup)) fault s2 (copied n k s)"
  proof (rule holds_bindI [OF fsync_path_same])
    fix s3 assume s3: "same_files s2 s3"
    show "holds (fsync_directory unsup) fault s3 (copied n k s)"
    proof (rule holds_mono [OF fsync_directory_same])
      fix r :: "exc + unit" and s4 assume "same_files s3 s4"
      then have "copied n k s (Inr ()) s4" by (rule copied_same [OF copied_same [OF s2 s3]])
      then show "copied n k s r s4" by (cases r) (auto intro: copied_raise)
    qed
  qed (blast intro: copied_raise copied_same s2)
qed (simp add: copied_def)

lemma backup_locked_holds:
  assumes "same_files (after_mkstemp s) s'"
  shows "holds (compose_write_lock (backup_copy unsup (Named n) (Temp (fs_next s)))) fault s'
           (copied n (fs_next s) (after_mkstemp s))"
proof (rule holds_lock)
  show "holds (backup_copy unsup (Named n) (Temp (fs_next s))) fault s''
      (copied n (fs_next s) (after_mkstemp s))" if "same_files s' s''" for s''
    by (rule backup_copy_holds) (rule staged_same [OF staged_after_mkstemp [OF assms] that])
qed (use staged_after_mkstemp [OF assms] in
    \<open>auto simp: copied_def dest: staged_same split: sum.splits\<close>)

lemma backup_finish:
  assumes "fs_ok s" and "copied n (fs_next s) (after_mkstemp s) (Inr ()) s'"
  shows "backup_outcome n s (Inr (Temp (fs_next s))) s'"
proof -
  from assms(2) obtain f where f: "fs_files s (Named n) = Some f"
    "staged (fs_next s) (f_text f) (after_mkstemp s) s'"
    by (auto simp: copied_def after_mkstemp_def)
  from staged_mkstemp [OF assms(1) f(2)] f(1) show ?thesis by (simp add: backup_outcome_def)
qed

lemma backup_after_close:
  assumes "fs_ok s" and "same_files (after_mkstemp s) s'"
  shows "holds (io_catch
       (io_bind (compose_write_lock (backup_copy unsup (Named n) (Temp (fs_next s))))
          (\<lambda>_. io_ret (Temp (fs_next s))))
       (\<lambda>e. io_bind (unlink_quiet (Temp (fs_next s))) (\<lambda>_. io_raise e))) fault s' (backup_outcome n s)"
  unfolding holds_catch holds_bind [of "compose_write_lock _"]
proof (rule holds_mono [OF backup_locked_holds [OF assms(2), of unsup n fault]])
  fix r :: "exc + unit" and s''
  assume r: "copied n (fs_next s) (after_mkstemp s) r s''"
  show "case r of Inl e \<Rightarrow> (case Inl e of
         Inl e \<Rightarrow> holds (io_bind (unlink_quiet (Temp (fs_next s))) (\<lambda>_. io_raise e)) fault s'' (backup_outcome n s)
       | Inr x \<Rightarrow> backup_outcome n s (Inr x) s'')
     | Inr x \<Rightarrow> holds (io_ret (Temp (fs_next s))) fault s'' (\<lambda>r s'. case r of
         Inl e \<Rightarrow> holds (io_bind (unlink_quiet (Temp (fs_next s))) (\<lambda>_. io_raise e)) fault s' (backup_outcome n s)
       | Inr x \<Rightarrow> backup_outcome n s (Inr x) s')"
    using r backup_cleanup [OF assms(1)] backup_finish [OF assms(1), of n s'']
    by (cases r) (auto simp: holds_ret copied_def)
qed

lemma backup_compose_holds:
  assumes ok: "fs_ok s"
  shows "holds (backup_compose unsup (Named n)) fault s (backup_outcome n s)"
proof (cases "fault (fs_ops s)")
  case True
  with ok show ?thesis
    by (simp add: backup_compose_def mkstemp_def io_holds Let_def backup_outcome_def only_temps_def fs_ok_def)
next
  case False
  let ?s1 = "(after_mkstemp s)\<lparr>fs_ops := Suc (fs_ops (after_mkstemp s))\<rparr>"
  have start: "holds (backup_compose unsup (Named n)) fault s Q = holds os_close fault (after_mkstemp s)
     (\<lambda>r s'. case r of Inl e \<Rightarrow> Q (Inl e) s' | Inr _ \<Rightarrow> holds (io_catch
       (io_bind (compose_write_lock (backup_copy unsup (Named n) (Temp (fs_next s))))
          (\<lambda>_. io_ret (Temp (fs_next s))))
       (\<lambda>e. io_bind (unlink_quiet (Temp (fs_next s))) (\<lambda>_. io_raise e))) fault s' Q)" for Q
    using False by (simp add: backup_compose_def backup_copy_def mkstemp_def holds_bind holds_sys Let_def
        after_mkstemp_def cong: sum.case_cong)
  have same: "same_files (after_mkstemp s) ?s1" by (simp add: same_files_def)
  from staged_mkstemp [OF ok staged_after_mkstemp [OF same]] have "backup_outcome n s (Inl e) ?s1" for e
    by (auto simp: backup_outcome_def)
  with backup_after_close [OF ok same, of unsup n fault] show ?thesis
    unfolding start os_close_def holds_sys Let_def by simp
qed

section \<open>Rolling back\<close>

text \<open>
  What the updater does with these calls: each rewrite is guarded by the hash of the version
  it wrote last, or of the backup before the first (\<open>_expected_compose_hash\<close> of
  \<open>updater_lifecycle_rewrite.py\<close>), and the first exception ends the sequence.
\<close>

definition expected_hash :: "(string \<Rightarrow> string) \<Rightarrow> path \<Rightarrow> string io" where
  "expected_hash sha backup fault s =
     (if fs_written s \<noteq> [] then (Inr (last (fs_written s)), s)
      else compose_source_hash sha backup fault s)"

fun write_versions ::
  "(string \<Rightarrow> string) \<Rightarrow> bool \<Rightarrow> path \<Rightarrow> path \<Rightarrow> (string \<times> string) list \<Rightarrow> unit io" where
  "write_versions sha unsup compose backup [] = io_ret ()"
| "write_versions sha unsup compose backup ((t, pfx) # vs) =
     io_bind (expected_hash sha backup) (\<lambda>h.
     io_bind (atomic_replace_compose sha unsup compose t pfx (Some h) True) (\<lambda>_.
     write_versions sha unsup compose backup vs))"

text \<open>
  \<open>since n b s s'\<close>: only the text of \<open>n\<close> and temporary files other than \<open>b\<close> changed, and
  the recorded hash is that of the current text.
\<close>

definition since :: "(string \<Rightarrow> string) \<Rightarrow> string \<Rightarrow> nat \<Rightarrow> fs \<Rightarrow> fs \<Rightarrow> bool" where
  "since sha n b s s' =
     ((\<exists>f g. fs_files s (Named n) = Some f \<and> fs_files s' (Named n) = Some g \<and> f_meta g = f_meta f \<and>
        (fs_written s' \<noteq> [] \<longrightarrow> sha (f_text g) = last (fs_written s')) \<and>
        (fs_written s' = [] \<longrightarrow> g = f)) \<and>
      (\<forall>k. k \<noteq> n \<longrightarrow> fs_files s' (Named k) = fs_files s (Named k)) \<and>
      fs_files s' (Temp b) = fs_files s (Temp b) \<and> b < fs_next s' \<and> fs_ok s')"

lemma since_replace:
  assumes "since sha n b s s1" and "atomic_replace_outcome sha True n t ex s1 r s2"
  shows "since sha n b s s2"
  using assms by (auto simp: since_def atomic_replace_outcome_def only_temps_def swapped_def)

lemma expected_hash_same: "holds (expected_hash sha p) fault s (\<lambda>r s'. same_files s s')"
  by (simp add: holds_def expected_hash_def)
    (auto simp: compose_source_hash_def io_bind_def io_ret_def read_text_def sys_def Let_def
      same_files_def split: option.splits prod.splits sum.splits if_splits)

lemma since_same: "since sha n b s s1 \<Longrightarrow> same_files s1 s2 \<Longrightarrow> since sha n b s s2"
  by (simp add: since_def same_files_def fs_ok_def)

lemma write_versions_since:
  "since sha n b s s1 \<Longrightarrow>
   holds (write_versions sha unsup (Named n) (Temp b) vs) fault s1 (\<lambda>r s'. since sha n b s s')"
proof (induction vs arbitrary: s1)
  case Nil
  then show ?case by (simp add: holds_ret)
next
  case (Cons v vs)
  obtain t pfx where v: "v = (t, pfx)" by (cases v)
  have ok: "since sha n b s s' \<Longrightarrow> fs_ok s'" for s' by (simp add: since_def)
  show ?case
    unfolding v write_versions.simps
  proof (rule holds_bindI [OF expected_hash_same])
    fix h s2 assume "same_files s1 s2"
    then have s2: "since sha n b s s2" by (rule since_same [OF Cons.prems])
    show "holds (io_bind (atomic_replace_compose sha unsup (Named n) t pfx (Some h) True) (\<lambda>_.
        write_versions sha unsup (Named n) (Temp b) vs)) fault s2 (\<lambda>r s'. since sha n b s s')"
      by (rule holds_bindI [OF atomic_replace_holds [OF ok [OF s2]]])
        (auto intro: Cons.IH since_replace [OF s2])
  qed (rule since_same [OF Cons.prems])
qed

lemma backup_since:
  assumes "backup_outcome n s (Inr b) s1" and "fs_written s = []"
  shows "\<exists>j. b = Temp j \<and> since sha n j s1 s1"
  using assms by (auto simp: backup_outcome_def since_def only_temps_def)

text \<open>
  The end-to-end guarantee: back up, write any versions with any failures, restore guarded by
  the last recorded hash. If the restore returns, every file of the directory is the original.
\<close>

lemma rollback_restores_holds:
  assumes bk: "backup_outcome n s (Inr b) s1" and w: "fs_written s = []"
    and run: "write_versions sha unsup (Named n) b vs fault s1 = (r, s2)"
    and ne: "fs_written s2 \<noteq> []"
    and res: "restore_compose_backup sha unsup b (Named n) (last (fs_written s2)) fault s2 = (Inr d, s3)"
  shows "\<forall>k. fs_files s3 (Named k) = fs_files s (Named k)"
proof -
  obtain j where j: "b = Temp j" "since sha n j s1 s1" using backup_since [OF bk w] by blast
  have s2: "since sha n j s1 s2"
    using holds_result [OF write_versions_since [OF j(2)]] run j(1) by blast
  obtain f g where fg: "fs_files s (Named n) = Some f" "fs_files s1 b = Some g" "f_text g = f_text f"
    and named: "\<And>k. fs_files s1 (Named k) = fs_files s (Named k)"
    using bk by (auto simp: backup_outcome_def only_temps_def)
  from res obtain t s2' where rd: "read_text b fault s2 = (Inr t, s2')"
    and rep: "atomic_replace_compose sha unsup (Named n) t ''rollback'' (Some (last (fs_written s2)))
        False fault s2' = (Inr d, s3)"
    by (auto simp: restore_compose_backup_def io_bind_def split: prod.splits sum.splits)
  have b2: "fs_files s2 b = Some g" using s2 fg(2) j(1) by (simp add: since_def)
  from rd b2 have t: "t = f_text f" "same_files s2 s2'"
    using fg(3) by (auto simp: read_text_def sys_def Let_def same_files_def split: if_splits)
  have s2': "since sha n j s1 s2'" using since_same [OF s2 t(2)] .
  have "fs_ok s2'" using s2' by (simp add: since_def)
  then have "holds (atomic_replace_compose sha unsup (Named n) t ''rollback'' (Some (last (fs_written s2)))
      False) fault s2' (atomic_replace_outcome sha False n t (Some (last (fs_written s2))) s2')"
    by (rule atomic_replace_holds)
  then have "atomic_replace_outcome sha False n t (Some (last (fs_written s2))) s2' (Inr d) s3"
    unfolding holds_def rep by simp
  then have sw: "swapped sha False n t s2' s3" by (auto simp: atomic_replace_outcome_def)
  obtain f2 where f2: "fs_files s2' (Named n) = Some f2" "f_meta f2 = f_meta f"
    using s2' named [of n] fg(1) by (auto simp: since_def)
  then have "fs_files s3 (Named n) = Some \<lparr>f_text = f_text f, f_meta = f_meta f\<rparr>"
    using sw t(1) by (auto simp: swapped_def)
  then have "fs_files s3 (Named n) = fs_files s (Named n)" using fg(1) by simp
  moreover have "fs_files s3 (Named k) = fs_files s (Named k)" if "k \<noteq> n" for k
    using sw s2' named [of k] that by (simp add: swapped_def since_def)
  ultimately show ?thesis by metis
qed

end
