(* ===== verification/Images.thy ===== *)
theory Images
  imports Prelude
begin

text \<open>
  \<open>src/src/wudup/images.py\<close> and the names of \<open>naming.py\<close> the model uses: splitting an
  image reference into registry, repository, tag and digest, building a reference with
  another tag or digest, and the key under which a Compose image and a WUD entry are
  compared.
\<close>

section \<open>Names\<close>

definition DIGEST_PIN_MARKER_PREFIX :: string where
  "DIGEST_PIN_MARKER_PREFIX = ''wudup.resolved-tag=''"

definition LEGACY_DIGEST_PIN_MARKER_PREFIX :: string where
  "LEGACY_DIGEST_PIN_MARKER_PREFIX = ''wud-updater.resolved-tag=''"

text \<open>\<open>env_value\<close>: an empty canonical value counts as missing, a legacy one does not.\<close>

definition env_value :: "(string \<rightharpoonup> string) \<Rightarrow> string \<Rightarrow> string option \<Rightarrow> string option" where
  "env_value env canonical legacy =
     (case env canonical of
        Some v \<Rightarrow> if v \<noteq> [] then Some v
                  else (case legacy of None \<Rightarrow> None | Some l \<Rightarrow> env l)
      | None \<Rightarrow> (case legacy of None \<Rightarrow> None | Some l \<Rightarrow> env l))"

section \<open>Image references\<close>

definition trim :: "string \<Rightarrow> string" where
  "trim value = strip_by shell_space value"

definition strip_digest :: "string \<Rightarrow> string" where
  "strip_digest img = before_first ''@sha256:'' img"

definition normalize_digest :: "string \<Rightarrow> string" where
  "normalize_digest digest =
     (if digest = '''' then ''''
      else let d = (case break_at ''@'' digest of None \<Rightarrow> digest | Some (_, b) \<Rightarrow> b)
           in if startswith d ''sha256:'' then d else ''sha256:'' @ d)"

definition drop_registry :: "string \<Rightarrow> string" where
  "drop_registry img0 =
     (let img = strip_digest img0 in
      case break_at ''/'' img of
        None \<Rightarrow> img
      | Some (left, rest) \<Rightarrow>
          if CHR ''.'' \<in> set left \<or> CHR '':'' \<in> set left \<or> left = ''localhost'' then rest
          else img)"

text \<open>\<open>image.rsplit("/", 1)[-1]\<close>.\<close>

definition last_segment :: "string \<Rightarrow> string" where
  "last_segment s = (case rbreak_char (CHR ''/'') s of None \<Rightarrow> s | Some (_, b) \<Rightarrow> b)"

definition image_has_tag :: "string \<Rightarrow> bool" where
  "image_has_tag img = (CHR '':'' \<in> set (last_segment (strip_digest img)))"

definition image_tag :: "string \<Rightarrow> string" where
  "image_tag img =
     (case rbreak_char (CHR '':'') (last_segment (strip_digest img)) of
        None \<Rightarrow> '''' | Some (_, tag) \<Rightarrow> tag)"

definition image_key :: "string \<Rightarrow> string" where
  "image_key img = drop_registry img"

definition repo_key :: "string \<Rightarrow> string" where
  "repo_key img =
     (let key = image_key img in
      if CHR '':'' \<in> set (last_segment key)
      then (case rbreak_char (CHR '':'') key of None \<Rightarrow> key | Some (a, _) \<Rightarrow> a)
      else key)"

definition image_repo_ref :: "string \<Rightarrow> string" where
  "image_repo_ref img0 =
     (let img = strip_digest img0;
          untag = (\<lambda>seg. case rbreak_char (CHR '':'') seg of None \<Rightarrow> seg | Some (a, _) \<Rightarrow> a)
      in case rbreak_char (CHR ''/'') img of
           None \<Rightarrow> untag img
         | Some (pre, seg) \<Rightarrow> pre @ ''/'' @ untag seg)"

definition image_with_tag :: "string \<Rightarrow> string \<Rightarrow> string" where
  "image_with_tag img tag = image_repo_ref img @ '':'' @ tag"

definition image_with_digest :: "string \<Rightarrow> string \<Rightarrow> string" where
  "image_with_digest img digest = image_repo_ref img @ ''@'' @ normalize_digest digest"

text \<open>The pattern \<open>\w[\w.-]{0,127}\<close>, matched against the whole tag.\<close>

definition tag_char :: "char \<Rightarrow> bool" where
  "tag_char c = (is_word c \<or> c = CHR ''.'' \<or> c = CHR ''-'')"

definition tag_value_valid :: "string \<Rightarrow> bool" where
  "tag_value_valid tag =
     (case tag of [] \<Rightarrow> False
      | c # cs \<Rightarrow> is_word c \<and> list_all tag_char cs \<and> length cs \<le> 127)"

definition image_matches_resolved_target :: "string \<Rightarrow> string \<Rightarrow> bool \<Rightarrow> bool" where
  "image_matches_resolved_target img resolved allow_repo =
     (if image_has_tag resolved \<and> image_key img = image_key resolved then True
      else allow_repo \<and> repo_key img = repo_key resolved)"

section \<open>Lemmas\<close>

lemma trim_idem [simp]: "trim (trim s) = trim s"
  by (simp add: trim_def)

lemma strip_digest_idem [simp]: "strip_digest (strip_digest s) = strip_digest s"
  by (simp add: strip_digest_def)

lemma strip_digest_no_at: "CHR ''@'' \<notin> set s \<Longrightarrow> strip_digest s = s"
  by (auto simp: strip_digest_def before_first_def split: option.splits dest: break_at_Some)

lemma strip_digest_append:
  assumes "break_at ''@sha256:'' r = None"
  shows "strip_digest (r @ ''@sha256:'' @ v) = r"
proof -
  have "break_at ''@sha256:'' (r @ ''@sha256:'' @ v) = Some (r, v)"
    using break_at_append [of "CHR ''@''" "''sha256:''" r v] assms by simp
  then show ?thesis by (simp add: strip_digest_def before_first_def)
qed

lemma image_repo_ref_prefix: "\<exists>z. strip_digest img = image_repo_ref img @ z"
proof -
  have untag: "\<exists>z. seg = (case rbreak_char (CHR '':'') seg of None \<Rightarrow> seg | Some (a, b) \<Rightarrow> a) @ z"
    for seg
    by (auto simp: rbreak_char_Some split: option.splits)
  show ?thesis
  proof (cases "rbreak_char (CHR ''/'') (strip_digest img)")
    case None
    then show ?thesis using untag by (simp add: image_repo_ref_def Let_def)
  next
    case (Some ab)
    then obtain a b where ab: "rbreak_char (CHR ''/'') (strip_digest img) = Some (a, b)"
      by (cases ab) auto
    then have "strip_digest img = a @ ''/'' @ b" by (simp add: rbreak_char_Some)
    with untag[of b] ab show ?thesis by (auto simp: image_repo_ref_def Let_def)
  qed
qed

lemma break_at_prefix_None: "break_at p (a @ z) = None \<Longrightarrow> break_at p a = None"
  by (metis append.assoc break_at_None_imp break_at_Some not_None_eq surj_pair)

lemma break_at_before_first: "p \<noteq> [] \<Longrightarrow> break_at p (before_first p s) = None"
  by (auto simp: before_first_def break_at_prefix_free split: option.splits)

lemma image_repo_ref_no_digest: "break_at ''@sha256:'' (image_repo_ref img) = None"
proof -
  obtain z where z: "strip_digest img = image_repo_ref img @ z"
    using image_repo_ref_prefix by blast
  have "break_at ''@sha256:'' (strip_digest img) = None"
    by (simp add: strip_digest_def break_at_before_first)
  with z show ?thesis by (metis break_at_prefix_None)
qed

lemma strip_digest_repo_ref [simp]: "strip_digest (image_repo_ref img) = image_repo_ref img"
  using image_repo_ref_no_digest [of img] by (simp add: strip_digest_def before_first_def)

lemma normalize_digest_Nil_iff [simp]: "normalize_digest d = '''' \<longleftrightarrow> d = ''''"
  by (auto simp: normalize_digest_def Let_def startswith_def)

lemma normalize_digest_sha: "d \<noteq> '''' \<Longrightarrow> \<exists>v. normalize_digest d = ''sha256:'' @ v"
  by (auto simp: normalize_digest_def Let_def startswith_iff)

lemma normalize_digest_idem:
  assumes "CHR ''@'' \<notin> set (normalize_digest d)"
  shows "normalize_digest (normalize_digest d) = normalize_digest d"
proof (cases "d = ''''")
  case True
  then show ?thesis by (simp add: normalize_digest_def)
next
  case False
  then obtain v where v: "normalize_digest d = ''sha256:'' @ v"
    using normalize_digest_sha by blast
  from assms have "break_at ''@'' (''sha256:'' @ v) = None"
    by (simp only: break_at_char_None v [symmetric]) simp
  then have "normalize_digest (''sha256:'' @ v) = ''sha256:'' @ v"
    unfolding normalize_digest_def by (simp add: Let_def startswith_def)
  with v show ?thesis by simp
qed

lemma tag_value_valid_chars: "tag_value_valid t \<Longrightarrow> c \<in> set t \<Longrightarrow> tag_char c"
  by (auto simp: tag_value_valid_def tag_char_def list_all_iff split: list.splits)

lemma not_tag_char [simp]:
  "\<not> tag_char (CHR ''/'')" "\<not> tag_char (CHR '':'')" "\<not> tag_char (CHR ''@'')"
  by (simp_all add: tag_char_def is_word_def is_alpha_def is_digit_def Let_def)

lemma tag_value_valid_no_sep:
  assumes "tag_value_valid t"
  shows "CHR ''/'' \<notin> set t" "CHR '':'' \<notin> set t" "CHR ''@'' \<notin> set t" "t \<noteq> []"
  using tag_value_valid_chars [OF assms] not_tag_char by (metis, metis, metis)
    (use assms in \<open>auto simp: tag_value_valid_def\<close>)

lemma strip_digest_repo_tag:
  assumes "CHR ''@'' \<notin> set r" and "tag_value_valid t"
  shows "strip_digest (r @ '':'' @ t) = r @ '':'' @ t"
  using assms tag_value_valid_no_sep [OF assms(2)] by (intro strip_digest_no_at) auto

lemma last_segment_append:
  assumes "CHR ''/'' \<notin> set t"
  shows "last_segment (r @ t) = last_segment r @ t"
proof (cases "rbreak_char (CHR ''/'') r")
  case None
  then have "CHR ''/'' \<notin> set (r @ t)" using assms by (simp add: rbreak_char_None)
  then have "rbreak_char (CHR ''/'') (r @ t) = None" by (simp add: rbreak_char_None)
  with None show ?thesis by (simp add: last_segment_def)
next
  case (Some ab)
  obtain a b where ab: "ab = (a, b)" by (cases ab)
  with Some have "r = a @ CHR ''/'' # b" "CHR ''/'' \<notin> set b" by (auto simp: rbreak_char_Some)
  with assms have "rbreak_char (CHR ''/'') (r @ t) = Some (a, b @ t)"
    by (simp add: rbreak_char_Some)
  with Some ab show ?thesis by (simp add: last_segment_def)
qed

lemma rbreak_char_snoc: "c \<notin> set t \<Longrightarrow> rbreak_char c (r @ c # t) = Some (r, t)"
  by (simp add: rbreak_char_Some)

lemma image_tag_with_tag:
  assumes "tag_value_valid t" and "CHR ''@'' \<notin> set (image_repo_ref img)"
  shows "image_tag (image_with_tag img t) = t"
proof -
  have ns: "CHR ''/'' \<notin> set ('':'' @ t)" "CHR '':'' \<notin> set t"
    using tag_value_valid_no_sep [OF assms(1)] by auto
  have "last_segment (image_repo_ref img @ '':'' @ t) = last_segment (image_repo_ref img) @ CHR '':'' # t"
    using last_segment_append [OF ns(1)] by simp
  then show ?thesis
    using assms strip_digest_repo_tag [OF assms(2,1)] ns(2)
    by (simp add: image_tag_def image_with_tag_def rbreak_char_snoc)
qed

text \<open>
  The repository key does not depend on the tag or digest a reference is given. The
  reference must be ordinary: no \<open>@\<close> outside a digest and one tag at most, which
  \<open>\<not> image_has_tag (image_repo_ref img)\<close> says of what is left when a tag is taken off.
\<close>

lemma drop_registry_tagged:
  assumes "CHR ''/'' \<notin> set t" and "strip_digest r = r" and "strip_digest (r @ t) = r @ t"
  shows "drop_registry (r @ t) = drop_registry r @ t"
proof (cases "break_at ''/'' r")
  case None
  then have "break_at ''/'' (r @ t) = None" using assms(1) by (simp add: break_at_char_None)
  with None assms show ?thesis by (simp add: drop_registry_def Let_def)
next
  case (Some lr)
  then obtain a b where ab: "break_at ''/'' r = Some (a, b)" by (cases lr) auto
  then have "r = a @ CHR ''/'' # b \<and> CHR ''/'' \<notin> set a" by (simp add: break_at_char_Some)
  then have "break_at ''/'' (r @ t) = Some (a, b @ t)" by (simp add: break_at_char_Some)
  with ab assms show ?thesis by (simp add: drop_registry_def Let_def)
qed

lemma last_segment_after_slash: "last_segment (a @ CHR ''/'' # b) = last_segment b"
proof (cases "rbreak_char (CHR ''/'') b")
  case None
  then have "rbreak_char (CHR ''/'') (a @ CHR ''/'' # b) = Some (a, b)"
    by (simp add: rbreak_char_Some rbreak_char_None)
  with None show ?thesis by (simp add: last_segment_def)
next
  case (Some xy)
  then obtain x y where xy: "rbreak_char (CHR ''/'') b = Some (x, y)" by (cases xy) auto
  then have "b = x @ CHR ''/'' # y \<and> CHR ''/'' \<notin> set y" by (simp add: rbreak_char_Some)
  then have "rbreak_char (CHR ''/'') (a @ CHR ''/'' # b) = Some (a @ CHR ''/'' # x, y)"
    by (simp add: rbreak_char_Some)
  with xy show ?thesis by (simp add: last_segment_def)
qed

lemma last_segment_drop_registry: "last_segment (drop_registry s) = last_segment (strip_digest s)"
  by (auto simp: drop_registry_def Let_def break_at_char_Some last_segment_after_slash
      split: option.splits)

lemma repo_key_tagged:
  assumes "CHR ''/'' \<notin> set t" and "CHR '':'' \<notin> set t"
    and "strip_digest r = r" and "strip_digest (r @ '':'' @ t) = r @ '':'' @ t"
  shows "repo_key (r @ '':'' @ t) = image_key r"
proof -
  have d: "drop_registry (r @ '':'' @ t) = drop_registry r @ CHR '':'' # t"
    using drop_registry_tagged [of "'':'' @ t" r] assms by simp
  have "CHR '':'' \<in> set (last_segment (drop_registry r @ CHR '':'' # t))"
    using last_segment_append [of "CHR '':'' # t" "drop_registry r"] assms(1) by simp
  then show ?thesis
    using d assms(2) by (simp add: repo_key_def image_key_def Let_def rbreak_char_snoc)
qed

lemma repo_key_untagged:
  assumes "\<not> image_has_tag r"
  shows "repo_key r = image_key r"
  using assms by (simp add: repo_key_def image_key_def Let_def image_has_tag_def last_segment_drop_registry)

lemma repo_key_strip [simp]: "repo_key (strip_digest s) = repo_key s"
  by (simp add: repo_key_def image_key_def drop_registry_def Let_def)

lemma image_repo_ref_cases:
  "strip_digest img = image_repo_ref img \<or>
   (\<exists>t. strip_digest img = image_repo_ref img @ '':'' @ t \<and> CHR ''/'' \<notin> set t \<and> CHR '':'' \<notin> set t)"
proof (cases "rbreak_char (CHR ''/'') (strip_digest img)")
  case None
  then show ?thesis
    by (auto simp: image_repo_ref_def Let_def rbreak_char_Some rbreak_char_None split: option.splits)
next
  case (Some ab)
  then obtain a b where ab: "rbreak_char (CHR ''/'') (strip_digest img) = Some (a, b)"
    by (cases ab) auto
  then have s: "strip_digest img = a @ CHR ''/'' # b" "CHR ''/'' \<notin> set b"
    by (auto simp: rbreak_char_Some)
  show ?thesis
  proof (cases "rbreak_char (CHR '':'') b")
    case None
    with ab s show ?thesis by (simp add: image_repo_ref_def Let_def)
  next
    case (Some xy)
    then obtain x y where xy: "rbreak_char (CHR '':'') b = Some (x, y)" by (cases xy) auto
    then have "b = x @ CHR '':'' # y" "CHR '':'' \<notin> set y" by (auto simp: rbreak_char_Some)
    with ab s xy show ?thesis by (auto simp: image_repo_ref_def Let_def)
  qed
qed

lemma repo_key_repo_ref:
  assumes "\<not> image_has_tag (image_repo_ref img)"
  shows "repo_key img = image_key (image_repo_ref img)"
  using image_repo_ref_cases [of img]
proof
  assume "strip_digest img = image_repo_ref img"
  then show ?thesis using assms repo_key_untagged by (metis repo_key_strip)
next
  assume "\<exists>t. strip_digest img = image_repo_ref img @ '':'' @ t \<and> CHR ''/'' \<notin> set t \<and> CHR '':'' \<notin> set t"
  then obtain t where t: "strip_digest img = image_repo_ref img @ '':'' @ t"
    "CHR ''/'' \<notin> set t" "CHR '':'' \<notin> set t" by blast
  then have "strip_digest (image_repo_ref img @ '':'' @ t) = image_repo_ref img @ '':'' @ t"
    by (metis strip_digest_idem)
  then have "repo_key (image_repo_ref img @ '':'' @ t) = image_key (image_repo_ref img)"
    using t by (intro repo_key_tagged) auto
  with t show ?thesis by (metis repo_key_strip)
qed

lemma repo_key_with_tag:
  assumes "tag_value_valid t" and "CHR ''@'' \<notin> set (image_repo_ref img)"
    and "\<not> image_has_tag (image_repo_ref img)"
  shows "repo_key (image_with_tag img t) = repo_key img"
  unfolding image_with_tag_def repo_key_repo_ref [OF assms(3)]
  using tag_value_valid_no_sep [OF assms(1)] assms(2)
  by (intro repo_key_tagged strip_digest_repo_tag strip_digest_repo_ref assms(1))

lemma strip_digest_with_digest:
  assumes "d \<noteq> ''''"
  shows "strip_digest (image_with_digest img d) = image_repo_ref img"
proof -
  obtain v where "normalize_digest d = ''sha256:'' @ v"
    using normalize_digest_sha [OF assms] by blast
  then show ?thesis
    using strip_digest_append [OF image_repo_ref_no_digest [of img], of v]
    by (simp add: image_with_digest_def)
qed

lemma repo_key_with_digest:
  assumes "d \<noteq> ''''" and "\<not> image_has_tag (image_repo_ref img)"
  shows "repo_key (image_with_digest img d) = repo_key img"
  by (metis assms repo_key_repo_ref repo_key_strip repo_key_untagged strip_digest_with_digest)

lemma image_with_digest_no_tag:
  assumes "d \<noteq> ''''" and "\<not> image_has_tag (image_repo_ref img)"
  shows "\<not> image_has_tag (image_with_digest img d)"
  using assms by (simp add: image_has_tag_def strip_digest_with_digest)

end
