(* ===== verification/Platforms.thy ===== *)
theory Platforms
  imports Prelude
begin

text \<open>
  \<open>src/src/wudup/platforms.py\<close>: parsing \<open>os/architecture[/variant]\<close>.
\<close>

record image_platform =
  plat_os :: string
  plat_arch :: string
  plat_variant :: string

definition platform_text :: "image_platform \<Rightarrow> string" where
  "platform_text p =
     (if plat_variant p \<noteq> [] then plat_os p @ ''/'' @ plat_arch p @ ''/'' @ plat_variant p
      else plat_os p @ ''/'' @ plat_arch p)"

text \<open>The pattern \<open>[A-Za-z0-9_.-]+\<close>, matched against the whole component.\<close>

definition component_char :: "char \<Rightarrow> bool" where
  "component_char c = (is_alpha c \<or> is_digit c \<or> c = CHR ''_'' \<or> c = CHR ''.'' \<or> c = CHR ''-'')"

definition valid_platform_component :: "string \<Rightarrow> bool" where
  "valid_platform_component v = (v \<noteq> [] \<and> list_all component_char v)"

definition platform_from_parts :: "string \<Rightarrow> string \<Rightarrow> string \<Rightarrow> image_platform option" where
  "platform_from_parts os_value architecture variant =
     (let os' = lower (py_strip os_value);
          arch' = lower (py_strip architecture);
          var' = lower (py_strip variant)
      in if \<not> valid_platform_component os' then None
         else if \<not> valid_platform_component arch' then None
         else if var' \<noteq> [] \<and> \<not> valid_platform_component var' then None
         else if os' = ''unknown'' \<or> arch' = ''unknown'' \<or> var' = ''unknown'' then None
         else Some \<lparr>plat_os = os', plat_arch = arch', plat_variant = var'\<rparr>)"

definition parse_platform :: "string \<Rightarrow> image_platform option" where
  "parse_platform v =
     (case map py_strip (split_on (CHR ''/'') (py_strip v)) of
        [a, b] \<Rightarrow> platform_from_parts a b ''''
      | [a, b, c] \<Rightarrow> if c = [] then None else platform_from_parts a b c
      | _ \<Rightarrow> None)"

definition platform_value :: "image_platform option \<Rightarrow> string" where
  "platform_value p = (case p of None \<Rightarrow> '''' | Some q \<Rightarrow> platform_text q)"

section \<open>What parsing returns\<close>

definition platform_ok :: "image_platform \<Rightarrow> bool" where
  "platform_ok p =
     (valid_platform_component (plat_os p) \<and> valid_platform_component (plat_arch p) \<and>
      (plat_variant p = [] \<or> valid_platform_component (plat_variant p)) \<and>
      lower (plat_os p) = plat_os p \<and> lower (plat_arch p) = plat_arch p \<and>
      lower (plat_variant p) = plat_variant p \<and>
      ''unknown'' \<notin> {plat_os p, plat_arch p, plat_variant p})"

lemma lower_char_idem [simp]: "lower_char (lower_char c) = lower_char c"
  by (auto simp: lower_char_def Let_def of_char_of)

lemma lower_idem [simp]: "lower (lower s) = lower s"
  by (simp add: lower_def comp_def)

lemma component_char_plain: "component_char c \<Longrightarrow> \<not> py_space c \<and> c \<noteq> CHR ''/''"
  by (auto simp: component_char_def is_alpha_def is_digit_def py_space_def Let_def)

lemma valid_component_strip: "valid_platform_component v \<Longrightarrow> py_strip v = v"
  unfolding py_strip_def
  by (rule strip_by_id)
    (auto simp: valid_platform_component_def list_all_iff component_char_plain)

lemma valid_component_no_slash: "valid_platform_component v \<Longrightarrow> CHR ''/'' \<notin> set v"
  by (auto simp: valid_platform_component_def list_all_iff dest: component_char_plain)

lemma platform_from_parts_ok: "platform_from_parts a b c = Some p \<Longrightarrow> platform_ok p"
  by (auto simp: platform_from_parts_def platform_ok_def Let_def split: if_splits)

lemma platform_from_parts_id:
  assumes "platform_ok p"
  shows "platform_from_parts (plat_os p) (plat_arch p) (plat_variant p) = Some p"
proof -
  have "py_strip [] = []" by (simp add: py_strip_def strip_by_def)
  with assms show ?thesis
    by (auto simp: platform_ok_def platform_from_parts_def Let_def valid_component_strip)
qed

lemma parse_platform_ok: "parse_platform v = Some p \<Longrightarrow> platform_ok p"
  by (auto simp: parse_platform_def platform_from_parts_ok split: list.splits if_splits)

lemma parse_platform_text:
  assumes "platform_ok p"
  shows "parse_platform (platform_text p) = Some p"
proof -
  have v: "valid_platform_component (plat_os p)" "valid_platform_component (plat_arch p)"
    "plat_variant p \<noteq> [] \<Longrightarrow> valid_platform_component (plat_variant p)"
    using assms by (auto simp: platform_ok_def)
  define ws where "ws = (if plat_variant p \<noteq> [] then [plat_os p, plat_arch p, plat_variant p]
                         else [plat_os p, plat_arch p])"
  have pt: "platform_text p = join_with ''/'' ws"
    by (simp add: platform_text_def ws_def)
  have ne: "\<forall>w \<in> set ws. w \<noteq> [] \<and> CHR ''/'' \<notin> set w \<and> py_strip w = w \<and> list_all component_char w"
    using v by (auto simp: ws_def valid_component_no_slash valid_component_strip)
      (auto simp: valid_platform_component_def)
  have osne: "plat_os p \<noteq> []" and archne: "plat_arch p \<noteq> []"
    using v by (auto simp: valid_platform_component_def)
  then have "hd (platform_text p) = hd (plat_os p)" "platform_text p \<noteq> []"
    "last (platform_text p) = (if plat_variant p \<noteq> [] then last (plat_variant p) else last (plat_arch p))"
    by (simp_all add: platform_text_def)
  moreover have "\<not> py_space (hd (plat_os p))" "\<not> py_space (last (plat_arch p))"
    "plat_variant p \<noteq> [] \<Longrightarrow> \<not> py_space (last (plat_variant p))"
    using v osne archne by (simp_all add: valid_platform_component_def list_all_iff component_char_plain)
  ultimately have "\<not> py_space (hd (platform_text p)) \<and> \<not> py_space (last (platform_text p))"
    by (cases "plat_variant p = []") simp_all
  then have strip: "py_strip (platform_text p) = platform_text p"
    unfolding py_strip_def by (rule strip_by_id)
  have "ws \<noteq> []" by (simp add: ws_def)
  moreover from ne have "\<forall>w \<in> set ws. CHR ''/'' \<notin> set w" by blast
  ultimately have "split_on (CHR ''/'') (platform_text p) = ws"
    unfolding pt by (rule split_join_with)
  moreover have "map py_strip ws = ws" using ne by (auto intro: map_idI)
  ultimately have "map py_strip (split_on (CHR ''/'') (py_strip (platform_text p))) = ws"
    by (simp add: strip)
  then show ?thesis
    using platform_from_parts_id [OF assms]
    by (auto simp: parse_platform_def ws_def split: if_splits)
qed

end
