(* ===== verification/Interfaces.thy ===== *)
theory Interfaces
  imports File_System
begin

text \<open>
  The interfaces between the components, as locales: a text format that can be read back, a
  lock that excludes, and a file writer that is all or nothing. Each is interpreted on the
  model's own operations in the theory that provides them.
\<close>

section \<open>A format that reads back\<close>

locale codec =
  fixes enc :: "'a \<Rightarrow> 'b" and dec :: "'b \<Rightarrow> 'a option" and wf :: "'a \<Rightarrow> bool"
  assumes dec_enc: "wf x \<Longrightarrow> dec (enc x) = Some x"
begin

lemma enc_eq_iff: "wf x \<Longrightarrow> wf y \<Longrightarrow> enc x = enc y \<longleftrightarrow> x = y"
  by (metis dec_enc option.inject)

lemma enc_inj_on: "inj_on enc {x. wf x}"
  by (rule inj_onI) (simp add: enc_eq_iff)

lemma dec_enc_list: "\<forall>x \<in> set xs. wf x \<Longrightarrow> those (map dec (map enc xs)) = Some xs"
  by (induction xs) (auto simp: dec_enc)

end

section \<open>Mutual exclusion\<close>

text \<open>
  A lock object \<open>l\<close> guards the name \<open>name l\<close>; \<open>taken\<close> says that the name is occupied in the
  state, whoever occupies it. An exclusive state has no name held twice, and whatever is held
  is occupied.
\<close>

definition exclusive ::
  "('l \<Rightarrow> 's \<Rightarrow> bool) \<Rightarrow> ('l \<Rightarrow> 'n) \<Rightarrow> ('n \<Rightarrow> 's \<Rightarrow> bool) \<Rightarrow> 's \<Rightarrow> bool" where
  "exclusive held name taken s =
     (\<forall>l. held l s \<longrightarrow> taken (name l) s \<and> (\<forall>l'. held l' s \<and> name l' = name l \<longrightarrow> l' = l))"

datatype 'l lock_op = Acquire 'l | Release 'l

fun lock_step :: "('l \<Rightarrow> 's \<Rightarrow> 's) \<Rightarrow> ('l \<Rightarrow> 's \<Rightarrow> 's) \<Rightarrow> 'l lock_op \<Rightarrow> 's \<Rightarrow> 's" where
  "lock_step acq rel (Acquire l) s = acq l s"
| "lock_step acq rel (Release l) s = rel l s"

locale mutex =
  fixes held :: "'l \<Rightarrow> 's \<Rightarrow> bool" and name :: "'l \<Rightarrow> 'n" and taken :: "'n \<Rightarrow> 's \<Rightarrow> bool"
    and acq :: "'l \<Rightarrow> 's \<Rightarrow> 's" and rel :: "'l \<Rightarrow> 's \<Rightarrow> 's"
  assumes acq_fresh: "held l (acq l s) \<Longrightarrow> \<not> held l s \<Longrightarrow> \<not> taken (name l) s"
    and acq_takes: "held l (acq l s) \<Longrightarrow> \<not> held l s \<Longrightarrow> taken (name l) (acq l s)"
    and acq_other: "l' \<noteq> l \<Longrightarrow> held l' (acq l s) = held l' s"
    and acq_keeps: "taken n s \<Longrightarrow> taken n (acq l s)"
    and rel_frees: "\<not> held l (rel l s)"
    and rel_other: "l' \<noteq> l \<Longrightarrow> held l' (rel l s) = held l' s"
    and rel_keeps: "taken n s \<Longrightarrow> n \<noteq> name l \<or> \<not> held l s \<Longrightarrow> taken n (rel l s)"
begin

lemma acq_exclusive:
  assumes ex: "exclusive held name taken s"
  shows "exclusive held name taken (acq l s)"
  unfolding exclusive_def
proof (intro allI impI conjI)
  fix k assume k: "held k (acq l s)"
  show "taken (name k) (acq l s)"
  proof (cases "k = l")
    case True
    with k ex show ?thesis by (cases "held l s") (auto simp: exclusive_def acq_takes acq_keeps)
  next
    case False
    with k ex show ?thesis by (auto simp: exclusive_def acq_other acq_keeps)
  qed
  fix k' assume k': "held k' (acq l s) \<and> name k' = name k"
  show "k' = k"
  proof (rule ccontr)
    assume ne: "k' \<noteq> k"
    have "\<not> (held k s \<and> held k' s)" using ex k' ne by (auto simp: exclusive_def)
    have other: "held j (acq l s) = held j s" if "j \<noteq> l" for j by (rule acq_other [OF that])
    have free: "\<not> held j s \<Longrightarrow> held j (acq l s) \<Longrightarrow> \<not> taken (name j) s" for j
      using acq_fresh [of j s] other [of j] by (cases "j = l") auto
    have "held j s \<Longrightarrow> taken (name j) s" for j using ex by (simp add: exclusive_def)
    then have "held k s \<and> held k' s"
      using free [of k] free [of k'] other [of k] other [of k'] k k' ne by metis
    then show False using \<open>\<not> (held k s \<and> held k' s)\<close> by simp
  qed
qed

lemma rel_exclusive:
  assumes ex: "exclusive held name taken s"
  shows "exclusive held name taken (rel l s)"
  unfolding exclusive_def
proof (intro allI impI conjI)
  fix k assume k: "held k (rel l s)"
  then have kl: "k \<noteq> l" using rel_frees by auto
  then have ks: "held k s" using k by (simp add: rel_other)
  have "name k \<noteq> name l \<or> \<not> held l s" using ex ks kl by (auto simp: exclusive_def)
  then show "taken (name k) (rel l s)" using ex ks by (auto simp: exclusive_def intro: rel_keeps)
  fix k' assume k': "held k' (rel l s) \<and> name k' = name k"
  then have "k' \<noteq> l" using rel_frees by auto
  then show "k' = k" using k' ks ex by (auto simp: exclusive_def rel_other)
qed

lemma ops_exclusive:
  "exclusive held name taken s \<Longrightarrow> exclusive held name taken (fold (lock_step acq rel) ops s)"
proof (induction ops arbitrary: s)
  case (Cons op ops)
  then show ?case by (cases op) (simp_all add: acq_exclusive rel_exclusive)
qed simp

end

section \<open>All or nothing\<close>

text \<open>
  What a client of a file writer relies on: whatever fails, the named file keeps its old text or
  has the whole new one, no other named file changes, a return means the new text, and the
  temporary names stay fresh.
\<close>

definition text_at :: "fs \<Rightarrow> string \<Rightarrow> string option" where
  "text_at s n = map_option f_text (fs_files s (Named n))"

definition all_or_nothing :: "string \<Rightarrow> string \<Rightarrow> fs \<Rightarrow> (exc + 'a) \<Rightarrow> fs \<Rightarrow> bool" where
  "all_or_nothing n t s r s' =
     ((text_at s' n = text_at s n \<or> text_at s' n = Some t) \<and> (\<not> isl r \<longrightarrow> text_at s' n = Some t) \<and>
      (\<forall>k. k \<noteq> n \<longrightarrow> fs_files s' (Named k) = fs_files s (Named k)) \<and> fs_ok s')"

fun write_all :: "(string \<Rightarrow> string \<Rightarrow> 'a io) \<Rightarrow> (string \<times> string) list \<Rightarrow> unit io" where
  "write_all w [] = io_ret ()"
| "write_all w ((n, t) # ws) = io_bind (w n t) (\<lambda>_. write_all w ws)"

locale atomic_writer =
  fixes w :: "string \<Rightarrow> string \<Rightarrow> 'a io"
  assumes atomic: "fs_ok s \<Longrightarrow> holds (w n t) fault s (all_or_nothing n t s)"
begin

text \<open>Any run of writes, cut short anywhere, leaves each file with its old or a written text.\<close>

lemma write_one:
  assumes "all_or_nothing n t s r s1"
  shows "fs_ok s1" and "text_at s1 k = text_at s k \<or> k = n \<and> text_at s1 k = Some t"
  using assms by (cases "k = n"; auto simp: all_or_nothing_def text_at_def)+

lemma write_all_versions:
  "fs_ok s \<Longrightarrow> holds (write_all w ws) fault s
     (\<lambda>r s'. fs_ok s' \<and> (\<forall>n. text_at s' n = text_at s n \<or> (\<exists>t. (n, t) \<in> set ws \<and> text_at s' n = Some t)))"
proof (induction ws arbitrary: s)
  case Nil
  then show ?case by (simp add: holds_ret)
next
  case (Cons v ws)
  obtain n t where v: "v = (n, t)" by (cases v)
  show ?case
    unfolding v write_all.simps
  proof (rule holds_bindI [OF atomic [OF Cons.prems, of n t fault]])
    fix x s1 assume a: "all_or_nothing n t s (Inr x :: exc + 'a) s1"
    have "text_at s' k = text_at s k \<or> (\<exists>u. (k, u) \<in> set ((n, t) # ws) \<and> text_at s' k = Some u)"
      if "text_at s' k = text_at s1 k \<or> (\<exists>u. (k, u) \<in> set ws \<and> text_at s' k = Some u)" for s' k
      using that write_one(2) [OF a, of k] by auto
    then show "holds (write_all w ws) fault s1 (\<lambda>r s'. fs_ok s' \<and> (\<forall>k. text_at s' k = text_at s k \<or>
        (\<exists>u. (k, u) \<in> set ((n, t) # ws) \<and> text_at s' k = Some u)))"
      by (blast intro: holds_mono [OF Cons.IH [OF write_one(1) [OF a]]])
  next
    fix e s1 assume a: "all_or_nothing n t s (Inl e :: exc + 'a) s1"
    show "fs_ok s1 \<and> (\<forall>k. text_at s1 k = text_at s k \<or>
        (\<exists>u. (k, u) \<in> set ((n, t) # ws) \<and> text_at s1 k = Some u))"
      using write_one [OF a] by auto
  qed
qed

lemma write_all_done:
  "fs_ok s \<Longrightarrow> distinct (map fst ws) \<Longrightarrow>
   holds (write_all w ws) fault s (\<lambda>r s'. \<not> isl r \<longrightarrow> (\<forall>n t. (n, t) \<in> set ws \<longrightarrow> text_at s' n = Some t))"
proof (induction ws arbitrary: s)
  case Nil
  then show ?case by (simp add: holds_ret)
next
  case (Cons v ws)
  obtain n t where v: "v = (n, t)" by (cases v)
  have new: "n \<notin> fst ` set ws" using Cons.prems(2) v by simp
  show ?case
    unfolding v write_all.simps
  proof (rule holds_bindI [OF atomic [OF Cons.prems(1), of n t fault]])
    fix x s1 assume a: "all_or_nothing n t s (Inr x :: exc + 'a) s1"
    have ok: "fs_ok s1" and tn: "text_at s1 n = Some t"
      using a by (simp_all add: all_or_nothing_def)
    have "holds (write_all w ws) fault s1 (\<lambda>r s'. (\<not> isl r \<longrightarrow> (\<forall>n t. (n, t) \<in> set ws \<longrightarrow> text_at s' n = Some t)) \<and>
        fs_ok s' \<and> (\<forall>n. text_at s' n = text_at s1 n \<or> (\<exists>t. (n, t) \<in> set ws \<and> text_at s' n = Some t)))"
      using Cons.prems(2) by (intro holds_conj Cons.IH write_all_versions ok) simp
    then show "holds (write_all w ws) fault s1 (\<lambda>r s'. \<not> isl r \<longrightarrow>
        (\<forall>k u. (k, u) \<in> set ((n, t) # ws) \<longrightarrow> text_at s' k = Some u))"
      by (rule holds_mono) (use new tn in force)
  qed simp
qed

end

end
