(* ===== verification/Locks.thy ===== *)
theory Locks
  imports Interfaces
begin

text \<open>
  \<open>src/src/wudup/locks.py\<close>: the directory lock \<open>mkdir path.lock\<close>. \<open>fs_dirs\<close> holds the lock
  directories this process made, \<open>fs_held\<close> the identities of the lock objects whose \<open>_held\<close>
  is set. A directory another process made shows up as a failing \<open>mkdir\<close>, like every other
  \<open>OSError\<close>: \<open>fault k\<close> covers both, attempt by attempt.
\<close>

datatype timeout_value = Seconds int | SecondsText string

record directory_lock =
  dl_id :: nat
  dl_path :: string
  dl_timeout :: timeout_value

definition lock_dir_for :: "string \<Rightarrow> string" where
  "lock_dir_for p = p @ ''.lock''"

definition TIMEOUT_ERROR :: string where
  "TIMEOUT_ERROR = ''WUD_LOCK_TIMEOUT must be an integer number of seconds''"

definition parse_lock_timeout :: "timeout_value \<Rightarrow> exc + nat" where
  "parse_lock_timeout v =
     (case v of
        Seconds i \<Rightarrow> if 0 \<le> i then Inr (nat i) else Inl (LockError TIMEOUT_ERROR)
      | SecondsText t \<Rightarrow>
          if all_digits t then Inr (digits_val t) else Inl (LockError TIMEOUT_ERROR))"

definition lock_timeout :: "directory_lock \<Rightarrow> exc" where
  "lock_timeout l =
     LockTimeout (''Timed out waiting for WUD file lock: '' @ lock_dir_for (dl_path l))"

definition lock_held :: "directory_lock \<Rightarrow> fs \<Rightarrow> bool" where
  "lock_held l s = (dl_id l \<in> fs_held s)"

definition os_mkdir :: "string \<Rightarrow> unit io" where
  "os_mkdir d = sys ''mkdir'' (\<lambda>s.
     if d \<in> fs_dirs s then (Inl (OSError ''mkdir''), s)
     else (Inr (), s\<lparr>fs_dirs := insert d (fs_dirs s)\<rparr>))"

definition os_rmdir :: "string \<Rightarrow> unit io" where
  "os_rmdir d = sys ''rmdir'' (\<lambda>s.
     if d \<in> fs_dirs s then (Inr (), s\<lparr>fs_dirs := fs_dirs s - {d}\<rparr>)
     else (Inl (OSError ''rmdir''), s))"

text \<open>The \<open>while True\<close> of \<open>acquire\<close>: \<open>sleep(1)\<close> between attempts changes no state here.\<close>

function acquire_loop :: "directory_lock \<Rightarrow> nat \<Rightarrow> nat \<Rightarrow> unit io" where
  "acquire_loop l timeout waited fault s =
     (case os_mkdir (lock_dir_for (dl_path l)) fault s of
        (Inl e, s') \<Rightarrow>
          if waited \<ge> timeout
          then (Inl (lock_timeout l), s')
          else acquire_loop l timeout (waited + 1) fault s'
      | (Inr _, s') \<Rightarrow> (Inr (), s'\<lparr>fs_held := insert (dl_id l) (fs_held s')\<rparr>))"
  by pat_completeness auto
termination
  by (relation "measure (\<lambda>(l, timeout, waited, fault, s). timeout - waited)") auto

declare acquire_loop.simps [simp del]

definition acquire :: "directory_lock \<Rightarrow> unit io" where
  "acquire l fault s =
     (case parse_lock_timeout (dl_timeout l) of
        Inl e \<Rightarrow> (Inl e, s)
      | Inr timeout \<Rightarrow> if lock_held l s then (Inr (), s) else acquire_loop l timeout 0 fault s)"

definition release :: "directory_lock \<Rightarrow> unit io" where
  "release l fault s =
     (if \<not> lock_held l s then (Inr (), s)
      else case io_catch (os_rmdir (lock_dir_for (dl_path l))) (\<lambda>e. io_ret ()) fault s of
        (r, s') \<Rightarrow> (r, s'\<lparr>fs_held := fs_held s' - {dl_id l}\<rparr>))"

section \<open>Lemmas\<close>

text \<open>What locking leaves alone: every file and the temporary names.\<close>

definition only_locks :: "fs \<Rightarrow> fs \<Rightarrow> bool" where
  "only_locks s s' =
     (fs_files s' = fs_files s \<and> fs_next s' = fs_next s \<and> fs_written s' = fs_written s)"

definition no_lock :: "fs \<Rightarrow> fs \<Rightarrow> bool" where
  "no_lock s s' = (only_locks s s' \<and> fs_dirs s' = fs_dirs s \<and> fs_held s' = fs_held s)"

lemma os_mkdir_result:
  "os_mkdir d fault s =
     (if \<not> fault (fs_ops s) \<and> d \<notin> fs_dirs s
      then (Inr (), s\<lparr>fs_ops := Suc (fs_ops s), fs_dirs := insert d (fs_dirs s)\<rparr>)
      else (Inl (OSError ''mkdir''), s\<lparr>fs_ops := Suc (fs_ops s)\<rparr>))"
  by (simp add: os_mkdir_def sys_def Let_def)

text \<open>
  The loop in closed form. The directory is made at the first of the remaining attempts that
  does not fail; if all fail, the last state differs in the number of calls only.
\<close>

lemma acquire_loop_taken:
  "lock_dir_for (dl_path l) \<in> fs_dirs s \<Longrightarrow> waited \<le> timeout \<Longrightarrow>
   acquire_loop l timeout waited fault s =
     (Inl (lock_timeout l),
      s\<lparr>fs_ops := fs_ops s + (timeout - waited + 1)\<rparr>)"
proof (induction l timeout waited fault s rule: acquire_loop.induct)
  case (1 l timeout waited fault s)
  show ?case
  proof (cases "waited \<ge> timeout")
    case True
    with 1 show ?thesis by (subst acquire_loop.simps) (simp add: os_mkdir_result)
  next
    case False
    with 1 have "acquire_loop l timeout (waited + 1) fault (s\<lparr>fs_ops := Suc (fs_ops s)\<rparr>) =
      (Inl (lock_timeout l),
       s\<lparr>fs_ops := Suc (fs_ops s) + (timeout - (waited + 1) + 1)\<rparr>)"
      by (simp add: os_mkdir_result)
    with False 1 show ?thesis by (subst acquire_loop.simps) (simp add: os_mkdir_result)
  qed
qed

lemma acquire_loop_free:
  "lock_dir_for (dl_path l) \<notin> fs_dirs s \<Longrightarrow> waited \<le> timeout \<Longrightarrow>
   (\<forall>i < k. fault (fs_ops s + i)) \<Longrightarrow> \<not> fault (fs_ops s + k) \<Longrightarrow> k \<le> timeout - waited \<Longrightarrow>
   acquire_loop l timeout waited fault s =
     (Inr (), s\<lparr>fs_ops := fs_ops s + k + 1, fs_dirs := insert (lock_dir_for (dl_path l)) (fs_dirs s),
        fs_held := insert (dl_id l) (fs_held s)\<rparr>)"
proof (induction k arbitrary: waited s)
  case 0
  then show ?case by (subst acquire_loop.simps) (simp add: os_mkdir_result)
next
  case (Suc k)
  then have less: "\<not> timeout \<le> waited" by simp
  have "acquire_loop l timeout waited fault s =
    acquire_loop l timeout (waited + 1) fault (s\<lparr>fs_ops := Suc (fs_ops s)\<rparr>)"
    using Suc.prems(3) [rule_format, of 0] less
    by (subst acquire_loop.simps) (simp add: os_mkdir_result)
  also have "\<dots> = (Inr (), s\<lparr>fs_ops := fs_ops s + Suc k + 1,
      fs_dirs := insert (lock_dir_for (dl_path l)) (fs_dirs s), fs_held := insert (dl_id l) (fs_held s)\<rparr>)"
  proof -
    have "\<forall>i < k. fault (Suc (fs_ops s) + i)"
      using Suc.prems(3) by (metis Suc_less_eq add_Suc_right add_Suc)
    then show ?thesis
      using Suc.prems by (subst Suc.IH) simp_all
  qed
  finally show ?case .
qed

lemma acquire_loop_busy:
  "waited \<le> timeout \<Longrightarrow> (\<forall>i \<le> timeout - waited. fault (fs_ops s + i)) \<Longrightarrow>
   acquire_loop l timeout waited fault s =
     (Inl (lock_timeout l),
      s\<lparr>fs_ops := fs_ops s + (timeout - waited + 1)\<rparr>)"
proof (induction "timeout - waited" arbitrary: waited s)
  case 0
  then show ?case by (subst acquire_loop.simps) (simp add: os_mkdir_result)
next
  case (Suc k)
  then have less: "\<not> timeout \<le> waited" by simp
  have "acquire_loop l timeout waited fault s =
    acquire_loop l timeout (waited + 1) fault (s\<lparr>fs_ops := Suc (fs_ops s)\<rparr>)"
    using Suc.prems(2) [rule_format, of 0] less
    by (subst acquire_loop.simps) (simp add: os_mkdir_result)
  moreover have "\<forall>i \<le> timeout - (waited + 1). fault (Suc (fs_ops s) + i)"
    using Suc.prems(2) Suc.hyps(2) by (metis Suc_eq_plus1 Suc_le_mono add_Suc_shift diff_Suc_1 diff_add_inverse2 diff_diff_left)
  ultimately show ?case
    using Suc.hyps Suc.prems(1) by (simp add: Suc.hyps(1))
qed

text \<open>The three cases together: what \<open>acquire\<close> does with an unheld lock.\<close>

definition acquired :: "directory_lock \<Rightarrow> fs \<Rightarrow> fs \<Rightarrow> bool" where
  "acquired l s s' =
     (lock_dir_for (dl_path l) \<notin> fs_dirs s \<and> only_locks s s' \<and>
      fs_dirs s' = insert (lock_dir_for (dl_path l)) (fs_dirs s) \<and>
      fs_held s' = insert (dl_id l) (fs_held s))"

lemma least_attempt:
  assumes "i \<le> m" and "\<not> P (i::nat)"
  obtains k where "k \<le> m" "\<not> P k" "\<forall>i < k. P i"
proof -
  define k where "k = (LEAST j. \<not> P j)"
  have "\<not> P k" unfolding k_def by (rule LeastI [of "\<lambda>j. \<not> P j"]) (rule assms(2))
  moreover have "k \<le> m" unfolding k_def by (rule le_trans [OF Least_le assms(1)]) (rule assms(2))
  moreover have "\<forall>j < k. P j" unfolding k_def using not_less_Least by blast
  ultimately show thesis using that by blast
qed

lemma acquire_loop_outcome:
  assumes "waited \<le> timeout"
  shows "case acquire_loop l timeout waited fault s of
     (Inl e, s') \<Rightarrow> e = lock_timeout l \<and> no_lock s s'
   | (Inr _, s') \<Rightarrow> acquired l s s'"
proof (cases "lock_dir_for (dl_path l) \<in> fs_dirs s \<or> (\<forall>i \<le> timeout - waited. fault (fs_ops s + i))")
  case True
  then show ?thesis using assms by (auto simp: acquire_loop_taken acquire_loop_busy no_lock_def only_locks_def)
next
  case False
  then obtain i where "i \<le> timeout - waited" "\<not> fault (fs_ops s + i)" by auto
  then obtain k where "k \<le> timeout - waited" "\<not> fault (fs_ops s + k)" "\<forall>i < k. fault (fs_ops s + i)"
    by (rule least_attempt)
  with False assms show ?thesis
    by (auto simp: acquire_loop_free acquired_def only_locks_def)
qed

lemma acquire_outcome:
  "case acquire l fault s of
     (Inl e, s') \<Rightarrow> no_lock s s'
   | (Inr _, s') \<Rightarrow> (lock_held l s \<and> s' = s) \<or> (\<not> lock_held l s \<and> acquired l s s')"
proof (cases "parse_lock_timeout (dl_timeout l)")
  case (Inl e)
  then show ?thesis by (auto simp: acquire_def no_lock_def only_locks_def)
next
  case (Inr t)
  then show ?thesis
    using acquire_loop_outcome [where waited = 0 and timeout = t and l = l and fault = fault and s = s]
    by (auto simp: acquire_def split: prod.splits sum.splits)
qed

lemma release_outcome:
  "\<exists>s'. release l fault s = (Inr (), s') \<and> only_locks s s' \<and> fs_held s' = fs_held s - {dl_id l} \<and>
     (\<forall>d. d \<in> fs_dirs s \<longrightarrow> d \<noteq> lock_dir_for (dl_path l) \<or> \<not> lock_held l s \<longrightarrow> d \<in> fs_dirs s') \<and>
     (lock_held l s \<longrightarrow> \<not> fault (fs_ops s) \<longrightarrow> fs_dirs s' = fs_dirs s - {lock_dir_for (dl_path l)}) \<and>
     (lock_held l s \<longrightarrow> fault (fs_ops s) \<longrightarrow> fs_dirs s' = fs_dirs s \<and> fs_ops s' = Suc (fs_ops s))"
  by (simp add: release_def os_rmdir_def sys_def io_catch_def io_ret_def Let_def only_locks_def lock_held_def)

text \<open>
  Lock objects of one process, told apart by their number, exclude each other on the directory
  they make, over any sequence of operations and whatever fails.
\<close>

definition the_lock :: "(nat \<Rightarrow> directory_lock) \<Rightarrow> nat \<Rightarrow> directory_lock" where
  "the_lock ls i = (ls i)\<lparr>dl_id := i\<rparr>"

lemma the_lock_id [simp]: "dl_id (the_lock ls i) = i"
  by (simp add: the_lock_def)

interpretation dir_lock: mutex
  "\<lambda>i. lock_held (the_lock ls i)" "\<lambda>i. lock_dir_for (dl_path (the_lock ls i))" "\<lambda>d s. d \<in> fs_dirs s"
  "\<lambda>i s. snd (acquire (the_lock ls i) fault s)" "\<lambda>i s. snd (release (the_lock ls i) fault s)"
  for ls fault
proof unfold_locales
  fix i s
  let ?l = "the_lock ls i"
  note out = acquire_outcome [where l = ?l and fault = fault and s = s]
  show "lock_held ?l (snd (acquire ?l fault s)) \<Longrightarrow> \<not> lock_held ?l s \<Longrightarrow> lock_dir_for (dl_path ?l) \<notin> fs_dirs s"
    and "lock_held ?l (snd (acquire ?l fault s)) \<Longrightarrow> \<not> lock_held ?l s \<Longrightarrow>
      lock_dir_for (dl_path ?l) \<in> fs_dirs (snd (acquire ?l fault s))"
    using out by (auto simp: acquired_def no_lock_def lock_held_def split: prod.splits sum.splits)
  show "lock_held (the_lock ls i') (snd (acquire ?l fault s)) = lock_held (the_lock ls i') s" if "i' \<noteq> i" for i'
    using out that by (auto simp: acquired_def no_lock_def lock_held_def split: prod.splits sum.splits)
  show "d \<in> fs_dirs (snd (acquire ?l fault s))" if "d \<in> fs_dirs s" for d
    using out that by (auto simp: acquired_def no_lock_def split: prod.splits sum.splits)
  obtain s' where rel: "release ?l fault s = (Inr (), s')" "fs_held s' = fs_held s - {i}"
    "\<And>d. d \<in> fs_dirs s \<Longrightarrow> d \<noteq> lock_dir_for (dl_path ?l) \<or> \<not> lock_held ?l s \<Longrightarrow> d \<in> fs_dirs s'"
    using release_outcome [where l = ?l and fault = fault and s = s] by auto
  show "\<not> lock_held ?l (snd (release ?l fault s))" by (simp add: rel lock_held_def)
  show "lock_held (the_lock ls i') (snd (release ?l fault s)) = lock_held (the_lock ls i') s" if "i' \<noteq> i" for i'
    using that by (simp add: rel lock_held_def)
  show "d \<in> fs_dirs (snd (release ?l fault s))"
    if "d \<in> fs_dirs s" "d \<noteq> lock_dir_for (dl_path ?l) \<or> \<not> lock_held ?l s" for d
    using rel(3) [OF that] rel(1) by simp
qed

end
