(* ===== verification/Wud_File.thy ===== *)
theory Wud_File
  imports Images Platforms Locks File_Ops "HOL-Library.Multiset"
begin

text \<open>
  \<open>src/src/wudup/wud_file.py\<close>: the file in which What's Up Docker reports updates. One line is
  one entry; the updater takes the lines it works on out of the file before a run and puts the
  failed ones back after it, while other processes may append to it.
\<close>

section \<open>Parsing\<close>

record wud_line =
  wl_no :: nat
  wl_actionable :: bool
  wl_raw :: string

record wud_target =
  wt_line_no :: nat
  wt_raw :: string
  wt_first :: string
  wt_key :: string
  wt_repo :: string
  wt_has_tag :: bool
  wt_allow_repo :: bool
  wt_digest :: string
  wt_desired_tag :: string
  wt_tag_token :: string
  wt_platform :: "image_platform option"

record parsed_wud_file =
  pw_lines :: "wud_line list"
  pw_targets :: "wud_target list"
  pw_warnings :: "string list"

definition is_digest_target_line :: "wud_target \<Rightarrow> bool" where
  "is_digest_target_line t =
     (if wt_desired_tag t \<noteq> '''' then False
      else if wt_digest t = '''' \<or> \<not> image_has_tag (wt_first t) then False
      else tag_value_valid (image_tag (wt_first t)))"

definition split_shell_lines :: "string \<Rightarrow> string list" where
  "split_shell_lines t =
     (if t = '''' then []
      else let ls = split_on (CHR 0x0A) t
           in if endswith t [CHR 0x0A] then butlast ls else ls)"

definition join_shell_lines :: "string list \<Rightarrow> string" where
  "join_shell_lines ls = (if ls = [] then '''' else join_with [CHR 0x0A] ls @ [CHR 0x0A])"

definition first_token :: "string \<Rightarrow> string" where
  "first_token v = takeWhile (\<lambda>c. \<not> shell_space c) v"

fun split_spaces :: "string \<Rightarrow> string list" where
  "split_spaces [] = [[]]"
| "split_spaces (x # xs) =
     (if shell_space x then [] # split_spaces xs
      else (case split_spaces xs of [] \<Rightarrow> [[x]] | w # ws \<Rightarrow> (x # w) # ws))"

definition rest_tokens :: "string \<Rightarrow> string list" where
  "rest_tokens v =
     (let stripped = trim v
      in if stripped = '''' then [] else filter (\<lambda>part. part \<noteq> '''') (split_spaces stripped))"

text \<open>What the loop over the tokens of a line has read so far.\<close>

record token_state =
  ts_digest :: string
  ts_desired_tag :: string
  ts_tag_token :: string
  ts_platform :: "image_platform option"
  ts_platform_raw :: string
  ts_platform_seen :: bool

definition token_step :: "token_state \<Rightarrow> string \<Rightarrow> token_state" where
  "token_step st token =
     (if startswith token ''tag='' then
        (let desired = removeprefix token ''tag=''
         in st\<lparr>ts_desired_tag := desired,
               ts_tag_token := (if tag_value_valid desired then desired else ts_tag_token st)\<rparr>)
      else if startswith token ''sha256='' then
        (let d = removeprefix token ''sha256=''
         in if d \<noteq> '''' then st\<lparr>ts_digest := normalize_digest d\<rparr> else st)
      else if startswith token ''platform='' then
        (let raw = removeprefix token ''platform=''
         in st\<lparr>ts_platform_seen := True, ts_platform_raw := raw, ts_platform := parse_platform raw\<rparr>)
      else st)"

definition token_start :: "string \<Rightarrow> token_state" where
  "token_start first =
     \<lparr>ts_digest = normalize_digest
        (if contains first ''@sha256:'' then (case break_at ''@'' first of Some (_, b) \<Rightarrow> b | None \<Rightarrow> '''') else ''''),
      ts_desired_tag = '''', ts_tag_token = '''', ts_platform = None, ts_platform_raw = '''',
      ts_platform_seen = False\<rparr>"

definition parse_target :: "nat \<Rightarrow> string \<Rightarrow> string \<Rightarrow> wud_target \<times> string list" where
  "parse_target line_no raw trimmed =
     (let first = first_token trimmed;
          rest = drop (length first) trimmed;
          st = foldl token_step (token_start first) (rest_tokens rest);
          has_tag = image_has_tag first;
          desired = ts_desired_tag st;
          bad_tag = (desired \<noteq> '''' \<and> \<not> tag_value_valid desired);
          untagged = (desired \<noteq> '''' \<and> tag_value_valid desired \<and> \<not> has_tag);
          warnings =
            (if bad_tag then [''Ignoring invalid tag value on WUD line '' @ show_nat line_no @ '': '' @ desired]
             else if untagged
             then [''Ignoring tag update without a tagged source image on WUD line '' @ show_nat line_no @ '': '' @ first]
             else []) @
            (if ts_platform_seen st \<and> ts_platform st = None
             then [''Ignoring invalid platform on WUD line '' @ show_nat line_no @ '': '' @ ts_platform_raw st]
             else [])
      in (\<lparr>wt_line_no = line_no, wt_raw = raw, wt_first = first, wt_key = image_key first,
           wt_repo = repo_key first, wt_has_tag = has_tag, wt_allow_repo = (\<not> has_tag),
           wt_digest = ts_digest st, wt_desired_tag = (if bad_tag \<or> untagged then '''' else desired),
           wt_tag_token = (if bad_tag \<or> untagged then '''' else ts_tag_token st),
           wt_platform = ts_platform st\<rparr>, warnings))"

definition line_actionable :: "string \<Rightarrow> bool" where
  "line_actionable raw = (let t = trim raw in t \<noteq> '''' \<and> \<not> startswith t ''#'')"

fun parse_lines :: "nat set option \<Rightarrow> nat \<Rightarrow> string list \<Rightarrow> parsed_wud_file" where
  "parse_lines selected n [] = \<lparr>pw_lines = [], pw_targets = [], pw_warnings = []\<rparr>"
| "parse_lines selected n (raw # raws) =
     (let line = \<lparr>wl_no = n, wl_actionable = line_actionable raw, wl_raw = raw\<rparr>;
          rest = parse_lines selected (Suc n) raws
      in if \<not> line_actionable raw \<or> (case selected of None \<Rightarrow> False | Some S \<Rightarrow> n \<notin> S)
         then rest\<lparr>pw_lines := line # pw_lines rest\<rparr>
         else (case parse_target n raw (trim raw) of
           (t, ws) \<Rightarrow> \<lparr>pw_lines = line # pw_lines rest, pw_targets = t # pw_targets rest,
                        pw_warnings = ws @ pw_warnings rest\<rparr>))"

definition parse_wud_text :: "string \<Rightarrow> nat set option \<Rightarrow> parsed_wud_file" where
  "parse_wud_text t selected = parse_lines selected 1 (split_shell_lines t)"

section \<open>Taking lines out and putting them back\<close>

text \<open>A dictionary of counts read with \<open>.get(raw, 0)\<close> is a function with default 0.\<close>

definition bump :: "(string \<Rightarrow> nat) \<Rightarrow> string \<Rightarrow> string \<Rightarrow> nat" where
  "bump m raw = m(raw := m raw + 1)"

definition line_counts :: "string list \<Rightarrow> string \<Rightarrow> nat" where
  "line_counts raws = foldl bump (\<lambda>_. 0) raws"

fun take_extras :: "(string \<Rightarrow> nat) \<Rightarrow> (string \<Rightarrow> nat) \<Rightarrow> string list \<Rightarrow> string list" where
  "take_extras extra seen [] = []"
| "take_extras extra seen (raw # raws) =
     (if seen raw < extra raw then raw # take_extras extra (bump seen raw) raws
      else take_extras extra seen raws)"

definition remove_transform :: "wud_line list \<Rightarrow> nat set \<Rightarrow> string list \<Rightarrow> string list" where
  "remove_transform ls remove current =
     (let original = line_counts (map wl_raw ls);
          preserved = map wl_raw (filter (\<lambda>l. wl_no l \<notin> remove) ls);
          cur = line_counts current;
          extra = (\<lambda>raw. cur raw - original raw)
      in preserved @ take_extras extra (\<lambda>_. 0) current)"

fun take_missing :: "(string \<Rightarrow> nat) \<Rightarrow> (string \<Rightarrow> nat) \<Rightarrow> (string \<Rightarrow> nat) \<Rightarrow> string list \<Rightarrow> string list" where
  "take_missing needed cur restored [] = []"
| "take_missing needed cur restored (raw # raws) =
     (if cur raw + restored raw < needed raw
      then raw # take_missing needed cur (bump restored raw) raws
      else take_missing needed cur restored raws)"

definition needed_lines :: "wud_line list \<Rightarrow> nat set \<Rightarrow> string list" where
  "needed_lines ls failed = map wl_raw (filter (\<lambda>l. wl_no l \<in> failed) ls)"

definition restore_transform :: "wud_line list \<Rightarrow> nat set \<Rightarrow> string list \<Rightarrow> string list" where
  "restore_transform ls failed current =
     (let needed = needed_lines ls failed
      in current @ take_missing (line_counts needed) (line_counts current) (\<lambda>_. 0) needed)"

text \<open>\<open>_rewrite_wud_file\<close>: \<open>lock\<close> is the caller's lock, if any; a new one gets a fresh number.\<close>

definition new_lock :: "string \<Rightarrow> timeout_value \<Rightarrow> directory_lock io" where
  "new_lock target timeout fault s =
     (Inr \<lparr>dl_id = fs_next s, dl_path = target, dl_timeout = timeout\<rparr>, s\<lparr>fs_next := Suc (fs_next s)\<rparr>)"

definition is_held :: "directory_lock \<Rightarrow> bool io" where
  "is_held l fault s = (Inr (lock_held l s), s)"

definition rewrite_wud_file ::
  "int \<Rightarrow> int \<Rightarrow> string \<Rightarrow> (string list \<Rightarrow> string list) \<Rightarrow> directory_lock option \<Rightarrow> timeout_value \<Rightarrow>
   owner_config option \<Rightarrow> unit io" where
  "rewrite_wud_file getuid getgid target transform lock timeout ow =
     io_bind (case lock of None \<Rightarrow> new_lock target timeout | Some l \<Rightarrow> io_ret l) (\<lambda>active.
     io_bind (is_held active) (\<lambda>held.
     let release_after = (lock = None \<or> \<not> held)
     in io_bind (acquire active) (\<lambda>_.
        io_finally
          (io_bind (read_text (Named target)) (\<lambda>t.
             atomic_rewrite getuid getgid (Named target)
               (join_shell_lines (transform (split_shell_lines t))) ow (Some (Named target)) 432 False))
          (\<lambda>_. if release_after then release active else io_ret ()))))"

definition remove_lines_before_run ::
  "int \<Rightarrow> int \<Rightarrow> string \<Rightarrow> parsed_wud_file \<Rightarrow> nat set \<Rightarrow> directory_lock option \<Rightarrow> timeout_value \<Rightarrow>
   owner_config option \<Rightarrow> bool io" where
  "remove_lines_before_run getuid getgid target parsed remove lock timeout ow =
     (if remove = {} then io_ret False
      else io_bind (rewrite_wud_file getuid getgid target (remove_transform (pw_lines parsed) remove)
             lock timeout ow) (\<lambda>_. io_ret True))"

definition restore_failed_lines ::
  "int \<Rightarrow> int \<Rightarrow> string \<Rightarrow> parsed_wud_file \<Rightarrow> nat set \<Rightarrow> directory_lock option \<Rightarrow> timeout_value \<Rightarrow>
   owner_config option \<Rightarrow> bool io" where
  "restore_failed_lines getuid getgid target parsed failed lock timeout ow =
     (if failed = {} then io_ret False
      else if needed_lines (pw_lines parsed) failed = [] then io_ret False
      else io_bind (rewrite_wud_file getuid getgid target (restore_transform (pw_lines parsed) failed)
             lock timeout ow) (\<lambda>_. io_ret True))"

section \<open>Lines\<close>


lemma split_on_snoc: "split_on c (s @ [c]) = split_on c s @ [[]]"
  by (induction s) (auto split: list.splits simp: Cons_eq_append_conv)

lemma split_join_shell_lines:
  assumes "\<forall>l \<in> set ls. CHR 0x0A \<notin> set l"
  shows "split_shell_lines (join_shell_lines ls) = ls"
  using assms
  by (cases "ls = []")
    (simp_all add: split_shell_lines_def join_shell_lines_def split_on_snoc split_join_with Let_def)

lemma split_shell_lines_plain: "l \<in> set (split_shell_lines t) \<Longrightarrow> CHR 0x0A \<notin> set l"
  by (auto simp: split_shell_lines_def Let_def split: if_splits dest: split_on_no_sep in_set_butlastD)

interpretation shell_lines: codec join_shell_lines "\<lambda>t. Some (split_shell_lines t)"
  "\<lambda>ls. \<forall>l \<in> set ls. CHR 0x0A \<notin> set l"
  by unfold_locales (simp add: split_join_shell_lines)

interpretation platform_codec: codec platform_text parse_platform platform_ok
  by unfold_locales (rule parse_platform_text)

lemma parse_lines_lines:
  "map wl_raw (pw_lines (parse_lines sel n raws)) = raws"
  "map wl_no (pw_lines (parse_lines sel n raws)) = [n ..< n + length raws]"
proof (induction raws arbitrary: n)
  case (Cons raw raws)
  { case 1 from Cons.IH show ?case by (auto simp: Let_def split: prod.splits) }
  { case 2
    have upt: "[n ..< n + length (raw # raws)] = n # [Suc n ..< Suc n + length raws]"
      using upt_conv_Cons [of n "Suc n + length raws"] by simp
    show ?case unfolding upt using Cons.IH [of "Suc n"] by (auto simp: Let_def split: prod.splits) }
qed simp_all

text \<open>The targets are the selected actionable lines, each with its own number and text.\<close>

lemma parse_target_line: "wt_line_no (fst (parse_target n raw t)) = n" "wt_raw (fst (parse_target n raw t)) = raw"
  by (simp_all add: parse_target_def Let_def)

lemma parse_lines_targets:
  "map (\<lambda>t. (wt_line_no t, wt_raw t)) (pw_targets (parse_lines sel n raws)) =
   map (\<lambda>l. (wl_no l, wl_raw l))
     (filter (\<lambda>l. wl_actionable l \<and> (case sel of None \<Rightarrow> True | Some S \<Rightarrow> wl_no l \<in> S))
       (pw_lines (parse_lines sel n raws)))"
proof (induction raws arbitrary: n)
  case (Cons raw raws)
  show ?case
    using Cons.IH [of "Suc n"] parse_target_line [of n raw "trim raw"]
    by (auto simp: Let_def split: prod.splits option.splits)
qed simp

text \<open>A tag a target asks for is valid, and the entry's own image has a tag to replace.\<close>

lemma parse_target_tag:
  "wt_desired_tag (fst (parse_target n raw t)) \<noteq> '''' \<Longrightarrow>
   tag_value_valid (wt_desired_tag (fst (parse_target n raw t))) \<and> wt_has_tag (fst (parse_target n raw t))"
  by (auto simp: parse_target_def Let_def split: if_splits)

lemma parse_lines_tag:
  "t \<in> set (pw_targets (parse_lines sel n raws)) \<Longrightarrow> wt_desired_tag t \<noteq> '''' \<Longrightarrow>
   tag_value_valid (wt_desired_tag t) \<and> wt_has_tag t"
proof (induction raws arbitrary: n)
  case (Cons raw raws)
  then show ?case
    using parse_target_tag [of n raw "trim raw"]
    by (auto simp: Let_def split: prod.splits if_splits option.splits)
qed simp

section \<open>Counting lines\<close>

lemma foldl_bump: "foldl bump m raws raw = m raw + count (mset raws) raw"
  by (induction raws arbitrary: m) (auto simp: bump_def)

lemma line_counts [simp]: "line_counts raws raw = count (mset raws) raw"
  by (simp add: line_counts_def foldl_bump)

lemma subseq_take_extras: "subseq (take_extras extra seen raws) raws"
  by (induction extra seen raws rule: take_extras.induct) auto

lemma count_take_extras:
  "seen x \<le> extra x \<Longrightarrow>
   count (mset (take_extras extra seen raws)) x = min (extra x - seen x) (count (mset raws) x)"
proof (induction raws arbitrary: seen)
  case (Cons r raws)
  define seen' where "seen' = bump seen r"
  have x: "seen' x = (if x = r then Suc (seen r) else seen x)" by (simp add: seen'_def bump_def)
  then have "seen' x \<le> extra x" if "seen r < extra r" using Cons.prems that by auto
  moreover have "take_extras extra seen (r # raws) =
      (if seen r < extra r then r # take_extras extra seen' raws else take_extras extra seen raws)"
    by (simp add: seen'_def)
  ultimately show ?case using Cons.IH [of seen'] Cons.IH [of seen] Cons.prems x
    by (auto simp del: take_extras.simps)
qed simp

lemma count_take_missing:
  "count (mset (take_missing needed cur restored raws)) x =
   min (needed x - (cur x + restored x)) (count (mset raws) x)"
proof (induction raws arbitrary: restored)
  case (Cons r raws)
  define restored' where "restored' = bump restored r"
  have "restored' x = (if x = r then Suc (restored r) else restored x)"
    by (simp add: restored'_def bump_def)
  moreover have "take_missing needed cur restored (r # raws) =
      (if cur r + restored r < needed r then r # take_missing needed cur restored' raws
       else take_missing needed cur restored raws)"
    by (simp add: restored'_def)
  ultimately show ?case using Cons.IH [of restored'] Cons.IH [of restored]
    by (auto simp del: take_missing.simps)
qed simp

lemma set_take_missing: "set (take_missing needed cur restored raws) \<subseteq> set raws"
  by (induction needed cur restored raws rule: take_missing.induct) auto

lemma mset_remove_transform:
  "mset (remove_transform ls R current) =
   mset (map wl_raw (filter (\<lambda>l. wl_no l \<notin> R) ls)) + (mset current - mset (map wl_raw ls))"
  by (rule multiset_eqI)
    (simp add: remove_transform_def Let_def count_take_extras del: mset_map mset_filter)

lemma remove_transform_order:
  "\<exists>extras. remove_transform ls R current = map wl_raw (filter (\<lambda>l. wl_no l \<notin> R) ls) @ extras \<and>
     subseq extras current"
  by (simp add: remove_transform_def Let_def subseq_take_extras)

lemma remove_transform_parts:
  "\<exists>added. remove_transform ls R current = map wl_raw (filter (\<lambda>l. wl_no l \<notin> R) ls) @ added \<and>
     subseq added current \<and> mset added = mset current - mset (map wl_raw ls)"
proof -
  obtain added where a: "remove_transform ls R current = map wl_raw (filter (\<lambda>l. wl_no l \<notin> R) ls) @ added"
    "subseq added current" using remove_transform_order by blast
  with mset_remove_transform [of ls R current] show ?thesis by auto
qed

lemma mset_restore_transform:
  "mset (restore_transform ls F current) = mset current \<union># mset (needed_lines ls F)"
  by (rule multiset_eqI) (simp add: restore_transform_def Let_def count_take_missing max_def)

lemma remove_transform_plain:
  assumes "\<forall>l \<in> set ls. CHR 0x0A \<notin> set (wl_raw l)" and "\<forall>r \<in> set current. CHR 0x0A \<notin> set r"
  shows "\<forall>r \<in> set (remove_transform ls R current). CHR 0x0A \<notin> set r"
proof
  fix r assume "r \<in> set (remove_transform ls R current)"
  then have "r \<in># mset (map wl_raw (filter (\<lambda>l. wl_no l \<notin> R) ls)) + (mset current - mset (map wl_raw ls))"
    by (metis mset_remove_transform set_mset_mset)
  then show "CHR 0x0A \<notin> set r" using assms by (auto dest: in_diffD)
qed

lemma restore_transform_plain:
  assumes "\<forall>l \<in> set ls. CHR 0x0A \<notin> set (wl_raw l)" and "\<forall>r \<in> set current. CHR 0x0A \<notin> set r"
  shows "\<forall>r \<in> set (restore_transform ls F current). CHR 0x0A \<notin> set r"
proof
  fix r assume "r \<in> set (restore_transform ls F current)"
  then have "r \<in># mset current \<union># mset (needed_lines ls F)"
    by (metis mset_restore_transform set_mset_mset)
  then show "CHR 0x0A \<notin> set r" using assms by (auto simp: needed_lines_def)
qed

section \<open>The rewrite\<close>

text \<open>
  Whatever fails: on return the file holds the transformed lines, otherwise every file is as it
  was; no lock taken here stays held, and no other lock is given up.
\<close>

definition wud_rewritten ::
  "(string list \<Rightarrow> string list) \<Rightarrow> string \<Rightarrow> fs \<Rightarrow> (exc + 'a) \<Rightarrow> fs \<Rightarrow> bool" where
  "wud_rewritten transform n s r s' =
     ((case r of
         Inl _ \<Rightarrow> \<forall>k. fs_files s' (Named k) = fs_files s (Named k)
       | Inr _ \<Rightarrow> text_at s' n =
             map_option (\<lambda>t. join_shell_lines (transform (split_shell_lines t))) (text_at s n) \<and>
           text_at s n \<noteq> None \<and> (\<forall>k. k \<noteq> n \<longrightarrow> fs_files s' (Named k) = fs_files s (Named k))) \<and>
      fs_held s' = fs_held s \<and> fs_ok s')"

text \<open>
  The lock directory afterwards: no directory differs, or only the lock directory made here is
  left because the last system call, the one that removes it, failed.
\<close>

definition lock_back :: "faults \<Rightarrow> string \<Rightarrow> fs \<Rightarrow> fs \<Rightarrow> bool" where
  "lock_back fault d s s' =
     (fs_dirs s' = fs_dirs s \<or>
      (d \<notin> fs_dirs s \<and> fs_dirs s' = insert d (fs_dirs s) \<and> (\<exists>k. fs_ops s' = Suc k \<and> fault k)))"

definition rewrite_lock_dir :: "directory_lock option \<Rightarrow> string \<Rightarrow> string" where
  "rewrite_lock_dir lock n = lock_dir_for (case lock of None \<Rightarrow> n | Some l \<Rightarrow> dl_path l)"

definition locks_ok :: "fs \<Rightarrow> bool" where
  "locks_ok s = (\<forall>i \<in> fs_held s. i < fs_next s)"

lemma rewrite_body:
  assumes ok: "fs_ok s"
  shows "holds (io_bind (read_text (Named n)) (\<lambda>t.
             atomic_rewrite u g (Named n) (join_shell_lines (transform (split_shell_lines t))) ow
               (Some (Named n)) 432 False)) fault s
     (\<lambda>r s'. wud_rewritten transform n s r s' \<and> fs_dirs s' = fs_dirs s)"
proof (rule holds_bindI [where P = "\<lambda>r s'. fs_files s' = fs_files s \<and> fs_next s' = fs_next s \<and>
      fs_held s' = fs_held s \<and> fs_dirs s' = fs_dirs s \<and> (\<forall>t. r = Inr t \<longrightarrow> text_at s n = Some t)"])
  show "holds (read_text (Named n)) fault s (\<lambda>r s'. fs_files s' = fs_files s \<and> fs_next s' = fs_next s \<and>
      fs_held s' = fs_held s \<and> fs_dirs s' = fs_dirs s \<and> (\<forall>t. r = Inr t \<longrightarrow> text_at s n = Some t))"
    by (simp add: read_text_def io_holds Let_def text_at_def split: option.splits)
next
  fix t and s' :: fs assume a: "fs_files s' = fs_files s \<and> fs_next s' = fs_next s \<and> fs_held s' = fs_held s \<and>
    fs_dirs s' = fs_dirs s \<and> (\<forall>t'. Inr t = (Inr t' :: exc + string) \<longrightarrow> text_at s n = Some t')"
  then have "fs_ok s'" using ok by (simp add: fs_ok_def)
  note at = atomic_rewrite_holds [OF this]
  show "holds (atomic_rewrite u g (Named n) (join_shell_lines (transform (split_shell_lines t))) ow
               (Some (Named n)) 432 False) fault s'
     (\<lambda>r s'. wud_rewritten transform n s r s' \<and> fs_dirs s' = fs_dirs s)"
    by (rule holds_mono [OF at])
      (use a in \<open>auto simp: wud_rewritten_def replaced_def only_temps_def text_at_def split: sum.splits\<close>)
qed (use ok in \<open>auto simp: wud_rewritten_def fs_ok_def\<close>)

lemma wud_rewritten_trans:
  assumes "only_locks s s1" and "wud_rewritten transform n s1 r s2" and "only_locks s2 s3"
    and "fs_held s3 = fs_held s"
  shows "wud_rewritten transform n s r s3"
  using assms by (auto simp: wud_rewritten_def only_locks_def text_at_def fs_ok_def split: sum.splits)

lemma only_locks_refl [simp]: "only_locks s s"
  by (simp add: only_locks_def)

lemma rewrite_locked_back:
  assumes ok: "fs_ok s" and ra: "ra = (\<not> lock_held l s)"
  shows "holds (io_bind (acquire l) (\<lambda>_. io_finally
          (io_bind (read_text (Named n)) (\<lambda>t.
             atomic_rewrite u g (Named n) (join_shell_lines (transform (split_shell_lines t))) ow
               (Some (Named n)) 432 False))
          (\<lambda>_. if ra then release l else io_ret ()))) fault s
     (\<lambda>r s'. wud_rewritten transform n s r s' \<and> lock_back fault (lock_dir_for (dl_path l)) s s')"
proof (rule holds_bindI [where P = "\<lambda>r s'. case r of Inl _ \<Rightarrow> no_lock s s'
     | Inr _ \<Rightarrow> (lock_held l s \<and> s' = s) \<or> (\<not> lock_held l s \<and> acquired l s s')"])
  show "holds (acquire l) fault s (\<lambda>r s'. case r of Inl _ \<Rightarrow> no_lock s s'
     | Inr _ \<Rightarrow> (lock_held l s \<and> s' = s) \<or> (\<not> lock_held l s \<and> acquired l s s'))"
    using acquire_outcome [where l = l and fault = fault and s = s]
    by (auto simp: holds_def split: prod.splits sum.splits)
next
  fix e s' assume "case (Inl e :: exc + unit) of Inl _ \<Rightarrow> no_lock s s'
     | Inr _ \<Rightarrow> (lock_held l s \<and> s' = s) \<or> (\<not> lock_held l s \<and> acquired l s s')"
  then show "wud_rewritten transform n s (Inl e) s' \<and> lock_back fault (lock_dir_for (dl_path l)) s s'"
    using ok by (auto simp: wud_rewritten_def no_lock_def only_locks_def fs_ok_def lock_back_def)
next
  fix x :: unit and s1
  assume "case Inr x of Inl (_::exc) \<Rightarrow> no_lock s s1
     | Inr _ \<Rightarrow> (lock_held l s \<and> s1 = s) \<or> (\<not> lock_held l s \<and> acquired l s s1)"
  then have s1: "only_locks s s1" "fs_held s1 = (if ra then insert (dl_id l) (fs_held s) else fs_held s)"
    "lock_held l s1"
    "if ra then lock_dir_for (dl_path l) \<notin> fs_dirs s \<and> fs_dirs s1 = insert (lock_dir_for (dl_path l)) (fs_dirs s)
     else fs_dirs s1 = fs_dirs s"
    using ra by (auto simp: acquired_def lock_held_def)
  then have "fs_ok s1" using ok by (simp add: only_locks_def fs_ok_def)
  note body = rewrite_body [OF this]
  show "holds (io_finally
          (io_bind (read_text (Named n)) (\<lambda>t.
             atomic_rewrite u g (Named n) (join_shell_lines (transform (split_shell_lines t))) ow
               (Some (Named n)) 432 False))
          (\<lambda>_. if ra then release l else io_ret ())) fault s1
     (\<lambda>r s'. wud_rewritten transform n s r s' \<and> lock_back fault (lock_dir_for (dl_path l)) s s')"
    unfolding holds_finally
  proof (rule holds_mono [OF body])
    fix r s2 assume r: "wud_rewritten transform n s1 r s2 \<and> fs_dirs s2 = fs_dirs s1"
    obtain s3 where s3: "release l fault s2 = (Inr (), s3)" "only_locks s2 s3"
      "fs_held s3 = fs_held s2 - {dl_id l}"
      "lock_held l s2 \<longrightarrow> \<not> fault (fs_ops s2) \<longrightarrow> fs_dirs s3 = fs_dirs s2 - {lock_dir_for (dl_path l)}"
      "lock_held l s2 \<longrightarrow> fault (fs_ops s2) \<longrightarrow> fs_dirs s3 = fs_dirs s2 \<and> fs_ops s3 = Suc (fs_ops s2)"
      using release_outcome [where l = l and fault = fault and s = s2] by (elim exE conjE) (rule that; assumption)
    have "wud_rewritten transform n s r (if ra then s3 else s2)"
      using r s1 s3 ra by (intro wud_rewritten_trans [OF s1(1), where ?s2.0 = s2])
        (auto simp: wud_rewritten_def lock_held_def)
    moreover have "lock_back fault (lock_dir_for (dl_path l)) s (if ra then s3 else s2)"
    proof (cases ra)
      case True
      moreover from r s1(3) have "lock_held l s2" by (simp add: wud_rewritten_def lock_held_def)
      ultimately show ?thesis
        using s3(4,5) s1(4) r by (cases "fault (fs_ops s2)") (auto simp: lock_back_def)
    next
      case False
      then show ?thesis using s1(4) r by (simp add: lock_back_def)
    qed
    ultimately show "holds (if ra then release l else io_ret ()) fault s2
        (\<lambda>r' s''. case r' of
           Inl e \<Rightarrow> wud_rewritten transform n s (Inl e) s'' \<and> lock_back fault (lock_dir_for (dl_path l)) s s''
         | Inr _ \<Rightarrow> wud_rewritten transform n s r s'' \<and> lock_back fault (lock_dir_for (dl_path l)) s s'')"
      by (cases ra) (simp_all add: holds_def s3(1) io_ret_def)
  qed
qed

lemma rewrite_locked:
  assumes "fs_ok s" and "ra = (\<not> lock_held l s)"
  shows "holds (io_bind (acquire l) (\<lambda>_. io_finally
          (io_bind (read_text (Named n)) (\<lambda>t.
             atomic_rewrite u g (Named n) (join_shell_lines (transform (split_shell_lines t))) ow
               (Some (Named n)) 432 False))
          (\<lambda>_. if ra then release l else io_ret ()))) fault s (wud_rewritten transform n s)"
  by (rule holds_mono [OF rewrite_locked_back [OF assms]]) simp

lemma rewrite_wud_file_holds:
  assumes ok: "fs_ok s" and lk: "locks_ok s"
  shows "holds (rewrite_wud_file u g n transform lock timeout ow) fault s
    (\<lambda>r s'. wud_rewritten transform n s r s' \<and> lock_back fault (rewrite_lock_dir lock n) s s')"
proof (cases lock)
  case (Some l)
  then show ?thesis
    using rewrite_locked_back [OF ok refl, of l n u g transform ow fault]
    by (simp add: rewrite_wud_file_def holds_bind holds_ret is_held_def holds_def [of "is_held l"] Let_def
        rewrite_lock_dir_def)
next
  case None
  let ?l = "\<lparr>dl_id = fs_next s, dl_path = n, dl_timeout = timeout\<rparr>"
  let ?s1 = "s\<lparr>fs_next := Suc (fs_next s)\<rparr>"
  have nh: "\<not> lock_held ?l ?s1" using lk by (auto simp: lock_held_def locks_ok_def)
  then have ra: "True = (\<not> lock_held ?l ?s1)" by simp
  have "fs_ok ?s1" using ok by (auto simp: fs_ok_def intro: less_SucI)
  from rewrite_locked_back [OF this ra, of n u g transform ow fault]
  have "holds (rewrite_wud_file u g n transform lock timeout ow) fault s
      (\<lambda>r s'. wud_rewritten transform n ?s1 r s' \<and> lock_back fault (rewrite_lock_dir lock n) ?s1 s')"
    using None by (simp add: rewrite_wud_file_def holds_bind new_lock_def is_held_def Let_def
        holds_def [of "new_lock n timeout"] holds_def [of "is_held ?l"] rewrite_lock_dir_def)
  then show ?thesis
    by (rule holds_mono) (auto simp: wud_rewritten_def text_at_def lock_back_def split: sum.splits)
qed

interpretation wud_writer: atomic_writer
  "\<lambda>n t. atomic_rewrite u g (Named n) t ow (Some (Named n)) 432 False" for u g ow
  by unfold_locales
    (rule holds_mono [OF atomic_rewrite_holds],
      auto simp: all_or_nothing_def text_at_def replaced_def only_temps_def split: sum.splits)

section \<open>Properties\<close>

lemma holds_then_ret:
  assumes "holds m fault s P" and "\<And>e s'. P (Inl e) s' \<Longrightarrow> Q (Inl e) s'"
    and "\<And>y s'. P (Inr y) s' \<Longrightarrow> Q (Inr x) s'"
  shows "holds (io_bind m (\<lambda>_. io_ret x)) fault s Q"
  by (rule holds_bindI [OF assms(1)]) (simp_all add: assms(2,3) holds_ret)

lemma remove_rewritten:
  assumes "fs_ok s" and "locks_ok s" and "R \<noteq> {}"
  shows "holds (remove_lines_before_run u g n parsed R lock tmo ow) fault s
    (\<lambda>r s'. wud_rewritten (remove_transform (pw_lines parsed) R) n s r s' \<and> lock_back fault (rewrite_lock_dir lock n) s s')"
  using assms(3) unfolding remove_lines_before_run_def
  by (simp, intro holds_then_ret [OF rewrite_wud_file_holds [OF assms(1,2)]])
    (simp_all add: wud_rewritten_def)

lemma restore_rewritten:
  assumes "fs_ok s" and "locks_ok s" and "needed_lines (pw_lines parsed) F \<noteq> []"
  shows "holds (restore_failed_lines u g n parsed F lock tmo ow) fault s
    (\<lambda>r s'. wud_rewritten (restore_transform (pw_lines parsed) F) n s r s' \<and> lock_back fault (rewrite_lock_dir lock n) s s')"
proof -
  have "F \<noteq> {}" using assms(3) by (auto simp: needed_lines_def)
  with assms(3) show ?thesis unfolding restore_failed_lines_def
    by (simp, intro holds_then_ret [OF rewrite_wud_file_holds [OF assms(1,2)]])
      (simp_all add: wud_rewritten_def)
qed

lemma parsed_lines_plain: "l \<in> set (pw_lines (parse_wud_text t sel)) \<Longrightarrow> CHR 0x0A \<notin> set (wl_raw l)"
  unfolding parse_wud_text_def
  by (metis image_eqI image_set parse_lines_lines(1) split_shell_lines_plain)

text \<open>C4: taking lines out before a run loses nothing else. Whatever fails, either every file
  is as before, or the file now holds, in this order, the parsed lines that
  were not asked to go and then every line that other processes added meanwhile (as a
  multiset: current lines minus parsed lines), and no other file changed. On both paths the lock
  is given back if it was taken here and stays held if it was held: the locks held are those
  held before, and so are the lock directories, unless the system call that removes the
  directory itself failed, which is then the only directory left behind.\<close>

theorem remove_lines_outcome:
  assumes "fs_ok s" and "locks_ok s" and "R \<noteq> {}"
  shows "case remove_lines_before_run u g n (parse_wud_text t0 sel) R lock tmo ow fault s of
     (Inl e, s') \<Rightarrow> (\<forall>k. fs_files s' (Named k) = fs_files s (Named k)) \<and> fs_held s' = fs_held s \<and>
      lock_back fault (rewrite_lock_dir lock n) s s'
   | (Inr b, s') \<Rightarrow> fs_held s' = fs_held s \<and> lock_back fault (rewrite_lock_dir lock n) s s' \<and>
      (\<forall>k. k \<noteq> n \<longrightarrow> fs_files s' (Named k) = fs_files s (Named k)) \<and>
      (\<exists>t added kept. text_at s n = Some t \<and>
         kept = map wl_raw (filter (\<lambda>l. wl_no l \<notin> R) (pw_lines (parse_wud_text t0 sel))) \<and>
         mset added = mset (split_shell_lines t) - mset (split_shell_lines t0) \<and>
         subseq added (split_shell_lines t) \<and>
         map_option split_shell_lines (text_at s' n) = Some (kept @ added))"
proof -
  let ?parsed = "parse_wud_text t0 sel"
  let ?run = "remove_lines_before_run u g n ?parsed R lock tmo ow fault s"
  obtain r s' where run: "?run = (r, s')" by fastforce
  note w = holds_result [OF remove_rewritten [OF assms] run]
  show ?thesis
  proof (cases r)
    case (Inl e)
    with w run show ?thesis by (simp add: wud_rewritten_def)
  next
    case (Inr b)
    with w obtain t where t: "text_at s n = Some t"
      "text_at s' n = Some (join_shell_lines (remove_transform (pw_lines ?parsed) R (split_shell_lines t)))"
      by (auto simp: wud_rewritten_def)
    have lines_back: "map_option split_shell_lines (text_at s' n) =
        Some (remove_transform (pw_lines ?parsed) R (split_shell_lines t))"
      unfolding t(2) option.map option.inject
      by (intro split_join_shell_lines remove_transform_plain ballI)
        (blast dest: parsed_lines_plain split_shell_lines_plain)+
    have "map wl_raw (pw_lines ?parsed) = split_shell_lines t0"
      by (simp add: parse_wud_text_def parse_lines_lines)
    then show ?thesis
      using Inr w run lines_back t(1) remove_transform_parts [of "pw_lines ?parsed" R "split_shell_lines t"]
      by (auto simp: wud_rewritten_def)
  qed
qed

definition wud_example :: "string \<Rightarrow> fs" where
  "wud_example t = \<lparr>fs_files = [Named ''wud'' \<mapsto> \<lparr>f_text = t, f_meta = \<lparr>fm_mode = 416, fm_uid = 1000, fm_gid = 1000\<rparr>\<rparr>],
     fs_next = 0, fs_ops = 0, fs_written = [], fs_dirs = {}, fs_held = {}\<rparr>"

lemma wud_example_ok: "fs_ok (wud_example t)" "locks_ok (wud_example t)"
  by (simp_all add: wud_example_def fs_ok_def locks_ok_def)

theorem remove_lines_outcome_witness:
  "fs_held (snd (remove_lines_before_run 0 0 ''wud'' (parse_wud_text ''a'' None) {1} None (Seconds 1) None (\<lambda>_. False)
       (wud_example ''a''))) = {} \<and>
   fs_dirs (snd (remove_lines_before_run 0 0 ''wud'' (parse_wud_text ''a'' None) {1} None (Seconds 1) None (\<lambda>_. False)
       (wud_example ''a''))) = {}"
  using remove_lines_outcome [OF wud_example_ok [of "''a''"], where R = "{1}" and u = 0 and g = 0 and n = "''wud''"
      and ?t0.0 = "''a''" and sel = None and lock = None and tmo = "Seconds 1" and ow = None
      and fault = "\<lambda>_. False"]
  by (auto simp: wud_example_def lock_back_def split: prod.splits sum.splits)

lemma wud_example_text: "text_at (wud_example t) ''wud'' = Some t"
  by (simp add: wud_example_def text_at_def)

lemma wud_example_split: "split_shell_lines ''b'' = [''b'']"
  by code_simp

lemma wud_example_needed: "needed_lines (pw_lines (parse_wud_text ''a'' None)) {Suc 0} = [''a'']"
  by code_simp

text \<open>C5: putting failed lines back never drops a line and never duplicates one. Whatever fails,
  either every file is as before, or the file now holds the lines it had, in their
  order, followed by failed lines, and each line stands in it as often as the larger of its
  count in the file before and its count among the failed lines; so every failed line is
  in the file again. On both paths the locks held and the lock directories are as before, unless
  the removal of the lock directory itself failed.\<close>

theorem restore_lines_outcome:
  assumes "fs_ok s" and "locks_ok s" and ne: "needed_lines (pw_lines (parse_wud_text t0 sel)) F \<noteq> []"
  shows "case restore_failed_lines u g n (parse_wud_text t0 sel) F lock tmo ow fault s of
     (Inl e, s') \<Rightarrow> (\<forall>k. fs_files s' (Named k) = fs_files s (Named k)) \<and> fs_held s' = fs_held s \<and>
      lock_back fault (rewrite_lock_dir lock n) s s'
   | (Inr b, s') \<Rightarrow> fs_held s' = fs_held s \<and> lock_back fault (rewrite_lock_dir lock n) s s' \<and>
      (\<forall>k. k \<noteq> n \<longrightarrow> fs_files s' (Named k) = fs_files s (Named k)) \<and>
      (\<exists>t back'. text_at s n = Some t \<and>
         map_option split_shell_lines (text_at s' n) = Some (split_shell_lines t @ back') \<and>
         set back' \<subseteq> set (needed_lines (pw_lines (parse_wud_text t0 sel)) F) \<and>
         mset (split_shell_lines t @ back') =
           mset (split_shell_lines t) \<union># mset (needed_lines (pw_lines (parse_wud_text t0 sel)) F))"
proof -
  let ?ls = "pw_lines (parse_wud_text t0 sel)"
  let ?run = "restore_failed_lines u g n (parse_wud_text t0 sel) F lock tmo ow fault s"
  obtain r s' where run: "?run = (r, s')" by fastforce
  note w = holds_result [OF restore_rewritten [OF assms] run]
  show ?thesis
  proof (cases r)
    case (Inl e)
    with w run show ?thesis by (simp add: wud_rewritten_def)
  next
    case (Inr b)
    with w obtain t where t: "text_at s n = Some t"
      "text_at s' n = Some (join_shell_lines (restore_transform ?ls F (split_shell_lines t)))"
      by (auto simp: wud_rewritten_def)
    define missing where "missing = take_missing (line_counts (needed_lines ?ls F))
      (line_counts (split_shell_lines t)) (\<lambda>_. 0) (needed_lines ?ls F)"
    have rt: "restore_transform ?ls F (split_shell_lines t) = split_shell_lines t @ missing"
      by (simp add: restore_transform_def missing_def Let_def)
    have "map_option split_shell_lines (text_at s' n) = Some (restore_transform ?ls F (split_shell_lines t))"
      unfolding t(2) option.map option.inject
      by (intro split_join_shell_lines restore_transform_plain ballI)
        (blast dest: parsed_lines_plain split_shell_lines_plain)+
    moreover have "set missing \<subseteq> set (needed_lines ?ls F)"
      unfolding missing_def by (rule set_take_missing)
    moreover have "mset (split_shell_lines t @ missing) =
        mset (split_shell_lines t) \<union># mset (needed_lines ?ls F)"
      using mset_restore_transform [of ?ls F "split_shell_lines t"] by (simp only: rt)
    ultimately show ?thesis
      using Inr w run t(1) unfolding rt by (auto simp: wud_rewritten_def)
  qed
qed

theorem restore_lines_outcome_witness:
  "case restore_failed_lines 0 0 ''wud'' (parse_wud_text ''a'' None) {1} None (Seconds 1) None (\<lambda>_. False)
       (wud_example ''b'') of
     (Inl e, s') \<Rightarrow> fs_files s' (Named ''wud'') = fs_files (wud_example ''b'') (Named ''wud'')
   | (Inr b, s') \<Rightarrow> (\<exists>ls. map_option split_shell_lines (text_at s' ''wud'') = Some ls \<and> mset ls = {#''a'', ''b''#})"
  using restore_lines_outcome [OF wud_example_ok [of "''b''"], where F = "{1}" and u = 0 and g = 0 and n = "''wud''"
      and ?t0.0 = "''a''" and sel = None and lock = None and tmo = "Seconds 1" and ow = None
      and fault = "\<lambda>_. False"]
  by (auto simp: wud_example_split wud_example_needed wud_example_text split: prod.splits sum.splits)

lemma parse_lines_actionable:
  "l \<in> set (pw_lines (parse_lines sel n raws)) \<Longrightarrow> wl_actionable l = line_actionable (wl_raw l)"
proof (induction raws arbitrary: n)
  case (Cons raw raws)
  then show ?case by (auto simp: Let_def split: prod.splits if_splits)
qed simp

text \<open>C7: parsing keeps the file. Printed lines parse back to themselves, numbered from 1, and the
  targets are exactly the selected lines that are neither blank nor comments, in order.\<close>

theorem parse_wud_lines:
  assumes "\<forall>l \<in> set raws. CHR 0x0A \<notin> set l"
  shows "map (\<lambda>l. (wl_no l, wl_raw l)) (pw_lines (parse_wud_text (join_shell_lines raws) sel)) =
      zip [1 ..< 1 + length raws] raws \<and>
    map (\<lambda>t. (wt_line_no t, wt_raw t)) (pw_targets (parse_wud_text (join_shell_lines raws) sel)) =
      filter (\<lambda>(i, raw). line_actionable raw \<and> (case sel of None \<Rightarrow> True | Some S \<Rightarrow> i \<in> S))
        (zip [1 ..< 1 + length raws] raws)"
proof -
  let ?ls = "pw_lines (parse_lines sel 1 raws)"
  let ?f = "\<lambda>l. (wl_no l, wl_raw l)"
  have zipf: "map ?f ls = zip (map wl_no ls) (map wl_raw ls)" for ls by (induction ls) auto
  have eq: "map ?f ?ls = zip [1 ..< 1 + length raws] raws"
    unfolding zipf parse_lines_lines ..
  have "filter (\<lambda>(i, raw). line_actionable raw \<and> (case sel of None \<Rightarrow> True | Some S \<Rightarrow> i \<in> S)) (map ?f ?ls) =
    map ?f (filter (\<lambda>l. wl_actionable l \<and> (case sel of None \<Rightarrow> True | Some S \<Rightarrow> wl_no l \<in> S)) ?ls)"
    unfolding filter_map by (rule arg_cong [where f = "map ?f"], rule filter_cong [OF refl])
      (auto simp: parse_lines_actionable)
  then show ?thesis
    unfolding parse_wud_text_def split_join_shell_lines [OF assms] eq parse_lines_targets by simp
qed

theorem parse_wud_lines_witness:
  "map (\<lambda>t. (wt_line_no t, wt_raw t)) (pw_targets (parse_wud_text (join_shell_lines [''# c'', ''a'']) None)) =
     [(2, ''a'')]"
proof -
  have "line_actionable ''# c'' = False" "line_actionable ''a'' = True" by code_simp+
  then show ?thesis
    using parse_wud_lines [of "[''# c'', ''a'']" None] by (simp add: upt_rec)
qed

end
