(* ===== verification/Updater_Models.thy ===== *)
theory Updater_Models
  imports Images Platforms Wud_File
begin

text \<open>
  The data of \<open>src/src/wudup/updater_models.py\<close> and the stack records of
  \<open>src/src/wudup/compose.py\<close>. A subclass that adds a field is a record extension, as
  \<open>AppliedTagUpdate\<close> of \<open>TagUpdate\<close>. \<open>services = None\<close> (every service) is \<open>None\<close>.
\<close>

record service_image =
  si_service :: string
  si_image :: string
  si_network_mode :: string
  si_labels :: "(string \<times> string) list"
  si_platform :: "image_platform option"

record compose_stack =
  cs_index :: nat
  cs_directory :: string
  cs_file :: string
  cs_name :: string
  cs_images :: "string list"
  cs_service_images :: "service_image list"
  cs_project_directory :: "string option"
  cs_project_name :: string

record match_t =
  m_stack :: compose_stack
  m_target :: wud_target
  m_resolved :: string
  m_compose_image :: string
  m_service :: string

record image_state =
  is_image_id :: string
  is_digest :: string

record tag_update =
  tu_old_image :: string
  tu_desired_tag :: string
  tu_new_image :: string
  tu_services :: "string list"

record applied_tag_update = tag_update +
  at_replacements :: nat

record tag_stream_update =
  su_line_no :: nat
  su_stack :: string
  su_stack_directory :: string
  su_compose_file :: string
  su_service :: string
  su_current_tag :: string
  su_reported_tag :: string
  su_selected_tag :: string
  su_decision :: string
  su_label_key :: string
  su_current_label_value :: string
  su_proposed_label_value :: string
  su_proposed_label_regex :: string
  su_approved :: bool
  su_reason :: string

record digest_pin_update =
  dp_old_image :: string
  dp_resolved_tag :: string
  dp_resolved_image :: string
  dp_planned_digest :: string
  dp_final_image :: string
  dp_watch_tag :: string
  dp_marker :: string
  dp_label_key :: string
  dp_label_value :: string
  dp_services :: "string list"

record applied_digest_pin = digest_pin_update +
  ap_replacements :: nat

record digest_unpin_update =
  du_old_image :: string
  du_resolved_tag :: string
  du_tag_image :: string
  du_current_digest :: string
  du_target_digest :: string
  du_watch_tag :: string
  du_marker :: string
  du_label_key :: string
  du_label_value :: string
  du_services :: "string list"

record applied_digest_unpin = digest_unpin_update +
  au_replacements :: nat

record digest_pin_candidate =
  dc_old_image :: string
  dc_resolved_tag :: string
  dc_resolved_image :: string
  dc_planned_digest :: string
  dc_services :: "string list"

record tag_exclusion_update =
  te_stack :: compose_stack
  te_service :: string
  te_image :: string
  te_image_repo :: string
  te_tag :: string
  te_source_line :: nat
  te_scope :: string

record stack_status =
  st_status :: string
  st_reason :: string

abbreviation success :: "string \<Rightarrow> stack_status" where
  "success r \<equiv> \<lparr>st_status = ''success'', st_reason = r\<rparr>"

abbreviation failure :: "string \<Rightarrow> stack_status" where
  "failure r \<equiv> \<lparr>st_status = ''failure'', st_reason = r\<rparr>"

record update_scope =
  sc_services :: "string list option"
  sc_pull_services :: "string list option"
  sc_stack_reason :: string
  sc_stop_services :: "string list option"
  sc_force_recreate :: bool
  sc_up_no_deps :: bool

record failure_record =
  fr_stack :: compose_stack
  fr_services :: "string list option"
  fr_matches :: "match_t list"
  fr_phase :: string
  fr_reason :: string
  fr_command_error :: "string option"
  fr_health_details :: string
  fr_note :: string

text \<open>A raised \<open>UpdaterError\<close> or \<open>ComposeTagRewriteError\<close> of the planners is its message.\<close>

type_synonym 'a planned = "string + 'a"

text \<open>A requirement key: stack index, line number, image. The three sets of outcomes.\<close>

type_synonym requirement_key = "nat \<times> nat \<times> string"

record requirement_outcomes =
  ro_stale :: "requirement_key set"
  ro_failed :: "requirement_key set"
  ro_viable :: "requirement_key set"

definition no_outcomes :: requirement_outcomes where
  "no_outcomes = \<lparr>ro_stale = {}, ro_failed = {}, ro_viable = {}\<rparr>"

definition outcome :: "requirement_outcomes \<Rightarrow> requirement_key \<Rightarrow> string" where
  "outcome o' key =
     (if key \<in> ro_stale o' then ''stale''
      else if key \<in> ro_failed o' then ''failed''
      else if key \<in> ro_viable o' then ''viable''
      else '''')"

definition failed_in_stack :: "requirement_outcomes \<Rightarrow> nat \<Rightarrow> bool" where
  "failed_in_stack o' idx = (\<exists>key \<in> ro_failed o'. fst key = idx)"

definition STALE_PENDING_DIGEST_REASON :: string where
  "STALE_PENDING_DIGEST_REASON = ''stale-pending-digest''"

end
