(* ===== verification/Matching.thy ===== *)
theory Matching
  imports Updater_Models
begin

text \<open>
  \<open>src/src/wudup/updater_matching.py\<close> and the grouping helpers of
  \<open>src/src/wudup/updater_planning.py\<close>: which services an image, a target or a set of matches
  concerns, the services that share a container's network, and the status of a WUD line. The
  test \<open>include_matches\<close> of a service's include label (\<open>_exact_tag_include_matches\<close>) is a
  parameter here; \<open>Compose_Labels\<close> defines it.
\<close>

section \<open>Services of an image or a target\<close>

definition services_for_image :: "service_image list \<Rightarrow> string \<Rightarrow> string list" where
  "services_for_image sis img = sorted_set (map si_service (filter (\<lambda>i. si_image i = img) sis))"

definition service_image_label_value :: "service_image \<Rightarrow> string \<Rightarrow> string" where
  "service_image_label_value si key = dict_get (si_labels si) key ''''"

definition WUD_TAG_INCLUDE_LABEL :: string where
  "WUD_TAG_INCLUDE_LABEL = ''wud.tag.include''"

text \<open>\<open>sorted\<close> of a generator, not of a set: a service named twice stays twice.\<close>

definition digest_pin_rematch_services ::
  "(string \<Rightarrow> string \<Rightarrow> bool) \<Rightarrow> service_image list \<Rightarrow> string \<Rightarrow> wud_target \<Rightarrow> string list" where
  "digest_pin_rematch_services include_matches sis img target =
     (if \<not> is_digest_target_line target then []
      else if image_has_tag img \<or> repo_key img \<noteq> wt_repo target then []
      else let tag = image_tag (wt_first target)
           in sort (map si_service (filter (\<lambda>i. si_image i = img \<and>
                include_matches (service_image_label_value i WUD_TAG_INCLUDE_LABEL) tag) sis)))"

definition services_for_target_match ::
  "(string \<Rightarrow> string \<Rightarrow> bool) \<Rightarrow> service_image list \<Rightarrow> string \<Rightarrow> wud_target \<Rightarrow> string \<Rightarrow> bool \<Rightarrow> bool \<Rightarrow>
   string list option" where
  "services_for_target_match include_matches sis img target resolved allow_repo allow_rematch =
     (if image_matches_resolved_target img resolved allow_repo then Some (services_for_image sis img)
      else if \<not> allow_rematch then None
      else let services = digest_pin_rematch_services include_matches sis img target
           in if services \<noteq> [] then Some services else None)"

section \<open>Shared network namespaces\<close>

fun network_mode_providers_from :: "(string \<times> string) list \<Rightarrow> service_image list \<Rightarrow> (string \<times> string) list" where
  "network_mode_providers_from providers [] = providers"
| "network_mode_providers_from providers (item # items) =
     (let mode = py_strip (si_network_mode item)
      in if \<not> startswith mode ''service:'' then network_mode_providers_from providers items
         else let provider = py_strip (removeprefix mode ''service:'')
              in network_mode_providers_from
                   (if provider \<noteq> '''' then AList.update (si_service item) provider providers else providers)
                   items)"

definition network_mode_providers :: "service_image list \<Rightarrow> (string \<times> string) list" where
  "network_mode_providers sis = network_mode_providers_from [] sis"

fun network_mode_consumers_from ::
  "(string \<times> string list) list \<Rightarrow> (string \<times> string) list \<Rightarrow> (string \<times> string list) list" where
  "network_mode_consumers_from consumers [] = consumers"
| "network_mode_consumers_from consumers ((service, provider) # ps) =
     network_mode_consumers_from
       (if provider \<noteq> '''' \<and> provider \<noteq> service
        then AList.update provider (dict_get consumers provider [] @ [service]) consumers
        else consumers) ps"

definition network_mode_consumers :: "(string \<times> string) list \<Rightarrow> (string \<times> string list) list" where
  "network_mode_consumers providers =
     map (\<lambda>(p, ss). (p, sort ss)) (network_mode_consumers_from [] providers)"

text \<open>
  The recursion of \<open>visit\<close>, with its pending calls on a list: \<open>expanded\<close> and \<open>seen\<close> have the
  same elements, and a service is \<open>visiting\<close> only when it is already seen.
\<close>

function visit_services ::
  "(string \<times> string list) list \<Rightarrow> string list \<Rightarrow> bool \<Rightarrow> string list \<Rightarrow> string list \<times> bool" where
  "visit_services cons expanded uses [] = (expanded, uses)"
| "visit_services cons expanded uses (s # todo) =
     (if s \<in> set expanded then visit_services cons expanded uses todo
      else let consumers = dict_get cons s []
           in visit_services cons (expanded @ [s]) (uses \<or> consumers \<noteq> []) (consumers @ todo))"
  by pat_completeness auto
termination
proof (relation "measures [\<lambda>(cons, e, u, todo). card (fst ` set cons - set e), \<lambda>(cons, e, u, todo). length todo]",
    goal_cases)
  case (3 cons expanded uses s todo consumers)
  show ?case
  proof (cases "s \<in> fst ` set cons")
    case True
    then have "card (fst ` set cons - set (expanded @ [s])) < card (fst ` set cons - set expanded)"
      using 3 by (intro psubset_card_mono) auto
    then show ?thesis by simp
  next
    case False
    then have "consumers = []"
      using 3 by (simp add: dict_get_def map_of_eq_None_iff [THEN iffD2])
    moreover have "fst ` set cons - set (expanded @ [s]) = fst ` set cons - set expanded" using False by auto
    ultimately show ?thesis by simp
  qed
qed auto

definition expand_network_mode_services ::
  "string list \<Rightarrow> (string \<times> string) list \<Rightarrow> string list \<times> bool" where
  "expand_network_mode_services services providers =
     visit_services (network_mode_consumers providers) [] False services"

definition ordered_unique :: "string list \<Rightarrow> string list" where
  "ordered_unique services = nub services"

definition update_services :: "match_t list \<Rightarrow> string list option" where
  "update_services matches =
     (let services = sorted_set (filter (\<lambda>s. s \<noteq> '''') (map m_service matches))
      in if services = [] then None
         else if (\<exists>m \<in> set matches. m_service m = '''') then None
         else Some services)"

definition label_value_is_true :: "string \<Rightarrow> bool" where
  "label_value_is_true v = (lower (py_strip v) = ''true'')"

section \<open>Stacks, lines and statuses\<close>

definition stacks_to_update :: "match_t list \<Rightarrow> compose_stack list" where
  "stacks_to_update matches =
     (let stacks = foldl (\<lambda>d m. AList.update (cs_index (m_stack m)) (m_stack m) d) [] matches
      in map (\<lambda>i. the (map_of stacks i)) (sort (map fst stacks)))"

definition missing_status :: stack_status where
  "missing_status = failure ''missing''"

definition status_of :: "(nat \<rightharpoonup> stack_status) \<Rightarrow> nat \<Rightarrow> stack_status" where
  "status_of statuses idx = (case statuses idx of None \<Rightarrow> missing_status | Some s \<Rightarrow> s)"

definition match_line :: "match_t \<Rightarrow> nat" where
  "match_line m = wt_line_no (m_target m)"

definition match_index :: "match_t \<Rightarrow> nat" where
  "match_index m = cs_index (m_stack m)"

definition failed_line_numbers :: "match_t list \<Rightarrow> (nat \<rightharpoonup> stack_status) \<Rightarrow> nat list" where
  "failed_line_numbers matches statuses =
     filter (\<lambda>line_no. \<exists>m \<in> set matches. match_line m = line_no \<and>
         st_status (status_of statuses (match_index m)) \<noteq> ''success'')
       (sorted_set (map match_line matches))"

definition first_match_by_line :: "match_t list \<Rightarrow> (nat \<times> match_t) list" where
  "first_match_by_line matches = foldl (\<lambda>d m. setdefault (match_line m) m d) [] matches"

definition tag_exclusion_preflight_matches :: "match_t list \<Rightarrow> tag_exclusion_update list \<Rightarrow> match_t list" where
  "tag_exclusion_preflight_matches matches updates =
     (let keys = map (\<lambda>u. (cs_index (te_stack u), te_service u, te_source_line u)) updates
      in filter (\<lambda>m. (match_index m, m_service m, match_line m) \<in> set keys) matches)"

definition match_key :: "match_t \<Rightarrow> nat \<times> nat \<times> string \<times> string \<times> string" where
  "match_key m = (match_index m, match_line m, m_resolved m, m_compose_image m, m_service m)"

fun unique_by :: "('a \<Rightarrow> 'k) \<Rightarrow> 'k set \<Rightarrow> 'a list \<Rightarrow> 'a list" where
  "unique_by f seen [] = []"
| "unique_by f seen (x # xs) =
     (if f x \<in> seen then unique_by f seen xs else x # unique_by f (insert (f x) seen) xs)"

definition unique_matches :: "match_t list \<Rightarrow> match_t list" where
  "unique_matches matches = unique_by match_key {} matches"

fun failed_match_for_line_from ::
  "match_t option \<Rightarrow> nat \<Rightarrow> match_t list \<Rightarrow> (nat \<rightharpoonup> stack_status) \<Rightarrow> match_t option" where
  "failed_match_for_line_from first line_no [] statuses = first"
| "failed_match_for_line_from first line_no (m # ms) statuses =
     (if match_line m \<noteq> line_no then failed_match_for_line_from first line_no ms statuses
      else if st_status (status_of statuses (match_index m)) \<noteq> ''success'' then Some m
      else failed_match_for_line_from (case first of None \<Rightarrow> Some m | Some f \<Rightarrow> Some f) line_no ms statuses)"

definition failed_match_for_line ::
  "nat \<Rightarrow> match_t list \<Rightarrow> (nat \<rightharpoonup> stack_status) \<Rightarrow> match_t option" where
  "failed_match_for_line line_no matches statuses = failed_match_for_line_from None line_no matches statuses"

definition line_status_reason :: "nat \<Rightarrow> match_t list \<Rightarrow> (nat \<rightharpoonup> stack_status) \<Rightarrow> string" where
  "line_status_reason line_no matches statuses =
     (let sts = map (\<lambda>m. status_of statuses (match_index m)) (filter (\<lambda>m. match_line m = line_no) matches);
          failure_reasons = map st_reason (filter (\<lambda>s. st_status s \<noteq> ''success'') sts);
          reasons = map st_reason sts
      in if failure_reasons \<noteq> [] then hd (sorted_set failure_reasons)
         else if ''updated'' \<in> set reasons then ''updated''
         else if ''already-current'' \<in> set reasons then ''already-current''
         else if reasons \<noteq> [] then hd (sorted_set reasons) else ''missing'')"

definition preflight_status_reason :: "nat \<Rightarrow> failure_record list \<Rightarrow> string" where
  "preflight_status_reason idx failures =
     (case sorted_set (map fr_reason (filter (\<lambda>f. cs_index (fr_stack f) = idx) failures)) of
        [] \<Rightarrow> ''missing'' | [r] \<Rightarrow> r | _ \<Rightarrow> ''preflight-failed'')"

definition service_key :: "match_t \<Rightarrow> string" where
  "service_key m =
     cs_name (m_stack m) @ ''/'' @ (if m_service m \<noteq> '''' then m_service m else m_compose_image m)"

definition target_image_for_match :: "match_t \<Rightarrow> string" where
  "target_image_for_match m =
     (if wt_desired_tag (m_target m) \<noteq> ''''
      then image_with_tag (m_compose_image m) (wt_desired_tag (m_target m)) else m_resolved m)"

section \<open>Tag updates\<close>

text \<open>\<open>_tag_updates\<close>: one update per image and tag, with the services that asked for it.\<close>

definition tag_update_key :: "match_t \<Rightarrow> string \<times> string \<times> string" where
  "tag_update_key m =
     (m_compose_image m, wt_desired_tag (m_target m),
      image_with_tag (m_compose_image m) (wt_desired_tag (m_target m)))"

definition tag_updates_step ::
  "((string \<times> string \<times> string) \<times> string list) list \<Rightarrow> match_t \<Rightarrow>
   ((string \<times> string \<times> string) \<times> string list) list" where
  "tag_updates_step d m =
     (if wt_desired_tag (m_target m) = '''' then d
      else let key = tag_update_key m; d' = setdefault key [] d
           in if m_service m \<noteq> '''' then AList.update key (m_service m # dict_get d' key []) d' else d')"

definition tag_updates :: "match_t list \<Rightarrow> tag_update list" where
  "tag_updates matches =
     (let d = foldl tag_updates_step [] matches
      in map (\<lambda>(old, tag, new). \<lparr>tu_old_image = old, tu_desired_tag = tag, tu_new_image = new,
             tu_services = sorted_set (dict_get d (old, tag, new) [])\<rparr>) (sort (map fst d)))"

definition tag_exclusion_key :: "tag_exclusion_update \<Rightarrow> nat \<times> string \<times> string \<times> string \<times> string" where
  "tag_exclusion_key u = (cs_index (te_stack u), te_service u, te_image_repo u, te_tag u, te_scope u)"

definition unique_tag_exclusion_updates :: "tag_exclusion_update list \<Rightarrow> tag_exclusion_update list" where
  "unique_tag_exclusion_updates updates =
     (let d = foldl (\<lambda>d u. setdefault (tag_exclusion_key u) u d) [] updates
      in map (\<lambda>k. the (map_of d k)) (sort (map fst d)))"

definition tag_exclusion_updates_by_stack ::
  "tag_exclusion_update list \<Rightarrow> (compose_stack \<times> tag_exclusion_update list) list" where
  "tag_exclusion_updates_by_stack updates =
     foldl (\<lambda>d u. AList.update (te_stack u) (dict_get d (te_stack u) [] @ [u]) d) [] updates"

definition first_tag_exclusion_by_line :: "tag_exclusion_update list \<Rightarrow> (nat \<times> tag_exclusion_update) list" where
  "first_tag_exclusion_by_line updates = foldl (\<lambda>d u. setdefault (te_source_line u) u d) [] updates"

section \<open>Lemmas\<close>

text \<open>Every service whose network comes from a selected one, directly or not, is selected.\<close>

definition consumer_rel :: "(string \<times> string list) list \<Rightarrow> (string \<times> string) set" where
  "consumer_rel cons = {(s, c). c \<in> set (dict_get cons s [])}"

lemma closed_rtrancl: "R `` S \<subseteq> S \<Longrightarrow> R\<^sup>* `` S = S"
proof -
  assume sub: "R `` S \<subseteq> S"
  have "(a, b) \<in> R\<^sup>* \<Longrightarrow> a \<in> S \<Longrightarrow> b \<in> S" for a b
    by (induction rule: rtrancl_induct) (use sub in auto)
  then show ?thesis by auto
qed

lemma visit_services_set:
  assumes "\<forall>x \<in> set e. set (dict_get cons x []) \<subseteq> set e \<union> set todo"
  shows "set (fst (visit_services cons e u todo)) = (consumer_rel cons)\<^sup>* `` (set e \<union> set todo)"
  using assms
proof (induction cons e u todo rule: visit_services.induct)
  case (1 cons e u)
  then have "consumer_rel cons `` set e \<subseteq> set e" by (auto simp: consumer_rel_def)
  then show ?case by (simp add: closed_rtrancl)
next
  case (2 cons e u s todo)
  show ?case
  proof (cases "s \<in> set e")
    case True
    with 2 show ?thesis by (simp add: insert_absorb)
  next
    case False
    let ?R = "consumer_rel cons" and ?c = "dict_get cons s []"
    have "set (fst (visit_services cons (e @ [s]) (u \<or> ?c \<noteq> []) (?c @ todo))) =
        ?R\<^sup>* `` (set (e @ [s]) \<union> set (?c @ todo))"
      using False 2 by (intro "2.IH"(2)) auto
    moreover have "?R\<^sup>* `` (set (e @ [s]) \<union> set (?c @ todo)) = ?R\<^sup>* `` (set e \<union> set (s # todo))"
      by (auto simp: consumer_rel_def intro: converse_rtrancl_into_rtrancl)
    ultimately show ?thesis using False by (simp add: Let_def)
  qed
qed

lemma visit_services_distinct: "distinct e \<Longrightarrow> distinct (fst (visit_services cons e u todo))"
  by (induction cons e u todo rule: visit_services.induct) (auto simp: Let_def)

lemma consumers_from_get:
  "c \<in> set (dict_get (network_mode_consumers_from cs ps) p []) \<longleftrightarrow>
   c \<in> set (dict_get cs p []) \<or> (c, p) \<in> set ps \<and> p \<noteq> '''' \<and> p \<noteq> c"
  by (induction cs ps rule: network_mode_consumers_from.induct) auto

lemma consumers_get:
  "c \<in> set (dict_get (network_mode_consumers ps) p []) \<longleftrightarrow> (c, p) \<in> set ps \<and> p \<noteq> '''' \<and> p \<noteq> c"
proof -
  have "map_of (map (\<lambda>(p, ss). (p, sort ss)) d) p = map_option sort (map_of d p)" for d :: "(string \<times> string list) list"
    by (induction d) auto
  then have "dict_get (network_mode_consumers ps) p [] = sort (dict_get (network_mode_consumers_from [] ps) p [])"
    by (simp add: network_mode_consumers_def dict_get_def split: option.splits)
  then have "c \<in> set (dict_get (network_mode_consumers ps) p []) \<longleftrightarrow>
      c \<in> set (dict_get (network_mode_consumers_from [] ps) p [])" by simp
  then show ?thesis unfolding consumers_from_get by (simp add: dict_get_def)
qed

lemma set_unique_by: "set (map f (unique_by f seen xs)) = set (map f xs) - seen"
  by (induction f seen xs rule: unique_by.induct) auto

lemma distinct_unique_by: "distinct (map f (unique_by f seen xs))"
proof (induction f seen xs rule: unique_by.induct)
  case (2 f seen x xs)
  then show ?case using set_unique_by [of f "insert (f x) seen" xs] by auto
qed simp

lemma subseq_unique_by: "subseq (unique_by f seen xs) xs"
  by (induction f seen xs rule: unique_by.induct) auto

text \<open>The dictionary of tag updates: its keys and, for each key, the services that asked for it.\<close>

definition wants_tag :: "match_t \<Rightarrow> bool" where
  "wants_tag m = (wt_desired_tag (m_target m) \<noteq> '''')"

lemma keys_update: "fst ` set (AList.update k v d) = insert k (fst ` set d)"
  by (induction d) auto

lemma keys_setdefault: "fst ` set (setdefault k v d) = insert k (fst ` set d)"
  by (force simp: setdefault_def map_of_eq_None_iff split: option.splits)

lemma distinct_keys_setdefault: "distinct (map fst d) \<Longrightarrow> distinct (map fst (setdefault k v d))"
  by (auto simp: setdefault_def map_of_eq_None_iff)

lemma dict_get_setdefault:
  "dict_get (setdefault k v d) x v = dict_get d x v"
  by (auto simp: dict_get_def map_of_setdefault split: option.splits)

lemma tag_updates_fold:
  fixes d :: "((string \<times> string \<times> string) \<times> string list) list"
  shows "fst ` set (foldl tag_updates_step d ms) = fst ` set d \<union> tag_update_key ` {m \<in> set ms. wants_tag m}"
    and "distinct (map fst d) \<Longrightarrow> distinct (map fst (foldl tag_updates_step d ms))"
    and "set (dict_get (foldl tag_updates_step d ms) k []) = set (dict_get d k []) \<union>
      m_service ` {m \<in> set ms. wants_tag m \<and> tag_update_key m = k \<and> m_service m \<noteq> ''''}"
proof (induction ms arbitrary: d)
  case (Cons m ms)
  have step: "fst ` set (tag_updates_step d m) = fst ` set d \<union> (if wants_tag m then {tag_update_key m} else {})"
    "distinct (map fst d) \<Longrightarrow> distinct (map fst (tag_updates_step d m))"
    "set (dict_get (tag_updates_step d m) k []) = set (dict_get d k []) \<union>
      (if wants_tag m \<and> tag_update_key m = k \<and> m_service m \<noteq> '''' then {m_service m} else {})"
    for d :: "((string \<times> string \<times> string) \<times> string list) list"
    by (auto simp: tag_updates_step_def Let_def wants_tag_def keys_update keys_setdefault distinct_update
        distinct_keys_setdefault dict_get_setdefault)
  have split: "{x \<in> set (m # ms). P x} = (if P m then {m} else {}) \<union> {x \<in> set ms. P x}" for P by auto
  { case 1 show ?case unfolding split foldl_Cons Cons.IH(1) step(1) by auto }
  { case 2 then show ?case by (simp add: Cons.IH(2) step(2)) }
  { case 3 show ?case by (simp add: Cons.IH(3) step(3)) auto }
qed auto

section \<open>Properties\<close>

text \<open>C12: the services to stop and recreate with the selected ones are exactly those reachable from
  them along "takes its network from", each once, however the services share networks
  (chains and cycles included).\<close>

theorem expand_network_closure:
  "distinct (fst (expand_network_mode_services services providers)) \<and>
   set (fst (expand_network_mode_services services providers)) =
     {(p, c). (c, p) \<in> set providers \<and> p \<noteq> '''' \<and> p \<noteq> c}\<^sup>* `` set services"
proof -
  have "consumer_rel (network_mode_consumers providers) =
      {(p, c). (c, p) \<in> set providers \<and> p \<noteq> '''' \<and> p \<noteq> c}"
    by (simp add: consumer_rel_def consumers_get)
  then show ?thesis
    using visit_services_set [of "[]" "network_mode_consumers providers" services False]
      visit_services_distinct [of "[]" "network_mode_consumers providers" False services]
    by (simp add: expand_network_mode_services_def)
qed

text \<open>C13: the tag updates of a set of matches: one per Compose image and wanted tag, in order and
  without repetition, whose services are exactly the named services that asked for that tag
  on that image.\<close>

theorem tag_updates_exact:
  "distinct (tag_updates matches) \<and>
   set (tag_updates matches) =
     (\<lambda>m. \<lparr>tu_old_image = m_compose_image m, tu_desired_tag = wt_desired_tag (m_target m),
            tu_new_image = image_with_tag (m_compose_image m) (wt_desired_tag (m_target m)),
            tu_services = sorted_set (filter (\<lambda>s. s \<noteq> '''') (map m_service
              (filter (\<lambda>m'. wants_tag m' \<and> tag_update_key m' = tag_update_key m) matches)))\<rparr>)
     ` {m \<in> set matches. wants_tag m}"
proof -
  let ?d = "foldl tag_updates_step [] matches"
  let ?u = "\<lambda>k. \<lparr>tu_old_image = fst k, tu_desired_tag = fst (snd k), tu_new_image = snd (snd k),
    tu_services = sorted_set (dict_get ?d k [])\<rparr>"
  have eq: "tag_updates matches = map ?u (sort (map fst ?d))"
    by (simp add: tag_updates_def Let_def case_prod_unfold)
  have inj: "inj ?u" by (rule injI) (simp add: prod_eq_iff)
  have "distinct (tag_updates matches)"
    unfolding eq using tag_updates_fold(2) [of "[]" matches] inj
    by (simp add: distinct_map inj_on_subset [of _ UNIV])
  moreover have "set (tag_updates matches) = ?u ` tag_update_key ` {m \<in> set matches. wants_tag m}"
    unfolding eq using tag_updates_fold(1) [of "[]" matches] by simp
  moreover have "?u (tag_update_key m) = \<lparr>tu_old_image = m_compose_image m,
      tu_desired_tag = wt_desired_tag (m_target m),
      tu_new_image = image_with_tag (m_compose_image m) (wt_desired_tag (m_target m)),
      tu_services = sorted_set (filter (\<lambda>s. s \<noteq> '''') (map m_service
        (filter (\<lambda>m'. wants_tag m' \<and> tag_update_key m' = tag_update_key m) matches)))\<rparr>" for m
    using tag_updates_fold(3) [of "[]" matches "tag_update_key m"]
    by (auto simp: tag_update_key_def [of m] dict_get_def [of "[]"] intro!: sorted_set_cong)
  ultimately show ?thesis by (simp add: image_image)
qed

end
