(* ===== verification/Compose_Labels.thy ===== *)
theory Compose_Labels
  imports Matching Interfaces
begin

text \<open>
  The label policy of \<open>src/src/wudup/compose_rewrite.py\<close>: exact-tag patterns, dollar escaping,
  resolved-tag marker comments, and when a label of a Compose service may be replaced. The
  YAML mechanics (\<open>ruamel\<close>, \<open>compose_source.py\<close>) are not modelled here: a function of a YAML
  node is modelled on the values it reads from the node. \<open>ComposeTagRewriteError\<close> is \<open>Inl\<close>.
\<close>

definition WUD_TAG_TRANSFORM_LABEL :: string where
  "WUD_TAG_TRANSFORM_LABEL = ''wud.tag.transform''"

section \<open>Patterns\<close>

definition js_special :: "char \<Rightarrow> bool" where
  "js_special c = (c \<in> set [CHR 0x5C, CHR ''^'', CHR ''$'', CHR ''.'', CHR ''*'', CHR ''+'', CHR ''?'',
     CHR ''('', CHR '')'', CHR ''['', CHR '']'', CHR ''{'', CHR ''}'', CHR ''|''])"

definition js_regex_escape :: "string \<Rightarrow> string" where
  "js_regex_escape v = concat (map (\<lambda>c. if js_special c then [CHR 0x5C, c] else [c]) v)"

definition exact_tags_regex :: "string list \<Rightarrow> string" where
  "exact_tags_regex tags =
     (case map js_regex_escape (sorted_set tags) of
        [] \<Rightarrow> ''''
      | [f] \<Rightarrow> ''^'' @ f @ ''$''
      | fs \<Rightarrow> ''^(?:'' @ join_with ''|'' fs @ '')$'')"

definition compose_escape_dollars :: "string \<Rightarrow> string" where
  "compose_escape_dollars v = replace_all ''$'' ''$$'' v"

definition compose_unescape_dollars :: "string \<Rightarrow> string" where
  "compose_unescape_dollars v = replace_all ''$$'' ''$'' v"

text \<open>The pattern \<open>\$[{A-Za-z_]\<close>, searched anywhere.\<close>

fun interpolation_search :: "string \<Rightarrow> bool" where
  "interpolation_search [] = False"
| "interpolation_search [x] = False"
| "interpolation_search (x # y # r) =
     (if x = CHR ''$'' \<and> (y = CHR ''{'' \<or> is_alpha y \<or> y = CHR ''_'') then True
      else interpolation_search (y # r))"

definition compose_value_has_interpolation :: "string \<Rightarrow> bool" where
  "compose_value_has_interpolation v = interpolation_search (replace_all ''$$'' '''' v)"

definition merge_wud_exclude_regex :: "string \<Rightarrow> string \<Rightarrow> string \<Rightarrow> string" where
  "merge_wud_exclude_regex cur previous_managed next_managed =
     (if next_managed = '''' then cur
      else if cur = '''' \<or> cur = previous_managed then next_managed
      else if cur = next_managed then cur
      else ''(?:'' @ cur @ '')|(?:'' @ next_managed @ '')'')"

definition exact_tag_include_matches :: "string \<Rightarrow> string \<Rightarrow> bool" where
  "exact_tag_include_matches v tag = (compose_unescape_dollars v = exact_tags_regex [tag])"

text \<open>The scan of \<open>_is_simple_exact_tag_include\<close> between \<open>^\<close> and \<open>$\<close>.\<close>

fun unescape_include :: "string \<Rightarrow> string option" where
  "unescape_include [] = Some []"
| "unescape_include (c # cs) =
     (if c = CHR 0x5C
      then (case cs of [] \<Rightarrow> None
            | e # r \<Rightarrow> if js_special e then map_option ((#) e) (unescape_include r) else None)
      else if js_special c then None
      else map_option ((#) c) (unescape_include cs))"

definition is_simple_exact_tag_include :: "string \<Rightarrow> bool" where
  "is_simple_exact_tag_include v =
     (if length v < 3 \<or> \<not> startswith v ''^'' \<or> \<not> endswith v ''$'' then False
      else case unescape_include (butlast (tl v)) of None \<Rightarrow> False | Some t \<Rightarrow> tag_value_valid t)"

section \<open>Managed transforms\<close>

text \<open>The pattern \<open>(v?)\d+\.\d+\.\d+\.\d+(-ls\d+)?\<close>, matched against the whole tag.\<close>

definition four_part :: "string \<Rightarrow> bool" where
  "four_part s = (case split_on (CHR ''.'') s of
     [a, b, c, d] \<Rightarrow> all_digits a \<and> all_digits b \<and> all_digits c \<and> all_digits d | _ \<Rightarrow> False)"

definition four_part_version :: "string \<Rightarrow> (string \<times> bool) option" where
  "four_part_version tag =
     (let pfx = (if startswith tag ''v'' then ''v'' else ''''); body = removeprefix tag ''v''
      in case break_at ''-ls'' body of
           None \<Rightarrow> if four_part body then Some (pfx, False) else None
         | Some (a, b) \<Rightarrow> if four_part a \<and> all_digits b then Some (pfx, True) else None)"

definition managed_wud_tag_transform :: "string \<Rightarrow> string" where
  "managed_wud_tag_transform tag =
     (case four_part_version tag of
        None \<Rightarrow> ''''
      | Some (pfx, True) \<Rightarrow> ''^'' @ pfx @ ''('' @ [CHR 0x5C] @ ''d+)'' @ [CHR 0x5C] @ ''.('' @ [CHR 0x5C]
          @ ''d+)'' @ [CHR 0x5C] @ ''.('' @ [CHR 0x5C] @ ''d+)'' @ [CHR 0x5C] @ ''.('' @ [CHR 0x5C]
          @ ''d+)-ls('' @ [CHR 0x5C] @ ''d+)$ => $1.$2.$3-$4.$5''
      | Some (pfx, False) \<Rightarrow> ''^'' @ pfx @ ''('' @ [CHR 0x5C] @ ''d+)'' @ [CHR 0x5C] @ ''.('' @ [CHR 0x5C]
          @ ''d+)'' @ [CHR 0x5C] @ ''.('' @ [CHR 0x5C] @ ''d+)'' @ [CHR 0x5C] @ ''.('' @ [CHR 0x5C]
          @ ''d+)$ => $1.$2.$3-$4'')"

definition planned_wud_tag_transform :: "string \<Rightarrow> string \<Rightarrow> string \<Rightarrow> string" where
  "planned_wud_tag_transform tag include_regex current_transform =
     (if current_transform \<noteq> '''' \<or> include_regex = '''' \<or> include_regex = exact_tags_regex [tag] then ''''
      else managed_wud_tag_transform tag)"

text \<open>
  \<open>_add_managed_wud_tag_transform\<close>: the label to set, if any; \<open>label_present\<close> says whether the
  service's own YAML has a transform label.
\<close>

definition add_managed_wud_tag_transform ::
  "bool \<Rightarrow> string \<Rightarrow> string \<Rightarrow> string \<Rightarrow> string \<Rightarrow> (string \<times> string option) planned" where
  "add_managed_wud_tag_transform label_present service tag include_regex config_transform =
     (let transform = planned_wud_tag_transform tag include_regex config_transform
      in if transform = '''' then Inr ('''', None)
         else if label_present
         then Inl (''Service '' @ service @ '' has a wud.tag.transform label that resolves to an empty ''
                   @ ''value (it may be blank or use an unset variable); set or remove it in Compose, ''
                   @ ''then preview again.'')
         else Inr (transform, Some (compose_escape_dollars transform)))"

definition managed_transform_addition ::
  "bool \<Rightarrow> string \<Rightarrow> string \<Rightarrow> string \<Rightarrow> (string \<rightharpoonup> string) option \<Rightarrow> (string \<times> string) list planned" where
  "managed_transform_addition label_present service watch_tag include_label_value config_transforms =
     (case config_transforms of
        None \<Rightarrow> Inr []
      | Some ct \<Rightarrow>
          (case add_managed_wud_tag_transform label_present service watch_tag
                  (compose_unescape_dollars include_label_value)
                  (case ct service of None \<Rightarrow> '''' | Some t \<Rightarrow> t) of
             Inl e \<Rightarrow> Inl e
           | Inr (t, _) \<Rightarrow> Inr (if t \<noteq> '''' then [(service, t)] else [])))"

definition compose_config_wud_tag_transforms :: "service_image list \<Rightarrow> (string \<times> string) list" where
  "compose_config_wud_tag_transforms sis =
     foldl (\<lambda>d i. AList.update (si_service i)
       (compose_unescape_dollars (dict_get (rev (si_labels i)) WUD_TAG_TRANSFORM_LABEL '''')) d) [] sis"

section \<open>Resolved-tag markers\<close>

definition comment_line_resolved_tag_marker :: "string \<Rightarrow> string option" where
  "comment_line_resolved_tag_marker line =
     (let t0 = py_strip line;
          t = (if startswith t0 ''#'' then py_strip (tl t0) else t0)
      in if startswith t DIGEST_PIN_MARKER_PREFIX
         then Some (py_strip (removeprefix t DIGEST_PIN_MARKER_PREFIX))
         else if startswith t LEGACY_DIGEST_PIN_MARKER_PREFIX
         then Some (py_strip (removeprefix t LEGACY_DIGEST_PIN_MARKER_PREFIX))
         else None)"

text \<open>The line ends of \<open>str.splitlines\<close>; a carriage return takes a following line feed with it.\<close>

definition line_end :: "char \<Rightarrow> bool" where
  "line_end c = (let n = of_char c :: nat in (10 \<le> n \<and> n \<le> 13) \<or> (28 \<le> n \<and> n \<le> 30) \<or> n = 133)"

fun splitlines_keep :: "string \<Rightarrow> string list" where
  "splitlines_keep [] = []"
| "splitlines_keep (x # xs) =
     (if x = CHR 0x0D \<and> xs \<noteq> [] \<and> hd xs = CHR 0x0A then [x, CHR 0x0A] # splitlines_keep (tl xs)
      else if line_end x then [x] # splitlines_keep xs
      else (case splitlines_keep xs of [] \<Rightarrow> [[x]] | w # ws \<Rightarrow> (x # w) # ws))"

text \<open>\<open>splitlines()\<close> drops the line ends; \<open>strip\<close> makes the difference invisible here.\<close>

definition drop_line_end :: "string \<Rightarrow> string" where
  "drop_line_end l = rev (dropWhile line_end (rev l))"

definition comment_token_resolved_tag_markers :: "string \<Rightarrow> string set" where
  "comment_token_resolved_tag_markers v =
     set (filter (\<lambda>m. m \<noteq> '''')
       (List.map_filter (\<lambda>l. comment_line_resolved_tag_marker (drop_line_end l)) (splitlines_keep v)))"

definition clear_comment_token_resolved_tag_markers :: "string \<Rightarrow> string \<times> bool" where
  "clear_comment_token_resolved_tag_markers v =
     (let v' = concat (filter (\<lambda>l. comment_line_resolved_tag_marker l = None) (splitlines_keep v))
      in (v', v' \<noteq> ''''))"

text \<open>\<open>_service_resolved_tag_marker\<close> on the comment tokens of a service.\<close>

definition service_resolved_tag_marker :: "string \<Rightarrow> string list \<Rightarrow> string planned" where
  "service_resolved_tag_marker service tokens =
     (let vs = sorted_set (concat (map (\<lambda>v. filter (\<lambda>m. m \<noteq> '''')
            (List.map_filter (\<lambda>l. comment_line_resolved_tag_marker (drop_line_end l)) (splitlines_keep v))) tokens))
      in case vs of
           [] \<Rightarrow> Inr ''''
         | [tag] \<Rightarrow> if tag_value_valid tag then Inr tag
             else Inl (''Service '' @ service @ '' resolved-tag marker has invalid tag '' @ tag @ ''.'')
         | _ \<Rightarrow> Inl (''Service '' @ service @ '' has conflicting resolved-tag markers: ''
                     @ join_with '', '' vs @ ''.''))"

definition validate_service_resolved_tag_marker ::
  "string \<Rightarrow> string list \<Rightarrow> string \<Rightarrow> string \<Rightarrow> unit planned" where
  "validate_service_resolved_tag_marker service tokens expected_tag stack_name =
     (case service_resolved_tag_marker service tokens of
        Inl e \<Rightarrow> Inl e
      | Inr m \<Rightarrow> if m = '''' \<or> m = expected_tag then Inr ()
          else Inl ((if stack_name \<noteq> '''' then stack_name @ '' '' else '''') @ ''Service '' @ service
                    @ '' resolved-tag marker is '' @ m @ '', expected '' @ expected_tag @ ''.''))"

section \<open>Replacing a label\<close>

record label_approval =
  la_stack :: string
  la_service :: string
  la_label_key :: string
  la_current_label_value :: string
  la_planned_tag :: string
  la_proposed_label_value :: string

record label_rewrite =
  lr_service :: string
  lr_label_key :: string
  lr_current_label_value :: string
  lr_planned_tag :: string
  lr_proposed_label_value :: string
  lr_proposed_label_regex :: string
  lr_approved :: bool
  lr_reason :: string

definition digest_pin_label_rewrite_approval_matches ::
  "label_approval \<Rightarrow> string \<Rightarrow> string \<Rightarrow> string \<Rightarrow> string \<Rightarrow> string \<Rightarrow> string \<Rightarrow> bool" where
  "digest_pin_label_rewrite_approval_matches a stack_name service label_key cur planned_tag proposed =
     (la_stack a = stack_name \<and> la_service a = service \<and> la_label_key a = label_key \<and>
      la_current_label_value a = cur \<and> la_planned_tag a = planned_tag \<and>
      la_proposed_label_value a = proposed)"

definition digest_pin_label_rewrite ::
  "string \<Rightarrow> string \<Rightarrow> string \<Rightarrow> string \<Rightarrow> digest_pin_update \<Rightarrow> label_approval list \<Rightarrow> label_rewrite option"
where
  "digest_pin_label_rewrite stack_name service current_image cur u approvals =
     (if cur = '''' then None
      else let regex = compose_unescape_dollars (dp_label_value u);
               mk = (\<lambda>approved reason. \<lparr>lr_service = service, lr_label_key = dp_label_key u,
                  lr_current_label_value = cur, lr_planned_tag = dp_watch_tag u,
                  lr_proposed_label_value = dp_label_value u, lr_proposed_label_regex = regex,
                  lr_approved = approved, lr_reason = reason\<rparr>)
           in if cur = regex then None
              else if is_simple_exact_tag_include cur then Some (mk False ''exact-regex-normalized'')
              else if tag_value_valid cur \<and> (cur = dp_watch_tag u \<or> cur = image_tag current_image)
              then Some (mk False ''plain-tag-normalized'')
              else let approved = (\<exists>a \<in> set approvals. digest_pin_label_rewrite_approval_matches a
                     stack_name service (dp_label_key u) cur (dp_watch_tag u) (dp_label_value u))
                   in Some (mk approved (if approved then ''approved'' else ''approval-required'')))"

definition approval_required_message :: "label_rewrite \<Rightarrow> string" where
  "approval_required_message r =
     ''Service '' @ lr_service r @ '' '' @ lr_label_key r @ '' is '' @ [CHR 0x22] @ lr_current_label_value r
     @ [CHR 0x22] @ ''; this may be a custom regex or non-matching tag and needs approval before ''
     @ ''replacing it with '' @ [CHR 0x22] @ lr_proposed_label_regex r @ [CHR 0x22] @ ''.''"

definition digest_pin_label_rewrite_or_raise ::
  "string \<Rightarrow> string \<Rightarrow> string \<Rightarrow> string \<Rightarrow> digest_pin_update \<Rightarrow> label_approval list \<Rightarrow>
   label_rewrite option planned" where
  "digest_pin_label_rewrite_or_raise stack_name service current_image cur u approvals =
     (case digest_pin_label_rewrite stack_name service current_image cur u approvals of
        None \<Rightarrow> Inr None
      | Some r \<Rightarrow> if lr_reason r \<noteq> ''approval-required'' then Inr (Some r)
                  else Inl (approval_required_message r))"

definition digest_pin_expected_image :: "string \<Rightarrow> string \<Rightarrow> digest_pin_update \<Rightarrow> string planned" where
  "digest_pin_expected_image service current_image u =
     (if current_image = dp_resolved_image u then Inr (dp_resolved_image u)
      else if current_image = dp_old_image u then Inr (dp_old_image u)
      else Inl (''Service '' @ service @ '' image is '' @ current_image @ '', expected ''
                @ dp_old_image u @ '' or '' @ dp_resolved_image u @ ''.''))"

definition validate_digest_unpin_include :: "string \<Rightarrow> string \<Rightarrow> string \<Rightarrow> digest_unpin_update \<Rightarrow> unit planned"
where
  "validate_digest_unpin_include stack_name service cur u =
     (if cur = '''' then Inr ()
      else let current_regex = compose_unescape_dollars cur; expected = exact_tags_regex [du_watch_tag u]
           in if current_regex = expected then Inr ()
              else if tag_value_valid current_regex \<and> current_regex = du_watch_tag u then Inr ()
              else Inl ((if stack_name \<noteq> '''' then stack_name @ '' '' else '''') @ ''Service '' @ service
                @ '' '' @ du_label_key u @ '' is '' @ [CHR 0x22] @ current_regex @ [CHR 0x22] @ '', expected ''
                @ [CHR 0x22] @ expected @ [CHR 0x22] @ '' for digest unpin.''))"

text \<open>\<open>_rewrite_tag_stream_label\<close> on the service's current (unescaped) label value.\<close>

definition rewrite_tag_stream_label ::
  "string \<Rightarrow> string \<Rightarrow> tag_update \<Rightarrow> tag_stream_update option \<Rightarrow> bool planned" where
  "rewrite_tag_stream_label service raw_label u stream =
     (case stream of
        None \<Rightarrow> Inr False
      | Some su \<Rightarrow>
          if su_selected_tag su \<noteq> tu_desired_tag u
          then Inl (''Service '' @ service @ '' tag stream selected '' @ su_selected_tag su
                    @ '', expected '' @ tu_desired_tag u @ ''.'')
          else if compose_unescape_dollars raw_label \<noteq> su_current_label_value su
          then Inl (''Service '' @ service @ '' '' @ su_label_key su @ '' changed since planning.'')
          else Inr True)"

definition retag_label_rewrite ::
  "string \<Rightarrow> string \<Rightarrow> string \<Rightarrow> string \<Rightarrow> digest_pin_update \<Rightarrow> tag_stream_update option \<Rightarrow>
   label_approval list \<Rightarrow> (string \<times> label_rewrite option \<times> bool) planned" where
  "retag_label_rewrite stack_name service current_image cur u stream approvals =
     (case stream of
        None \<Rightarrow>
          (case digest_pin_label_rewrite_or_raise stack_name service current_image cur u approvals of
             Inl e \<Rightarrow> Inl e | Inr r \<Rightarrow> Inr (dp_label_value u, r, False))
      | Some su \<Rightarrow>
          if su_current_tag su \<noteq> image_tag (dp_old_image u) \<or> su_selected_tag su \<noteq> dp_watch_tag u \<or>
             su_label_key su \<noteq> dp_label_key u
          then Inl (''Service '' @ service @ '' tag stream update does not match the digest-pin update.'')
          else if cur \<noteq> su_current_label_value su \<and> cur \<noteq> su_proposed_label_regex su
          then Inl (''Service '' @ service @ '' '' @ su_label_key su @ '' changed since planning.'')
          else Inr (su_proposed_label_value su, None, True))"

section \<open>Tag streams of a stack\<close>

type_synonym tag_text = string
type_synonym label_text = string

record stream_approval =
  sa_line_no :: nat
  sa_stack :: string
  sa_stack_directory :: string
  sa_compose_file :: string
  sa_service :: string
  sa_label_key :: string
  sa_current_label_value :: string
  sa_selected_tag :: string
  sa_proposed_label_value :: string

definition tag_stream_label_rewrite_approval_matches ::
  "stream_approval \<Rightarrow> nat \<Rightarrow> string \<Rightarrow> string \<Rightarrow> string \<Rightarrow> string \<Rightarrow> label_text \<Rightarrow> tag_text \<Rightarrow>
   label_text \<Rightarrow> bool" where
  "tag_stream_label_rewrite_approval_matches a line_no stack_name dir file service cur selected proposed =
     (sa_line_no a = line_no \<and> sa_stack a = stack_name \<and> sa_stack_directory a = dir \<and>
      sa_compose_file a = file \<and> sa_service a = service \<and> sa_label_key a = WUD_TAG_INCLUDE_LABEL \<and>
      sa_current_label_value a = cur \<and> sa_selected_tag a = selected \<and> sa_proposed_label_value a = proposed)"

text \<open>
  \<open>plan_compose_tag_stream_update\<close>, from the point where the service's image has been read
  (\<open>yaml_image\<close>) and its raw include label (\<open>raw_label\<close>).
\<close>

definition plan_compose_tag_stream_update ::
  "string \<Rightarrow> label_text \<Rightarrow> nat \<Rightarrow> string \<Rightarrow> string \<Rightarrow> string \<Rightarrow> string \<Rightarrow> string \<Rightarrow> tag_text \<Rightarrow>
   tag_text \<Rightarrow> tag_text \<Rightarrow> string \<Rightarrow> label_text \<Rightarrow> stream_approval list \<Rightarrow>
   tag_stream_update planned" where
  "plan_compose_tag_stream_update yaml_image raw_label line_no stack_name dir file service current_image
     current_tag reported_tag selected_tag decision proposed_regex approvals =
     (if yaml_image \<noteq> current_image
      then Inl (''Service '' @ service @ '' image is '' @ yaml_image @ '', expected '' @ current_image @ ''.'')
      else let cur = compose_unescape_dollars raw_label;
               proposed = compose_escape_dollars proposed_regex;
               approved_by = (\<exists>a \<in> set approvals. tag_stream_label_rewrite_approval_matches a line_no
                  stack_name dir file service cur selected_tag proposed);
               (approved, reason) =
                 (if cur = '''' then (True, ''label-added'')
                  else if cur = proposed_regex then (True, ''label-matches'')
                  else if cur = exact_tags_regex [current_tag] \<or> (tag_value_valid cur \<and> cur = current_tag)
                  then (True, ''exact-tag-normalized'')
                  else (approved_by, if approved_by then ''approved'' else ''approval-required''))
           in Inr \<lparr>su_line_no = line_no, su_stack = stack_name, su_stack_directory = dir,
                su_compose_file = file, su_service = service, su_current_tag = current_tag,
                su_reported_tag = reported_tag, su_selected_tag = selected_tag, su_decision = decision,
                su_label_key = WUD_TAG_INCLUDE_LABEL, su_current_label_value = cur,
                su_proposed_label_value = proposed, su_proposed_label_regex = proposed_regex,
                su_approved = approved, su_reason = reason\<rparr>)"

text \<open>\<open>_tag_stream_updates_by_service\<close>; \<open>norm\<close> is \<open>Path.resolve\<close>, a parameter.\<close>

fun tag_stream_updates_by_service ::
  "(string \<Rightarrow> string) \<Rightarrow> string \<Rightarrow> string \<Rightarrow> string \<Rightarrow> (string \<times> tag_stream_update) list \<Rightarrow>
   tag_stream_update list \<Rightarrow> (string \<times> tag_stream_update) list planned" where
  "tag_stream_updates_by_service norm dir file stack_name d [] = Inr d"
| "tag_stream_updates_by_service norm dir file stack_name d (u # us) =
     (if su_stack u \<noteq> stack_name
      then Inl (''Tag stream update targets stack '' @ su_stack u @ '', expected '' @ stack_name @ ''.'')
      else if norm (su_stack_directory u) \<noteq> norm dir
      then Inl (''Tag stream update for service '' @ su_service u @ '' targets a different Compose directory.'')
      else if su_compose_file u \<noteq> file
      then Inl (''Tag stream update for service '' @ su_service u @ '' targets a different Compose file.'')
      else if \<not> su_approved u
      then Inl (''Service '' @ su_service u @ '' tag stream label rewrite is not approved.'')
      else (case map_of d (su_service u) of
          Some existing \<Rightarrow>
            if u\<lparr>su_line_no := su_line_no existing\<rparr> = existing
            then tag_stream_updates_by_service norm dir file stack_name d us
            else Inl (''Service '' @ su_service u @ '' has more than one tag stream update.'')
        | None \<Rightarrow> tag_stream_updates_by_service norm dir file stack_name
            (AList.update (su_service u) u d) us))"

section \<open>Lemmas\<close>

text \<open>
  What an exact-tag pattern matches, read independently of how it was built: the alternatives
  of escaped literals between the anchors.
\<close>

fun literal_alternatives :: "string \<Rightarrow> string list option" where
  "literal_alternatives [] = Some [[]]"
| "literal_alternatives (c # cs) =
     (if c = CHR 0x5C
      then (case cs of [] \<Rightarrow> None
            | e # r \<Rightarrow> map_option (\<lambda>ws. (e # hd ws) # tl ws) (literal_alternatives r))
      else if c = CHR ''|'' then map_option ((#) []) (literal_alternatives cs)
      else if js_special c then None
      else map_option (\<lambda>ws. (c # hd ws) # tl ws) (literal_alternatives cs))"

definition exact_pattern_strings :: "string \<Rightarrow> string list option" where
  "exact_pattern_strings r =
     (if \<not> startswith r ''^'' \<or> \<not> endswith r ''$'' then None
      else let body = butlast (tl r)
           in if startswith body ''(?:'' \<and> endswith body '')''
              then literal_alternatives (butlast (drop 3 body))
              else (case literal_alternatives body of Some [w] \<Rightarrow> Some [w] | _ \<Rightarrow> None))"

text \<open>
  Patterns of the browser's regular expressions as far as labels use them: literals, escaped
  special characters, the two anchors, groups and alternatives, an alternative reaching as far
  as the group around it. A pattern using anything else is not read. A match is looked for
  anywhere in the string, as the \<open>test\<close> method does.
\<close>

datatype rx = RxEmpty | RxChar char | RxStart | RxStop | RxCat rx rx | RxAlt rx rx

type_synonym rx_frame = "rx option \<times> rx"

fun rx_close :: "rx_frame \<Rightarrow> rx" where
  "rx_close (None, q) = q"
| "rx_close (Some a, q) = RxAlt a q"

fun rx_push :: "rx \<Rightarrow> rx_frame \<Rightarrow> rx_frame" where
  "rx_push r (a, q) = (a, RxCat q r)"

fun rx_read :: "string \<Rightarrow> rx_frame list \<Rightarrow> rx_frame \<Rightarrow> rx option" where
  "rx_read [] st f = (if st = [] then Some (rx_close f) else None)"
| "rx_read (c # cs) st f =
     (if c = CHR 0x5C
      then (case cs of [] \<Rightarrow> None | e # r \<Rightarrow> if js_special e then rx_read r st (rx_push (RxChar e) f) else None)
      else if c = CHR ''|'' then rx_read cs st (Some (rx_close f), RxEmpty)
      else if c = CHR ''('' then
        (case cs of p # r \<Rightarrow> (case r of q # r' \<Rightarrow>
            if p = CHR ''?'' \<and> q = CHR '':'' then rx_read r' (f # st) (None, RxEmpty) else None
          | [] \<Rightarrow> None) | [] \<Rightarrow> None)
      else if c = CHR '')'' then (case st of [] \<Rightarrow> None | g # st' \<Rightarrow> rx_read cs st' (rx_push (rx_close f) g))
      else if c = CHR ''^'' then rx_read cs st (rx_push RxStart f)
      else if c = CHR ''$'' then rx_read cs st (rx_push RxStop f)
      else if js_special c then None
      else rx_read cs st (rx_push (RxChar c) f))"

fun rx_ends :: "rx \<Rightarrow> string \<Rightarrow> nat \<Rightarrow> nat list" where
  "rx_ends RxEmpty s i = [i]"
| "rx_ends (RxChar c) s i = (if i < length s \<and> s ! i = c then [Suc i] else [])"
| "rx_ends RxStart s i = (if i = 0 then [i] else [])"
| "rx_ends RxStop s i = (if i = length s then [i] else [])"
| "rx_ends (RxCat p q) s i = concat (map (rx_ends q s) (rx_ends p s i))"
| "rx_ends (RxAlt p q) s i = rx_ends p s i @ rx_ends q s i"

definition rx_found :: "rx \<Rightarrow> string \<Rightarrow> bool" where
  "rx_found x s = list_ex (\<lambda>i. rx_ends x s i \<noteq> []) [0..<Suc (length s)]"

definition rx_test :: "string \<Rightarrow> string \<Rightarrow> bool option" where
  "rx_test r s = map_option (\<lambda>x. rx_found x s) (rx_read r [] (None, RxEmpty))"

lemma js_regex_escape_simps [simp]:
  "js_regex_escape [] = []"
  "js_regex_escape (c # cs) = (if js_special c then CHR 0x5C # c # js_regex_escape cs else c # js_regex_escape cs)"
  by (simp_all add: js_regex_escape_def)

lemma special_backslash [simp]: "js_special (CHR 0x5C)" "js_special (CHR ''|'')" "js_special (CHR ''('')"
  by (simp_all add: js_special_def)

lemma approval_matches_iff:
  "digest_pin_label_rewrite_approval_matches a stack service key cur tag proposed \<longleftrightarrow>
   a = \<lparr>la_stack = stack, la_service = service, la_label_key = key, la_current_label_value = cur,
        la_planned_tag = tag, la_proposed_label_value = proposed\<rparr>"
  by (cases a) (auto simp: digest_pin_label_rewrite_approval_matches_def)

lemma literal_alternatives_ne: "literal_alternatives s = Some ws \<Longrightarrow> ws \<noteq> []"
  by (induction s arbitrary: ws rule: literal_alternatives.induct) (auto split: if_splits list.splits)

lemma literal_alternatives_escape:
  "literal_alternatives (js_regex_escape t @ r) = map_option (\<lambda>ws. (t @ hd ws) # tl ws) (literal_alternatives r)"
proof (induction t)
  case Nil
  then show ?case by (cases "literal_alternatives r") (auto dest: literal_alternatives_ne)
next
  case (Cons c t)
  have "c \<noteq> CHR 0x5C" "c \<noteq> CHR ''|''" if "\<not> js_special c" using that by auto
  with Cons show ?case by (auto simp: option.map_comp comp_def)
qed

lemma literal_alternatives_join:
  "ts \<noteq> [] \<Longrightarrow> literal_alternatives (join_with ''|'' (map js_regex_escape ts)) = Some ts"
proof (induction ts rule: list_nonempty_induct)
  case (single t)
  then show ?case using literal_alternatives_escape [of t "[]"] by simp
next
  case (cons t ts)
  then obtain u us where "ts = u # us" by (cases ts) auto
  with cons show ?case by (simp add: literal_alternatives_escape)
qed

lemma escape_not_group: "\<not> startswith (js_regex_escape t) ''(?:''"
  by (cases t) (auto simp: startswith_def)

lemma exact_pattern_single: "exact_pattern_strings (''^'' @ js_regex_escape t @ ''$'') = Some [t]"
  using literal_alternatives_escape [of t "[]"] escape_not_group [of t]
  by (simp add: exact_pattern_strings_def Let_def butlast_append)

fun rx_lits :: "rx \<Rightarrow> string \<Rightarrow> rx" where
  "rx_lits q [] = q"
| "rx_lits q (c # t) = rx_lits (RxCat q (RxChar c)) t"

definition here :: "string \<Rightarrow> string \<Rightarrow> nat \<Rightarrow> bool" where
  "here s t i \<longleftrightarrow> i + length t \<le> length s \<and> take (length t) (drop i s) = t"

lemma here_Cons: "here s (c # t) i \<longleftrightarrow> i < length s \<and> s ! i = c \<and> here s t (Suc i)"
  by (cases "i < length s") (auto simp: here_def Cons_nth_drop_Suc [symmetric])

lemma rx_read_escape: "rx_read (js_regex_escape t @ r) st (a, q) = rx_read r st (a, rx_lits q t)"
proof (induction t arbitrary: q)
  case (Cons c t)
  have "c \<notin> {CHR 0x5C, CHR ''|'', CHR ''('', CHR '')'', CHR ''^'', CHR ''$''}" if "\<not> js_special c"
    using that by (auto simp: js_special_def)
  with Cons show ?case by auto
qed simp

lemma rx_ends_lits: "j \<in> set (rx_ends (rx_lits q t) s i) \<longleftrightarrow> (\<exists>k \<in> set (rx_ends q s i). (k \<le> length s \<or> t = []) \<and> (t = [] \<or> here s t k) \<and> j = k + length t)"
proof (induction t arbitrary: q)
  case (Cons c t)
  show ?case unfolding rx_lits.simps Cons.IH by (auto simp: here_Cons) (auto simp: here_def)
qed simp

lemma rx_read_group:
  "ts \<noteq> [] \<Longrightarrow> \<exists>x. rx_read (join_with ''|'' (map js_regex_escape ts) @ CHR '')'' # r) (g # st) (a, RxEmpty) = rx_read r st (rx_push x g) \<and>
     (\<forall>i j. i \<le> length s \<longrightarrow> (j \<in> set (rx_ends x s i) \<longleftrightarrow>
        (case a of None \<Rightarrow> False | Some y \<Rightarrow> j \<in> set (rx_ends y s i)) \<or> (\<exists>t \<in> set ts. here s t i \<and> j = i + length t)))"
proof (induction ts arbitrary: a rule: list_nonempty_induct)
  case (single t)
  have "rx_read (join_with ''|'' (map js_regex_escape [t]) @ CHR '')'' # r) (g # st) (a, RxEmpty) =
      rx_read r st (rx_push (rx_close (a, rx_lits RxEmpty t)) g)"
    by (simp add: rx_read_escape)
  then show ?case
    by (intro exI[of _ "rx_close (a, rx_lits RxEmpty t)"] conjI) (auto simp: rx_ends_lits here_def split: option.splits)
next
  case (cons t ts)
  then obtain u us where ts: "ts = u # us" by (cases ts) auto
  let ?a = "Some (rx_close (a, rx_lits RxEmpty t))"
  obtain x where x: "rx_read (join_with ''|'' (map js_regex_escape ts) @ CHR '')'' # r) (g # st) (?a, RxEmpty) = rx_read r st (rx_push x g)"
    and e: "\<And>i j. i \<le> length s \<Longrightarrow> (j \<in> set (rx_ends x s i)) =
        (j \<in> set (rx_ends (rx_close (a, rx_lits RxEmpty t)) s i) \<or> (\<exists>t \<in> set ts. here s t i \<and> j = i + length t))"
    using cons.IH[of ?a] by auto
  have "rx_read (join_with ''|'' (map js_regex_escape (t # ts)) @ CHR '')'' # r) (g # st) (a, RxEmpty) = rx_read r st (rx_push x g)"
    using x by (simp add: ts rx_read_escape)
  then show ?case
    by (intro exI[of _ x] conjI) (auto simp: e rx_ends_lits here_def split: option.splits)
qed

lemma rx_found_iff: "rx_found x s \<longleftrightarrow> (\<exists>i \<le> length s. \<exists>j. j \<in> set (rx_ends x s i))"
proof -
  have "rx_found x s \<longleftrightarrow> (\<exists>i \<in> set [0..<Suc (length s)]. rx_ends x s i \<noteq> [])"
    by (simp only: rx_found_def list_ex_iff)
  also have "\<dots> \<longleftrightarrow> (\<exists>i \<le> length s. rx_ends x s i \<noteq> [])"
    by (simp only: set_upt Bex_def atLeastLessThan_iff less_Suc_eq_le) simp
  also have "\<dots> \<longleftrightarrow> (\<exists>i \<le> length s. \<exists>j. j \<in> set (rx_ends x s i))"
    by (simp only: ex_in_conv set_empty)
  finally show ?thesis .
qed

lemma rx_ends_Cat: "j \<in> set (rx_ends (RxCat p q) s i) \<longleftrightarrow> (\<exists>k \<in> set (rx_ends p s i). j \<in> set (rx_ends q s k))"
  by auto

lemma rx_ends_Start: "j \<in> set (rx_ends (RxCat RxEmpty RxStart) s i) \<longleftrightarrow> i = 0 \<and> j = 0"
  by (auto simp: rx_ends_Cat)

lemma rx_framed: "rx_found (RxCat (RxCat (RxCat RxEmpty RxStart) x) RxStop) s \<longleftrightarrow> length s \<in> set (rx_ends x s 0)"
  unfolding rx_found_iff rx_ends_Cat [of _ _ RxStop] rx_ends_Cat [of _ _ x] rx_ends_Start by simp

lemma here_whole: "here s t 0 \<and> length s = length t \<longleftrightarrow> s = t"
  by (auto simp: here_def)

lemma rx_test_single: "rx_test (''^'' @ js_regex_escape t @ ''$'') s = Some (s = t)"
proof -
  have read: "rx_read (''^'' @ js_regex_escape t @ ''$'') [] (None, RxEmpty) =
      Some (RxCat (rx_lits (RxCat RxEmpty RxStart) t) RxStop)"
    using rx_read_escape[of t "''$''" "[]" None] by simp
  have "rx_found (RxCat (rx_lits (RxCat RxEmpty RxStart) t) RxStop) s \<longleftrightarrow> (here s t 0 \<and> length s = length t)"
    unfolding rx_found_iff rx_ends_Cat [of _ _ RxStop] rx_ends_lits Bex_def rx_ends_Start by (auto simp: here_def)
  with read here_whole[of s t] show ?thesis by (simp add: rx_test_def)
qed

lemma rx_test_group:
  assumes "ts \<noteq> []"
  shows "rx_test (''^(?:'' @ join_with ''|'' (map js_regex_escape ts) @ '')$'') s = Some (s \<in> set ts)"
proof -
  obtain x where x: "rx_read (join_with ''|'' (map js_regex_escape ts) @ '')$'') [(None, RxCat RxEmpty RxStart)] (None, RxEmpty) =
      rx_read ''$'' [] (rx_push x (None, RxCat RxEmpty RxStart))"
    and e: "\<And>j. j \<in> set (rx_ends x s 0) \<longleftrightarrow> (\<exists>t \<in> set ts. here s t 0 \<and> j = length t)"
    using rx_read_group[OF assms, of "''$''" "(None, RxCat RxEmpty RxStart)" "[]" None s] by auto
  have "rx_read (''^(?:'' @ join_with ''|'' (map js_regex_escape ts) @ '')$'') [] (None, RxEmpty) =
      Some (RxCat (RxCat (RxCat RxEmpty RxStart) x) RxStop)"
    using x by simp
  moreover have "length s \<in> set (rx_ends x s 0) \<longleftrightarrow> s \<in> set ts"
    using here_whole[of s] by (auto simp: e)
  ultimately show ?thesis by (simp only: rx_test_def rx_framed option.map)
qed

lemma unescape_include_escape: "unescape_include (js_regex_escape t) = Some t"
  by (induction t) auto

lemma unescape_include_Some: "unescape_include b = Some t \<Longrightarrow> b = js_regex_escape t"
  by (induction b arbitrary: t rule: unescape_include.induct) (auto split: if_splits list.splits)

lemma exact_tags_regex_single: "exact_tags_regex [t] = ''^'' @ js_regex_escape t @ ''$''"
  by (simp add: exact_tags_regex_def sorted_set_def)

lemma replace_dollar_Cons:
  "compose_escape_dollars (c # cs) = (if c = CHR ''$'' then ''$$'' else [c]) @ compose_escape_dollars cs"
  by (simp add: compose_escape_dollars_def startswith_def)

lemma unescape_escape_dollars: "compose_unescape_dollars (compose_escape_dollars v) = v"
proof (induction v)
  case Nil
  then show ?case by (simp add: compose_unescape_dollars_def compose_escape_dollars_def)
next
  case (Cons c v)
  then show ?case
    by (auto simp: replace_dollar_Cons compose_unescape_dollars_def startswith_def)
qed

interpretation dollars: codec compose_escape_dollars "\<lambda>v. Some (compose_unescape_dollars v)" "\<lambda>_. True"
  by unfold_locales (simp add: unescape_escape_dollars)

lemma simple_include_valid:
  "is_simple_exact_tag_include v \<longleftrightarrow> (\<exists>t. tag_value_valid t \<and> v = exact_tags_regex [t])"
proof
  assume a: "is_simple_exact_tag_include v"
  then obtain t where t: "unescape_include (butlast (tl v)) = Some t" "tag_value_valid t"
    and v: "length v \<ge> 3" "startswith v ''^''" "endswith v ''$''"
    by (auto simp: is_simple_exact_tag_include_def split: if_splits option.splits)
  from v obtain w where w: "v = CHR ''^'' # w" "w \<noteq> []"
    by (cases v; cases "tl v") (auto simp: startswith_def)
  with v(3) have "last w = CHR ''$''"
    by simp
  with w have "v = ''^'' @ butlast (tl v) @ ''$''" by (metis append_butlast_last_id append_Cons append_Nil list.sel(3))
  with t show "\<exists>t. tag_value_valid t \<and> v = exact_tags_regex [t]"
    using unescape_include_Some [OF t(1)] by (metis exact_tags_regex_single)
next
  assume "\<exists>t. tag_value_valid t \<and> v = exact_tags_regex [t]"
  then obtain t where t: "tag_value_valid t" "v = ''^'' @ js_regex_escape t @ ''$''"
    by (auto simp: exact_tags_regex_single)
  then have "js_regex_escape t \<noteq> []" by (cases t) (auto simp: tag_value_valid_def)
  with t show "is_simple_exact_tag_include v"
    by (simp add: is_simple_exact_tag_include_def butlast_append unescape_include_escape
        Suc_le_eq not_less)
qed

section \<open>Properties\<close>

text \<open>C9: an exact-tags pattern matches exactly its tags: the pattern written for a non-empty set of
  tags, read as a regular expression with its anchors, group, alternatives and escapes and
  searched for anywhere in a string, is found in precisely the strings that are one of the tags,
  whatever characters the tags contain.\<close>

theorem exact_tags_regex_language:
  assumes "tags \<noteq> []"
  shows "rx_test (exact_tags_regex tags) s = Some (s \<in> set tags)"
proof -
  have ne: "sorted_set tags \<noteq> []" and set: "set (sorted_set tags) = set tags" using assms by simp_all
  then obtain t ts where t: "sorted_set tags = t # ts" by (cases "sorted_set tags") auto
  show ?thesis
  proof (cases ts)
    case Nil
    with t set show ?thesis using rx_test_single [of t s] by (auto simp: exact_tags_regex_def)
  next
    case (Cons u us)
    with t set show ?thesis using rx_test_group [of "t # u # us" s] by (auto simp: exact_tags_regex_def)
  qed
qed

theorem exact_tags_regex_language_witness:
  "rx_test (exact_tags_regex [''b.1'', ''a|'']) ''a|'' = Some True \<and>
   rx_test (exact_tags_regex [''b.1'', ''a|'']) ''bx1'' = Some False \<and>
   exact_tags_regex [''b.1'', ''a|''] = ''^(?:a'' @ [CHR 0x5C] @ ''||b'' @ [CHR 0x5C] @ ''.1)$''"
proof -
  have "exact_tags_regex [''b.1'', ''a|''] = ''^(?:a'' @ [CHR 0x5C] @ ''||b'' @ [CHR 0x5C] @ ''.1)$''" by code_simp
  then show ?thesis
    using exact_tags_regex_language [of "[''b.1'', ''a|'']" "''a|''"]
      exact_tags_regex_language [of "[''b.1'', ''a|'']" "''bx1''"] by simp
qed

text \<open>C11: the labels treated as simple exact-tag includes are precisely the patterns WUDup itself
  writes for one valid tag; no other label is ever normalised without approval for looking
  like one.\<close>

theorem simple_exact_tag_include_iff:
  "is_simple_exact_tag_include v \<longleftrightarrow> (\<exists>t. tag_value_valid t \<and> v = exact_tags_regex [t])"
  by (rule simple_include_valid)

text \<open>C10: which include labels a digest pin may replace. When the label policy returns
  without an error, the current label was empty, already the planned pattern, the exact pattern of
  some one valid tag (whichever tag that is: such a label counts as managed), the plain tag in
  use or planned, or an operator approval names exactly this
  stack, service, label, current value, tag and replacement. Every other label is refused.\<close>

theorem digest_pin_label_safe:
  assumes "digest_pin_label_rewrite_or_raise stack service img cur u approvals = Inr r"
  shows "cur = '''' \<or> cur = compose_unescape_dollars (dp_label_value u) \<or>
     (\<exists>t. tag_value_valid t \<and> cur = exact_tags_regex [t]) \<or>
     (tag_value_valid cur \<and> cur \<in> {dp_watch_tag u, image_tag img}) \<or>
     (\<exists>a \<in> set approvals. a = \<lparr>la_stack = stack, la_service = service, la_label_key = dp_label_key u,
        la_current_label_value = cur, la_planned_tag = dp_watch_tag u,
        la_proposed_label_value = dp_label_value u\<rparr>)"
proof (rule ccontr)
  assume n: "\<not> ?thesis"
  have "\<not> (\<exists>a \<in> set approvals. digest_pin_label_rewrite_approval_matches a stack service (dp_label_key u)
      cur (dp_watch_tag u) (dp_label_value u))"
    using n by (auto simp: approval_matches_iff)
  then have "\<exists>m. digest_pin_label_rewrite_or_raise stack service img cur u approvals = Inl m"
    using n by (auto simp: digest_pin_label_rewrite_or_raise_def digest_pin_label_rewrite_def Let_def
        simple_include_valid)
  with assms show False by simp
qed

theorem digest_pin_label_safe_witness:
  "tag_value_valid ''1.2'' \<and> (\<exists>r. digest_pin_label_rewrite_or_raise ''s'' ''web'' ''app:1.2'' ''1.2''
     \<lparr>dp_old_image = ''app:1.2'', dp_resolved_tag = ''1.3'', dp_resolved_image = ''app:1.3'',
      dp_planned_digest = ''sha256:aa'', dp_final_image = ''app@sha256:aa'', dp_watch_tag = ''1.3'',
      dp_marker = ''m'', dp_label_key = ''k'', dp_label_value = ''v'', dp_services = [''web'']\<rparr> [] = Inr r)"
proof -
  let ?u = "\<lparr>dp_old_image = ''app:1.2'', dp_resolved_tag = ''1.3'', dp_resolved_image = ''app:1.3'',
      dp_planned_digest = ''sha256:aa'', dp_final_image = ''app@sha256:aa'', dp_watch_tag = ''1.3'',
      dp_marker = ''m'', dp_label_key = ''k'', dp_label_value = ''v'', dp_services = [''web'']\<rparr>"
  let ?run = "digest_pin_label_rewrite_or_raise ''s'' ''web'' ''app:1.2'' ''1.2'' ?u []"
  have "(case ?run of Inl _ \<Rightarrow> False | Inr _ \<Rightarrow> True)" by code_simp
  then obtain r where r: "?run = Inr r" by (auto split: sum.splits)
  have "compose_unescape_dollars ''v'' = ''v''" by code_simp
  with digest_pin_label_safe [OF r] have "tag_value_valid ''1.2'' \<or> (\<exists>t. tag_value_valid t \<and> ''1.2'' = exact_tags_regex [t])"
    by auto
  moreover have "''1.2'' \<noteq> exact_tags_regex [t]" for t by (simp add: exact_tags_regex_single)
  ultimately show ?thesis using r by blast
qed

end
