(* ===== verification/Digest_Pins.thy ===== *)
theory Digest_Pins
  imports Compose_Labels
begin

text \<open>
  \<open>src/src/wudup/updater_digest_pin.py\<close>, \<open>updater_digest_unpin.py\<close> and the per-match digest
  requirements of \<open>updater_lifecycle_digest.py\<close>. What the registry answers
  (\<open>digest_verifier.py\<close>) is a parameter of the lifecycle.
\<close>

record resolve_result =
  rr_ok :: bool
  rr_reason :: string
  rr_digest :: string
  rr_error :: string

definition digest_pin_update_from_tag_update :: "tag_update \<Rightarrow> string \<Rightarrow> digest_pin_update" where
  "digest_pin_update_from_tag_update u planned_digest =
     (let digest = normalize_digest planned_digest; watch_tag = tu_desired_tag u
      in \<lparr>dp_old_image = tu_old_image u, dp_resolved_tag = tu_desired_tag u,
          dp_resolved_image = tu_new_image u, dp_planned_digest = digest,
          dp_final_image = image_with_digest (tu_old_image u) digest, dp_watch_tag = watch_tag,
          dp_marker = DIGEST_PIN_MARKER_PREFIX @ watch_tag, dp_label_key = WUD_TAG_INCLUDE_LABEL,
          dp_label_value = compose_escape_dollars (exact_tags_regex [watch_tag]),
          dp_services = tu_services u\<rparr>)"

definition digest_pin_update_from_values :: "string \<Rightarrow> string \<Rightarrow> string \<Rightarrow> string list \<Rightarrow> digest_pin_update" where
  "digest_pin_update_from_values old_image resolved_tag planned_digest services =
     digest_pin_update_from_tag_update
       \<lparr>tu_old_image = old_image, tu_desired_tag = resolved_tag,
        tu_new_image = image_with_tag old_image resolved_tag, tu_services = sort services\<rparr> planned_digest"

definition digest_pin_match_tag :: "match_t \<Rightarrow> string" where
  "digest_pin_match_tag m =
     (if wt_desired_tag (m_target m) \<noteq> '''' then wt_desired_tag (m_target m)
      else if \<not> is_digest_target_line (m_target m) then ''''
      else image_tag (wt_first (m_target m)))"

definition pin_key :: "match_t \<Rightarrow> string \<times> string \<times> string" where
  "pin_key m = (m_compose_image m, digest_pin_match_tag m,
                image_with_tag (m_compose_image m) (digest_pin_match_tag m))"

text \<open>\<open>services_by_key\<close> and \<open>digests_by_key\<close>, built in one pass.\<close>

type_synonym pin_groups =
  "((string \<times> string \<times> string) \<times> string list) list \<times> ((string \<times> string \<times> string) \<times> string list) list"

definition pin_candidates_step :: "pin_groups \<Rightarrow> match_t \<Rightarrow> pin_groups" where
  "pin_candidates_step d m =
     (if digest_pin_match_tag m = '''' then d
      else let key = pin_key m;
               s = setdefault key [] (fst d);
               s' = (if m_service m \<noteq> '''' then AList.update key (m_service m # dict_get s key []) s else s);
               g = (if wt_desired_tag (m_target m) = ''''
                    then AList.update key (normalize_digest (wt_digest (m_target m)) # dict_get (snd d) key []) (snd d)
                    else snd d)
           in (s', g))"

fun pin_candidates_build ::
  "pin_groups \<Rightarrow> (string \<times> string \<times> string) list \<Rightarrow> digest_pin_candidate list planned" where
  "pin_candidates_build d [] = Inr []"
| "pin_candidates_build d (key # keys) =
     (let (old_image, resolved_tag, resolved_image) = key;
          digests = sorted_set (dict_get (snd d) key [])
      in if length digests > 1
         then Inl (''Conflicting digest-pin digests for '' @ resolved_image @ '': '' @ join_with '', '' digests)
         else (case pin_candidates_build d keys of
             Inl e \<Rightarrow> Inl e
           | Inr cs \<Rightarrow> Inr (\<lparr>dc_old_image = old_image, dc_resolved_tag = resolved_tag,
               dc_resolved_image = resolved_image,
               dc_planned_digest = (if digests \<noteq> [] then hd digests else ''''),
               dc_services = sorted_set (dict_get (fst d) key [])\<rparr> # cs)))"

definition digest_pin_candidates :: "match_t list \<Rightarrow> digest_pin_candidate list planned" where
  "digest_pin_candidates matches =
     (let d = foldl pin_candidates_step ([], []) matches
      in pin_candidates_build d (sort (map fst (fst d))))"

definition digest_pin_tag_materialization_updates :: "digest_pin_update list \<Rightarrow> tag_update list" where
  "digest_pin_tag_materialization_updates updates =
     map (\<lambda>u. \<lparr>tu_old_image = dp_old_image u, tu_desired_tag = dp_resolved_tag u,
               tu_new_image = dp_resolved_image u, tu_services = dp_services u\<rparr>)
       (filter (\<lambda>u. \<not> (dp_old_image u = dp_resolved_image u \<or> \<not> contains (dp_old_image u) ''@sha256:'')) updates)"

definition digest_pin_resolve_error :: "string \<Rightarrow> resolve_result \<Rightarrow> string" where
  "digest_pin_resolve_error resolved_image r =
     (if rr_reason r = ''stale-digest''
      then ''Digest-pin target moved for '' @ resolved_image @ '': planned digest is no longer current''
           @ (if rr_digest r \<noteq> '''' then '', current '' @ normalize_digest (rr_digest r) else '''')
      else if rr_reason r = ''tag-digest-unavailable''
      then ''Could not confirm digest-pin target for '' @ resolved_image @ '': the registry did not report ''
           @ ''which digest the tag points to, and the planned digest could not be read for comparison. ''
           @ ''Check that the registry is reachable and retry''
      else ''Could not resolve digest-pin target for '' @ resolved_image @ '': '' @ rr_reason r)"

section \<open>What a match requires of the pulled image\<close>

definition expected_digest_requirement :: "match_t \<Rightarrow> string" where
  "expected_digest_requirement m =
     (if wt_digest (m_target m) = '''' then ''''
      else if \<not> contains (wt_first (m_target m)) ''@sha256:'' then ''''
      else wt_digest (m_target m))"

definition first_nonempty :: "string list \<Rightarrow> string" where
  "first_nonempty xs = (case filter (\<lambda>x. x \<noteq> '''') xs of [] \<Rightarrow> '''' | x # _ \<Rightarrow> x)"

definition expected_digest_image :: "match_t \<Rightarrow> string" where
  "expected_digest_image m =
     (let t = m_target m;
          tag = (if wt_desired_tag t \<noteq> '''' then wt_desired_tag t
                 else if contains (m_compose_image m) ''@sha256:''
                 then first_nonempty [image_tag (m_resolved m), image_tag (wt_first t),
                        image_tag (m_compose_image m), ''latest'']
                 else first_nonempty [image_tag (m_compose_image m), image_tag (m_resolved m),
                        image_tag (wt_first t), ''latest''])
      in image_with_tag (m_compose_image m) tag)"

definition expected_digest_key :: "match_t \<Rightarrow> requirement_key" where
  "expected_digest_key m = (match_index m, match_line m, expected_digest_image m)"

text \<open>The sorted requirements: line, target, image, digest.\<close>

definition digest_requirements :: "match_t list \<Rightarrow> (nat \<times> string \<times> string \<times> string) list" where
  "digest_requirements matches =
     sorted_set (map (\<lambda>m. (match_line m, wt_first (m_target m), expected_digest_image m,
                           expected_digest_requirement m))
       (filter (\<lambda>m. expected_digest_requirement m \<noteq> '''') matches))"

text \<open>
  \<open>_digest_unpin_updates\<close>: the planned unpins that concern these matches, with the services
  concerned, once per image, tag and digest.
\<close>

definition unpin_services :: "match_t list \<Rightarrow> digest_unpin_update \<Rightarrow> string list" where
  "unpin_services matches u =
     sorted_set (map m_service (filter (\<lambda>m. m_compose_image m = du_old_image u \<and>
        m_resolved m = du_tag_image u \<and> m_service m \<in> set (du_services u)) matches))"

definition digest_unpin_updates :: "digest_unpin_update list \<Rightarrow> match_t list \<Rightarrow> digest_unpin_update list" where
  "digest_unpin_updates plan matches =
     unique_by (\<lambda>u. (du_old_image u, du_resolved_tag u, du_target_digest u)) {}
       (map (\<lambda>u. u\<lparr>du_services := unpin_services matches u\<rparr>)
         (filter (\<lambda>u. unpin_services matches u \<noteq> []) plan))"

text \<open>
  \<open>_digest_pin_updates\<close> of the lifecycle without its cache: the planned updates where the plan
  has one, a freshly resolved digest otherwise; \<open>resolve\<close> stands for the registry.
\<close>

fun resolve_pin_candidates ::
  "(digest_pin_candidate \<Rightarrow> resolve_result) \<Rightarrow> digest_pin_update list \<Rightarrow> digest_pin_candidate list \<Rightarrow>
   digest_pin_update list planned" where
  "resolve_pin_candidates resolve plan [] = Inr []"
| "resolve_pin_candidates resolve plan (c # cs) =
     (let this = (case map_of (rev (map (\<lambda>u. ((dp_old_image u, dp_resolved_tag u), u)) plan))
                     (dc_old_image c, dc_resolved_tag c) of
            Some u \<Rightarrow> Inr (u\<lparr>dp_services := dc_services c\<rparr>)
          | None \<Rightarrow> let r = resolve c
              in if \<not> rr_ok r
                 then Inl (digest_pin_resolve_error (dc_resolved_image c) r
                           @ (if rr_error r \<noteq> '''' then '' ('' @ rr_error r @ '')'' else ''''))
                 else Inr (digest_pin_update_from_values (dc_old_image c) (dc_resolved_tag c) (rr_digest r)
                             (dc_services c)))
      in case this of
           Inl e \<Rightarrow> Inl e
         | Inr u \<Rightarrow> (case resolve_pin_candidates resolve plan cs of
               Inl e \<Rightarrow> Inl e | Inr us \<Rightarrow> Inr (u # us)))"

definition digest_pin_updates ::
  "bool \<Rightarrow> (digest_pin_candidate \<Rightarrow> resolve_result) \<Rightarrow> digest_pin_update list \<Rightarrow> match_t list \<Rightarrow>
   digest_pin_update list planned" where
  "digest_pin_updates enabled resolve plan matches =
     (if \<not> enabled then Inr []
      else case digest_pin_candidates matches of
        Inl e \<Rightarrow> Inl e
      | Inr cs \<Rightarrow> resolve_pin_candidates resolve plan cs)"

section \<open>Properties\<close>

lemma normalize_digest_no_at: "CHR ''@'' \<notin> set d \<Longrightarrow> CHR ''@'' \<notin> set (normalize_digest d)"
  by (auto simp: normalize_digest_def Let_def break_at_char_None [THEN iffD2])

text \<open>C14: a digest pin keeps the name. The image WUDup pins has the repository of the image it
  replaces, followed by the planned digest; it carries no tag, and compares equal to the old
  image by repository. The tag it resolved from is the watched tag, and the include label,
  once Compose has undone the dollar escaping, matches exactly that tag.\<close>

theorem digest_pin_update_consistent:
  assumes "tag_value_valid tag" and "d \<noteq> ''''" and "CHR ''@'' \<notin> set d"
    and "CHR ''@'' \<notin> set (image_repo_ref img)" and "\<not> image_has_tag (image_repo_ref img)"
    and "u = digest_pin_update_from_values img tag d services"
  shows "dp_final_image u = image_repo_ref img @ ''@'' @ dp_planned_digest u \<and>
    repo_key (dp_final_image u) = repo_key img \<and> \<not> image_has_tag (dp_final_image u) \<and>
    image_tag (dp_resolved_image u) = dp_watch_tag u \<and> repo_key (dp_resolved_image u) = repo_key img \<and>
    exact_pattern_strings (compose_unescape_dollars (dp_label_value u)) = Some [dp_watch_tag u]"
proof (intro conjI)
  note u = assms(6) [unfolded digest_pin_update_from_values_def digest_pin_update_from_tag_update_def Let_def]
  have idem: "normalize_digest (normalize_digest d) = normalize_digest d"
    by (rule normalize_digest_idem) (rule normalize_digest_no_at [OF assms(3)])
  show "dp_final_image u = image_repo_ref img @ ''@'' @ dp_planned_digest u"
    by (simp add: u image_with_digest_def idem)
  show "repo_key (dp_final_image u) = repo_key img" "\<not> image_has_tag (dp_final_image u)"
    using assms(2,5) by (simp_all add: u repo_key_with_digest image_with_digest_no_tag)
  show "image_tag (dp_resolved_image u) = dp_watch_tag u" "repo_key (dp_resolved_image u) = repo_key img"
    using assms(1,4,5) by (simp_all add: u image_tag_with_tag repo_key_with_tag)
  show "exact_pattern_strings (compose_unescape_dollars (dp_label_value u)) = Some [dp_watch_tag u]"
    by (simp add: u unescape_escape_dollars exact_tags_regex_single exact_pattern_single [simplified])
qed

theorem digest_pin_update_consistent_witness:
  "repo_key (dp_final_image (digest_pin_update_from_values ''ghcr.io/a/b:1'' ''1.2'' ''sha256:ff'' [''w''])) = ''a/b''"
proof -
  have key: "repo_key ''ghcr.io/a/b:1'' = ''a/b''"
    and pre: "tag_value_valid ''1.2''" "CHR ''@'' \<notin> set (image_repo_ref ''ghcr.io/a/b:1'')"
      "\<not> image_has_tag (image_repo_ref ''ghcr.io/a/b:1'')"
    by code_simp+
  have dig: "''sha256:ff'' \<noteq> ''''" "CHR ''@'' \<notin> set ''sha256:ff''" by simp_all
  show ?thesis
    using digest_pin_update_consistent [OF pre(1) dig pre(2,3) refl, of "[''w'']"] unfolding key by blast
qed

end
