(* ===== verification/Compose_Runtime.thy ===== *)
theory Compose_Runtime
  imports Updater_Models
begin

text \<open>
  What \<open>src/src/wudup/compose.py\<close> reads from the labels of running containers: the Compose files
  and project a container was started from, its service and its state. \<open>norm\<close> is
  \<open>os.path.normpath\<close>, a parameter. \<open>casefold\<close> is \<open>lower\<close>: the results are only compared with
  the ASCII names of states.
\<close>

type_synonym runtime_key = "string set \<times> string \<times> string"
type_synonym runtime_state = "runtime_key \<times> string"

text \<open>\<open>split(c, n)\<close>: at most \<open>n\<close> splits.\<close>

fun splitn :: "char \<Rightarrow> nat \<Rightarrow> string \<Rightarrow> string list" where
  "splitn c 0 s = [s]"
| "splitn c (Suc n) s = (case break_at [c] s of None \<Rightarrow> [s] | Some (a, b) \<Rightarrow> a # splitn c n b)"

definition path_join :: "string \<Rightarrow> string \<Rightarrow> string" where
  "path_join dir p = (if startswith p ''/'' then p else dir @ ''/'' @ p)"

fun runtime_config_paths_of ::
  "(string \<Rightarrow> string) \<Rightarrow> string \<Rightarrow> string set \<Rightarrow> string list \<Rightarrow> string set option" where
  "runtime_config_paths_of norm wd paths [] = (if paths = {} then None else Some paths)"
| "runtime_config_paths_of norm wd paths (v0 # vs) =
     (let v = py_strip v0
      in if v = '''' then runtime_config_paths_of norm wd paths vs
         else if \<not> startswith v ''/'' \<and> wd = '''' then None
         else runtime_config_paths_of norm wd (insert (norm (path_join wd v)) paths) vs)"

definition compose_runtime_config_paths :: "(string \<Rightarrow> string) \<Rightarrow> string \<Rightarrow> string \<Rightarrow> string set option" where
  "compose_runtime_config_paths norm wd config_files =
     runtime_config_paths_of norm wd {} (split_on (CHR '','') config_files)"

definition compose_runtime_service_key_from_fields ::
  "(string \<Rightarrow> string) \<Rightarrow> string list \<Rightarrow> runtime_key option" where
  "compose_runtime_service_key_from_fields norm flds =
     (case flds of
        [wd, config_files, project, service0, oneoff] \<Rightarrow>
          if lower (py_strip oneoff) = ''true'' then None
          else let service = py_strip service0
               in (case compose_runtime_config_paths norm wd config_files of
                     None \<Rightarrow> None
                   | Some paths \<Rightarrow> if service = '''' then None else Some (paths, py_strip project, service))
      | _ \<Rightarrow> None)"

definition compose_runtime_service_states :: "(string \<Rightarrow> string) \<Rightarrow> string list \<Rightarrow> runtime_state list" where
  "compose_runtime_service_states norm rows =
     List.map_filter (\<lambda>row.
       let flds = splitn (CHR 0x09) 5 row
       in if length flds \<noteq> 6 then None
          else let state = lower (py_strip (flds ! 5))
               in (case compose_runtime_service_key_from_fields norm (take 5 flds) of
                     None \<Rightarrow> None
                   | Some key \<Rightarrow> if state = '''' then None else Some (key, state))) rows"

text \<open>The set of keys, as the list of them in the order of the rows.\<close>

definition compose_runtime_service_keys :: "(string \<Rightarrow> string) \<Rightarrow> string list \<Rightarrow> runtime_key list" where
  "compose_runtime_service_keys norm rows =
     List.map_filter (\<lambda>row. compose_runtime_service_key_from_fields norm (splitn (CHR 0x09) 4 row)) rows"

definition compose_runtime_service_key ::
  "(string \<Rightarrow> string) \<Rightarrow> string \<Rightarrow> string \<Rightarrow> string \<Rightarrow> string \<Rightarrow> runtime_key" where
  "compose_runtime_service_key norm project_directory compose_file project_name service =
     ({norm (path_join project_directory compose_file)}, project_name, service)"

definition compose_runtime_service_key_matches :: "runtime_key \<Rightarrow> runtime_key \<Rightarrow> bool" where
  "compose_runtime_service_key_matches expected actual =
     (fst expected \<subseteq> fst actual \<and> fst (snd expected) = fst (snd actual) \<and>
      snd (snd expected) = snd (snd actual))"

text \<open>The loop of \<open>_compose_runtime_file_sets\<close>: started from the file, extra files, other sets.\<close>

fun runtime_file_sets_of ::
  "string set \<Rightarrow> string \<Rightarrow> bool \<times> string set \<times> string set set \<Rightarrow> runtime_key list \<Rightarrow>
   bool \<times> string set \<times> string set set" where
  "runtime_file_sets_of expected project acc [] = acc"
| "runtime_file_sets_of expected project (started, extra, others) ((paths, rproject, rservice) # ks) =
     runtime_file_sets_of expected project
       (if rproject \<noteq> project then (started, extra, others)
        else if paths = expected then (True, extra, others)
        else if expected \<subset> paths then (started, extra \<union> (paths - expected), others)
        else (started, extra, insert paths others)) ks"

definition compose_runtime_file_sets ::
  "(string \<Rightarrow> string) \<Rightarrow> string \<Rightarrow> string \<Rightarrow> string \<Rightarrow> runtime_key list \<Rightarrow> bool \<times> string set \<times> string set set" where
  "compose_runtime_file_sets norm dir file project keys =
     runtime_file_sets_of (fst (compose_runtime_service_key norm dir file project '''')) project
       (False, {}, {}) keys"

definition compose_runtime_extra_config_files ::
  "(string \<Rightarrow> string) \<Rightarrow> string \<Rightarrow> string \<Rightarrow> string \<Rightarrow> runtime_key list \<Rightarrow> string set list \<Rightarrow> string list" where
  "compose_runtime_extra_config_files norm dir file project keys known =
     (case compose_runtime_file_sets norm dir file project keys of
        (started, extra, others) \<Rightarrow>
          sorted_list_of_set (extra \<union> \<Union> {paths \<in> others. \<not> started \<or> \<not> (\<exists>k \<in> set known. k \<subseteq> paths)}))"

definition compose_project_file_sets ::
  "(string \<Rightarrow> string) \<Rightarrow> compose_stack list \<Rightarrow> string \<Rightarrow> string set list" where
  "compose_project_file_sets norm stacks project_name =
     map (\<lambda>st. fst (compose_runtime_service_key norm
            (case cs_project_directory st of None \<Rightarrow> cs_directory st | Some d \<Rightarrow> d)
            (cs_file st) (cs_project_name st) ''''))
       (filter (\<lambda>st. cs_project_name st = project_name) stacks)"

definition compose_runtime_project_shared ::
  "(string \<Rightarrow> string) \<Rightarrow> string \<Rightarrow> string \<Rightarrow> string \<Rightarrow> runtime_key list \<Rightarrow> bool" where
  "compose_runtime_project_shared norm dir file project keys =
     (snd (snd (compose_runtime_file_sets norm dir file project keys)) \<noteq> {})"

section \<open>Lemmas\<close>

lemma file_sets_others:
  "snd (snd (runtime_file_sets_of e p acc ks)) =
   snd (snd acc) \<union> {x. (\<exists>r. (x, p, r) \<in> set ks) \<and> x \<noteq> e \<and> \<not> e \<subset> x}"
proof (induction e p acc ks rule: runtime_file_sets_of.induct)
  case (2 e p st ex ot paths rp rs ks)
  show ?case
    unfolding runtime_file_sets_of.simps "2.IH"
    by (cases "rp = p"; cases "paths = e"; cases "e \<subset> paths") (simp_all, auto)
qed simp

text \<open>
  A stack is recreated with its orphans removed only when every running container of the project
  was started from files that contain the discovered one.
\<close>

lemma not_shared_iff:
  "\<not> compose_runtime_project_shared norm dir file project keys \<longleftrightarrow>
   (\<forall>k \<in> set keys. fst (snd k) = project \<longrightarrow> {norm (path_join dir file)} \<subseteq> fst k)"
proof -
  have "x \<noteq> {a} \<and> \<not> {a} \<subset> x \<longleftrightarrow> \<not> {a} \<subseteq> x" for x and a :: string by auto
  then show ?thesis
    unfolding compose_runtime_project_shared_def compose_runtime_file_sets_def file_sets_others
      compose_runtime_service_key_def by fastforce
qed

end
