(* ===== verification/Updater_Logging.thy ===== *)
theory Updater_Logging
  imports File_Ops
begin

text \<open>
  The text files of \<open>src/src/wudup/updater_logging.py\<close>: \<open>_create_unique_text_file_exclusive\<close>
  makes a file under a name nothing has yet (\<open>O_EXCL\<close>), trying \<open>-1\<close>, \<open>-2\<close>, ... after the stem while
  names are taken. The entry a new file gets (mode 0600 less the umask, the process's user and
  group) is a parameter. The terminal and the lines of the run's own log are left out.
\<close>

section \<open>Names\<close>

definition safe_char :: "char \<Rightarrow> bool" where
  "safe_char c =
     (let n = of_char c :: nat
      in (48 \<le> n \<and> n \<le> 57) \<or> (65 \<le> n \<and> n \<le> 90) \<or> (97 \<le> n \<and> n \<le> 122) \<or> c = CHR ''.'' \<or> c = CHR ''_'' \<or> c = CHR ''-'')"

definition safe_component :: "string \<Rightarrow> string" where
  "safe_component value =
     (let cleaned = map (\<lambda>c. if safe_char c then c else CHR ''_'') value
      in if cleaned = '''' then ''tag'' else cleaned)"

text \<open>
  \<open>Path.stem\<close> and \<open>Path.suffix\<close> of a file name: the suffix starts at the last dot, unless that is
  the first or the last character.
\<close>

definition split_suffix :: "string \<Rightarrow> string \<times> string" where
  "split_suffix name =
     (case rbreak_char (CHR ''.'') name of
        None \<Rightarrow> (name, '''')
      | Some (a, b) \<Rightarrow> if a = '''' \<or> b = '''' then (name, '''') else (a, CHR ''.'' # b))"

definition collision_name :: "string \<Rightarrow> nat \<Rightarrow> string" where
  "collision_name name attempt =
     (if attempt = 0 then name
      else fst (split_suffix name) @ ''-'' @ show_nat attempt @ snd (split_suffix name))"

section \<open>Files no name had before\<close>

definition EXCLUSIVE_CREATE_ATTEMPTS :: nat where
  "EXCLUSIVE_CREATE_ATTEMPTS = 100"

text \<open>\<open>os.open(..., O_WRONLY | O_CREAT | O_EXCL | O_NOFOLLOW)\<close>; \<open>False\<close> is \<open>EEXIST\<close> or \<open>ELOOP\<close>.\<close>

definition open_exclusive :: "file_meta \<Rightarrow> path \<Rightarrow> bool io" where
  "open_exclusive meta p = sys ''open'' (\<lambda>s.
     if fs_files s p \<noteq> None then (Inr False, s)
     else (Inr True, s\<lparr>fs_files := (fs_files s)(p \<mapsto> \<lparr>f_text = '''', f_meta = meta\<rparr>)\<rparr>))"

definition apply_configured_fd_owner :: "owner_config \<Rightarrow> path \<Rightarrow> unit io" where
  "apply_configured_fd_owner oc p =
     (if \<not> owner_configured oc then io_ret ()
      else case (oc_uid oc, oc_gid oc) of
             (Some u, Some g) \<Rightarrow> chown p u g
           | _ \<Rightarrow> io_raise (OwnerConfigError OWNER_PAIR_ERROR))"

definition write_exclusive_text_file :: "file_meta \<Rightarrow> owner_config \<Rightarrow> path \<Rightarrow> string \<Rightarrow> bool io" where
  "write_exclusive_text_file meta oc p content =
     io_bind (open_exclusive meta p) (\<lambda>made.
       if \<not> made then io_ret False
       else io_bind (apply_configured_fd_owner oc p) (\<lambda>_.
            io_bind (write_text p content) (\<lambda>_. io_ret True)))"

fun try_exclusive :: "file_meta \<Rightarrow> owner_config \<Rightarrow> string list \<Rightarrow> string \<Rightarrow> string io" where
  "try_exclusive meta oc [] content =
     io_raise (OSError ''could not create a unique file after 100 attempts'')"
| "try_exclusive meta oc (p # ps) content =
     io_bind (write_exclusive_text_file meta oc (Named p) content) (\<lambda>made.
       if made then io_ret p else try_exclusive meta oc ps content)"

definition exclusive_candidates :: "string \<Rightarrow> string \<Rightarrow> string list" where
  "exclusive_candidates dir name =
     map (\<lambda>i. dir @ ''/'' @ collision_name name i) [0..<EXCLUSIVE_CREATE_ATTEMPTS]"

definition create_unique_text_file_exclusive ::
  "file_meta \<Rightarrow> owner_config \<Rightarrow> string \<Rightarrow> string \<Rightarrow> string \<Rightarrow> string io" where
  "create_unique_text_file_exclusive meta oc dir name content =
     try_exclusive meta oc (exclusive_candidates dir name) content"

section \<open>What is kept\<close>

text \<open>Nothing but one of the names \<open>N\<close>, free before, can have become a file.\<close>

definition adds_only :: "string set \<Rightarrow> fs \<Rightarrow> fs \<Rightarrow> bool" where
  "adds_only N s s' =
     (fs_next s' = fs_next s \<and> fs_written s' = fs_written s \<and> fs_dirs s' = fs_dirs s \<and> fs_held s' = fs_held s \<and>
      (\<forall>j. fs_files s' (Temp j) = fs_files s (Temp j)) \<and>
      (\<forall>k. fs_files s' (Named k) = fs_files s (Named k) \<or> (fs_files s (Named k) = None \<and> k \<in> N)))"

lemma adds_only_refl: "adds_only N s s"
  by (simp add: adds_only_def)

lemma adds_only_trans: "adds_only N s s' \<Longrightarrow> adds_only N s' s'' \<Longrightarrow> adds_only N s s''"
  by (simp add: adds_only_def) metis

lemma adds_only_mono: "adds_only N s s' \<Longrightarrow> N \<subseteq> M \<Longrightarrow> adds_only M s s'"
  by (auto simp: adds_only_def)

text \<open>Between the opening of the new file \<open>p\<close> and the end only \<open>p\<close> changes.\<close>

lemma upd_file_adds:
  assumes "adds_only {p} s0 s" and "fs_files s0 (Named p) = None"
  shows "holds (sys nm (upd_file (Named p) g)) fault s (\<lambda>r s'. adds_only {p} s0 s')"
  using assms by (auto simp: holds_sys Let_def upd_file_def adds_only_def split: option.splits)

lemma owner_adds:
  assumes "adds_only {p} s0 s" and "fs_files s0 (Named p) = None"
  shows "holds (apply_configured_fd_owner oc (Named p)) fault s (\<lambda>r s'. adds_only {p} s0 s')"
  unfolding apply_configured_fd_owner_def chown_def
  using assms(1) upd_file_adds [OF assms]
  by (auto simp: holds_ret holds_raise split: option.splits)

lemma write_adds:
  assumes "adds_only {p} s0 s" and "fs_files s0 (Named p) = None"
  shows "holds (write_text (Named p) t) fault s (\<lambda>r s'. adds_only {p} s0 s')"
  unfolding write_text_def by (rule upd_file_adds [OF assms])

lemma write_exclusive_adds:
  "holds (write_exclusive_text_file meta oc (Named p) content) fault s (\<lambda>r s'. adds_only {p} s s')"
proof -
  have opened: "holds (open_exclusive meta (Named p)) fault s
      (\<lambda>r s'. adds_only {p} s s' \<and> (r = Inr True \<longrightarrow> fs_files s (Named p) = None))"
    by (auto simp: open_exclusive_def holds_sys Let_def adds_only_def)
  show ?thesis
    unfolding write_exclusive_text_file_def
  proof (rule holds_bindI [OF opened])
    fix made s1
    assume 1: "adds_only {p} s s1 \<and> ((Inr made :: exc + bool) = Inr True \<longrightarrow> fs_files s (Named p) = None)"
    then have s1: "adds_only {p} s s1" by simp
    show "holds (if \<not> made then io_ret False else io_bind (apply_configured_fd_owner oc (Named p)) (\<lambda>_.
        io_bind (write_text (Named p) content) (\<lambda>_. io_ret True))) fault s1 (\<lambda>r s'. adds_only {p} s s')"
    proof (cases made)
      case False
      then show ?thesis using s1 by (simp add: holds_ret)
    next
      case True
      then have free: "fs_files s (Named p) = None" using 1 by simp
      have "holds (io_bind (apply_configured_fd_owner oc (Named p)) (\<lambda>_.
          io_bind (write_text (Named p) content) (\<lambda>_. io_ret True))) fault s1 (\<lambda>r s'. adds_only {p} s s')"
        by (rule holds_bindI [OF owner_adds [OF s1 free]], assumption, rule holds_bindI, erule write_adds [OF _ free])
          (auto simp: holds_ret)
      then show ?thesis using True by simp
    qed
  qed auto
qed

lemma try_exclusive_adds: "holds (try_exclusive meta oc ps content) fault s (\<lambda>r s'. adds_only (set ps) s s')"
proof (induction ps arbitrary: s)
  case Nil
  show ?case by (simp add: holds_raise adds_only_refl)
next
  case (Cons p ps)
  have first: "holds (write_exclusive_text_file meta oc (Named p) content) fault s
      (\<lambda>r s'. adds_only (set (p # ps)) s s')"
    by (rule holds_mono [OF write_exclusive_adds]) (auto intro: adds_only_mono)
  have rest: "holds (try_exclusive meta oc ps content) fault s1 (\<lambda>r s'. adds_only (set (p # ps)) s s')"
    if "adds_only (set (p # ps)) s s1" for s1
    by (rule holds_mono [OF Cons.IH], rule adds_only_trans [OF that], erule adds_only_mono) auto
  show ?case
    unfolding try_exclusive.simps
  proof (rule holds_bindI [OF first])
    fix made s1 assume "adds_only (set (p # ps)) s s1"
    then show "holds (if made then io_ret p else try_exclusive meta oc ps content) fault s1
        (\<lambda>r s'. adds_only (set (p # ps)) s s')"
      using rest [of s1] by (simp add: holds_ret)
  qed simp
qed

lemma create_unique_adds:
  "holds (create_unique_text_file_exclusive meta oc dir name content) fault s
     (\<lambda>r s'. adds_only (set (exclusive_candidates dir name)) s s')"
  unfolding create_unique_text_file_exclusive_def by (rule try_exclusive_adds)

text \<open>Where a name was returned, its file is new and holds the text.\<close>

lemma write_exclusive_made:
  "holds (write_exclusive_text_file meta oc (Named p) content) fault s
     (\<lambda>r s'. r = Inr True \<longrightarrow> fs_files s (Named p) = None \<and>
        (\<exists>f. fs_files s' (Named p) = Some f \<and> f_text f = content))"
  by (auto simp: write_exclusive_text_file_def open_exclusive_def apply_configured_fd_owner_def chown_def
      write_text_def upd_file_def holds_bind holds_sys holds_ret holds_raise Let_def split: option.splits)

end
