(* ===== verification/Lifecycle_State.thy ===== *)
theory Lifecycle_State
  imports Digest_Pins Compose_Runtime Compose_Persistence Updater_Logging
begin

text \<open>
  The state of one stack update (\<open>src/src/wudup/updater_lifecycle_state.py\<close>) and the world it
  acts on: the file system with the Compose file, the Docker and Compose commands issued so
  far, the clock, and what the runner collects. Docker and the registry are an environment:
  the answer to a command is any function of the commands before it, may be a failure, and
  may be an interrupt that nothing catches. The YAML renderers are parameters as well. Log
  lines are left out; progress events and failure records are kept, and an incident log is a file
  of the file system. The wall clock that stamps it is a parameter.

  The fields of \<open>_StackUpdateState\<close> that the update never changes are the record \<open>plan\<close>; the
  others are fields of the world, since they outlive an exception. \<open>compose_written_hashes\<close>
  is \<open>fs_written\<close> of the file system.
\<close>

section \<open>Commands\<close>

datatype cmd =
    Pull "string list option"
  | Up "string list" bool bool bool bool bool \<comment> \<open>wait, force recreate, no deps, no start, remove orphans\<close>
  | Stop "string list"
  | Start "string list"
  | Pause "string list"
  | Unpause "string list"
  | Ps "string list option" bool
  | PsStates
  | PsKeys
  | ConfigServices
  | ConfigImages
  | ServiceImagePairs
  | WaitSupported
  | Inspect string string
  | ImageInspect string string
  | VerifyTag string string
  | Verify string string

datatype resp = Done "string list" | Failed string | Interrupted

datatype lexc =
    CommandError string
  | FileError exc
  | UpdaterErr string
  | ValueErr string
  | Abort

record verify_result =
  vr_status :: string
  vr_ok :: bool
  vr_reason :: string
  vr_digest :: string

record options_t =
  op_mode :: string
  op_max_wait :: nat
  op_digest_pin_updates :: bool
  op_digest_pin_plan :: "digest_pin_update list"
  op_digest_unpin_plan :: "digest_unpin_update list"
  op_tag_stream_updates :: "tag_stream_update list"
  op_label_approvals :: "label_approval list"
  op_protected_container :: "string option"

record plan =
  p_stack :: compose_stack
  p_matches :: "match_t list"
  p_scope :: update_scope
  p_before :: "(string \<times> image_state) list"
  p_pins :: "digest_pin_update list"
  p_unpins :: "digest_unpin_update list"
  p_tags :: "tag_update list"
  p_streams :: "tag_stream_update list"
  p_running :: "string list"
  p_stopped :: "string list"
  p_start_failed :: "string list"

record world =
  w_fs :: fs
  w_cmds :: "cmd list"
  w_clock :: nat
  w_failures :: "failure_record list"
  w_progress :: "(string \<times> string \<times> string list option) list"
  w_pre :: requirement_outcomes
  w_exp :: requirement_outcomes
  w_runtime :: "(nat \<times> (string list \<times> string list)) list"
  w_runtime_after :: "(nat \<times> (string list \<times> string list)) list"
  w_image_states :: "(nat \<times> ((string \<times> image_state) list \<times> (string \<times> image_state) list)) list"
  w_retry_previous :: "(nat \<times> (string \<times> image_state) list) list"
  w_keep_orphans :: "nat set"
  w_pinned :: "((nat \<times> nat \<times> string) \<times> digest_pin_update) list"
  w_unpinned :: "((nat \<times> nat \<times> string) \<times> digest_unpin_update) list"
  w_current_stack :: compose_stack
  w_images :: "string list"
  w_after :: "(string \<times> image_state) list"
  w_applied_tags :: "applied_tag_update list"
  w_applied_pins :: "applied_digest_pin list"
  w_applied_unpins :: "applied_digest_unpin list"
  w_backup :: "path option"
  w_restored :: bool
  w_health_verified :: bool

type_synonym 'a rendered = "string \<Rightarrow> lexc + (string \<times> 'a list)"

record ctx =
  c_resp :: "cmd list \<Rightarrow> cmd \<Rightarrow> resp"
  c_pairs :: "cmd list \<Rightarrow> service_image list"
  c_verify :: "cmd list \<Rightarrow> string \<Rightarrow> string \<Rightarrow> verify_result"
  c_verify_tag :: "cmd list \<Rightarrow> string \<Rightarrow> string \<Rightarrow> verify_result"
  c_resolve :: "digest_pin_candidate \<Rightarrow> resolve_result"
  c_delay :: "cmd list \<Rightarrow> nat"
  c_callback_raises :: "nat \<Rightarrow> bool"
  c_fault :: faults
  c_sha :: "string \<Rightarrow> string"
  c_unsup :: bool
  c_norm :: "string \<Rightarrow> string"
  c_real :: "string \<Rightarrow> string"
  c_display_start :: "compose_stack \<Rightarrow> string list \<Rightarrow> string"
  c_sanitize :: "string \<Rightarrow> string"
  c_owner :: owner_config
  c_new_meta :: file_meta
  c_log_file :: string
  c_stamp :: "cmd list \<Rightarrow> string"
  c_file_stamp :: "cmd list \<Rightarrow> string"
  c_render_tags :: "tag_update list \<Rightarrow> tag_stream_update list \<Rightarrow> applied_tag_update rendered"
  c_render_pins :: "digest_pin_update list \<Rightarrow> label_approval list \<Rightarrow> tag_stream_update list \<Rightarrow>
    applied_digest_pin rendered"
  c_render_unpins :: "digest_unpin_update list \<Rightarrow> (string \<times> string) list \<Rightarrow>
    applied_digest_unpin rendered"
  c_opts :: options_t
  c_discovered :: "compose_stack list"
  c_verified_scopes :: "(nat \<times> string list option) \<rightharpoonup> update_scope"

type_synonym 'a act = "(ctx, world, lexc, 'a) prog"

section \<open>Primitives\<close>

definition ask :: "(ctx \<Rightarrow> 'a) \<Rightarrow> 'a act" where
  "ask f c w = (Inr (f c), w)"

definition get :: "(world \<Rightarrow> 'a) \<Rightarrow> 'a act" where
  "get f c w = (Inr (f w), w)"

definition put :: "(world \<Rightarrow> world) \<Rightarrow> unit act" where
  "put g c w = (Inr (), g w)"

definition opt :: "(options_t \<Rightarrow> 'a) \<Rightarrow> 'a act" where
  "opt f = ask (\<lambda>c. f (c_opts c))"

definition issue :: "cmd \<Rightarrow> ctx \<Rightarrow> world \<Rightarrow> world" where
  "issue k c w = w\<lparr>w_cmds := w_cmds w @ [k], w_clock := w_clock w + c_delay c (w_cmds w)\<rparr>"

definition run_cmd :: "cmd \<Rightarrow> string list act" where
  "run_cmd k c w =
     (case c_resp c (w_cmds w) k of
        Done out \<Rightarrow> (Inr out, issue k c w)
      | Failed e \<Rightarrow> (Inl (CommandError e), issue k c w)
      | Interrupted \<Rightarrow> (Inl Abort, issue k c w))"

text \<open>A command whose answer is not a list of lines.\<close>

definition query :: "cmd \<Rightarrow> (ctx \<Rightarrow> cmd list \<Rightarrow> 'a) \<Rightarrow> 'a act" where
  "query k f c w =
     (if c_resp c (w_cmds w) k = Interrupted then (Inl Abort, issue k c w)
      else (Inr (f c (w_cmds w)), issue k c w))"

definition sleep :: "nat \<Rightarrow> unit act" where
  "sleep n = put (\<lambda>w. w\<lparr>w_clock := w_clock w + n\<rparr>)"

definition lift_fs :: "(ctx \<Rightarrow> 'a io) \<Rightarrow> 'a act" where
  "lift_fs m c w =
     (case m c (c_fault c) (w_fs w) of
        (Inl e, s) \<Rightarrow> (Inl (FileError e), w\<lparr>w_fs := s\<rparr>)
      | (Inr x, s) \<Rightarrow> (Inr x, w\<lparr>w_fs := s\<rparr>))"

text \<open>
  \<open>except CommandError\<close>, \<open>except (CommandError, ValueError)\<close>, \<open>except (OSError,
  ComposeTagRewriteError)\<close> and \<open>contextlib.suppress(Exception)\<close>.
\<close>

definition catch_value :: "'a act \<Rightarrow> (lexc \<Rightarrow> 'a act) \<Rightarrow> 'a act" where
  "catch_value m h = io_catch m (\<lambda>e. case e of
     CommandError s \<Rightarrow> h e | ValueErr s \<Rightarrow> h e | _ \<Rightarrow> io_raise e)"

definition suppress :: "unit act \<Rightarrow> unit act" where
  "suppress m = io_catch m (\<lambda>_. io_ret ())"

definition catch_cmd :: "'a act \<Rightarrow> (string \<Rightarrow> 'a act) \<Rightarrow> 'a act" where
  "catch_cmd m h = io_catch m (\<lambda>e. case e of CommandError s \<Rightarrow> h s | _ \<Rightarrow> io_raise e)"

definition file_error :: "lexc \<Rightarrow> string option" where
  "file_error e =
     (case e of
        FileError (OSError s) \<Rightarrow> Some s
      | FileError (FileNotFound p) \<Rightarrow> Some ''No such file or directory''
      | FileError (ComposeTagRewriteError s) \<Rightarrow> Some s
      | _ \<Rightarrow> None)"

definition catch_file :: "'a act \<Rightarrow> (string \<Rightarrow> 'a act) \<Rightarrow> 'a act" where
  "catch_file m h = io_catch m (\<lambda>e. case file_error e of Some s \<Rightarrow> h s | None \<Rightarrow> io_raise e)"

text \<open>\<open>except OSError\<close>.\<close>

definition catch_os :: "'a act \<Rightarrow> (string \<Rightarrow> 'a act) \<Rightarrow> 'a act" where
  "catch_os m h = io_catch m (\<lambda>e. case e of
     FileError (OSError s) \<Rightarrow> h s
   | FileError (FileNotFound p) \<Rightarrow> h ''No such file or directory''
   | _ \<Rightarrow> io_raise e)"

definition only_if :: "bool \<Rightarrow> unit act \<Rightarrow> unit act" where
  "only_if b m = (if b then m else io_ret ())"

definition first_nonblank :: "string list \<Rightarrow> string" where
  "first_nonblank ls = first_nonempty ls"

definition try_cmd :: "cmd \<Rightarrow> string list act" where
  "try_cmd k = catch_cmd (run_cmd k) (\<lambda>_. io_ret [])"

definition ps_quiet_checked :: "string list option \<Rightarrow> bool \<Rightarrow> string list act" where
  "ps_quiet_checked services all_containers = run_cmd (Ps services all_containers)"

definition ps_quiet :: "string list option \<Rightarrow> string list act" where
  "ps_quiet services = try_cmd (Ps services False)"

definition image_id :: "string \<Rightarrow> string act" where
  "image_id img = io_bind (try_cmd (ImageInspect img ''id'')) (\<lambda>ls. io_ret (first_nonblank ls))"

definition image_digest :: "string \<Rightarrow> string act" where
  "image_digest img = io_bind (try_cmd (ImageInspect img ''digests'')) (\<lambda>ls. io_ret (first_nonblank ls))"

definition container_image_id :: "string \<Rightarrow> string act" where
  "container_image_id cid = io_bind (run_cmd (Inspect cid ''image'')) (\<lambda>ls. io_ret (first_nonblank ls))"

definition container_state_error :: "string \<Rightarrow> string act" where
  "container_state_error cid = io_bind (run_cmd (Inspect cid ''state-error'')) (\<lambda>ls. io_ret (first_nonblank ls))"

text \<open>The progress callback belongs to the caller and may raise.\<close>

definition progress :: "string \<Rightarrow> string \<Rightarrow> string list option \<Rightarrow> unit act" where
  "progress phase status services c w =
     (if c_callback_raises c (length (w_progress w)) then Inl Abort else Inr (),
      w\<lparr>w_progress := w_progress w @ [(phase, status, services)]\<rparr>)"

definition record_failure ::
  "compose_stack \<Rightarrow> match_t list \<Rightarrow> string \<Rightarrow> string \<Rightarrow> string list option \<Rightarrow> string option \<Rightarrow> string \<Rightarrow>
   string \<Rightarrow> unit act" where
  "record_failure stack matches phase reason services err health note =
     put (\<lambda>w. w\<lparr>w_failures := w_failures w @
       [\<lparr>fr_stack = stack, fr_services = services, fr_matches = matches, fr_phase = phase,
         fr_reason = reason, fr_command_error = err, fr_health_details = health, fr_note = note\<rparr>]\<rparr>)"

section \<open>Derived values of the update state\<close>

definition p_services :: "plan \<Rightarrow> string list option" where
  "p_services p = sc_services (p_scope p)"

definition p_pull_services :: "plan \<Rightarrow> string list option" where
  "p_pull_services p = sc_pull_services (p_scope p)"

definition p_stop_services :: "plan \<Rightarrow> string list option" where
  "p_stop_services p =
     (case sc_stop_services (p_scope p) of Some s \<Rightarrow> Some s | None \<Rightarrow> sc_services (p_scope p))"

definition running_stop_services :: "plan \<Rightarrow> string list" where
  "running_stop_services p =
     filter (\<lambda>s. s \<in> set (p_running p)) (case p_stop_services p of None \<Rightarrow> [] | Some s \<Rightarrow> s)"

definition compose_rewrite_applied :: "world \<Rightarrow> bool" where
  "compose_rewrite_applied w =
     (fs_written (w_fs w) \<noteq> [] \<or> w_applied_tags w \<noteq> [] \<or> w_applied_pins w \<noteq> [] \<or> w_applied_unpins w \<noteq> [])"

definition compose_name :: "compose_stack \<Rightarrow> string" where
  "compose_name st = cs_directory st @ ''/'' @ cs_file st"

record stop_result =
  sr_failed :: bool
  sr_error :: "string option"

definition no_stop :: stop_result where
  "no_stop = \<lparr>sr_failed = False, sr_error = None\<rparr>"

record up_result =
  ur_ok :: bool
  ur_wait_handled :: bool
  ur_error :: "string option"
  ur_health :: string

abbreviation up_ok :: "bool \<Rightarrow> up_result" where
  "up_ok wait \<equiv> \<lparr>ur_ok = True, ur_wait_handled = wait, ur_error = None, ur_health = ''''\<rparr>"

section \<open>Reasoning\<close>

named_theorems act_holds "one equation per primitive"

lemma holds_ask [act_holds]: "holds (ask f) c w Q = Q (Inr (f c)) w"
  by (simp add: holds_def ask_def)

lemma holds_get [act_holds]: "holds (get f) c w Q = Q (Inr (f w)) w"
  by (simp add: holds_def get_def)

lemma holds_put [act_holds]: "holds (put g) c w Q = Q (Inr ()) (g w)"
  by (simp add: holds_def put_def)

lemma holds_opt [act_holds]: "holds (opt f) c w Q = Q (Inr (f (c_opts c))) w"
  by (simp add: holds_def opt_def ask_def)

lemma holds_sleep [act_holds]: "holds (sleep n) c w Q = Q (Inr ()) (w\<lparr>w_clock := w_clock w + n\<rparr>)"
  by (simp add: sleep_def holds_put)

lemma holds_progress [act_holds]:
  "holds (progress a b s) c w Q =
     Q (if c_callback_raises c (length (w_progress w)) then Inl Abort else Inr ())
       (w\<lparr>w_progress := w_progress w @ [(a, b, s)]\<rparr>)"
  by (simp add: progress_def holds_def)

lemma holds_lift_fs [act_holds]:
  "holds (lift_fs m) c w Q = holds (m c) (c_fault c) (w_fs w)
     (\<lambda>r s. case r of Inl e \<Rightarrow> Q (Inl (FileError e)) (w\<lparr>w_fs := s\<rparr>) | Inr x \<Rightarrow> Q (Inr x) (w\<lparr>w_fs := s\<rparr>))"
  by (auto simp: holds_def lift_fs_def split: prod.splits sum.splits)

lemma holds_run_cmd [act_holds]:
  "holds (run_cmd k) c w Q = (case c_resp c (w_cmds w) k of
     Done out \<Rightarrow> Q (Inr out) (issue k c w)
   | Failed e \<Rightarrow> Q (Inl (CommandError e)) (issue k c w)
   | Interrupted \<Rightarrow> Q (Inl Abort) (issue k c w))"
  by (auto simp: holds_def run_cmd_def split: resp.splits)

lemma holds_query [act_holds]:
  "holds (query k f) c w Q = (if c_resp c (w_cmds w) k = Interrupted then Q (Inl Abort) (issue k c w)
     else Q (Inr (f c (w_cmds w))) (issue k c w))"
  by (simp add: holds_def query_def)

end
