(* ===== verification/Lifecycle_Scope.thy ===== *)
theory Lifecycle_Scope
  imports Lifecycle_State
begin

text \<open>
  \<open>src/src/wudup/updater_lifecycle_scope.py\<close>, what a stack update pulls, stops and recreates, and
  the registry checks of \<open>src/src/wudup/updater_lifecycle_digest.py\<close>. \<open>strict\<close> lookups raise where
  the others return nothing.
\<close>

section \<open>The scope of an update\<close>

definition RECREATE_STACK_LABEL :: string where
  "RECREATE_STACK_LABEL = ''WUD-UPDATER-RECREATE-STACK''"

definition RECREATE_STACK_LABEL_FORMAT :: string where
  "RECREATE_STACK_LABEL_FORMAT = ''{{ index .Config.Labels \"WUD-UPDATER-RECREATE-STACK\" }}''"

definition runtime_services_for_scope :: "update_scope \<Rightarrow> string list" where
  "runtime_services_for_scope scope =
     ordered_unique
       (case sc_services scope of
          Some services \<Rightarrow> services
        | None \<Rightarrow> (case sc_stop_services scope of Some services \<Rightarrow> rev services | None \<Rightarrow> []))"

definition ps_lookup :: "bool \<Rightarrow> string list \<Rightarrow> string list act" where
  "ps_lookup strict services =
     (if strict then ps_quiet_checked (Some services) False else ps_quiet (Some services))"

fun missing_providers_from ::
  "bool \<Rightarrow> (string \<times> string) list \<Rightarrow> string list \<Rightarrow> string list \<Rightarrow> string list \<Rightarrow> string list act" where
  "missing_providers_from strict providers services missing [] = io_ret missing"
| "missing_providers_from strict providers services missing (s # ss) =
     (let provider = dict_get providers s ''''
      in if provider = '''' \<or> provider \<in> set services \<or> provider \<in> set missing
         then missing_providers_from strict providers services missing ss
         else io_bind (ps_lookup strict [provider]) (\<lambda>cids.
              missing_providers_from strict providers services
                (if cids = [] then missing @ [provider] else missing) ss))"

definition missing_network_mode_providers ::
  "bool \<Rightarrow> string list \<Rightarrow> (string \<times> string) list \<Rightarrow> string list act" where
  "missing_network_mode_providers strict services providers =
     missing_providers_from strict providers services [] services"

definition stack_stop_services :: "bool \<Rightarrow> string list option act" where
  "stack_stop_services strict =
     io_bind
       (if strict then io_bind (run_cmd ConfigServices) (\<lambda>ss. io_ret (Some ss))
        else catch_cmd (io_bind (run_cmd ConfigServices) (\<lambda>ss. io_ret (Some ss))) (\<lambda>_. io_ret None))
       (\<lambda>found. case found of
          None \<Rightarrow> io_ret None
        | Some [] \<Rightarrow> if strict then io_raise (ValueErr ''Compose service discovery returned no services'')
                    else io_ret None
        | Some services \<Rightarrow> io_ret (Some (rev services)))"

fun label_cid_from :: "bool \<Rightarrow> string list \<Rightarrow> string act" where
  "label_cid_from strict [] = io_ret ''''"
| "label_cid_from strict (cid # cids) =
     io_bind (if strict then run_cmd (Inspect cid RECREATE_STACK_LABEL_FORMAT)
              else try_cmd (Inspect cid RECREATE_STACK_LABEL_FORMAT)) (\<lambda>values.
       if \<exists>v \<in> set values. label_value_is_true v then io_ret cid else label_cid_from strict cids)"

definition stack_recreate_label_cid :: "bool \<Rightarrow> string list \<Rightarrow> string act" where
  "stack_recreate_label_cid strict services =
     io_bind (ps_lookup strict services) (\<lambda>cids. label_cid_from strict cids)"

definition scope_of_services :: "bool \<Rightarrow> compose_stack \<Rightarrow> string list \<Rightarrow> update_scope act" where
  "scope_of_services strict stack services =
     (let providers = network_mode_providers (cs_service_images stack);
          expanded = expand_network_mode_services services providers
      in io_bind (missing_network_mode_providers strict services providers) (\<lambda>missing.
         let lifecycle = (if missing \<noteq> [] then ordered_unique (missing @ fst expanded) else fst expanded);
             uses = (missing \<noteq> [] \<or> snd expanded);
             stop = (if missing \<noteq> [] then services else if uses then rev lifecycle else lifecycle)
         in io_bind (stack_recreate_label_cid strict lifecycle) (\<lambda>cid.
            if cid \<noteq> ''''
            then io_bind (stack_stop_services strict) (\<lambda>all.
                 io_ret \<lparr>sc_services = None, sc_pull_services = Some services,
                   sc_stack_reason = ''selected service scope container '' @ cid @ '' has ''
                     @ RECREATE_STACK_LABEL @ ''=true'',
                   sc_stop_services = all, sc_force_recreate = False, sc_up_no_deps = False\<rparr>)
            else io_ret \<lparr>sc_services = Some lifecycle, sc_pull_services = Some services,
                   sc_stack_reason = '''', sc_stop_services = Some stop, sc_force_recreate = False,
                   sc_up_no_deps = \<not> uses\<rparr>)))"

definition update_scope_of :: "compose_stack \<Rightarrow> match_t list \<Rightarrow> bool \<Rightarrow> update_scope act" where
  "update_scope_of stack matches strict =
     io_bind (ask (\<lambda>c. if strict then None else c_verified_scopes c (cs_index stack, update_services matches)))
       (\<lambda>verified. case verified of
          Some scope \<Rightarrow> io_ret scope
        | None \<Rightarrow>
            (case update_services matches of
               None \<Rightarrow> io_bind (stack_stop_services strict) (\<lambda>all.
                 io_ret \<lparr>sc_services = None, sc_pull_services = None, sc_stack_reason = '''',
                   sc_stop_services = all, sc_force_recreate = True, sc_up_no_deps = False\<rparr>)
             | Some services \<Rightarrow> scope_of_services strict stack services))"

section \<open>Digest checks\<close>

definition verify_tag_digest :: "string \<Rightarrow> string \<Rightarrow> verify_result act" where
  "verify_tag_digest img expected =
     query (VerifyTag img expected) (\<lambda>c h. c_verify_tag c h img expected)"

definition verify_digest :: "string \<Rightarrow> string \<Rightarrow> verify_result act" where
  "verify_digest img expected = query (Verify img expected) (\<lambda>c h. c_verify c h img expected)"

definition add_viable :: "requirement_key \<Rightarrow> requirement_outcomes \<Rightarrow> requirement_outcomes" where
  "add_viable k r = r\<lparr>ro_viable := insert k (ro_viable r)\<rparr>"

definition add_failed :: "requirement_key \<Rightarrow> requirement_outcomes \<Rightarrow> requirement_outcomes" where
  "add_failed k r = r\<lparr>ro_failed := insert k (ro_failed r)\<rparr>"

definition add_stale :: "requirement_key \<Rightarrow> requirement_outcomes \<Rightarrow> requirement_outcomes" where
  "add_stale k r = r\<lparr>ro_stale := insert k (ro_stale r)\<rparr>"

definition mark_pre :: "(requirement_outcomes \<Rightarrow> requirement_outcomes) \<Rightarrow> unit act" where
  "mark_pre f = put (\<lambda>w. w\<lparr>w_pre := f (w_pre w)\<rparr>)"

definition mark_exp :: "(requirement_outcomes \<Rightarrow> requirement_outcomes) \<Rightarrow> unit act" where
  "mark_exp f = put (\<lambda>w. w\<lparr>w_exp := f (w_exp w)\<rparr>)"

fun preflight_requirements ::
  "nat \<Rightarrow> (nat \<times> string \<times> string \<times> string) list \<Rightarrow> bool \<Rightarrow> bool act" where
  "preflight_requirements idx [] ok = io_ret ok"
| "preflight_requirements idx ((line_no, target, img, expected) # rs) ok =
     io_bind (verify_tag_digest img expected) (\<lambda>r.
       if vr_ok r
       then io_bind (mark_pre (add_viable (idx, line_no, img))) (\<lambda>_. preflight_requirements idx rs ok)
       else if vr_reason r = ''manifest-integrity-mismatch''
       then io_bind (mark_pre (add_failed (idx, line_no, img))) (\<lambda>_. preflight_requirements idx rs False)
       else if vr_reason r \<noteq> ''stale-digest''
       then io_bind (mark_pre (add_viable (idx, line_no, img))) (\<lambda>_. preflight_requirements idx rs ok)
       else io_bind (mark_pre (add_stale (idx, line_no, img))) (\<lambda>_. preflight_requirements idx rs False))"

definition preflight_expected_digests :: "compose_stack \<Rightarrow> match_t list \<Rightarrow> bool act" where
  "preflight_expected_digests stack matches =
     preflight_requirements (cs_index stack) (digest_requirements matches) True"

definition verify_expected_digest_requirement ::
  "nat \<Rightarrow> nat \<times> string \<times> string \<times> string \<Rightarrow> bool act" where
  "verify_expected_digest_requirement idx req =
     (case req of (line_no, target, img, expected) \<Rightarrow>
        io_bind (verify_digest img expected) (\<lambda>r.
          if vr_status r = ''untrusted'' \<or> vr_ok r
          then io_bind (mark_exp (add_viable (idx, line_no, img))) (\<lambda>_. io_ret True)
          else io_bind (only_if (vr_reason r = ''stale-digest'') (mark_exp (add_stale (idx, line_no, img)))) (\<lambda>_.
               io_bind (mark_exp (add_failed (idx, line_no, img))) (\<lambda>_. io_ret False))))"

fun verify_requirements :: "nat \<Rightarrow> (nat \<times> string \<times> string \<times> string) list \<Rightarrow> bool \<Rightarrow> bool act" where
  "verify_requirements idx [] ok = io_ret ok"
| "verify_requirements idx (r # rs) ok =
     io_bind (verify_expected_digest_requirement idx r) (\<lambda>this. verify_requirements idx rs (ok \<and> this))"

definition verify_expected_digests :: "compose_stack \<Rightarrow> match_t list \<Rightarrow> bool act" where
  "verify_expected_digests stack matches =
     verify_requirements (cs_index stack) (digest_requirements matches) True"

definition expected_digest_failure_reason :: "match_t list \<Rightarrow> requirement_outcomes \<Rightarrow> string" where
  "expected_digest_failure_reason matches o' =
     (let failed = set (map expected_digest_key matches) \<inter> ro_failed o'
      in if failed \<noteq> {} \<and> failed \<subseteq> ro_stale o' then STALE_PENDING_DIGEST_REASON
         else ''expected-digest-not-reached'')"

text \<open>The last result for the images of a pin, and whether one of them matched.\<close>

fun verify_digest_pin_images ::
  "digest_pin_update \<Rightarrow> string list \<Rightarrow> verify_result option \<times> bool \<Rightarrow> (verify_result option \<times> bool) act" where
  "verify_digest_pin_images u [] acc = io_ret acc"
| "verify_digest_pin_images u (img # imgs) acc =
     (if \<not> image_matches_resolved_target img (dp_resolved_image u) False
      then verify_digest_pin_images u imgs acc
      else io_bind (verify_digest img (dp_planned_digest u)) (\<lambda>r.
           if vr_ok r \<or> vr_reason r = ''manifest-integrity-mismatch'' then io_ret (Some r, True)
           else verify_digest_pin_images u imgs (Some r, True)))"

definition verify_digest_pin_update :: "string list \<Rightarrow> digest_pin_update \<Rightarrow> bool act" where
  "verify_digest_pin_update imgs u =
     io_bind (verify_tag_digest (dp_resolved_image u) (dp_planned_digest u)) (\<lambda>current.
       if \<not> vr_ok current then io_ret False
       else io_bind (verify_digest_pin_images u imgs (None, False)) (\<lambda>(res, matched).
            io_ret (case res of Some r \<Rightarrow> vr_ok r | None \<Rightarrow> False)))"

fun verify_pin_updates :: "string list \<Rightarrow> digest_pin_update list \<Rightarrow> bool \<Rightarrow> bool act" where
  "verify_pin_updates imgs [] ok = io_ret ok"
| "verify_pin_updates imgs (u # us) ok =
     io_bind (verify_digest_pin_update imgs u) (\<lambda>this. verify_pin_updates imgs us (ok \<and> this))"

definition verify_digest_pin_updates :: "digest_pin_update list \<Rightarrow> string list \<Rightarrow> bool act" where
  "verify_digest_pin_updates us imgs = verify_pin_updates imgs us True"

end
