(* ===== verification/Lifecycle_Health.thy ===== *)
theory Lifecycle_Health
  imports Lifecycle_State
begin

text \<open>
  \<open>src/src/wudup/updater_lifecycle_health.py\<close>: bringing services up, the health gate and its
  wait loop, and comparing containers with the pulled images.
\<close>

section \<open>Container state\<close>

definition CONTAINER_SUMMARY_FORMAT :: string where
  "CONTAINER_SUMMARY_FORMAT = ''{{.Name}}|{{.State.Status}}|{{if .State.Health}}{{.State.Health.Status}}{{else}}none{{end}}|{{.RestartCount}}|{{.State.ExitCode}}''"

definition HEALTH_LOG_FORMAT :: string where
  "HEALTH_LOG_FORMAT = ''{{if .State.Health}}{{range .State.Health.Log}}{{println .Output}}{{end}}{{end}}''"

definition ALL_SERVICES_LOOKUP :: string where
  "ALL_SERVICES_LOOKUP = ''(all services)''"

definition split_summary :: "string \<Rightarrow> string list" where
  "split_summary summary =
     (let parts = splitn (CHR ''|'') 4 summary
      in take 5 (parts @ replicate (5 - length parts) ''''))"

definition cid_is_ok :: "string \<Rightarrow> bool" where
  "cid_is_ok summary =
     (case split_summary summary of
        [name, status, health, restarts, exit_code] \<Rightarrow>
          if health \<noteq> ''none'' then health = ''healthy'' else status = ''running''
      | _ \<Rightarrow> False)"

definition cid_summary :: "string \<Rightarrow> string act" where
  "cid_summary cid =
     io_bind (try_cmd (Inspect cid CONTAINER_SUMMARY_FORMAT))
       (\<lambda>ls. io_ret (case ls of [] \<Rightarrow> '''' | l # _ \<Rightarrow> l))"

text \<open>\<open>running_service_containers\<close>: container ids, services without one, failed lookups.\<close>

type_synonym container_lookup = "string list \<times> string list \<times> string list"

fun lookup_services :: "string list \<Rightarrow> container_lookup \<Rightarrow> container_lookup act" where
  "lookup_services [] acc = io_ret acc"
| "lookup_services (service # services) (cids, missing, failed) =
     io_bind
       (catch_cmd (io_bind (ps_quiet_checked (Some [service]) False) (\<lambda>ls. io_ret (Some ls)))
          (\<lambda>_. io_ret None))
       (\<lambda>found. lookup_services services
          (case found of
             None \<Rightarrow> (cids, missing, failed @ [service])
           | Some ls \<Rightarrow> (foldl (\<lambda>acc cid. if cid \<in> set acc then acc else acc @ [cid]) cids ls,
                         if ls = [] then missing @ [service] else missing, failed)))"

definition running_service_containers :: "string list option \<Rightarrow> container_lookup act" where
  "running_service_containers services =
     (case services of
        Some (s # ss) \<Rightarrow> lookup_services (nub (s # ss)) ([], [], [])
      | _ \<Rightarrow> catch_cmd
          (io_bind (ps_quiet_checked services False) (\<lambda>cids. io_ret (cids, [], [])))
          (\<lambda>_. io_ret ([], [], [ALL_SERVICES_LOOKUP])))"

fun summaries_of :: "string list \<Rightarrow> string list act" where
  "summaries_of [] = io_ret []"
| "summaries_of (cid # cids) =
     io_bind (cid_summary cid) (\<lambda>s. io_bind (summaries_of cids) (\<lambda>ss. io_ret (s # ss)))"

definition gate_passed :: "string list \<Rightarrow> string list \<Rightarrow> string list \<Rightarrow> string list \<Rightarrow> bool" where
  "gate_passed cids missing failed summaries =
     (cids \<noteq> [] \<and> missing = [] \<and> failed = [] \<and> list_all (\<lambda>t. t \<noteq> '''' \<and> cid_is_ok t) summaries)"

definition health_gate_passed :: "container_lookup \<Rightarrow> bool act" where
  "health_gate_passed l =
     (case l of (cids, missing, failed) \<Rightarrow>
        io_bind (summaries_of cids) (\<lambda>ss. io_ret (gate_passed cids missing failed ss)))"

section \<open>Failure reports\<close>

fun health_lines :: "(string \<Rightarrow> string) \<Rightarrow> string list \<Rightarrow> string list act" where
  "health_lines sanitize [] = io_ret []"
| "health_lines sanitize (cid # cids) =
     io_bind (cid_summary cid) (\<lambda>summary.
     io_bind
       (if summary = '''' then io_ret [''health: container='' @ cid @ '' inspect returned no state'']
        else io_bind (try_cmd (Inspect cid HEALTH_LOG_FORMAT)) (\<lambda>outs.
          case split_summary summary of
            [name0, status, health, restarts, exit_code] \<Rightarrow>
              let name = dropWhile (\<lambda>c. c = CHR ''/'') name0
              in io_ret ((''health: container='' @ name @ '' status='' @ status @ '' health='' @ health
                    @ '' restarts='' @ restarts @ '' exit_code='' @ exit_code)
                  # map (\<lambda>o'. ''health_output['' @ name @ '']: '' @ o')
                      (filter (\<lambda>o'. o' \<noteq> '''') (map sanitize outs)))
          | _ \<Rightarrow> io_ret []))
       (\<lambda>ls. io_bind (health_lines sanitize cids) (\<lambda>rest. io_ret (ls @ rest))))"

definition capture_health_details :: "string list option \<Rightarrow> bool \<Rightarrow> string act" where
  "capture_health_details services report_missing =
     io_bind (ask c_sanitize) (\<lambda>sanitize.
     io_bind (if report_missing then running_service_containers services
              else io_bind (ps_quiet services) (\<lambda>cids. io_ret (cids, [], [])))
       (\<lambda>(cids, missing, failed).
         if cids = [] \<and> missing = [] \<and> failed = []
         then io_ret (''health: docker compose ps -q returned no containers'' @ [CHR 0x0A])
         else io_bind (health_lines sanitize cids) (\<lambda>ls.
           io_ret (join_with [CHR 0x0A]
             (map (\<lambda>s. ''health: service='' @ s @ '' container lookup failed (docker compose ps returned an error)'') failed
              @ map (\<lambda>s. ''health: service='' @ s @ '' has no running container'') missing @ ls)
             @ [CHR 0x0A]))))"

section \<open>Waiting for health\<close>

definition health_probe :: "string list option \<Rightarrow> bool act" where
  "health_probe services = io_bind (running_service_containers services) health_gate_passed"

text \<open>Time never runs backwards: every command may take time, nothing takes any back.\<close>

definition later :: "world \<Rightarrow> world \<Rightarrow> bool" where
  "later w w' = (w_clock w \<le> w_clock w')"

lemma later_issue [simp]: "w_clock w \<le> w_clock (issue k c w)"
  by (simp add: issue_def)

lemma ps_later: "holds (ps_quiet_checked s a) c w (\<lambda>r w'. later w w')"
  by (simp add: ps_quiet_checked_def act_holds later_def split: resp.splits)

lemma try_later: "holds (try_cmd k) c w (\<lambda>r w'. later w w')"
  by (simp add: try_cmd_def catch_cmd_def act_holds io_holds later_def split: resp.splits)

lemma later_trans: "later w w' \<Longrightarrow> later w' w'' \<Longrightarrow> later w w''"
  by (simp add: later_def)

lemma later_bind:
  assumes "holds m c w (\<lambda>r w'. later w w')" and "\<And>x w'. holds (f x) c w' (\<lambda>r w''. later w' w'')"
  shows "holds (io_bind m f) c w (\<lambda>r w'. later w w')"
proof (rule holds_bindI [OF assms(1)])
  fix x w' assume "later w w'"
  then show "holds (f x) c w' (\<lambda>r w''. later w w'')"
    by (intro holds_mono [OF assms(2)]) (rule later_trans)
qed

lemma later_catch:
  assumes "holds m c w (\<lambda>r w'. later w w')" and "\<And>e w'. holds (h e) c w' (\<lambda>r w''. later w' w'')"
  shows "holds (io_catch m h) c w (\<lambda>r w'. later w w')"
proof -
  have "case r of Inl e \<Rightarrow> holds (h e) c w' (\<lambda>r w''. later w w'') | Inr x \<Rightarrow> later w w'" if "later w w'" for r w'
    using that by (cases r) (auto intro: holds_mono [OF assms(2)] later_trans)
  then show ?thesis unfolding holds_catch by (intro holds_mono [OF assms(1)]) auto
qed

lemma later_ret: "holds (io_ret x) c w (\<lambda>r w'. later w w')"
  by (simp add: holds_ret later_def)

lemma later_raise: "holds (io_raise e) c w (\<lambda>r w'. later w w')"
  by (simp add: holds_raise later_def)

lemmas later_rules = later_bind later_catch later_ret later_raise ps_later try_later

lemma later_catch_cmd:
  "holds m c w (\<lambda>r w'. later w w') \<Longrightarrow> (\<And>s w'. holds (h s) c w' (\<lambda>r w''. later w' w'')) \<Longrightarrow>
   holds (catch_cmd m h) c w (\<lambda>r w'. later w w')"
  unfolding catch_cmd_def by (rule later_catch) (auto intro: later_raise split: lexc.splits)

lemma lookup_later: "holds (lookup_services ss acc) c w (\<lambda>r w'. later w w')"
proof (induction ss acc arbitrary: w rule: lookup_services.induct)
  case (2 s ss cids missing failed)
  show ?case
    unfolding lookup_services.simps
    by (rule later_bind) (intro later_catch_cmd later_rules, auto intro: 2)
qed (simp add: later_ret)

lemma summaries_later: "holds (summaries_of cids) c w (\<lambda>r w'. later w w')"
  by (induction cids arbitrary: w) (auto simp: cid_summary_def intro!: later_rules)

lemma probe_later: "holds (health_probe services) c w (\<lambda>r w'. later w w')"
  unfolding health_probe_def running_service_containers_def health_gate_passed_def
  by (rule later_bind; (auto split: option.splits list.splits prod.splits)?)
    (auto intro!: later_catch_cmd later_rules lookup_later summaries_later)

text \<open>
  The \<open>while True\<close> of \<open>_wait_for_health\<close>. \<open>start\<close> is the clock when it began; between two probes
  it sleeps two seconds, so it ends by \<open>max_wait\<close> at the latest.
\<close>

function wait_loop :: "string list option \<Rightarrow> nat \<Rightarrow> nat \<Rightarrow> bool act" where
  "wait_loop services max_wait start c w =
     (case health_probe services c w of
        (Inl e, w1) \<Rightarrow> (Inl e, w1)
      | (Inr ok, w1) \<Rightarrow>
          if ok then io_bind (progress ''health'' ''success'' services) (\<lambda>_. io_ret True) c w1
          else if w_clock w1 - start \<ge> max_wait
          then io_bind (capture_health_details services True) (\<lambda>_.
               io_bind (progress ''health'' ''failure'' services) (\<lambda>_. io_ret False)) c w1
          else wait_loop services max_wait start c (w1\<lparr>w_clock := w_clock w1 + 2\<rparr>))"
  by pat_completeness auto
termination
proof (relation "measure (\<lambda>(services, max_wait, start, c, w). start + max_wait + 1 - w_clock w)", goal_cases)
  case (2 services max_wait start c w r w1 ok)
  from 2 have run: "health_probe services c w = (Inr ok, w1)" by simp
  have "later w w1" by (rule holds_run [OF run probe_later])
  then show ?case using 2 by (simp add: later_def)
qed simp

declare wait_loop.simps [simp del]

definition wait_for_health :: "string list option \<Rightarrow> bool act" where
  "wait_for_health services =
     io_bind (opt op_max_wait) (\<lambda>max_wait.
     io_bind (get w_clock) (\<lambda>start.
     io_bind (progress ''health'' ''running'' services) (\<lambda>_.
     io_bind (only_if (max_wait > 0) (sleep 2)) (\<lambda>_.
     wait_loop services max_wait start))))"

section \<open>Bringing services up\<close>

definition remove_orphans :: "compose_stack \<Rightarrow> bool act" where
  "remove_orphans stack = get (\<lambda>w. cs_index stack \<notin> w_keep_orphans w)"

definition restore_services_stopped :: "string list \<Rightarrow> unit act" where
  "restore_services_stopped services =
     catch_cmd (io_bind (run_cmd (Stop services)) (\<lambda>_. io_ret ())) (\<lambda>_. io_ret ())"

definition up_failed :: "bool \<Rightarrow> string option \<Rightarrow> string \<Rightarrow> up_result" where
  "up_failed wait err health = \<lparr>ur_ok = False, ur_wait_handled = wait, ur_error = err, ur_health = health\<rparr>"

definition verify_services_stopped :: "string list \<Rightarrow> up_result act" where
  "verify_services_stopped services =
     io_bind (catch_cmd (io_bind (ps_quiet_checked (Some services) False) (\<lambda>cids. io_ret (Inr cids)))
                (\<lambda>e. io_ret (Inl e)))
       (\<lambda>r. case r of
          Inl e \<Rightarrow> io_bind (restore_services_stopped services) (\<lambda>_. io_ret (up_failed False (Some e) ''''))
        | Inr cids \<Rightarrow>
            if cids \<noteq> []
            then io_bind (restore_services_stopped services) (\<lambda>_. io_ret (up_failed False None ''''))
            else io_ret (up_ok False))"

definition run_compose_up_no_start :: "compose_stack \<Rightarrow> string list \<Rightarrow> bool \<Rightarrow> up_result act" where
  "run_compose_up_no_start stack services force_recreate =
     io_bind (remove_orphans stack) (\<lambda>orphans.
     io_bind (catch_cmd
         (io_bind (run_cmd (Up services False force_recreate True True orphans)) (\<lambda>_. io_ret None))
         (\<lambda>e. io_ret (Some e)))
       (\<lambda>err. case err of
          Some e \<Rightarrow> io_ret (up_failed False (Some e) '''')
        | None \<Rightarrow> verify_services_stopped services))"

definition up_wait_supported :: "bool act" where
  "up_wait_supported = io_bind (try_cmd WaitSupported) (\<lambda>ls. io_ret (ls \<noteq> []))"

definition run_compose_up :: "compose_stack \<Rightarrow> string list \<Rightarrow> bool \<Rightarrow> bool \<Rightarrow> up_result act" where
  "run_compose_up stack services force_recreate no_deps =
     io_bind (opt op_mode) (\<lambda>mode.
     io_bind (if mode \<noteq> ''pause'' then up_wait_supported else io_ret False) (\<lambda>native.
     io_bind (remove_orphans stack) (\<lambda>orphans.
     catch_cmd
       (io_bind (run_cmd (Up services native force_recreate no_deps False orphans))
          (\<lambda>_. io_ret (up_ok native)))
       (\<lambda>e. io_bind (capture_health_details (Some services) False)
          (\<lambda>details. io_ret (up_failed native (Some e) details))))))"

section \<open>Images\<close>

fun image_state_from ::
  "(string \<times> image_state) list \<Rightarrow> string list \<Rightarrow> (string \<times> image_state) list act" where
  "image_state_from d [] = io_ret d"
| "image_state_from d (img # imgs) =
     (if img = '''' then image_state_from d imgs
      else io_bind (image_id img) (\<lambda>i.
           io_bind (image_digest img) (\<lambda>dg.
             image_state_from (AList.update img \<lparr>is_image_id = i, is_digest = dg\<rparr> d) imgs)))"

definition image_state_of :: "string list \<Rightarrow> (string \<times> image_state) list act" where
  "image_state_of imgs = image_state_from [] imgs"

text \<open>The loop of \<open>_compare_container_images\<close> inspects containers one by one.\<close>

fun compare_container_images :: "string list \<Rightarrow> string \<Rightarrow> string \<Rightarrow> (string \<times> bool) act" where
  "compare_container_images [] pulled_id lagging = io_ret (lagging, False)"
| "compare_container_images (cid # cids) pulled_id lagging =
     io_bind (container_image_id cid) (\<lambda>img_id.
       if img_id = '''' then io_ret (lagging, True)
       else compare_container_images cids pulled_id
              (if img_id \<noteq> pulled_id \<and> lagging = '''' then img_id else lagging))"

record image_check =
  ic_behind :: "(string \<times> (string \<times> string)) list"
  ic_unverified :: "string list"
  ic_error :: "string option"
  ic_missing :: "string list"

definition no_check :: image_check where
  "no_check = \<lparr>ic_behind = [], ic_unverified = [], ic_error = None, ic_missing = []\<rparr>"

datatype service_check = CheckFailed string | NoContainer | Compared string bool

definition check_service_images :: "string \<Rightarrow> string \<Rightarrow> service_check act" where
  "check_service_images service pulled_id =
     catch_cmd
       (io_bind (ps_quiet_checked (Some [service]) True) (\<lambda>cids.
          if cids = [] then io_ret NoContainer
          else io_bind (compare_container_images cids pulled_id '''') (\<lambda>(l, u). io_ret (Compared l u))))
       (\<lambda>e. io_ret (CheckFailed e))"

definition add_check :: "string \<Rightarrow> string \<Rightarrow> service_check \<Rightarrow> image_check \<Rightarrow> image_check" where
  "add_check service img r ic =
     (case r of
        CheckFailed e \<Rightarrow> ic\<lparr>ic_unverified := ic_unverified ic @ [service],
            ic_error := (case ic_error ic of None \<Rightarrow> Some e | Some e0 \<Rightarrow> Some e0)\<rparr>
      | NoContainer \<Rightarrow> ic\<lparr>ic_missing := ic_missing ic @ [service]\<rparr>
      | Compared lagging unreadable \<Rightarrow>
          (let ic1 = (if lagging \<noteq> '''' then ic\<lparr>ic_behind := AList.update service (img, lagging) (ic_behind ic)\<rparr> else ic)
           in if unreadable then ic1\<lparr>ic_unverified := ic_unverified ic1 @ [service]\<rparr> else ic1))"

fun check_images_loop ::
  "(string \<rightharpoonup> (string \<times> string)) \<Rightarrow> string list \<Rightarrow> image_check \<Rightarrow> image_check act" where
  "check_images_loop pulled [] ic = io_ret ic"
| "check_images_loop pulled (service # services) ic =
     (case pulled service of
        None \<Rightarrow> check_images_loop pulled services ic
      | Some (img, pulled_id) \<Rightarrow>
          io_bind (check_service_images service pulled_id) (\<lambda>r.
            check_images_loop pulled services (add_check service img r ic)))"

definition pulled_ids :: "compose_stack \<Rightarrow> (string \<times> image_state) list \<Rightarrow> string \<Rightarrow> (string \<times> string) option" where
  "pulled_ids stack after =
     map_of (rev (List.map_filter (\<lambda>i. case map_of after (si_image i) of
         None \<Rightarrow> None
       | Some st \<Rightarrow> if is_image_id st = '''' then None
                    else Some (si_service i, (si_image i, is_image_id st))) (cs_service_images stack)))"

definition check_container_images ::
  "compose_stack \<Rightarrow> string list \<Rightarrow> (string \<times> image_state) list \<Rightarrow> image_check act" where
  "check_container_images stack services after = check_images_loop (pulled_ids stack after) services no_check"

text \<open>
  \<open>_updated_images\<close>: an image of the old state is paired with the new one by name, by image id
  or by repository, the last two only when unambiguous.
\<close>

definition unique_entries ::
  "((string \<times> image_state) \<Rightarrow> string) \<Rightarrow> (string \<times> image_state) list \<Rightarrow>
   (string \<times> (string \<times> image_state) option) list" where
  "unique_entries key after =
     foldl (\<lambda>d e. AList.update (key e) (if map_of d (key e) = None then Some e else None) d) [] after"

definition new_state_of ::
  "(string \<times> image_state) list \<Rightarrow> string \<times> image_state \<Rightarrow> (string \<times> image_state) option" where
  "new_state_of after old =
     (let by_id = unique_entries (\<lambda>e. is_image_id (snd e)) (filter (\<lambda>e. is_image_id (snd e) \<noteq> '''') after);
          by_repo = unique_entries (\<lambda>e. image_repo_ref (fst e)) after;
          direct = map_option (\<lambda>s. (fst old, s)) (map_of after (fst old));
          second = (if direct = None \<and> is_image_id (snd old) \<noteq> ''''
                    then (case map_of by_id (is_image_id (snd old)) of Some r \<Rightarrow> r | None \<Rightarrow> None)
                    else direct)
      in if second = None
         then (case map_of by_repo (image_repo_ref (fst old)) of Some r \<Rightarrow> r | None \<Rightarrow> None)
         else second)"

definition updated_images ::
  "(string \<times> image_state) list \<Rightarrow> (string \<times> image_state) list \<Rightarrow> (string \<times> image_state) list" where
  "updated_images prior after =
     List.map_filter (\<lambda>old. case new_state_of after old of
         None \<Rightarrow> None
       | Some (new_image, new) \<Rightarrow>
           if is_image_id new \<noteq> '''' \<and> (is_image_id (snd old) \<noteq> is_image_id new \<or> fst old \<noteq> new_image)
           then Some (fst old, new) else None) prior"

end
