(* ===== verification/Lifecycle_Rewrite.thy ===== *)
theory Lifecycle_Rewrite
  imports Lifecycle_Health
begin

text \<open>
  \<open>src/src/wudup/updater_lifecycle_rewrite.py\<close>: applying the planned changes to the Compose
  file, and taking them back when a later step fails. The three \<open>apply_compose_*\<close> drivers are
  those of \<open>compose_rewrite.py\<close>; what they render is a parameter.
\<close>

section \<open>Writing the Compose file\<close>

definition p_file :: "plan \<Rightarrow> path" where
  "p_file p = Named (compose_name (p_stack p))"

definition lift_rendered :: "(lexc + 'a) \<Rightarrow> 'a act" where
  "lift_rendered r = (case r of Inl e \<Rightarrow> io_raise e | Inr x \<Rightarrow> io_ret x)"

definition replace_compose :: "plan \<Rightarrow> string \<Rightarrow> string \<Rightarrow> string \<Rightarrow> bool act" where
  "replace_compose p rendered pfx expected =
     lift_fs (\<lambda>c. atomic_replace_compose (c_sha c) (c_unsup c) (p_file p) rendered pfx (Some expected) True)"

definition apply_compose_tag_updates ::
  "plan \<Rightarrow> tag_update list \<Rightarrow> tag_stream_update list \<Rightarrow> string \<Rightarrow> applied_tag_update list act" where
  "apply_compose_tag_updates p updates streams expected =
     (if updates = [] then io_ret []
      else io_bind (lift_fs (\<lambda>c. read_text (p_file p))) (\<lambda>src.
           io_bind (ask c_render_tags) (\<lambda>render.
           io_bind (lift_rendered (render updates streams src)) (\<lambda>(rendered, applied).
             if streams = [] \<and> (\<exists>a \<in> set applied. at_replacements a < 1) then io_ret []
             else io_bind (replace_compose p rendered (if streams \<noteq> [] then ''tag-stream'' else ''tag'') expected)
                    (\<lambda>_. io_ret applied)))))"

definition apply_compose_digest_pins ::
  "plan \<Rightarrow> digest_pin_update list \<Rightarrow> label_approval list \<Rightarrow> tag_stream_update list \<Rightarrow> string \<Rightarrow>
   applied_digest_pin list act" where
  "apply_compose_digest_pins p updates approvals streams expected =
     io_bind (lift_fs (\<lambda>c. read_text (p_file p))) (\<lambda>src.
     io_bind (ask c_render_pins) (\<lambda>render.
     io_bind (lift_rendered (render updates approvals streams src)) (\<lambda>(rendered, applied).
       if updates \<noteq> [] \<and> rendered = ''''
       then io_raise (FileError (ComposeTagRewriteError ''Compose digest-pin rewrite produced no output.''))
       else io_bind (replace_compose p rendered ''digest-pin'' expected) (\<lambda>_. io_ret applied))))"

definition apply_compose_digest_unpins ::
  "plan \<Rightarrow> digest_unpin_update list \<Rightarrow> (string \<times> string) list \<Rightarrow> string \<Rightarrow> applied_digest_unpin list act" where
  "apply_compose_digest_unpins p updates transforms expected =
     io_bind (lift_fs (\<lambda>c. read_text (p_file p))) (\<lambda>src.
     io_bind (ask c_render_unpins) (\<lambda>render.
     io_bind (lift_rendered (render updates transforms src)) (\<lambda>(rendered, applied).
       if updates \<noteq> [] \<and> rendered = ''''
       then io_raise (FileError (ComposeTagRewriteError ''Compose digest-unpin rewrite produced no output.''))
       else io_bind (replace_compose p rendered ''digest-unpin'' expected) (\<lambda>_. io_ret applied))))"

definition ensure_compose_backup :: "plan \<Rightarrow> stack_status option act" where
  "ensure_compose_backup p =
     io_bind (get w_backup) (\<lambda>b.
       if b \<noteq> None then io_ret None
       else catch_file
         (io_bind (lift_fs (\<lambda>c. backup_compose (c_unsup c) (p_file p))) (\<lambda>bk.
          io_bind (put (\<lambda>w. w\<lparr>w_backup := Some bk\<rparr>)) (\<lambda>_. io_ret None)))
         (\<lambda>e. io_bind (record_failure (p_stack p) (p_matches p) ''compose-backup'' ''compose-backup-failed''
                 (p_pull_services p) None '''' e)
            (\<lambda>_. io_ret (Some (failure ''compose-backup-failed'')))))"

text \<open>\<open>_expected_compose_hash\<close>: the hash written last, or that of the backup.\<close>

definition expected_compose_hash :: "path \<Rightarrow> string act" where
  "expected_compose_hash bk = lift_fs (\<lambda>c. expected_hash (c_sha c) bk)"

definition the_backup :: "path act" where
  "the_backup = get (\<lambda>w. the (w_backup w))"

section \<open>Checking the rewritten file\<close>

definition service_has_image :: "service_image list \<Rightarrow> string \<Rightarrow> string \<Rightarrow> bool" where
  "service_has_image sis service img = (\<exists>i \<in> set sis. si_service i = service \<and> si_image i = img)"

definition validate_applied ::
  "('a \<Rightarrow> string list) \<Rightarrow> ('a \<Rightarrow> nat) \<Rightarrow> ('a \<Rightarrow> string) \<Rightarrow> 'a list \<Rightarrow> service_image list \<Rightarrow> bool" where
  "validate_applied services replacements img applied sis =
     list_all (\<lambda>a. services a = [] \<or>
       (replacements a = length (services a) \<and> list_all (\<lambda>s. service_has_image sis s (img a)) (services a))) applied"

definition validate_applied_tag_updates :: "applied_tag_update list \<Rightarrow> service_image list \<Rightarrow> bool" where
  "validate_applied_tag_updates = validate_applied tu_services at_replacements tu_new_image"

definition validate_applied_digest_pins :: "applied_digest_pin list \<Rightarrow> service_image list \<Rightarrow> bool" where
  "validate_applied_digest_pins = validate_applied dp_services ap_replacements dp_final_image"

definition validate_applied_digest_unpins :: "applied_digest_unpin list \<Rightarrow> service_image list \<Rightarrow> bool" where
  "validate_applied_digest_unpins = validate_applied du_services au_replacements du_tag_image"

definition refresh_stack_images :: "compose_stack \<Rightarrow> compose_stack option act" where
  "refresh_stack_images stack =
     io_bind (catch_cmd (io_bind (run_cmd ConfigImages) (\<lambda>imgs. io_ret (Some imgs))) (\<lambda>_. io_ret None))
       (\<lambda>imgs. case imgs of
          None \<Rightarrow> io_ret None
        | Some imgs \<Rightarrow>
            io_bind (query ServiceImagePairs (\<lambda>c h. c_pairs c h)) (\<lambda>pairs.
              io_ret (Some \<lparr>cs_index = cs_index stack, cs_directory = cs_directory stack, cs_file = cs_file stack,
                cs_name = cs_name stack, cs_images = imgs, cs_service_images = pairs,
                cs_project_directory = cs_project_directory stack, cs_project_name = ''''\<rparr>)))"

definition set_current_stack :: "compose_stack \<Rightarrow> unit act" where
  "set_current_stack stack = put (\<lambda>w. w\<lparr>w_current_stack := stack, w_images := cs_images stack\<rparr>)"

section \<open>Rolling back\<close>

definition tag_update_failure_progress_phase :: "string \<Rightarrow> string" where
  "tag_update_failure_progress_phase phase =
     (if phase \<in> {''pull'', ''digest'', ''compose-digest-pin'', ''compose-digest-unpin''} then ''pull''
      else if phase \<in> {''up'', ''stop'', ''down'', ''unpause''} then ''recreate''
      else if phase = ''health'' then ''health''
      else ''preflight'')"

definition restore_tag_update_services ::
  "plan \<Rightarrow> (bool \<times> string option) act" where
  "restore_tag_update_services p =
     io_bind (if p_stopped p \<noteq> []
              then run_compose_up_no_start (p_stack p) (p_stopped p) (sc_force_recreate (p_scope p))
              else io_ret (up_ok False)) (\<lambda>stopped1.
     io_bind (if p_running p \<noteq> []
              then run_compose_up (p_stack p) (p_running p) (sc_force_recreate (p_scope p))
                     (sc_up_no_deps (p_scope p) \<or> p_stopped p \<noteq> [])
              else io_ret (up_ok False)) (\<lambda>up.
     io_bind (if ur_ok stopped1 \<and> ur_ok up \<and> p_stopped p \<noteq> []
              then verify_services_stopped (p_stopped p) else io_ret stopped1) (\<lambda>stopped.
     io_bind (if ur_ok stopped \<and> ur_ok up \<and> p_running p \<noteq> []
              then (if ur_wait_handled up then io_ret True else wait_for_health (Some (p_running p)))
              else io_ret (ur_ok stopped \<and> ur_ok up)) (\<lambda>ok.
       io_ret (ok, case ur_error stopped of Some e \<Rightarrow> Some e | None \<Rightarrow> ur_error up)))))"

definition restore_compose :: "plan \<Rightarrow> path \<Rightarrow> bool act" where
  "restore_compose p bk =
     io_bind (get (\<lambda>w. last (fs_written (w_fs w)))) (\<lambda>h.
       lift_fs (\<lambda>c. restore_compose_backup (c_sha c) (c_unsup c) bk (p_file p) h))"

text \<open>The restored file, then the services; the result is what the incident log reports.\<close>

definition roll_back :: "plan \<Rightarrow> path \<Rightarrow> (string \<times> string option) act" where
  "roll_back p bk =
     catch_file
       (io_bind (get (\<lambda>w. fs_written (w_fs w) \<noteq> [])) (\<lambda>written.
        io_bind (only_if written
            (io_bind (restore_compose p bk) (\<lambda>synced. put (\<lambda>w. w\<lparr>w_restored := synced\<rparr>)))) (\<lambda>_.
        io_bind (put (\<lambda>w. w\<lparr>w_runtime_after := AList.delete (cs_index (p_stack p)) (w_runtime_after w)\<rparr>)) (\<lambda>_.
        io_bind (restore_tag_update_services p) (\<lambda>(ok, err).
          if ok
          then io_bind (put (\<lambda>w. w\<lparr>w_runtime_after :=
                   AList.update (cs_index (p_stack p)) (p_running p, p_stopped p) (w_runtime_after w)\<rparr>))
                 (\<lambda>_. io_ret (if p_running p \<noteq> [] then ''restored-and-healthy'' else ''restored-and-stopped'', err))
          else io_ret (''rollback-failed-manual-review-required'', err))))))
       (\<lambda>_. io_ret (''rollback-failed-manual-review-required'', None))"

text \<open>
  The incident log: a new file beside the Compose file, named after the first changed tag and the
  time. A file error is only logged.
\<close>

definition incident_name :: "string \<Rightarrow> string \<Rightarrow> string" where
  "incident_name tag stamp = ''error-'' @ safe_component tag @ ''-'' @ stamp @ ''.logs''"

definition incident_text ::
  "compose_stack \<Rightarrow> string list option \<Rightarrow> applied_tag_update list \<Rightarrow> string \<Rightarrow> string \<Rightarrow> string \<Rightarrow> string \<Rightarrow>
   string \<Rightarrow> string" where
  "incident_text stack services applied reason rollback health stamp log_file =
     (let nl = [CHR 0x0A];
          joined = join_with '' '' (case services of None \<Rightarrow> [] | Some ss \<Rightarrow> ss);
          label = (if joined = '''' then ''stack-level'' else joined)
      in ''WUDup tag update incident'' @ nl @ ''timestamp='' @ stamp @ nl @ ''stack='' @ cs_name stack @ nl
         @ ''compose_file='' @ cs_file stack @ nl @ ''services='' @ label @ nl @ ''reason='' @ reason @ nl
         @ ''rollback='' @ rollback @ nl @ ''central_log='' @ log_file @ nl @ nl @ ''tag_updates:'' @ nl
         @ concat (map (\<lambda>a. ''  '' @ tu_old_image a @ '' -> '' @ tu_new_image a @ '' (tag='' @ tu_desired_tag a
             @ '' replacements='' @ show_nat (at_replacements a) @ '')'' @ nl) applied)
         @ nl @ ''failure_health:'' @ nl
         @ (if health = '''' then ''health: no failure health details captured'' @ nl else health)
         @ nl @ ''manual_review_required=''
         @ (if rollback \<in> {''restored-and-healthy'', ''restored-and-stopped''} then ''no'' else ''yes'') @ nl)"

definition write_tag_incident_log :: "plan \<Rightarrow> string \<Rightarrow> string \<Rightarrow> string \<Rightarrow> unit act" where
  "write_tag_incident_log p reason rollback health =
     io_bind (get (\<lambda>w. (w_applied_tags w, w_cmds w))) (\<lambda>(applied, h).
     io_bind (ask (\<lambda>c. (incident_name (case applied of [] \<Rightarrow> ''tag'' | a # _ \<Rightarrow> tu_desired_tag a) (c_file_stamp c h),
         incident_text (p_stack p) (p_services p) applied reason rollback health (c_stamp c h) (c_log_file c))))
       (\<lambda>(name, content).
     catch_os
       (io_bind (lift_fs (\<lambda>c. create_unique_text_file_exclusive (c_new_meta c) (c_owner c)
           (cs_directory (p_stack p)) name content)) (\<lambda>_. io_ret ()))
       (\<lambda>_. io_ret ())))"

definition handle_tag_update_failure ::
  "plan \<Rightarrow> string \<Rightarrow> string \<Rightarrow> string option \<Rightarrow> string option \<Rightarrow> match_t list option \<Rightarrow> stack_status act" where
  "handle_tag_update_failure p reason phase command_error failure_health failure_matches =
     io_bind (get w_backup) (\<lambda>backup. case backup of
       None \<Rightarrow> io_ret (failure reason)
     | Some bk \<Rightarrow>
         (let report_matches = (case failure_matches of None \<Rightarrow> p_matches p | Some ms \<Rightarrow> ms);
              report_services = (case failure_matches of None \<Rightarrow> p_services p | Some ms \<Rightarrow> update_services ms)
          in io_bind (progress (tag_update_failure_progress_phase phase) ''failure'' report_services) (\<lambda>_.
             io_bind (case failure_health of None \<Rightarrow> capture_health_details report_services False
                      | Some h \<Rightarrow> io_ret h) (\<lambda>health.
             io_bind (roll_back p bk) (\<lambda>(result, rollback_error).
             io_bind (record_failure (p_stack p) report_matches phase reason report_services
                 (case rollback_error of Some e \<Rightarrow> Some e | None \<Rightarrow> command_error) health
                 (''tag rollback='' @ result @
                  (if reason = STALE_PENDING_DIGEST_REASON then ''; stale pending digest detected'' else ''''))) (\<lambda>_.
             io_bind (write_tag_incident_log p reason result health) (\<lambda>_.
               io_ret (failure reason))))))))"

definition handle_compose_rewrite_failure ::
  "plan \<Rightarrow> string \<Rightarrow> string \<Rightarrow> string option \<Rightarrow> string option \<Rightarrow> match_t list option \<Rightarrow> stack_status act" where
  "handle_compose_rewrite_failure p reason phase command_error failure_health failure_matches =
     io_bind (get w_backup) (\<lambda>backup.
       if backup = None then io_ret (failure reason)
       else handle_tag_update_failure p reason phase command_error failure_health failure_matches)"

section \<open>The three rewrites\<close>

text \<open>A failed rewrite: rolled back when something was written, otherwise only recorded.\<close>

definition rewrite_failed :: "plan \<Rightarrow> bool \<Rightarrow> string \<Rightarrow> string \<Rightarrow> string \<Rightarrow> stack_status option act" where
  "rewrite_failed p need_backup phase reason note =
     io_bind (get (\<lambda>w. compose_rewrite_applied w \<and> (need_backup \<longrightarrow> w_backup w \<noteq> None))) (\<lambda>applied.
       if applied
       then io_bind (handle_compose_rewrite_failure p reason phase None None None) (\<lambda>s. io_ret (Some s))
       else io_bind (record_failure (p_stack p) (p_matches p) phase reason (p_pull_services p) None '''' note)
              (\<lambda>_. io_ret (Some (failure reason))))"

definition fail_rewrite :: "plan \<Rightarrow> string \<Rightarrow> string \<Rightarrow> stack_status option act" where
  "fail_rewrite p reason phase =
     io_bind (handle_compose_rewrite_failure p reason phase None None None) (\<lambda>s. io_ret (Some s))"

definition lifecycle_tag_updates :: "plan \<Rightarrow> stack_status option act" where
  "lifecycle_tag_updates p =
     (if p_tags p = [] then io_ret None
      else io_bind (ensure_compose_backup p) (\<lambda>status. case status of
        Some s \<Rightarrow> io_ret (Some s)
      | None \<Rightarrow>
        io_bind
          (catch_file
             (io_bind the_backup (\<lambda>bk.
              io_bind (expected_compose_hash bk) (\<lambda>h.
              io_bind (apply_compose_tag_updates p (p_tags p) (p_streams p) h) (\<lambda>applied.
              io_bind (put (\<lambda>w. w\<lparr>w_applied_tags := applied\<rparr>)) (\<lambda>_. io_ret None)))))
             (\<lambda>e. rewrite_failed p False ''compose-tag-rewrite'' ''compose-tag-rewrite-failed'' e))
          (\<lambda>status. case status of
             Some s \<Rightarrow> io_ret (Some s)
           | None \<Rightarrow>
             io_bind (get w_applied_tags) (\<lambda>applied.
               if applied = []
               then io_bind (record_failure (p_stack p) (p_matches p) ''compose-tag-rewrite''
                      ''compose-tag-rewrite-failed'' (p_pull_services p) None ''''
                      ''No compose image lines were rewritten.'')
                      (\<lambda>_. io_ret (Some (failure ''compose-tag-rewrite-failed'')))
               else io_bind (get w_current_stack) (\<lambda>cur.
                    io_bind (refresh_stack_images cur) (\<lambda>refreshed. case refreshed of
                      None \<Rightarrow> fail_rewrite p ''compose-refresh-failed'' ''compose-refresh''
                    | Some st \<Rightarrow>
                        if \<not> validate_applied_tag_updates applied (cs_service_images st)
                        then fail_rewrite p ''compose-tag-validation-failed'' ''compose-tag-validation''
                        else io_bind (set_current_stack st) (\<lambda>_. io_ret None)))))))"

definition lifecycle_digest_pin_updates :: "plan \<Rightarrow> stack_status option act" where
  "lifecycle_digest_pin_updates p =
     (if p_pins p = [] then io_ret None
      else io_bind (ensure_compose_backup p) (\<lambda>status. case status of
        Some s \<Rightarrow> io_ret (Some s)
      | None \<Rightarrow>
        io_bind
          (catch_file
             (io_bind (opt op_label_approvals) (\<lambda>approvals.
              io_bind the_backup (\<lambda>bk.
              io_bind (expected_compose_hash bk) (\<lambda>h.
              io_bind (apply_compose_digest_pins p (p_pins p) approvals (p_streams p) h) (\<lambda>applied.
              io_bind (put (\<lambda>w. w\<lparr>w_applied_pins := applied\<rparr>)) (\<lambda>_. io_ret None))))))
             (\<lambda>e. rewrite_failed p True ''compose-digest-pin'' ''compose-digest-pin-failed'' e))
          (\<lambda>status. case status of
             Some s \<Rightarrow> io_ret (Some s)
           | None \<Rightarrow>
             io_bind (get w_applied_pins) (\<lambda>applied.
               if applied = []
               then rewrite_failed p True ''compose-digest-pin'' ''compose-digest-pin-failed''
                      ''No compose image lines were digest pinned.''
               else io_bind (get w_current_stack) (\<lambda>cur.
                    io_bind (refresh_stack_images cur) (\<lambda>refreshed. case refreshed of
                      None \<Rightarrow> fail_rewrite p ''compose-digest-pin-refresh-failed'' ''compose-digest-pin''
                    | Some st \<Rightarrow>
                        if \<not> validate_applied_digest_pins applied (cs_service_images st)
                        then fail_rewrite p ''compose-digest-pin-validation-failed'' ''compose-digest-pin''
                        else io_bind (set_current_stack st) (\<lambda>_.
                             io_bind (image_state_of (cs_images st)) (\<lambda>after.
                             io_bind (put (\<lambda>w. w\<lparr>w_after := after\<rparr>)) (\<lambda>_. io_ret None)))))))))"

definition lifecycle_digest_unpin_updates :: "plan \<Rightarrow> stack_status option act" where
  "lifecycle_digest_unpin_updates p =
     (if p_unpins p = [] then io_ret None
      else io_bind (ensure_compose_backup p) (\<lambda>status. case status of
        Some s \<Rightarrow> io_ret (Some s)
      | None \<Rightarrow>
        io_bind
          (catch_file
             (io_bind the_backup (\<lambda>bk.
              io_bind (expected_compose_hash bk) (\<lambda>h.
              io_bind (apply_compose_digest_unpins p (p_unpins p)
                 (compose_config_wud_tag_transforms (cs_service_images (p_stack p))) h) (\<lambda>applied.
              io_bind (put (\<lambda>w. w\<lparr>w_applied_unpins := applied\<rparr>)) (\<lambda>_. io_ret None)))))
             (\<lambda>e. rewrite_failed p True ''compose-digest-unpin'' ''compose-digest-unpin-failed'' e))
          (\<lambda>status. case status of
             Some s \<Rightarrow> io_ret (Some s)
           | None \<Rightarrow>
             io_bind (get w_applied_unpins) (\<lambda>applied.
               if applied = []
               then rewrite_failed p True ''compose-digest-unpin'' ''compose-digest-unpin-failed''
                      ''No compose image lines were digest unpinned.''
               else io_bind (get w_current_stack) (\<lambda>cur.
                    io_bind (refresh_stack_images cur) (\<lambda>refreshed. case refreshed of
                      None \<Rightarrow> fail_rewrite p ''compose-digest-unpin-refresh-failed'' ''compose-digest-unpin''
                    | Some st \<Rightarrow>
                        if \<not> validate_applied_digest_unpins applied (cs_service_images st)
                        then fail_rewrite p ''compose-digest-unpin-validation-failed'' ''compose-digest-unpin''
                        else io_bind (set_current_stack st) (\<lambda>_. io_ret None)))))))"

section \<open>The backup at the end\<close>

definition discard_compose_backup :: "stack_status \<Rightarrow> unit act" where
  "discard_compose_backup status =
     io_bind (get w_backup) (\<lambda>backup. case backup of
       None \<Rightarrow> io_ret ()
     | Some bk \<Rightarrow>
         io_bind (get (\<lambda>w. st_status status \<noteq> ''success'' \<and> fs_written (w_fs w) \<noteq> [] \<and> \<not> w_restored w \<and>
                            \<not> w_health_verified w)) (\<lambda>keep.
           if keep then io_ret ()
           else catch_file
             (io_bind (lift_fs (\<lambda>c. unlink_quiet bk)) (\<lambda>_. put (\<lambda>w. w\<lparr>w_backup := None\<rparr>)))
             (\<lambda>_. io_ret ())))"

definition restore_compose_after_abort :: "plan \<Rightarrow> unit act" where
  "restore_compose_after_abort p =
     io_bind (get w_backup) (\<lambda>backup.
     io_bind (get (\<lambda>w. fs_written (w_fs w) = [] \<or> w_restored w \<or> w_health_verified w)) (\<lambda>skip.
       case backup of
         None \<Rightarrow> io_ret ()
       | Some bk \<Rightarrow>
           if skip then io_ret ()
           else catch_file (io_bind (restore_compose p bk) (\<lambda>synced. put (\<lambda>w. w\<lparr>w_restored := synced\<rparr>)))
                  (\<lambda>_. io_ret ())))"

end
