(* ===== verification/Lifecycle_Recreate.thy ===== *)
theory Lifecycle_Recreate
  imports Lifecycle_Rewrite
begin

text \<open>
  \<open>src/src/wudup/updater_lifecycle_recreate.py\<close>: recreating the containers with the running
  state they had, and the health gate after it. \<open>Inl\<close> of a step that returns
  \<open>UpResult | StackStatus\<close> is the status.
\<close>

definition pop_runtime_after :: "plan \<Rightarrow> unit act" where
  "pop_runtime_after p =
     put (\<lambda>w. w\<lparr>w_runtime_after := AList.delete (cs_index (p_stack p)) (w_runtime_after w)\<rparr>)"

definition rewrite_to_undo :: "bool act" where
  "rewrite_to_undo = get (\<lambda>w. compose_rewrite_applied w \<and> w_backup w \<noteq> None)"

definition services_to_stop :: "plan \<Rightarrow> string list" where
  "services_to_stop p = (if running_stop_services p \<noteq> [] then running_stop_services p else p_running p)"

definition prepare_for_recreate :: "plan \<Rightarrow> stop_result act" where
  "prepare_for_recreate p =
     io_bind (opt op_mode) (\<lambda>mode.
       if services_to_stop p = [] then io_ret no_stop
       else if mode = ''pause''
       then catch_cmd (io_bind (run_cmd (Pause (services_to_stop p))) (\<lambda>_. io_ret no_stop))
              (\<lambda>_. io_ret no_stop)
       else if mode = ''stop''
       then catch_cmd (io_bind (run_cmd (Stop (services_to_stop p))) (\<lambda>_. io_ret no_stop))
              (\<lambda>e. io_ret \<lparr>sr_failed = True, sr_error = Some e\<rparr>)
       else io_ret no_stop)"

definition restart_services_stopped_for_update :: "plan \<Rightarrow> string act" where
  "restart_services_stopped_for_update p =
     io_bind (opt op_mode) (\<lambda>mode.
       if mode \<noteq> ''stop'' \<or> services_to_stop p = [] then io_ret ''''
       else let label = join_with '' '' (services_to_stop p)
            in catch_cmd
              (io_bind (run_cmd (Start (services_to_stop p))) (\<lambda>_.
                 io_ret (''Service(s) '' @ label
                   @ '' were stopped for the update and were started again after it failed.'')))
              (\<lambda>e. io_bind (ask (\<lambda>c. c_display_start c (p_stack p) (services_to_stop p))) (\<lambda>command.
                 io_ret (''Service(s) '' @ label @ '' were stopped for the update, and starting ''
                   @ ''them again after the failed update also failed, so they are ''
                   @ ''still stopped and not running the new image. Fix the error ''
                   @ ''above, then start them with: '' @ command @ ''. The pending update ''
                   @ ''was kept, so rerunning the update after that is safe and ''
                   @ ''retries it.''))))"

definition unpause_after_recreate :: "plan \<Rightarrow> up_result \<Rightarrow> (stack_status + up_result) act" where
  "unpause_after_recreate p up =
     io_bind (opt op_mode) (\<lambda>mode.
       if mode \<noteq> ''pause'' \<or> p_running p = [] then io_ret (Inr up)
       else catch_cmd
         (io_bind (run_cmd (Unpause (p_running p))) (\<lambda>_. io_ret (Inr (up\<lparr>ur_wait_handled := False\<rparr>))))
         (\<lambda>e. io_bind rewrite_to_undo (\<lambda>undo.
            if undo
            then io_bind (handle_compose_rewrite_failure p ''unpause-failed'' ''unpause'' (Some e) None None)
                   (\<lambda>s. io_ret (Inl s))
            else io_bind (capture_health_details (p_services p) False) (\<lambda>health.
                 io_bind (record_failure (p_stack p) (p_matches p) ''unpause'' ''unpause-failed'' (p_services p)
                   (Some e) health '''') (\<lambda>_. io_ret (Inl (failure ''unpause-failed'')))))))"

definition record_down_failed :: "plan \<Rightarrow> stop_result \<Rightarrow> string \<Rightarrow> unit act" where
  "record_down_failed p stop note =
     io_bind (capture_health_details (p_services p) False) (\<lambda>health.
       record_failure (p_stack p) (p_matches p) ''stop'' ''down-failed'' (p_services p) (sr_error stop) health note)"

definition handle_compose_up_failure ::
  "plan \<Rightarrow> stop_result \<Rightarrow> up_result \<Rightarrow> bool \<Rightarrow> bool \<Rightarrow> stack_status act" where
  "handle_compose_up_failure p stop up prepared restart_stopped =
     io_bind (if prepared then unpause_after_recreate p up else io_ret (Inr up)) (\<lambda>r. case r of
       Inl s \<Rightarrow> io_ret s
     | Inr up \<Rightarrow>
       io_bind rewrite_to_undo (\<lambda>undo.
         if undo
         then (if sr_failed stop \<and> sr_error stop \<noteq> None
               then handle_compose_rewrite_failure p ''down-failed'' ''stop'' (sr_error stop) (Some (ur_health up)) None
               else handle_compose_rewrite_failure p ''up-or-health-failed'' ''up'' (ur_error up)
                      (Some (ur_health up)) None)
         else
           io_bind (if prepared \<and> restart_stopped then restart_services_stopped_for_update p else io_ret '''') (\<lambda>note.
           io_bind (only_if (sr_failed stop \<and> sr_error stop \<noteq> None)
              (record_down_failed p stop ''Update recovery also failed during compose up.'')) (\<lambda>_.
           io_bind (record_failure (p_stack p) (p_matches p) ''up'' ''up-or-health-failed'' (p_services p)
              (ur_error up) (ur_health up) note) (\<lambda>_.
           io_bind (progress ''recreate'' ''failure'' (p_services p)) (\<lambda>_.
             io_ret (failure ''up-or-health-failed'')))))))"

text \<open>What the runner remembers of applied pins and unpins, by stack, line and service.\<close>

definition match_slot :: "compose_stack \<Rightarrow> match_t \<Rightarrow> nat \<times> nat \<times> string" where
  "match_slot stack m = (cs_index stack, match_line m, m_service m)"

definition remember_by_match ::
  "compose_stack \<Rightarrow> (match_t \<Rightarrow> 'u option) \<Rightarrow> match_t list \<Rightarrow> ((nat \<times> nat \<times> string) \<times> 'u) list \<Rightarrow>
   ((nat \<times> nat \<times> string) \<times> 'u) list" where
  "remember_by_match stack find_update matches d =
     foldl (\<lambda>d m. case find_update m of None \<Rightarrow> d | Some u \<Rightarrow> AList.update (match_slot stack m) u d) d matches"

definition remember_applied_digest_pins :: "plan \<Rightarrow> unit act" where
  "remember_applied_digest_pins p =
     put (\<lambda>w. w\<lparr>w_pinned := remember_by_match (p_stack p)
       (\<lambda>m. if digest_pin_match_tag m = '''' then None
            else map_of (rev (map (\<lambda>u. ((dp_old_image u, dp_resolved_tag u), u)) (p_pins p)))
                   (m_compose_image m, digest_pin_match_tag m))
       (p_matches p) (w_pinned w)\<rparr>)"

definition remember_applied_digest_unpins :: "plan \<Rightarrow> unit act" where
  "remember_applied_digest_unpins p =
     put (\<lambda>w. w\<lparr>w_unpinned := remember_by_match (p_stack p)
       (\<lambda>m. map_of (rev (map (\<lambda>u. ((du_old_image u, du_tag_image u, du_target_digest u), u)) (p_unpins p)))
              (m_compose_image m, m_resolved m, normalize_digest (wt_digest (m_target m))))
       (p_matches p) (w_unpinned w)\<rparr>)"

definition remember_applied_digest_changes :: "plan \<Rightarrow> unit act" where
  "remember_applied_digest_changes p =
     io_bind (only_if (p_pins p \<noteq> []) (remember_applied_digest_pins p)) (\<lambda>_.
       only_if (p_unpins p \<noteq> []) (remember_applied_digest_unpins p))"

definition finish_verified :: "plan \<Rightarrow> stack_status act" where
  "finish_verified p =
     io_bind (put (\<lambda>w. w\<lparr>w_health_verified := True\<rparr>)) (\<lambda>_.
     io_bind (remember_applied_digest_changes p) (\<lambda>_. io_ret (success ''updated'')))"

definition finish_health_after_recreate :: "plan \<Rightarrow> stop_result \<Rightarrow> up_result \<Rightarrow> stack_status act" where
  "finish_health_after_recreate p stop up =
     (if p_running p = []
      then io_bind (progress ''health'' ''skipped'' (Some (p_stopped p))) (\<lambda>_. finish_verified p)
      else
        io_bind (only_if (ur_wait_handled up) (progress ''health'' ''success'' (Some (p_running p)))) (\<lambda>_.
        io_bind (if ur_wait_handled up then io_ret True else wait_for_health (Some (p_running p))) (\<lambda>healthy.
        io_bind rewrite_to_undo (\<lambda>undo.
          if healthy
          then (if sr_failed stop
                then (if undo
                      then handle_compose_rewrite_failure p ''down-failed'' ''stop'' (sr_error stop) None None
                      else io_bind (record_down_failed p stop
                             ''Compose up recovery succeeded, but the earlier stop command failed.'') (\<lambda>_.
                           io_bind (progress ''recreate'' ''failure'' (p_services p)) (\<lambda>_.
                             io_ret (failure ''down-failed''))))
                else io_bind (put (\<lambda>w. w\<lparr>w_health_verified := True\<rparr>)) (\<lambda>_.
                     io_bind (put (\<lambda>w. w\<lparr>w_runtime_after :=
                         AList.update (cs_index (p_stack p)) (p_running p, p_stopped p) (w_runtime_after w)\<rparr>)) (\<lambda>_.
                     io_bind (remember_applied_digest_changes p) (\<lambda>_.
                       io_ret (success ''updated'')))))
          else
            io_bind (capture_health_details (Some (p_running p)) True) (\<lambda>health.
              if undo
              then handle_compose_rewrite_failure p ''health-failed'' ''health'' None (Some health) None
              else io_bind (record_failure (p_stack p) (p_matches p) ''health'' ''health-failed'' (p_services p)
                     None health '''') (\<lambda>_.
                   io_bind (progress ''health'' ''failure'' (p_services p)) (\<lambda>_.
                     io_ret (failure ''health-failed''))))))))"

definition after_recreate :: "plan \<Rightarrow> stop_result \<Rightarrow> up_result \<Rightarrow> stack_status act" where
  "after_recreate p stop up =
     io_bind (if p_stopped p \<noteq> [] then verify_services_stopped (p_stopped p) else io_ret (up_ok False)) (\<lambda>preserved.
       if \<not> ur_ok preserved then handle_compose_up_failure p stop preserved True False
       else io_bind (progress ''recreate'' ''success'' (p_services p)) (\<lambda>_.
            io_bind (unpause_after_recreate p up) (\<lambda>r. case r of
              Inl s \<Rightarrow> io_ret s
            | Inr up \<Rightarrow> finish_health_after_recreate p stop up)))"

definition recreate_running :: "plan \<Rightarrow> stack_status act" where
  "recreate_running p =
     io_bind (prepare_for_recreate p) (\<lambda>stop.
     io_bind (if p_running p \<noteq> []
              then run_compose_up (p_stack p) (p_running p) (sc_force_recreate (p_scope p))
                     (sc_up_no_deps (p_scope p) \<or> p_stopped p \<noteq> [])
              else io_ret (up_ok False)) (\<lambda>up.
       if \<not> ur_ok up then handle_compose_up_failure p stop up True True
       else after_recreate p stop up))"

definition recreate_and_verify_stack :: "plan \<Rightarrow> stack_status act" where
  "recreate_and_verify_stack p =
     io_bind (pop_runtime_after p) (\<lambda>_.
     io_bind (progress ''recreate'' ''running'' (p_services p)) (\<lambda>_.
     io_bind (if p_stopped p \<noteq> []
              then run_compose_up_no_start (p_stack p) (p_stopped p) (sc_force_recreate (p_scope p))
              else io_ret (up_ok False)) (\<lambda>stopped.
       if \<not> ur_ok stopped then handle_compose_up_failure p no_stop stopped False True
       else recreate_running p)))"

end
