(* ===== verification/Lifecycle.thy ===== *)
theory Lifecycle
  imports Lifecycle_Scope Lifecycle_Recreate
begin

text \<open>
  \<open>src/src/wudup/updater_lifecycle.py\<close>: one stack update from its preflight to its end. \<open>Inl\<close> of
  a step that returns a state or a \<open>StackStatus\<close> is the status. The record \<open>plan\<close> built here is
  \<open>_StackUpdateState\<close>; its mutable fields are reset in the world when it is made.
\<close>

section \<open>Preflight\<close>

definition INACTIVE_CONTAINER_STATES :: "string set" where
  "INACTIVE_CONTAINER_STATES = {''created'', ''dead'', ''exited''}"

definition service_state_is_unverifiable :: "string list \<Rightarrow> bool" where
  "service_state_is_unverifiable states =
     (length states > 1 \<or>
      (set states \<noteq> {} \<and> set states \<noteq> {''running''} \<and> \<not> set states \<subseteq> INACTIVE_CONTAINER_STATES))"

text \<open>A refused stack: the failure is recorded, reported, and is the status.\<close>

definition refuse ::
  "compose_stack \<Rightarrow> match_t list \<Rightarrow> string \<Rightarrow> string list option \<Rightarrow> string option \<Rightarrow> string \<Rightarrow>
   stack_status act" where
  "refuse stack matches reason services err note =
     io_bind (record_failure stack matches ''preflight'' reason services err '''' note) (\<lambda>_.
     io_bind (progress ''preflight'' ''failure'' services) (\<lambda>_. io_ret (failure reason)))"

definition refuse_outcome :: "compose_stack \<Rightarrow> match_t list \<Rightarrow> string \<Rightarrow> unit act" where
  "refuse_outcome stack matches kind =
     io_bind (get (\<lambda>w. filter (\<lambda>m. outcome (w_pre w) (expected_digest_key m) = kind) matches)) (\<lambda>failed.
       if failed = [] then io_ret ()
       else io_bind (update_scope_of stack failed False) (\<lambda>scope.
            io_bind (refuse stack failed
                (if kind = ''failed'' then ''manifest-integrity-mismatch'' else STALE_PENDING_DIGEST_REASON)
                (sc_pull_services scope) None
                (if kind = ''failed''
                 then ''Registry manifest integrity check failed before any Compose or ''
                   @ ''Docker update; check the registry before retrying.''
                 else ''Stale pending digest detected before any Compose or Docker ''
                   @ ''update; refresh or replace it before retrying.''))
              (\<lambda>_. io_ret ())))"

definition preflight_stack_expected_digests ::
  "compose_stack \<Rightarrow> match_t list \<Rightarrow> stack_status option act" where
  "preflight_stack_expected_digests stack matches =
     io_bind (preflight_expected_digests stack matches) (\<lambda>ok.
       if ok then io_ret None
       else io_bind (refuse_outcome stack matches ''stale'') (\<lambda>_.
            io_bind (refuse_outcome stack matches ''failed'') (\<lambda>_.
            io_bind (get w_pre) (\<lambda>pre.
              io_ret (Some (failure (if failed_in_stack pre (cs_index stack)
                then ''manifest-integrity-mismatch'' else STALE_PENDING_DIGEST_REASON)))))))"

section \<open>The runtime state before the update\<close>

definition stack_project_dir :: "compose_stack \<Rightarrow> string" where
  "stack_project_dir stack =
     (case cs_project_directory stack of Some d \<Rightarrow> d | None \<Rightarrow> cs_directory stack)"

definition compose_service_runtime_states ::
  "(string \<Rightarrow> string) \<Rightarrow> compose_stack \<Rightarrow> string \<Rightarrow> runtime_state list \<Rightarrow> string list" where
  "compose_service_runtime_states norm stack service states =
     map snd (filter (\<lambda>ks. compose_runtime_service_key_matches
        (compose_runtime_service_key norm (stack_project_dir stack) (cs_file stack) (cs_project_name stack)
           service) (fst ks)) states)"

fun any_state_error :: "string list \<Rightarrow> bool act" where
  "any_state_error [] = io_ret False"
| "any_state_error (cid # cids) =
     io_bind (container_state_error cid) (\<lambda>e. if e \<noteq> '''' then io_ret True else any_state_error cids)"

definition container_start_failed :: "string \<Rightarrow> bool act" where
  "container_start_failed service =
     io_bind (ps_quiet_checked (Some [service]) True) (\<lambda>cids. any_state_error cids)"

definition start_failed_target :: "string \<Rightarrow> string set \<Rightarrow> string list option \<Rightarrow> bool act" where
  "start_failed_target service states targets =
     (if states \<noteq> {''created''} then io_ret False
      else if (case targets of Some ts \<Rightarrow> service \<notin> set ts | None \<Rightarrow> False) then io_ret False
      else container_start_failed service)"

text \<open>The text of \<open>compose_override_files_message\<close> is a log line; only the file names matter.\<close>

definition compose_file_set_refusal ::
  "compose_stack \<Rightarrow> match_t list \<Rightarrow> string list \<Rightarrow> runtime_state list \<Rightarrow> stack_status option act" where
  "compose_file_set_refusal stack matches services states =
     io_bind (ask (\<lambda>c. (c_norm c, c_discovered c))) (\<lambda>(norm, discovered).
       let keys = map fst states;
           extra = compose_runtime_extra_config_files norm (stack_project_dir stack) (cs_file stack)
                     (cs_project_name stack) keys
                     (compose_project_file_sets norm discovered (cs_project_name stack))
       in if extra \<noteq> []
          then io_bind (refuse stack matches ''compose-override-files'' (Some services) None
                   (join_with '', '' extra)) (\<lambda>s. io_ret (Some s))
          else io_bind (only_if (compose_runtime_project_shared norm (stack_project_dir stack) (cs_file stack)
                   (cs_project_name stack) keys)
                 (put (\<lambda>w. w\<lparr>w_keep_orphans := insert (cs_index stack) (w_keep_orphans w)\<rparr>)))
                 (\<lambda>_. io_ret None))"

text \<open>Running, stopped and start-failed services; the three lists of the loop are one value.\<close>

type_synonym runtime_split = "string list \<times> string list \<times> string list"

definition service_unverifiable ::
  "compose_stack \<Rightarrow> match_t list \<Rightarrow> string \<Rightarrow> string list \<Rightarrow> (stack_status + runtime_split) act" where
  "service_unverifiable stack matches service observed =
     io_bind (refuse stack matches ''runtime-state-unavailable'' (Some [service]) None
       (''Compose service '' @ service @ '' observed '' @ show_nat (length observed)
        @ '' replica(s); runtime states: '' @ join_with '', '' (sorted_set observed) @ ''.''))
       (\<lambda>s. io_ret (Inl s))"

definition add_service :: "string \<Rightarrow> string list \<Rightarrow> bool \<Rightarrow> runtime_split \<Rightarrow> runtime_split" where
  "add_service service observed start_failed_now acc =
     (case acc of (running, stopped, start_failed) \<Rightarrow>
        if start_failed_now then (running @ [service], stopped, start_failed @ [service])
        else if set observed = {''running''} then (running @ [service], stopped, start_failed)
        else (running, stopped @ [service], start_failed))"

primrec split_runtime ::
  "compose_stack \<Rightarrow> match_t list \<Rightarrow> (string \<Rightarrow> string list) \<Rightarrow> string list \<Rightarrow> runtime_split \<Rightarrow>
   (stack_status + runtime_split) act" where
  "split_runtime stack matches observed [] acc = io_ret (Inr acc)"
| "split_runtime stack matches observed (service # services) acc =
     (if service_state_is_unverifiable (observed service)
      then service_unverifiable stack matches service (observed service)
      else io_bind (start_failed_target service (set (observed service)) (update_services matches)) (\<lambda>sf.
        split_runtime stack matches observed services (add_service service (observed service) sf acc)))"

definition read_runtime ::
  "compose_stack \<Rightarrow> match_t list \<Rightarrow> string list \<Rightarrow> (stack_status + runtime_split) act" where
  "read_runtime stack matches services =
     (if cs_project_name stack = ''''
      then io_raise (ValueErr ''Compose project identity is unavailable.'')
      else io_bind (ask c_norm) (\<lambda>norm.
           io_bind (run_cmd PsStates) (\<lambda>rows.
           let states = compose_runtime_service_states norm rows
           in io_bind (compose_file_set_refusal stack matches services states) (\<lambda>refusal. case refusal of
                Some s \<Rightarrow> io_ret (Inl s)
              | None \<Rightarrow> split_runtime stack matches
                  (\<lambda>service. compose_service_runtime_states norm stack service states) services ([], [], [])))))"

definition runtime_state_unverified ::
  "compose_stack \<Rightarrow> match_t list \<Rightarrow> string list \<Rightarrow> lexc \<Rightarrow> stack_status act" where
  "runtime_state_unverified stack matches services e =
     refuse stack matches ''runtime-state-unavailable'' (Some services)
       (case e of CommandError s \<Rightarrow> Some s | _ \<Rightarrow> None) (case e of ValueErr s \<Rightarrow> s | _ \<Rightarrow> '''')"

definition initial_service_runtime ::
  "compose_stack \<Rightarrow> update_scope \<Rightarrow> match_t list \<Rightarrow> (stack_status + runtime_split) act" where
  "initial_service_runtime stack scope matches =
     (let services = runtime_services_for_scope scope
      in if services = []
         then io_bind (refuse stack matches ''runtime-state-unavailable'' (Some services) None
                ''Compose service discovery returned no services.'') (\<lambda>s. io_ret (Inl s))
         else io_bind
           (catch_value (read_runtime stack matches services)
              (\<lambda>e. io_bind (runtime_state_unverified stack matches services e) (\<lambda>s. io_ret (Inl s))))
           (\<lambda>r. case r of
              Inl s \<Rightarrow> io_ret (Inl s)
            | Inr (running, stopped, start_failed) \<Rightarrow>
                io_bind (put (\<lambda>w.
                  let rt = (filter (\<lambda>s. s \<notin> set start_failed) running, stopped @ start_failed)
                  in w\<lparr>w_runtime := AList.update (cs_index stack) rt (w_runtime w),
                       w_runtime_after := AList.update (cs_index stack) rt (w_runtime_after w)\<rparr>))
                (\<lambda>_. io_ret (Inr (running, stopped, start_failed)))))"

section \<open>The update state\<close>

definition stack_stream_updates :: "(string \<Rightarrow> string) \<Rightarrow> options_t \<Rightarrow> compose_stack \<Rightarrow> tag_stream_update list" where
  "stack_stream_updates real opts stack =
     filter (\<lambda>u. su_stack_directory u = real (cs_directory stack) \<and> su_compose_file u = cs_file stack)
       (op_tag_stream_updates opts)"

definition unexpected_stream_lines :: "match_t list \<Rightarrow> tag_stream_update list \<Rightarrow> nat list" where
  "unexpected_stream_lines matches streams =
     sorted_set (filter (\<lambda>n. n \<notin> match_line ` set matches) (map su_line_no streams))"

definition reset_update_state :: "compose_stack \<Rightarrow> (string \<times> image_state) list \<Rightarrow> world \<Rightarrow> world" where
  "reset_update_state stack prior w = w\<lparr>w_fs := (w_fs w)\<lparr>fs_written := []\<rparr>, w_current_stack := stack,
     w_images := cs_images stack, w_after := prior, w_applied_tags := [], w_applied_pins := [],
     w_applied_unpins := [], w_backup := None, w_restored := False, w_health_verified := False\<rparr>"

definition scope_unverified :: "compose_stack \<Rightarrow> match_t list \<Rightarrow> bool act" where
  "scope_unverified stack matches =
     ask (\<lambda>c. op_protected_container (c_opts c) \<noteq> None \<and>
            c_verified_scopes c (cs_index stack, update_services matches) = None)"

definition finish_state ::
  "compose_stack \<Rightarrow> match_t list \<Rightarrow> update_scope \<Rightarrow> runtime_split \<Rightarrow> (string \<times> image_state) list \<Rightarrow>
   (stack_status + plan) act" where
  "finish_state stack matches scope rt prior =
     io_bind (ask (\<lambda>c. (c_real c, c_resolve c, c_opts c))) (\<lambda>(real, resolve, opts).
       let streams = stack_stream_updates real opts stack;
           unexpected = unexpected_stream_lines matches streams
       in if unexpected \<noteq> []
          then io_bind (record_failure stack matches ''compose-tag-rewrite'' ''compose-tag-stream-plan-stale''
                 (sc_pull_services scope) None ''''
                 (''Unselected tag stream line(s): '' @ join_with '', '' (map show_nat unexpected)))
                 (\<lambda>_. io_ret (Inl (failure ''compose-tag-stream-plan-stale'')))
          else (case digest_pin_updates (op_digest_pin_updates opts) resolve (op_digest_pin_plan opts) matches of
              Inl e \<Rightarrow> io_bind (record_failure stack matches ''compose-digest-pin'' ''compose-digest-pin-plan-failed''
                        (sc_pull_services scope) None '''' e)
                        (\<lambda>_. io_ret (Inl (failure ''compose-digest-pin-plan-failed'')))
            | Inr pins \<Rightarrow>
                io_bind (put (reset_update_state stack prior)) (\<lambda>_.
                io_ret (Inr \<lparr>p_stack = stack, p_matches = matches, p_scope = scope, p_before = prior,
                  p_pins = pins, p_unpins = digest_unpin_updates (op_digest_unpin_plan opts) matches,
                  p_tags = tag_updates matches @ digest_pin_tag_materialization_updates pins,
                  p_streams = streams, p_running = fst rt, p_stopped = fst (snd rt),
                  p_start_failed = snd (snd rt)\<rparr>))))"

definition build_stack_update_state :: "compose_stack \<Rightarrow> match_t list \<Rightarrow> (stack_status + plan) act" where
  "build_stack_update_state stack matches =
     io_bind (scope_unverified stack matches) (\<lambda>unverified.
       if unverified
       then io_bind (record_failure stack matches ''preflight'' ''update-scope-unverified'' (update_services matches)
              None ''''
              ''The update scope was not verified; no container changes were applied.'') (\<lambda>_.
            io_bind (progress ''preflight'' ''failure'' None) (\<lambda>_.
              io_ret (Inl (failure ''update-scope-unverified''))))
       else io_bind (update_scope_of stack matches False) (\<lambda>scope.
            io_bind (initial_service_runtime stack scope matches) (\<lambda>r. case r of
              Inl s \<Rightarrow> io_ret (Inl s)
            | Inr rt \<Rightarrow> io_bind (image_state_of (cs_images stack)) (\<lambda>prior.
                finish_state stack matches scope rt prior))))"

section \<open>Pulling and verifying\<close>

text \<open>A rewrite that must be undone, or a plain failure.\<close>

definition remember_images :: "plan \<Rightarrow> unit act" where
  "remember_images p =
     put (\<lambda>w. w\<lparr>w_image_states := AList.update (cs_index (p_stack p)) (p_before p, w_after w) (w_image_states w)\<rparr>)"

definition pull_failed :: "plan \<Rightarrow> string \<Rightarrow> stack_status option act" where
  "pull_failed p e =
     io_bind rewrite_to_undo (\<lambda>undo.
       if undo
       then io_bind (handle_compose_rewrite_failure p ''pull-failed'' ''pull'' (Some e) None None)
              (\<lambda>s. io_ret (Some s))
       else io_bind (capture_health_details (p_pull_services p) False) (\<lambda>health.
            io_bind (record_failure (p_stack p) (p_matches p) ''pull'' ''pull-failed'' (p_pull_services p)
              (Some e) health '''') (\<lambda>_.
            io_bind (progress ''pull'' ''failure'' (p_pull_services p)) (\<lambda>_.
              io_ret (Some (failure ''pull-failed''))))))"

definition expected_digests_failed :: "plan \<Rightarrow> stack_status option act" where
  "expected_digests_failed p =
     io_bind (get (\<lambda>w. (expected_digest_failure_reason (p_matches p) (w_exp w),
         filter (\<lambda>m. outcome (w_exp w) (expected_digest_key m) \<in> {''failed'', ''stale''}) (p_matches p))))
       (\<lambda>(reason, failed).
     io_bind (update_scope_of (p_stack p) failed False) (\<lambda>scope.
     io_bind rewrite_to_undo (\<lambda>undo.
       if undo
       then io_bind (handle_compose_rewrite_failure p reason ''digest'' None None (Some failed))
              (\<lambda>s. io_ret (Some s))
       else io_bind (capture_health_details (sc_pull_services scope) False) (\<lambda>health.
            io_bind (record_failure (p_stack p) failed ''digest'' reason (sc_pull_services scope) None health
              (if reason = STALE_PENDING_DIGEST_REASON
               then ''Stale pending digest detected; refresh or replace it before retrying.'' else '''')) (\<lambda>_.
            io_bind (progress ''pull'' ''failure'' (sc_pull_services scope)) (\<lambda>_.
              io_ret (Some (failure reason))))))))"

definition pins_failed :: "plan \<Rightarrow> stack_status option act" where
  "pins_failed p =
     io_bind rewrite_to_undo (\<lambda>undo.
       if undo
       then io_bind (handle_compose_rewrite_failure p ''digest-pin-verification-failed'' ''digest'' None None None)
              (\<lambda>s. io_ret (Some s))
       else io_bind (progress ''pull'' ''failure'' (p_pull_services p)) (\<lambda>_.
            io_bind (capture_health_details (p_pull_services p) False) (\<lambda>health.
            io_bind (record_failure (p_stack p) (p_matches p) ''digest'' ''digest-pin-verification-failed''
              (p_pull_services p) None health '''') (\<lambda>_.
              io_ret (Some (failure ''digest-pin-verification-failed''))))))"

definition pull_images :: "plan \<Rightarrow> string option act" where
  "pull_images p =
     catch_cmd (io_bind (run_cmd (Pull (p_pull_services p))) (\<lambda>_. io_ret None)) (\<lambda>e. io_ret (Some e))"

definition verify_pins :: "plan \<Rightarrow> bool act" where
  "verify_pins p =
     (if p_pins p = [] then io_ret True
      else io_bind (get w_images) (\<lambda>imgs. verify_digest_pin_updates (p_pins p) imgs))"

definition pull_and_verify_images :: "plan \<Rightarrow> stack_status option act" where
  "pull_and_verify_images p =
     io_bind (progress ''pull'' ''running'' (p_pull_services p)) (\<lambda>_.
     io_bind (pull_images p) (\<lambda>err. case err of
       Some e \<Rightarrow> pull_failed p e
     | None \<Rightarrow>
         io_bind (get w_images) (\<lambda>imgs.
         io_bind (image_state_of imgs) (\<lambda>after.
         io_bind (put (\<lambda>w. w\<lparr>w_after := after\<rparr>)) (\<lambda>_.
         io_bind (remember_images p) (\<lambda>_.
         io_bind (verify_expected_digests (p_stack p) (p_matches p)) (\<lambda>ok.
           if \<not> ok then expected_digests_failed p
           else io_bind (verify_pins p) (\<lambda>pinned.
                if pinned then io_ret None else pins_failed p))))))))"

section \<open>Deciding whether to recreate\<close>

text \<open>\<open>stack_retry_previous\<close>: what the containers behind ran; one digest lookup per image.\<close>

fun previous_images ::
  "(string \<times> (string \<times> string)) list \<Rightarrow> (string \<times> string) list \<Rightarrow> (string \<times> image_state) list \<Rightarrow>
   (string \<times> image_state) list act" where
  "previous_images [] digests prev = io_ret prev"
| "previous_images ((service, (img, i)) # rest) digests prev =
     io_bind (case map_of digests i of Some d \<Rightarrow> io_ret d | None \<Rightarrow> image_digest i) (\<lambda>d.
       previous_images rest ((i, d) # digests)
         (AList.update service \<lparr>is_image_id = i, is_digest = d\<rparr> prev))"

definition containers_behind :: "plan \<Rightarrow> image_check \<Rightarrow> bool act" where
  "containers_behind p check =
     (if ic_behind check = [] then io_ret False
      else let idx = cs_index (p_stack p)
           in io_bind (get (\<lambda>w. dict_get (w_retry_previous w) idx [])) (\<lambda>prev.
              io_bind (previous_images (ic_behind check) [] prev) (\<lambda>prev'.
              io_bind (put (\<lambda>w. w\<lparr>w_retry_previous := AList.update idx prev' (w_retry_previous w)\<rparr>)) (\<lambda>_.
                io_ret True))))"

definition failure_message :: "image_check \<Rightarrow> string" where
  "failure_message check = join_with '' ''
     ((if ic_unverified check \<noteq> []
       then [''Could not confirm which image service(s) '' @ join_with '' '' (ic_unverified check) @ '' are using.'']
       else []) @
      (if ic_missing check \<noteq> []
       then [''Service(s) '' @ join_with '' '' (ic_missing check) @ '' have no container, which ''
             @ ''an earlier failed recreate can leave behind.'']
       else []) @
      [''The update was not marked as applied and the WUD entry was kept.''] @
      (if ic_unverified check \<noteq> []
       then [''Check that Docker is responding, then rerun the update.''] else []) @
      (if ic_missing check \<noteq> []
       then [''Create the missing container(s) with docker compose up -d (or ''
             @ ''up --no-start for a service you keep stopped), then rerun the '' @ ''update.'']
       else []))"

definition find_unfinished_update :: "plan \<Rightarrow> (stack_status + bool) act" where
  "find_unfinished_update p =
     (let services = filter (\<lambda>s. case update_services (p_matches p) of None \<Rightarrow> True | Some ts \<Rightarrow> s \<in> set ts)
                       (p_running p @ p_stopped p)
      in if services = [] then io_ret (Inr False)
         else io_bind (get (\<lambda>w. (w_current_stack w, w_after w))) (\<lambda>(cur, after).
              io_bind (check_container_images cur services after) (\<lambda>check.
              let unverified = ic_unverified check @ ic_missing check
              in if unverified \<noteq> []
                 then io_bind (record_failure (p_stack p) (p_matches p) ''recreate'' ''runtime-image-unverified''
                        (Some unverified) (ic_error check) '''' (failure_message check)) (\<lambda>_.
                      io_bind (progress ''recreate'' ''failure'' (Some unverified)) (\<lambda>_.
                        io_ret (Inl (failure ''runtime-image-unverified''))))
                 else io_bind (containers_behind p check) (\<lambda>b. io_ret (Inr b)))))"

definition already_current :: "plan \<Rightarrow> stack_status option act" where
  "already_current p =
     io_bind (progress ''recreate'' ''skipped'' (p_services p)) (\<lambda>_.
     io_bind (progress ''health'' ''skipped'' (p_services p)) (\<lambda>_.
       io_ret (Some (success ''already-current''))))"

definition images_changed :: "plan \<Rightarrow> world \<Rightarrow> bool" where
  "images_changed p w =
     (w_applied_tags w \<noteq> [] \<or> w_applied_pins w \<noteq> [] \<or> w_applied_unpins w \<noteq> [] \<or>
      updated_images (p_before p) (w_after w) \<noteq> [] \<or> p_start_failed p \<noteq> [])"

definition finish_pull_phase :: "plan \<Rightarrow> stack_status option act" where
  "finish_pull_phase p =
     io_bind (remember_images p) (\<lambda>_.
     io_bind (progress ''pull'' ''success'' (p_pull_services p)) (\<lambda>_.
     io_bind (get (images_changed p)) (\<lambda>needed.
       if needed then io_ret None
       else io_bind (find_unfinished_update p) (\<lambda>r. case r of
            Inl s \<Rightarrow> io_ret (Some s)
          | Inr unfinished \<Rightarrow> if unfinished then io_ret None else already_current p))))"

section \<open>One stack\<close>

fun run_steps :: "plan \<Rightarrow> (plan \<Rightarrow> stack_status option act) list \<Rightarrow> stack_status act" where
  "run_steps p [] = recreate_and_verify_stack p"
| "run_steps p (step # steps) =
     io_bind (step p) (\<lambda>status. case status of Some s \<Rightarrow> io_ret s | None \<Rightarrow> run_steps p steps)"

definition run_stack_update_steps :: "plan \<Rightarrow> stack_status act" where
  "run_stack_update_steps p =
     run_steps p [lifecycle_tag_updates, lifecycle_digest_unpin_updates, pull_and_verify_images,
                  lifecycle_digest_pin_updates, finish_pull_phase]"

definition run_guarded :: "plan \<Rightarrow> stack_status act" where
  "run_guarded p =
     io_catch (run_stack_update_steps p) (\<lambda>e.
       io_bind (suppress (restore_compose_after_abort p)) (\<lambda>_.
       io_bind (suppress (discard_compose_backup (failure ''unexpected-error''))) (\<lambda>_. io_raise e)))"

definition update_stack :: "compose_stack \<Rightarrow> match_t list \<Rightarrow> stack_status act" where
  "update_stack stack matches =
     io_bind (build_stack_update_state stack matches) (\<lambda>r. case r of
       Inl status \<Rightarrow> io_ret status
     | Inr p \<Rightarrow>
         io_bind (run_guarded p) (\<lambda>status.
         io_bind (discard_compose_backup status) (\<lambda>_. io_ret status)))"

end
