(* ===== verification/Lifecycle_Invariants.thy ===== *)
theory Lifecycle_Invariants
  imports Lifecycle
begin

text \<open>
  Triples for the steps of an update, and what holds of every operation that only looks: the
  locale \<open>observer\<close> has an invariant that read-only commands and reports keep, and proves
  once that each query, report and check of the lifecycle keeps it.
\<close>

section \<open>Triples\<close>

definition ends :: "('a \<Rightarrow> 's \<Rightarrow> bool) \<Rightarrow> ('s \<Rightarrow> bool) \<Rightarrow> 'e + 'a \<Rightarrow> 's \<Rightarrow> bool" where
  "ends Q E r w = (case r of Inl e \<Rightarrow> E w | Inr x \<Rightarrow> Q x w)"

lemma ends_simps [simp]: "ends Q E (Inl e) w = E w" "ends Q E (Inr x) w = Q x w"
  by (simp_all add: ends_def)

definition valid ::
  "'c \<Rightarrow> ('s \<Rightarrow> bool) \<Rightarrow> ('c, 's, 'e, 'a) prog \<Rightarrow> ('a \<Rightarrow> 's \<Rightarrow> bool) \<Rightarrow> ('s \<Rightarrow> bool) \<Rightarrow> bool" where
  "valid c P m Q E = (\<forall>w. P w \<longrightarrow> holds m c w (ends Q E))"

abbreviation keeps :: "'c \<Rightarrow> ('s \<Rightarrow> bool) \<Rightarrow> ('c, 's, 'e, 'a) prog \<Rightarrow> bool" where
  "keeps c I m \<equiv> valid c I m (\<lambda>_. I) I"

lemma validI: "(\<And>w. P w \<Longrightarrow> holds m c w (ends Q E)) \<Longrightarrow> valid c P m Q E"
  by (simp add: valid_def)

lemma valid_run: "valid c P m Q E \<Longrightarrow> P w \<Longrightarrow> m c w = (r, w') \<Longrightarrow> ends Q E r w'"
  by (auto simp: valid_def holds_def)

lemma valid_weaken:
  assumes "valid c P m Q E" and "\<And>w. P' w \<Longrightarrow> P w" and "\<And>x w. Q x w \<Longrightarrow> Q' x w"
    and "\<And>w. E w \<Longrightarrow> E' w"
  shows "valid c P' m Q' E'"
proof (rule validI)
  fix w assume "P' w"
  then have "holds m c w (ends Q E)" using assms(1,2) by (simp add: valid_def)
  moreover have "ends Q E r w' \<Longrightarrow> ends Q' E' r w'" for r w'
    by (cases r) (auto intro: assms(3,4))
  ultimately show "holds m c w (ends Q' E')" by (rule holds_mono)
qed

lemma valid_bind:
  assumes "valid c P m R E" and "\<And>x. valid c (R x) (f x) Q E"
  shows "valid c P (io_bind m f) Q E"
proof (rule validI)
  fix w assume "P w"
  then have "holds m c w (ends R E)" using assms(1) by (simp add: valid_def)
  then show "holds (io_bind m f) c w (ends Q E)"
    by (rule holds_bindI) (use assms(2) in \<open>auto simp: valid_def\<close>)
qed

lemma valid_catch:
  assumes "valid c P m Q R" and "\<And>e. valid c R (h e) Q E"
  shows "valid c P (io_catch m h) Q E"
proof (rule validI)
  fix w assume "P w"
  then have 1: "holds m c w (ends Q R)" using assms(1) by (simp add: valid_def)
  have 2: "case r of Inl e \<Rightarrow> holds (h e) c w' (ends Q E) | Inr x \<Rightarrow> ends Q E (Inr x) w'"
    if "ends Q R r w'" for r w'
    using that assms(2) by (cases r) (auto simp: valid_def)
  show "holds (io_catch m h) c w (ends Q E)"
    unfolding holds_catch by (rule holds_mono [OF 1 2])
qed

lemma valid_ret: "(\<And>w. P w \<Longrightarrow> Q x w) \<Longrightarrow> valid c P (io_ret x) Q E"
  by (simp add: valid_def holds_ret)

lemma valid_raise: "(\<And>w. P w \<Longrightarrow> E w) \<Longrightarrow> valid c P (io_raise e) Q E"
  by (simp add: valid_def holds_raise)

lemma valid_ask: "(\<And>w. P w \<Longrightarrow> Q (f c) w) \<Longrightarrow> valid c P (ask f) Q E"
  by (simp add: valid_def holds_ask)

lemma valid_opt: "(\<And>w. P w \<Longrightarrow> Q (f (c_opts c)) w) \<Longrightarrow> valid c P (opt f) Q E"
  by (simp add: valid_def holds_opt)

lemma valid_get: "(\<And>w. P w \<Longrightarrow> Q (f w) w) \<Longrightarrow> valid c P (get f) Q E"
  by (simp add: valid_def holds_get)

lemma valid_put: "(\<And>w. P w \<Longrightarrow> Q () (g w)) \<Longrightarrow> valid c P (put g) Q E"
  by (simp add: valid_def holds_put)

lemma valid_run_cmd:
  "(\<And>w out. P w \<Longrightarrow> c_resp c (w_cmds w) k = Done out \<Longrightarrow> Q out (issue k c w)) \<Longrightarrow>
   (\<And>w. P w \<Longrightarrow> E (issue k c w)) \<Longrightarrow> valid c P (run_cmd k) Q E"
  by (auto simp: valid_def holds_run_cmd split: resp.splits)

lemma valid_query:
  "(\<And>w. P w \<Longrightarrow> Q (f c (w_cmds w)) (issue k c w)) \<Longrightarrow> (\<And>w. P w \<Longrightarrow> E (issue k c w)) \<Longrightarrow>
   valid c P (query k f) Q E"
  by (auto simp: valid_def holds_query)

lemma valid_progress:
  "(\<And>w. P w \<Longrightarrow> Q () (w\<lparr>w_progress := w_progress w @ [(a, b, s)]\<rparr>)) \<Longrightarrow>
   (\<And>w. P w \<Longrightarrow> E (w\<lparr>w_progress := w_progress w @ [(a, b, s)]\<rparr>)) \<Longrightarrow> valid c P (progress a b s) Q E"
  by (simp add: valid_def holds_progress)

lemma valid_catch_cmd:
  assumes "valid c P m Q R" and "\<And>s. valid c R (h s) Q E" and "\<And>w. R w \<Longrightarrow> E w"
  shows "valid c P (catch_cmd m h) Q E"
  unfolding catch_cmd_def
  by (rule valid_catch [OF assms(1)]) (auto intro: assms(2,3) valid_raise split: lexc.splits)

lemma valid_catch_value:
  assumes "valid c P m Q R" and "\<And>e. valid c R (h e) Q E" and "\<And>w. R w \<Longrightarrow> E w"
  shows "valid c P (catch_value m h) Q E"
  unfolding catch_value_def
  by (rule valid_catch [OF assms(1)]) (auto intro: assms(2,3) valid_raise split: lexc.splits)

lemma valid_catch_file:
  assumes "valid c P m Q R" and "\<And>s. valid c R (h s) Q E" and "\<And>w. R w \<Longrightarrow> E w"
  shows "valid c P (catch_file m h) Q E"
  unfolding catch_file_def
  by (rule valid_catch [OF assms(1)]) (auto intro: assms(2,3) valid_raise split: option.splits)

lemma valid_only_if: "(b \<Longrightarrow> valid c P m Q E) \<Longrightarrow> (\<And>w. \<not> b \<Longrightarrow> P w \<Longrightarrow> Q () w) \<Longrightarrow> valid c P (only_if b m) Q E"
  by (auto simp: only_if_def intro: valid_ret)

lemma valid_if: "(b \<Longrightarrow> valid c P m Q E) \<Longrightarrow> (\<not> b \<Longrightarrow> valid c P m' Q E) \<Longrightarrow> valid c P (if b then m else m') Q E"
  by simp

lemma valid_option:
  "(v = None \<Longrightarrow> valid c P m Q E) \<Longrightarrow> (\<And>x. v = Some x \<Longrightarrow> valid c P (f x) Q E) \<Longrightarrow>
   valid c P (case v of None \<Rightarrow> m | Some x \<Rightarrow> f x) Q E"
  by (cases v) auto

lemma valid_sum:
  "(\<And>e. v = Inl e \<Longrightarrow> valid c P (g e) Q E) \<Longrightarrow> (\<And>x. v = Inr x \<Longrightarrow> valid c P (f x) Q E) \<Longrightarrow>
   valid c P (case v of Inl e \<Rightarrow> g e | Inr x \<Rightarrow> f x) Q E"
  by (cases v) auto

lemma valid_absurd: "(\<And>w. \<not> P w) \<Longrightarrow> valid c P m Q E"
  by (simp add: valid_def)

lemma valid_pre: "valid c P m Q E \<Longrightarrow> (\<And>w. P' w \<Longrightarrow> P w) \<Longrightarrow> valid c P' m Q E"
  by (simp add: valid_def)

lemma valid_post: "valid c P m Q E \<Longrightarrow> (\<And>x w. Q x w \<Longrightarrow> Q' x w) \<Longrightarrow> valid c P m Q' E"
  by (erule valid_weaken)

lemma valid_conj:
  assumes "valid c P m Q E" and "valid c P m Q' E"
  shows "valid c P m (\<lambda>x w. Q x w \<and> Q' x w) E"
proof (rule validI)
  fix w assume "P w"
  then have "holds m c w (ends Q E)" "holds m c w (ends Q' E)" using assms by (simp_all add: valid_def)
  from holds_conj [OF this] show "holds m c w (ends (\<lambda>x w. Q x w \<and> Q' x w) E)"
    by (rule holds_mono) (auto simp: ends_def split: sum.splits)
qed

text \<open>What a program returns, when it returns.\<close>

definition yields :: "ctx \<Rightarrow> 'a act \<Rightarrow> ('a \<Rightarrow> bool) \<Rightarrow> bool" where
  "yields c m Q = valid c (\<lambda>_. True) m (\<lambda>x _. Q x) (\<lambda>_. True)"

named_theorems yields_intro "one rule per construct"

lemma yieldsD: "yields c m Q \<Longrightarrow> m c w = (Inr x, w') \<Longrightarrow> Q x"
  by (auto simp: yields_def dest: valid_run)

lemma yields_any: "yields c m (\<lambda>_. True)"
  by (auto simp: yields_def valid_def ends_def intro!: holds_intro split: sum.splits)

lemma yields_bind: "yields c m R \<Longrightarrow> (\<And>x. R x \<Longrightarrow> yields c (f x) Q) \<Longrightarrow> yields c (io_bind m f) Q"
  unfolding yields_def by (rule valid_bind) (auto simp: valid_def)

lemma yields_then: "(\<And>x. yields c (f x) Q) \<Longrightarrow> yields c (io_bind m f) Q"
  by (rule yields_bind [OF yields_any])

lemma valid_yields: "valid c P m Q E \<Longrightarrow> yields c m R \<Longrightarrow> valid c P m (\<lambda>x w. Q x w \<and> R x) E"
proof (rule validI)
  fix w assume "valid c P m Q E" "yields c m R" "P w"
  then have "holds m c w (ends Q E)" "holds m c w (ends (\<lambda>x _. R x) (\<lambda>_. True))"
    by (simp_all add: valid_def yields_def)
  from holds_conj [OF this] show "holds m c w (ends (\<lambda>x w. Q x w \<and> R x) E)"
    by (rule holds_mono) (auto simp: ends_def split: sum.splits)
qed

lemma yields_mono: "yields c m Q \<Longrightarrow> (\<And>x. Q x \<Longrightarrow> Q' x) \<Longrightarrow> yields c m Q'"
  unfolding yields_def by (erule valid_weaken)

lemma yields_ask: "yields c (ask f) (\<lambda>x. x = f c)"
  unfolding yields_def by (rule valid_ask) simp

lemma yields_ret [yields_intro]: "Q x \<Longrightarrow> yields c (io_ret x) Q"
  unfolding yields_def by (rule valid_ret)

lemma yields_raise [yields_intro]: "yields c (io_raise e) Q"
  unfolding yields_def by (rule valid_raise) simp

lemma yields_catch: "yields c m Q \<Longrightarrow> (\<And>e. yields c (h e) Q) \<Longrightarrow> yields c (io_catch m h) Q"
  unfolding yields_def by (rule valid_catch)

lemma yields_catch_value: "yields c m Q \<Longrightarrow> (\<And>e. yields c (h e) Q) \<Longrightarrow> yields c (catch_value m h) Q"
  unfolding yields_def by (rule valid_catch_value)

lemma yields_if [yields_intro]:
  "(b \<Longrightarrow> yields c m Q) \<Longrightarrow> (\<not> b \<Longrightarrow> yields c m' Q) \<Longrightarrow> yields c (if b then m else m') Q"
  by simp

lemma yields_option [yields_intro]:
  "(v = None \<Longrightarrow> yields c m Q) \<Longrightarrow> (\<And>x. v = Some x \<Longrightarrow> yields c (f x) Q) \<Longrightarrow>
   yields c (case v of None \<Rightarrow> m | Some x \<Rightarrow> f x) Q"
  by (cases v) auto

lemma yields_prod: "(\<And>a b. yields c (f a b) Q) \<Longrightarrow> yields c (case v of (a, b) \<Rightarrow> f a b) Q"
  by (cases v) simp

lemma yields_sum:
  "(\<And>e. v = Inl e \<Longrightarrow> yields c (g e) Q) \<Longrightarrow> (\<And>x. v = Inr x \<Longrightarrow> yields c (f x) Q) \<Longrightarrow>
   yields c (case v of Inl e \<Rightarrow> g e | Inr x \<Rightarrow> f x) Q"
  by (cases v) auto

lemma yields_catch_cmd: "yields c m Q \<Longrightarrow> (\<And>s. yields c (h s) Q) \<Longrightarrow> yields c (catch_cmd m h) Q"
  unfolding yields_def by (rule valid_catch_cmd)

section \<open>Operations that only look\<close>

fun read_only :: "cmd \<Rightarrow> bool" where
  "read_only (Ps services all) = True"
| "read_only PsStates = True"
| "read_only PsKeys = True"
| "read_only ConfigServices = True"
| "read_only ConfigImages = True"
| "read_only ServiceImagePairs = True"
| "read_only WaitSupported = True"
| "read_only (Inspect cid fmt) = True"
| "read_only (ImageInspect img fmt) = True"
| "read_only (VerifyTag img d) = True"
| "read_only (Verify img d) = True"
| "read_only k = False"

text \<open>Two worlds that differ at most in what is reported and remembered about an update.\<close>

definition same_effects :: "world \<Rightarrow> world \<Rightarrow> bool" where
  "same_effects w w' =
     (w_fs w' = w_fs w \<and> w_cmds w' = w_cmds w \<and> w_backup w' = w_backup w \<and> w_restored w' = w_restored w \<and>
      w_health_verified w' = w_health_verified w \<and> w_applied_tags w' = w_applied_tags w \<and>
      w_applied_pins w' = w_applied_pins w \<and> w_applied_unpins w' = w_applied_unpins w)"

named_theorems keeps "what keeps the invariant of an observer"

locale observer =
  fixes c :: ctx and I :: "world \<Rightarrow> bool"
  assumes looks: "\<And>w k. I w \<Longrightarrow> read_only k \<Longrightarrow> I (issue k c w)"
    and reports: "\<And>w w'. I w \<Longrightarrow> same_effects w w' \<Longrightarrow> I w'"
begin

lemma k_ret [keeps]: "keeps c I (io_ret x)" by (rule valid_ret)
lemma k_raise [keeps]: "keeps c I (io_raise e)" by (rule valid_raise)
lemma k_ask [keeps]: "keeps c I (ask f)" by (rule valid_ask)
lemma k_opt [keeps]: "keeps c I (opt f)" by (rule valid_opt)
lemma k_get [keeps]: "keeps c I (get f)" by (rule valid_get)

lemma k_put [keeps]: "(\<And>w. same_effects w (g w)) \<Longrightarrow> keeps c I (put g)"
  by (rule valid_put) (rule reports)

lemma k_progress [keeps]: "keeps c I (progress a b s)"
  by (rule valid_progress) (auto elim: reports simp: same_effects_def)

lemma k_run [keeps]: "read_only k \<Longrightarrow> keeps c I (run_cmd k)"
  by (rule valid_run_cmd) (auto intro: looks)

lemma k_query [keeps]: "read_only k \<Longrightarrow> keeps c I (query k f)"
  by (rule valid_query) (auto intro: looks)

lemma k_bind [keeps]: "keeps c I m \<Longrightarrow> (\<And>x. keeps c I (f x)) \<Longrightarrow> keeps c I (io_bind m f)"
  by (rule valid_bind)

lemma k_if [keeps]: "(b \<Longrightarrow> keeps c I m) \<Longrightarrow> (\<not> b \<Longrightarrow> keeps c I m') \<Longrightarrow> keeps c I (if b then m else m')"
  by simp

lemma k_catch_cmd [keeps]: "keeps c I m \<Longrightarrow> (\<And>s. keeps c I (h s)) \<Longrightarrow> keeps c I (catch_cmd m h)"
  by (rule valid_catch_cmd)

lemma k_catch_value [keeps]: "keeps c I m \<Longrightarrow> (\<And>e. keeps c I (h e)) \<Longrightarrow> keeps c I (catch_value m h)"
  by (rule valid_catch_value)

lemma k_only_if [keeps]: "(b \<Longrightarrow> keeps c I m) \<Longrightarrow> keeps c I (only_if b m)"
  by (rule valid_only_if)

lemma k_option [keeps]:
  "(v = None \<Longrightarrow> keeps c I m) \<Longrightarrow> (\<And>x. v = Some x \<Longrightarrow> keeps c I (f x)) \<Longrightarrow>
   keeps c I (case v of None \<Rightarrow> m | Some x \<Rightarrow> f x)"
  by (cases v) auto

lemma k_sum [keeps]:
  "(\<And>e. v = Inl e \<Longrightarrow> keeps c I (g e)) \<Longrightarrow> (\<And>x. v = Inr x \<Longrightarrow> keeps c I (f x)) \<Longrightarrow>
   keeps c I (case v of Inl e \<Rightarrow> g e | Inr x \<Rightarrow> f x)"
  by (cases v) auto

lemma k_prod [keeps]: "(\<And>a b. keeps c I (f a b)) \<Longrightarrow> keeps c I (case v of (a, b) \<Rightarrow> f a b)"
  by (cases v) auto

lemma k_list [keeps]:
  "keeps c I m \<Longrightarrow> (\<And>x xs. keeps c I (f x xs)) \<Longrightarrow> keeps c I (case v of [] \<Rightarrow> m | x # xs \<Rightarrow> f x xs)"
  by (cases v) auto

lemma k_try [keeps]: "read_only k \<Longrightarrow> keeps c I (try_cmd k)"
  unfolding try_cmd_def by (intro keeps)

lemma k_record_failure [keeps]: "keeps c I (record_failure st ms ph re ss e h n)"
  unfolding record_failure_def by (rule k_put) (simp add: same_effects_def)

lemma k_ps [keeps]: "keeps c I (ps_quiet_checked ss a)" "keeps c I (ps_quiet ss)"
  unfolding ps_quiet_checked_def ps_quiet_def by (auto intro!: keeps)

lemma k_inspections [keeps]:
  "keeps c I (image_id i)" "keeps c I (image_digest i)" "keeps c I (container_image_id i)"
  "keeps c I (container_state_error i)" "keeps c I (cid_summary i)" "keeps c I up_wait_supported"
  unfolding image_id_def image_digest_def container_image_id_def container_state_error_def
    cid_summary_def up_wait_supported_def by (auto intro!: keeps)

lemma k_lookup [keeps]: "keeps c I (lookup_services ss acc)"
  by (induction ss acc rule: lookup_services.induct) (auto intro!: keeps)

lemma k_running [keeps]: "keeps c I (running_service_containers ss)"
  unfolding running_service_containers_def by (auto intro!: keeps)

lemma k_summaries [keeps]: "keeps c I (summaries_of cids)"
  by (induction cids) (auto intro!: keeps)

lemma k_gate [keeps]: "keeps c I (health_gate_passed l)"
  unfolding health_gate_passed_def by (auto intro!: keeps)

lemma k_health_lines [keeps]: "keeps c I (health_lines f cids)"
proof (induction f cids rule: health_lines.induct)
  case (2 f cid cids)
  then show ?case
    unfolding health_lines.simps Let_def by (auto intro!: keeps)
qed (simp add: k_ret)

lemma k_capture [keeps]: "keeps c I (capture_health_details ss b)"
  unfolding capture_health_details_def by (auto intro!: keeps)

lemma k_probe [keeps]: "keeps c I (health_probe ss)"
  unfolding health_probe_def by (auto intro!: keeps)

lemma k_images [keeps]: "keeps c I (image_state_from d imgs)" "keeps c I (image_state_of imgs)"
proof -
  show 1: "keeps c I (image_state_from d imgs)" for d
    by (induction d imgs rule: image_state_from.induct) (auto intro!: keeps)
  show "keeps c I (image_state_of imgs)" unfolding image_state_of_def by (rule 1)
qed

lemma k_compare [keeps]: "keeps c I (compare_container_images cids i l)"
  by (induction cids i l rule: compare_container_images.induct) (auto intro!: keeps)

lemma k_check_service [keeps]: "keeps c I (check_service_images s i)"
  unfolding check_service_images_def by (auto intro!: keeps)

lemma k_check_images [keeps]: "keeps c I (check_container_images st ss after)"
proof -
  have "keeps c I (check_images_loop pulled ss ic)" for pulled ic
    by (induction pulled ss ic rule: check_images_loop.induct) (auto intro!: keeps)
  then show ?thesis unfolding check_container_images_def .
qed

lemma k_remove_orphans [keeps]: "keeps c I (remove_orphans st)"
  unfolding remove_orphans_def by (auto intro!: keeps)

lemma k_refresh [keeps]: "keeps c I (refresh_stack_images st)"
  unfolding refresh_stack_images_def by (auto intro!: keeps)

lemma k_set_stack [keeps]: "keeps c I (set_current_stack st)"
  unfolding set_current_stack_def by (rule k_put) (simp add: same_effects_def)

end

section \<open>Scopes, digests and the state before an update\<close>

context observer begin

lemma k_ps_lookup [keeps]: "keeps c I (ps_lookup strict ss)"
  unfolding ps_lookup_def by (auto intro!: keeps)

lemma k_missing [keeps]: "keeps c I (missing_network_mode_providers strict ss providers)"
proof -
  have "keeps c I (missing_providers_from strict providers ss missing todo)" for missing todo
    by (induction strict providers ss missing todo rule: missing_providers_from.induct)
      (auto intro!: keeps simp: Let_def)
  then show ?thesis unfolding missing_network_mode_providers_def .
qed

lemma k_stop_services [keeps]: "keeps c I (stack_stop_services strict)"
  unfolding stack_stop_services_def by (auto intro!: keeps)

lemma k_label_cid [keeps]: "keeps c I (stack_recreate_label_cid strict ss)"
proof -
  have "keeps c I (label_cid_from strict cids)" for cids
    by (induction strict cids rule: label_cid_from.induct) (auto intro!: keeps)
  then show ?thesis unfolding stack_recreate_label_cid_def by (auto intro!: keeps)
qed

lemma k_scope [keeps]: "keeps c I (update_scope_of st ms strict)"
  unfolding update_scope_of_def scope_of_services_def Let_def by (auto intro!: keeps)

lemma k_marks [keeps]: "keeps c I (mark_pre f)" "keeps c I (mark_exp f)"
  unfolding mark_pre_def mark_exp_def by (auto intro!: k_put simp: same_effects_def)

lemma k_verify [keeps]: "keeps c I (verify_tag_digest i d)" "keeps c I (verify_digest i d)"
  unfolding verify_tag_digest_def verify_digest_def by (auto intro!: keeps)

lemma k_preflight [keeps]: "keeps c I (preflight_expected_digests st ms)"
proof -
  have "keeps c I (preflight_requirements i rs ok)" for i rs ok
    by (induction i rs ok rule: preflight_requirements.induct) (auto intro!: keeps)
  then show ?thesis unfolding preflight_expected_digests_def .
qed

lemma k_requirement [keeps]: "keeps c I (verify_expected_digest_requirement i r)"
  unfolding verify_expected_digest_requirement_def by (auto intro!: keeps)

lemma k_expected [keeps]: "keeps c I (verify_expected_digests st ms)"
proof -
  have "keeps c I (verify_requirements i rs ok)" for i rs ok
    by (induction i rs ok rule: verify_requirements.induct) (auto intro!: keeps)
  then show ?thesis unfolding verify_expected_digests_def .
qed

lemma k_pins [keeps]: "keeps c I (verify_pins p)"
proof -
  have pin_imgs: "keeps c I (verify_digest_pin_images u imgs acc)" for u imgs acc
    by (induction u imgs acc rule: verify_digest_pin_images.induct) (auto intro!: keeps)
  have "keeps c I (verify_pin_updates imgs us ok)" for imgs us ok
    by (induction imgs us ok rule: verify_pin_updates.induct)
      (auto intro!: keeps pin_imgs simp: verify_digest_pin_update_def)
  then show ?thesis unfolding verify_pins_def verify_digest_pin_updates_def by (auto intro!: keeps)
qed

lemma k_refuse [keeps]: "keeps c I (refuse st ms re ss e n)"
  unfolding refuse_def by (auto intro!: keeps)

lemma k_preflight_stack [keeps]: "keeps c I (preflight_stack_expected_digests st ms)"
  unfolding preflight_stack_expected_digests_def refuse_outcome_def by (auto intro!: keeps)

lemma k_file_set [keeps]: "keeps c I (compose_file_set_refusal st ms ss states)"
  unfolding compose_file_set_refusal_def Let_def by (auto intro!: keeps k_put simp: same_effects_def)

lemma k_start_failed [keeps]: "keeps c I (start_failed_target s states ts)"
proof -
  have "keeps c I (any_state_error cids)" for cids
    by (induction cids rule: any_state_error.induct) (auto intro!: keeps)
  then show ?thesis
    unfolding start_failed_target_def container_start_failed_def by (auto intro!: keeps)
qed

lemma k_split [keeps]: "keeps c I (split_runtime st ms f ss acc)"
proof (induction ss arbitrary: acc)
  case (Cons s ss)
  show ?case
    unfolding split_runtime.simps service_unverifiable_def by (intro keeps Cons.IH)
qed (simp add: k_ret)

lemma k_runtime [keeps]: "keeps c I (initial_service_runtime st scope ms)"
  unfolding initial_service_runtime_def read_runtime_def runtime_state_unverified_def Let_def
  by (auto intro!: keeps k_put simp: same_effects_def)

lemma k_remember [keeps]: "keeps c I (remember_images p)"
  unfolding remember_images_def by (rule k_put) (simp add: same_effects_def)

lemma k_behind [keeps]: "keeps c I (containers_behind p check)"
proof -
  have "keeps c I (previous_images b ds prev)" for b ds prev
    by (induction b ds prev rule: previous_images.induct) (auto intro!: keeps)
  then show ?thesis
    unfolding containers_behind_def Let_def by (auto intro!: keeps k_put simp: same_effects_def)
qed

lemma k_unfinished [keeps]: "keeps c I (find_unfinished_update p)"
  unfolding find_unfinished_update_def Let_def by (auto intro!: keeps)


lemma wait_loop_keeps: "d = c \<Longrightarrow> I w \<Longrightarrow> holds (wait_loop ss n t) d w (ends (\<lambda>_. I) I)"
proof (induction ss n t d w rule: wait_loop.induct)
  case (1 ss n t d w)
  obtain r w1 where run: "health_probe ss d w = (r, w1)" by (cases "health_probe ss d w")
  have e: "ends (\<lambda>_. I) I r w1" using valid_run [OF k_probe \<open>I w\<close> run [unfolded \<open>d = c\<close>]] .
  show ?case
  proof (cases r)
    case (Inl x)
    then show ?thesis using run e by (simp add: holds_def wait_loop.simps)
  next
    case (Inr ok)
    then have I1: "I w1" using e by simp
    have keep: "keeps c I m \<Longrightarrow> holds m c w1 (ends (\<lambda>_. I) I)" for m :: "bool act"
      using I1 by (simp add: valid_def)
    have next_probe: "I (w1\<lparr>w_clock := w_clock w1 + 2\<rparr>)"
      using I1 by (rule reports) (simp add: same_effects_def)
    consider "ok" | "\<not> ok" "w_clock w1 - t \<ge> n" | "\<not> ok" "\<not> w_clock w1 - t \<ge> n" by blast
    then show ?thesis
    proof cases
      case 1
      then have "holds (wait_loop ss n t) d w Q =
          holds (io_bind (progress ''health'' ''success'' ss) (\<lambda>_. io_ret True)) c w1 Q" for Q
        using run Inr \<open>d = c\<close> by (simp add: holds_def wait_loop.simps [of ss n t])
      then show ?thesis by (auto intro!: keep keeps)
    next
      case 2
      then have "holds (wait_loop ss n t) d w Q =
          holds (io_bind (capture_health_details ss True) (\<lambda>_.
            io_bind (progress ''health'' ''failure'' ss) (\<lambda>_. io_ret False))) c w1 Q" for Q
        using run Inr \<open>d = c\<close> by (simp add: holds_def wait_loop.simps [of ss n t])
      then show ?thesis by (auto intro!: keep keeps)
    next
      case 3
      then have "holds (wait_loop ss n t) d (w1\<lparr>w_clock := w_clock w1 + 2\<rparr>) (ends (\<lambda>_. I) I)"
        using 1 run Inr next_probe by auto
      then show ?thesis using run Inr 3 by (simp add: holds_def wait_loop.simps [of ss n t d w])
    qed
  qed
qed

lemma k_wait_for_health [keeps]: "keeps c I (wait_for_health ss)"
proof -
  have "keeps c I (wait_loop ss n t)" for n t
    by (rule validI) (rule wait_loop_keeps [OF refl])
  moreover have "keeps c I (sleep k)" for k
    unfolding sleep_def by (rule k_put) (simp add: same_effects_def)
  ultimately show ?thesis unfolding wait_for_health_def by (intro keeps)
qed

end

end
