(* ===== verification/Lifecycle_Commands.thy ===== *)
theory Lifecycle_Commands
  imports Lifecycle_Invariants
begin

text \<open>
  Which container commands an update may issue. The locale \<open>commander\<close> adds to an observer the
  commands its invariant allows; \<open>tracer\<close> has an invariant of the commands alone, so that file
  operations keep it, and proves that a whole update issues only commands for the services it
  plans: the running ones are started again, the stopped ones never.
\<close>

section \<open>Allowed commands\<close>

locale commander = observer c I for c I +
  fixes allowed :: "cmd \<Rightarrow> bool"
  assumes acts: "\<And>w k. I w \<Longrightarrow> allowed k \<Longrightarrow> I (issue k c w)"
begin

lemma k_act [keeps]: "allowed k \<Longrightarrow> keeps c I (run_cmd k)"
  by (rule valid_run_cmd) (auto intro: acts)

lemma k_restore_stopped: "allowed (Stop ss) \<Longrightarrow> keeps c I (restore_services_stopped ss)"
  unfolding restore_services_stopped_def by (intro keeps)

lemma k_verify_stopped: "allowed (Stop ss) \<Longrightarrow> keeps c I (verify_services_stopped ss)"
  unfolding verify_services_stopped_def by (intro keeps k_restore_stopped) simp_all

lemma k_up_no_start:
  "allowed (Stop ss) \<Longrightarrow> (\<And>orphans. allowed (Up ss False fr True True orphans)) \<Longrightarrow>
   keeps c I (run_compose_up_no_start st ss fr)"
  unfolding run_compose_up_no_start_def by (intro keeps k_verify_stopped) simp_all

lemma k_up:
  "(\<And>wait orphans. allowed (Up ss wait fr nd False orphans)) \<Longrightarrow> keeps c I (run_compose_up st ss fr nd)"
  unfolding run_compose_up_def by (intro keeps) simp_all

end

text \<open>What the services of a plan allow: running services are acted on, stopped ones only recreated or stopped.\<close>

fun plan_allows :: "plan \<Rightarrow> cmd \<Rightarrow> bool" where
  "plan_allows p (Up ss wait fr nd no_start orphans) =
     (if no_start then ss = p_stopped p \<and> nd
      else set ss \<subseteq> set (p_running p) \<and> (p_stopped p \<noteq> [] \<longrightarrow> nd))"
| "plan_allows p (Stop ss) = (set ss \<subseteq> set (p_running p) \<or> ss = p_stopped p)"
| "plan_allows p (Start ss) = (set ss \<subseteq> set (p_running p))"
| "plan_allows p (Pause ss) = (set ss \<subseteq> set (p_running p))"
| "plan_allows p (Unpause ss) = (set ss \<subseteq> set (p_running p))"
| "plan_allows p (Pull ss) = (ss = p_pull_services p)"
| "plan_allows p k = True"

lemma read_only_allowed: "read_only k \<Longrightarrow> plan_allows p k"
  by (cases k) auto

lemma services_to_stop_running: "set (services_to_stop p) \<subseteq> set (p_running p)"
  unfolding services_to_stop_def running_stop_services_def by (auto split: option.splits)

locale planned_commander = commander c I allowed for c I allowed +
  fixes p :: plan
  assumes planned: "\<And>k. plan_allows p k \<Longrightarrow> allowed k"
begin

lemma k_restore_services [keeps]: "keeps c I (restore_tag_update_services p)"
  unfolding restore_tag_update_services_def
  by (intro keeps k_up k_up_no_start k_verify_stopped planned) simp_all

lemma k_prepare [keeps]: "keeps c I (prepare_for_recreate p)"
  unfolding prepare_for_recreate_def
  by (intro keeps planned) (use services_to_stop_running [of p] in auto)

lemma k_restart [keeps]: "keeps c I (restart_services_stopped_for_update p)"
  unfolding restart_services_stopped_for_update_def Let_def
  by (intro keeps planned) (use services_to_stop_running [of p] in auto)

lemma k_pull [keeps]: "keeps c I (pull_images p)"
  unfolding pull_images_def by (intro keeps planned) simp

lemma k_down_failed [keeps]: "keeps c I (record_down_failed p stop note)"
  unfolding record_down_failed_def by (intro keeps)

lemma k_pop [keeps]: "keeps c I (pop_runtime_after p)"
  unfolding pop_runtime_after_def by (rule k_put) (simp add: same_effects_def)

end

section \<open>Invariants of the commands alone\<close>

locale tracer = planned_commander c I allowed p for c I allowed p +
  assumes traces: "\<And>w w'. I w \<Longrightarrow> w_cmds w' = w_cmds w \<Longrightarrow> I w'"
begin

lemma t_put [keeps]: "(\<And>w. w_cmds (g w) = w_cmds w) \<Longrightarrow> keeps c I (put g)"
  by (rule valid_put) (rule traces)

lemma t_lift [keeps]: "keeps c I (lift_fs m)"
  by (rule validI) (auto simp: holds_def lift_fs_def elim: traces split: prod.splits sum.splits)

lemma t_catch [keeps]: "keeps c I m \<Longrightarrow> (\<And>e. keeps c I (h e)) \<Longrightarrow> keeps c I (io_catch m h)"
  by (rule valid_catch)

lemma t_catch_file [keeps]: "keeps c I m \<Longrightarrow> (\<And>s. keeps c I (h s)) \<Longrightarrow> keeps c I (catch_file m h)"
  by (rule valid_catch_file)

lemma t_let [keeps]: "(\<And>x. keeps c I (f x)) \<Longrightarrow> keeps c I (let x = v in f x)"
  by simp

lemma t_roll_back [keeps]: "keeps c I (roll_back p bk)"
  unfolding roll_back_def restore_compose_def by (intro keeps) simp_all

lemma t_catch_os [keeps]: "keeps c I m \<Longrightarrow> (\<And>s. keeps c I (h s)) \<Longrightarrow> keeps c I (catch_os m h)"
  unfolding catch_os_def by (rule t_catch) (auto intro: keeps split: lexc.splits exc.splits)

lemma t_incident [keeps]: "keeps c I (write_tag_incident_log p re ro he)"
  unfolding write_tag_incident_log_def by (intro keeps)

lemma t_failure [keeps]: "keeps c I (handle_compose_rewrite_failure p re ph e h ms)"
  unfolding handle_compose_rewrite_failure_def handle_tag_update_failure_def
  by (intro keeps)

lemma t_rewrite_failed [keeps]: "keeps c I (rewrite_failed p b ph re n)"
  unfolding rewrite_failed_def by (intro keeps)

lemma t_fail_rewrite [keeps]: "keeps c I (fail_rewrite p re ph)"
  unfolding fail_rewrite_def by (intro keeps)

lemma t_backup [keeps]: "keeps c I (ensure_compose_backup p)"
  unfolding ensure_compose_backup_def by (intro keeps) simp_all

lemma t_rendered [keeps]: "keeps c I (lift_rendered r)"
  unfolding lift_rendered_def by (intro keeps)

lemma t_applies [keeps]:
  "keeps c I (apply_compose_tag_updates p us ss h)" "keeps c I (apply_compose_digest_pins p ps la ss h)"
  "keeps c I (apply_compose_digest_unpins p ups tf h)"
  unfolding apply_compose_tag_updates_def apply_compose_digest_pins_def apply_compose_digest_unpins_def
    replace_compose_def
  by (intro keeps)+

lemma t_tags [keeps]: "keeps c I (lifecycle_tag_updates p)"
  unfolding lifecycle_tag_updates_def the_backup_def expected_compose_hash_def by (intro keeps) simp_all

lemma t_unpins [keeps]: "keeps c I (lifecycle_digest_unpin_updates p)"
  unfolding lifecycle_digest_unpin_updates_def the_backup_def expected_compose_hash_def
  by (intro keeps) simp_all

lemma t_pins [keeps]: "keeps c I (lifecycle_digest_pin_updates p)"
  unfolding lifecycle_digest_pin_updates_def the_backup_def expected_compose_hash_def
  by (intro keeps) simp_all

lemma t_undo [keeps]: "keeps c I rewrite_to_undo"
  unfolding rewrite_to_undo_def by (intro keeps)

lemma t_pull_verify [keeps]: "keeps c I (pull_and_verify_images p)"
  unfolding pull_and_verify_images_def pull_failed_def expected_digests_failed_def pins_failed_def
  by (intro keeps) simp_all

lemma t_finish_pull [keeps]: "keeps c I (finish_pull_phase p)"
  unfolding finish_pull_phase_def already_current_def by (intro keeps)

lemma t_unpause [keeps]: "keeps c I (unpause_after_recreate p up)"
  unfolding unpause_after_recreate_def by (intro keeps planned) simp_all

lemma t_up_failure [keeps]: "keeps c I (handle_compose_up_failure p stop up b1 b2)"
  unfolding handle_compose_up_failure_def by (intro keeps)

lemma t_finish_health [keeps]: "keeps c I (finish_health_after_recreate p stop up)"
  unfolding finish_health_after_recreate_def finish_verified_def
    remember_applied_digest_changes_def remember_applied_digest_pins_def remember_applied_digest_unpins_def
  by (intro keeps) simp_all

lemma t_recreate [keeps]: "keeps c I (recreate_and_verify_stack p)"
  unfolding recreate_and_verify_stack_def recreate_running_def after_recreate_def
  by (intro keeps k_up k_up_no_start k_verify_stopped planned) simp_all

lemma t_steps: "keeps c I (run_stack_update_steps p)"
  unfolding run_stack_update_steps_def run_steps.simps by (intro keeps)

lemma t_guarded: "keeps c I (run_guarded p)"
  unfolding run_guarded_def suppress_def restore_compose_after_abort_def restore_compose_def
    discard_compose_backup_def
  by (intro keeps t_steps) simp_all

end

end
