(* ===== verification/Lifecycle_Example.thy ===== *)
theory Lifecycle_Example
  imports Lifecycle
begin

text \<open>
  A concrete stack on a concrete machine, for the examples that show the hypotheses of the
  lifecycle theorems can hold: service \<open>web\<close> runs, service \<open>db\<close> shares its network and is
  stopped, and every command is answered.
\<close>

definition demo_stack :: compose_stack where
  "demo_stack = \<lparr>cs_index = 0, cs_directory = ''/s'', cs_file = ''c.yml'', cs_name = ''s'',
     cs_images = [''nginx:1'', ''pg:2''],
     cs_service_images =
       [\<lparr>si_service = ''web'', si_image = ''nginx:1'', si_network_mode = '''', si_labels = [], si_platform = None\<rparr>,
        \<lparr>si_service = ''db'', si_image = ''pg:2'', si_network_mode = ''service:web'', si_labels = [],
          si_platform = None\<rparr>],
     cs_project_directory = None, cs_project_name = ''p''\<rparr>"

definition demo_target :: wud_target where
  "demo_target = \<lparr>wt_line_no = 1, wt_raw = ''nginx:1'', wt_first = ''nginx:1'', wt_key = ''nginx:1'',
     wt_repo = ''nginx'', wt_has_tag = True, wt_allow_repo = False, wt_digest = '''', wt_desired_tag = '''',
     wt_tag_token = '''', wt_platform = None\<rparr>"

definition demo_match :: match_t where
  "demo_match = \<lparr>m_stack = demo_stack, m_target = demo_target, m_resolved = ''nginx:1'',
     m_compose_image = ''nginx:1'', m_service = ''web''\<rparr>"

definition is_pull :: "cmd \<Rightarrow> bool" where
  "is_pull k = (case k of Pull ss \<Rightarrow> True | _ \<Rightarrow> False)"

definition tab :: char where
  "tab = CHR 0x09"

definition runtime_row :: "string \<Rightarrow> string \<Rightarrow> string" where
  "runtime_row service state = join_with [tab] [''/s'', ''/s/c.yml'', ''p'', service, '''', state]"

definition demo_resp :: "cmd list \<Rightarrow> cmd \<Rightarrow> resp" where
  "demo_resp h k =
     (case k of
        PsStates \<Rightarrow> Done [runtime_row ''web'' ''running'', runtime_row ''db'' ''exited'']
      | ImageInspect img fmt \<Rightarrow> Done [if list_ex is_pull h \<and> img = ''nginx:1'' then ''new'' else ''old'' @ img]
      | Ps ss all \<Rightarrow> Done (if ss = Some [''db''] \<and> \<not> all then [] else [''c1''])
      | Inspect cid fmt \<Rightarrow> Done [if fmt = ''image'' then ''new'' else ''/web|running|healthy|0|0'']
      | _ \<Rightarrow> Done [])"

definition demo_opts :: options_t where
  "demo_opts = \<lparr>op_mode = ''stop'', op_max_wait = 60, op_digest_pin_updates = False, op_digest_pin_plan = [],
     op_digest_unpin_plan = [], op_tag_stream_updates = [], op_label_approvals = [], op_protected_container = None\<rparr>"

definition demo_verify :: verify_result where
  "demo_verify = \<lparr>vr_status = ''ok'', vr_ok = True, vr_reason = '''', vr_digest = ''''\<rparr>"

definition demo_resolve :: resolve_result where
  "demo_resolve = \<lparr>rr_ok = True, rr_reason = '''', rr_digest = ''sha256:a'', rr_error = ''''\<rparr>"

definition demo_ctx :: ctx where
  "demo_ctx = \<lparr>c_resp = demo_resp, c_pairs = (\<lambda>h. []), c_verify = (\<lambda>h i d. demo_verify),
     c_verify_tag = (\<lambda>h i d. demo_verify), c_resolve = (\<lambda>x. demo_resolve), c_delay = (\<lambda>h. 1),
     c_callback_raises = (\<lambda>n. False), c_fault = (\<lambda>n. False), c_sha = (\<lambda>t. t), c_unsup = False,
     c_norm = (\<lambda>p. p), c_real = (\<lambda>p. p), c_display_start = (\<lambda>st ss. ''docker compose start''),
     c_sanitize = (\<lambda>t. t), c_owner = \<lparr>oc_uid = None, oc_gid = None\<rparr>,
     c_new_meta = \<lparr>fm_mode = 384, fm_uid = 0, fm_gid = 0\<rparr>, c_log_file = ''/l/run.log'',
     c_stamp = (\<lambda>h. ''2026-01-01T00:00:00''), c_file_stamp = (\<lambda>h. ''2026-01-01T00-00-00''), c_render_tags = (\<lambda>us ss t. Inr (t, [])),
     c_render_pins = (\<lambda>us la ss t. Inr (t, [])), c_render_unpins = (\<lambda>us tf t. Inr (t, [])),
     c_opts = demo_opts, c_discovered = [demo_stack], c_verified_scopes = (\<lambda>k. None)\<rparr>"

definition demo_file :: fentry where
  "demo_file = \<lparr>f_text = ''services:'', f_meta = \<lparr>fm_mode = 420, fm_uid = 0, fm_gid = 0\<rparr>\<rparr>"

definition demo_world :: world where
  "demo_world = \<lparr>w_fs = \<lparr>fs_files = (\<lambda>q. if q = Named ''/s/c.yml'' then Some demo_file else None), fs_next = 0,
       fs_ops = 0, fs_written = [], fs_dirs = {}, fs_held = {}\<rparr>,
     w_cmds = [], w_clock = 0, w_failures = [], w_progress = [], w_pre = no_outcomes,
     w_exp = no_outcomes, w_runtime = [], w_runtime_after = [], w_image_states = [],
     w_retry_previous = [], w_keep_orphans = {}, w_pinned = [], w_unpinned = [], w_current_stack = demo_stack, w_images = [],
     w_after = [], w_applied_tags = [], w_applied_pins = [], w_applied_unpins = [], w_backup = None,
     w_restored = False, w_health_verified = False\<rparr>"

definition demo_built :: "(lexc + (stack_status + plan)) \<times> world" where
  "demo_built = build_stack_update_state demo_stack [demo_match] demo_ctx demo_world"

definition demo_plan :: plan where
  "demo_plan = projr (projr (fst demo_built))"

lemma demo_built_ok:
  "(case fst demo_built of Inr (Inr p) \<Rightarrow> p_stopped p = [''db''] \<and> p_running p = [''web''] | _ \<Rightarrow> False)"
  by code_simp

text \<open>A plan written out: \<open>web\<close> runs and its container failed to start before.\<close>

definition small_plan :: plan where
  "small_plan = \<lparr>p_stack = demo_stack, p_matches = [demo_match],
     p_scope = \<lparr>sc_services = Some [''web''], sc_pull_services = Some [''web''], sc_stack_reason = '''',
       sc_stop_services = Some [''web''], sc_force_recreate = False, sc_up_no_deps = True\<rparr>,
     p_before = [], p_pins = [], p_unpins = [], p_tags = [], p_streams = [],
     p_running = [''web''], p_stopped = [], p_start_failed = [''web'']\<rparr>"

text \<open>The same machine interrupted while it stops a container.\<close>

definition stop_ctx :: ctx where
  "stop_ctx = demo_ctx\<lparr>c_resp := \<lambda>h k. case k of Stop ss \<Rightarrow> Interrupted | _ \<Rightarrow> demo_resp h k\<rparr>"

definition demo_pulled :: world where
  "demo_pulled = snd (pull_and_verify_images small_plan stop_ctx demo_world)"

definition demo_finished :: world where
  "demo_finished = snd (finish_pull_phase small_plan stop_ctx demo_pulled)"

definition demo_popped :: world where
  "demo_popped = snd (pop_runtime_after small_plan stop_ctx demo_finished)"

definition demo_announced :: world where
  "demo_announced = snd (progress ''recreate'' ''running'' (p_services small_plan) stop_ctx demo_popped)"

definition demo_interrupted :: world where
  "demo_interrupted = snd (prepare_for_recreate small_plan stop_ctx demo_announced)"

lemma demo_pull: "pull_and_verify_images small_plan stop_ctx demo_world = (Inr None, demo_pulled)"
proof -
  have "fst (pull_and_verify_images small_plan stop_ctx demo_world) = Inr None" by code_simp
  then show ?thesis by (simp add: demo_pulled_def prod_eq_iff)
qed

lemma demo_finish: "finish_pull_phase small_plan stop_ctx demo_pulled = (Inr None, demo_finished)"
proof -
  have "fst (finish_pull_phase small_plan stop_ctx demo_pulled) = Inr None" by code_simp
  then show ?thesis by (simp add: demo_finished_def prod_eq_iff)
qed

lemma demo_recreate: "recreate_and_verify_stack small_plan stop_ctx demo_finished = (Inl Abort, demo_interrupted)"
proof -
  have pop: "pop_runtime_after small_plan stop_ctx demo_finished = (Inr (), demo_popped)"
    by (simp add: demo_popped_def pop_runtime_after_def put_def)
  have "fst (progress ''recreate'' ''running'' (p_services small_plan) stop_ctx demo_popped) = Inr ()"
    by (simp add: progress_def stop_ctx_def demo_ctx_def)
  then have ann: "progress ''recreate'' ''running'' (p_services small_plan) stop_ctx demo_popped = (Inr (), demo_announced)"
    by (simp add: demo_announced_def prod_eq_iff)
  have "fst (prepare_for_recreate small_plan stop_ctx demo_announced) = Inl Abort" by code_simp
  then have prep: "prepare_for_recreate small_plan stop_ctx demo_announced = (Inl Abort, demo_interrupted)"
    by (simp add: demo_interrupted_def prod_eq_iff)
  have none: "p_stopped small_plan = []" by (simp add: small_plan_def)
  show ?thesis
    unfolding recreate_and_verify_stack_def recreate_running_def
    by (simp only: io_bind_def pop ann prep none io_ret_def up_result.simps prod.case sum.case if_False if_True simp_thms)
qed

lemma demo_run: "run_stack_update_steps small_plan stop_ctx demo_world = (Inl Abort, demo_interrupted)"
proof -
  have skip: "lifecycle_tag_updates small_plan stop_ctx w = (Inr None, w)"
    "lifecycle_digest_unpin_updates small_plan stop_ctx w = (Inr None, w)"
    "lifecycle_digest_pin_updates small_plan stop_ctx w = (Inr None, w)" for w
    by (simp_all add: small_plan_def lifecycle_tag_updates_def lifecycle_digest_unpin_updates_def
        lifecycle_digest_pin_updates_def io_ret_def)
  show ?thesis
    unfolding run_stack_update_steps_def run_steps.simps
    by (simp only: io_bind_def skip demo_pull demo_finish demo_recreate prod.case sum.case option.case)
qed

end
