(* ===== verification/Lifecycle_Planned.thy ===== *)
theory Lifecycle_Planned
  imports Lifecycle_Commands Lifecycle_Example
begin

text \<open>
  An update acts on the services it planned for: the split into running and stopped services made
  before the update, and the commands that follow from it.
\<close>

section \<open>The split into running and stopped services\<close>

text \<open>\<open>ss\<close> are the services still to be read.\<close>

definition split_ok :: "(string \<Rightarrow> string list) \<Rightarrow> string list \<Rightarrow> string set \<Rightarrow> runtime_split \<Rightarrow> bool" where
  "split_ok observed ss S acc =
     (case acc of (running, stopped, start_failed) \<Rightarrow>
        distinct (running @ stopped @ ss) \<and> set running \<union> set stopped \<union> set ss = S \<and>
        set start_failed \<subseteq> set running \<and>
        (\<forall>s \<in> set running. set (observed s) = {''running''} \<or> s \<in> set start_failed) \<and>
        (\<forall>s \<in> set stopped. set (observed s) \<noteq> {''running''}))"

lemma split_ok_add:
  assumes "split_ok observed (s # ss) S acc" and "sf \<Longrightarrow> set (observed s) = {''created''}"
  shows "split_ok observed ss S (add_service s (observed s) sf acc)"
proof -
  obtain ru st fl where acc: "acc = (ru, st, fl)" by (cases acc)
  note pre = assms(1) [unfolded acc split_ok_def prod.case]
  have d: "distinct (ru @ st @ s # ss)" and S: "S = set ru \<union> set st \<union> set (s # ss)"
    and fl: "set fl \<subseteq> set ru" and ru: "\<And>x. x \<in> set ru \<Longrightarrow> set (observed x) = {''running''} \<or> x \<in> set fl"
    and st: "\<And>x. x \<in> set st \<Longrightarrow> set (observed x) \<noteq> {''running''}"
    using pre by blast+
  have d': "distinct ((ru @ [s]) @ st @ ss)" "distinct (ru @ (st @ [s]) @ ss)" using d by auto
  have S': "set (ru @ [s]) \<union> set st \<union> set ss = S" "set ru \<union> set (st @ [s]) \<union> set ss = S" using S by auto
  consider sf | "\<not> sf" "set (observed s) = {''running''}" | "\<not> sf" "set (observed s) \<noteq> {''running''}" by blast
  then show ?thesis
  proof cases
    case 1
    have ru': "\<forall>x \<in> set (ru @ [s]). set (observed x) = {''running''} \<or> x \<in> set (fl @ [s])"
      and fl': "set (fl @ [s]) \<subseteq> set (ru @ [s])" using ru fl by auto
    show ?thesis using 1 d'(1) S'(1) ru' fl' st unfolding acc add_service_def split_ok_def by simp
  next
    case 2
    have ru': "\<forall>x \<in> set (ru @ [s]). set (observed x) = {''running''} \<or> x \<in> set fl"
      and fl': "set fl \<subseteq> set (ru @ [s])" using ru fl 2 by auto
    show ?thesis using 2 d'(1) S'(1) ru' fl' st unfolding acc add_service_def split_ok_def by simp
  next
    case 3
    have st': "\<forall>x \<in> set (st @ [s]). set (observed x) \<noteq> {''running''}" using st 3 by auto
    show ?thesis using 3 d'(2) S'(2) ru fl st' unfolding acc add_service_def split_ok_def by simp
  qed
qed

lemma start_failed_created:
  "yields c (start_failed_target s states ts) (\<lambda>b. b \<longrightarrow> states = {''created''})"
  unfolding start_failed_target_def yields_def
  by (cases "states = {''created''}")
    (simp_all add: valid_ret valid_weaken [OF yields_any [unfolded yields_def]])

definition split_result :: "(runtime_split \<Rightarrow> bool) \<Rightarrow> stack_status + runtime_split \<Rightarrow> bool" where
  "split_result P r = (case r of Inl s \<Rightarrow> True | Inr rt \<Rightarrow> P rt)"

lemma split_result_simps [simp]: "split_result P (Inl s)" "split_result P (Inr rt) = P rt"
  by (simp_all add: split_result_def)

lemma split_runtime_ok:
  "split_ok observed ss S acc \<Longrightarrow>
   yields c (split_runtime stack matches observed ss acc) (split_result (split_ok observed [] S))"
proof (induction ss arbitrary: acc)
  case (Cons s ss)
  show ?case
    unfolding split_runtime.simps service_unverifiable_def
    by (intro yields_intro yields_then [of c "\<lambda>s. io_ret (Inl s)"] yields_bind [OF start_failed_created]
        Cons.IH split_ok_add [OF Cons.prems]) auto
qed (simp add: yields_ret)

text \<open>What \<open>initial_service_runtime\<close> reads as the state of a service.\<close>

definition observed_states :: "ctx \<Rightarrow> compose_stack \<Rightarrow> string list \<Rightarrow> string \<Rightarrow> string list" where
  "observed_states c stack rows service =
     compose_service_runtime_states (c_norm c) stack service
       (compose_runtime_service_states (c_norm c) rows)"

definition split_of :: "ctx \<Rightarrow> compose_stack \<Rightarrow> string list \<Rightarrow> runtime_split \<Rightarrow> bool" where
  "split_of c stack services rt =
     (\<exists>rows. split_ok (observed_states c stack rows) [] (set services) rt)"

lemma read_runtime_ok:
  assumes "distinct services"
  shows "yields c (read_runtime stack matches services) (split_result (split_of c stack services))"
proof -
  have start: "split_ok obs services (set services) ([], [], [])" for obs
    using assms by (simp add: split_ok_def)
  have obs: "(\<lambda>service. compose_service_runtime_states (c_norm c) stack service
         (compose_runtime_service_states (c_norm c) rows)) = observed_states c stack rows" for rows
    by (rule ext) (simp add: observed_states_def)
  have split: "yields c (split_runtime stack matches (observed_states c stack rows) services ([], [], []))
      (split_result (split_of c stack services))" for rows
    by (rule yields_mono [OF split_runtime_ok [OF start]]) (auto simp: split_result_def split_of_def split: sum.splits)
  show ?thesis
    unfolding read_runtime_def Let_def
    by (intro yields_intro yields_bind [OF yields_ask] yields_then)
      (auto simp: obs intro!: yields_intro split split: option.splits)
qed

lemma initial_runtime_ok:
  "yields c (initial_service_runtime stack scope matches)
     (split_result (split_of c stack (runtime_services_for_scope scope)))"
proof -
  let ?ss = "runtime_services_for_scope scope"
  have d: "distinct ?ss" by (simp add: runtime_services_for_scope_def ordered_unique_def)
  have read: "yields c (catch_value (read_runtime stack matches ?ss)
      (\<lambda>e. io_bind (runtime_state_unverified stack matches ?ss e) (\<lambda>s. io_ret (Inl s))))
    (split_result (split_of c stack ?ss))"
    by (intro yields_catch_value read_runtime_ok [OF d] yields_then yields_ret) simp
  show ?thesis
    unfolding initial_service_runtime_def Let_def
    by (intro yields_intro yields_bind [OF read] yields_then)
      (auto intro!: yields_intro yields_then split: sum.splits)
qed

section \<open>The plan of an update\<close>

definition plan_of :: "ctx \<Rightarrow> compose_stack \<Rightarrow> match_t list \<Rightarrow> stack_status + plan \<Rightarrow> bool" where
  "plan_of c stack matches r =
     (case r of Inl s \<Rightarrow> True
      | Inr p \<Rightarrow> p_stack p = stack \<and> p_matches p = matches \<and>
          split_of c stack (runtime_services_for_scope (p_scope p)) (p_running p, p_stopped p, p_start_failed p))"

lemma finish_state_ok:
  "split_of c stack (runtime_services_for_scope scope) rt \<Longrightarrow>
   yields c (finish_state stack matches scope rt before) (plan_of c stack matches)"
  unfolding finish_state_def Let_def
  by (intro yields_bind [OF yields_ask])
    (auto intro!: yields_intro yields_then simp: plan_of_def split: sum.splits)

lemma build_ok: "yields c (build_stack_update_state stack matches) (plan_of c stack matches)"
proof -
  have "yields c (case r of Inl s \<Rightarrow> io_ret (Inl s)
      | Inr rt \<Rightarrow> io_bind (image_state_of (cs_images stack)) (\<lambda>before.
          finish_state stack matches scope rt before)) (plan_of c stack matches)"
    if "split_result (split_of c stack (runtime_services_for_scope scope)) r" for r scope
    using that by (cases r) (auto intro!: yields_ret yields_then finish_state_ok simp: plan_of_def)
  then show ?thesis
    unfolding build_stack_update_state_def
    by (intro yields_then yields_if yields_bind [OF initial_runtime_ok] yields_ret) (simp_all add: plan_of_def)
qed

section \<open>Commands of an update\<close>

text \<open>The commands issued after \<open>h\<close> all satisfy \<open>ok\<close>.\<close>

definition issued_only :: "(cmd \<Rightarrow> bool) \<Rightarrow> cmd list \<Rightarrow> world \<Rightarrow> bool" where
  "issued_only ok h w = (\<exists>ks. w_cmds w = h @ ks \<and> (\<forall>k \<in> set ks. ok k))"

lemma issued_only_issue: "issued_only ok h w \<Longrightarrow> ok k \<Longrightarrow> issued_only ok h (issue k c w)"
  by (force simp: issued_only_def issue_def)

lemma issued_only_same: "issued_only ok h w \<Longrightarrow> w_cmds w' = w_cmds w \<Longrightarrow> issued_only ok h w'"
  by (simp add: issued_only_def)

lemma same_effects_cmds: "same_effects w w' \<Longrightarrow> w_cmds w' = w_cmds w"
  by (simp add: same_effects_def)

interpretation looking: observer c "issued_only read_only h" for c h
  by unfold_locales (blast intro: issued_only_issue issued_only_same same_effects_cmds)+

interpretation planned: tracer c "issued_only (plan_allows p) h" "plan_allows p" p for c p h
  by unfold_locales (blast intro: issued_only_issue read_only_allowed issued_only_same same_effects_cmds)+

lemma build_looks: "keeps c (issued_only read_only h) (build_stack_update_state stack matches)"
  unfolding build_stack_update_state_def scope_unverified_def finish_state_def Let_def
  by (intro looking.k_bind looking.k_if looking.k_sum looking.k_prod looking.k_ask looking.k_ret
      looking.k_record_failure looking.k_progress looking.k_scope looking.k_runtime looking.k_images
      valid_put) (auto simp: issued_only_def reset_update_state_def)

text \<open>A command that can bring the container of \<open>s\<close> to life.\<close>

fun starts :: "string \<Rightarrow> cmd \<Rightarrow> bool" where
  "starts s (Up ss wait fr nd no_start orphans) = (\<not> no_start \<and> (s \<in> set ss \<or> \<not> nd))"
| "starts s (Start ss) = (s \<in> set ss)"
| "starts s (Unpause ss) = (s \<in> set ss)"
| "starts s k = False"

lemma planned_not_started:
  "plan_allows p k \<Longrightarrow> s \<in> set (p_stopped p) \<Longrightarrow> set (p_running p) \<inter> set (p_stopped p) = {} \<Longrightarrow>
   \<not> starts s k"
  by (cases k) (auto split: if_splits)

lemma discard_traced: "keeps c (issued_only (plan_allows p) h) (discard_compose_backup st)"
  unfolding discard_compose_backup_def
  by (intro planned.k_bind planned.k_get planned.k_option planned.k_if planned.k_ret planned.t_catch_file
      planned.t_lift planned.t_put) simp

lemma finish_traced:
  "keeps c (issued_only (plan_allows p) h)
     (io_bind (run_guarded p) (\<lambda>status. io_bind (discard_compose_backup status) (\<lambda>_. io_ret status)))"
  by (intro planned.k_bind planned.t_guarded discard_traced planned.k_ret)

section \<open>Stopped services stay stopped\<close>

lemma plan_disjoint:
  assumes "build_stack_update_state stack matches c w = (Inr (Inr p), w1)"
  shows "set (p_running p) \<inter> set (p_stopped p) = {}"
  using yieldsD [OF build_ok assms] by (auto simp: plan_of_def split_of_def split_ok_def)

lemma update_stack_after_build:
  assumes "build_stack_update_state stack matches c w = (Inr (Inr p), w1)"
  shows "update_stack stack matches c w =
    io_bind (run_guarded p) (\<lambda>status. io_bind (discard_compose_backup status) (\<lambda>_. io_ret status)) c w1"
  using assms by (simp add: update_stack_def io_bind_def)

text \<open>C8: The services a plan found stopped are not started by the update: before the plan is made
  only queries are issued, and no command issued after it - pull, recreate, rollback or recovery,
  whatever fails - starts or unpauses one, either by name or as a dependency.\<close>

theorem stopped_services_stay_stopped:
  assumes "build_stack_update_state stack matches c w = (Inr (Inr p), w1)"
  shows "\<exists>looks ks. w_cmds (snd (update_stack stack matches c w)) = w_cmds w @ looks @ ks \<and>
    (\<forall>k \<in> set looks. read_only k) \<and> (\<forall>k \<in> set ks. \<forall>s \<in> set (p_stopped p). \<not> starts s k)"
proof -
  have "issued_only read_only (w_cmds w) w1"
    using valid_run [OF build_looks _ assms] by (auto simp: issued_only_def)
  then obtain looks where l: "w_cmds w1 = w_cmds w @ looks" "\<forall>k \<in> set looks. read_only k"
    by (auto simp: issued_only_def)
  obtain r w' where run: "update_stack stack matches c w = (r, w')" by (cases "update_stack stack matches c w")
  have "ends (\<lambda>_. issued_only (plan_allows p) (w_cmds w1)) (issued_only (plan_allows p) (w_cmds w1)) r w'"
    by (rule valid_run [OF finish_traced _ run [unfolded update_stack_after_build [OF assms]]])
      (simp add: issued_only_def)
  then obtain ks where "w_cmds w' = w_cmds w1 @ ks" "\<forall>k \<in> set ks. plan_allows p k"
    by (cases r) (auto simp: issued_only_def)
  with l planned_not_started [OF _ _ plan_disjoint [OF assms]] show ?thesis
    unfolding run snd_conv by (intro exI [of _ looks] exI [of _ ks]) auto
qed

lemma demo_built_eq:
  "build_stack_update_state demo_stack [demo_match] demo_ctx demo_world = (Inr (Inr demo_plan), snd demo_built)"
  and demo_plan_split: "p_stopped demo_plan = [''db'']" "p_running demo_plan = [''web'']"
  using demo_built_ok unfolding demo_plan_def
  by (auto simp: demo_built_def [symmetric] prod_eq_iff split: sum.splits)

theorem stopped_services_stay_stopped_witness:
  "\<exists>looks ks. w_cmds (snd (update_stack demo_stack [demo_match] demo_ctx demo_world)) = [] @ looks @ ks \<and>
    (\<forall>k \<in> set looks. read_only k) \<and> (\<forall>k \<in> set ks. \<not> starts ''db'' k)"
  using stopped_services_stay_stopped [OF demo_built_eq] demo_plan_split by (simp add: demo_world_def)

end
