(* ===== verification/Lifecycle_Order.thy ===== *)
theory Lifecycle_Order
  imports Lifecycle_Planned
begin

text \<open>
  The order of an update that rewrites nothing before its pull: containers are only changed after
  the pull succeeded and every digest the matched lines ask for was seen. What was seen is read
  off the commands issued and their answers.
\<close>

section \<open>Evidence in the commands\<close>

definition changes :: "cmd \<Rightarrow> bool" where
  "changes k = (\<not> read_only k \<and> \<not> is_pull k)"

definition pulled :: "ctx \<Rightarrow> string list option \<Rightarrow> cmd list \<Rightarrow> bool" where
  "pulled c ss ks =
     (\<exists>i < length ks. ks ! i = Pull ss \<and> (\<exists>out. c_resp c (take i ks) (Pull ss) = Done out))"

definition digest_seen :: "ctx \<Rightarrow> string \<Rightarrow> string \<Rightarrow> cmd list \<Rightarrow> bool" where
  "digest_seen c img d ks =
     (\<exists>i < length ks. ks ! i = Verify img d \<and>
        (vr_status (c_verify c (take i ks) img d) = ''untrusted'' \<or> vr_ok (c_verify c (take i ks) img d)))"

definition all_seen :: "ctx \<Rightarrow> (nat \<times> string \<times> string \<times> string) list \<Rightarrow> cmd list \<Rightarrow> bool" where
  "all_seen c reqs ks = (\<forall>(line_no, target, img, d) \<in> set reqs. digest_seen c img d ks)"

definition evidence :: "ctx \<Rightarrow> plan \<Rightarrow> cmd list \<Rightarrow> bool" where
  "evidence c p ks = (pulled c (p_pull_services p) ks \<and> all_seen c (digest_requirements (p_matches p)) ks)"

text \<open>Every change from the \<open>n\<close>-th command on came after the evidence.\<close>

definition guarded :: "ctx \<Rightarrow> plan \<Rightarrow> nat \<Rightarrow> cmd list \<Rightarrow> bool" where
  "guarded c p n ks = (\<forall>i. n \<le> i \<and> i < length ks \<and> changes (ks ! i) \<longrightarrow> evidence c p (take i ks))"

lemma pulled_append: "pulled c ss ks \<Longrightarrow> pulled c ss (ks @ ls)"
  by (force simp: pulled_def nth_append)

lemma digest_seen_append: "digest_seen c i d ks \<Longrightarrow> digest_seen c i d (ks @ ls)"
  by (force simp: digest_seen_def nth_append)

lemma all_seen_append: "all_seen c reqs ks \<Longrightarrow> all_seen c reqs (ks @ ls)"
  by (auto simp: all_seen_def intro: digest_seen_append)

lemma evidence_append: "evidence c p ks \<Longrightarrow> evidence c p (ks @ ls)"
  by (simp add: evidence_def pulled_append all_seen_append)

lemma guarded_snoc: "guarded c p n ks \<Longrightarrow> (changes k \<Longrightarrow> evidence c p ks) \<Longrightarrow> guarded c p n (ks @ [k])"
  by (auto simp: guarded_def nth_append less_Suc_eq)

lemma pulled_snoc: "c_resp c ks (Pull ss) = Done out \<Longrightarrow> pulled c ss (ks @ [Pull ss])"
  by (auto simp: pulled_def intro!: exI [of _ "length ks"])

lemma digest_seen_snoc:
  "vr_status (c_verify c ks i d) = ''untrusted'' \<or> vr_ok (c_verify c ks i d) \<Longrightarrow>
   digest_seen c i d (ks @ [Verify i d])"
  by (auto simp: digest_seen_def intro!: exI [of _ "length ks"])

lemmas evidence_append_intros = pulled_append all_seen_append evidence_append guarded_snoc

lemma issue_cmds [simp]: "w_cmds (issue k c w) = w_cmds w @ [k]" "w_backup (issue k c w) = w_backup w"
  by (simp_all add: issue_def)

section \<open>Up to the end of the pull\<close>

definition looked :: "ctx \<Rightarrow> plan \<Rightarrow> nat \<Rightarrow> world \<Rightarrow> bool" where
  "looked c p n w = (guarded c p n (w_cmds w) \<and> w_backup w = None)"

definition looked_pulled :: "ctx \<Rightarrow> plan \<Rightarrow> nat \<Rightarrow> (nat \<times> string \<times> string \<times> string) list \<Rightarrow> world \<Rightarrow> bool" where
  "looked_pulled c p n reqs w =
     (looked c p n w \<and> pulled c (p_pull_services p) (w_cmds w) \<and> all_seen c reqs (w_cmds w))"

definition proven :: "ctx \<Rightarrow> plan \<Rightarrow> nat \<Rightarrow> world \<Rightarrow> bool" where
  "proven c p n w = (guarded c p n (w_cmds w) \<and> evidence c p (w_cmds w))"

lemma read_only_change: "read_only k \<Longrightarrow> \<not> changes k"
  by (simp add: changes_def)

lemma looked_reports: "looked c p n w \<Longrightarrow> same_effects w w' \<Longrightarrow> looked c p n w'"
  by (simp add: looked_def same_effects_def)

interpretation looked: observer c "looked c p n" for c p n
  by unfold_locales (auto simp: looked_def same_effects_def intro: guarded_snoc dest: read_only_change)

interpretation looked_pulled: observer c "looked_pulled c p n reqs" for c p n reqs
  by unfold_locales
    (auto simp: looked_pulled_def looked_def same_effects_def dest: read_only_change
      intro!: evidence_append_intros)

interpretation proven: tracer c "proven c p n" "plan_allows p" p for c p n
  by unfold_locales
    (auto simp: proven_def same_effects_def intro!: evidence_append_intros intro: read_only_allowed)

text \<open>With no backup there is nothing to undo.\<close>

lemma valid_no_undo:
  assumes "\<And>w. P w \<Longrightarrow> w_backup w = None" and "valid c P m Q E"
  shows "valid c P (io_bind rewrite_to_undo (\<lambda>undo. if undo then m' else m)) Q E"
proof (rule validI)
  fix w assume "P w"
  then show "holds (io_bind rewrite_to_undo (\<lambda>undo. if undo then m' else m)) c w (ends Q E)"
    using assms by (simp add: rewrite_to_undo_def holds_bind holds_get valid_def)
qed

lemma pull_images_holds:
  "valid c (looked c p n) (pull_images p)
     (\<lambda>err w. looked c p n w \<and> (err = None \<longrightarrow> looked_pulled c p n [] w)) (looked c p n)"
  unfolding pull_images_def
proof (rule valid_catch_cmd)
  show "valid c (looked c p n) (io_bind (run_cmd (Pull (p_pull_services p))) (\<lambda>_. io_ret None))
      (\<lambda>err w. looked c p n w \<and> (err = None \<longrightarrow> looked_pulled c p n [] w)) (looked c p n)"
  proof (rule valid_bind)
    show "valid c (looked c p n) (run_cmd (Pull (p_pull_services p)))
        (\<lambda>out. looked_pulled c p n []) (looked c p n)"
      by (rule valid_run_cmd)
        (auto simp: looked_pulled_def looked_def changes_def is_pull_def all_seen_def
          intro!: guarded_snoc pulled_snoc)
  qed (rule valid_ret, simp add: looked_pulled_def)
qed (auto intro: valid_ret)

lemma pull_failed_holds:
  "valid c (looked c p n) (pull_failed p e) (\<lambda>st w. looked c p n w \<and> st \<noteq> None) (looked c p n)"
proof (rule valid_yields)
  have none: "\<And>w. looked c p n w \<Longrightarrow> w_backup w = None" by (simp add: looked_def)
  show "keeps c (looked c p n) (pull_failed p e)"
    unfolding pull_failed_def
    by (intro valid_no_undo [OF none] looked.k_bind looked.k_ret looked.k_capture
        looked.k_record_failure looked.k_progress)
  show "yields c (pull_failed p e) (\<lambda>st. st \<noteq> None)"
    unfolding pull_failed_def by (intro yields_then yields_if yields_ret) simp_all
qed

lemma expected_digests_failed_holds:
  "valid c (looked c p n) (expected_digests_failed p) (\<lambda>st w. looked c p n w \<and> st \<noteq> None) (looked c p n)"
proof (rule valid_yields)
  have none: "\<And>w. looked c p n w \<Longrightarrow> w_backup w = None" by (simp add: looked_def)
  show "keeps c (looked c p n) (expected_digests_failed p)"
    unfolding expected_digests_failed_def
    by (intro looked.k_bind looked.k_get looked.k_prod looked.k_scope valid_no_undo [OF none] looked.k_ret
        looked.k_capture looked.k_record_failure looked.k_progress)
  show "yields c (expected_digests_failed p) (\<lambda>st. st \<noteq> None)"
    unfolding expected_digests_failed_def
    by (intro yields_then) (auto intro!: yields_then yields_if yields_ret)
qed

lemma pins_failed_holds:
  "valid c (looked c p n) (pins_failed p) (\<lambda>st w. looked c p n w \<and> st \<noteq> None) (looked c p n)"
proof (rule valid_yields)
  have none: "\<And>w. looked c p n w \<Longrightarrow> w_backup w = None" by (simp add: looked_def)
  show "keeps c (looked c p n) (pins_failed p)"
    unfolding pins_failed_def
    by (intro valid_no_undo [OF none] looked.k_bind looked.k_ret
        looked.k_capture looked.k_record_failure looked.k_progress)
  show "yields c (pins_failed p) (\<lambda>st. st \<noteq> None)"
    unfolding pins_failed_def by (intro yields_then yields_if yields_ret) simp_all
qed

lemma requirement_holds:
  "valid c (looked_pulled c p n reqs) (verify_expected_digest_requirement idx r)
     (\<lambda>ok. if ok then looked_pulled c p n (reqs @ [r]) else looked_pulled c p n reqs)
     (looked_pulled c p n reqs)"
proof -
  obtain line_no target img d where r: "r = (line_no, target, img, d)" by (cases r)
  have seen: "valid c (looked_pulled c p n reqs) (verify_digest img d)
      (\<lambda>v w. looked_pulled c p n reqs w \<and>
         (vr_status v = ''untrusted'' \<or> vr_ok v \<longrightarrow> looked_pulled c p n (reqs @ [r]) w))
      (looked_pulled c p n reqs)"
    unfolding verify_digest_def
    by (rule valid_query)
      (auto simp: looked_pulled_def looked_def all_seen_def r changes_def
        intro: guarded_snoc pulled_append digest_seen_append digest_seen_snoc)
  have ok: "valid c (\<lambda>w. looked_pulled c p n reqs w \<and>
         (vr_status v = ''untrusted'' \<or> vr_ok v \<longrightarrow> looked_pulled c p n (reqs @ [r]) w))
     (if vr_status v = ''untrusted'' \<or> vr_ok v
      then io_bind (mark_exp (add_viable (idx, line_no, img))) (\<lambda>_. io_ret True)
      else io_bind (only_if (vr_reason v = ''stale-digest'') (mark_exp (add_stale (idx, line_no, img)))) (\<lambda>_.
           io_bind (mark_exp (add_failed (idx, line_no, img))) (\<lambda>_. io_ret False)))
     (\<lambda>ok. if ok then looked_pulled c p n (reqs @ [r]) else looked_pulled c p n reqs)
     (looked_pulled c p n reqs)" for v
  proof (cases "vr_status v = ''untrusted'' \<or> vr_ok v")
    case True
    have mark: "valid c (looked_pulled c p n (reqs @ [r])) (mark_exp f) (\<lambda>_. looked_pulled c p n (reqs @ [r])) E"
      for f E unfolding mark_exp_def
      by (rule valid_put) (auto simp: looked_pulled_def looked_def)
    have ret: "valid c (looked_pulled c p n (reqs @ [r])) (io_ret True)
        (\<lambda>ok. if ok then looked_pulled c p n (reqs @ [r]) else looked_pulled c p n reqs) E" for E
      by (rule valid_ret) simp
    show ?thesis
      unfolding if_P [OF True]
      by (rule valid_pre, rule valid_bind, rule mark, rule ret) (use True in simp)
  next
    case False
    have ret: "valid c (looked_pulled c p n reqs) (io_ret False)
        (\<lambda>ok. if ok then looked_pulled c p n (reqs @ [r]) else looked_pulled c p n reqs) E" for E
      by (rule valid_ret) simp
    show ?thesis
      unfolding if_not_P [OF False]
      by (rule valid_pre, rule valid_bind, rule looked_pulled.k_only_if, rule looked_pulled.k_marks,
          rule valid_bind, rule looked_pulled.k_marks, rule ret) simp
  qed
  show ?thesis
    unfolding verify_expected_digest_requirement_def r prod.case
    by (rule valid_bind [OF seen [unfolded r] ok [unfolded r]])
qed

lemma requirements_hold:
  "valid c (\<lambda>w. looked_pulled c p n [] w \<and> (ok \<longrightarrow> looked_pulled c p n reqs w)) (verify_requirements idx rs ok)
     (\<lambda>ok' w. looked_pulled c p n [] w \<and> (ok' \<longrightarrow> looked_pulled c p n (reqs @ rs) w)) (looked_pulled c p n [])"
proof (induction rs arbitrary: ok reqs)
  case (Cons r rs)
  have weaken: "looked_pulled c p n xs w \<Longrightarrow> looked_pulled c p n [] w" for xs w
    by (auto simp: looked_pulled_def all_seen_def)
  show ?case
    unfolding verify_requirements.simps
  proof (cases ok)
    case True
    have "valid c (\<lambda>w. looked_pulled c p n [] w \<and> (ok \<longrightarrow> looked_pulled c p n reqs w))
        (verify_expected_digest_requirement idx r)
        (\<lambda>this w. looked_pulled c p n [] w \<and> (ok \<and> this \<longrightarrow> looked_pulled c p n (reqs @ [r]) w))
        (looked_pulled c p n [])"
      by (rule valid_weaken [OF requirement_holds [of c p n reqs idx r]])
        (use True in \<open>auto dest: weaken split: if_splits\<close>)
    from valid_bind [OF this, of "\<lambda>this. verify_requirements idx rs (ok \<and> this)", OF Cons.IH [of _ "reqs @ [r]"]]
    show "valid c (\<lambda>w. looked_pulled c p n [] w \<and> (ok \<longrightarrow> looked_pulled c p n reqs w))
        (io_bind (verify_expected_digest_requirement idx r) (\<lambda>this. verify_requirements idx rs (ok \<and> this)))
        (\<lambda>ok' w. looked_pulled c p n [] w \<and> (ok' \<longrightarrow> looked_pulled c p n (reqs @ r # rs) w))
        (looked_pulled c p n [])" by simp
  next
    case False
    have "valid c (\<lambda>w. looked_pulled c p n [] w \<and> (ok \<longrightarrow> looked_pulled c p n reqs w))
        (verify_expected_digest_requirement idx r)
        (\<lambda>this w. looked_pulled c p n [] w \<and> (ok \<and> this \<longrightarrow> looked_pulled c p n (reqs @ [r]) w))
        (looked_pulled c p n [])"
      by (rule valid_weaken [OF looked_pulled.k_requirement]) (use False in auto)
    from valid_bind [OF this, of "\<lambda>this. verify_requirements idx rs (ok \<and> this)", OF Cons.IH [of _ "reqs @ [r]"]]
    show "valid c (\<lambda>w. looked_pulled c p n [] w \<and> (ok \<longrightarrow> looked_pulled c p n reqs w))
        (io_bind (verify_expected_digest_requirement idx r) (\<lambda>this. verify_requirements idx rs (ok \<and> this)))
        (\<lambda>ok' w. looked_pulled c p n [] w \<and> (ok' \<longrightarrow> looked_pulled c p n (reqs @ r # rs) w))
        (looked_pulled c p n [])" by simp
  qed
qed (auto intro: valid_ret)

lemma pull_and_verify_holds:
  "valid c (looked c p n) (pull_and_verify_images p)
     (\<lambda>st w. looked c p n w \<and> (st = None \<longrightarrow> proven c p n w)) (looked c p n)"
proof -
  let ?R = "digest_requirements (p_matches p)"
  let ?Q = "\<lambda>st w. looked c p n w \<and> (st = None \<longrightarrow> proven c p n w)"
  have E: "looked_pulled c p n reqs w \<Longrightarrow> looked c p n w" for reqs w by (simp add: looked_pulled_def)
  have fail: "valid c (looked c p n) m (\<lambda>st w. looked c p n w \<and> st \<noteq> None) (looked c p n) \<Longrightarrow>
      valid c (looked_pulled c p n reqs) m ?Q (looked c p n)" for m :: "stack_status option act" and reqs
    by (erule valid_weaken) (auto dest: E)
  have pins: "valid c (looked_pulled c p n ?R) (io_bind (verify_pins p) (\<lambda>pinned.
      if pinned then io_ret None else pins_failed p)) ?Q (looked c p n)"
  proof (rule valid_bind)
    show "valid c (looked_pulled c p n ?R) (verify_pins p) (\<lambda>_. looked_pulled c p n ?R) (looked c p n)"
      by (rule valid_weaken [OF looked_pulled.k_pins]) (auto dest: E)
    show "valid c (looked_pulled c p n ?R) (if pinned then io_ret None else pins_failed p) ?Q (looked c p n)"
      for pinned
    proof (rule valid_if)
      show "valid c (looked_pulled c p n ?R) (io_ret None) ?Q (looked c p n)"
        by (rule valid_ret) (simp add: looked_pulled_def looked_def proven_def evidence_def)
    qed (rule fail [OF pins_failed_holds])
  qed
  have verify: "valid c (looked_pulled c p n []) (verify_expected_digests (p_stack p) (p_matches p))
      (\<lambda>ok w. looked_pulled c p n [] w \<and> (ok \<longrightarrow> looked_pulled c p n ?R w)) (looked c p n)"
    unfolding verify_expected_digests_def
    by (rule valid_weaken [OF requirements_hold [of c p n True "[]" "cs_index (p_stack p)" ?R]]) (auto dest: E)
  have after: "valid c (looked_pulled c p n []) (io_bind (verify_expected_digests (p_stack p) (p_matches p)) (\<lambda>ok.
      if \<not> ok then expected_digests_failed p
      else io_bind (verify_pins p) (\<lambda>pinned. if pinned then io_ret None else pins_failed p))) ?Q (looked c p n)"
  proof (rule valid_bind [OF verify])
    fix ok
    show "valid c (\<lambda>w. looked_pulled c p n [] w \<and> (ok \<longrightarrow> looked_pulled c p n ?R w))
      (if \<not> ok then expected_digests_failed p
       else io_bind (verify_pins p) (\<lambda>pinned. if pinned then io_ret None else pins_failed p)) ?Q (looked c p n)"
    proof (cases ok)
      case True
      then show ?thesis by simp (rule valid_pre [OF pins], simp)
    next
      case False
      then show ?thesis by simp (rule fail [OF expected_digests_failed_holds])
    qed
  qed
  have step: "valid c (looked_pulled c p n []) m (\<lambda>_. looked_pulled c p n []) (looked c p n)"
    if "keeps c (looked_pulled c p n []) m" for m :: "'b act"
    by (rule valid_weaken [OF that]) (auto dest: E)
  have put_after: "keeps c (looked_pulled c p n []) (put (\<lambda>w. w\<lparr>w_after := a\<rparr>))" for a
    by (rule looked_pulled.k_put) (simp add: same_effects_def)
  have rest: "valid c (looked_pulled c p n [])
     (io_bind (get w_images) (\<lambda>imgs. io_bind (image_state_of imgs) (\<lambda>after.
      io_bind (put (\<lambda>w. w\<lparr>w_after := after\<rparr>)) (\<lambda>_. io_bind (remember_images p) (\<lambda>_.
      io_bind (verify_expected_digests (p_stack p) (p_matches p)) (\<lambda>ok.
        if \<not> ok then expected_digests_failed p
        else io_bind (verify_pins p) (\<lambda>pinned. if pinned then io_ret None else pins_failed p)))))))
     ?Q (looked c p n)"
    by (intro valid_bind [OF step [OF looked_pulled.k_get]] valid_bind [OF step [OF looked_pulled.k_images(2)]]
        valid_bind [OF step [OF put_after]] valid_bind [OF step [OF looked_pulled.k_remember]] after)
  show ?thesis
    unfolding pull_and_verify_images_def
  proof (rule valid_bind [OF looked.k_progress], rule valid_bind [OF pull_images_holds])
    show "valid c (\<lambda>w. looked c p n w \<and> (err = None \<longrightarrow> looked_pulled c p n [] w))
      (case err of None \<Rightarrow> io_bind (get w_images) (\<lambda>imgs. io_bind (image_state_of imgs) (\<lambda>after.
          io_bind (put (\<lambda>w. w\<lparr>w_after := after\<rparr>)) (\<lambda>_. io_bind (remember_images p) (\<lambda>_.
          io_bind (verify_expected_digests (p_stack p) (p_matches p)) (\<lambda>ok.
            if \<not> ok then expected_digests_failed p
            else io_bind (verify_pins p) (\<lambda>pinned. if pinned then io_ret None else pins_failed p))))))
       | Some e \<Rightarrow> pull_failed p e) ?Q (looked c p n)" for err
      by (cases err) (auto intro: valid_pre [OF rest] valid_weaken [OF pull_failed_holds])
  qed
qed

section \<open>The whole update\<close>

definition checked_first :: "ctx \<Rightarrow> plan \<Rightarrow> nat \<Rightarrow> world \<Rightarrow> bool" where
  "checked_first c p n w = guarded c p n (w_cmds w)"

lemma steps_checked:
  assumes "p_tags p = []" and "p_unpins p = []"
  shows "valid c (looked c p n) (run_stack_update_steps p) (\<lambda>_. checked_first c p n) (checked_first c p n)"
proof -
  have done_steps: "lifecycle_tag_updates p = io_ret None" "lifecycle_digest_unpin_updates p = io_ret None"
    using assms by (simp_all add: lifecycle_tag_updates_def lifecycle_digest_unpin_updates_def)
  have skip: "io_bind (io_ret None) f = f None" for f :: "stack_status option \<Rightarrow> stack_status act"
    by (rule ext)+ (simp add: io_bind_def io_ret_def)
  have rest: "keeps c (proven c p n) (run_steps p [lifecycle_digest_pin_updates, finish_pull_phase])"
    unfolding run_steps.simps
    by (intro proven.k_bind proven.k_option proven.t_pins proven.t_finish_pull proven.t_recreate proven.k_ret)
  have weak: "proven c p n w \<Longrightarrow> checked_first c p n w" "looked c p n w \<Longrightarrow> checked_first c p n w" for w
    by (simp_all add: proven_def looked_def checked_first_def)
  have "valid c (looked c p n) (run_steps p [pull_and_verify_images, lifecycle_digest_pin_updates, finish_pull_phase])
      (\<lambda>_. checked_first c p n) (checked_first c p n)"
    unfolding run_steps.simps(2) [of p pull_and_verify_images]
  proof (rule valid_bind)
    show "valid c (looked c p n) (pull_and_verify_images p)
        (\<lambda>st w. looked c p n w \<and> (st = None \<longrightarrow> proven c p n w)) (checked_first c p n)"
      by (rule valid_weaken [OF pull_and_verify_holds]) (auto intro: weak)
    show "valid c (\<lambda>w. looked c p n w \<and> (st = None \<longrightarrow> proven c p n w))
        (case st of None \<Rightarrow> run_steps p [lifecycle_digest_pin_updates, finish_pull_phase] | Some s \<Rightarrow> io_ret s)
        (\<lambda>_. checked_first c p n) (checked_first c p n)" for st
    proof (cases st)
      case None
      then show ?thesis
        unfolding None option.case by (intro valid_weaken [OF rest]) (auto intro: weak)
    qed (auto intro!: valid_ret weak)
  qed
  then show ?thesis
    unfolding run_stack_update_steps_def run_steps.simps(2) [of p lifecycle_tag_updates]
      run_steps.simps(2) [of p lifecycle_digest_unpin_updates] done_steps skip by simp
qed

text \<open>C15: Nothing is changed on trust. When a plan rewrites no tag before its pull, every command that
  stops, starts, pauses or recreates a container comes after a pull of the planned services that
  succeeded and after every digest the matched WUD lines ask for was checked and not refused;
  this holds wherever the update stops.\<close>

theorem changes_follow_verification:
  assumes "p_tags p = []" and "p_unpins p = []" and "w_backup w = None"
    and "run_stack_update_steps p c w = (r, w')"
    and "length (w_cmds w) \<le> i" and "i < length (w_cmds w')" and "changes (w_cmds w' ! i)"
  shows "pulled c (p_pull_services p) (take i (w_cmds w')) \<and>
    (\<forall>(line_no, target, img, d) \<in> set (digest_requirements (p_matches p)).
       digest_seen c img d (take i (w_cmds w')))"
proof -
  have "looked c p (length (w_cmds w)) w" using assms(3)
    unfolding looked_def guarded_def by auto
  from valid_run [OF steps_checked [OF assms(1,2)] this assms(4)]
  have "checked_first c p (length (w_cmds w)) w'" by (cases r) auto
  then show ?thesis using assms(5-7) by (auto simp: checked_first_def guarded_def evidence_def all_seen_def)
qed


theorem changes_follow_verification_witness:
  "pulled stop_ctx (Some [''web'']) (take 1 (w_cmds demo_interrupted))"
proof -
  have 1: "p_tags small_plan = []" "p_unpins small_plan = []" "p_pull_services small_plan = Some [''web'']"
    by (simp_all add: small_plan_def p_pull_services_def)
  have 2: "w_backup demo_world = None" "length (w_cmds demo_world) \<le> 1" by (simp_all add: demo_world_def)
  have 3: "1 < length (w_cmds demo_interrupted)" by code_simp
  have 4: "changes (w_cmds demo_interrupted ! 1)" by code_simp
  from changes_follow_verification [OF 1(1,2) 2(1) demo_run 2(2) 3 4] 1(3) show ?thesis by simp
qed

end
