(* ===== verification/Lifecycle_Gate.thy ===== *)
theory Lifecycle_Gate
  imports Lifecycle_Planned
begin

text \<open>
  What passing the health gate means, read off the commands and their answers: the services were
  brought up, and either Compose itself waited for them (\<open>up --wait\<close> succeeded) or afterwards every
  one of them had containers that were all inspected and found healthy, or running where the image
  has no health check.
\<close>

section \<open>Evidence in the commands\<close>

definition answered :: "ctx \<Rightarrow> cmd list \<Rightarrow> nat \<Rightarrow> cmd \<Rightarrow> string list \<Rightarrow> bool" where
  "answered c ks i k out = (i < length ks \<and> ks ! i = k \<and> c_resp c (take i ks) k = Done out)"

definition inspected_ok :: "ctx \<Rightarrow> cmd list \<Rightarrow> nat \<Rightarrow> string \<Rightarrow> bool" where
  "inspected_ok c ks i cid =
     (\<exists>j t ts. i \<le> j \<and> answered c ks j (Inspect cid CONTAINER_SUMMARY_FORMAT) (t # ts) \<and> cid_is_ok t)"

definition seen_healthy :: "ctx \<Rightarrow> cmd list \<Rightarrow> nat \<Rightarrow> string \<Rightarrow> bool" where
  "seen_healthy c ks a s =
     (\<exists>i cids. a \<le> i \<and> answered c ks i (Ps (Some [s]) False) cids \<and> cids \<noteq> [] \<and>
        (\<forall>cid \<in> set cids. inspected_ok c ks (Suc i) cid))"

definition brought_up :: "ctx \<Rightarrow> nat \<Rightarrow> string list \<Rightarrow> bool \<Rightarrow> nat \<Rightarrow> cmd list \<Rightarrow> bool" where
  "brought_up c a ss wait u ks =
     (a \<le> u \<and> (\<exists>fr nd orphans out. answered c ks u (Up ss wait fr nd False orphans) out))"

definition gate :: "ctx \<Rightarrow> nat \<Rightarrow> string list \<Rightarrow> cmd list \<Rightarrow> bool" where
  "gate c a ss ks =
     (ss = [] \<or>
      (\<exists>u wait. brought_up c a ss wait u ks \<and> (wait \<or> (\<forall>s \<in> set ss. seen_healthy c ks (Suc u) s))))"

lemma answered_append: "answered c ks i k out \<Longrightarrow> answered c (ks @ ls) i k out"
  by (simp add: answered_def nth_append)

lemma answered_snoc: "c_resp c ks k = Done out \<Longrightarrow> answered c (ks @ [k]) (length ks) k out"
  by (simp add: answered_def)

lemma inspected_append: "inspected_ok c ks i cid \<Longrightarrow> inspected_ok c (ks @ ls) i cid"
  unfolding inspected_ok_def by (blast intro: answered_append)

lemma seen_append: "seen_healthy c ks a s \<Longrightarrow> seen_healthy c (ks @ ls) a s"
  unfolding seen_healthy_def by (blast intro: answered_append inspected_append)

lemma brought_append: "brought_up c a ss wait u ks \<Longrightarrow> brought_up c a ss wait u (ks @ ls)"
  unfolding brought_up_def by (blast intro: answered_append)

lemma inspected_sooner: "inspected_ok c ks i cid \<Longrightarrow> j \<le> i \<Longrightarrow> inspected_ok c ks j cid"
  unfolding inspected_ok_def by (blast intro: le_trans)

lemma seen_sooner: "seen_healthy c ks a s \<Longrightarrow> b \<le> a \<Longrightarrow> seen_healthy c ks b s"
  unfolding seen_healthy_def by (blast intro: le_trans)

lemma brought_before: "brought_up c a ss wait u ks \<Longrightarrow> Suc u \<le> length ks"
  by (auto simp: brought_up_def answered_def)

section \<open>Commands are only added\<close>

definition extends :: "cmd list \<Rightarrow> world \<Rightarrow> bool" where
  "extends ks w = (\<exists>ls. w_cmds w = ks @ ls)"

interpretation ext: planned_commander c "extends ks" "\<lambda>_. True" p for c ks p
  by unfold_locales (auto simp: extends_def issue_def same_effects_def)

lemma extends_refl: "extends (w_cmds w) w"
  by (simp add: extends_def)

lemma extends_trans: "extends ks w \<Longrightarrow> extends (w_cmds w) w' \<Longrightarrow> extends ks w'"
  by (auto simp: extends_def)

lemma extended: "keeps c (extends (w_cmds w)) m \<Longrightarrow> m c w = (r, w') \<Longrightarrow> extends (w_cmds w) w'"
  using valid_run [of c "extends (w_cmds w)" m "\<lambda>_. extends (w_cmds w)" "extends (w_cmds w)" w r w']
  by (cases r) (simp_all add: extends_refl)

section \<open>The probe\<close>

text \<open>A run split at its first step.\<close>

lemma bind_run:
  "io_bind m f c w = (Inr x, w') \<Longrightarrow> (\<And>y w1. m c w = (Inr y, w1) \<Longrightarrow> f y c w1 = (Inr x, w') \<Longrightarrow> P) \<Longrightarrow> P"
  by (auto simp: io_bind_def split: prod.splits sum.splits)

lemma ps_run:
  assumes "catch_cmd (io_bind (ps_quiet_checked ss a) (\<lambda>ls. io_ret (Some ls))) (\<lambda>_. io_ret None) c w = (Inr found, w')"
  shows "w_cmds w' = w_cmds w @ [Ps ss a] \<and>
    (\<forall>ls. found = Some ls \<longrightarrow> answered c (w_cmds w') (length (w_cmds w)) (Ps ss a) ls)"
  using assms
  by (auto simp: catch_cmd_def io_catch_def io_bind_def ps_quiet_checked_def run_cmd_def io_ret_def io_raise_def
      issue_def intro!: answered_snoc split: resp.splits)

lemma foldl_add_set: "set (foldl (\<lambda>acc x. if x \<in> set acc then acc else acc @ [x]) xs ys) = set xs \<union> set ys"
  by (induction ys arbitrary: xs) auto

lemma lookup_run:
  assumes "lookup_services ss (cids, missing, failed) c w = (Inr (cs, ms, fs), w')"
  shows "set cids \<subseteq> set cs \<and> (missing \<noteq> [] \<longrightarrow> ms \<noteq> []) \<and> (failed \<noteq> [] \<longrightarrow> fs \<noteq> []) \<and> extends (w_cmds w) w' \<and>
    (ms = [] \<longrightarrow> fs = [] \<longrightarrow> (\<forall>s \<in> set ss. \<exists>i out. length (w_cmds w) \<le> i \<and>
       answered c (w_cmds w') i (Ps (Some [s]) False) out \<and> out \<noteq> [] \<and> set out \<subseteq> set cs))"
  using assms
proof (induction ss arbitrary: cids missing failed w)
  case Nil
  then show ?case by (simp add: io_ret_def extends_refl)
next
  case (Cons s ss)
  obtain found w1 where
      f: "catch_cmd (io_bind (ps_quiet_checked (Some [s]) False) (\<lambda>ls. io_ret (Some ls))) (\<lambda>_. io_ret None) c w
        = (Inr found, w1)"
    and rest: "lookup_services ss
          (case found of
             None \<Rightarrow> (cids, missing, failed @ [s])
           | Some ls \<Rightarrow> (foldl (\<lambda>acc cid. if cid \<in> set acc then acc else acc @ [cid]) cids ls,
                         if ls = [] then missing @ [s] else missing, failed)) c w1 = (Inr (cs, ms, fs), w')"
    using Cons.prems unfolding lookup_services.simps by (rule bind_run)
  note one = ps_run [OF f]
  then have l1: "w_cmds w1 = w_cmds w @ [Ps (Some [s]) False]" by simp
  show ?case
  proof (cases found)
    case None
    have r: "lookup_services ss (cids, missing, failed @ [s]) c w1 = (Inr (cs, ms, fs), w')"
      using rest None by simp
    show ?thesis using Cons.IH [OF r] l1 by (auto simp: extends_def)
  next
    case (Some ls)
    let ?cs = "foldl (\<lambda>acc cid. if cid \<in> set acc then acc else acc @ [cid]) cids ls"
    have "lookup_services ss (?cs, if ls = [] then missing @ [s] else missing, failed) c w1 = (Inr (cs, ms, fs), w')"
      using rest Some by simp
    note ih = Cons.IH [OF this, unfolded foldl_add_set]
    have all: "\<exists>i out. length (w_cmds w1) \<le> i \<and> answered c (w_cmds w') i (Ps (Some [s']) False) out \<and>
        out \<noteq> [] \<and> set out \<subseteq> set cs" if "s' \<in> set ss" "ms = []" "fs = []" for s'
      using ih that by blast
    have a1: "answered c (w_cmds w1) (length (w_cmds w)) (Ps (Some [s]) False) ls"
      using one [THEN conjunct2] Some by blast
    have a2: "answered c (w_cmds w') (length (w_cmds w)) (Ps (Some [s]) False) ls"
      using ih a1 by (auto simp: extends_def intro: answered_append)
    have "extends (w_cmds w) w'" using ih l1 by (auto simp: extends_def)
    moreover have "\<exists>i out. length (w_cmds w) \<le> i \<and> answered c (w_cmds w') i (Ps (Some [s']) False) out \<and>
        out \<noteq> [] \<and> set out \<subseteq> set cs" if "s' \<in> set (s # ss)" "ms = []" "fs = []" for s'
    proof (cases "s' = s")
      case True
      have "ls \<noteq> []" using ih that by (cases ls) auto
      then show ?thesis using True a2 ih by auto
    next
      case False
      then have "s' \<in> set ss" using that(1) by simp
      from all [OF this that(2,3)] obtain i out where "length (w_cmds w1) \<le> i"
          "answered c (w_cmds w') i (Ps (Some [s']) False) out" "out \<noteq> []" "set out \<subseteq> set cs"
        by blast
      then show ?thesis using l1 by (intro exI [of _ i] exI [of _ out]) simp
    qed
    ultimately show ?thesis using ih by (auto split: if_splits)
  qed
qed

lemma summary_run:
  assumes "cid_summary cid c w = (Inr t, w')"
  shows "w_cmds w' = w_cmds w @ [Inspect cid CONTAINER_SUMMARY_FORMAT] \<and>
    (t \<noteq> '''' \<longrightarrow> (\<exists>ts. answered c (w_cmds w') (length (w_cmds w)) (Inspect cid CONTAINER_SUMMARY_FORMAT) (t # ts)))"
  using assms
  by (auto simp: cid_summary_def try_cmd_def catch_cmd_def io_catch_def io_bind_def run_cmd_def io_ret_def
      io_raise_def issue_def split: resp.splits list.splits) (blast intro: answered_snoc)

lemma summaries_run:
  assumes "summaries_of cids c w = (Inr ts, w')" and "list_all (\<lambda>t. t \<noteq> '''' \<and> cid_is_ok t) ts"
  shows "extends (w_cmds w) w' \<and> (\<forall>cid \<in> set cids. inspected_ok c (w_cmds w') (length (w_cmds w)) cid)"
  using assms
proof (induction cids arbitrary: w ts)
  case Nil
  then show ?case by (simp add: io_ret_def extends_refl)
next
  case (Cons cid cids)
  obtain t w1 us where t: "cid_summary cid c w = (Inr t, w1)" and us: "summaries_of cids c w1 = (Inr us, w')"
      and ts: "ts = t # us"
    using Cons.prems(1) by (auto simp: io_ret_def elim!: bind_run)
  note one = summary_run [OF t]
  have ih: "extends (w_cmds w1) w'" "\<forall>cid \<in> set cids. inspected_ok c (w_cmds w') (length (w_cmds w1)) cid"
    using Cons.IH [OF us] Cons.prems(2) ts by auto
  obtain rest where "answered c (w_cmds w1) (length (w_cmds w)) (Inspect cid CONTAINER_SUMMARY_FORMAT) (t # rest)"
    using one Cons.prems(2) ts by auto
  then have "answered c (w_cmds w') (length (w_cmds w)) (Inspect cid CONTAINER_SUMMARY_FORMAT) (t # rest)"
    using ih(1) by (auto simp: extends_def intro: answered_append)
  then have "inspected_ok c (w_cmds w') (length (w_cmds w)) cid"
    using Cons.prems(2) ts unfolding inspected_ok_def by auto
  moreover have "inspected_ok c (w_cmds w') (length (w_cmds w)) x" if "x \<in> set cids" for x
    using ih(2) that one by (auto intro: inspected_sooner)
  ultimately show ?case using ih(1) one by (auto simp: extends_def)
qed

lemma probe_run:
  assumes "health_probe (Some (s # ss)) c w = (Inr True, w')"
  shows "\<forall>x \<in> set (s # ss). seen_healthy c (w_cmds w') (length (w_cmds w)) x"
proof -
  obtain l w1 where l: "lookup_services (nub (s # ss)) ([], [], []) c w = (Inr l, w1)"
      and g: "health_gate_passed l c w1 = (Inr True, w')"
    using assms by (auto simp: health_probe_def running_service_containers_def elim!: bind_run)
  obtain cids missing failed where c: "l = (cids, missing, failed)" by (cases l)
  obtain ts where ts: "summaries_of cids c w1 = (Inr ts, w')" and p: "gate_passed cids missing failed ts"
    using g c by (auto simp: health_gate_passed_def io_ret_def elim!: bind_run)
  have ok: "list_all (\<lambda>t. t \<noteq> '''' \<and> cid_is_ok t) ts" "missing = []" "failed = []"
    using p by (auto simp: gate_passed_def)
  note found = lookup_run [OF l [unfolded c]]
  note looked = summaries_run [OF ts ok(1)]
  show ?thesis
  proof
    fix x assume "x \<in> set (s # ss)"
    then have "x \<in> set (nub (s # ss))" by simp
    then obtain i out where i: "length (w_cmds w) \<le> i" "answered c (w_cmds w1) i (Ps (Some [x]) False) out"
        "out \<noteq> []" "set out \<subseteq> set cids"
      using found ok by blast
    have "Suc i \<le> length (w_cmds w1)" using i(2) by (simp add: answered_def)
    then have "\<forall>cid \<in> set out. inspected_ok c (w_cmds w') (Suc i) cid"
      using i(4) looked by (auto intro: inspected_sooner)
    moreover have "answered c (w_cmds w') i (Ps (Some [x]) False) out"
      using i(2) looked by (auto simp: extends_def intro: answered_append)
    ultimately show "seen_healthy c (w_cmds w') (length (w_cmds w)) x"
      unfolding seen_healthy_def using i(1,3) by blast
  qed
qed

section \<open>The wait\<close>

lemma wait_loop_run:
  assumes "wait_loop (Some (s # ss)) max_wait start c w = (Inr True, w')"
  shows "\<forall>x \<in> set (s # ss). seen_healthy c (w_cmds w') (length (w_cmds w)) x"
  using assms
proof (induction "Some (s # ss)" max_wait start c w rule: wait_loop.induct)
  case (1 max_wait start c w)
  obtain r w1 where run: "health_probe (Some (s # ss)) c w = (r, w1)" by (cases "health_probe (Some (s # ss)) c w")
  note step = "1.prems" [unfolded wait_loop.simps [of _ _ _ _ w] run prod.case]
  obtain ok where r: "r = Inr ok" using step by (cases r) auto
  note probe = run [unfolded r]
  have e: "extends (w_cmds w) w1" by (rule extended [OF ext.k_probe probe])
  show ?case
  proof (cases ok)
    case True
    then have "w_cmds w' = w_cmds w1"
      using step r by (auto simp: io_bind_def progress_def io_ret_def split: if_splits)
    then show ?thesis using probe_run [of s ss c w w1] probe True by simp
  next
    case False
    then have again: "\<not> w_clock w1 - start \<ge> max_wait"
      using step r by (auto simp: io_ret_def elim!: bind_run split: if_splits)
    have "wait_loop (Some (s # ss)) max_wait start c (w1\<lparr>w_clock := w_clock w1 + 2\<rparr>) = (Inr True, w')"
      using step r False again by simp
    from "1.hyps" [OF probe [symmetric] refl False again this] e show ?thesis
      by (auto simp: extends_def intro: seen_sooner)
  qed
qed

lemma wait_gate:
  assumes "ss \<noteq> []"
  shows "valid c (\<lambda>w. \<exists>u wait. brought_up c a ss wait u (w_cmds w)) (wait_for_health (Some ss))
    (\<lambda>ok w. ok \<longrightarrow> gate c a ss (w_cmds w)) (\<lambda>_. True)"
proof (rule validI)
  fix w :: world assume "\<exists>u wait. brought_up c a ss wait u (w_cmds w)"
  then obtain u wait where up: "brought_up c a ss wait u (w_cmds w)" by blast
  have "gate c a ss (w_cmds w')" if run: "wait_for_health (Some ss) c w = (Inr True, w')" for w'
  proof -
    obtain s rest where ss: "ss = s # rest" using assms by (cases ss) auto
    have e: "extends (w_cmds w) w'" by (rule extended [OF ext.k_wait_for_health run])
    obtain w1 m st where w1: "wait_loop (Some ss) m st c w1 = (Inr True, w')" and "w_cmds w1 = w_cmds w"
      using run unfolding wait_for_health_def
      by (auto simp: opt_def ask_def get_def progress_def only_if_def sleep_def put_def io_ret_def
          elim!: bind_run split: if_splits)
    then have "\<forall>x \<in> set ss. seen_healthy c (w_cmds w') (length (w_cmds w)) x"
      using wait_loop_run ss by fastforce
    then have "\<forall>x \<in> set ss. seen_healthy c (w_cmds w') (Suc u) x"
      using brought_before [OF up] by (blast intro: seen_sooner)
    moreover have "brought_up c a ss wait u (w_cmds w')"
      using up e by (auto simp: extends_def intro: brought_append)
    ultimately show ?thesis unfolding gate_def by blast
  qed
  then show "holds (wait_for_health (Some ss)) c w (ends (\<lambda>ok w. ok \<longrightarrow> gate c a ss (w_cmds w)) (\<lambda>_. True))"
    by (auto simp: holds_def ends_def split: prod.splits sum.splits)
qed

section \<open>Bringing the services up\<close>

text \<open>\<open>wait\<close> says that Compose waited itself.\<close>

definition upped :: "ctx \<Rightarrow> nat \<Rightarrow> string list \<Rightarrow> bool \<Rightarrow> cmd list \<Rightarrow> bool" where
  "upped c a ss handled ks =
     (ss = [] \<or> (\<exists>u wait. brought_up c a ss wait u ks \<and> (handled \<longrightarrow> wait)))"

lemma upped_append: "upped c a ss h ks \<Longrightarrow> upped c a ss h (ks @ ls)"
  unfolding upped_def by (blast intro: brought_append)

lemma upped_waits: "upped c a ss True ks \<Longrightarrow> gate c a ss ks"
  by (auto simp: upped_def gate_def)

lemma upped_later: "upped c a ss h ks \<Longrightarrow> upped c a ss False ks"
  by (auto simp: upped_def)

lemma up_brings:
  "valid c (\<lambda>w. a \<le> length (w_cmds w)) (run_compose_up st ss fr nd)
     (\<lambda>up w. ur_ok up \<longrightarrow> upped c a ss (ur_wait_handled up) (w_cmds w)) (\<lambda>_. True)"
proof -
  let ?P = "\<lambda>w. a \<le> length (w_cmds w)"
  have more: "keeps c ?P m" if "\<And>ks. keeps c (extends ks) m" for m :: "'x act"
  proof (rule validI)
    fix w :: world assume "a \<le> length (w_cmds w)"
    moreover have "holds m c w (ends (\<lambda>_. extends (w_cmds w)) (extends (w_cmds w)))"
      using that extends_refl by (auto simp: valid_def)
    ultimately show "holds m c w (ends (\<lambda>_. ?P) ?P)"
      by (elim holds_mono) (auto simp: ends_def extends_def split: sum.splits)
  qed
  have up: "valid c ?P (run_cmd (Up ss native fr nd False orphans)) (\<lambda>_ w. upped c a ss native (w_cmds w)) ?P"
    for native orphans
  proof (rule valid_run_cmd)
    fix w :: world and out
    assume w: "a \<le> length (w_cmds w)" "c_resp c (w_cmds w) (Up ss native fr nd False orphans) = Done out"
    have "brought_up c a ss native (length (w_cmds w)) (w_cmds w @ [Up ss native fr nd False orphans])"
      unfolding brought_up_def using w by (blast intro: answered_snoc)
    then show "upped c a ss native (w_cmds (issue (Up ss native fr nd False orphans) c w))"
      unfolding upped_def issue_def by auto
  qed (simp add: issue_def)
  have m1: "keeps c ?P (if b then up_wait_supported else io_ret False)" for b
    by (rule more) (intro ext.k_if ext.k_inspections ext.k_ret)
  have m2: "keeps c ?P (remove_orphans st)" by (rule more) (simp add: remove_orphans_def ext.k_get)
  have m3: "keeps c ?P (capture_health_details s b)" for s b by (rule more) (rule ext.k_capture)
  have ret: "valid c (\<lambda>w. upped c a ss native (w_cmds w)) (io_ret (up_ok native))
      (\<lambda>up w. ur_ok up \<longrightarrow> upped c a ss (ur_wait_handled up) (w_cmds w)) ?P" for native
    by (rule valid_ret) simp
  have bad: "valid c ?P (io_bind (capture_health_details s b) (\<lambda>d. io_ret (up_failed native e d)))
      (\<lambda>up w. ur_ok up \<longrightarrow> upped c a ss (ur_wait_handled up) (w_cmds w)) ?P" for s b native e
    by (rule valid_bind [OF m3], rule valid_ret) (simp add: up_failed_def)
  have "valid c ?P (run_compose_up st ss fr nd)
     (\<lambda>up w. ur_ok up \<longrightarrow> upped c a ss (ur_wait_handled up) (w_cmds w)) ?P"
    unfolding run_compose_up_def
    by (rule valid_bind [OF valid_opt [where Q = "\<lambda>_. ?P"]], assumption, rule valid_bind [OF m1],
        rule valid_bind [OF m2], rule valid_catch_cmd, rule valid_bind [OF up ret], rule bad)
  then show ?thesis by (rule valid_weaken) auto
qed

end
