(* ===== verification/Lifecycle_Safety.thy ===== *)
theory Lifecycle_Safety
  imports Lifecycle_Gate
begin

text \<open>
  The Compose file during an update. \<open>safe\<close> says that the file still is the one the update
  started from, or that its backup is on disk and known to the update; every step keeps it,
  whatever fails, until the health gate has passed.
\<close>

section \<open>What is kept\<close>

text \<open>
  \<open>n\<close> is the stack, whose Compose file it is about, and \<open>s0\<close> the world the update started from.
  Beside the Compose file, only incident logs of the stack can have appeared.
\<close>

definition incident_log :: "compose_stack \<Rightarrow> string \<Rightarrow> bool" where
  "incident_log n k =
     (\<exists>tag stamp. k \<in> set (exclusive_candidates (cs_directory n) (incident_name tag stamp)))"

definition original :: "world \<Rightarrow> compose_stack \<Rightarrow> fs \<Rightarrow> bool" where
  "original s0 n s = (fs_files s (Named (compose_name n)) = fs_files (w_fs s0) (Named (compose_name n)))"

definition file_kept :: "world \<Rightarrow> compose_stack \<Rightarrow> fs \<Rightarrow> bool" where
  "file_kept s0 n s =
     ((\<exists>f g. fs_files (w_fs s0) (Named (compose_name n)) = Some f \<and>
         fs_files s (Named (compose_name n)) = Some g \<and> f_meta g = f_meta f) \<and>
      (\<forall>k. k \<noteq> compose_name n \<longrightarrow> fs_files s (Named k) = fs_files (w_fs s0) (Named k) \<or>
         (fs_files (w_fs s0) (Named k) = None \<and> incident_log n k)))"

definition backup_of :: "world \<Rightarrow> compose_stack \<Rightarrow> fs \<Rightarrow> path \<Rightarrow> bool" where
  "backup_of s0 n s b =
     (\<exists>j f h. b = Temp j \<and> j < fs_next s \<and> fs_files (w_fs s0) (Named (compose_name n)) = Some f \<and>
        fs_files s b = Some h \<and> f_text h = f_text f)"

definition safe :: "world \<Rightarrow> compose_stack \<Rightarrow> world \<Rightarrow> bool" where
  "safe s0 n w =
     (file_kept s0 n (w_fs w) \<and> fs_ok (w_fs w) \<and> length (w_cmds s0) \<le> length (w_cmds w) \<and>
      \<not> w_health_verified w \<and> (\<forall>b. w_backup w = Some b \<longrightarrow> backup_of s0 n (w_fs w) b) \<and>
      (original s0 n (w_fs w) \<or> (w_backup w \<noteq> None \<and> fs_written (w_fs w) \<noteq> [] \<and> \<not> w_restored w)))"

definition safe_with :: "world \<Rightarrow> compose_stack \<Rightarrow> path option \<Rightarrow> world \<Rightarrow> bool" where
  "safe_with s0 n b w = (safe s0 n w \<and> w_backup w = b)"

definition armed :: "world \<Rightarrow> compose_stack \<Rightarrow> world \<Rightarrow> bool" where
  "armed s0 n w = (safe s0 n w \<and> w_backup w \<noteq> None \<and> \<not> w_restored w)"

definition clean :: "world \<Rightarrow> compose_stack \<Rightarrow> world \<Rightarrow> bool" where
  "clean s0 n w =
     (safe s0 n w \<and> \<not> w_restored w \<and>
      (fs_written (w_fs w) = [] \<or> w_applied_tags w \<noteq> [] \<or> w_applied_pins w \<noteq> [] \<or> w_applied_unpins w \<noteq> []))"

lemma safe_same_effects: "safe s0 n w \<Longrightarrow> same_effects w w' \<Longrightarrow> safe s0 n w'"
  by (simp add: safe_def same_effects_def)

lemma safe_issue: "safe s0 n w \<Longrightarrow> safe s0 n (issue k c w)"
  by (simp add: safe_def issue_def)

lemma clean_same_effects: "clean s0 n w \<Longrightarrow> same_effects w w' \<Longrightarrow> clean s0 n w'"
  using safe_same_effects [of s0 n w w'] unfolding clean_def by (simp add: same_effects_def)

lemma clean_issue: "clean s0 n w \<Longrightarrow> clean s0 n (issue k c w)"
  using safe_issue [of s0 n w k c] unfolding clean_def by (simp add: issue_def)

interpretation safe: planned_commander c "safe s0 n" "\<lambda>_. True" p for c s0 n p
  by unfold_locales (auto intro: safe_issue safe_same_effects)

interpretation safe_with: planned_commander c "safe_with s0 n b" "\<lambda>_. True" p for c s0 n b p
  by unfold_locales
    (auto simp: safe_with_def intro: safe_issue safe_same_effects, auto simp: issue_def same_effects_def)

interpretation clean: planned_commander c "clean s0 n" "\<lambda>_. True" p for c s0 n p
  by unfold_locales (auto intro: clean_issue clean_same_effects)

section \<open>File operations\<close>

lemma valid_lift:
  assumes "\<And>w. P w \<Longrightarrow> holds (m c) (c_fault c) (w_fs w)
    (\<lambda>r s. case r of Inl e \<Rightarrow> E (w\<lparr>w_fs := s\<rparr>) | Inr x \<Rightarrow> Q x (w\<lparr>w_fs := s\<rparr>))"
  shows "valid c P (lift_fs m) Q E"
proof (rule validI)
  fix w assume "P w"
  from assms [OF this] show "holds (lift_fs m) c w (ends Q E)"
    unfolding holds_lift_fs by (rule holds_mono) (auto split: sum.splits)
qed

lemma safe_only_temps:
  assumes "safe s0 n w" and "only_temps (w_fs w) s" and "fs_ok s" and "fs_next (w_fs w) \<le> fs_next s"
    and "\<forall>j < fs_next (w_fs w). fs_files s (Temp j) = fs_files (w_fs w) (Temp j)"
  shows "safe s0 n (w\<lparr>w_fs := s\<rparr>)"
  using assms by (fastforce simp: safe_def only_temps_def file_kept_def original_def backup_of_def)

lemma same_files_only_temps: "same_files s s' \<Longrightarrow> only_temps s s'"
  by (simp add: same_files_def only_temps_def)

lemma safe_same_files: "safe s0 n w \<Longrightarrow> same_files (w_fs w) s \<Longrightarrow> safe s0 n (w\<lparr>w_fs := s\<rparr>)"
  by (rule safe_only_temps [OF _ same_files_only_temps]) (auto simp: same_files_def safe_def fs_ok_def)

lemma read_text_same:
  "holds (read_text q) fault s (\<lambda>r s'. same_files s s' \<and>
     (\<forall>t. r = Inr t \<longrightarrow> (\<exists>h. fs_files s q = Some h \<and> f_text h = t)))"
  by (auto simp: read_text_def holds_sys Let_def same_files_def split: option.splits)

text \<open>A rewrite keeps the state safe; so does putting the backup back, which also ends with the original.\<close>

lemma safe_rewrite:
  assumes "armed s0 n w" and "atomic_replace_outcome sha True (compose_name n) t ex (w_fs w) r s"
  shows "armed s0 n (w\<lparr>w_fs := s\<rparr>)"
proof -
  note out = assms(2) [unfolded atomic_replace_outcome_def]
  consider "only_temps (w_fs w) s" | "swapped sha True (compose_name n) t (w_fs w) s" using out by blast
  then show ?thesis
  proof cases
    case 1
    then show ?thesis
      using assms(1) safe_only_temps [of s0 n w s] out by (auto simp: armed_def)
  next
    case 2
    have b: "backup_of s0 n s b" if "w_backup w = Some b" for b
      using that assms(1) out by (fastforce simp: armed_def safe_def backup_of_def)
    have "file_kept s0 n s"
      using 2 assms(1) by (auto simp: armed_def safe_def swapped_def file_kept_def)
    then show ?thesis using 2 assms(1) b out by (auto simp: armed_def safe_def swapped_def)
  qed
qed

lemma safe_restore:
  assumes "safe s0 n w" and "w_backup w = Some bk" and "fs_files (w_fs w) bk = Some h"
    and "atomic_replace_outcome sha False (compose_name n) (f_text h) ex (w_fs w) r s"
  shows "safe s0 n (w\<lparr>w_fs := s\<rparr>) \<and> (\<not> isl r \<longrightarrow> original s0 n s)"
proof -
  note out = assms(4) [unfolded atomic_replace_outcome_def]
  consider "only_temps (w_fs w) s" "isl r" | "swapped sha False (compose_name n) (f_text h) (w_fs w) s" using out by blast
  then show ?thesis
  proof cases
    case 1
    then show ?thesis using assms(1) safe_only_temps [of s0 n w s] out by auto
  next
    case 2
    obtain f g where f: "fs_files (w_fs s0) (Named (compose_name n)) = Some f" "fs_files (w_fs w) (Named (compose_name n)) = Some g" "f_meta g = f_meta f"
      using assms(1) by (auto simp: safe_def file_kept_def)
    have "f_text h = f_text f" using assms(1-3) f(1) by (auto simp: safe_def backup_of_def)
    then have "fs_files s (Named (compose_name n)) = Some f" using 2 f by (auto simp: swapped_def intro: fentry.equality)
    then have o: "original s0 n s" using f(1) by (simp add: original_def)
    have "file_kept s0 n s" using 2 assms(1) by (auto simp: safe_def swapped_def file_kept_def)
    moreover have "backup_of s0 n s b" if "w_backup w = Some b" for b
      using that assms(1) out by (fastforce simp: safe_def backup_of_def)
    ultimately show ?thesis using o assms(1) out by (auto simp: safe_def)
  qed
qed

section \<open>Backing up, writing and rolling back\<close>

definition named :: "plan \<Rightarrow> compose_stack \<Rightarrow> bool" where
  "named p n = (p_stack p = n)"

lemma named_file: "named p n \<Longrightarrow> p_file p = Named (compose_name n)"
  by (simp add: named_def p_file_def)

lemma restore_compose_safe:
  assumes "named p n"
  shows "valid c (safe_with s0 n (Some bk)) (restore_compose p bk)
    (\<lambda>_ w. safe s0 n w \<and> original s0 n (w_fs w)) (safe s0 n)"
  unfolding restore_compose_def
proof (rule valid_bind [OF valid_get [where Q = "\<lambda>_. safe_with s0 n (Some bk)"]], assumption, rule valid_lift)
  fix h w assume "safe_with s0 n (Some bk) w"
  then have w: "safe s0 n w" "w_backup w = Some bk" by (simp_all add: safe_with_def)
  show "holds (restore_compose_backup (c_sha c) (c_unsup c) bk (p_file p) h) (c_fault c) (w_fs w)
      (\<lambda>r s. case r of Inl e \<Rightarrow> safe s0 n (w\<lparr>w_fs := s\<rparr>)
        | Inr x \<Rightarrow> safe s0 n (w\<lparr>w_fs := s\<rparr>) \<and> original s0 n (w_fs (w\<lparr>w_fs := s\<rparr>)))"
    unfolding restore_compose_backup_def named_file [OF assms]
  proof (rule holds_bindI [OF read_text_same])
    fix t s assume "same_files (w_fs w) s \<and> (\<forall>t'. (Inr t :: exc + string) = Inr t' \<longrightarrow> 
      (\<exists>h. fs_files (w_fs w) bk = Some h \<and> f_text h = t'))"
    then obtain h' where s: "same_files (w_fs w) s" "fs_files s bk = Some h'" "f_text h' = t"
      by (auto simp: same_files_def)
    let ?w = "w\<lparr>w_fs := s\<rparr>"
    have w': "safe s0 n ?w" "w_backup ?w = Some bk" using safe_same_files [OF w(1) s(1)] w(2) by simp_all
    then have ok: "fs_ok s" by (simp add: safe_def)
    show "holds (atomic_replace_compose (c_sha c) (c_unsup c) (Named (compose_name n)) t ''rollback'' (Some h) False) (c_fault c) s
      (\<lambda>r s. case r of Inl e \<Rightarrow> safe s0 n (w\<lparr>w_fs := s\<rparr>)
        | Inr x \<Rightarrow> safe s0 n (w\<lparr>w_fs := s\<rparr>) \<and> original s0 n (w_fs (w\<lparr>w_fs := s\<rparr>)))"
    proof (rule holds_mono [OF atomic_replace_holds [OF ok]])
      fix r s2 assume "atomic_replace_outcome (c_sha c) False (compose_name n) t (Some h) s r s2"
      then have "safe s0 n (?w\<lparr>w_fs := s2\<rparr>) \<and> (\<not> isl r \<longrightarrow> original s0 n s2)"
        using safe_restore [OF w', of h'] s by simp
      then show "case r of Inl e \<Rightarrow> safe s0 n (w\<lparr>w_fs := s2\<rparr>)
        | Inr x \<Rightarrow> safe s0 n (w\<lparr>w_fs := s2\<rparr>) \<and> original s0 n (w_fs (w\<lparr>w_fs := s2\<rparr>))"
        by (cases r) simp_all
    qed
  qed (use safe_same_files [OF w(1)] in auto)
qed

lemma set_restored_safe:
  "valid c (\<lambda>w. safe s0 n w \<and> original s0 n (w_fs w)) (put (\<lambda>w. w\<lparr>w_restored := b\<rparr>)) (\<lambda>_. safe s0 n) E"
  by (rule valid_put) (simp add: safe_def)

lemma restore_and_mark_safe:
  "named p n \<Longrightarrow>
   valid c (safe_with s0 n (Some bk)) (io_bind (restore_compose p bk) (\<lambda>synced. put (\<lambda>w. w\<lparr>w_restored := synced\<rparr>)))
     (\<lambda>_. safe s0 n) (safe s0 n)"
  by (rule valid_bind [OF restore_compose_safe set_restored_safe])

lemma safe_with_safe: "safe_with s0 n b w \<Longrightarrow> safe s0 n w"
  by (simp add: safe_with_def)

lemma roll_back_safe:
  assumes "named p n"
  shows "valid c (safe_with s0 n (Some bk)) (roll_back p bk) (\<lambda>_. safe s0 n) (safe s0 n)"
  unfolding roll_back_def
proof (rule valid_catch_file)
  have pop: "keeps c (safe s0 n) (put (\<lambda>w. w\<lparr>w_runtime_after := f w\<rparr>))" for f
    by (rule safe.k_put) (simp add: same_effects_def)
  show "valid c (safe_with s0 n (Some bk))
     (io_bind (get (\<lambda>w. fs_written (w_fs w) \<noteq> [])) (\<lambda>written.
        io_bind (only_if written
            (io_bind (restore_compose p bk) (\<lambda>synced. put (\<lambda>w. w\<lparr>w_restored := synced\<rparr>)))) (\<lambda>_.
        io_bind (put (\<lambda>w. w\<lparr>w_runtime_after := AList.delete (cs_index (p_stack p)) (w_runtime_after w)\<rparr>)) (\<lambda>_.
        io_bind (restore_tag_update_services p) (\<lambda>(ok, err).
          if ok
          then io_bind (put (\<lambda>w. w\<lparr>w_runtime_after :=
                   AList.update (cs_index (p_stack p)) (p_running p, p_stopped p) (w_runtime_after w)\<rparr>))
                 (\<lambda>_. io_ret (if p_running p \<noteq> [] then ''restored-and-healthy'' else ''restored-and-stopped'', err))
          else io_ret (''rollback-failed-manual-review-required'', err))))))
     (\<lambda>_. safe s0 n) (safe s0 n)"
    by (rule valid_bind [OF valid_get [where Q = "\<lambda>_. safe_with s0 n (Some bk)"]], assumption,
        rule valid_bind [OF valid_only_if [OF restore_and_mark_safe [OF assms]]], erule safe_with_safe)
      (intro safe.k_bind pop safe.k_restore_services safe.k_prod safe.k_if safe.k_ret)
qed (auto intro: safe.k_ret)

lemma valid_prod: "(\<And>a b. valid c P (f a b) Q E) \<Longrightarrow> valid c P (case v of (a, b) \<Rightarrow> f a b) Q E"
  by (cases v) simp

text \<open>The incident log is a file no name had before; the Compose file and the backup stay.\<close>

lemma safe_adds:
  assumes "safe s0 n w" and "adds_only N (w_fs w) s" and "\<And>k. k \<in> N \<Longrightarrow> incident_log n k"
  shows "safe s0 n (w\<lparr>w_fs := s\<rparr>)"
proof -
  have w: "file_kept s0 n (w_fs w)" "fs_ok (w_fs w)" using assms(1) by (simp_all add: safe_def)
  have same: "fs_files s (Named (compose_name n)) = fs_files (w_fs w) (Named (compose_name n))"
    using w(1) assms(2) unfolding file_kept_def adds_only_def by (metis option.distinct(1))
  have others: "fs_files s (Named k) = fs_files (w_fs s0) (Named k) \<or>
      (fs_files (w_fs s0) (Named k) = None \<and> incident_log n k)" if "k \<noteq> compose_name n" for k
    using w(1) assms(2,3) that unfolding file_kept_def adds_only_def by metis
  have "file_kept s0 n s" using w(1) same others by (simp add: file_kept_def)
  moreover have "backup_of s0 n s b" if "backup_of s0 n (w_fs w) b" for b
    using that assms(2) by (auto simp: backup_of_def adds_only_def)
  moreover have "original s0 n s = original s0 n (w_fs w)" by (simp add: original_def same)
  ultimately show ?thesis using assms(1,2) by (auto simp: safe_def adds_only_def fs_ok_def)
qed

lemma catch_os_safe:
  "keeps c (safe s0 n) m \<Longrightarrow> (\<And>s. keeps c (safe s0 n) (h s)) \<Longrightarrow> keeps c (safe s0 n) (catch_os m h)"
  unfolding catch_os_def by (rule valid_catch) (auto intro: safe.k_raise split: lexc.splits exc.splits)

lemma incident_safe:
  assumes "named p n"
  shows "keeps c (safe s0 n) (write_tag_incident_log p re ro he)"
proof -
  have new: "keeps c (safe s0 n) (lift_fs (\<lambda>c. create_unique_text_file_exclusive (c_new_meta c) (c_owner c)
      (cs_directory (p_stack p)) (incident_name tag stamp) content))" for tag stamp content
  proof (rule valid_lift, rule holds_mono [OF create_unique_adds])
    fix w r s
    assume w: "safe s0 n w"
      and s: "adds_only (set (exclusive_candidates (cs_directory (p_stack p)) (incident_name tag stamp))) (w_fs w) s"
    have "safe s0 n (w\<lparr>w_fs := s\<rparr>)"
      by (rule safe_adds [OF w s]) (use assms in \<open>auto simp: incident_log_def named_def\<close>)
    then show "case r of Inl e \<Rightarrow> safe s0 n (w\<lparr>w_fs := s\<rparr>) | Inr x \<Rightarrow> safe s0 n (w\<lparr>w_fs := s\<rparr>)"
      by (cases r) simp_all
  qed
  have rest: "valid c (\<lambda>w. safe s0 n w \<and> (\<exists>tag stamp. name = incident_name tag stamp))
      (catch_os (io_bind (lift_fs (\<lambda>c. create_unique_text_file_exclusive (c_new_meta c) (c_owner c)
        (cs_directory (p_stack p)) name content)) (\<lambda>_. io_ret ())) (\<lambda>_. io_ret ()))
      (\<lambda>_. safe s0 n) (safe s0 n)" for name content
  proof (cases "\<exists>tag stamp. name = incident_name tag stamp")
    case True
    then obtain tag stamp where name: "name = incident_name tag stamp" by blast
    show ?thesis
      unfolding name by (rule valid_pre [OF catch_os_safe [OF safe.k_bind [OF new safe.k_ret] safe.k_ret]]) simp
  qed (auto intro: valid_absurd)
  have pair: "valid c (\<lambda>w. safe s0 n w \<and> (\<exists>tag stamp. fst x = incident_name tag stamp))
      (case x of (name, content) \<Rightarrow> catch_os (io_bind (lift_fs (\<lambda>c. create_unique_text_file_exclusive
        (c_new_meta c) (c_owner c) (cs_directory (p_stack p)) name content)) (\<lambda>_. io_ret ())) (\<lambda>_. io_ret ()))
      (\<lambda>_. safe s0 n) (safe s0 n)" for x
    using rest by (cases x) simp
  show ?thesis
    unfolding write_tag_incident_log_def
    by (rule safe.k_bind [OF safe.k_get], rule valid_prod, rule valid_bind [OF _ pair], rule valid_ask) auto
qed

lemma tag_failure_safe:
  assumes "named p n"
  shows "keeps c (safe s0 n) (handle_tag_update_failure p re ph e h ms)"
proof (rule validI)
  fix w assume w: "safe s0 n w"
  note inc = incident_safe [OF assms]
  have body: "valid c (safe_with s0 n (Some bk))
     (io_bind (progress ph' ''failure'' ss) (\<lambda>_.
      io_bind (case h of None \<Rightarrow> capture_health_details ss False | Some h \<Rightarrow> io_ret h) (\<lambda>health.
      io_bind (roll_back p bk) (\<lambda>(result, rollback_error).
      io_bind (record_failure (p_stack p) rm ph re ss
          (case rollback_error of Some e \<Rightarrow> Some e | None \<Rightarrow> e) health (mk result)) (\<lambda>_.
      io_bind (write_tag_incident_log p re result health) (\<lambda>_. io_ret (failure re)))))))
     (\<lambda>_. safe s0 n) (safe s0 n)" for bk ph' ss rm mk
  proof -
    have 1: "valid c (safe_with s0 n (Some bk)) (progress ph' ''failure'' ss) (\<lambda>_. safe_with s0 n (Some bk)) (safe s0 n)"
      by (rule valid_weaken [OF safe_with.k_progress]) (auto intro: safe_with_safe)
    have 2: "valid c (safe_with s0 n (Some bk)) (case h of None \<Rightarrow> capture_health_details ss False | Some h \<Rightarrow> io_ret h)
        (\<lambda>_. safe_with s0 n (Some bk)) (safe s0 n)"
      by (rule valid_weaken [OF safe_with.k_option [OF safe_with.k_capture safe_with.k_ret]])
        (auto intro: safe_with_safe)
    show ?thesis
      by (rule valid_bind [OF 1], rule valid_bind [OF 2], rule valid_bind [OF roll_back_safe [OF assms]])
        (intro safe.k_bind safe.k_prod safe.k_record_failure inc safe.k_ret)
  qed
  show "holds (handle_tag_update_failure p re ph e h ms) c w (ends (\<lambda>_. safe s0 n) (safe s0 n))"
  proof (cases "w_backup w")
    case None
    then show ?thesis using w by (simp add: handle_tag_update_failure_def holds_bind holds_get holds_ret)
  next
    case (Some bk)
    then have "safe_with s0 n (Some bk) w" using w by (simp add: safe_with_def)
    then show ?thesis
      using body Some unfolding handle_tag_update_failure_def holds_bind [of "get w_backup"] holds_get Let_def
      by (simp add: valid_def)
  qed
qed

lemma rewrite_failure_safe:
  "named p n \<Longrightarrow> keeps c (safe s0 n) (handle_compose_rewrite_failure p re ph e h ms)"
  unfolding handle_compose_rewrite_failure_def
  by (intro safe.k_bind safe.k_get safe.k_if safe.k_ret tag_failure_safe)

lemma rewrite_failed_safe: "named p n \<Longrightarrow> keeps c (safe s0 n) (rewrite_failed p b ph re nt)"
  unfolding rewrite_failed_def
  by (intro safe.k_bind safe.k_get safe.k_if safe.k_ret rewrite_failure_safe safe.k_record_failure)

lemma fail_rewrite_safe: "named p n \<Longrightarrow> keeps c (safe s0 n) (fail_rewrite p re ph)"
  unfolding fail_rewrite_def by (intro safe.k_bind safe.k_ret rewrite_failure_safe)

section \<open>The steps of an update\<close>

text \<open>After a step: the next one may run, or the update is over with a status.\<close>

definition stepped :: "world \<Rightarrow> compose_stack \<Rightarrow> stack_status option \<Rightarrow> world \<Rightarrow> bool" where
  "stepped s0 n st w =
     (case st of None \<Rightarrow> clean s0 n w
      | Some s \<Rightarrow> safe s0 n w \<and> (st_status s = ''success'' \<longrightarrow> original s0 n (w_fs w)))"

definition fails :: "stack_status \<Rightarrow> bool" where
  "fails s = (st_status s \<noteq> ''success'')"

lemma fails_failure [simp]: "fails (failure r)" by (simp add: fails_def)

definition stops :: "stack_status option \<Rightarrow> bool" where
  "stops st = (\<exists>s. st = Some s \<and> fails s)"

lemma stops_Some [simp]: "stops (Some s) = fails s" by (simp add: stops_def)

lemma rewrite_failure_fails: "yields c (handle_compose_rewrite_failure p re ph e h ms) fails"
  unfolding handle_compose_rewrite_failure_def handle_tag_update_failure_def Let_def
  by (intro yields_then yields_if yields_ret fails_failure yields_option)
    (auto intro!: yields_then yields_ret split: prod.splits)

lemma rewrite_failed_stops: "yields c (rewrite_failed p b ph re nt) stops"
  unfolding rewrite_failed_def
  by (intro yields_then yields_if yields_bind [OF rewrite_failure_fails] yields_ret) simp_all

lemma fail_rewrite_stops: "yields c (fail_rewrite p re ph) stops"
  unfolding fail_rewrite_def by (intro yields_bind [OF rewrite_failure_fails] yields_ret) simp

lemma stopping:
  assumes "keeps c (safe s0 n) m" and "yields c m stops" and "\<And>w. P w \<Longrightarrow> safe s0 n w"
  shows "valid c P m (stepped s0 n) (safe s0 n)"
  by (rule valid_weaken [OF valid_yields [OF assms(1,2)] assms(3)]) (auto simp: stepped_def stops_def fails_def)

lemmas stop_rewrite_failed = stopping [OF rewrite_failed_safe rewrite_failed_stops]
lemmas stop_fail_rewrite = stopping [OF fail_rewrite_safe fail_rewrite_stops]

lemma clean_safe: "clean s0 n w \<Longrightarrow> safe s0 n w" by (simp add: clean_def)
lemma armed_safe: "armed s0 n w \<Longrightarrow> safe s0 n w" by (simp add: armed_def)

lemma set_backup_safe:
  assumes "clean s0 n w" and "w_backup w = None" and "backup_outcome (compose_name n) (w_fs w) (Inr b) s"
  shows "clean s0 n (w\<lparr>w_fs := s, w_backup := Some b\<rparr>)"
proof -
  have s: "safe s0 n (w\<lparr>w_fs := s\<rparr>)"
    using safe_only_temps [of s0 n w s] assms(1,3) by (auto simp: clean_def backup_outcome_def)
  have o: "original s0 n (w_fs w)" using assms(1,2) by (simp add: clean_def safe_def)
  have "backup_of s0 n s b"
    using assms(3) o by (auto simp: backup_outcome_def backup_of_def original_def)
  then show ?thesis
    using s assms by (auto simp: clean_def safe_def backup_outcome_def only_temps_def original_def)
qed

lemma ensure_backup_safe:
  assumes "named p n"
  shows "valid c (clean s0 n) (ensure_compose_backup p)
    (\<lambda>st w. stepped s0 n st w \<and> (st = None \<longrightarrow> w_backup w \<noteq> None)) (safe s0 n)"
proof (rule validI)
  let ?Q = "\<lambda>st w. stepped s0 n st w \<and> (st = None \<longrightarrow> w_backup w \<noteq> None)"
  fix w assume w: "clean s0 n w"
  show "holds (ensure_compose_backup p) c w (ends ?Q (safe s0 n))"
  proof (cases "w_backup w")
    case (Some b)
    then show ?thesis using w by (simp add: ensure_compose_backup_def holds_bind holds_get holds_ret stepped_def)
  next
    case None
    let ?backup = "lift_fs (\<lambda>c. backup_compose (c_unsup c) (p_file p))"
    have "fs_ok (w_fs w)" using w by (simp add: clean_def safe_def)
    then have out: "holds (backup_compose (c_unsup c) (Named (compose_name n))) (c_fault c) (w_fs w) (backup_outcome (compose_name n) (w_fs w))"
      by (rule backup_compose_holds)
    have lifted: "holds ?backup c w (ends (\<lambda>b w'. clean s0 n (w'\<lparr>w_backup := Some b\<rparr>)) (safe s0 n))"
      unfolding holds_lift_fs named_file [OF assms]
    proof (rule holds_mono [OF out])
      fix r s assume r: "backup_outcome (compose_name n) (w_fs w) r s"
      then have "safe s0 n (w\<lparr>w_fs := s\<rparr>)"
        using safe_only_temps [of s0 n w s] w by (auto simp: clean_def backup_outcome_def)
      then show "case r of
          Inl e \<Rightarrow> ends (\<lambda>b w'. clean s0 n (w'\<lparr>w_backup := Some b\<rparr>)) (safe s0 n) (Inl (FileError e)) (w\<lparr>w_fs := s\<rparr>)
        | Inr b \<Rightarrow> ends (\<lambda>b w'. clean s0 n (w'\<lparr>w_backup := Some b\<rparr>)) (safe s0 n) (Inr b) (w\<lparr>w_fs := s\<rparr>)"
        using set_backup_safe [OF w None] r by (cases r) simp_all
    qed
    have "valid c (\<lambda>w'. w' = w) (catch_file
        (io_bind ?backup (\<lambda>bk. io_bind (put (\<lambda>w. w\<lparr>w_backup := Some bk\<rparr>)) (\<lambda>_. io_ret None)))
        (\<lambda>e. io_bind (record_failure (p_stack p) (p_matches p) ''compose-backup'' ''compose-backup-failed''
               (p_pull_services p) None '''' e) (\<lambda>_. io_ret (Some (failure ''compose-backup-failed''))))) ?Q (safe s0 n)"
    proof (rule valid_catch_file [where R = "safe s0 n"])
      have 1: "valid c (\<lambda>w'. w' = w) ?backup (\<lambda>b w'. clean s0 n (w'\<lparr>w_backup := Some b\<rparr>)) (safe s0 n)"
        using lifted by (simp add: valid_def)
      show "valid c (\<lambda>w'. w' = w) (io_bind ?backup (\<lambda>bk. io_bind (put (\<lambda>w. w\<lparr>w_backup := Some bk\<rparr>)) (\<lambda>_. io_ret None)))
          ?Q (safe s0 n)"
        by (rule valid_bind [OF 1], rule valid_bind [OF valid_put [where Q = "\<lambda>_ w. clean s0 n w \<and> w_backup w \<noteq> None"]])
          (auto intro: valid_ret simp: stepped_def)
      have rec: "valid c (safe s0 n) (record_failure st ms ph re ss e h nt) (\<lambda>_. safe s0 n) (safe s0 n)"
        for st ms ph re ss e h nt by (rule safe.k_record_failure)
      show "valid c (safe s0 n) (io_bind (record_failure (p_stack p) (p_matches p) ''compose-backup''
            ''compose-backup-failed'' (p_pull_services p) None '''' e)
            (\<lambda>_. io_ret (Some (failure ''compose-backup-failed'')))) ?Q (safe s0 n)" for e
        by (rule valid_bind [OF rec], rule valid_ret) (simp add: stepped_def)
    qed
    then show ?thesis
      using None by (simp add: ensure_compose_backup_def holds_bind holds_get valid_def)
  qed
qed

lemma armed_same_files: "armed s0 n w \<Longrightarrow> same_files (w_fs w) s \<Longrightarrow> armed s0 n (w\<lparr>w_fs := s\<rparr>)"
  unfolding armed_def by (simp add: safe_same_files)

lemma read_armed: "valid c (armed s0 n) (lift_fs (\<lambda>c. read_text q)) (\<lambda>_. armed s0 n) (safe s0 n)"
  by (rule valid_lift, rule holds_mono [OF read_text_same])
    (auto intro: armed_same_files armed_safe split: sum.splits)

lemma expected_hash_armed: "valid c (armed s0 n) (expected_compose_hash bk) (\<lambda>_. armed s0 n) (safe s0 n)"
  unfolding expected_compose_hash_def
  by (rule valid_lift, rule holds_mono [OF expected_hash_same])
    (auto intro: armed_same_files armed_safe split: sum.splits)

lemma replace_armed:
  assumes "named p n"
  shows "valid c (armed s0 n) (replace_compose p t pfx ex) (\<lambda>_. armed s0 n) (safe s0 n)"
  unfolding replace_compose_def named_file [OF assms]
proof (rule valid_lift)
  fix w assume w: "armed s0 n w"
  then have "fs_ok (w_fs w)" by (simp add: armed_def safe_def)
  then show "holds (atomic_replace_compose (c_sha c) (c_unsup c) (Named (compose_name n)) t pfx (Some ex) True) (c_fault c) (w_fs w)
      (\<lambda>r s. case r of Inl e \<Rightarrow> safe s0 n (w\<lparr>w_fs := s\<rparr>) | Inr x \<Rightarrow> armed s0 n (w\<lparr>w_fs := s\<rparr>))"
    by (rule holds_mono [OF atomic_replace_holds]) (auto intro: safe_rewrite [OF w] armed_safe split: sum.splits)
qed

lemma armed_ret: "valid c (armed s0 n) (io_ret x) (\<lambda>_. armed s0 n) E"
  by (rule valid_ret)

lemma armed_raise: "valid c (armed s0 n) (io_raise e) Q (safe s0 n)"
  by (rule valid_raise) (rule armed_safe)

lemma armed_rendered: "valid c (armed s0 n) (lift_rendered r) (\<lambda>_. armed s0 n) (safe s0 n)"
  by (cases r) (simp_all add: lift_rendered_def armed_ret armed_raise)

lemma armed_ask: "valid c (armed s0 n) (ask f) (\<lambda>_. armed s0 n) E" by (rule valid_ask)
lemma armed_opt: "valid c (armed s0 n) (opt f) (\<lambda>_. armed s0 n) E" by (rule valid_opt)
lemma armed_get: "valid c (armed s0 n) (get f) (\<lambda>_. armed s0 n) E" by (rule valid_get)

lemmas armed_rules = valid_bind [OF read_armed] valid_bind [OF armed_ask] valid_bind [OF armed_rendered]
  valid_bind [OF replace_armed] valid_prod valid_if armed_ret armed_raise

lemma apply_tags_armed:
  "named p n \<Longrightarrow> valid c (armed s0 n) (apply_compose_tag_updates p us ss h) (\<lambda>_. armed s0 n) (safe s0 n)"
  unfolding apply_compose_tag_updates_def by (intro armed_rules)

lemma apply_pins_armed:
  "named p n \<Longrightarrow> valid c (armed s0 n) (apply_compose_digest_pins p us la ss h) (\<lambda>_. armed s0 n) (safe s0 n)"
  unfolding apply_compose_digest_pins_def by (intro armed_rules)

lemma apply_unpins_armed:
  "named p n \<Longrightarrow> valid c (armed s0 n) (apply_compose_digest_unpins p us tf h) (\<lambda>_. armed s0 n) (safe s0 n)"
  unfolding apply_compose_digest_unpins_def by (intro armed_rules)

text \<open>
  The common shape of the three rewrites: back up, write and note what was applied (\<open>field\<close>),
  then look at the result.
\<close>

definition wrote :: "world \<Rightarrow> compose_stack \<Rightarrow> stack_status option \<Rightarrow> world \<Rightarrow> bool" where
  "wrote s0 n st w = (if st = None then armed s0 n w else stepped s0 n st w)"

lemma armed_put:
  "(\<And>w. armed s0 n w \<Longrightarrow> armed s0 n (g w)) \<Longrightarrow> valid c (armed s0 n) (put g) (\<lambda>_. armed s0 n) E"
  by (rule valid_put)

lemma armed_applied [simp]:
  "armed s0 n (w\<lparr>w_applied_tags := a\<rparr>) = armed s0 n w" "armed s0 n (w\<lparr>w_applied_pins := b\<rparr>) = armed s0 n w"
  "armed s0 n (w\<lparr>w_applied_unpins := d\<rparr>) = armed s0 n w"
  by (simp_all add: armed_def safe_def)

lemma wrote_ret: "valid c (armed s0 n) (io_ret None) (wrote s0 n) E"
  by (rule valid_ret) (simp add: wrote_def)

lemma wrote_stop:
  assumes "valid c P m (stepped s0 n) E" and "yields c m stops"
  shows "valid c P m (wrote s0 n) E"
  using valid_yields [OF assms] by (rule valid_weaken) (auto simp: wrote_def stops_def)

lemma wrote_rewrite_failed:
  "named p n \<Longrightarrow> valid c (safe s0 n) (rewrite_failed p b ph re e) (wrote s0 n) (safe s0 n)"
  by (rule wrote_stop [OF stop_rewrite_failed rewrite_failed_stops])

lemma clean_refresh:
  assumes "named p n" and "\<And>w. P w \<Longrightarrow> clean s0 n w"
    and that: "\<And>st. valid c (clean s0 n) (after st) (stepped s0 n) (safe s0 n)"
  shows "valid c P (io_bind (get w_current_stack) (\<lambda>cur. io_bind (refresh_stack_images cur) (\<lambda>refreshed.
      case refreshed of None \<Rightarrow> fail_rewrite p r1 ph1
      | Some st \<Rightarrow> if bad st then fail_rewrite p r2 ph2
          else io_bind (set_current_stack st) (\<lambda>_. after st)))) (stepped s0 n) (safe s0 n)"
proof -
  have ref: "valid c (clean s0 n) (refresh_stack_images cur) (\<lambda>_. clean s0 n) (safe s0 n)" for cur
    by (rule valid_weaken [OF clean.k_refresh]) (auto intro: clean_safe)
  have set: "valid c (clean s0 n) (set_current_stack st) (\<lambda>_. clean s0 n) (safe s0 n)" for st
    by (rule valid_weaken [OF clean.k_set_stack]) (auto intro: clean_safe)
  have stop: "valid c (clean s0 n) (fail_rewrite p r ph) (stepped s0 n) (safe s0 n)" for r ph
    by (rule stop_fail_rewrite [OF assms(1) clean_safe])
  show ?thesis
  proof (rule valid_bind [OF valid_get [where Q = "\<lambda>_. clean s0 n"]], erule assms(2), rule valid_bind [OF ref])
    show "valid c (clean s0 n) (case refreshed of None \<Rightarrow> fail_rewrite p r1 ph1
      | Some st \<Rightarrow> if bad st then fail_rewrite p r2 ph2 else io_bind (set_current_stack st) (\<lambda>_. after st))
      (stepped s0 n) (safe s0 n)" for refreshed
      by (cases refreshed) (auto intro: stop valid_bind [OF set that])
  qed
qed

text \<open>The end of a rewrite: nothing was applied, or the new file is checked.\<close>

lemma finish_rewrite:
  assumes "named p n"
    and none_ok: "valid c (armed s0 n) none (stepped s0 n) (safe s0 n)"
    and applied: "\<And>w. armed s0 n w \<Longrightarrow> f w \<noteq> [] \<Longrightarrow> clean s0 n w"
    and after: "\<And>st. valid c (clean s0 n) (after st) (stepped s0 n) (safe s0 n)"
  shows "valid c (wrote s0 n st) (case st of Some s \<Rightarrow> io_ret (Some s)
      | None \<Rightarrow> io_bind (get f) (\<lambda>applied.
          if applied = [] then none
          else io_bind (get w_current_stack) (\<lambda>cur. io_bind (refresh_stack_images cur) (\<lambda>refreshed.
            case refreshed of None \<Rightarrow> fail_rewrite p r1 ph1
            | Some s' \<Rightarrow> if bad applied s' then fail_rewrite p r2 ph2
                else io_bind (set_current_stack s') (\<lambda>_. after s')))))
    (stepped s0 n) (safe s0 n)"
proof (cases st)
  case None
  have "valid c (armed s0 n) (io_bind (get f) (\<lambda>applied.
          if applied = [] then none
          else io_bind (get w_current_stack) (\<lambda>cur. io_bind (refresh_stack_images cur) (\<lambda>refreshed.
            case refreshed of None \<Rightarrow> fail_rewrite p r1 ph1
            | Some s' \<Rightarrow> if bad applied s' then fail_rewrite p r2 ph2
                else io_bind (set_current_stack s') (\<lambda>_. after s')))))
    (stepped s0 n) (safe s0 n)"
  proof (rule valid_bind [OF valid_get [where Q = "\<lambda>x w. armed s0 n w \<and> x = f w"]], simp)
    fix x
    show "valid c (\<lambda>w. armed s0 n w \<and> x = f w)
        (if x = [] then none
          else io_bind (get w_current_stack) (\<lambda>cur. io_bind (refresh_stack_images cur) (\<lambda>refreshed.
            case refreshed of None \<Rightarrow> fail_rewrite p r1 ph1
            | Some s' \<Rightarrow> if bad x s' then fail_rewrite p r2 ph2
                else io_bind (set_current_stack s') (\<lambda>_. after s')))) (stepped s0 n) (safe s0 n)"
    proof (cases "x = []")
      case True
      have "valid c (\<lambda>w. armed s0 n w \<and> x = f w) none (stepped s0 n) (safe s0 n)"
        using none_ok by (rule valid_pre) simp
      then show ?thesis using True by simp
    next
      case False
      have "valid c (\<lambda>w. armed s0 n w \<and> x = f w)
        (io_bind (get w_current_stack) (\<lambda>cur. io_bind (refresh_stack_images cur) (\<lambda>refreshed.
            case refreshed of None \<Rightarrow> fail_rewrite p r1 ph1
            | Some s' \<Rightarrow> if bad x s' then fail_rewrite p r2 ph2
                else io_bind (set_current_stack s') (\<lambda>_. after s')))) (stepped s0 n) (safe s0 n)"
        by (rule clean_refresh [OF assms(1) _ after]) (use applied False in auto)
      then show ?thesis using False by simp
    qed
  qed
  then show ?thesis unfolding None option.case by (rule valid_pre) (simp add: wrote_def)
next
  case (Some s)
  show ?thesis unfolding Some option.case by (rule valid_ret) (simp add: wrote_def)
qed

lemma start_rewrite:
  assumes "named p n" and "valid c (armed s0 n) m (stepped s0 n) (safe s0 n)"
  shows "valid c (clean s0 n) (io_bind (ensure_compose_backup p)
      (\<lambda>status. case status of Some s \<Rightarrow> io_ret (Some s) | None \<Rightarrow> m)) (stepped s0 n) (safe s0 n)"
proof (rule valid_bind [OF ensure_backup_safe [OF assms(1)]])
  show "valid c (\<lambda>w. stepped s0 n st w \<and> (st = None \<longrightarrow> w_backup w \<noteq> None))
      (case st of Some s \<Rightarrow> io_ret (Some s) | None \<Rightarrow> m) (stepped s0 n) (safe s0 n)" for st
    by (cases st) (auto intro: valid_ret valid_pre [OF assms(2)] simp: stepped_def armed_def clean_def)
qed

lemma tags_clean: "armed s0 n w \<Longrightarrow> w_applied_tags w \<noteq> [] \<Longrightarrow> clean s0 n w"
  and pins_clean: "armed s0 n w \<Longrightarrow> w_applied_pins w \<noteq> [] \<Longrightarrow> clean s0 n w"
  and unpins_clean: "armed s0 n w \<Longrightarrow> w_applied_unpins w \<noteq> [] \<Longrightarrow> clean s0 n w"
  by (simp_all add: armed_def clean_def)

lemma clean_done: "valid c (clean s0 n) (io_ret None) (stepped s0 n) E"
  by (rule valid_ret) (simp add: stepped_def)

lemma armed_put_applied:
  "valid c (armed s0 n) (put (\<lambda>w. w\<lparr>w_applied_tags := a\<rparr>)) (\<lambda>_. armed s0 n) E"
  "valid c (armed s0 n) (put (\<lambda>w. w\<lparr>w_applied_pins := b\<rparr>)) (\<lambda>_. armed s0 n) E"
  "valid c (armed s0 n) (put (\<lambda>w. w\<lparr>w_applied_unpins := d\<rparr>)) (\<lambda>_. armed s0 n) E"
  by (simp_all add: armed_put)

lemma tags_step:
  assumes "named p n"
  shows "valid c (clean s0 n) (lifecycle_tag_updates p) (stepped s0 n) (safe s0 n)"
proof (cases "p_tags p = []")
  case True
  then show ?thesis by (simp add: lifecycle_tag_updates_def clean_done)
next
  case False
  have rec: "valid c (armed s0 n) (io_bind (record_failure st ms ph re ss e h nt) (\<lambda>_. io_ret (Some (failure r))))
      (stepped s0 n) (safe s0 n)" for st ms ph re ss e h nt r
    by (rule stopping [OF _ _ armed_safe])
      (intro safe.k_bind safe.k_record_failure safe.k_ret, intro yields_then yields_ret, simp)
  show ?thesis
    unfolding lifecycle_tag_updates_def if_not_P [OF False] the_backup_def
  proof (rule start_rewrite [OF assms], rule valid_bind [where R = "wrote s0 n"])
    show "valid c (armed s0 n) (catch_file
        (io_bind (get (\<lambda>w. the (w_backup w))) (\<lambda>bk. io_bind (expected_compose_hash bk) (\<lambda>h.
          io_bind (apply_compose_tag_updates p (p_tags p) (p_streams p) h) (\<lambda>applied.
          io_bind (put (\<lambda>w. w\<lparr>w_applied_tags := applied\<rparr>)) (\<lambda>_. io_ret None)))))
        (\<lambda>e. rewrite_failed p False ''compose-tag-rewrite'' ''compose-tag-rewrite-failed'' e)) (wrote s0 n) (safe s0 n)"
      by (rule valid_catch_file [OF _ wrote_rewrite_failed [OF assms]])
        (intro valid_bind [OF armed_get] valid_bind [OF expected_hash_armed] valid_bind [OF apply_tags_armed [OF assms]]
          valid_bind [OF armed_put_applied(1)] wrote_ret)
  qed (rule finish_rewrite [OF assms rec tags_clean clean_done])
qed

lemma unpins_step:
  assumes "named p n"
  shows "valid c (clean s0 n) (lifecycle_digest_unpin_updates p) (stepped s0 n) (safe s0 n)"
proof (cases "p_unpins p = []")
  case True
  then show ?thesis by (simp add: lifecycle_digest_unpin_updates_def clean_done)
next
  case False
  show ?thesis
    unfolding lifecycle_digest_unpin_updates_def if_not_P [OF False] the_backup_def
  proof (rule start_rewrite [OF assms], rule valid_bind [where R = "wrote s0 n"])
    show "valid c (armed s0 n) (catch_file
        (io_bind (get (\<lambda>w. the (w_backup w))) (\<lambda>bk. io_bind (expected_compose_hash bk) (\<lambda>h.
          io_bind (apply_compose_digest_unpins p (p_unpins p)
             (compose_config_wud_tag_transforms (cs_service_images (p_stack p))) h) (\<lambda>applied.
          io_bind (put (\<lambda>w. w\<lparr>w_applied_unpins := applied\<rparr>)) (\<lambda>_. io_ret None)))))
        (\<lambda>e. rewrite_failed p True ''compose-digest-unpin'' ''compose-digest-unpin-failed'' e)) (wrote s0 n) (safe s0 n)"
      by (rule valid_catch_file [OF _ wrote_rewrite_failed [OF assms]])
        (intro valid_bind [OF armed_get] valid_bind [OF expected_hash_armed] valid_bind [OF apply_unpins_armed [OF assms]]
          valid_bind [OF armed_put_applied(3)] wrote_ret)
  qed (rule finish_rewrite [OF assms stop_rewrite_failed [OF assms armed_safe] unpins_clean clean_done])
qed

lemma put_after_clean: "valid c (clean s0 n) (put (\<lambda>w. w\<lparr>w_after := a\<rparr>)) (\<lambda>_. clean s0 n) E"
  by (rule valid_put, erule clean_same_effects) (simp add: same_effects_def)

lemma pins_step:
  assumes "named p n"
  shows "valid c (clean s0 n) (lifecycle_digest_pin_updates p) (stepped s0 n) (safe s0 n)"
proof (cases "p_pins p = []")
  case True
  then show ?thesis by (simp add: lifecycle_digest_pin_updates_def clean_done)
next
  case False
  have imgs: "valid c (clean s0 n) (image_state_of i) (\<lambda>_. clean s0 n) (safe s0 n)" for i
    by (rule valid_weaken [OF clean.k_images(2)]) (auto intro: clean_safe)
  have after: "valid c (clean s0 n) (io_bind (image_state_of (cs_images st)) (\<lambda>after.
      io_bind (put (\<lambda>w. w\<lparr>w_after := after\<rparr>)) (\<lambda>_. io_ret None))) (stepped s0 n) (safe s0 n)" for st
    by (intro valid_bind [OF imgs] valid_bind [OF put_after_clean] clean_done)
  show ?thesis
    unfolding lifecycle_digest_pin_updates_def if_not_P [OF False] the_backup_def
  proof (rule start_rewrite [OF assms], rule valid_bind [where R = "wrote s0 n"])
    show "valid c (armed s0 n) (catch_file
        (io_bind (opt op_label_approvals) (\<lambda>approvals.
          io_bind (get (\<lambda>w. the (w_backup w))) (\<lambda>bk. io_bind (expected_compose_hash bk) (\<lambda>h.
          io_bind (apply_compose_digest_pins p (p_pins p) approvals (p_streams p) h) (\<lambda>applied.
          io_bind (put (\<lambda>w. w\<lparr>w_applied_pins := applied\<rparr>)) (\<lambda>_. io_ret None))))))
        (\<lambda>e. rewrite_failed p True ''compose-digest-pin'' ''compose-digest-pin-failed'' e)) (wrote s0 n) (safe s0 n)"
      by (rule valid_catch_file [OF _ wrote_rewrite_failed [OF assms]])
        (intro valid_bind [OF armed_get] valid_bind [OF armed_opt] valid_bind [OF expected_hash_armed]
          valid_bind [OF apply_pins_armed [OF assms]] valid_bind [OF armed_put_applied(2)] wrote_ret)
  qed (rule finish_rewrite [OF assms stop_rewrite_failed [OF assms armed_safe] pins_clean after])
qed

section \<open>Pulling\<close>

lemmas safe_acts = safe.k_bind safe.k_ret safe.k_ask safe.k_get safe.k_if safe.k_option safe.k_sum safe.k_prod
  safe.k_record_failure safe.k_capture safe.k_progress safe.k_scope rewrite_failure_safe

lemma failed_pull_safe:
  assumes "named p n"
  shows "keeps c (safe s0 n) (pull_failed p e)" "keeps c (safe s0 n) (expected_digests_failed p)"
    "keeps c (safe s0 n) (pins_failed p)"
  unfolding pull_failed_def expected_digests_failed_def pins_failed_def rewrite_to_undo_def
  by (intro safe_acts assms)+

lemma undo_stops:
  assumes "yields c m stops"
  shows "yields c (io_bind rewrite_to_undo (\<lambda>undo. if undo
    then io_bind (handle_compose_rewrite_failure p re ph e h ms) (\<lambda>s. io_ret (Some s)) else m)) stops"
  by (rule yields_then, rule yields_if [OF yields_bind [OF rewrite_failure_fails] assms], rule yields_ret) simp

lemma failed_pull_stops:
  "yields c (pull_failed p e) stops" "yields c (expected_digests_failed p) stops"
  "yields c (pins_failed p) stops"
proof -
  show "yields c (pull_failed p e) stops" "yields c (pins_failed p) stops"
    unfolding pull_failed_def pins_failed_def by (rule undo_stops, intro yields_then yields_ret, simp)+
  show "yields c (expected_digests_failed p) stops"
    unfolding expected_digests_failed_def
    by (rule yields_then, rule yields_prod, rule yields_then, rule undo_stops, intro yields_then yields_ret) simp
qed

lemmas stop_pull = stopping [OF failed_pull_safe(1) failed_pull_stops(1)]
  stopping [OF failed_pull_safe(2) failed_pull_stops(2)] stopping [OF failed_pull_safe(3) failed_pull_stops(3)]

lemma clean_keeps: "keeps c (clean s0 n) m \<Longrightarrow> valid c (clean s0 n) m (\<lambda>_. clean s0 n) (safe s0 n)"
  by (erule valid_weaken) (auto intro: clean_safe)

lemma pull_step:
  assumes "named p n"
  shows "valid c (clean s0 n) (pull_and_verify_images p) (stepped s0 n) (safe s0 n)"
proof -
  note looks = clean.k_progress clean.k_pull clean.k_get clean.k_images(2) clean.k_remember clean.k_expected clean.k_pins
  note step = looks [THEN clean_keeps, THEN valid_bind]
  have e: "\<And>w. clean s0 n w \<Longrightarrow> safe s0 n w" by (rule clean_safe)
  show ?thesis
    unfolding pull_and_verify_images_def
    by (intro step valid_bind [OF put_after_clean] valid_option valid_if clean_done stop_pull [OF assms e])
qed

text \<open>Nothing to recreate: then no rewrite was applied, and the file is the original.\<close>

lemma unchanged_original: "clean s0 n w \<Longrightarrow> \<not> images_changed p w \<Longrightarrow> original s0 n (w_fs w)"
  by (auto simp: clean_def safe_def images_changed_def)

definition settled_clean :: "world \<Rightarrow> compose_stack \<Rightarrow> world \<Rightarrow> bool" where
  "settled_clean s0 n w = (clean s0 n w \<and> original s0 n (w_fs w))"

interpretation settled_clean: planned_commander c "settled_clean s0 n" "\<lambda>_. True" p for c s0 n p
  by unfold_locales
    (auto simp: settled_clean_def intro: clean_issue clean_same_effects, auto simp: issue_def same_effects_def)

lemma finish_pull_step: "valid c (clean s0 n) (finish_pull_phase p) (stepped s0 n) (safe s0 n)"
proof -
  have e: "settled_clean s0 n w \<Longrightarrow> safe s0 n w" for w by (simp add: settled_clean_def clean_safe)
  have rest: "valid c (settled_clean s0 n)
      (io_bind (find_unfinished_update p) (\<lambda>r. case r of Inl s \<Rightarrow> io_ret (Some s)
        | Inr unfinished \<Rightarrow> if unfinished then io_ret None else already_current p)) (stepped s0 n) (safe s0 n)"
    unfolding already_current_def
    by (rule valid_weaken [where P = "settled_clean s0 n" and Q = "\<lambda>_. settled_clean s0 n" and E = "settled_clean s0 n"])
      (intro settled_clean.k_bind settled_clean.k_unfinished settled_clean.k_sum settled_clean.k_if
         settled_clean.k_ret settled_clean.k_progress,
       auto simp: stepped_def settled_clean_def clean_safe split: option.splits)
  show ?thesis
    unfolding finish_pull_phase_def
  proof (rule valid_bind [OF clean_keeps [OF clean.k_remember]], rule valid_bind [OF clean_keeps [OF clean.k_progress]],
      rule valid_bind [OF valid_get [where Q = "\<lambda>x w. clean s0 n w \<and> x = images_changed p w"]], simp)
    fix needed
    show "valid c (\<lambda>w. clean s0 n w \<and> needed = images_changed p w)
      (if needed then io_ret None else io_bind (find_unfinished_update p) (\<lambda>r. case r of Inl s \<Rightarrow> io_ret (Some s)
        | Inr unfinished \<Rightarrow> if unfinished then io_ret None else already_current p)) (stepped s0 n) (safe s0 n)"
      by (rule valid_if, rule valid_ret, simp add: stepped_def, rule valid_pre [OF rest])
        (auto simp: settled_clean_def intro: unchanged_original)
  qed
qed

section \<open>Recreating and the health gate\<close>

definition kept :: "world \<Rightarrow> compose_stack \<Rightarrow> world \<Rightarrow> bool" where
  "kept s0 n w =
     (file_kept s0 n (w_fs w) \<and> fs_ok (w_fs w) \<and> (\<forall>b. w_backup w = Some b \<longrightarrow> backup_of s0 n (w_fs w) b))"

text \<open>
  How an update ends: with the original file or with commands that show \<open>H\<close>, which will be that
  the health gate was passed, or with a failure and safe.
\<close>

definition settled :: "(cmd list \<Rightarrow> bool) \<Rightarrow> world \<Rightarrow> compose_stack \<Rightarrow> stack_status \<Rightarrow> world \<Rightarrow> bool" where
  "settled H s0 n s w =
     (if fails s then safe s0 n w else kept s0 n w \<and> (original s0 n (w_fs w) \<or> H (w_cmds w)))"

lemma safe_kept: "safe s0 n w \<Longrightarrow> kept s0 n w"
  by (simp add: safe_def kept_def)

lemma settling:
  "keeps c (safe s0 n) m \<Longrightarrow> yields c m fails \<Longrightarrow> valid c (safe s0 n) m (settled H s0 n) (safe s0 n)"
  by (drule (1) valid_yields, erule valid_weaken) (simp_all add: settled_def)

definition inl_fails :: "stack_status + 'b \<Rightarrow> bool" where
  "inl_fails r = (\<forall>s. r = Inl s \<longrightarrow> fails s)"

lemma inl_fails_simps [simp]: "inl_fails (Inl s) = fails s" "inl_fails (Inr x)"
  by (simp_all add: inl_fails_def)

lemma unpause_safe: "named p n \<Longrightarrow> keeps c (safe s0 n) (unpause_after_recreate p up)"
  unfolding unpause_after_recreate_def rewrite_to_undo_def
  by (intro safe.k_opt safe.k_catch_cmd safe.k_act safe_acts) simp_all

lemma undo_fails:
  assumes "yields c m inl_fails"
  shows "yields c (io_bind rewrite_to_undo (\<lambda>undo. if undo
    then io_bind (handle_compose_rewrite_failure p re ph e h ms) (\<lambda>s. io_ret (Inl s)) else m)) inl_fails"
  by (rule yields_then, rule yields_if [OF yields_bind [OF rewrite_failure_fails] assms], rule yields_ret) simp

lemma unpause_fails: "yields c (unpause_after_recreate p up) inl_fails"
  unfolding unpause_after_recreate_def
  by (rule yields_then, rule yields_if, rule yields_ret, simp, rule yields_catch_cmd, rule yields_then,
      rule yields_ret, simp, rule undo_fails, intro yields_then yields_ret, simp)

lemma up_failure_safe: "named p n \<Longrightarrow> keeps c (safe s0 n) (handle_compose_up_failure p stop up b1 b2)"
  unfolding handle_compose_up_failure_def rewrite_to_undo_def
  by (intro safe.k_only_if safe.k_down_failed safe.k_restart unpause_safe safe_acts)

lemma up_failure_fails: "yields c (handle_compose_up_failure p stop up b1 b2) fails"
proof -
  have unp: "yields c (if b1 then unpause_after_recreate p up else io_ret (Inr up)) inl_fails"
    by (rule yields_if [OF unpause_fails yields_ret]) simp
  show ?thesis
    unfolding handle_compose_up_failure_def
    by (rule yields_bind [OF unp], rule yields_sum, rule yields_ret, simp, rule yields_then,
        intro yields_if rewrite_failure_fails yields_then yields_ret) simp
qed

lemmas up_failure_settles = settling [OF up_failure_safe up_failure_fails]
lemmas rewrite_failure_settles = settling [OF rewrite_failure_safe rewrite_failure_fails]

text \<open>Past the health gate only reports follow.\<close>

definition verified :: "(cmd list \<Rightarrow> bool) \<Rightarrow> world \<Rightarrow> compose_stack \<Rightarrow> world \<Rightarrow> bool" where
  "verified H s0 n w = (kept s0 n w \<and> H (w_cmds w))"

lemma mark_verified:
  "valid c (\<lambda>w. safe s0 n w \<and> H (w_cmds w)) (put (\<lambda>w. w\<lparr>w_health_verified := True\<rparr>)) (\<lambda>_. verified H s0 n) E"
  by (rule valid_put) (simp add: verified_def kept_def safe_def)

lemma verified_put:
  "(\<And>w. same_effects w (g w)) \<Longrightarrow> valid c (verified H s0 n) (put g) (\<lambda>_. verified H s0 n) E"
  by (rule valid_put) (simp add: verified_def kept_def same_effects_def)

lemma verified_remember: "valid c (verified H s0 n) (remember_applied_digest_changes p) (\<lambda>_. verified H s0 n) E"
  unfolding remember_applied_digest_changes_def remember_applied_digest_pins_def remember_applied_digest_unpins_def
  by (intro valid_bind [where R = "\<lambda>_. verified H s0 n"] valid_only_if verified_put) (simp_all add: same_effects_def)

lemma verified_success: "valid c (verified H s0 n) (io_ret (success r)) (settled H s0 n) E"
  by (rule valid_ret) (simp add: verified_def settled_def fails_def)

lemma finish_verified_settles:
  "valid c (\<lambda>w. safe s0 n w \<and> H (w_cmds w)) (finish_verified p) (settled H s0 n) (safe s0 n)"
  unfolding finish_verified_def
  by (rule valid_bind [OF mark_verified], rule valid_bind [OF verified_remember], rule verified_success)

lemma settle_failure: "valid c (safe s0 n) (io_ret (failure r)) (settled H s0 n) E"
  by (rule valid_ret) (simp add: settled_def)

lemma safe_then:
  "keeps c (safe s0 n) m \<Longrightarrow> (\<And>x. valid c (safe s0 n) (f x) Q (safe s0 n)) \<Longrightarrow>
   valid c (safe s0 n) (io_bind m f) Q (safe s0 n)"
  by (rule valid_bind)

lemmas settling_steps = safe_then settle_failure safe.k_if
  safe.k_progress safe.k_only_if safe.k_wait_for_health safe.k_ret safe.k_capture safe.k_get safe.k_down_failed
  safe.k_record_failure

abbreviation gate_of :: "ctx \<Rightarrow> world \<Rightarrow> plan \<Rightarrow> cmd list \<Rightarrow> bool" where
  "gate_of c s0 p \<equiv> gate c (length (w_cmds s0)) (p_running p)"

text \<open>After the services came up; \<open>h\<close> says that Compose waited for them.\<close>

definition ready :: "ctx \<Rightarrow> world \<Rightarrow> compose_stack \<Rightarrow> plan \<Rightarrow> bool \<Rightarrow> world \<Rightarrow> bool" where
  "ready c s0 n p h w = (safe s0 n w \<and> upped c (length (w_cmds s0)) (p_running p) h (w_cmds w))"

interpretation ready: planned_commander c "ready c' s0 n q h" "\<lambda>_. True" p for c c' s0 n q h p
  by unfold_locales
    (auto simp: ready_def intro: safe_issue safe_same_effects, auto simp: issue_def same_effects_def intro: upped_append)

lemma ready_safe: "ready c s0 n p h w \<Longrightarrow> safe s0 n w" by (simp add: ready_def)

lemma ready_keeps: "keeps c (ready c s0 n p h) m \<Longrightarrow> valid c (ready c s0 n p h) m (\<lambda>_. ready c s0 n p h) (safe s0 n)"
  by (erule valid_weaken) (auto intro: ready_safe)

lemma valid_both:
  assumes "valid c P m Q E" and "valid c P m Q' (\<lambda>_. True)"
  shows "valid c P m (\<lambda>x w. Q x w \<and> Q' x w) E"
proof (rule validI)
  fix w assume "P w"
  then have "holds m c w (ends Q E)" "holds m c w (ends Q' (\<lambda>_. True))" using assms by (simp_all add: valid_def)
  from holds_conj [OF this] show "holds m c w (ends (\<lambda>x w. Q x w \<and> Q' x w) E)"
    by (rule holds_mono) (auto simp: ends_def split: sum.splits)
qed

lemma ready_later: "ready c s0 n p h w \<Longrightarrow> ready c s0 n p False w"
  by (auto simp: ready_def intro: upped_later)

lemma finish_health_settles:
  assumes n: "named p n"
  shows "valid c (ready c s0 n p (ur_wait_handled up)) (finish_health_after_recreate p stop up)
    (settled (gate_of c s0 p) s0 n) (safe s0 n)"
proof (cases "p_running p = []")
  case True
  have prog: "valid c (ready c s0 n p h) (progress a b ss) (\<lambda>_ w. safe s0 n w \<and> gate_of c s0 p (w_cmds w)) (safe s0 n)"
    for a b ss h
    by (rule valid_post [OF ready_keeps [OF ready.k_progress]]) (simp add: ready_def gate_def True)
  show ?thesis
    unfolding finish_health_after_recreate_def if_P [OF True] by (rule valid_bind [OF prog finish_verified_settles])
next
  case False
  let ?tried = "\<lambda>healthy w. safe s0 n w \<and> (healthy \<longrightarrow> gate_of c s0 p (w_cmds w))"
  have passed: "valid c (?tried True) (io_bind (put (\<lambda>w. w\<lparr>w_health_verified := True\<rparr>)) (\<lambda>_.
      io_bind (put (\<lambda>w. w\<lparr>w_runtime_after :=
         AList.update (cs_index (p_stack p)) (p_running p, p_stopped p) (w_runtime_after w)\<rparr>)) (\<lambda>_.
      io_bind (remember_applied_digest_changes p) (\<lambda>_. io_ret (success ''updated'')))))
      (settled (gate_of c s0 p) s0 n) (safe s0 n)"
    by (rule valid_bind [where R = "\<lambda>_. verified (gate_of c s0 p) s0 n"], rule valid_pre [OF mark_verified], simp,
        rule valid_bind [OF verified_put], simp add: same_effects_def,
        rule valid_bind [OF verified_remember], rule verified_success)
  have waited: "valid c (ready c s0 n p h)
      (if h then io_ret True else wait_for_health (Some (p_running p))) ?tried (safe s0 n)" for h
  proof (cases h)
    case True
    then show ?thesis by (auto intro!: valid_ret simp: ready_def intro: upped_waits)
  next
    case h: False
    have "valid c (ready c s0 n p h) (wait_for_health (Some (p_running p))) (\<lambda>_. safe s0 n) (safe s0 n)"
      by (rule valid_pre [OF safe.k_wait_for_health]) (rule ready_safe)
    moreover have "valid c (ready c s0 n p h) (wait_for_health (Some (p_running p)))
        (\<lambda>ok w. ok \<longrightarrow> gate_of c s0 p (w_cmds w)) (\<lambda>_. True)"
      by (rule valid_pre [OF wait_gate [OF False]]) (use False in \<open>auto simp: ready_def upped_def\<close>)
    ultimately show ?thesis using h by (simp add: valid_both)
  qed
  have below: "valid c (?tried healthy) m Q E" if "valid c (safe s0 n) m Q E" for m :: "stack_status act" and healthy Q E
    using that by (rule valid_pre) simp
  have undone: "valid c (?tried healthy) rewrite_to_undo (\<lambda>_. ?tried healthy) (safe s0 n)" for healthy
    unfolding rewrite_to_undo_def by (rule valid_get)
  have rest: "valid c (?tried healthy) (if healthy
          then (if sr_failed stop
                then (if undo
                      then handle_compose_rewrite_failure p ''down-failed'' ''stop'' (sr_error stop) None None
                      else io_bind (record_down_failed p stop
                             ''Compose up recovery succeeded, but the earlier stop command failed.'') (\<lambda>_.
                           io_bind (progress ''recreate'' ''failure'' (p_services p)) (\<lambda>_.
                             io_ret (failure ''down-failed''))))
                else io_bind (put (\<lambda>w. w\<lparr>w_health_verified := True\<rparr>)) (\<lambda>_.
                     io_bind (put (\<lambda>w. w\<lparr>w_runtime_after :=
                         AList.update (cs_index (p_stack p)) (p_running p, p_stopped p) (w_runtime_after w)\<rparr>)) (\<lambda>_.
                     io_bind (remember_applied_digest_changes p) (\<lambda>_.
                       io_ret (success ''updated'')))))
          else
            io_bind (capture_health_details (Some (p_running p)) True) (\<lambda>health.
              if undo
              then handle_compose_rewrite_failure p ''health-failed'' ''health'' None (Some health) None
              else io_bind (record_failure (p_stack p) (p_matches p) ''health'' ''health-failed'' (p_services p)
                     None health '''') (\<lambda>_.
                   io_bind (progress ''health'' ''failure'' (p_services p)) (\<lambda>_.
                     io_ret (failure ''health-failed'')))))
      (settled (gate_of c s0 p) s0 n) (safe s0 n)" for healthy undo
  proof (rule valid_if, goal_cases)
    case 1
    then show ?case
      by (intro valid_if) (rule below, intro rewrite_failure_settles [OF n] settling_steps,
        rule below, intro settling_steps, use passed 1 in simp)
  next
    case 2
    show ?case by (rule below) (intro valid_if rewrite_failure_settles [OF n] settling_steps)
  qed
  show ?thesis
    unfolding finish_health_after_recreate_def if_not_P [OF False]
    by (rule valid_bind [OF ready_keeps [OF ready.k_only_if [OF ready.k_progress]]], rule valid_bind [OF waited],
        rule valid_bind [OF undone], rule rest)
qed

text \<open>After \<open>unpause\<close> the services have to be waited for.\<close>

lemma unpause_ready:
  assumes n: "named p n"
  shows "valid c (ready c s0 n p (ur_wait_handled up)) (unpause_after_recreate p up)
    (\<lambda>r w. case r of Inl s \<Rightarrow> safe s0 n w \<and> fails s | Inr up \<Rightarrow> ready c s0 n p (ur_wait_handled up) w) (safe s0 n)"
proof -
  let ?Q = "\<lambda>r w. case r of Inl s \<Rightarrow> safe s0 n w \<and> fails s | Inr up \<Rightarrow> ready c s0 n p (ur_wait_handled up) w"
  let ?h = "ur_wait_handled up"
  have run: "valid c (ready c s0 n p ?h) (io_bind (run_cmd (Unpause (p_running p)))
      (\<lambda>_. io_ret (Inr (up\<lparr>ur_wait_handled := False\<rparr>)))) ?Q (safe s0 n)"
    by (rule valid_bind [OF ready_keeps [OF ready.k_act]], simp, rule valid_ret) (simp add: ready_later)
  have stop: "valid c (safe s0 n) (io_bind rewrite_to_undo (\<lambda>undo.
            if undo
            then io_bind (handle_compose_rewrite_failure p ''unpause-failed'' ''unpause'' (Some e) None None)
                   (\<lambda>s. io_ret (Inl s))
            else io_bind (capture_health_details (p_services p) False) (\<lambda>health.
                 io_bind (record_failure (p_stack p) (p_matches p) ''unpause'' ''unpause-failed'' (p_services p)
                   (Some e) health '''') (\<lambda>_. io_ret (Inl (failure ''unpause-failed'')))))) ?Q (safe s0 n)" for e
    unfolding rewrite_to_undo_def
    by (rule valid_bind [OF safe.k_get], rule valid_if,
        rule valid_bind [OF valid_yields [OF rewrite_failure_safe [OF n] rewrite_failure_fails]], rule valid_ret, simp,
        rule valid_bind [OF safe.k_capture], rule valid_bind [OF safe.k_record_failure], rule valid_ret, simp)
  show ?thesis
    unfolding unpause_after_recreate_def
    by (rule valid_bind [OF valid_opt [where Q = "\<lambda>_. ready c s0 n p ?h"]], assumption, rule valid_if,
        rule valid_ret, simp, rule valid_catch_cmd [OF run stop], assumption)
qed

lemma after_recreate_settles:
  assumes n: "named p n"
  shows "valid c (ready c s0 n p (ur_wait_handled up)) (after_recreate p stop up)
    (settled (gate_of c s0 p) s0 n) (safe s0 n)"
proof -
  let ?h = "ur_wait_handled up"
  have stopped: "valid c (ready c s0 n p ?h) (if p_stopped p \<noteq> [] then verify_services_stopped (p_stopped p)
      else io_ret (up_ok False)) (\<lambda>_. ready c s0 n p ?h) (safe s0 n)"
    by (rule ready_keeps) (intro ready.k_if ready.k_verify_stopped ready.k_ret, simp_all)
  have un: "valid c (ready c s0 n p ?h) (io_bind (unpause_after_recreate p up) (\<lambda>r. case r of Inl s \<Rightarrow> io_ret s
      | Inr up \<Rightarrow> finish_health_after_recreate p stop up)) (settled (gate_of c s0 p) s0 n) (safe s0 n)"
    by (rule valid_bind [OF unpause_ready [OF n]])
      (auto intro!: valid_sum valid_ret finish_health_settles [OF n] simp: settled_def)
  show ?thesis
    unfolding after_recreate_def
    by (rule valid_bind [OF stopped], rule valid_if, rule valid_pre [OF up_failure_settles [OF n]], erule ready_safe,
        rule valid_bind [OF ready_keeps [OF ready.k_progress]], rule un)
qed

lemma recreate_running_settles:
  assumes n: "named p n"
  shows "valid c (safe s0 n) (recreate_running p) (settled (gate_of c s0 p) s0 n) (safe s0 n)"
proof -
  have up: "valid c (safe s0 n) (if p_running p \<noteq> []
        then run_compose_up (p_stack p) (p_running p) (sc_force_recreate (p_scope p))
               (sc_up_no_deps (p_scope p) \<or> p_stopped p \<noteq> [])
        else io_ret (up_ok False))
      (\<lambda>up w. safe s0 n w \<and> (ur_ok up \<longrightarrow> ready c s0 n p (ur_wait_handled up) w)) (safe s0 n)"
  proof (rule valid_if)
    let ?up = "run_compose_up (p_stack p) (p_running p) (sc_force_recreate (p_scope p))
       (sc_up_no_deps (p_scope p) \<or> p_stopped p \<noteq> [])"
    have "valid c (safe s0 n) ?up (\<lambda>_. safe s0 n) (safe s0 n)" by (rule safe.k_up) simp
    moreover have "valid c (safe s0 n) ?up (\<lambda>up w. ur_ok up \<longrightarrow>
        upped c (length (w_cmds s0)) (p_running p) (ur_wait_handled up) (w_cmds w)) (\<lambda>_. True)"
      by (rule valid_pre [OF up_brings]) (simp add: safe_def)
    ultimately have "valid c (safe s0 n) ?up (\<lambda>up w. safe s0 n w \<and> (ur_ok up \<longrightarrow>
        upped c (length (w_cmds s0)) (p_running p) (ur_wait_handled up) (w_cmds w))) (safe s0 n)"
      by (rule valid_both)
    then show "valid c (safe s0 n) ?up
        (\<lambda>up w. safe s0 n w \<and> (ur_ok up \<longrightarrow> ready c s0 n p (ur_wait_handled up) w)) (safe s0 n)"
      by (rule valid_post) (simp add: ready_def)
  qed (rule valid_ret, simp add: ready_def upped_def)
  show ?thesis
    unfolding recreate_running_def
    by (rule safe_then [OF safe.k_prepare], rule valid_bind [OF up], rule valid_if,
        rule valid_pre [OF up_failure_settles [OF n]], simp, rule valid_pre [OF after_recreate_settles [OF n]], simp)
qed

lemma recreate_settles:
  assumes n: "named p n"
  shows "valid c (safe s0 n) (recreate_and_verify_stack p) (settled (gate_of c s0 p) s0 n) (safe s0 n)"
  unfolding recreate_and_verify_stack_def
  by (intro valid_if up_failure_settles [OF n] recreate_running_settles [OF n] safe_then safe.k_if
      safe.k_up_no_start safe.k_pop safe.k_ret safe.k_progress) simp_all

section \<open>A whole update\<close>

lemma run_steps_settles:
  assumes n: "named p n"
    and "\<And>step. step \<in> set steps \<Longrightarrow> valid c (clean s0 n) (step p) (stepped s0 n) (safe s0 n)"
  shows "valid c (clean s0 n) (run_steps p steps) (settled (gate_of c s0 p) s0 n) (safe s0 n)"
  using assms(2)
proof (induction steps)
  case Nil
  show ?case unfolding run_steps.simps by (rule valid_pre [OF recreate_settles [OF n] clean_safe])
next
  case (Cons step steps)
  have "valid c (clean s0 n) (step p) (stepped s0 n) (safe s0 n)" using Cons.prems by simp
  then show ?case
    unfolding run_steps.simps
  proof (rule valid_bind)
    fix st
    show "valid c (stepped s0 n st) (case st of Some s \<Rightarrow> io_ret s | None \<Rightarrow> run_steps p steps)
      (settled (gate_of c s0 p) s0 n) (safe s0 n)"
    proof (cases st)
      case None
      then show ?thesis using Cons by (auto intro: valid_pre simp: stepped_def)
    next
      case (Some s)
      then show ?thesis
        by (auto intro!: valid_ret simp: stepped_def settled_def fails_def safe_kept)
    qed
  qed
qed

lemma steps_settle:
  assumes "named p n"
  shows "valid c (clean s0 n) (run_stack_update_steps p) (settled (gate_of c s0 p) s0 n) (safe s0 n)"
  unfolding run_stack_update_steps_def
  by (rule run_steps_settles [OF assms])
    (auto intro: tags_step unpins_step pull_step pins_step finish_pull_step assms)

text \<open>What is left when the update is over; \<open>ok\<close> says that it ended with success.\<close>

definition left :: "(cmd list \<Rightarrow> bool) \<Rightarrow> world \<Rightarrow> compose_stack \<Rightarrow> bool \<Rightarrow> world \<Rightarrow> bool" where
  "left H s0 n ok w =
     (file_kept s0 n (w_fs w) \<and> fs_ok (w_fs w) \<and>
      (original s0 n (w_fs w) \<or>
       (if ok then H (w_cmds w) else \<exists>b. w_backup w = Some b \<and> backup_of s0 n (w_fs w) b)))"

lemma settled_left: "settled H s0 n s w \<Longrightarrow> left H s0 n (\<not> fails s) w"
  by (auto simp: settled_def left_def safe_def kept_def)

lemma unlink_named:
  "fs_ok s \<Longrightarrow> holds (unlink_quiet (Temp j)) fault s
     (\<lambda>r s'. (\<forall>m. fs_files s' (Named m) = fs_files s (Named m)) \<and> fs_ok s')"
  by (simp add: io_holds unlink_quiet_def unlink_def Let_def fs_ok_def)

text \<open>The backup is removed only where the file is the original or the health gate has passed.\<close>

definition done_with :: "(cmd list \<Rightarrow> bool) \<Rightarrow> world \<Rightarrow> compose_stack \<Rightarrow> path \<Rightarrow> bool \<Rightarrow> world \<Rightarrow> bool" where
  "done_with H s0 n b ok w =
     (file_kept s0 n (w_fs w) \<and> fs_ok (w_fs w) \<and> (\<exists>j. b = Temp j) \<and> (original s0 n (w_fs w) \<or> (ok \<and> H (w_cmds w))))"

lemma drop_backup:
  "valid c (done_with H s0 n b ok)
     (catch_file (io_bind (lift_fs (\<lambda>c. unlink_quiet b)) (\<lambda>_. put (\<lambda>w. w\<lparr>w_backup := None\<rparr>))) (\<lambda>_. io_ret ()))
     (\<lambda>_. left H s0 n ok) (left H s0 n ok)"
proof (rule valid_catch_file)
  have 1: "valid c (done_with H s0 n b ok) (lift_fs (\<lambda>c. unlink_quiet b)) (\<lambda>_. done_with H s0 n b ok)
      (done_with H s0 n b ok)"
  proof (rule valid_lift)
    fix w assume w: "done_with H s0 n b ok w"
    then obtain j where j: "b = Temp j" by (auto simp: done_with_def)
    show "holds (unlink_quiet b) (c_fault c) (w_fs w) (\<lambda>r s. case r of
        Inl e \<Rightarrow> done_with H s0 n b ok (w\<lparr>w_fs := s\<rparr>) | Inr x \<Rightarrow> done_with H s0 n b ok (w\<lparr>w_fs := s\<rparr>))"
      unfolding j
      by (rule holds_mono [OF unlink_named])
        (use w j in \<open>simp add: done_with_def\<close>, use w j in \<open>auto simp: done_with_def file_kept_def original_def split: sum.splits\<close>)
  qed
  show "valid c (done_with H s0 n b ok)
      (io_bind (lift_fs (\<lambda>c. unlink_quiet b)) (\<lambda>_. put (\<lambda>w. w\<lparr>w_backup := None\<rparr>)))
      (\<lambda>_. left H s0 n ok) (done_with H s0 n b ok)"
    by (rule valid_bind [OF 1], rule valid_put) (auto simp: done_with_def left_def)
qed (auto intro: valid_ret simp: done_with_def left_def)

lemma discard_settled:
  "valid c (settled H s0 n s) (discard_compose_backup s) (\<lambda>_. left H s0 n (\<not> fails s)) (left H s0 n (\<not> fails s))"
proof (rule validI)
  fix w assume w: "settled H s0 n s w"
  show "holds (discard_compose_backup s) c w (ends (\<lambda>_. left H s0 n (\<not> fails s)) (left H s0 n (\<not> fails s)))"
  proof (cases "w_backup w")
    case None
    then show ?thesis
      using settled_left [OF w] by (simp add: discard_compose_backup_def holds_bind holds_get holds_ret)
  next
    case (Some b)
    let ?keep = "st_status s \<noteq> ''success'' \<and> fs_written (w_fs w) \<noteq> [] \<and> \<not> w_restored w \<and> \<not> w_health_verified w"
    show ?thesis
    proof (cases ?keep)
      case True
      then show ?thesis
        using settled_left [OF w] Some
        by (simp add: discard_compose_backup_def holds_bind holds_get holds_ret)
    next
      case False
      then have "done_with H s0 n b (\<not> fails s) w"
        using w Some
        by (cases "st_status s = ''success''")
          (auto simp: settled_def done_with_def safe_def kept_def backup_of_def fails_def)
      then have "holds (catch_file (io_bind (lift_fs (\<lambda>c. unlink_quiet b)) (\<lambda>_. put (\<lambda>w. w\<lparr>w_backup := None\<rparr>)))
          (\<lambda>_. io_ret ())) c w (ends (\<lambda>_. left H s0 n (\<not> fails s)) (left H s0 n (\<not> fails s)))"
        using drop_backup by (simp add: valid_def)
      then show ?thesis
        unfolding discard_compose_backup_def holds_bind [of "get f" for f] holds_get if_not_P [OF False]
        using Some False by (auto simp: holds_bind [of "get f" for f] holds_get)
    qed
  qed
qed

text \<open>Removing the backup never raises: what the file system reports is swallowed.\<close>

lemma discard_never_raises: "valid c (\<lambda>_. True) (discard_compose_backup s) (\<lambda>_ _. True) (\<lambda>_. False)"
proof -
  have os: "holds (unlink_quiet b) fault s (\<lambda>r _. \<forall>e. r = Inl e \<longrightarrow> e = OSError ''unlink'')" for b fault s
    by (simp add: io_holds unlink_quiet_def unlink_def Let_def)
  have raised: "holds (lift_fs (\<lambda>c. unlink_quiet b)) c w
      (\<lambda>r _. \<forall>e. r = Inl e \<longrightarrow> e = FileError (OSError ''unlink''))" for b w
    unfolding holds_lift_fs by (rule holds_mono [OF os]) (auto split: sum.splits)
  have "holds (catch_file (io_bind (lift_fs (\<lambda>c. unlink_quiet b)) (\<lambda>_. put (\<lambda>w. w\<lparr>w_backup := None\<rparr>))) (\<lambda>_. io_ret ()))
      c w (ends (\<lambda>_ _. True) (\<lambda>_. False))" for b w
    unfolding catch_file_def holds_catch holds_bind
    by (rule holds_mono [OF raised]) (auto simp: holds_put holds_ret file_error_def split: sum.splits)
  then show ?thesis
    by (auto simp: valid_def discard_compose_backup_def holds_bind holds_get holds_ret split: option.splits)
qed

lemma discard_quiet: "valid c (settled H s0 n s) (discard_compose_backup s) (\<lambda>_. left H s0 n (\<not> fails s)) E"
proof (rule validI)
  fix w assume "settled H s0 n s w"
  then have "holds (discard_compose_backup s) c w (ends (\<lambda>_. left H s0 n (\<not> fails s)) (left H s0 n (\<not> fails s)))"
      "holds (discard_compose_backup s) c w (ends (\<lambda>_ _. True) (\<lambda>_. False))"
    using discard_settled discard_never_raises by (simp_all add: valid_def)
  from holds_conj [OF this] show "holds (discard_compose_backup s) c w (ends (\<lambda>_. left H s0 n (\<not> fails s)) E)"
    by (rule holds_mono) (auto simp: ends_def split: sum.splits)
qed

lemma abort_restores:
  assumes n: "named p n"
  shows "keeps c (safe s0 n) (suppress (restore_compose_after_abort p))"
proof (rule validI)
  fix w assume w: "safe s0 n w"
  have body: "valid c (safe_with s0 n (Some b))
      (catch_file (io_bind (restore_compose p b) (\<lambda>synced. put (\<lambda>w. w\<lparr>w_restored := synced\<rparr>))) (\<lambda>_. io_ret ()))
      (\<lambda>_. safe s0 n) (safe s0 n)" for b
    by (rule valid_catch_file [OF restore_and_mark_safe [OF n] valid_ret]) simp_all
  have "holds (restore_compose_after_abort p) c w (ends (\<lambda>_. safe s0 n) (safe s0 n))"
  proof (cases "w_backup w")
    case (Some b)
    then have "safe_with s0 n (Some b) w" using w by (simp add: safe_with_def)
    then show ?thesis
      using body w Some
      by (cases "fs_written (w_fs w) = [] \<or> w_restored w \<or> w_health_verified w")
        (simp_all add: restore_compose_after_abort_def holds_bind [of "get f" for f] holds_get holds_ret valid_def)
  qed (use w in \<open>simp add: restore_compose_after_abort_def holds_bind holds_get holds_ret\<close>)
  then have "valid c (\<lambda>w'. w' = w) (restore_compose_after_abort p) (\<lambda>_. safe s0 n) (safe s0 n)"
    by (simp add: valid_def)
  then have "valid c (\<lambda>w'. w' = w) (suppress (restore_compose_after_abort p)) (\<lambda>_. safe s0 n) (safe s0 n)"
    unfolding suppress_def by (rule valid_catch) (rule valid_ret)
  then show "holds (suppress (restore_compose_after_abort p)) c w (ends (\<lambda>_. safe s0 n) (safe s0 n))"
    by (simp add: valid_def)
qed

lemma guarded_settles:
  assumes n: "named p n"
  shows "valid c (clean s0 n) (run_guarded p) (settled (gate_of c s0 p) s0 n) (left (gate_of c s0 p) s0 n False)"
  unfolding run_guarded_def
proof (rule valid_catch [OF steps_settle [OF n]])
  have "valid c (settled (gate_of c s0 p) s0 n (failure r)) (suppress (discard_compose_backup (failure r))) (\<lambda>_. left (gate_of c s0 p) s0 n False) E" for r E
    unfolding suppress_def
    by (rule valid_catch [OF discard_settled [of c "gate_of c s0 p" s0 n "failure r", simplified]]) (rule valid_ret)
  then have drop: "valid c (safe s0 n) (suppress (discard_compose_backup (failure r))) (\<lambda>_. left (gate_of c s0 p) s0 n False) E" for r E
    by (rule valid_pre) (simp add: settled_def)
  show "valid c (safe s0 n) (io_bind (suppress (restore_compose_after_abort p)) (\<lambda>_.
      io_bind (suppress (discard_compose_backup (failure ''unexpected-error''))) (\<lambda>_. io_raise e)))
      (settled (gate_of c s0 p) s0 n) (left (gate_of c s0 p) s0 n False)" for e
    by (rule valid_bind [OF valid_weaken [OF abort_restores [OF n]]], assumption, assumption,
        erule settled_left [of "gate_of c s0 p" s0 n "failure ''x''", unfolded settled_def, simplified],
        rule valid_bind [OF drop], rule valid_raise)
qed

text \<open>Building the state leaves the files alone, and starts from a clean slate.\<close>

definition untouched :: "world \<Rightarrow> world \<Rightarrow> bool" where
  "untouched s0 w =
     (fs_files (w_fs w) = fs_files (w_fs s0) \<and> fs_ok (w_fs w) \<and> length (w_cmds s0) \<le> length (w_cmds w))"

interpretation untouched: observer c "untouched s0" for c s0
  by unfold_locales (auto simp: untouched_def issue_def same_effects_def)

definition begun :: "world \<Rightarrow> compose_stack \<Rightarrow> (stack_status + plan) \<Rightarrow> world \<Rightarrow> bool" where
  "begun s0 n r w = (untouched s0 w \<and> (\<forall>p. r = Inr p \<longrightarrow> clean s0 n w \<and> named p n))"

lemma begun_Inl: "valid c (untouched s0) (io_ret (Inl s)) (begun s0 n) E"
  by (rule valid_ret) (simp add: begun_def)

lemma reset_clean:
  assumes "fs_files (w_fs s0) (Named (compose_name n)) \<noteq> None" and "untouched s0 w"
  shows "clean s0 n (reset_update_state stack before w)" "untouched s0 (reset_update_state stack before w)"
  using assms
  by (auto simp: clean_def safe_def untouched_def reset_update_state_def file_kept_def original_def fs_ok_def)

lemma build_begins:
  assumes "stack = n" and "fs_files (w_fs s0) (Named (compose_name n)) \<noteq> None"
  shows "valid c (untouched s0) (build_stack_update_state stack matches) (begun s0 n) (untouched s0)"
proof -
  let ?both = "\<lambda>_ w. clean s0 n w \<and> untouched s0 w"
  have reset: "valid c (untouched s0) (put (reset_update_state stack before)) ?both E" for before E
    by (rule valid_put) (simp add: reset_clean [OF assms(2)])
  have begin_: "valid c (?both x) (io_ret (Inr p)) (begun s0 n) E" if "p_stack p = stack" for p x E
    by (rule valid_ret) (use that assms(1) in \<open>simp add: begun_def named_def\<close>)
  have fail: "valid c (untouched s0) (io_bind m (\<lambda>_. io_ret (Inl s))) (begun s0 n) (untouched s0)"
    if "keeps c (untouched s0) m" for m :: "unit act" and s
    by (rule valid_bind [OF that begun_Inl])
  have fin: "valid c (untouched s0) (finish_state stack matches scope rt before) (begun s0 n) (untouched s0)"
    for scope rt before
    unfolding finish_state_def Let_def
    by (rule valid_bind [OF untouched.k_ask], rule valid_prod, rule valid_prod)
      (intro valid_if fail valid_sum untouched.k_record_failure valid_bind [OF reset] begin_, simp)
  show ?thesis
    unfolding build_stack_update_state_def scope_unverified_def
    by (rule valid_bind [OF untouched.k_ask], rule valid_if,
        rule valid_bind [OF untouched.k_record_failure], rule fail, rule untouched.k_progress,
        rule valid_bind [OF untouched.k_scope], rule valid_bind [OF untouched.k_runtime],
        rule valid_sum, rule begun_Inl, rule valid_bind [OF untouched.k_images(2)], rule fin)
qed

text \<open>The plan the update follows, and that it passed the health gate for the services that ran then.\<close>

definition passed_gate :: "ctx \<Rightarrow> compose_stack \<Rightarrow> match_t list \<Rightarrow> world \<Rightarrow> cmd list \<Rightarrow> bool" where
  "passed_gate c stack matches s0 ks =
     (\<exists>p w1. build_stack_update_state stack matches c s0 = (Inr (Inr p), w1) \<and>
        gate c (length (w_cmds s0)) (p_running p) ks)"

lemma left_mono: "left H s0 n ok w \<Longrightarrow> (\<And>ks. H ks \<Longrightarrow> H' ks) \<Longrightarrow> left H' s0 n ok w"
  by (auto simp: left_def)

lemma update_leaves:
  assumes present: "fs_files (w_fs s0) (Named (compose_name n)) \<noteq> None" and ok: "fs_ok (w_fs s0)"
    and run: "update_stack n matches c s0 = (r, w')"
  shows "left (passed_gate c n matches s0) s0 n (case r of Inr s \<Rightarrow> \<not> fails s | Inl e \<Rightarrow> False) w'"
proof -
  have u: "untouched s0 w \<Longrightarrow> left H s0 n ok w" for w ok H
    using present by (auto simp: untouched_def left_def file_kept_def original_def)
  have s0: "untouched s0 s0" using ok by (simp add: untouched_def)
  obtain b w1 where b: "build_stack_update_state n matches c s0 = (b, w1)"
    by (cases "build_stack_update_state n matches c s0")
  have built: "ends (begun s0 n) (untouched s0) b w1"
    by (rule valid_run [OF build_begins [OF refl present] s0 b])
  show ?thesis
  proof (cases b)
    case (Inl e)
    then have "r = Inl e \<and> w' = w1" using run b by (simp add: update_stack_def io_bind_def)
    then show ?thesis using built Inl u by simp
  next
    case (Inr x)
    show ?thesis
    proof (cases x)
      case (Inl s)
      then have "r = Inr s \<and> w' = w1" using run b Inr by (simp add: update_stack_def io_bind_def io_ret_def)
      then show ?thesis using built Inl Inr u by (auto simp: begun_def)
    next
      case p: (Inr p)
      have start: "named p n" "clean s0 n w1" using built Inr p by (auto simp: begun_def)
      have "valid c (clean s0 n) (io_bind (run_guarded p) (\<lambda>s. io_bind (discard_compose_backup s) (\<lambda>_. io_ret s)))
          (\<lambda>s. left (gate_of c s0 p) s0 n (\<not> fails s)) (left (gate_of c s0 p) s0 n False)"
        by (rule valid_bind [OF guarded_settles [OF start(1)]], rule valid_bind [OF discard_quiet]) (rule valid_ret)
      from valid_run [OF this start(2)]
      have "ends (\<lambda>s. left (gate_of c s0 p) s0 n (\<not> fails s)) (left (gate_of c s0 p) s0 n False) r w'"
        using run b Inr p by (simp add: update_stack_def io_bind_def)
      then have "left (gate_of c s0 p) s0 n (case r of Inr s \<Rightarrow> \<not> fails s | Inl e \<Rightarrow> False) w'"
        by (cases r) simp_all
      then show ?thesis by (rule left_mono) (use b Inr p in \<open>auto simp: passed_gate_def\<close>)
    qed
  qed
qed

section \<open>The Compose file survives\<close>

text \<open>C1: Whatever fails on the way (a file operation, a command, a check or an interruption), an update
  leaves the Compose file with its owner and mode; no other file that existed has changed or gone, and
  the only new names are incident logs in the stack's directory (\<open>error-<tag>-<time>.logs\<close>). Unless the
  update ended with success the content of the Compose file is the one it had, or the backup with
  that content is still on disk and known. After a success with a changed file the services that ran
  when the update was planned (if there were any) were brought up by it, and either \<open>docker compose up
  --wait\<close> succeeded or afterwards each of them was seen with containers that were all inspected and
  healthy (or running, where there is no health check). (The run's own log is left out of the model.)\<close>

theorem update_stack_file_safety:
  assumes "fs_ok (w_fs w)" and "fs_files (w_fs w) (Named (compose_name stack)) = Some f"
    and "update_stack stack matches c w = (r, w')"
  shows "(\<forall>k. k \<noteq> compose_name stack \<longrightarrow>
       fs_files (w_fs w') (Named k) = fs_files (w_fs w) (Named k) \<or>
       (fs_files (w_fs w) (Named k) = None \<and> incident_log stack k)) \<and>
    (\<exists>g. fs_files (w_fs w') (Named (compose_name stack)) = Some g \<and> f_meta g = f_meta f \<and>
       (g = f \<or>
        (case r of
           Inr s \<Rightarrow> st_status s = ''success'' \<and> passed_gate c stack matches w (w_cmds w')
         | Inl e \<Rightarrow> False) \<or>
        (\<exists>b h. w_backup w' = Some b \<and> fs_files (w_fs w') b = Some h \<and> f_text h = f_text f)))"
proof -
  have "left (passed_gate c stack matches w) w stack (case r of Inr s \<Rightarrow> \<not> fails s | Inl e \<Rightarrow> False) w'"
    using update_leaves [OF _ assms(1,3)] assms(2) by simp
  then show ?thesis
    using assms(2) unfolding left_def file_kept_def original_def backup_of_def fails_def
    by (cases r) (auto split: if_splits)
qed

text \<open>On the demonstration stack.\<close>

theorem update_stack_file_safety_witness:
  "\<exists>g. fs_files (w_fs (snd (update_stack demo_stack [demo_match] demo_ctx demo_world))) (Named ''/s/c.yml'') = Some g \<and>
     fm_mode (f_meta g) = 420"
proof -
  let ?run = "update_stack demo_stack [demo_match] demo_ctx demo_world"
  have 1: "fs_ok (w_fs demo_world)" by (simp add: demo_world_def fs_ok_def)
  have n: "compose_name demo_stack = ''/s/c.yml''" by code_simp
  have 2: "fs_files (w_fs demo_world) (Named (compose_name demo_stack)) = Some demo_file"
    by (simp add: n demo_world_def)
  have 3: "?run = (fst ?run, snd ?run)" by simp
  from update_stack_file_safety [OF 1 2 3] show ?thesis by (auto simp: n demo_file_def)
qed

text \<open>What a caller of several updates keeps: fresh temporary names, the file, and every file there was.\<close>

lemma update_stack_leaves:
  assumes "fs_ok (w_fs w)" and "fs_files (w_fs w) (Named (compose_name stack)) \<noteq> None"
    and "update_stack stack matches c w = (r, w')"
  shows "fs_ok (w_fs w') \<and> fs_files (w_fs w') (Named (compose_name stack)) \<noteq> None \<and>
    (\<forall>k. k \<noteq> compose_name stack \<longrightarrow> fs_files (w_fs w) (Named k) \<noteq> None \<longrightarrow>
       fs_files (w_fs w') (Named k) = fs_files (w_fs w) (Named k))"
  using update_leaves [OF assms(2,1,3)] by (auto simp: left_def file_kept_def)

end
