(* ===== verification/Compose_Source.thy ===== *)
theory Compose_Source
  imports Compose_Labels
begin

text \<open>
  \<open>src/src/wudup/compose_source.py\<close>: edits of a Compose file that keep every other character.
  The YAML tree is what \<open>ruamel.yaml\<close> (a library) returns for the text, as a value: scalars,
  the positions it notes for keys and values, whether a key is the mapping's own or merged in,
  its anchors, and a number per node so that two aliases of one node are the same node. A
  position is a pair of naturals, \<open>None\<close> where the library has none (then the code's \<open>try\<close>
  around it raises). \<open>ComposeTagRewriteError\<close> is \<open>Rewrite\<close>; \<open>IndexError\<close> is its own error.
\<close>

section \<open>The tree and the errors\<close>

datatype edit_error = Rewrite string | IndexError

type_synonym 'a edit = "edit_error + 'a"

definition edit_bind :: "'a edit \<Rightarrow> ('a \<Rightarrow> 'b edit) \<Rightarrow> 'b edit" where
  "edit_bind m f = (case m of Inl e \<Rightarrow> Inl e | Inr x \<Rightarrow> f x)"

definition rewrite_if :: "bool \<Rightarrow> string \<Rightarrow> unit edit" where
  "rewrite_if b msg = (if b then Inl (Rewrite msg) else Inr ())"

definition needs :: "string \<Rightarrow> 'a option \<Rightarrow> 'a edit" where
  "needs msg v = (case v of None \<Rightarrow> Inl (Rewrite msg) | Some x \<Rightarrow> Inr x)"

type_synonym position = "nat \<times> nat"

datatype scalar = NoValue | Text string | OtherValue string

record map_entry =
  me_key :: string
  me_value :: scalar
  me_direct :: bool
  me_key_at :: "position option"
  me_value_at :: "position option"

record label_map =
  lm_id :: nat
  lm_anchored :: bool
  lm_at :: "position option"
  lm_entries :: "map_entry list"

record label_seq =
  ls_id :: nat
  ls_anchored :: bool
  ls_at :: "position option"
  ls_items :: "(scalar \<times> position option) list"

datatype labels = NoLabels | LabelMap label_map | LabelSeq label_seq | OtherLabels nat bool

text \<open>
  \<open>yc_image_node\<close> is \<open>None\<close> for a plain Python string (a plain scalar without an anchor) and the
  node and its anchor for a scalar object of the library. \<open>yc_comments\<close> are the comment tokens around
  the service that \<open>_service_comment_token_lists\<close> collects; \<open>OtherValue\<close> carries the value's \<open>str\<close>.
\<close>

record service_config =
  yc_id :: nat
  yc_anchored :: bool
  yc_image :: scalar
  yc_image_node :: "(nat \<times> bool) option"
  yc_image_direct :: bool
  yc_image_key_at :: "position option"
  yc_image_value_at :: "position option"
  yc_labels :: labels
  yc_labels_direct :: bool
  yc_labels_key_at :: "position option"
  yc_comments :: "string list"

text \<open>\<open>services\<close>: \<open>None\<close> for an entry that is not a mapping.\<close>

type_synonym yaml_services = "(string \<times> service_config option) list"

definition service_of :: "yaml_services \<Rightarrow> string \<Rightarrow> service_config option" where
  "service_of services s = (case map_of services s of None \<Rightarrow> None | Some c \<Rightarrow> c)"

definition other_configs :: "yaml_services \<Rightarrow> string \<Rightarrow> service_config list" where
  "other_configs services s =
     concat (map (\<lambda>(k, c). if k = s then [] else case c of None \<Rightarrow> [] | Some c \<Rightarrow> [c]) services)"

section \<open>Lines\<close>

definition newline :: char where "newline = CHR 0x0A"
definition cr :: char where "cr = CHR 0x0D"
definition tab :: char where "tab = CHR 0x09"

definition blank :: "char \<Rightarrow> bool" where "blank c = (c = CHR '' '' \<or> c = tab)"

fun newline_ends :: "nat \<Rightarrow> string \<Rightarrow> nat list" where
  "newline_ends i [] = []"
| "newline_ends i (c # cs) = (if c = newline then Suc i # newline_ends (Suc i) cs else newline_ends (Suc i) cs)"

definition line_start_offsets :: "string \<Rightarrow> nat list" where
  "line_start_offsets source = 0 # newline_ends 0 source"

text \<open>\<open>_source_line\<close>: start, end and the body without a carriage return.\<close>

definition source_line :: "string \<Rightarrow> nat list \<Rightarrow> nat \<Rightarrow> (nat \<times> nat \<times> string) edit" where
  "source_line source offsets line_no =
     (if line_no < length offsets
      then let start = offsets ! line_no;
               line = takeWhile (\<lambda>c. c \<noteq> newline) (drop start source);
               body = (if line \<noteq> [] \<and> last line = cr then butlast line else line)
           in Inr (start, start + length line, body)
      else Inl IndexError)"

definition line_indent_width :: "string \<Rightarrow> nat" where
  "line_indent_width line = length (takeWhile blank line)"

text \<open>\<open>[ \t]*(?:#.*)?\<close> to the end of a line.\<close>

definition comment_tail :: "string \<Rightarrow> bool" where
  "comment_tail tail = (case dropWhile blank tail of [] \<Rightarrow> True | c # cs \<Rightarrow> c = CHR ''#'')"

section \<open>The image of a service\<close>

text \<open>
  The pattern of an image line. Its key part, up to the blanks after the colon, is deterministic:
  after the leading blanks the key starts with a quote or with its first letter.
\<close>

definition quote_char :: "char \<Rightarrow> bool" where
  "quote_char c = (c = CHR 0x22 \<or> c = CHR 0x27)"

definition key_text :: "string \<Rightarrow> string \<Rightarrow> string option" where
  "key_text key s =
     (case s of
        [] \<Rightarrow> None
      | c # cs \<Rightarrow>
          if quote_char c
          then (if startswith cs key
                then (case drop (length key) cs of
                        q # rest \<Rightarrow> if quote_char q then Some rest else None
                      | [] \<Rightarrow> None)
                else None)
          else if startswith s key then Some (drop (length key) s) else None)"

definition after_key :: "string \<Rightarrow> string \<Rightarrow> string option" where
  "after_key key body =
     (case key_text key (dropWhile blank body) of
        None \<Rightarrow> None
      | Some rest \<Rightarrow>
          (case dropWhile blank rest of
             [] \<Rightarrow> None
           | c # rest' \<Rightarrow> if c = CHR '':'' then Some rest' else None))"

definition quote_options :: "string \<Rightarrow> string list" where
  "quote_options s = (case s of [] \<Rightarrow> [[]] | c # cs \<Rightarrow> if quote_char c then [[c], []] else [[]])"

text \<open>A split of what follows the colon: \<open>k\<close> blanks, an opening quote, the image, the same quote.\<close>

definition image_split :: "string \<Rightarrow> string \<Rightarrow> nat \<Rightarrow> string \<Rightarrow> bool" where
  "image_split old rest k q =
     (let s = drop k rest
      in startswith s (q @ old @ q) \<and> comment_tail (drop (length (q @ old @ q)) s))"

text \<open>The splits in the order the regular expression tries them: most blanks first, a quote first.\<close>

definition image_candidates :: "string \<Rightarrow> (nat \<times> string) list" where
  "image_candidates rest =
     concat (map (\<lambda>k. map (\<lambda>q. (k, q)) (quote_options (drop k rest)))
       (rev [0..<Suc (length (takeWhile blank rest))]))"

text \<open>The lengths of the first two groups.\<close>

definition image_line_match :: "string \<Rightarrow> string \<Rightarrow> (nat \<times> nat) option" where
  "image_line_match old body =
     (case after_key ''image'' body of
        None \<Rightarrow> None
      | Some rest \<Rightarrow>
          (case List.find (\<lambda>(k, q). image_split old rest k q) (image_candidates rest) of
             None \<Rightarrow> None
           | Some (k, q) \<Rightarrow> Some (length body - length rest + k, length q)))"

text \<open>The key line and the value line of a plain scalar on the line after its key.\<close>

definition bare_key_line :: "string \<Rightarrow> (nat \<times> nat) option" where
  "bare_key_line body =
     (case after_key ''image'' body of
        None \<Rightarrow> None
      | Some rest \<Rightarrow> if list_all blank rest then Some (length (takeWhile blank body), length rest) else None)"

definition value_line :: "string \<Rightarrow> string \<Rightarrow> nat option" where
  "value_line old body =
     List.find (\<lambda>k. startswith (drop k body) old \<and> list_all blank (drop (length old) (drop k body)))
       (rev [1..<Suc (length (takeWhile blank body))])"

definition ends_scalar :: "nat \<Rightarrow> string \<Rightarrow> bool" where
  "ends_scalar indent body = (py_strip body = '''' \<or> line_indent_width body \<le> indent)"

definition multiline_plain_image_scalar_rewrite ::
  "string \<Rightarrow> nat list \<Rightarrow> nat \<Rightarrow> nat \<Rightarrow> string \<Rightarrow> (nat \<times> nat \<times> string) option edit" where
  "multiline_plain_image_scalar_rewrite source offsets key_line_no value_line_no old =
     (if key_line_no \<ge> length offsets \<or> value_line_no \<noteq> Suc key_line_no then Inr None
      else edit_bind (source_line source offsets key_line_no) (\<lambda>(key_start, _, key_body).
        case bare_key_line key_body of
          None \<Rightarrow> Inr None
        | Some (key_indent, trailing) \<Rightarrow>
            edit_bind (source_line source offsets value_line_no) (\<lambda>(value_start, _, value_body).
              case value_line old value_body of
                None \<Rightarrow> Inr None
              | Some value_indent \<Rightarrow>
                  if value_indent \<le> key_indent then Inr None
                  else edit_bind
                    (if Suc value_line_no < length offsets
                     then edit_bind (source_line source offsets (Suc value_line_no))
                            (\<lambda>(_, _, body). Inr (ends_scalar key_indent body))
                     else Inr True)
                    (\<lambda>ok. Inr (if ok
                       then Some (key_start + length key_body, value_start + value_indent + length old,
                                  if trailing > 0 then '''' else '' '')
                       else None)))))"

definition is_map_msg :: "string \<Rightarrow> string" where
  "is_map_msg service = ''Service '' @ service @ '' is not a mapping with a direct image field.''"

definition checked_image :: "string \<Rightarrow> string \<Rightarrow> service_config \<Rightarrow> unit edit" where
  "checked_image service old config =
     (case yc_image config of
        Text v \<Rightarrow>
          edit_bind (rewrite_if (CHR ''$'' \<in> set v)
            (''Service '' @ service @ '' image uses interpolation and needs manual review.'')) (\<lambda>_.
          rewrite_if (v \<noteq> old) (''Service '' @ service @ '' image is '' @ v @ '', expected '' @ old @ ''.''))
      | _ \<Rightarrow> Inl (Rewrite (''Service '' @ service @ '' image is not a direct string scalar.'')))"

definition service_image_scalar_rewrite ::
  "yaml_services \<Rightarrow> string \<Rightarrow> string \<Rightarrow> string \<Rightarrow> nat list \<Rightarrow> (nat \<times> nat \<times> string) edit" where
  "service_image_scalar_rewrite services service old source offsets =
     edit_bind (needs (is_map_msg service) (service_of services service)) (\<lambda>config.
     edit_bind (checked_image service old config) (\<lambda>_.
     edit_bind (needs (''Service '' @ service @ '' image source location is unavailable.'')
       (yc_image_value_at config)) (\<lambda>(line_no, _).
     edit_bind (rewrite_if (line_no \<ge> length offsets)
       (''Service '' @ service @ '' image source location is invalid.'')) (\<lambda>_.
     edit_bind (source_line source offsets line_no) (\<lambda>(start, _, body).
       case image_line_match old body of
         Some (g1, g2) \<Rightarrow> Inr (start + g1 + g2, start + g1 + g2 + length old, '''')
       | None \<Rightarrow>
           edit_bind (needs (''Service '' @ service @ '' image source location is unavailable.'')
             (yc_image_key_at config)) (\<lambda>(key_line_no, _).
           edit_bind (multiline_plain_image_scalar_rewrite source offsets key_line_no line_no old)
             (needs (''Service '' @ service @ '' image uses unsupported YAML syntax for automatic rewrite.'')))))))) "

definition reject_duplicate_image_span ::
  "(nat \<times> nat) set \<Rightarrow> nat \<times> nat \<Rightarrow> string \<Rightarrow> string \<Rightarrow> (nat \<times> nat) set edit" where
  "reject_duplicate_image_span seen span service img =
     (if span \<in> seen
      then Inl (Rewrite (''Service '' @ service @ '' image for '' @ img @ '' was selected more than once.''))
      else Inr (insert span seen))"

definition unique_image_rewrite ::
  "yaml_services \<Rightarrow> string \<Rightarrow> string \<Rightarrow> string \<Rightarrow> nat list \<Rightarrow> (nat \<times> nat) set \<Rightarrow>
   ((nat \<times> nat \<times> string) \<times> (nat \<times> nat) set) edit" where
  "unique_image_rewrite services service old source offsets seen =
     edit_bind (service_image_scalar_rewrite services service old source offsets) (\<lambda>(start, stop, pre).
     edit_bind (reject_duplicate_image_span seen (start, stop) service old) (\<lambda>seen'.
       Inr ((start, stop, pre), seen')))"

section \<open>Anchors and merged keys\<close>

definition reject_service_config_alias :: "yaml_services \<Rightarrow> string \<Rightarrow> service_config \<Rightarrow> unit edit" where
  "reject_service_config_alias services service config =
     rewrite_if (yc_anchored config \<or> (\<exists>o' \<in> set (other_configs services service). yc_id o' = yc_id config))
       (''Service '' @ service @ '' uses YAML anchors or aliases and needs manual review.'')"

definition reject_image_alias :: "yaml_services \<Rightarrow> string \<Rightarrow> service_config \<Rightarrow> unit edit" where
  "reject_image_alias services service config =
     rewrite_if (case yc_image_node config of
         None \<Rightarrow> False
       | Some (node, anchored) \<Rightarrow> anchored \<or>
           (\<exists>o' \<in> set (other_configs services service). map_option fst (yc_image_node o') = Some node))
       (''Service '' @ service @ '' image uses YAML anchors or aliases and needs manual review.'')"

definition rewrite_service_config :: "yaml_services \<Rightarrow> string \<Rightarrow> bool \<Rightarrow> service_config edit" where
  "rewrite_service_config services service direct_image_required =
     edit_bind (needs (is_map_msg service) (service_of services service)) (\<lambda>config.
     edit_bind (reject_service_config_alias services service config) (\<lambda>_.
     edit_bind (rewrite_if (\<not> yc_image_direct config \<and> (direct_image_required \<or> yc_image config \<noteq> NoValue))
       (''Service '' @ service @ '' image is inherited and needs manual review.'')) (\<lambda>_.
     edit_bind (reject_image_alias services service config) (\<lambda>_. Inr config))))"

fun labels_node :: "labels \<Rightarrow> (nat \<times> bool) option" where
  "labels_node NoLabels = None"
| "labels_node (LabelMap m) = Some (lm_id m, lm_anchored m)"
| "labels_node (LabelSeq s) = Some (ls_id s, ls_anchored s)"
| "labels_node (OtherLabels i a) = Some (i, a)"

definition reject_labels_alias :: "yaml_services \<Rightarrow> string \<Rightarrow> labels \<Rightarrow> unit edit" where
  "reject_labels_alias services service ls =
     rewrite_if (case labels_node ls of
         None \<Rightarrow> False
       | Some (node, anchored) \<Rightarrow> anchored \<or>
           (\<exists>o' \<in> set (other_configs services service). map_option fst (labels_node (yc_labels o')) = Some node))
       (''Service '' @ service @ '' labels use YAML anchors or aliases and need manual review.'')"

text \<open>
  Labels that a merge key brings in are copied into the service: a new node (\<open>fresh\<close>), without
  positions, so its entries become the service's own.
\<close>

definition materialize_inherited_service_labels :: "nat \<Rightarrow> service_config \<Rightarrow> string \<Rightarrow> service_config edit" where
  "materialize_inherited_service_labels fresh config service =
     (if yc_labels_direct config then Inr config
      else case yc_labels config of
        NoLabels \<Rightarrow> Inr config
      | LabelMap m \<Rightarrow>
          Inr (config\<lparr>yc_labels := LabelMap \<lparr>lm_id = fresh, lm_anchored = False, lm_at = None,
                 lm_entries = map (\<lambda>e. e\<lparr>me_direct := True, me_key_at := None, me_value_at := None\<rparr>) (lm_entries m)\<rparr>,
               yc_labels_direct := True, yc_labels_key_at := None\<rparr>)
      | LabelSeq s \<Rightarrow>
          Inr (config\<lparr>yc_labels := LabelSeq \<lparr>ls_id = fresh, ls_anchored = False, ls_at = None,
                 ls_items = map (\<lambda>(v, _). (v, None)) (ls_items s)\<rparr>,
               yc_labels_direct := True, yc_labels_key_at := None\<rparr>)
      | OtherLabels i a \<Rightarrow> Inl (Rewrite (''Service '' @ service @ '' labels use unsupported YAML syntax.'')))"

definition prepare_service_labels :: "nat \<Rightarrow> yaml_services \<Rightarrow> string \<Rightarrow> service_config \<Rightarrow> service_config edit" where
  "prepare_service_labels fresh services service config =
     edit_bind (materialize_inherited_service_labels fresh config service) (\<lambda>config'.
     edit_bind (reject_labels_alias services service (yc_labels config')) (\<lambda>_. Inr config'))"

section \<open>Reading a label\<close>

definition UNSUPPORTED_NON_STRING_LABEL_ENTRY :: string where
  "UNSUPPORTED_NON_STRING_LABEL_ENTRY = ''Service labels use unsupported non-string list entries.''"

definition SERVICE_LABELS_SOURCE_LOCATION_UNAVAILABLE :: string where
  "SERVICE_LABELS_SOURCE_LOCATION_UNAVAILABLE = ''Service labels source location is unavailable.''"

definition UNSUPPORTED_SERVICE_LABELS_YAML :: string where
  "UNSUPPORTED_SERVICE_LABELS_YAML = ''Service labels use unsupported YAML syntax.''"

text \<open>\<open>item.partition("=")\<close>: the key, whether there is a separator, the value.\<close>

definition label_parts :: "string \<Rightarrow> string \<times> bool \<times> string" where
  "label_parts item =
     (case break_at ''='' item of None \<Rightarrow> (item, False, '''') | Some (k, v) \<Rightarrow> (k, True, v))"

definition duplicate_label_msg :: "string \<Rightarrow> string \<Rightarrow> string" where
  "duplicate_label_msg service key =
     ''Service '' @ service @ '' lists the '' @ key @ '' label more than once; Docker Compose ''
     @ ''uses only the last one, so WUDup will not change it. Remove the ''
     @ ''duplicate '' @ key @ '' entries from the service labels, then try again.''"

text \<open>The loop of \<open>_sequence_label_index\<close>: \<open>found\<close> (a key with \<open>=\<close>) and \<open>declared\<close>.\<close>

fun sequence_label_from ::
  "string \<Rightarrow> string \<Rightarrow> nat \<Rightarrow> nat option \<Rightarrow> nat option \<Rightarrow> scalar list \<Rightarrow> nat option edit" where
  "sequence_label_from key service i found declared [] = Inr declared"
| "sequence_label_from key service i found declared (item # items) =
     (case item of
        Text t \<Rightarrow>
          (case label_parts t of (k, sep, _) \<Rightarrow>
             if k \<noteq> key then sequence_label_from key service (Suc i) found declared items
             else if declared \<noteq> None then Inl (Rewrite (duplicate_label_msg service key))
             else sequence_label_from key service (Suc i) (if sep then Some i else found) (Some i) items)
      | _ \<Rightarrow>
          if found = None then Inl (Rewrite UNSUPPORTED_NON_STRING_LABEL_ENTRY)
          else sequence_label_from key service (Suc i) found declared items)"

definition sequence_label_index :: "label_seq \<Rightarrow> string \<Rightarrow> string \<Rightarrow> nat option edit" where
  "sequence_label_index s key service = sequence_label_from key service 0 None None (map fst (ls_items s))"

fun scalar_text :: "scalar \<Rightarrow> string" where
  "scalar_text (Text t) = t"
| "scalar_text NoValue = ''''"
| "scalar_text (OtherValue t) = ''''"

definition sequence_label_value :: "label_seq \<Rightarrow> string \<Rightarrow> string \<Rightarrow> string edit" where
  "sequence_label_value s key service =
     edit_bind (sequence_label_index s key service) (\<lambda>index. Inr (case index of
       None \<Rightarrow> ''''
     | Some i \<Rightarrow> snd (snd (label_parts (scalar_text (fst (ls_items s ! i)))))))"

definition map_entry_of :: "label_map \<Rightarrow> string \<Rightarrow> map_entry option" where
  "map_entry_of m key = List.find (\<lambda>e. me_key e = key) (lm_entries m)"

definition get_service_label_value :: "service_config \<Rightarrow> string \<Rightarrow> string \<Rightarrow> string edit" where
  "get_service_label_value config key service =
     (case yc_labels config of
        NoLabels \<Rightarrow> Inr ''''
      | LabelMap m \<Rightarrow>
          (case map_entry_of m key of
             None \<Rightarrow> Inr ''''
           | Some e \<Rightarrow> (case me_value e of
               NoValue \<Rightarrow> Inr ''''
             | Text t \<Rightarrow> Inr t
             | OtherValue t \<Rightarrow> Inl (Rewrite (''Label '' @ key @ '' is not a string value.''))))
      | LabelSeq s \<Rightarrow> sequence_label_value s key service
      | OtherLabels i a \<Rightarrow> Inl (Rewrite UNSUPPORTED_SERVICE_LABELS_YAML))"

definition service_label_present :: "service_config \<Rightarrow> string \<Rightarrow> bool edit" where
  "service_label_present config key =
     (case yc_labels config of
        NoLabels \<Rightarrow> Inr False
      | LabelMap m \<Rightarrow> Inr (map_entry_of m key \<noteq> None)
      | LabelSeq s \<Rightarrow> Inr (\<exists>(v, _) \<in> set (ls_items s). case v of Text t \<Rightarrow> fst (label_parts t) = key | _ \<Rightarrow> False)
      | OtherLabels i a \<Rightarrow> Inl (Rewrite UNSUPPORTED_SERVICE_LABELS_YAML))"

text \<open>\<open>_set_service_label_value\<close> on the tree; a new sequence is the node \<open>fresh\<close>.\<close>

definition set_map_entry :: "string \<Rightarrow> string \<Rightarrow> map_entry list \<Rightarrow> map_entry list" where
  "set_map_entry key v es =
     (if List.find (\<lambda>e. me_key e = key) es = None
      then es @ [\<lparr>me_key = key, me_value = Text v, me_direct = True, me_key_at = None, me_value_at = None\<rparr>]
      else map (\<lambda>e. if me_key e = key then e\<lparr>me_value := Text v, me_direct := True\<rparr> else e) es)"

definition set_service_label_value ::
  "nat \<Rightarrow> service_config \<Rightarrow> string \<Rightarrow> string \<Rightarrow> string \<Rightarrow> service_config edit" where
  "set_service_label_value fresh config key v service =
     (let item = key @ ''='' @ v
      in case yc_labels config of
        NoLabels \<Rightarrow> Inr (config\<lparr>yc_labels := LabelSeq \<lparr>ls_id = fresh, ls_anchored = False, ls_at = None,
                        ls_items = [(Text item, None)]\<rparr>, yc_labels_direct := True\<rparr>)
      | LabelMap m \<Rightarrow> Inr (config\<lparr>yc_labels := LabelMap (m\<lparr>lm_entries := set_map_entry key v (lm_entries m)\<rparr>)\<rparr>)
      | LabelSeq s \<Rightarrow>
          edit_bind (sequence_label_index s key service) (\<lambda>index.
            Inr (config\<lparr>yc_labels := LabelSeq (s\<lparr>ls_items := (case index of
                None \<Rightarrow> ls_items s @ [(Text item, None)]
              | Some i \<Rightarrow> (ls_items s)[i := (Text item, snd (ls_items s ! i))])\<rparr>)\<rparr>))
      | OtherLabels i a \<Rightarrow> Inl (Rewrite UNSUPPORTED_SERVICE_LABELS_YAML))"

section \<open>Rendering a scalar\<close>

definition double_single_quotes :: "string \<Rightarrow> string" where
  "double_single_quotes v = replace_all [CHR 0x27] [CHR 0x27, CHR 0x27] v"

definition single_quoted :: "string \<Rightarrow> string" where
  "single_quoted v = [CHR 0x27] @ double_single_quotes v @ [CHR 0x27]"

definition double_quoted :: "string \<Rightarrow> string" where
  "double_quoted v =
     [CHR 0x22] @ replace_all [CHR 0x22] [CHR 0x5C, CHR 0x22] (replace_all [CHR 0x5C] [CHR 0x5C, CHR 0x5C] v)
     @ [CHR 0x22]"

definition unsafe_initial :: "string \<Rightarrow> bool" where
  "unsafe_initial v =
     (v \<noteq> [] \<and> (hd v \<in> set ''-?:,[]{}#&*!|>%@'' \<or> hd v = CHR 0x27 \<or> hd v = CHR 0x22 \<or> hd v = CHR 0x60))"

definition unsafe_content :: "string \<Rightarrow> bool" where
  "unsafe_content v =
     (contains v '' #'' \<or> contains v [tab, CHR ''#''] \<or> contains v '': '' \<or> contains v [CHR '':'', tab])"

definition unsafe_flow :: "string \<Rightarrow> bool" where
  "unsafe_flow v = (\<exists>c \<in> set v. c \<in> set ''[]{},'')"

definition render_yaml_scalar_like :: "string \<Rightarrow> string \<Rightarrow> bool \<Rightarrow> string edit" where
  "render_yaml_scalar_like token v flow =
     (if newline \<in> set v \<or> cr \<in> set v then Inl (Rewrite ''Label value cannot contain a line break.'')
      else Inr
       (if startswith token [CHR 0x27] then single_quoted v
        else if startswith token [CHR 0x22] then double_quoted v
        else if unsafe_initial v \<or> unsafe_content v \<or> (flow \<and> unsafe_flow v) then single_quoted v
        else v))"

definition yaml_scalar_boundary_matches :: "string \<Rightarrow> bool \<Rightarrow> bool" where
  "yaml_scalar_boundary_matches tail flow =
     (if flow then (case dropWhile blank tail of [] \<Rightarrow> False | c # cs \<Rightarrow> c \<in> set '',}]#'')
      else comment_tail tail)"

definition yaml_scalar_source_rewrite ::
  "string \<Rightarrow> nat list \<Rightarrow> nat \<Rightarrow> nat \<Rightarrow> string \<Rightarrow> string \<Rightarrow> bool \<Rightarrow> (nat \<times> nat \<times> string) edit" where
  "yaml_scalar_source_rewrite source offsets line_no col expected replacement flow =
     edit_bind (source_line source offsets line_no) (\<lambda>(start, _, body).
     edit_bind (rewrite_if (col \<ge> length body) ''Label source location is invalid.'') (\<lambda>_.
     edit_bind (render_yaml_scalar_like [CHR 0x22] expected False) (\<lambda>quoted.
     let token = (case List.find (\<lambda>t. startswith (drop col body) t \<and>
                    yaml_scalar_boundary_matches (drop (col + length t) body) flow)
                    [expected, single_quoted expected, quoted] of None \<Rightarrow> '''' | Some t \<Rightarrow> t)
     in edit_bind (rewrite_if (token = '''') ''Label uses unsupported YAML syntax for automatic rewrite.'') (\<lambda>_.
        edit_bind (render_yaml_scalar_like token replacement flow) (\<lambda>rendered.
          Inr (start + col, start + col + length token, rendered))))))"

section \<open>Flow collections\<close>

record flow_state =
  fl_open :: string
  fl_quote :: "char option"
  fl_escaped :: bool
  fl_comment :: bool
  fl_last :: nat

definition closing_of :: "char \<Rightarrow> char" where
  "closing_of c = (if c = CHR ''['' then CHR '']'' else CHR ''}'')"

text \<open>\<open>_quoted_flow_character\<close>: the new state and the index of the last character consumed.\<close>

definition quoted_flow_character :: "string \<Rightarrow> nat \<Rightarrow> char \<Rightarrow> flow_state \<Rightarrow> flow_state \<times> nat" where
  "quoted_flow_character source index q st =
     (let c = source ! index
      in if q = CHR 0x27 \<and> c = CHR 0x27 \<and> take 1 (drop (Suc index) source) = [CHR 0x27]
         then (st\<lparr>fl_last := Suc index\<rparr>, Suc index)
         else if q = CHR 0x22 \<and> fl_escaped st then (st\<lparr>fl_escaped := False, fl_last := index\<rparr>, index)
         else if q = CHR 0x22 \<and> c = CHR 0x5C then (st\<lparr>fl_escaped := True, fl_last := index\<rparr>, index)
         else if c = q then (st\<lparr>fl_quote := None, fl_last := index\<rparr>, index)
         else (st\<lparr>fl_last := index\<rparr>, index))"

text \<open>\<open>_unquoted_flow_character\<close>: the new state and, at the closing bracket, the end.\<close>

definition unquoted_flow_character :: "string \<Rightarrow> nat \<Rightarrow> nat \<Rightarrow> flow_state \<Rightarrow> (flow_state \<times> nat option) edit" where
  "unquoted_flow_character source start index st =
     (let c = source ! index
      in if c = CHR ''#'' \<and> (index = start \<or> py_space (source ! (index - 1)))
         then Inr (st\<lparr>fl_comment := True\<rparr>, None)
         else if quote_char c then Inr (st\<lparr>fl_quote := Some c, fl_escaped := False, fl_last := index\<rparr>, None)
         else if c = CHR ''['' \<or> c = CHR ''{'' then Inr (st\<lparr>fl_open := c # fl_open st, fl_last := index\<rparr>, None)
         else if c = CHR '']'' \<or> c = CHR ''}''
         then (case fl_open st of
             [] \<Rightarrow> Inl (Rewrite ''Service labels use a malformed flow collection.'')
           | b # bs \<Rightarrow>
               if closing_of b \<noteq> c then Inl (Rewrite ''Service labels use a malformed flow collection.'')
               else if bs = [] then Inr (st\<lparr>fl_open := []\<rparr>, Some (Suc index))
               else Inr (st\<lparr>fl_open := bs, fl_last := index\<rparr>, None))
         else if \<not> py_space c then Inr (st\<lparr>fl_last := index\<rparr>, None)
         else Inr (st, None))"

lemma quoted_index: "quoted_flow_character source index q st = (st', index') \<Longrightarrow> index \<le> index'"
  by (auto simp: quoted_flow_character_def Let_def split: if_splits)

function flow_scan :: "string \<Rightarrow> nat \<Rightarrow> nat \<Rightarrow> flow_state \<Rightarrow> (nat \<times> nat) edit" where
  "flow_scan source start index st =
     (if index \<ge> length source then Inl (Rewrite ''Service labels use an unterminated flow collection.'')
      else if fl_comment st
      then flow_scan source start (Suc index) (st\<lparr>fl_comment := source ! index \<noteq> newline\<rparr>)
      else case fl_quote st of
        Some q \<Rightarrow>
          (case quoted_flow_character source index q st of
             (st', index') \<Rightarrow> flow_scan source start (Suc index') st')
      | None \<Rightarrow>
          (case unquoted_flow_character source start index st of
             Inl e \<Rightarrow> Inl e
           | Inr (st', Some e) \<Rightarrow> Inr (e, fl_last st')
           | Inr (st', None) \<Rightarrow> flow_scan source start (Suc index) st'))"
  by pat_completeness auto
termination
  by (relation "measure (\<lambda>(source, start, index, st). length source - index)")
    (auto dest!: quoted_index [OF sym])

declare flow_scan.simps [simp del]

definition flow_collection_bounds :: "string \<Rightarrow> nat \<Rightarrow> (nat \<times> nat) edit" where
  "flow_collection_bounds source start =
     flow_scan source start start
       \<lparr>fl_open = '''', fl_quote = None, fl_escaped = False, fl_comment = False, fl_last = start\<rparr>"

definition slice :: "string \<Rightarrow> nat \<Rightarrow> nat \<Rightarrow> string" where
  "slice source a b = take (b - a) (drop a source)"

definition spaces :: "nat \<Rightarrow> string" where
  "spaces n = replicate n (CHR '' '')"

text \<open>\<open>source.rfind("\n", a, b) + 1\<close>.\<close>

definition last_line_start :: "string \<Rightarrow> nat \<Rightarrow> nat \<Rightarrow> nat" where
  "last_line_start source a b =
     (case List.find (\<lambda>i. source ! i = newline) (rev [a..<b]) of None \<Rightarrow> 0 | Some i \<Rightarrow> Suc i)"

fun all_positions :: "position option list \<Rightarrow> position list option" where
  "all_positions [] = Some []"
| "all_positions (p # ps) =
     (case p of None \<Rightarrow> None | Some x \<Rightarrow> map_option (\<lambda>xs. x # xs) (all_positions ps))"

fun label_positions :: "labels \<Rightarrow> position list option" where
  "label_positions (LabelMap m) = all_positions (map me_key_at (lm_entries m))"
| "label_positions (LabelSeq s) = all_positions (map snd (ls_items s))"
| "label_positions _ = Some []"

fun first_indent :: "string \<Rightarrow> nat list \<Rightarrow> nat \<Rightarrow> string \<Rightarrow> position list \<Rightarrow> string edit" where
  "first_indent source offsets opening fallback [] = Inr fallback"
| "first_indent source offsets opening fallback ((line_no, col) # ps) =
     (if line_no \<le> opening then first_indent source offsets opening fallback ps
      else edit_bind (source_line source offsets line_no) (\<lambda>(_, _, body).
        if py_strip (take col body) = '''' then Inr (take col body)
        else first_indent source offsets opening fallback ps))"

definition multiline_flow_label_indent :: "labels \<Rightarrow> string \<Rightarrow> nat list \<Rightarrow> nat \<Rightarrow> string \<Rightarrow> string edit" where
  "multiline_flow_label_indent ls source offsets start closing_prefix =
     edit_bind (needs SERVICE_LABELS_SOURCE_LOCATION_UNAVAILABLE (label_positions ls)) (\<lambda>locations.
       first_indent source offsets (count_list (take start source) newline) (closing_prefix @ ''  '') locations)"

definition flow_label_addition_rewrites ::
  "labels \<Rightarrow> string \<Rightarrow> string \<Rightarrow> nat list \<Rightarrow> nat \<Rightarrow> (nat \<times> nat \<times> string) list edit" where
  "flow_label_addition_rewrites ls entry source offsets start =
     edit_bind (flow_collection_bounds source start) (\<lambda>(stop, last_sig).
     let needs_comma = (last_sig \<noteq> start \<and> source ! last_sig \<noteq> CHR '','');
         comma = [(Suc last_sig, Suc last_sig, '','')]
     in if newline \<notin> set (slice source start stop)
        then Inr (if needs_comma \<and> Suc last_sig = stop - 1
                  then [(stop - 1, stop - 1, '', '' @ entry @ '','')]
                  else (if needs_comma then comma else []) @
                    [(stop - 1, stop - 1, (if last_sig = start then '''' else '' '') @ entry @ '','')])
        else let line_start = last_line_start source start (stop - 1);
                 closing_prefix = slice source line_start (stop - 1)
             in edit_bind (rewrite_if (py_strip closing_prefix \<noteq> '''')
                  ''Service labels use unsupported multiline flow-style YAML syntax.'') (\<lambda>_.
                edit_bind (multiline_flow_label_indent ls source offsets start closing_prefix) (\<lambda>indent.
                  Inr ((if needs_comma then comma else []) @
                    [(line_start, line_start, indent @ entry @ '','' @ [newline])]))))"

section \<open>Block labels\<close>

text \<open>\<open>_yaml_block_end_offset\<close>: \<open>lines\<close> are the line numbers after the key's.\<close>

fun block_end_from :: "string \<Rightarrow> nat list \<Rightarrow> nat \<Rightarrow> nat list \<Rightarrow> nat edit" where
  "block_end_from source offsets key_col [] = Inr (length source)"
| "block_end_from source offsets key_col (n # ns) =
     edit_bind (source_line source offsets n) (\<lambda>(start, _, body).
       if py_strip body \<noteq> '''' \<and> line_indent_width body \<le> key_col then Inr start
       else block_end_from source offsets key_col ns)"

definition yaml_block_end_offset :: "string \<Rightarrow> nat list \<Rightarrow> nat \<Rightarrow> nat \<Rightarrow> nat edit" where
  "yaml_block_end_offset source offsets key_line_no key_col =
     block_end_from source offsets key_col [Suc key_line_no..<length offsets]"

definition ends_with_newline :: "string \<Rightarrow> bool" where
  "ends_with_newline s = (s \<noteq> [] \<and> last s = newline)"

definition source_lines_insertion :: "string \<Rightarrow> nat \<Rightarrow> string list \<Rightarrow> string" where
  "source_lines_insertion source offset ls =
     (if offset = 0 \<or> source ! (offset - 1) = newline then '''' else [newline]) @
     join_with [newline] ls @
     (if offset < length source \<or> ends_with_newline source then [newline] else '''')"

definition block_label_entry_indent :: "labels \<Rightarrow> string \<Rightarrow> nat list \<Rightarrow> nat \<Rightarrow> string edit" where
  "block_label_entry_indent ls source offsets labels_col =
     (case ls of
        LabelMap m \<Rightarrow>
          (case lm_entries m of
             [] \<Rightarrow> Inr (spaces (labels_col + 2))
           | e # es \<Rightarrow>
               edit_bind (needs SERVICE_LABELS_SOURCE_LOCATION_UNAVAILABLE (me_key_at e)) (\<lambda>(_, col). Inr (spaces col)))
      | LabelSeq s \<Rightarrow>
          (case ls_items s of
             [] \<Rightarrow> Inr (spaces (labels_col + 2))
           | (_, at) # items \<Rightarrow>
               edit_bind (needs SERVICE_LABELS_SOURCE_LOCATION_UNAVAILABLE at) (\<lambda>(line_no, _).
               edit_bind (source_line source offsets line_no) (\<lambda>(_, _, body).
                 (case dropWhile blank body of
                    c # cs \<Rightarrow> if c = CHR ''-'' then Inr (takeWhile blank body)
                             else Inl (Rewrite ''Service labels use unsupported YAML syntax for automatic rewrite.'')
                  | [] \<Rightarrow> Inl (Rewrite ''Service labels use unsupported YAML syntax for automatic rewrite.'')))))
      | _ \<Rightarrow> Inr (spaces (labels_col + 2)))"

definition append_block_label_rewrite ::
  "service_config \<Rightarrow> labels \<Rightarrow> string \<Rightarrow> string \<Rightarrow> nat list \<Rightarrow> (nat \<times> nat \<times> string) edit" where
  "append_block_label_rewrite config ls entry source offsets =
     edit_bind (needs SERVICE_LABELS_SOURCE_LOCATION_UNAVAILABLE (yc_labels_key_at config)) (\<lambda>(line_no, col).
     edit_bind (yaml_block_end_offset source offsets line_no col) (\<lambda>insertion.
     edit_bind (block_label_entry_indent ls source offsets col) (\<lambda>indent.
       Inr (insertion, insertion, source_lines_insertion source insertion [indent @ entry]))))"

section \<open>The source edit of a label\<close>

definition null_words :: "string list" where
  "null_words = [''null'', ''Null'', ''NULL'', ''~'']"

text \<open>The line of an empty \<open>labels\<close> key: how long its key part is, and its comment.\<close>

definition empty_labels_line :: "string \<Rightarrow> (nat \<times> string) option" where
  "empty_labels_line body =
     (case after_key ''labels'' body of
        None \<Rightarrow> None
      | Some rest \<Rightarrow>
          (let r = dropWhile blank rest;
               r' = (case List.find (startswith r) null_words of None \<Rightarrow> r | Some w \<Rightarrow> dropWhile blank (drop (length w) r))
           in case r' of
                [] \<Rightarrow> Some (length body - length r, '''')
              | c # cs \<Rightarrow> if c = CHR ''#'' then Some (length body - length r, r') else None))"

definition empty_service_labels_rewrite ::
  "service_config \<Rightarrow> string \<Rightarrow> string \<Rightarrow> string \<Rightarrow> nat list \<Rightarrow> (nat \<times> nat \<times> string) edit" where
  "empty_service_labels_rewrite config key v source offsets =
     edit_bind (needs SERVICE_LABELS_SOURCE_LOCATION_UNAVAILABLE (yc_labels_key_at config)) (\<lambda>(line_no, col).
     edit_bind (source_line source offsets line_no) (\<lambda>(start, _, body).
     edit_bind (needs ''Service labels use unsupported empty YAML syntax.'' (empty_labels_line body)) (\<lambda>(g1, comment).
     edit_bind (render_yaml_scalar_like '''' (key @ ''='' @ v) False) (\<lambda>label.
       Inr (start + g1, start + length body, comment @ [newline] @ spaces (col + 2) @ ''- '' @ label)))))"

definition new_service_labels_rewrite ::
  "service_config \<Rightarrow> string \<Rightarrow> string \<Rightarrow> string \<Rightarrow> nat list \<Rightarrow> (nat \<times> nat \<times> string) edit" where
  "new_service_labels_rewrite config key v source offsets =
     edit_bind (needs ''Service image source location is unavailable.'' (yc_image_value_at config)) (\<lambda>(line_no, _).
     edit_bind (needs ''Service image source location is unavailable.'' (yc_image_key_at config)) (\<lambda>(_, col).
     edit_bind (source_line source offsets line_no) (\<lambda>(_, line_end, _).
     let insertion = (if line_end < length source then Suc line_end else line_end)
     in edit_bind (render_yaml_scalar_like '''' (key @ ''='' @ v) False) (\<lambda>label.
        Inr (insertion, insertion, source_lines_insertion source insertion
          [spaces col @ ''labels:'', spaces col @ ''  - '' @ label])))))"

definition service_labels_flow_start :: "labels \<Rightarrow> string \<Rightarrow> nat list \<Rightarrow> nat option edit" where
  "service_labels_flow_start ls source offsets =
     (let at = (\<lambda>p. edit_bind (needs SERVICE_LABELS_SOURCE_LOCATION_UNAVAILABLE p) (\<lambda>(line_no, col).
          if line_no < length offsets
          then (let i = offsets ! line_no + col
                in Inr (if i < length source \<and> (source ! i = CHR ''['' \<or> source ! i = CHR ''{'') then Some i else None))
          else Inl (Rewrite SERVICE_LABELS_SOURCE_LOCATION_UNAVAILABLE)))
      in case ls of LabelMap m \<Rightarrow> at (lm_at m) | LabelSeq s \<Rightarrow> at (ls_at s) | _ \<Rightarrow> Inr None)"

definition mapping_label_source_rewrites ::
  "service_config \<Rightarrow> label_map \<Rightarrow> string \<Rightarrow> string \<Rightarrow> string \<Rightarrow> nat list \<Rightarrow> nat option \<Rightarrow>
   (nat \<times> nat \<times> string) list edit" where
  "mapping_label_source_rewrites config m key v source offsets flow_start =
     (let flow = (flow_start \<noteq> None)
      in case map_entry_of m key of
        Some e \<Rightarrow>
          edit_bind (rewrite_if (\<not> me_direct e) (''Label '' @ key @ '' is inherited and needs manual review.'')) (\<lambda>_.
          edit_bind (needs (''Label '' @ key @ '' source location is unavailable.'') (me_value_at e)) (\<lambda>(line_no, col).
          (case me_value e of
             Text cur \<Rightarrow> edit_bind (yaml_scalar_source_rewrite source offsets line_no col cur v flow) (\<lambda>r. Inr [r])
           | _ \<Rightarrow> Inl (Rewrite (''Label '' @ key @ '' is not a string value.'')))))
      | None \<Rightarrow>
          edit_bind (render_yaml_scalar_like '''' v flow) (\<lambda>rendered.
          let entry = key @ '': '' @ rendered
          in case flow_start of
               Some start \<Rightarrow> flow_label_addition_rewrites (LabelMap m) entry source offsets start
             | None \<Rightarrow> edit_bind (append_block_label_rewrite config (LabelMap m) entry source offsets) (\<lambda>r. Inr [r])))"

definition sequence_label_source_rewrites ::
  "service_config \<Rightarrow> label_seq \<Rightarrow> string \<Rightarrow> string \<Rightarrow> string \<Rightarrow> nat list \<Rightarrow> nat option \<Rightarrow> string \<Rightarrow>
   (nat \<times> nat \<times> string) list edit" where
  "sequence_label_source_rewrites config s key v source offsets flow_start service =
     (let flow = (flow_start \<noteq> None); replacement = key @ ''='' @ v
      in edit_bind (sequence_label_index s key service) (\<lambda>index. case index of
           Some i \<Rightarrow>
             edit_bind (needs (''Label '' @ key @ '' source location is unavailable.'') (snd (ls_items s ! i))) (\<lambda>(line_no, col).
             edit_bind (yaml_scalar_source_rewrite source offsets line_no col (scalar_text (fst (ls_items s ! i)))
               replacement flow) (\<lambda>r. Inr [r]))
         | None \<Rightarrow>
             edit_bind (render_yaml_scalar_like '''' replacement flow) (\<lambda>rendered.
             case flow_start of
               Some start \<Rightarrow> flow_label_addition_rewrites (LabelSeq s) rendered source offsets start
             | None \<Rightarrow> edit_bind (append_block_label_rewrite config (LabelSeq s) (''- '' @ rendered) source offsets)
                        (\<lambda>r. Inr [r]))))"

definition service_label_source_rewrite ::
  "service_config \<Rightarrow> string \<Rightarrow> string \<Rightarrow> string \<Rightarrow> nat list \<Rightarrow> string \<Rightarrow> (nat \<times> nat \<times> string) list edit" where
  "service_label_source_rewrite config key v source offsets service =
     (if yc_labels config = NoLabels
      then (if yc_labels_direct config
            then edit_bind (empty_service_labels_rewrite config key v source offsets) (\<lambda>r. Inr [r])
            else edit_bind (new_service_labels_rewrite config key v source offsets) (\<lambda>r. Inr [r]))
      else edit_bind (service_labels_flow_start (yc_labels config) source offsets) (\<lambda>flow_start.
        case yc_labels config of
          LabelMap m \<Rightarrow> mapping_label_source_rewrites config m key v source offsets flow_start
        | LabelSeq s \<Rightarrow> sequence_label_source_rewrites config s key v source offsets flow_start service
        | _ \<Rightarrow> Inl (Rewrite UNSUPPORTED_SERVICE_LABELS_YAML)))"

end
