(* ===== verification/Compose_Rewrite.thy ===== *)
theory Compose_Rewrite
  imports Compose_Source
begin

text \<open>
  The rewrites of \<open>src/src/wudup/compose_rewrite.py\<close>: which image scalars and labels of a Compose
  file an update changes. Tag updates edit the text: their result is the new text. Retags, unpins
  and exclusions edit the tree, which \<open>ruamel.yaml\<close> then dumps: their result is the new tree.
  \<open>services\<close> is the tree the library loaded from \<open>source\<close>.
\<close>

section \<open>Edits of a text\<close>

type_synonym text_edit = "nat \<times> nat \<times> string"

definition apply_edit :: "string \<Rightarrow> text_edit \<Rightarrow> string" where
  "apply_edit s e = (case e of (a, b, t) \<Rightarrow> take a s @ t @ drop b s)"

text \<open>\<open>sorted(spans, key=start, reverse=True)\<close> keeps the order of equal starts.\<close>

definition by_start_desc :: "text_edit list \<Rightarrow> text_edit list" where
  "by_start_desc es = rev (sort_key fst (rev es))"

definition plan_edit :: "'a planned \<Rightarrow> 'a edit" where
  "plan_edit m = (case m of Inl e \<Rightarrow> Inl (Rewrite e) | Inr x \<Rightarrow> Inr x)"

section \<open>Tag updates\<close>

definition require_update_services :: "string \<Rightarrow> string list \<Rightarrow> unit edit" where
  "require_update_services old services =
     rewrite_if (services = []) (''No compose service was mapped for '' @ old @ ''.'')"

fun collect_service_spans ::
  "yaml_services \<Rightarrow> string \<Rightarrow> nat list \<Rightarrow> tag_update \<Rightarrow> string list \<Rightarrow> text_edit list \<times> (nat \<times> nat) set \<Rightarrow>
   (text_edit list \<times> (nat \<times> nat) set) edit" where
  "collect_service_spans services source offsets u [] acc = Inr acc"
| "collect_service_spans services source offsets u (s # ss) acc =
     edit_bind (rewrite_service_config services s False) (\<lambda>_.
     edit_bind (unique_image_rewrite services s (tu_old_image u) source offsets (snd acc)) (\<lambda>((a, b, pre), seen).
       collect_service_spans services source offsets u ss (fst acc @ [(a, b, pre @ tu_new_image u)], seen)))"

fun collect_tag_spans ::
  "yaml_services \<Rightarrow> string \<Rightarrow> nat list \<Rightarrow> tag_update list \<Rightarrow> text_edit list \<times> (nat \<times> nat) set \<Rightarrow>
   (text_edit list \<times> (nat \<times> nat) set) edit" where
  "collect_tag_spans services source offsets [] acc = Inr acc"
| "collect_tag_spans services source offsets (u # us) acc =
     edit_bind (require_update_services (tu_old_image u) (tu_services u)) (\<lambda>_.
     edit_bind (collect_service_spans services source offsets u (tu_services u) acc) (\<lambda>acc'.
       collect_tag_spans services source offsets us acc'))"

definition applied_tag :: "tag_update \<Rightarrow> applied_tag_update" where
  "applied_tag u = tag_update.extend u \<lparr>at_replacements = length (tu_services u)\<rparr>"

text \<open>\<open>None\<close>: nothing is written and nothing was applied.\<close>

definition render_compose_tag_updates ::
  "yaml_services \<Rightarrow> string \<Rightarrow> tag_update list \<Rightarrow> (string \<times> applied_tag_update list) option edit" where
  "render_compose_tag_updates services source updates =
     (if updates = [] then Inr None
      else edit_bind (collect_tag_spans services source (line_start_offsets source) updates ([], {})) (\<lambda>(es, _).
        let applied = map applied_tag updates
        in if \<exists>a \<in> set applied. at_replacements a < 1 then Inr None
           else Inr (Some (foldl apply_edit source (by_start_desc es), applied))))"

section \<open>Tag updates with a stream label\<close>

definition image_text :: "service_config \<Rightarrow> string" where
  "image_text config = (case yc_image config of NoValue \<Rightarrow> ''None'' | Text t \<Rightarrow> t | OtherValue t \<Rightarrow> t)"

definition validate_service_image :: "string \<Rightarrow> service_config \<Rightarrow> string \<Rightarrow> unit edit" where
  "validate_service_image service config expected =
     rewrite_if (yc_image config \<noteq> Text expected)
       (''Service '' @ service @ '' image is '' @ image_text config @ '', expected '' @ expected @ ''.'')"

text \<open>A number no node of the tree has.\<close>

fun config_nodes :: "service_config option \<Rightarrow> nat list" where
  "config_nodes None = []"
| "config_nodes (Some c) =
     yc_id c # map fst (case yc_image_node c of None \<Rightarrow> [] | Some n \<Rightarrow> [n])
     @ map fst (case labels_node (yc_labels c) of None \<Rightarrow> [] | Some n \<Rightarrow> [n])"

definition fresh_node :: "yaml_services \<Rightarrow> nat" where
  "fresh_node services = Suc (foldr max (concat (map (\<lambda>(_, c). config_nodes c) services)) 0)"

definition set_service :: "string \<Rightarrow> service_config \<Rightarrow> yaml_services \<Rightarrow> yaml_services" where
  "set_service s config services = AList.update s (Some config) services"

text \<open>\<open>_rewrite_tag_stream_label\<close> on the tree: the service with its labels prepared.\<close>

definition stream_label_checked ::
  "yaml_services \<Rightarrow> string \<Rightarrow> service_config \<Rightarrow> tag_update \<Rightarrow> tag_stream_update \<Rightarrow> service_config edit" where
  "stream_label_checked services s config u su =
     (if su_selected_tag su \<noteq> tu_desired_tag u
      then edit_bind (plan_edit (rewrite_tag_stream_label s '''' u (Some su))) (\<lambda>_. Inr config)
      else edit_bind (prepare_service_labels (fresh_node services) services s config) (\<lambda>config'.
           edit_bind (get_service_label_value config' (su_label_key su) s) (\<lambda>raw.
           edit_bind (plan_edit (rewrite_tag_stream_label s raw u (Some su))) (\<lambda>_. Inr config'))))"

record stream_state =
  ss_services :: yaml_services
  ss_seen :: "(nat \<times> nat) set"
  ss_edits :: "text_edit list"
  ss_done :: "string list"

definition stream_service ::
  "string \<Rightarrow> nat list \<Rightarrow> (string \<times> tag_stream_update) list \<Rightarrow> tag_update \<Rightarrow> string \<Rightarrow> stream_state \<Rightarrow>
   stream_state edit" where
  "stream_service source offsets streams u s st =
     edit_bind (rewrite_service_config (ss_services st) s True) (\<lambda>config.
     edit_bind (validate_service_image s config (tu_old_image u)) (\<lambda>_.
     edit_bind (unique_image_rewrite (ss_services st) s (tu_old_image u) source offsets (ss_seen st))
       (\<lambda>((a, b, pre), seen).
     let st' = st\<lparr>ss_seen := seen, ss_edits := ss_edits st @ [(a, b, pre @ tu_new_image u)]\<rparr>
     in case map_of streams s of
          None \<Rightarrow> Inr st'
        | Some su \<Rightarrow>
            edit_bind (stream_label_checked (ss_services st') s config u su) (\<lambda>config'.
            edit_bind (service_label_source_rewrite config' (su_label_key su) (su_proposed_label_value su)
              source offsets s) (\<lambda>es.
              Inr (st'\<lparr>ss_services := set_service s config' (ss_services st'), ss_edits := ss_edits st' @ es,
                     ss_done := s # ss_done st'\<rparr>))))))"

fun edit_fold :: "('a \<Rightarrow> 's \<Rightarrow> 's edit) \<Rightarrow> 'a list \<Rightarrow> 's \<Rightarrow> 's edit" where
  "edit_fold f [] s = Inr s"
| "edit_fold f (x # xs) s = edit_bind (f x s) (edit_fold f xs)"

definition stream_update ::
  "string \<Rightarrow> nat list \<Rightarrow> (string \<times> tag_stream_update) list \<Rightarrow> tag_update \<Rightarrow> stream_state \<Rightarrow> stream_state edit" where
  "stream_update source offsets streams u st =
     edit_bind (require_update_services (tu_old_image u) (tu_services u)) (\<lambda>_.
       edit_fold (stream_service source offsets streams u) (tu_services u) st)"

text \<open>\<open>sorted(rewrites, reverse=True)\<close>: by start, then end, then text.\<close>

definition edits_desc :: "text_edit list \<Rightarrow> text_edit list" where
  "edits_desc es = rev (sort es)"

definition unmatched_streams :: "(string \<times> tag_stream_update) list \<Rightarrow> string list \<Rightarrow> string list" where
  "unmatched_streams streams rewritten = sorted_set (filter (\<lambda>s. s \<notin> set rewritten) (map fst streams))"

definition render_compose_tag_stream_updates ::
  "(string \<Rightarrow> string) \<Rightarrow> string \<Rightarrow> string \<Rightarrow> string \<Rightarrow> yaml_services \<Rightarrow> string \<Rightarrow> tag_update list \<Rightarrow>
   tag_stream_update list \<Rightarrow> (string \<times> applied_tag_update list) edit" where
  "render_compose_tag_stream_updates norm dir file stack_name services source updates stream_updates =
     edit_bind (plan_edit (tag_stream_updates_by_service norm dir file stack_name [] stream_updates)) (\<lambda>streams.
     edit_bind (edit_fold (stream_update source (line_start_offsets source) streams) updates
       \<lparr>ss_services = services, ss_seen = {}, ss_edits = [], ss_done = []\<rparr>) (\<lambda>st.
     let missing = unmatched_streams streams (ss_done st);
         applied = map applied_tag updates
     in edit_bind (rewrite_if (missing \<noteq> [])
          (''Tag stream update did not match selected service(s): '' @ join_with '', '' missing)) (\<lambda>_.
        edit_bind (rewrite_if (\<exists>a \<in> set applied. at_replacements a < 1)
          ''Compose tag stream rewrite produced no output.'') (\<lambda>_.
          Inr (foldl apply_edit source (edits_desc (ss_edits st)), applied)))))"

section \<open>Markers of a service\<close>

definition config_marker :: "string \<Rightarrow> service_config \<Rightarrow> string edit" where
  "config_marker service config = plan_edit (service_resolved_tag_marker service (yc_comments config))"

definition clear_service_resolved_tag_markers :: "string \<Rightarrow> service_config \<Rightarrow> service_config edit" where
  "clear_service_resolved_tag_markers service config =
     (let kept = map fst (filter snd (map clear_comment_token_resolved_tag_markers (yc_comments config)));
          config' = config\<lparr>yc_comments := kept\<rparr>
      in edit_bind (config_marker service config') (\<lambda>marker.
         edit_bind (rewrite_if (marker \<noteq> '''')
           (''Service '' @ service @ '' resolved-tag marker is attached ambiguously.'')) (\<lambda>_. Inr config')))"

text \<open>The library writes a comment before a key as one token.\<close>

definition comment_before :: "string \<Rightarrow> string" where
  "comment_before marker = ''# '' @ marker @ [newline]"

definition update_service_resolved_tag_marker :: "string \<Rightarrow> service_config \<Rightarrow> string \<Rightarrow> service_config edit" where
  "update_service_resolved_tag_marker service config marker =
     edit_bind (clear_service_resolved_tag_markers service config) (\<lambda>config'.
       Inr (if marker = '''' then config'
            else config'\<lparr>yc_comments := yc_comments config' @ [comment_before marker]\<rparr>))"

definition add_transform ::
  "nat \<Rightarrow> service_config \<Rightarrow> string \<Rightarrow> string \<Rightarrow> string \<Rightarrow> (string \<rightharpoonup> string) option \<Rightarrow>
   (service_config \<times> (string \<times> string) list) edit" where
  "add_transform fresh config service watch_tag label_value transforms =
     edit_bind (service_label_present config WUD_TAG_TRANSFORM_LABEL) (\<lambda>present.
     edit_bind (plan_edit (managed_transform_addition present service watch_tag label_value transforms)) (\<lambda>added.
       case added of
         [] \<Rightarrow> Inr (config, [])
       | (_, t) # rest \<Rightarrow>
           edit_bind (set_service_label_value fresh config WUD_TAG_TRANSFORM_LABEL (compose_escape_dollars t) service)
             (\<lambda>config'. Inr (config', added))))"

section \<open>Retags and digest pins\<close>

definition digest_pin_expected :: "string \<Rightarrow> service_config \<Rightarrow> digest_pin_update \<Rightarrow> string edit" where
  "digest_pin_expected service config u =
     (case yc_image config of
        Text v \<Rightarrow> plan_edit (digest_pin_expected_image service v u)
      | _ \<Rightarrow> Inl (Rewrite (''Service '' @ service @ '' image is '' @ image_text config @ '', expected ''
               @ dp_old_image u @ '' or '' @ dp_resolved_image u @ ''.'')))"

record retag_state =
  rs_services :: yaml_services
  rs_seen :: "(nat \<times> nat) set"
  rs_labels :: "label_rewrite list"
  rs_transforms :: "(string \<times> string) list"
  rs_streams :: "string list"

definition unique_image_span ::
  "yaml_services \<Rightarrow> string \<Rightarrow> string \<Rightarrow> string \<Rightarrow> nat list \<Rightarrow> (nat \<times> nat) set \<Rightarrow> string \<Rightarrow> (nat \<times> nat) set edit" where
  "unique_image_span services service expected source offsets seen selected =
     edit_bind (service_image_scalar_rewrite services service expected source offsets) (\<lambda>(a, b, _).
       reject_duplicate_image_span seen (a, b) service selected)"

definition retag_service ::
  "string \<Rightarrow> string \<Rightarrow> nat list \<Rightarrow> (string \<times> tag_stream_update) list \<Rightarrow> label_approval list \<Rightarrow>
   (string \<rightharpoonup> string) option \<Rightarrow> digest_pin_update \<Rightarrow> string \<Rightarrow> retag_state \<Rightarrow> retag_state edit" where
  "retag_service stack_name source offsets streams approvals transforms u s st =
     edit_bind (rewrite_service_config (rs_services st) s True) (\<lambda>config.
     edit_bind (digest_pin_expected s config u) (\<lambda>expected.
     edit_bind (unique_image_span (rs_services st) s expected source offsets (rs_seen st) (dp_old_image u)) (\<lambda>seen.
     let fresh = fresh_node (rs_services st)
     in edit_bind (prepare_service_labels fresh (rs_services st) s config) (\<lambda>config1.
     edit_bind (get_service_label_value config1 (dp_label_key u) s) (\<lambda>raw.
     edit_bind (plan_edit (retag_label_rewrite stack_name s (image_text config) (compose_unescape_dollars raw) u
       (map_of streams s) approvals)) (\<lambda>(label_value, label_rewrite, streamed).
     edit_bind (set_service_label_value fresh config1 (dp_label_key u) label_value s) (\<lambda>config2.
     edit_bind (add_transform fresh config2 s (dp_watch_tag u) label_value transforms) (\<lambda>(config3, added).
     edit_bind (update_service_resolved_tag_marker s
       (config3\<lparr>yc_image := Text (dp_final_image u), yc_image_node := None\<rparr>) (dp_marker u)) (\<lambda>config4.
       Inr (st\<lparr>rs_services := set_service s config4 (rs_services st), rs_seen := seen,
              rs_labels := rs_labels st @ (case label_rewrite of None \<Rightarrow> [] | Some r \<Rightarrow> [r]),
              rs_transforms := rs_transforms st @ added,
              rs_streams := (if streamed then s # rs_streams st else rs_streams st)\<rparr>))))))))))"

record applied_retag = applied_digest_pin +
  ar_label_rewrites :: "label_rewrite list"
  ar_added_transforms :: "(string \<times> string) list"

definition applied_retag_of :: "digest_pin_update \<Rightarrow> label_rewrite list \<Rightarrow> (string \<times> string) list \<Rightarrow> applied_retag" where
  "applied_retag_of u ls ts = digest_pin_update.extend u
     \<lparr>ap_replacements = length (dp_services u), ar_label_rewrites = ls, ar_added_transforms = ts\<rparr>"

definition retag_update ::
  "string \<Rightarrow> string \<Rightarrow> nat list \<Rightarrow> (string \<times> tag_stream_update) list \<Rightarrow> label_approval list \<Rightarrow>
   (string \<rightharpoonup> string) option \<Rightarrow> digest_pin_update \<Rightarrow> retag_state \<times> applied_retag list \<Rightarrow>
   (retag_state \<times> applied_retag list) edit" where
  "retag_update stack_name source offsets streams approvals transforms u acc =
     edit_bind (require_update_services (dp_old_image u) (dp_services u)) (\<lambda>_.
     edit_bind (edit_fold (retag_service stack_name source offsets streams approvals transforms u) (dp_services u)
       ((fst acc)\<lparr>rs_labels := [], rs_transforms := []\<rparr>)) (\<lambda>st.
       Inr (st, snd acc @ [applied_retag_of u (rs_labels st) (rs_transforms st)])))"

text \<open>Without an update nothing is looked at.\<close>

definition render_retag_updates ::
  "(string \<Rightarrow> string) \<Rightarrow> string \<Rightarrow> string \<Rightarrow> string \<Rightarrow> yaml_services \<Rightarrow> string \<Rightarrow> digest_pin_update list \<Rightarrow>
   label_approval list \<Rightarrow> tag_stream_update list \<Rightarrow> (string \<rightharpoonup> string) option \<Rightarrow>
   (yaml_services \<times> applied_retag list) edit" where
  "render_retag_updates norm dir file stack_name services source updates approvals stream_updates transforms =
     (if updates = [] then Inr (services, [])
      else edit_bind (plan_edit (tag_stream_updates_by_service norm dir file stack_name [] stream_updates)) (\<lambda>streams.
     edit_bind (edit_fold (retag_update stack_name source (line_start_offsets source) streams approvals transforms)
       updates (\<lparr>rs_services = services, rs_seen = {}, rs_labels = [], rs_transforms = [], rs_streams = []\<rparr>, []))
       (\<lambda>(st, applied).
     let missing = unmatched_streams streams (rs_streams st)
     in edit_bind (rewrite_if (missing \<noteq> [])
          (''Tag stream update did not match digest-pin service(s): '' @ join_with '', '' missing)) (\<lambda>_.
          Inr (rs_services st, applied)))))"

section \<open>Digest unpins\<close>

record unpin_state =
  us_services :: yaml_services
  us_seen :: "(nat \<times> nat) set"
  us_transforms :: "(string \<times> string) list"

definition unpin_service ::
  "string \<Rightarrow> string \<Rightarrow> nat list \<Rightarrow> (string \<rightharpoonup> string) option \<Rightarrow> digest_unpin_update \<Rightarrow> string \<Rightarrow> unpin_state \<Rightarrow>
   unpin_state edit" where
  "unpin_service stack_name source offsets transforms u s st =
     edit_bind (rewrite_service_config (us_services st) s True) (\<lambda>config.
     edit_bind (validate_service_image s config (du_old_image u)) (\<lambda>_.
     edit_bind (unique_image_span (us_services st) s (du_old_image u) source offsets (us_seen st) (du_old_image u)) (\<lambda>seen.
     edit_bind (plan_edit (validate_service_resolved_tag_marker s (yc_comments config) (du_watch_tag u) stack_name)) (\<lambda>_.
     let fresh = fresh_node (us_services st)
     in edit_bind (prepare_service_labels fresh (us_services st) s config) (\<lambda>config1.
     edit_bind (get_service_label_value config1 (du_label_key u) s) (\<lambda>raw.
     edit_bind (plan_edit (validate_digest_unpin_include stack_name s raw u)) (\<lambda>_.
     edit_bind (set_service_label_value fresh config1 (du_label_key u) (du_label_value u) s) (\<lambda>config2.
     edit_bind (add_transform fresh config2 s (du_watch_tag u) (du_label_value u) transforms) (\<lambda>(config3, added).
     edit_bind (clear_service_resolved_tag_markers s config3) (\<lambda>config4.
       Inr (st\<lparr>us_services := set_service s (config4\<lparr>yc_image := Text (du_tag_image u), yc_image_node := None\<rparr>)
                                (us_services st),
              us_seen := seen, us_transforms := us_transforms st @ added\<rparr>)))))))))))"

record applied_unpin = applied_digest_unpin +
  au_added_transforms :: "(string \<times> string) list"

definition applied_unpin_of :: "digest_unpin_update \<Rightarrow> (string \<times> string) list \<Rightarrow> applied_unpin" where
  "applied_unpin_of u ts = digest_unpin_update.extend u
     \<lparr>au_replacements = length (du_services u), au_added_transforms = ts\<rparr>"

definition unpin_update ::
  "string \<Rightarrow> string \<Rightarrow> nat list \<Rightarrow> (string \<rightharpoonup> string) option \<Rightarrow> digest_unpin_update \<Rightarrow>
   unpin_state \<times> applied_unpin list \<Rightarrow> (unpin_state \<times> applied_unpin list) edit" where
  "unpin_update stack_name source offsets transforms u acc =
     edit_bind (require_update_services (du_old_image u) (du_services u)) (\<lambda>_.
     edit_bind (edit_fold (unpin_service stack_name source offsets transforms u) (du_services u)
       ((fst acc)\<lparr>us_transforms := []\<rparr>)) (\<lambda>st.
       Inr (st, snd acc @ [applied_unpin_of u (us_transforms st)])))"

definition render_compose_digest_unpins ::
  "string \<Rightarrow> yaml_services \<Rightarrow> string \<Rightarrow> digest_unpin_update list \<Rightarrow> (string \<rightharpoonup> string) option \<Rightarrow>
   (yaml_services \<times> applied_unpin list) edit" where
  "render_compose_digest_unpins stack_name services source updates transforms =
     edit_bind (edit_fold (unpin_update stack_name source (line_start_offsets source) transforms) updates
       (\<lparr>us_services = services, us_seen = {}, us_transforms = []\<rparr>, [])) (\<lambda>(st, applied).
       Inr (us_services st, applied))"

section \<open>Tag exclusions\<close>

definition WUD_TAG_EXCLUDE_LABEL :: string where
  "WUD_TAG_EXCLUDE_LABEL = ''wud.tag.exclude''"

text \<open>The tags and the last repository of each service, in the order the services come.\<close>

definition exclusion_tags ::
  "yaml_services \<Rightarrow> string \<Rightarrow> nat list \<Rightarrow> tag_exclusion_update \<Rightarrow> (string \<times> string list \<times> string) list \<Rightarrow>
   (string \<times> string list \<times> string) list edit" where
  "exclusion_tags services source offsets u d =
     edit_bind (service_image_scalar_rewrite services (te_service u) (te_image u) source offsets) (\<lambda>_.
       Inr (AList.update (te_service u)
         (fst (dict_get d (te_service u) ([], '''')) @ [te_tag u], te_image_repo u) d))"

record applied_exclusion =
  ax_service :: string
  ax_image_repo :: string
  ax_tags :: "string list"

definition exclude_service ::
  "(string \<Rightarrow> string list) \<Rightarrow> (string \<times> string list \<times> string) list \<Rightarrow> string \<Rightarrow>
   yaml_services \<times> applied_exclusion list \<Rightarrow> (yaml_services \<times> applied_exclusion list) edit" where
  "exclude_service existing wanted s acc =
     (let services = fst acc; tags = fst (dict_get wanted s ([], ''''))
      in edit_bind (needs (''Service '' @ s @ '' is not a mapping with direct labels.'') (service_of services s)) (\<lambda>config.
         edit_bind (reject_service_config_alias services s config) (\<lambda>_.
         edit_bind (prepare_service_labels (fresh_node services) services s config) (\<lambda>config1.
         let new_tags = sorted_set (existing s @ tags)
         in edit_bind (get_service_label_value config1 WUD_TAG_EXCLUDE_LABEL s) (\<lambda>current.
            edit_bind (rewrite_if (compose_value_has_interpolation current)
              (''Service '' @ s @ '' wud.tag.exclude label uses a Compose variable, ''
               @ ''so WUDup cannot add to it without replacing the variable with ''
               @ ''literal text. Exclude tag '' @ join_with '', '' (sorted_set tags) @ '' by hand in that label or in ''
               @ ''the variable'' @ [CHR 0x27] @ ''s value.'')) (\<lambda>_.
            let regex = compose_unescape_dollars current;
                next_regex = merge_wud_exclude_regex regex (exact_tags_regex (existing s)) (exact_tags_regex new_tags)
            in if regex = next_regex then Inr (set_service s config1 services, snd acc)
               else edit_bind (set_service_label_value (fresh_node services) config1 WUD_TAG_EXCLUDE_LABEL
                      (compose_escape_dollars next_regex) s) (\<lambda>config2.
                    Inr (set_service s config2 services, snd acc @
                      [\<lparr>ax_service = s, ax_image_repo = snd (dict_get wanted s ([], '''')), ax_tags = new_tags\<rparr>]))))))))"

definition render_compose_tag_exclusions ::
  "yaml_services \<Rightarrow> string \<Rightarrow> tag_exclusion_update list \<Rightarrow> (string \<Rightarrow> string list) \<Rightarrow>
   (yaml_services \<times> applied_exclusion list) edit" where
  "render_compose_tag_exclusions services source updates existing =
     edit_bind (edit_fold (exclusion_tags services source (line_start_offsets source)) updates []) (\<lambda>wanted.
       edit_fold (exclude_service existing wanted) (sorted_set (map fst wanted)) (services, []))"

section \<open>Repairing a tracking label\<close>

definition duplicate_includes :: "labels \<Rightarrow> bool" where
  "duplicate_includes ls =
     (case ls of
        LabelSeq q \<Rightarrow> length (filter (\<lambda>(v, _). case v of Text t \<Rightarrow> fst (label_parts t) = WUD_TAG_INCLUDE_LABEL | _ \<Rightarrow> False)
                        (ls_items q)) > 1
      | _ \<Rightarrow> False)"

text \<open>\<open>sha\<close> is the hash of a text and \<open>expected_hash\<close> the planned one, if any.\<close>

definition render_compose_tracking_label ::
  "(string \<Rightarrow> string) \<Rightarrow> yaml_services \<Rightarrow> string \<Rightarrow> string \<Rightarrow> string \<Rightarrow> string \<Rightarrow> string \<Rightarrow> string option \<Rightarrow>
   string \<Rightarrow> yaml_services edit" where
  "render_compose_tracking_label sha services source s expected_image expected_label regex expected_hash expected_transform =
     edit_bind (rewrite_if (case expected_hash of None \<Rightarrow> False | Some h \<Rightarrow> sha source \<noteq> h)
       ''Compose file changed before tracking repair; preview it again.'') (\<lambda>_.
     edit_bind (rewrite_service_config services s True) (\<lambda>config.
     edit_bind (rewrite_if (yc_image config \<noteq> Text expected_image)
       (''Service '' @ s @ '' image changed before tracking repair.'')) (\<lambda>_.
     edit_bind (prepare_service_labels (fresh_node services) services s config) (\<lambda>config1.
     edit_bind (rewrite_if (duplicate_includes (yc_labels config1))
       (''Service '' @ s @ '' has duplicate WUD tag filters; remove the duplicates before repair.'')) (\<lambda>_.
     edit_bind (get_service_label_value config1 WUD_TAG_INCLUDE_LABEL s) (\<lambda>raw.
     edit_bind (rewrite_if (compose_unescape_dollars raw \<noteq> expected_label)
       (''Service '' @ s @ '' tracking label changed before repair.'')) (\<lambda>_.
     edit_bind (set_service_label_value (fresh_node services) config1 WUD_TAG_INCLUDE_LABEL
       (compose_escape_dollars regex) s) (\<lambda>config2.
     edit_bind (service_label_present config2 WUD_TAG_TRANSFORM_LABEL) (\<lambda>present.
     edit_bind (plan_edit (add_managed_wud_tag_transform present s (image_tag expected_image) regex expected_transform))
       (\<lambda>(t, label). case label of
          None \<Rightarrow> Inr (set_service s config2 services)
        | Some v \<Rightarrow>
            edit_bind (set_service_label_value (fresh_node services) config2 WUD_TAG_TRANSFORM_LABEL v s) (\<lambda>config3.
              Inr (set_service s config3 services))))))))))))"

end
