(* ===== verification/Compose_Exact.thy ===== *)
theory Compose_Exact
  imports Compose_Rewrite
begin

text \<open>
  What a tag rewrite does to the text of a Compose file: the spans it replaces are the image
  scalars, they lie on lines of their own, and everything outside them is kept.
\<close>

section \<open>Results\<close>

lemma edit_bind_Inr: "edit_bind m f = Inr y \<longleftrightarrow> (\<exists>x. m = Inr x \<and> f x = Inr y)"
  by (cases m) (auto simp: edit_bind_def)

lemma edit_bind_simps [simp]: "edit_bind (Inl e) f = Inl e" "edit_bind (Inr x) f = f x"
  by (simp_all add: edit_bind_def)

lemma rewrite_if_Inr [simp]: "rewrite_if b msg = Inr u \<longleftrightarrow> \<not> b"
  by (simp add: rewrite_if_def)

lemma needs_Inr [simp]: "needs msg v = Inr x \<longleftrightarrow> v = Some x"
  by (cases v) (auto simp: needs_def)

lemmas edit_Inr = edit_bind_Inr

section \<open>Lines\<close>

lemma newline_ends_mem: "x \<in> set (newline_ends i s) \<longleftrightarrow> (\<exists>k < length s. s ! k = newline \<and> x = Suc (i + k))"
proof (induction s arbitrary: i)
  case (Cons c cs)
  have "(\<exists>k < length (c # cs). (c # cs) ! k = newline \<and> x = Suc (i + k)) \<longleftrightarrow>
      (c = newline \<and> x = Suc i) \<or> (\<exists>k < length cs. cs ! k = newline \<and> x = Suc (Suc i + k))"
    by (auto simp: less_Suc_eq_0_disj)
  then show ?case using Cons.IH [of "Suc i"] by auto
qed simp

lemma newline_ends_sorted: "sorted_wrt (<) (newline_ends i s)"
  by (induction i s rule: newline_ends.induct) (auto simp: newline_ends_mem)

lemma offsets_sorted: "sorted_wrt (<) (line_start_offsets s)"
  by (auto simp: line_start_offsets_def newline_ends_mem newline_ends_sorted)

lemma offsets_le: "n < length (line_start_offsets s) \<Longrightarrow> line_start_offsets s ! n \<le> length s"
  using nth_mem [of n "line_start_offsets s"] by (auto simp: line_start_offsets_def newline_ends_mem)

lemma takeWhile_until:
  assumes "a \<le> k" "k < length s" "s ! k = x"
  shows "a + length (takeWhile (\<lambda>c. c \<noteq> x) (drop a s)) \<le> k"
proof (rule ccontr)
  assume "\<not> ?thesis"
  then have "k - a < length (takeWhile (\<lambda>c. c \<noteq> x) (drop a s))" using assms(1) by simp
  from takeWhile_nth [OF this] nth_mem [OF this] have "drop a s ! (k - a) \<noteq> x"
    by (metis set_takeWhileD)
  then show False using assms by simp
qed

definition line_stop :: "string \<Rightarrow> nat \<Rightarrow> nat" where
  "line_stop s n = (let a = line_start_offsets s ! n in a + length (takeWhile (\<lambda>c. c \<noteq> newline) (drop a s)))"

lemma line_stop_less:
  assumes "n < m" and "m < length (line_start_offsets s)"
  shows "line_stop s n < line_start_offsets s ! m"
proof -
  have lt: "line_start_offsets s ! n < line_start_offsets s ! m"
    using sorted_wrt_nth_less [OF offsets_sorted assms(1)] assms(2) by simp
  have "line_start_offsets s ! m \<in> set (newline_ends 0 s)"
    using assms by (cases m) (auto simp: line_start_offsets_def)
  then obtain k where k: "k < length s" "s ! k = newline" "line_start_offsets s ! m = Suc k"
    by (auto simp: newline_ends_mem)
  with takeWhile_until [of "line_start_offsets s ! n" k s newline] lt show ?thesis
    by (auto simp: line_stop_def Let_def)
qed

lemma line_stop_length:
  "n < length (line_start_offsets s) \<Longrightarrow> line_stop s n \<le> length s"
  using offsets_le [of n s] length_takeWhile_le [of "\<lambda>c. c \<noteq> newline" "drop (line_start_offsets s ! n) s"]
  by (auto simp: line_stop_def Let_def)

lemma drop_chopped:
  "set (drop (length (if l \<noteq> [] \<and> last l = c then butlast l else l)) l) \<subseteq> {c}"
  by (cases l rule: rev_cases) auto

lemma source_line_Inr:
  assumes "source_line s (line_start_offsets s) n = Inr (a, e, body)"
  shows "n < length (line_start_offsets s)" "a = line_start_offsets s ! n" "e = line_stop s n"
    "a + length body \<le> e" "take (length body) (drop a s) = body" "newline \<notin> set body"
    "set (slice s (a + length body) e) \<subseteq> {cr}"
proof -
  let ?l = "takeWhile (\<lambda>c. c \<noteq> newline) (drop (line_start_offsets s ! n) s)"
  let ?b = "if ?l \<noteq> [] \<and> last ?l = cr then butlast ?l else ?l"
  have n: "n < length (line_start_offsets s)"
    using assms by (auto simp: source_line_def split: if_splits)
  then have e: "a = line_start_offsets s ! n" "e = a + length ?l" "body = ?b"
    using assms by (auto simp: source_line_def Let_def)
  have pre: "take (length ?l) (drop a s) = ?l" unfolding e(1) by (rule takeWhile_eq_take [symmetric])
  have len: "length body \<le> length ?l" unfolding e(3) by simp
  have body: "body = take (length body) ?l"
    unfolding e(3) by (simp add: butlast_conv_take)
  show "n < length (line_start_offsets s)" "a = line_start_offsets s ! n" "e = line_stop s n"
    "a + length body \<le> e"
    using n e len by (auto simp: line_stop_def Let_def)
  have "take (length body) (drop a s) = take (length body) (take (length ?l) (drop a s))"
    using len by simp
  then show "take (length body) (drop a s) = body" unfolding pre using body by simp
  have "set body \<subseteq> set ?l" by (subst body) (rule set_take_subset)
  then show "newline \<notin> set body" by (auto dest: set_takeWhileD)
  have "slice s (a + length body) e = drop (length body) (take (length ?l) (drop a s))"
    unfolding slice_def e(2) by (simp add: drop_take add.commute)
  also have "\<dots> = drop (length body) ?l" unfolding pre ..
  also have "set \<dots> \<subseteq> {cr}"
    unfolding e(3) by (rule drop_chopped)
  finally show "set (slice s (a + length body) e) \<subseteq> {cr}" .
qed

lemma slice_append: "a \<le> b \<Longrightarrow> b \<le> c \<Longrightarrow> slice s a c = slice s a b @ slice s b c"
proof -
  assume "a \<le> b" "b \<le> c"
  then have "slice s a c = take ((b - a) + (c - b)) (drop a s)" by (simp add: slice_def)
  also have "\<dots> = slice s a b @ slice s b c"
    unfolding take_add using \<open>a \<le> b\<close> by (simp add: slice_def)
  finally show ?thesis .
qed

lemma slice_one: "a < length s \<Longrightarrow> slice s a (Suc a) = [s ! a]"
  by (simp add: slice_def take_Suc_conv_app_nth)

lemma slice_within: "take n (drop a s) = t \<Longrightarrow> i + k \<le> n \<Longrightarrow> slice s (a + i) (a + i + k) = take k (drop i t)"
  by (auto simp: slice_def take_drop drop_drop ac_simps)

lemma line_stop_newline:
  assumes "Suc n < length (line_start_offsets s)"
  shows "line_stop s n < length s" "s ! line_stop s n = newline"
    "line_start_offsets s ! Suc n = Suc (line_stop s n)"
proof -
  let ?o = "line_start_offsets s"
  have lt: "line_stop s n < ?o ! Suc n" using line_stop_less [of n "Suc n" s] assms by simp
  then show l: "line_stop s n < length s" using offsets_le [OF assms] by simp
  have "?o ! n \<le> line_stop s n" by (simp add: line_stop_def Let_def)
  then have "drop (?o ! n) s \<noteq> []" using l by simp
  have "length (takeWhile (\<lambda>c. c \<noteq> newline) (drop (?o ! n) s)) < length (drop (?o ! n) s)"
    using l by (auto simp: line_stop_def Let_def)
  from nth_length_takeWhile [OF this] l show nl: "s ! line_stop s n = newline"
    by (simp add: line_stop_def Let_def)
  have "Suc (line_stop s n) \<in> set ?o" using l nl by (auto simp: line_start_offsets_def newline_ends_mem)
  then obtain j where j: "j < length ?o" "?o ! j = Suc (line_stop s n)" by (metis in_set_conv_nth)
  have mono: "p < q \<Longrightarrow> q < length ?o \<Longrightarrow> ?o ! p < ?o ! q" for p q
    using sorted_wrt_nth_less [OF offsets_sorted] by blast
  have "n < j" using mono [of j n] j \<open>?o ! n \<le> line_stop s n\<close> assms by (metis Suc_lessD leD less_Suc_eq_le linorder_neqE_nat not_less_eq)
  moreover have "\<not> Suc n < j" using mono [of "Suc n" j] j lt by auto
  ultimately show "?o ! Suc n = Suc (line_stop s n)" using j by (metis Suc_lessI)
qed

section \<open>The span of an image\<close>

lemma key_text_suffix:
  assumes "key_text key s = Some rest"
  shows "\<exists>p. s = p @ rest"
proof (cases s)
  case Nil
  then show ?thesis using assms by (simp add: key_text_def)
next
  case (Cons c cs)
  show ?thesis
  proof (cases "quote_char c")
    case True
    then obtain q where "drop (length key) cs = q # rest"
      using assms Cons by (auto simp: key_text_def split: if_splits list.splits)
    then have "s = (c # take (length key) cs @ [q]) @ rest"
      using Cons append_take_drop_id [of "length key" cs] by simp
    then show ?thesis by blast
  next
    case False
    then have "rest = drop (length key) s"
      using assms Cons by (simp add: key_text_def split: if_splits)
    then show ?thesis by (metis append_take_drop_id)
  qed
qed

lemma after_key_suffix: "after_key key body = Some rest \<Longrightarrow> \<exists>p. body = p @ rest"
proof -
  assume a: "after_key key body = Some rest"
  then obtain r c where k: "key_text key (dropWhile blank body) = Some r" "dropWhile blank r = c # rest"
    by (auto simp: after_key_def split: option.splits list.splits if_splits)
  obtain p where p: "dropWhile blank body = p @ r" using key_text_suffix [OF k(1)] by blast
  have "body = takeWhile blank body @ p @ takeWhile blank r @ c # rest"
    using p k(2) by (metis takeWhile_dropWhile_id)
  then show ?thesis by (metis append.assoc append_Cons append_Nil)
qed

lemma startswith_take: "startswith s p \<longleftrightarrow> take (length p) s = p"
  by (simp add: startswith_def)

lemma find_SomeD: "List.find P xs = Some x \<Longrightarrow> P x \<and> x \<in> set xs"
  by (induction xs) (auto split: if_splits)

lemma blanks_le: "k \<le> length (takeWhile blank s) \<Longrightarrow> k \<le> length s"
  using length_takeWhile_le [of blank s] by simp

lemma image_line_match_Some:
  assumes "image_line_match old body = Some (g1, g2)"
  shows "g1 + g2 + length old \<le> length body" "take (length old) (drop (g1 + g2) body) = old"
proof -
  obtain rest k q where r: "after_key ''image'' body = Some rest"
      and f: "List.find (\<lambda>(k, q). image_split old rest k q) (image_candidates rest) = Some (k, q)"
      and g: "g1 = length body - length rest + k" "g2 = length q"
    using assms by (auto simp: image_line_match_def split: option.splits prod.splits)
  have "image_split old rest k q" "k \<le> length rest"
    using find_SomeD [OF f] by (auto simp: image_candidates_def blanks_le)
  then have t: "take (length (q @ old @ q)) (drop k rest) = q @ old @ q" and kr: "k \<le> length rest"
    by (simp_all add: image_split_def Let_def startswith_take)
  obtain p where p: "body = p @ rest" using after_key_suffix [OF r] by blast
  have d: "drop (g1 + g2) body = drop (length q) (drop k rest)" unfolding p g by (simp add: add.commute)
  have "length (q @ old @ q) \<le> length (drop k rest)" using t by (metis length_take min.cobounded1)
  then show "g1 + g2 + length old \<le> length body" unfolding p g using kr by simp
  have "take (length old) (drop (length q) (drop k rest)) =
      take (length old) (drop (length q) (take (length (q @ old @ q)) (drop k rest)))"
    by (simp add: drop_take)
  then show "take (length old) (drop (g1 + g2) body) = old" unfolding d t by simp
qed

lemma quote_not_blank: "quote_char c \<Longrightarrow> \<not> blank c"
  by (auto simp: quote_char_def blank_def tab_def)

text \<open>The key of a line is read without looking at what follows its colon.\<close>

lemma key_text_image:
  assumes "key_text ''image'' s = Some rest"
  shows "\<exists>c p. s = c # p @ rest \<and> \<not> blank c \<and> (\<forall>r. key_text ''image'' (c # p @ r) = Some r)"
proof (cases s)
  case Nil
  then show ?thesis using assms by (simp add: key_text_def)
next
  case (Cons c cs)
  show ?thesis
  proof (cases "quote_char c")
    case True
    then obtain q where q: "startswith cs ''image''" "drop (length ''image'') cs = q # rest" "quote_char q"
      using assms Cons unfolding key_text_def by (auto split: if_splits list.splits)
    then have cs: "cs = ''image'' @ q # rest"
      using append_take_drop_id [of "length ''image''" cs] unfolding startswith_def by simp
    have "key_text ''image'' (c # (''image'' @ [q]) @ r) = Some r" for r
      using True q(3) by (simp add: key_text_def startswith_def)
    then show ?thesis
      using Cons cs True quote_not_blank by (intro exI [of _ c] exI [of _ "''image'' @ [q]"]) simp
  next
    case False
    then have "startswith s ''image''" "rest = drop (length ''image'') s"
      using assms Cons unfolding key_text_def by (auto split: if_splits)
    then have "s = ''image'' @ rest"
      using append_take_drop_id [of "length ''image''" s] unfolding startswith_def by simp
    then show ?thesis
      by (intro exI [of _ "CHR ''i''"] exI [of _ "''mage''"])
        (simp add: key_text_def startswith_def quote_char_def blank_def tab_def)
  qed
qed

lemma dropWhile_run: "\<forall>c \<in> set bs. P c \<Longrightarrow> \<not> P c \<Longrightarrow> dropWhile P (bs @ c # r) = c # r"
  by (induction bs) auto

lemma after_key_prefix:
  assumes "after_key ''image'' body = Some rest"
  shows "\<exists>p. body = p @ rest \<and> (\<forall>r. after_key ''image'' (p @ r) = Some r)"
proof -
  obtain r1 where k: "key_text ''image'' (dropWhile blank body) = Some r1" "dropWhile blank r1 = CHR '':'' # rest"
    using assms by (auto simp: after_key_def split: option.splits list.splits if_splits)
  obtain c p where p: "dropWhile blank body = c # p @ r1" "\<not> blank c"
      "\<forall>r. key_text ''image'' (c # p @ r) = Some r"
    using key_text_image [OF k(1)] by blast
  let ?b1 = "takeWhile blank body" and ?b2 = "takeWhile blank r1"
  have b: "\<forall>c \<in> set ?b1. blank c" "\<forall>c \<in> set ?b2. blank c" by (auto dest: set_takeWhileD)
  have colon: "\<not> blank (CHR '':'')" by (simp add: blank_def tab_def)
  have "body = ?b1 @ c # p @ ?b2 @ CHR '':'' # rest"
    using p(1) k(2) by (metis takeWhile_dropWhile_id)
  moreover have "after_key ''image'' (?b1 @ c # p @ ?b2 @ CHR '':'' # r) = Some r" for r
    using dropWhile_run [OF b(1) p(2)] p(3) dropWhile_run [OF b(2) colon]
    by (simp add: after_key_def)
  ultimately show ?thesis by (intro exI [of _ "?b1 @ c # p @ ?b2 @ '':''"]) simp
qed

text \<open>
  How an image stands on a line, read from the line alone: the \<open>image\<close> key with its colon, blanks,
  the image between nothing or a pair of quotes, and at most a comment.
\<close>

definition bare_image_key :: "string \<Rightarrow> bool" where
  "bare_image_key p \<longleftrightarrow> after_key ''image'' p = Some ''''"

definition image_written :: "string \<Rightarrow> string \<Rightarrow> nat \<Rightarrow> bool" where
  "image_written body img g \<longleftrightarrow>
     (\<exists>p ks q tl. body = p @ ks @ q @ img @ q @ tl \<and> bare_image_key p \<and> list_all blank ks \<and>
        (q = '''' \<or> (\<exists>d. q = [d] \<and> quote_char d)) \<and> comment_tail tl \<and> g = length (p @ ks @ q))"

lemma bare_image_key_append: "bare_image_key p \<Longrightarrow> after_key ''image'' (p @ r) = Some r"
  using after_key_prefix [of p "''''"] by (auto simp: bare_image_key_def)

lemma after_key_image: "after_key ''image'' body = Some rest \<Longrightarrow> \<exists>p. body = p @ rest \<and> bare_image_key p"
  using after_key_prefix [of body rest] unfolding bare_image_key_def by (metis append_Nil2)

lemma image_match_written:
  assumes "image_line_match old body = Some (g1, g2)"
  shows "image_written body old (g1 + g2)"
proof -
  obtain rest k q where r: "after_key ''image'' body = Some rest"
      and f: "List.find (\<lambda>(k, q). image_split old rest k q) (image_candidates rest) = Some (k, q)"
      and g: "g1 = length body - length rest + k" "g2 = length q"
    using assms by (auto simp: image_line_match_def split: option.splits prod.splits)
  obtain p where p: "body = p @ rest" "bare_image_key p" using after_key_image [OF r] by blast
  have cand: "image_split old rest k q" "k \<le> length (takeWhile blank rest)" "q \<in> set (quote_options (drop k rest))"
    using find_SomeD [OF f] by (auto simp: image_candidates_def)
  have k: "length (take k rest) = k" using blanks_le [OF cand(2)] by simp
  have blanks: "list_all blank (take k rest)"
    using cand(2) take_append [of k "takeWhile blank rest" "dropWhile blank rest"]
    by (auto simp: list_all_iff dest!: in_set_takeD set_takeWhileD)
  define tl' where "tl' = drop (length (q @ old @ q)) (drop k rest)"
  have tail: "comment_tail tl'" and start: "take (length (q @ old @ q)) (drop k rest) = q @ old @ q"
    using cand(1) by (simp_all add: image_split_def Let_def startswith_take tl'_def)
  then have "drop k rest = (q @ old @ q) @ tl'"
    unfolding tl'_def by (metis append_take_drop_id)
  then have rest: "rest = take k rest @ q @ old @ q @ tl'"
    by (metis append_assoc append_take_drop_id)
  have q: "q = [] \<or> (\<exists>d. q = [d] \<and> quote_char d)"
    using cand(3) by (auto simp: quote_options_def split: list.splits if_splits)
  have body: "body = p @ take k rest @ q @ old @ q @ tl'"
    using p(1) rest by metis
  moreover have "g1 + g2 = length (p @ take k rest @ q)"
    using p(1) k g by simp
  ultimately show ?thesis
    unfolding image_written_def using p(2) blanks q tail by blast
qed

lemma written_image_match:
  assumes p: "bare_image_key p" and ks: "list_all blank ks" and q: "q = '''' \<or> (\<exists>d. q = [d] \<and> quote_char d)"
    and tail: "comment_tail rst" and new: "new = c # cs" "\<not> blank c" "\<not> quote_char c"
  shows "image_line_match new (p @ ks @ q @ new @ q @ rst) = Some (length p + length ks, length q)"
proof -
  let ?rest = "ks @ q @ new @ q @ rst"
  have run: "takeWhile blank ?rest = ks"
    using ks q new(1,2) quote_not_blank by (auto simp: takeWhile_append2 list_all_iff)
  have first: "hd (image_candidates ?rest) = (length ks, q)" "image_candidates ?rest \<noteq> []"
    using q new(1,3) unfolding image_candidates_def run by (auto simp: quote_options_def)
  have "image_split new ?rest (length ks) q"
    using tail by (simp add: image_split_def startswith_take)
  then have "List.find (\<lambda>(k, q). image_split new ?rest k q) (image_candidates ?rest) = Some (length ks, q)"
    using first by (cases "image_candidates ?rest") auto
  then show ?thesis
    unfolding image_line_match_def using bare_image_key_append [OF p, of ?rest] by simp
qed

lemma value_line_Some:
  assumes "value_line old body = Some k"
  shows "k + length old \<le> length body" "take (length old) (drop k body) = old" "list_all blank (take k body)"
proof -
  have k: "startswith (drop k body) old" "k \<le> length (takeWhile blank body)"
    using find_SomeD [OF assms [unfolded value_line_def]] by auto
  then show t: "take (length old) (drop k body) = old" by (simp add: startswith_take)
  have "length old \<le> length (drop k body)" using t by (metis length_take min.cobounded1)
  moreover have "k \<le> length body" using k(2) by (rule blanks_le)
  ultimately show "k + length old \<le> length body" by simp
  have "take k body = take k (takeWhile blank body)"
    using k(2) take_append [of k "takeWhile blank body" "dropWhile blank body"] by simp
  then show "list_all blank (take k body)"
    by (simp add: list_all_iff) (metis in_set_takeD set_takeWhileD)
qed

text \<open>What may stand between the key line and the image of a plain scalar on the next line.\<close>

definition layout_char :: "char \<Rightarrow> bool" where
  "layout_char c = (blank c \<or> c = newline \<or> c = cr)"

text \<open>The lines an image occupies, and where its span lies on them.\<close>

definition image_lines :: "service_config \<Rightarrow> nat set" where
  "image_lines config =
     fst ` set (case yc_image_value_at config of None \<Rightarrow> [] | Some p \<Rightarrow> [p]) \<union>
     fst ` set (case yc_image_key_at config of None \<Rightarrow> [] | Some p \<Rightarrow> [p])"

definition on_lines :: "string \<Rightarrow> nat \<Rightarrow> nat \<Rightarrow> nat \<Rightarrow> nat \<Rightarrow> bool" where
  "on_lines s first final a b =
     (first \<le> final \<and> final < length (line_start_offsets s) \<and> line_start_offsets s ! first \<le> a \<and>
      a \<le> b \<and> b \<le> line_stop s final)"

definition holds_image :: "string \<Rightarrow> string \<Rightarrow> nat \<Rightarrow> nat \<Rightarrow> string \<Rightarrow> bool" where
  "holds_image s old a b pre =
     (\<exists>gap. slice s a b = gap @ old \<and>
        (gap = '''' \<and> pre = '''' \<or> list_all layout_char gap \<and> pre \<in> {'''', '' ''}))"

lemma single_line_span:
  assumes "source_line s (line_start_offsets s) n = Inr (start, e, body)"
    and "g + length old \<le> length body" and "take (length old) (drop g body) = old"
  shows "on_lines s n n (start + g) (start + g + length old)"
    "slice s (start + g) (start + g + length old) = old"
proof -
  note l = source_line_Inr [OF assms(1)]
  show "on_lines s n n (start + g) (start + g + length old)"
    using l assms(2) unfolding on_lines_def by simp
  have "slice s (start + g) (start + g + length old) = take (length old) (drop g body)"
    by (rule slice_within [OF l(5) assms(2)])
  then show "slice s (start + g) (start + g + length old) = old" using assms(3) by simp
qed

lemma two_line_span:
  assumes key: "source_line s (line_start_offsets s) n = Inr (start, e, body)"
    and val: "source_line s (line_start_offsets s) (Suc n) = Inr (start', e', body')"
    and k: "k + length old \<le> length body'" "take (length old) (drop k body') = old" "list_all blank (take k body')"
  shows "on_lines s n (Suc n) (start + length body) (start' + k + length old)"
    "\<exists>gap. slice s (start + length body) (start' + k + length old) = gap @ old \<and> list_all layout_char gap"
proof -
  note l = source_line_Inr [OF key] and l' = source_line_Inr [OF val]
  have nl: "e < length s" "s ! e = newline" "start' = Suc e"
    using line_stop_newline [of n s] l l' by auto
  have le: "start + length body \<le> e" by (rule l(4))
  show "on_lines s n (Suc n) (start + length body) (start' + k + length old)"
    using l l' nl le k(1) unfolding on_lines_def by simp
  have img: "slice s (start' + k) (start' + k + length old) = old"
    using slice_within [OF l'(5) k(1)] k(2) by simp
  have pre: "slice s start' (start' + k) = take k body'"
    using slice_within [OF l'(5), of 0 k] k(1) by simp
  have "slice s (start + length body) (start' + k + length old) =
      slice s (start + length body) e @ slice s e start' @ slice s start' (start' + k) @ old"
    using slice_append [of "start + length body" e "start' + k + length old" s]
      slice_append [of e start' "start' + k + length old" s]
      slice_append [of start' "start' + k" "start' + k + length old" s] le nl(3) img by simp
  also have "slice s e start' = [newline]" unfolding nl(3) using slice_one [OF nl(1)] nl(2) by simp
  finally have "slice s (start + length body) (start' + k + length old) =
      (slice s (start + length body) e @ newline # take k body') @ old" unfolding pre by simp
  moreover have "list_all layout_char (slice s (start + length body) e)"
    using l(7) by (auto simp: list_all_iff layout_char_def)
  then have "list_all layout_char (slice s (start + length body) e @ newline # take k body')"
    using k(3) by (auto simp: list_all_iff layout_char_def)
  ultimately show "\<exists>gap. slice s (start + length body) (start' + k + length old) = gap @ old \<and>
      list_all layout_char gap" by blast
qed

lemma multiline_Some:
  assumes "multiline_plain_image_scalar_rewrite s offsets kl vl old = Inr (Some (a, b, pre))"
  obtains ks ke kb start e body k i trailing where "source_line s offsets kl = Inr (ks, ke, kb)" "vl = Suc kl"
    "source_line s offsets vl = Inr (start, e, body)" "value_line old body = Some k"
    "bare_key_line kb = Some (i, trailing)" "pre = (if trailing > 0 then '''' else '' '')"
    "a = ks + length kb" "b = start + k + length old"
proof -
  have g: "\<not> (kl \<ge> length offsets \<or> vl \<noteq> Suc kl)"
    using assms by (auto simp: multiline_plain_image_scalar_rewrite_def split: if_splits)
  obtain ks ke kb where k: "source_line s offsets kl = Inr (ks, ke, kb)"
    using assms g by (auto simp: multiline_plain_image_scalar_rewrite_def edit_Inr)
  obtain indent trailing where key: "bare_key_line kb = Some (indent, trailing)"
    using assms g k by (auto simp: multiline_plain_image_scalar_rewrite_def split: option.splits)
  obtain start e body where v: "source_line s offsets vl = Inr (start, e, body)"
    using assms g k key by (auto simp: multiline_plain_image_scalar_rewrite_def edit_Inr)
  obtain i where val: "value_line old body = Some i"
    using assms g k key v by (auto simp: multiline_plain_image_scalar_rewrite_def split: option.splits)
  have "a = ks + length kb \<and> b = start + i + length old \<and> pre = (if trailing > 0 then '''' else '' '')"
    using assms g k key v val
    by (auto simp: multiline_plain_image_scalar_rewrite_def edit_Inr split: if_splits)
  with that [OF k _ v val key] g show ?thesis by blast
qed

text \<open>The two places an image may stand at: on the line of its value after the key, or, as a plain scalar,
  on the line after a bare key.\<close>

definition one_line_place :: "string \<Rightarrow> service_config \<Rightarrow> string \<Rightarrow> nat \<Rightarrow> nat \<Rightarrow> string \<Rightarrow> bool" where
  "one_line_place s config img a b pre \<longleftrightarrow>
     (\<exists>n col start e body g. yc_image_value_at config = Some (n, col) \<and>
        source_line s (line_start_offsets s) n = Inr (start, e, body) \<and> image_written body img g \<and>
        a = start + g \<and> b = start + g + length img \<and> pre = '''')"

definition two_line_place :: "string \<Rightarrow> service_config \<Rightarrow> string \<Rightarrow> nat \<Rightarrow> nat \<Rightarrow> string \<Rightarrow> bool" where
  "two_line_place s config img a b pre \<longleftrightarrow>
     (\<exists>n kcol col ks ke p sp start e body ind tl. yc_image_key_at config = Some (n, kcol) \<and>
        yc_image_value_at config = Some (Suc n, col) \<and>
        source_line s (line_start_offsets s) n = Inr (ks, ke, p @ sp) \<and> bare_image_key p \<and> list_all blank sp \<and>
        source_line s (line_start_offsets s) (Suc n) = Inr (start, e, body) \<and>
        body = ind @ img @ tl \<and> list_all blank ind \<and> list_all blank tl \<and>
        a = ks + length (p @ sp) \<and> b = start + length ind + length img \<and>
        pre = (if sp = '''' then '' '' else ''''))"

lemma value_line_parts:
  assumes "value_line old body = Some k"
  shows "\<exists>ind tl. body = ind @ old @ tl \<and> list_all blank ind \<and> list_all blank tl \<and> k = length ind"
proof -
  note v = value_line_Some [OF assms]
  have t: "list_all blank (drop (length old) (drop k body))"
    using find_SomeD [OF assms [unfolded value_line_def]] by auto
  have "body = take k body @ old @ drop (length old) (drop k body)"
    using v(2) by (metis append_take_drop_id)
  then show ?thesis using v(1,3) t by (intro exI [of _ "take k body"] exI [of _ "drop (length old) (drop k body)"]) simp
qed

lemma image_place:
  assumes "service_image_scalar_rewrite services service old s (line_start_offsets s) = Inr (a, b, pre)"
  obtains config where "service_of services service = Some config" "yc_image config = Text old" "CHR ''$'' \<notin> set old"
    "one_line_place s config old a b pre \<or> two_line_place s config old a b pre"
proof -
  obtain config vl col start e body where c: "service_of services service = Some config"
      and img: "checked_image service old config = Inr ()"
      and vat: "yc_image_value_at config = Some (vl, col)"
      and line: "source_line s (line_start_offsets s) vl = Inr (start, e, body)"
      and res: "(case image_line_match old body of
         Some (g1, g2) \<Rightarrow> Inr (start + g1 + g2, start + g1 + g2 + length old, '''')
       | None \<Rightarrow>
           edit_bind (needs (''Service '' @ service @ '' image source location is unavailable.'')
             (yc_image_key_at config)) (\<lambda>(key_line_no, _).
           edit_bind (multiline_plain_image_scalar_rewrite s (line_start_offsets s) key_line_no vl old)
             (needs (''Service '' @ service @ '' image uses unsupported YAML syntax for automatic rewrite.'')))) =
         Inr (a, b, pre)"
    using assms unfolding service_image_scalar_rewrite_def by (auto simp: edit_Inr split: prod.splits)
  have itext: "yc_image config = Text old" "CHR ''$'' \<notin> set old"
    using img by (auto simp: checked_image_def edit_Inr split: scalar.splits)
  show ?thesis
  proof (cases "image_line_match old body")
    case (Some g)
    obtain g1 g2 where g: "g = (g1, g2)" by (cases g)
    have "one_line_place s config old a b pre"
      using res Some g vat line image_match_written [OF Some [unfolded g]] unfolding one_line_place_def
      by (intro exI [of _ vl] exI [of _ col] exI [of _ start] exI [of _ e] exI [of _ body] exI [of _ "g1 + g2"]) auto
    then show ?thesis using that [OF c itext] by simp
  next
    case None
    then obtain kl kcol where kat: "yc_image_key_at config = Some (kl, kcol)"
        and multi: "multiline_plain_image_scalar_rewrite s (line_start_offsets s) kl vl old = Inr (Some (a, b, pre))"
      using res by (auto simp: edit_Inr)
    obtain ks ke kb k i trailing where kline: "source_line s (line_start_offsets s) kl = Inr (ks, ke, kb)"
        and v: "vl = Suc kl" and val: "value_line old body = Some k" and key: "bare_key_line kb = Some (i, trailing)"
        and ab: "pre = (if trailing > 0 then '''' else '' '')" "a = ks + length kb" "b = start + k + length old"
      by (rule multiline_Some [OF multi]) (use line in auto)
    obtain sp where sp: "after_key ''image'' kb = Some sp" "list_all blank sp" "trailing = length sp"
      using key by (auto simp: bare_key_line_def split: option.splits if_splits)
    obtain p where p: "kb = p @ sp" "bare_image_key p" using after_key_image [OF sp(1)] by blast
    obtain ind tl where body: "body = ind @ old @ tl" "list_all blank ind" "list_all blank tl" "k = length ind"
      using value_line_parts [OF val] by blast
    have "two_line_place s config old a b pre"
      using kat vat v kline p sp(2,3) line body ab unfolding two_line_place_def by auto
    then show ?thesis using that [OF c itext] by simp
  qed
qed

lemma image_span:
  assumes "service_image_scalar_rewrite services service old s (line_start_offsets s) = Inr (a, b, pre)"
  obtains config first final where "service_of services service = Some config" "yc_image config = Text old"
    "on_lines s first final a b" "{first, final} \<subseteq> image_lines config" "final \<in> {first, Suc first}"
    "holds_image s old a b pre"
proof -
  obtain config vl col start e body where c: "service_of services service = Some config"
      and img: "checked_image service old config = Inr ()"
      and vat: "yc_image_value_at config = Some (vl, col)"
      and line: "source_line s (line_start_offsets s) vl = Inr (start, e, body)"
      and res: "(case image_line_match old body of
         Some (g1, g2) \<Rightarrow> Inr (start + g1 + g2, start + g1 + g2 + length old, '''')
       | None \<Rightarrow>
           edit_bind (needs (''Service '' @ service @ '' image source location is unavailable.'')
             (yc_image_key_at config)) (\<lambda>(key_line_no, _).
           edit_bind (multiline_plain_image_scalar_rewrite s (line_start_offsets s) key_line_no vl old)
             (needs (''Service '' @ service @ '' image uses unsupported YAML syntax for automatic rewrite.'')))) =
         Inr (a, b, pre)"
    using assms unfolding service_image_scalar_rewrite_def by (auto simp: edit_Inr split: prod.splits)
  have itext: "yc_image config = Text old"
    using img by (auto simp: checked_image_def edit_Inr split: scalar.splits)
  have vl: "vl \<in> image_lines config" using vat by (simp add: image_lines_def)
  show ?thesis
  proof (cases "image_line_match old body")
    case (Some g)
    obtain g1 g2 where g: "g = (g1, g2)" by (cases g)
    note m = image_line_match_Some [OF Some [unfolded g]]
    have ab: "a = start + (g1 + g2)" "b = start + (g1 + g2) + length old" "pre = ''''"
      using res Some g by simp_all
    note sp = single_line_span [OF line m(1) m(2)]
    have "holds_image s old a b pre"
      unfolding holds_image_def ab by (rule exI [of _ "''''"]) (simp add: sp(2))
    then show ?thesis using that [OF c itext, of vl vl] sp(1) vl ab by simp
  next
    case None
    then obtain kl kcol where kat: "yc_image_key_at config = Some (kl, kcol)"
        and multi: "multiline_plain_image_scalar_rewrite s (line_start_offsets s) kl vl old = Inr (Some (a, b, pre))"
      using res by (auto simp: edit_Inr)
    obtain ks ke kb k where kline: "source_line s (line_start_offsets s) kl = Inr (ks, ke, kb)"
        and v: "vl = Suc kl" and val: "value_line old body = Some k"
        and ab: "a = ks + length kb" "b = start + k + length old" "pre \<in> {'''', '' ''}"
      by (rule multiline_Some [OF multi]) (use line in \<open>auto split: if_splits\<close>)
    note sp = two_line_span [OF kline line [unfolded v] value_line_Some [OF val]]
    have "holds_image s old a b pre"
      using sp(2) ab unfolding holds_image_def by auto
    moreover have "kl \<in> image_lines config" using kat by (simp add: image_lines_def)
    ultimately show ?thesis using that [OF c itext, of kl vl] sp(1) vl v ab by simp
  qed
qed

section \<open>Replacing spans\<close>

text \<open>The reference: one pass from left to right.\<close>

fun splice :: "string \<Rightarrow> nat \<Rightarrow> text_edit list \<Rightarrow> string" where
  "splice s i [] = drop i s"
| "splice s i ((a, b, t) # es) = slice s i a @ t @ splice s b es"

fun in_order :: "string \<Rightarrow> nat \<Rightarrow> text_edit list \<Rightarrow> bool" where
  "in_order s i [] = (i \<le> length s)"
| "in_order s i ((a, b, t) # es) = (i \<le> a \<and> a \<le> b \<and> in_order s b es)"

lemma in_order_length: "in_order s i es \<Longrightarrow> i \<le> length s"
  by (induction s i es rule: in_order.induct) auto

lemma apply_edits_splice: "in_order s i es \<Longrightarrow> foldl apply_edit s (rev es) = take i s @ splice s i es"
proof (induction s i es rule: in_order.induct)
  case (2 s i a b t es)
  then have o: "i \<le> a" "a \<le> b" "b \<le> length s" by (auto dest: in_order_length)
  have "foldl apply_edit s (rev ((a, b, t) # es)) = apply_edit (take b s @ splice s b es) (a, b, t)"
    using 2 by simp
  also have "\<dots> = take a s @ t @ splice s b es" using o by (simp add: apply_edit_def min_def)
  also have "take a s = take i s @ slice s i a"
    using o take_add [of i "a - i" s] by (simp add: slice_def)
  finally show ?case by simp
qed simp

definition apart :: "text_edit \<Rightarrow> text_edit \<Rightarrow> bool" where
  "apart e f = (fst (snd e) < fst f \<or> fst (snd f) < fst e)"

definition well_placed :: "string \<Rightarrow> text_edit list \<Rightarrow> bool" where
  "well_placed s es =
     ((\<forall>(a, b, t) \<in> set es. a \<le> b \<and> b \<le> length s) \<and> distinct es \<and>
      (\<forall>e \<in> set es. \<forall>f \<in> set es. e \<noteq> f \<longrightarrow> apart e f))"

lemma sorted_in_order:
  assumes "sorted (map fst es)" and "well_placed s es" and "\<forall>e \<in> set es. i \<le> fst e" and "i \<le> length s"
  shows "in_order s i es"
  using assms
proof (induction es arbitrary: i)
  case (Cons e es)
  obtain a b t where e: "e = (a, b, t)" by (cases e)
  have "b \<le> fst f" if "f \<in> set es" for f
  proof -
    obtain a' b' t' where f: "f = (a', b', t')" by (cases f)
    have "a \<le> a'" "a' \<le> b'" "e \<noteq> f" using Cons.prems that e f by (auto simp: well_placed_def)
    moreover have "apart e f" using Cons.prems(2) that \<open>e \<noteq> f\<close> by (simp add: well_placed_def)
    ultimately show ?thesis using e f by (auto simp: apart_def)
  qed
  moreover have "well_placed s es" using Cons.prems(2) by (auto simp: well_placed_def)
  moreover have "a \<le> b" "b \<le> length s" "i \<le> a" using Cons.prems e by (auto simp: well_placed_def)
  ultimately have "in_order s b es" using Cons.IH [of b] Cons.prems(1) by simp
  then show ?case using e \<open>a \<le> b\<close> \<open>i \<le> a\<close> by simp
qed simp

definition by_start :: "text_edit list \<Rightarrow> text_edit list" where
  "by_start es = sort_key fst (rev es)"

lemma well_placed_in_order: "well_placed s es \<Longrightarrow> in_order s 0 (by_start es)"
  unfolding by_start_def by (rule sorted_in_order) (auto simp: well_placed_def)

text \<open>Where the spans do not overlap, replacing from the end gives the left-to-right reading.\<close>

lemma apply_by_start_desc:
  "well_placed s es \<Longrightarrow> foldl apply_edit s (by_start_desc es) = splice s 0 (by_start es)"
  using apply_edits_splice [OF well_placed_in_order] by (simp add: by_start_desc_def by_start_def)

section \<open>What a tag rewrite selects\<close>

definition span_of :: "text_edit \<Rightarrow> nat \<times> nat" where
  "span_of e = (fst e, fst (snd e))"

text \<open>The edit of one service for one update.\<close>

definition edits_image :: "yaml_services \<Rightarrow> string \<Rightarrow> tag_update \<times> string \<Rightarrow> text_edit \<Rightarrow> bool" where
  "edits_image services s us e =
     (\<exists>a b pre. e = (a, b, pre @ tu_new_image (fst us)) \<and>
        service_image_scalar_rewrite services (snd us) (tu_old_image (fst us)) s (line_start_offsets s) = Inr (a, b, pre))"

definition selected :: "tag_update list \<Rightarrow> (tag_update \<times> string) list" where
  "selected updates = concat (map (\<lambda>u. map (Pair u) (tu_services u)) updates)"

definition spans_ok :: "text_edit list \<times> (nat \<times> nat) set \<Rightarrow> bool" where
  "spans_ok acc = (distinct (map span_of (fst acc)) \<and> set (map span_of (fst acc)) = snd acc)"

lemma collect_service_spans_ok:
  assumes "collect_service_spans services s (line_start_offsets s) u ss acc = Inr acc'" and "spans_ok acc"
  shows "spans_ok acc' \<and> (\<exists>es. fst acc' = fst acc @ es \<and> list_all2 (edits_image services s) (map (Pair u) ss) es)"
  using assms
proof (induction ss arbitrary: acc)
  case (Cons x ss)
  obtain a b pre seen where r: "service_image_scalar_rewrite services x (tu_old_image u) s (line_start_offsets s) = Inr (a, b, pre)"
      and d: "reject_duplicate_image_span (snd acc) (a, b) x (tu_old_image u) = Inr seen"
      and next_: "collect_service_spans services s (line_start_offsets s) u ss
        (fst acc @ [(a, b, pre @ tu_new_image u)], seen) = Inr acc'"
    using Cons.prems(1) by (auto simp: edit_Inr unique_image_rewrite_def)
  have n: "(a, b) \<notin> snd acc" "seen = insert (a, b) (snd acc)"
    using d by (auto simp: reject_duplicate_image_span_def split: if_splits)
  let ?e = "(a, b, pre @ tu_new_image u)"
  have "spans_ok (fst acc @ [?e], seen)" using Cons.prems(2) n by (auto simp: spans_ok_def span_of_def)
  from Cons.IH [OF next_ this] obtain es where
    "spans_ok acc'" "fst acc' = fst acc @ ?e # es" "list_all2 (edits_image services s) (map (Pair u) ss) es"
    by auto
  moreover have "edits_image services s (u, x) ?e" using r by (auto simp: edits_image_def)
  ultimately show ?case by (intro conjI exI [of _ "?e # es"]) auto
qed (auto intro: exI [of _ "[]"])

lemma collect_tag_spans_ok:
  assumes "collect_tag_spans services s (line_start_offsets s) us acc = Inr acc'" and "spans_ok acc"
  shows "spans_ok acc' \<and> (\<exists>es. fst acc' = fst acc @ es \<and> list_all2 (edits_image services s) (selected us) es)"
  using assms
proof (induction us arbitrary: acc)
  case (Cons u us)
  obtain acc1 where c: "collect_service_spans services s (line_start_offsets s) u (tu_services u) acc = Inr acc1"
      and next_: "collect_tag_spans services s (line_start_offsets s) us acc1 = Inr acc'"
    using Cons.prems(1) by (auto simp: edit_Inr)
  from collect_service_spans_ok [OF c Cons.prems(2)] obtain es where
    1: "spans_ok acc1" "fst acc1 = fst acc @ es" "list_all2 (edits_image services s) (map (Pair u) (tu_services u)) es"
    by auto
  from Cons.IH [OF next_ 1(1)] obtain es' where
    2: "spans_ok acc'" "fst acc' = fst acc1 @ es'" "list_all2 (edits_image services s) (selected us) es'" by auto
  show ?case
    using 1 2 by (intro conjI exI [of _ "es @ es'"]) (auto simp: selected_def intro: list_all2_appendI)
qed (auto simp: selected_def intro: exI [of _ "[]"])

text \<open>Two services never share an image line.\<close>

definition lines_apart :: "yaml_services \<Rightarrow> string list \<Rightarrow> bool" where
  "lines_apart services ss =
     (\<forall>x \<in> set ss. \<forall>y \<in> set ss. \<forall>c d. x \<noteq> y \<longrightarrow> service_of services x = Some c \<longrightarrow>
        service_of services y = Some d \<longrightarrow> image_lines c \<inter> image_lines d = {})"

lemma on_lines_apart:
  assumes "on_lines s f l a b" "on_lines s f' l' a' b'" "l \<in> {f, Suc f}" "l' \<in> {f', Suc f'}"
    and "{f, l} \<inter> {f', l'} = {}"
  shows "b < a' \<or> b' < a"
proof -
  have "l < f' \<or> l' < f" using assms(3-5) by auto
  then show ?thesis
    using assms(1,2) line_stop_less [of l f' s] line_stop_less [of l' f s] by (auto simp: on_lines_def)
qed

lemma list_all2_in: "list_all2 P xs ys \<Longrightarrow> y \<in> set ys \<Longrightarrow> \<exists>x \<in> set xs. P x y"
  by (auto simp: list_all2_conv_all_nth in_set_conv_nth) (metis nth_mem)

lemma selected_edits_placed:
  assumes all: "list_all2 (edits_image services s) (selected us) es"
    and d: "distinct (map span_of es)" and apart: "lines_apart services (concat (map tu_services us))"
  shows "well_placed s es"
proof -
  have one: "\<exists>u x. (u, x) \<in> set (selected us) \<and> edits_image services s (u, x) e" if "e \<in> set es" for e
    using list_all2_in [OF all that] by auto
  have in_us: "x \<in> set (concat (map tu_services us))" if "(u, x) \<in> set (selected us)" for u x
    using that by (auto simp: selected_def)
  have sep: "apart e f" if ef: "e \<in> set es" "f \<in> set es" "e \<noteq> f" for e f
  proof -
    obtain u x v y where ux: "(u, x) \<in> set (selected us)" "edits_image services s (u, x) e"
        and vy: "(v, y) \<in> set (selected us)" "edits_image services s (v, y) f"
      using one [OF ef(1)] one [OF ef(2)] by blast
    have span: "span_of e \<noteq> span_of f" using d ef by (auto simp: distinct_map inj_on_def)
    from ux(2) obtain a b pre where e: "e = (a, b, pre @ tu_new_image u)"
        and re: "service_image_scalar_rewrite services x (tu_old_image u) s (line_start_offsets s) = Inr (a, b, pre)"
      by (auto simp: edits_image_def)
    from vy(2) obtain a' b' pre' where f: "f = (a', b', pre' @ tu_new_image v)"
        and rf: "service_image_scalar_rewrite services y (tu_old_image v) s (line_start_offsets s) = Inr (a', b', pre')"
      by (auto simp: edits_image_def)
    from re obtain c p q where c: "service_of services x = Some c" "yc_image c = Text (tu_old_image u)"
        "on_lines s p q a b" "{p, q} \<subseteq> image_lines c" "q \<in> {p, Suc p}" by (rule image_span)
    from rf obtain c' p' q' where c': "service_of services y = Some c'" "yc_image c' = Text (tu_old_image v)"
        "on_lines s p' q' a' b'" "{p', q'} \<subseteq> image_lines c'" "q' \<in> {p', Suc p'}" by (rule image_span)
    have "x \<noteq> y"
    proof
      assume "x = y"
      then have "tu_old_image u = tu_old_image v" using c c' by simp
      then have "(a, b) = (a', b')" using re rf \<open>x = y\<close> by simp
      then show False using span e f by (simp add: span_of_def)
    qed
    then have "image_lines c \<inter> image_lines c' = {}"
      using apart in_us ux(1) vy(1) c(1) c'(1) unfolding lines_apart_def by blast
    then have "{p, q} \<inter> {p', q'} = {}" using c(4) c'(4) by blast
    from on_lines_apart [OF c(3) c'(3) c(5) c'(5) this] show ?thesis using e f by (simp add: apart_def)
  qed
  have inside: "a \<le> b \<and> b \<le> length s" if abt: "(a, b, t) \<in> set es" for a b t
  proof -
    obtain u :: tag_update and x pre where r: "service_image_scalar_rewrite services x (tu_old_image u) s (line_start_offsets s) = Inr (a, b, pre)"
      using one [OF abt] by (auto simp: edits_image_def)
    then obtain p q where "on_lines s p q a b" by (rule image_span)
    then show ?thesis using line_stop_length [of q s] by (auto simp: on_lines_def)
  qed
  have "distinct es" using d by (simp add: distinct_map)
  then show ?thesis using sep inside by (auto simp: well_placed_def)
qed

definition edits_exactly :: "yaml_services \<Rightarrow> string \<Rightarrow> tag_update \<times> string \<Rightarrow> text_edit \<Rightarrow> bool" where
  "edits_exactly services s us e =
     (case e of (a, b, t) \<Rightarrow> \<exists>pre config. t = pre @ tu_new_image (fst us) \<and>
        service_of services (snd us) = Some config \<and> yc_image config = Text (tu_old_image (fst us)) \<and>
        (one_line_place s config (tu_old_image (fst us)) a b pre \<or>
         two_line_place s config (tu_old_image (fst us)) a b pre) \<and>
        holds_image s (tu_old_image (fst us)) a b pre)"

lemma edits_image_exactly: "edits_image services s us e \<Longrightarrow> edits_exactly services s us e"
proof -
  assume "edits_image services s us e"
  then obtain a b pre where e: "e = (a, b, pre @ tu_new_image (fst us))"
      and r: "service_image_scalar_rewrite services (snd us) (tu_old_image (fst us)) s (line_start_offsets s) = Inr (a, b, pre)"
    by (auto simp: edits_image_def)
  from r have "holds_image s (tu_old_image (fst us)) a b pre"
    by (rule image_span)
  moreover from r obtain c where "service_of services (snd us) = Some c" "yc_image c = Text (tu_old_image (fst us))"
      "one_line_place s c (tu_old_image (fst us)) a b pre \<or> two_line_place s c (tu_old_image (fst us)) a b pre"
    by (rule image_place)
  ultimately show ?thesis using e by (auto simp: edits_exactly_def)
qed

text \<open>C16: A tag rewrite changes nothing but images. When it succeeds and no two selected services have
  their image on a common line of the file, each selected service of each
  update contributes one span of the source. The span is the image of that service: it stands on the
  line of the service's image value after an \<open>image\<close> key, bare or between quotes and with at most a comment
  behind it, or, for a plain scalar on the line below a bare key, reaches from the end of the key line over
  the line break and the indentation to the end of the image (the new image then stands on the key line).
  It holds the old image and is replaced by the
  new one; the spans do not overlap, and the new text is the source read from left to right with
  those spans replaced, every other character kept. The applied updates count one replacement per
  service.\<close>

theorem tag_rewrite_exact:
  assumes "render_compose_tag_updates services source updates = Inr (Some (rendered, applied))"
    and "lines_apart services (concat (map tu_services updates))"
  shows "\<exists>es. list_all2 (edits_exactly services source) (selected updates) es \<and>
      in_order source 0 (by_start es) \<and> rendered = splice source 0 (by_start es) \<and>
      applied = map applied_tag updates"
proof -
  obtain es seen where c: "collect_tag_spans services source (line_start_offsets source) updates ([], {}) = Inr (es, seen)"
      and r: "rendered = foldl apply_edit source (by_start_desc es)" "applied = map applied_tag updates"
    using assms(1) by (auto simp: render_compose_tag_updates_def edit_Inr Let_def split: if_splits)
  have ok: "spans_ok (es, seen)" and sel: "list_all2 (edits_image services source) (selected updates) es"
    using collect_tag_spans_ok [OF c] by (auto simp: spans_ok_def)
  have placed: "well_placed source es"
    by (rule selected_edits_placed [OF sel _ assms(2)]) (use ok in \<open>simp add: spans_ok_def\<close>)
  have "list_all2 (edits_exactly services source) (selected updates) es"
    using sel by (rule list_all2_mono) (rule edits_image_exactly)
  then show ?thesis
    using r well_placed_in_order [OF placed] apply_by_start_desc [OF placed] by blast
qed

text \<open>Two services, the second with its image on the line after the key.\<close>

definition demo_source :: string where
  "demo_source = ''a:'' @ [newline] @ ''  image: x:1 # keep'' @ [newline] @ ''b:'' @ [newline] @ ''  image:'' @
     [newline] @ ''    y:1'' @ [newline]"

definition demo_service :: "nat \<Rightarrow> string \<Rightarrow> nat \<Rightarrow> nat \<Rightarrow> service_config" where
  "demo_service i img kl vl = \<lparr>yc_id = i, yc_anchored = False, yc_image = Text img,
     yc_image_node = None, yc_image_direct = True, yc_image_key_at = Some (kl, 2),
     yc_image_value_at = Some (vl, 4), yc_labels = NoLabels, yc_labels_direct = False,
     yc_labels_key_at = None, yc_comments = []\<rparr>"

definition demo_services :: yaml_services where
  "demo_services = [(''a'', Some (demo_service 1 ''x:1'' 1 1)), (''b'', Some (demo_service 2 ''y:1'' 3 4))]"

definition demo_updates :: "tag_update list" where
  "demo_updates = [\<lparr>tu_old_image = ''x:1'', tu_desired_tag = ''2'', tu_new_image = ''x:2'', tu_services = [''a'']\<rparr>,
     \<lparr>tu_old_image = ''y:1'', tu_desired_tag = ''3'', tu_new_image = ''y:3'', tu_services = [''b'']\<rparr>]"

definition demo_rendered :: string where
  "demo_rendered = ''a:'' @ [newline] @ ''  image: x:2 # keep'' @ [newline] @ ''b:'' @ [newline] @ ''  image: y:3'' @
     [newline]"

lemma demo_render:
  "render_compose_tag_updates demo_services demo_source demo_updates =
     Inr (Some (demo_rendered, map applied_tag demo_updates))"
  by code_simp

theorem tag_rewrite_exact_witness:
  "\<exists>es. list_all2 (edits_exactly demo_services demo_source) (selected demo_updates) es \<and>
     demo_rendered = splice demo_source 0 (by_start es)"
proof -
  have "lines_apart demo_services (concat (map tu_services demo_updates))"
    by (auto simp: lines_apart_def demo_services_def demo_updates_def service_of_def demo_service_def image_lines_def)
  from tag_rewrite_exact [OF demo_render this] show ?thesis by blast
qed

section \<open>A rewritten image\<close>

text \<open>The line a position stands on, and what a replacement from there on leaves of the lines before it.\<close>

definition line_of :: "string \<Rightarrow> nat \<Rightarrow> nat \<Rightarrow> bool" where
  "line_of s a n \<longleftrightarrow> n < length (line_start_offsets s) \<and> line_start_offsets s ! n \<le> a \<and> a \<le> line_stop s n"

lemma newline_ends_append: "newline_ends i (u @ v) = newline_ends i u @ newline_ends (i + length u) v"
  by (induction u arbitrary: i) auto

lemma offsets_append: "line_start_offsets (u @ v) = line_start_offsets u @ newline_ends (length u) v"
  by (simp add: line_start_offsets_def newline_ends_append)

lemma offset_before:
  assumes "n < length (line_start_offsets (u @ v))" and "line_start_offsets (u @ v) ! n \<le> length u"
  shows "n < length (line_start_offsets u)"
proof (rule ccontr)
  assume n: "\<not> ?thesis"
  then have "line_start_offsets (u @ v) ! n \<in> set (newline_ends (length u) v)"
    using assms(1) by (simp add: offsets_append nth_append)
  then show False using assms(2) by (auto simp: newline_ends_mem)
qed

lemma line_of_unique:
  assumes "line_of s a n" and "line_of s a m"
  shows "n = m"
proof (rule ccontr)
  assume "n \<noteq> m"
  then consider "n < m" | "m < n" by linarith
  then show False
    using assms line_stop_less [of n m s] line_stop_less [of m n s] by cases (auto simp: line_of_def)
qed

lemma comment_tail_blank: "list_all blank r \<Longrightarrow> comment_tail r"
  by (simp add: comment_tail_def list_all_iff dropWhile_eq_Nil_conv [THEN iffD2])

lemma line_of_spliced:
  assumes "line_of s a n" and "a \<le> length s"
  defines "st \<equiv> line_start_offsets s ! n"
  shows "n < length (line_start_offsets (take a s @ v))" "line_start_offsets (take a s @ v) ! n = st"
    "st \<le> a" "takeWhile (\<lambda>c. c \<noteq> newline) (drop st (take a s @ v)) = slice s st a @ takeWhile (\<lambda>c. c \<noteq> newline) v"
    "newline \<notin> set (slice s st a)"
proof -
  have l: "n < length (line_start_offsets s)" "st \<le> a" "a \<le> line_stop s n"
    using assms(1) unfolding line_of_def st_def by auto
  have len: "length (take a s) = a" using assms(2) by simp
  have n: "n < length (line_start_offsets (take a s))"
    using offset_before [of n "take a s" "drop a s"] l len unfolding st_def by simp
  show "st \<le> a" by (rule l(2))
  show "n < length (line_start_offsets (take a s @ v))" using n by (simp add: offsets_append)
  have "line_start_offsets (take a s @ v) ! n = line_start_offsets (take a s) ! n"
    using n by (simp add: offsets_append nth_append)
  also have "\<dots> = line_start_offsets (take a s @ drop a s) ! n"
    using n by (simp only: offsets_append nth_append if_True)
  finally show "line_start_offsets (take a s @ v) ! n = st" unfolding st_def by simp
  have within: "a - st \<le> length (takeWhile (\<lambda>c. c \<noteq> newline) (drop st s))"
    using l(3) unfolding line_stop_def st_def Let_def by simp
  have "slice s st a = take (a - st) (takeWhile (\<lambda>c. c \<noteq> newline) (drop st s))"
    unfolding slice_def using within by (metis takeWhile_eq_take take_take min.absorb1)
  then show nl: "newline \<notin> set (slice s st a)" by (auto dest!: in_set_takeD set_takeWhileD)
  have "drop st (take a s @ v) = slice s st a @ v"
    using l(2) len by (simp add: slice_def drop_take)
  then show "takeWhile (\<lambda>c. c \<noteq> newline) (drop st (take a s @ v)) = slice s st a @ takeWhile (\<lambda>c. c \<noteq> newline) v"
    using nl by (metis (mono_tags, lifting) takeWhile_append2)
qed

lemma source_line_after:
  assumes "source_line s (line_start_offsets s) n = Inr (start, e, body)" and "k \<le> length body"
  shows "\<exists>crs. takeWhile (\<lambda>c. c \<noteq> newline) (drop (start + k) s) = drop k body @ crs \<and>
    (crs = [cr] \<or> crs = '''' \<and> (body = '''' \<or> last body \<noteq> cr))" and "slice s start (start + k) = take k body"
proof -
  let ?l = "takeWhile (\<lambda>c. c \<noteq> newline) (drop start s)"
  have n: "n < length (line_start_offsets s)" using assms(1) by (auto simp: source_line_def split: if_splits)
  then have b: "start = line_start_offsets s ! n" "body = (if ?l \<noteq> [] \<and> last ?l = cr then butlast ?l else ?l)"
    using assms(1) by (auto simp: source_line_def Let_def)
  obtain crs where crs: "?l = body @ crs" "crs = [cr] \<or> crs = '''' \<and> (body = '''' \<or> last body \<noteq> cr)"
  proof (cases "?l \<noteq> [] \<and> last ?l = cr")
    case True
    then have "?l = body @ [cr]" using b(2) append_butlast_last_id [of ?l] by simp
    then show thesis by (rule that) simp
  next
    case False
    then have "?l = body @ ''''" "body = '''' \<or> last body \<noteq> cr" using b(2) by auto
    then show thesis by (intro that [of "''''"]) simp_all
  qed
  have k: "k \<le> length ?l" using assms(2) crs(1) by simp
  have "take k ?l = take k (take (length ?l) (drop start s))" by (simp only: takeWhile_eq_take [symmetric])
  then have tk: "take k (drop start s) = take k ?l" using k by simp
  have "\<forall>c \<in> set (take k ?l). c \<noteq> newline" by (auto dest!: in_set_takeD set_takeWhileD)
  then have "\<forall>c \<in> set (take k (drop start s)). c \<noteq> newline" unfolding tk .
  then have "?l = take k (drop start s) @ takeWhile (\<lambda>c. c \<noteq> newline) (drop k (drop start s))"
    by (metis (mono_tags, lifting) append_take_drop_id takeWhile_append2)
  moreover have "length (take k (drop start s)) = k"
    using k length_takeWhile_le [of "\<lambda>c. c \<noteq> newline" "drop start s"] by simp
  ultimately have "takeWhile (\<lambda>c. c \<noteq> newline) (drop k (drop start s)) = drop k ?l"
    by (metis append_eq_conv_conj)
  then show "\<exists>crs. takeWhile (\<lambda>c. c \<noteq> newline) (drop (start + k) s) = drop k body @ crs \<and>
    (crs = [cr] \<or> crs = '''' \<and> (body = '''' \<or> last body \<noteq> cr))"
    using crs assms(2) by (auto simp: add.commute)
  show "slice s start (start + k) = take k body"
    using source_line_Inr(5) [OF assms(1)] slice_within [of "length body" start s body 0 k] assms(2) by simp
qed

text \<open>The line of an image after the image on it was replaced.\<close>

lemma source_line_spliced:
  assumes at: "line_of s a n" "a \<le> length s"
    and key: "source_line s (line_start_offsets s) m = Inr (start, e, body)" "k \<le> length body" "b = start + k"
    and new: "t \<noteq> ''''" "newline \<notin> set t" "last t \<noteq> cr"
  shows "\<exists>e'. source_line (take a s @ t @ drop b s) (line_start_offsets (take a s @ t @ drop b s)) n =
    Inr (line_start_offsets s ! n, e', slice s (line_start_offsets s ! n) a @ t @ drop k body)"
proof -
  let ?o = "line_start_offsets s ! n" and ?v = "t @ drop b s" and ?s = "take a s @ t @ drop b s"
  obtain crs where crs: "takeWhile (\<lambda>c. c \<noteq> newline) (drop b s) = drop k body @ crs"
      "crs = [cr] \<or> crs = '''' \<and> (body = '''' \<or> last body \<noteq> cr)"
    using source_line_after(1) [OF key(1,2)] key(3) by blast
  note sp = line_of_spliced(1,2,4) [OF at, where v = ?v]
  have tv: "takeWhile (\<lambda>c. c \<noteq> newline) ?v = t @ drop k body @ crs"
    using new(2) crs(1) by (metis (mono_tags, lifting) takeWhile_append2)
  let ?l = "slice s ?o a @ t @ drop k body @ crs"
  have l: "takeWhile (\<lambda>c. c \<noteq> newline) (drop ?o ?s) = ?l" using sp(3) tv by simp
  have last: "last (t @ drop k body) \<noteq> cr" if "crs = ''''"
    using that crs(2) new(1,3) key(2) by (cases "k < length body") auto
  have "(if ?l \<noteq> [] \<and> last ?l = cr then butlast ?l else ?l) = slice s ?o a @ t @ drop k body"
    using crs(2) last new(1) by (auto simp: butlast_append)
  then show ?thesis
    unfolding source_line_def Let_def sp(2) l by (simp only: sp(1) if_True) blast
qed

text \<open>C17: A rewritten image can be rewritten again. When the rewriter finds the image of a service
  and the span it returns is replaced by its prefix and a new image of one line, without a dollar sign and not starting with a
  blank or a quote, then in the new text, where the service's value stands on the line
  the span started on and reads as the new image, the same rewriter finds exactly the new image, on its
  own line: it starts after the prefix and ends with its last character. So a later pin, unpin or
  rollback of the file edits the same place, whether the image was quoted, followed by a comment or
  written on the line below its key.\<close>

theorem rewritten_image_found:
  assumes "service_image_scalar_rewrite services service old source (line_start_offsets source) = Inr (a, b, pre)"
    and "new = c # cs" and "\<not> blank c" and "\<not> quote_char c"
    and "CHR ''$'' \<notin> set new" and "newline \<notin> set new" and "cr \<notin> set new"
    and "line_of source a n" and "source' = take a source @ pre @ new @ drop b source"
    and "service_of services' service = Some config'" and "yc_image config' = Text new"
    and "yc_image_value_at config' = Some (n, col)"
  shows "service_image_scalar_rewrite services' service new source' (line_start_offsets source') =
    Inr (a + length pre, a + length pre + length new, '''')"
proof -
  let ?o = "line_start_offsets source ! n"
  from assms(1) obtain config where place: "one_line_place source config old a b pre \<or> two_line_place source config old a b pre"
    by (rule image_place)
  have found: ?thesis if w: "\<exists>e'. source_line source' (line_start_offsets source') n =
       Inr (?o, e', p @ ks @ q @ new @ q @ rst)" "bare_image_key p" "list_all blank ks"
      "q = '''' \<or> (\<exists>d. q = [d] \<and> quote_char d)" "comment_tail rst" "a + length pre = ?o + length (p @ ks @ q)"
    for p ks q rst
  proof -
    from w(1) obtain e' where l: "source_line source' (line_start_offsets source') n = Inr (?o, e', p @ ks @ q @ new @ q @ rst)" by blast
    then have "n < length (line_start_offsets source')" by (rule source_line_Inr)
    moreover have "checked_image service new config' = Inr ()"
      using assms(5,11) by (simp add: checked_image_def rewrite_if_def)
    ultimately show ?thesis
      using l w(6) written_image_match [OF w(2-5) assms(2-4)] assms(10,12)
      by (simp add: service_image_scalar_rewrite_def needs_def rewrite_if_def)
  qed
  have "new \<noteq> ''''" using assms(2) by simp
  then have t: "pre @ new \<noteq> ''''" "last (pre @ new) \<noteq> cr" using assms(7) last_in_set [of new] by (simp_all, metis)
  from place show ?thesis
  proof
    assume "one_line_place source config old a b pre"
    then obtain m start e body g where m: "source_line source (line_start_offsets source) m = Inr (start, e, body)"
        "image_written body old g" "a = start + g" "b = start + g + length old" "pre = ''''"
      unfolding one_line_place_def by blast
    then obtain p ks q rst where w: "body = p @ ks @ q @ old @ q @ rst" "bare_image_key p" "list_all blank ks"
        "q = '''' \<or> (\<exists>d. q = [d] \<and> quote_char d)" "comment_tail rst" "g = length (p @ ks @ q)"
      unfolding image_written_def by blast
    have le: "g + length old \<le> length body" "g \<le> length body" using w(1,6) by simp_all
    have ln: "line_of source a m" "a \<le> length source"
      using source_line_Inr [OF m(1)] le m(3) line_stop_length [of m source] by (auto simp: line_of_def)
    have n: "n = m" by (rule line_of_unique [OF assms(8) ln(1)])
    have o: "?o = start" using source_line_Inr(2) [OF m(1)] n by simp
    have "slice source ?o a = p @ ks @ q"
      using source_line_after(2) [OF m(1) le(2)] w(1,6) unfolding o m(3) by simp
    moreover have "drop (g + length old) body = q @ rst" using w(1,6) by simp
    ultimately have "\<exists>e'. source_line source' (line_start_offsets source') n = Inr (?o, e', p @ ks @ q @ new @ q @ rst)"
      using source_line_spliced [OF assms(8) ln(2) m(1) le(1) _ t(1) _ t(2)] m(4,5) assms(6,9) by (simp add: add.assoc)
    from found [OF this w(2-5)] show ?thesis using m(3,5) w(6) o by simp
  next
    assume "two_line_place source config old a b pre"
    then obtain m ks ke p sp start e body ind rst where m: "source_line source (line_start_offsets source) m = Inr (ks, ke, p @ sp)"
        "bare_image_key p" "list_all blank sp" "source_line source (line_start_offsets source) (Suc m) = Inr (start, e, body)"
        "body = ind @ old @ rst" "list_all blank rst" "a = ks + length (p @ sp)" "b = start + length ind + length old"
        "pre = (if sp = '''' then '' '' else '''')"
      unfolding two_line_place_def by blast
    have ln: "line_of source a m" "a \<le> length source"
      using source_line_Inr [OF m(1)] m(7) line_stop_length [of m source] by (auto simp: line_of_def)
    have n: "n = m" by (rule line_of_unique [OF assms(8) ln(1)])
    have o: "?o = ks" using source_line_Inr(2) [OF m(1)] n by simp
    have k: "length ind + length old \<le> length body" using m(5) by simp
    have "slice source ?o a = p @ sp"
      using source_line_after(2) [OF m(1), of "length (p @ sp)"] unfolding o m(7) by simp
    moreover have "drop (length ind + length old) body = rst" using m(5) by simp
    moreover have "newline \<notin> set (pre @ new)" using assms(6) m(9) by (simp add: newline_def)
    ultimately have "\<exists>e'. source_line source' (line_start_offsets source') n = Inr (?o, e', p @ (sp @ pre) @ '''' @ new @ '''' @ rst)"
      using source_line_spliced [OF assms(8) ln(2) m(4) k _ t(1) _ t(2)] m(8) assms(9) by (simp add: add.assoc)
    from found [OF this m(2)] show ?thesis
      using m(3,6,7,9) o by (simp add: blank_def comment_tail_blank)
  qed
qed

theorem rewritten_image_found_witness:
  "service_image_scalar_rewrite [(''b'', Some (demo_service 2 ''z:25'' 3 3))] ''b'' ''z:25''
     (take 34 demo_source @ '' '' @ ''z:25'' @ drop 42 demo_source)
     (line_start_offsets (take 34 demo_source @ '' '' @ ''z:25'' @ drop 42 demo_source)) = Inr (35, 39, '''')"
proof -
  have old: "service_image_scalar_rewrite demo_services ''b'' ''y:1'' demo_source (line_start_offsets demo_source) = Inr (34, 42, '' '')"
    by code_simp
  have at: "line_of demo_source 34 3"
    unfolding line_of_def by (intro conjI; code_simp)
  have conf: "service_of [(''b'', Some (demo_service 2 ''z:25'' 3 3))] ''b'' = Some (demo_service 2 ''z:25'' 3 3)"
    by (simp add: service_of_def)
  show ?thesis
    using rewritten_image_found [OF old _ _ _ _ _ _ at refl conf, of "''z:25''" "CHR ''z''" "'':25''"]
    by (simp add: blank_def tab_def quote_char_def newline_def cr_def demo_service_def)
qed

end
