(* ===== verification/Compose_Label_Edits.thy ===== *)
theory Compose_Label_Edits
  imports Compose_Exact
begin

text \<open>
  Labels of a service after an edit of the tree: what is set is what is read, other labels and
  services are left alone, and a retag leaves the image, the watch label and the marker it planned.
\<close>

section \<open>Where a list declares a label\<close>

definition declares :: "string \<Rightarrow> scalar \<Rightarrow> bool" where
  "declares key item = (case item of Text t \<Rightarrow> fst (label_parts t) = key | _ \<Rightarrow> False)"

definition is_text :: "scalar \<Rightarrow> bool" where
  "is_text item = (case item of Text t \<Rightarrow> True | _ \<Rightarrow> False)"

fun declared_at :: "string \<Rightarrow> nat \<Rightarrow> scalar list \<Rightarrow> nat list" where
  "declared_at key i [] = []"
| "declared_at key i (it # items) = (if declares key it then [i] else []) @ declared_at key (Suc i) items"

lemma declared_at_filter:
  "declared_at key i items = filter (\<lambda>j. declares key (items ! (j - i))) [i..<i + length items]"
proof (induction items arbitrary: i)
  case (Cons it items)
  have "filter (\<lambda>j. declares key ((it # items) ! (j - i))) [Suc i..<Suc i + length items] =
      filter (\<lambda>j. declares key (items ! (j - Suc i))) [Suc i..<Suc i + length items]"
    by (rule filter_cong) (auto simp: nth_Cons' Suc_diff_le)
  moreover have "[i..<i + length (it # items)] = i # [Suc i..<Suc i + length items]"
    by (simp add: upt_conv_Cons del: upt_Suc)
  ultimately show ?case using Cons.IH [of "Suc i"] by (simp del: upt_Suc)
qed simp

definition sets_label :: "string \<Rightarrow> scalar \<Rightarrow> bool" where
  "sets_label key item = (case item of Text t \<Rightarrow> fst (label_parts t) = key \<and> fst (snd (label_parts t)) | _ \<Rightarrow> False)"

lemma sets_label_Text: "sets_label key (Text t) \<longleftrightarrow> fst (label_parts t) = key \<and> fst (snd (label_parts t))"
  by (simp add: sets_label_def)

lemma declared_at_bounds: "j \<in> set (declared_at key i items) \<Longrightarrow> i \<le> j \<and> j < i + length items"
  by (auto simp: declared_at_filter)

lemma sequence_label_from_texts:
  "\<forall>it \<in> set items. is_text it \<Longrightarrow>
   sequence_label_from key service i found declared (items @ rest) =
     (case (declared, declared_at key i items) of
        (d, []) \<Rightarrow> sequence_label_from key service (i + length items) found d rest
      | (None, [j]) \<Rightarrow> sequence_label_from key service (i + length items)
          (if sets_label key (items ! (j - i)) then Some j else found) (Some j) rest
      | _ \<Rightarrow> Inl (Rewrite (duplicate_label_msg service key)))"
proof (induction items arbitrary: i found declared)
  case (Cons it items)
  then obtain t where t: "it = Text t" by (cases it) (auto simp: is_text_def)
  obtain k sep v where p: "label_parts t = (k, sep, v)" by (cases "label_parts t")
  have shift: "(it # items) ! (j - i) = items ! (j - Suc i)" if "declared_at key (Suc i) items = j # js" for j js
  proof -
    have "Suc i \<le> j" using declared_at_bounds [of j key "Suc i" items] that by simp
    then have "j - i = Suc (j - Suc i)" by simp
    then show ?thesis by (simp only: nth_Cons_Suc)
  qed
  have IH: "sequence_label_from key service (Suc i) f d (items @ rest) =
     (case (d, declared_at key (Suc i) items) of
        (d, []) \<Rightarrow> sequence_label_from key service (Suc i + length items) f d rest
      | (None, [j]) \<Rightarrow> sequence_label_from key service (Suc i + length items)
          (if sets_label key (items ! (j - Suc i)) then Some j else f) (Some j) rest
      | _ \<Rightarrow> Inl (Rewrite (duplicate_label_msg service key)))" for f d
    using Cons by simp
  show ?case
    using p by (auto simp: t IH declares_def sets_label_Text shift [unfolded t] split: option.split list.split)
qed (auto split: option.split)

lemma sequence_label_from_found:
  "sequence_label_from key service i (Some k) (Some d) rest =
     (if \<exists>it \<in> set rest. declares key it then Inl (Rewrite (duplicate_label_msg service key)) else Inr (Some d))"
proof (induction rest arbitrary: i)
  case (Cons it rest)
  then show ?case by (cases it) (auto simp: declares_def split: prod.splits)
qed simp

lemma declared_at_append: "declared_at key i (xs @ ys) = declared_at key i xs @ declared_at key (i + length xs) ys"
  by (induction xs arbitrary: i) simp_all

lemma declared_at_empty: "declared_at key i ys = [] \<longleftrightarrow> (\<forall>it \<in> set ys. \<not> declares key it)"
  by (induction ys arbitrary: i) auto

lemma declared_at_positions:
  "filter (\<lambda>i. declares key (items ! i)) [0..<length items] = declared_at key 0 items"
  by (simp add: declared_at_filter)

lemma declared_at_take:
  assumes "n \<le> length items"
  shows "filter (\<lambda>i. declares key (items ! i)) [0..<n] = declared_at key 0 (take n items)"
proof -
  have "filter (\<lambda>i. declares key (items ! i)) [0..<n] = filter (\<lambda>i. declares key (take n items ! i)) [0..<n]"
    by (rule filter_cong) simp_all
  then show ?thesis using assms by (simp add: declared_at_filter)
qed

text \<open>C20: Looking a key up in any list of labels, exactly. A bare \<open>key\<close> entry counts as a
  declaration. A key declared twice before the first entry that is not a string is refused with the message
  that names it, because Compose and WUDup could read different entries. Otherwise a list with an entry
  that is not a string is refused as such, unless an entry \<open>key=...\<close> stands before it. In what remains,
  a key nothing declares has no index, a key declared once has the index of that entry, and a key
  declared more than once is refused.\<close>

theorem sequence_label_index_exact:
  "sequence_label_index s key service =
    (let items = map fst (ls_items s);
         plain = length (takeWhile is_text items);
         declared = filter (\<lambda>i. declares key (items ! i)) [0..<length items];
         early = filter (\<lambda>i. declares key (items ! i)) [0..<plain]
     in if 2 \<le> length early then Inl (Rewrite (duplicate_label_msg service key))
        else if plain < length items \<and> filter (\<lambda>i. sets_label key (items ! i)) early = []
        then Inl (Rewrite UNSUPPORTED_NON_STRING_LABEL_ENTRY)
        else (case declared of
            [] \<Rightarrow> Inr None
          | [i] \<Rightarrow> Inr (Some i)
          | _ \<Rightarrow> Inl (Rewrite (duplicate_label_msg service key))))"
proof -
  let ?items = "map fst (ls_items s)"
  define ps where "ps = takeWhile is_text ?items"
  define rs where "rs = dropWhile is_text ?items"
  have items: "?items = ps @ rs" unfolding ps_def rs_def by simp
  have "\<forall>it \<in> set ps. is_text it" unfolding ps_def by (auto dest: set_takeWhileD)
  note looked = sequence_label_from_texts [OF this, of key service 0 None None rs]
  have early: "filter (\<lambda>i. declares key (?items ! i)) [0..<length ps] = declared_at key 0 ps"
    using declared_at_take [of "length ps" ?items key] by (simp add: items)
  have all: "filter (\<lambda>i. declares key (?items ! i)) [0..<length ?items] = declared_at key 0 ps @ declared_at key (length ps) rs"
    using declared_at_positions [of key ?items] by (simp add: items declared_at_append)
  have plain: "length ps < length ?items \<longleftrightarrow> rs \<noteq> []" by (simp add: items)
  have odd: "sequence_label_from key service i None d rs = Inl (Rewrite UNSUPPORTED_NON_STRING_LABEL_ENTRY)"
    if "rs \<noteq> []" for i d
  proof -
    obtain x r where "rs = x # r" "\<not> is_text x" 
    proof (cases rs)
      case (Cons x r)
      then show thesis using hd_dropWhile [of is_text ?items] by (intro that [OF Cons]) (simp add: rs_def)
    qed (use \<open>rs \<noteq> []\<close> in simp)
    then show ?thesis by (cases x) (auto simp: is_text_def)
  qed
  have pos: "?items ! j = ps ! j" if "declared_at key 0 ps = j # js" for j js
    using declared_at_bounds [of j key 0 ps] that by (simp add: items nth_append)
  let ?D = "declared_at key 0 ps" and ?R = "declared_at key (length ps) rs"
  have "sequence_label_from key service 0 None None (ps @ rs) =
    (if 2 \<le> length ?D then Inl (Rewrite (duplicate_label_msg service key))
     else if rs \<noteq> [] \<and> filter (\<lambda>i. sets_label key (?items ! i)) ?D = []
     then Inl (Rewrite UNSUPPORTED_NON_STRING_LABEL_ENTRY)
     else (case ?D @ ?R of [] \<Rightarrow> Inr None | [i] \<Rightarrow> Inr (Some i)
       | _ \<Rightarrow> Inl (Rewrite (duplicate_label_msg service key))))"
  proof (cases ?D)
    case Nil
    then show ?thesis unfolding looked using odd by (cases "rs = []") simp_all
  next
    case (Cons j js)
    have R: "?R = [] \<longleftrightarrow> \<not> (\<exists>it \<in> set rs. declares key it)" by (simp add: declared_at_empty)
    show ?thesis
    proof (cases js)
      case Nil
      then show ?thesis
        unfolding looked using odd Cons R
        by (cases "rs = []"; cases "sets_label key (ps ! j)"; cases ?R) (simp_all add: pos sequence_label_from_found)
    qed (simp add: looked Cons)
  qed
  then show ?thesis
    unfolding sequence_label_index_def Let_def ps_def [symmetric] early all plain by (simp only: items [symmetric])
qed

definition demo_labels :: label_seq where
  "demo_labels = \<lparr>ls_id = 7, ls_anchored = False, ls_at = None,
     ls_items = [(Text ''a=1'', None), (Text ''wud.tag.include=^1$'', None), (Text ''b'', None)]\<rparr>"

section \<open>Setting a label\<close>

lemma label_parts_set: "CHR ''='' \<notin> set key \<Longrightarrow> label_parts (key @ ''='' @ v) = (key, True, v)"
proof (induction key)
  case Nil
  then show ?case by (simp add: label_parts_def)
next
  case (Cons c key)
  then have "label_parts (key @ ''='' @ v) = (key, True, v)" by simp
  then show ?case using Cons.prems by (auto simp: label_parts_def split: option.splits)
qed

lemma declared_kept:
  "sequence_label_from key service i found (Some d) items = Inr r \<Longrightarrow> r = Some d"
  by (induction items arbitrary: i found) (auto split: scalar.splits prod.splits if_splits)

lemma found_permits:
  "sequence_label_from key service i found d items = Inr r \<Longrightarrow>
   sequence_label_from key service i (Some k) d items = Inr r"
proof (induction items arbitrary: i found d k)
  case (Cons it items)
  obtain kk sep v where p: "\<And>t. it = Text t \<Longrightarrow> label_parts t = (kk, sep, v)"
    by (cases it) (auto, metis prod_cases3)
  show ?case
    using Cons.prems p by (auto split: scalar.splits if_splits intro: Cons.IH)
qed simp

text \<open>Replacing the entry that was found, and appending one that was not.\<close>

lemma sequence_label_replace:
  assumes k: "CHR ''='' \<notin> set key"
    and "sequence_label_from key service i found None items = Inr (Some m)"
  shows "i \<le> m \<and> m - i < length items \<and> (\<exists>t. items ! (m - i) = Text t \<and> fst (label_parts t) = key) \<and>
    sequence_label_from key service i found None (items[m - i := Text (key @ ''='' @ v)]) = Inr (Some m)"
  using assms(2)
proof (induction items arbitrary: i found)
  case (Cons it items)
  show ?case
  proof (cases "declares key it")
    case True
    then obtain t sep w where t: "it = Text t" "label_parts t = (key, sep, w)"
      by (cases it) (auto simp: declares_def prod_eq_iff)
    then have rest: "sequence_label_from key service (Suc i) (if sep then Some i else found) (Some i) items = Inr (Some m)"
      using Cons.prems by simp
    then have "m = i" using declared_kept by blast
    then show ?thesis using found_permits [OF rest] t label_parts_set [OF k] by simp
  next
    case False
    have rest: "sequence_label_from key service (Suc i) found None items = Inr (Some m)"
      using Cons.prems False by (auto simp: declares_def split: scalar.splits prod.splits if_splits)
    note IH = Cons.IH [OF rest]
    then have "Suc i \<le> m" by simp
    then have m: "m - i = Suc (m - Suc i)" by arith
    show ?thesis
      using IH Cons.prems False unfolding m
      by (auto simp: declares_def split: scalar.splits prod.splits if_splits)
  qed
qed simp

lemma sequence_label_append:
  assumes k: "CHR ''='' \<notin> set key"
  shows "sequence_label_from key service i None None items = Inr None \<Longrightarrow>
    sequence_label_from key service i None None (items @ [Text (key @ ''='' @ v)]) = Inr (Some (i + length items))"
proof (induction items arbitrary: i)
  case Nil
  then show ?case using label_parts_set [OF k] by simp
next
  case (Cons it items)
  then have "sequence_label_from key service (Suc i) None None items = Inr None"
    by (auto split: scalar.splits prod.splits if_splits dest: declared_kept)
  with Cons show ?case by (auto split: scalar.splits prod.splits if_splits dest: declared_kept)
qed

lemma sequence_label_other:
  assumes "label_parts new = (key, True, v)" and "key' \<noteq> key"
  shows "items ! j = Text t \<Longrightarrow> fst (label_parts t) = key \<Longrightarrow> j < length items \<Longrightarrow>
      sequence_label_from key' service i found d (items[j := Text new]) = sequence_label_from key' service i found d items"
    and "sequence_label_from key' service i found d (items @ [Text new]) = sequence_label_from key' service i found d items"
proof -
  show "items ! j = Text t \<Longrightarrow> fst (label_parts t) = key \<Longrightarrow> j < length items \<Longrightarrow>
      sequence_label_from key' service i found d (items[j := Text new]) = sequence_label_from key' service i found d items"
  proof (induction items arbitrary: j i found d)
    case (Cons it items)
    show ?case
    proof (cases j)
      case 0
      then show ?thesis using Cons.prems assms by (auto split: prod.splits)
    next
      case (Suc n)
      then show ?thesis using Cons by (auto split: scalar.splits prod.splits)
    qed
  qed simp
  show "sequence_label_from key' service i found d (items @ [Text new]) = sequence_label_from key' service i found d items"
    using assms by (induction items arbitrary: i found d) (auto split: scalar.splits prod.splits)
qed

lemma sequence_label_bound:
  "sequence_label_from key service i found None items = Inr (Some m) \<Longrightarrow>
   i \<le> m \<and> m - i < length items \<and> declares key (items ! (m - i))"
proof (induction items arbitrary: i found)
  case (Cons it items)
  show ?case
  proof (cases "declares key it")
    case True
    then have "m = i"
      using Cons.prems by (auto simp: declares_def split: scalar.splits prod.splits if_splits dest!: declared_kept)
    then show ?thesis using True by simp
  next
    case False
    have rest: "sequence_label_from key service (Suc i) found None items = Inr (Some m)"
      using Cons.prems False by (auto simp: declares_def split: scalar.splits prod.splits if_splits)
    then have "Suc i \<le> m" using Cons.IH by blast
    then have "m - i = Suc (m - Suc i)" by arith
    then show ?thesis using Cons.IH [OF rest] by simp
  qed
qed simp

lemma find_replaced:
  "List.find (\<lambda>e. me_key e = k') (map (\<lambda>e. if me_key e = k then e\<lparr>me_value := x, me_direct := True\<rparr> else e) es) =
     map_option (\<lambda>e. if k' = k then e\<lparr>me_value := x, me_direct := True\<rparr> else e) (List.find (\<lambda>e. me_key e = k') es)"
  by (induction es) auto

lemma find_append: "List.find P (xs @ ys) = (case List.find P xs of None \<Rightarrow> List.find P ys | Some x \<Rightarrow> Some x)"
  by (induction xs) auto

lemma find_map_entry:
  "map_option me_value (List.find (\<lambda>e. me_key e = key') (set_map_entry key v es)) =
     (if key' = key then Some (Text v) else map_option me_value (List.find (\<lambda>e. me_key e = key') es))"
  by (auto simp: set_map_entry_def find_append find_replaced split: option.splits)

lemma get_map_value:
  "yc_labels c = LabelMap m \<Longrightarrow> get_service_label_value c key service =
     (case map_option me_value (List.find (\<lambda>e. me_key e = key) (lm_entries m)) of
        None \<Rightarrow> Inr '''' | Some NoValue \<Rightarrow> Inr '''' | Some (Text t) \<Rightarrow> Inr t
      | Some (OtherValue t) \<Rightarrow> Inl (Rewrite (''Label '' @ key @ '' is not a string value.'')))"
  by (auto simp: get_service_label_value_def map_entry_of_def split: option.splits scalar.splits)

lemma get_seq_value:
  "yc_labels c = LabelSeq q \<Longrightarrow> get_service_label_value c key service = sequence_label_value q key service"
  by (simp add: get_service_label_value_def)

lemma label_seq_set_get:
  assumes k: "CHR ''='' \<notin> set key" and i: "sequence_label_index q key service = Inr index"
    and q': "q' = q\<lparr>ls_items := (case index of None \<Rightarrow> ls_items q @ [(Text (key @ ''='' @ v), None)]
      | Some i \<Rightarrow> (ls_items q)[i := (Text (key @ ''='' @ v), snd (ls_items q ! i))])\<rparr>"
  shows "sequence_label_value q' key service = Inr v \<and>
    (\<forall>key'. key' \<noteq> key \<longrightarrow> sequence_label_value q' key' service = sequence_label_value q key' service)"
proof (cases index)
  case None
  have items: "map fst (ls_items q') = map fst (ls_items q) @ [Text (key @ ''='' @ v)]" by (simp add: q' None)
  have "sequence_label_index q' key service = Inr (Some (length (ls_items q)))"
    using sequence_label_append [OF k, of service 0 "map fst (ls_items q)" v] i None
    unfolding sequence_label_index_def items by simp
  then have 1: "sequence_label_value q' key service = Inr v"
    using label_parts_set [OF k] by (simp add: sequence_label_value_def q' None)
  have 2: "sequence_label_value q' key' service = sequence_label_value q key' service" if "key' \<noteq> key" for key'
  proof -
    have e: "sequence_label_index q' key' service = sequence_label_index q key' service"
      unfolding sequence_label_index_def items by (rule sequence_label_other(2) [OF label_parts_set [OF k] that])
    show ?thesis
    proof (cases "sequence_label_index q key' service")
      case (Inr r)
      then show ?thesis
        using e sequence_label_bound [of key' service 0 None "map fst (ls_items q)"]
        by (cases r) (auto simp: sequence_label_value_def sequence_label_index_def q' None nth_append)
    qed (simp add: sequence_label_value_def e)
  qed
  show ?thesis using 1 2 by blast
next
  case (Some m)
  let ?new = "(Text (key @ ''='' @ v), snd (ls_items q ! m))"
  have items: "map fst (ls_items q') = (map fst (ls_items q))[m := Text (key @ ''='' @ v)]"
    by (simp add: q' Some map_update)
  have r: "m < length (ls_items q)" "sequence_label_index q' key service = Inr (Some m)"
      "\<exists>t. fst (ls_items q ! m) = Text t \<and> fst (label_parts t) = key"
    using sequence_label_replace [OF k i [unfolded Some sequence_label_index_def], of v]
    unfolding sequence_label_index_def items by auto
  then have 1: "sequence_label_value q' key service = Inr v"
    using label_parts_set [OF k] by (simp add: sequence_label_value_def q' Some)
  have 2: "sequence_label_value q' key' service = sequence_label_value q key' service" if "key' \<noteq> key" for key'
  proof -
    obtain t where t: "map fst (ls_items q) ! m = Text t" "fst (label_parts t) = key" using r by auto
    have e: "sequence_label_index q' key' service = sequence_label_index q key' service"
      unfolding sequence_label_index_def items
      by (rule sequence_label_other(1) [OF label_parts_set [OF k] that t]) (use r in simp)
    show ?thesis
    proof (cases "sequence_label_index q key' service")
      case (Inr x)
      have "j \<noteq> m" if "x = Some j" for j
      proof
        assume "j = m"
        have "sequence_label_from key' service 0 None None (map fst (ls_items q)) = Inr (Some m)"
          using Inr that \<open>j = m\<close> by (simp add: sequence_label_index_def)
        from sequence_label_bound [OF this] show False using t \<open>key' \<noteq> key\<close> by (simp add: declares_def)
      qed
      then show ?thesis
        using e Inr by (cases x) (auto simp: sequence_label_value_def q' Some)
    qed (simp add: sequence_label_value_def e)
  qed
  show ?thesis using 1 2 by blast
qed

text \<open>What a label reads after a write, over every shape the labels have.\<close>

lemma set_label_value_reads:
  assumes "CHR ''='' \<notin> set key" and "set_service_label_value fresh config key v service = Inr config'"
  shows "get_service_label_value config' key service = Inr v \<and>
    (\<forall>key'. key' \<noteq> key \<longrightarrow>
       get_service_label_value config' key' service = get_service_label_value config key' service) \<and>
    config'\<lparr>yc_labels := yc_labels config, yc_labels_direct := yc_labels_direct config\<rparr> = config"
proof (cases "yc_labels config")
  case NoLabels
  let ?q = "\<lparr>ls_id = fresh, ls_anchored = False, ls_at = None, ls_items = []\<rparr>"
  let ?q' = "?q\<lparr>ls_items := [(Text (key @ ''='' @ v), None)]\<rparr>"
  have c: "config' = config\<lparr>yc_labels := LabelSeq ?q', yc_labels_direct := True\<rparr>"
    using assms(2) NoLabels by (simp add: set_service_label_value_def Let_def)
  have e: "sequence_label_index ?q key'' service = Inr None" for key''
    by (simp add: sequence_label_index_def)
  have "sequence_label_value ?q' key service = Inr v \<and>
      (\<forall>key'. key' \<noteq> key \<longrightarrow> sequence_label_value ?q' key' service = sequence_label_value ?q key' service)"
    by (rule label_seq_set_get [OF assms(1) e]) simp
  then show ?thesis
    using c NoLabels by (auto simp: get_service_label_value_def sequence_label_value_def e)
next
  case (LabelMap m)
  have c: "config' = config\<lparr>yc_labels := LabelMap (m\<lparr>lm_entries := set_map_entry key v (lm_entries m)\<rparr>)\<rparr>"
    using assms(2) LabelMap by (simp add: set_service_label_value_def Let_def)
  then have l: "yc_labels config' = LabelMap (m\<lparr>lm_entries := set_map_entry key v (lm_entries m)\<rparr>)" by simp
  show ?thesis
    unfolding get_map_value [OF l] get_map_value [OF LabelMap] using c by (auto simp: find_map_entry)
next
  case (LabelSeq q)
  obtain index where i: "sequence_label_index q key service = Inr index"
    using assms(2) LabelSeq by (auto simp: set_service_label_value_def Let_def edit_Inr)
  define q' where q': "q' = q\<lparr>ls_items := (case index of None \<Rightarrow> ls_items q @ [(Text (key @ ''='' @ v), None)]
      | Some i \<Rightarrow> (ls_items q)[i := (Text (key @ ''='' @ v), snd (ls_items q ! i))])\<rparr>"
  have c: "config' = config\<lparr>yc_labels := LabelSeq q'\<rparr>"
    using assms(2) LabelSeq i unfolding set_service_label_value_def q' by (cases index) (simp_all add: Let_def)
  have l: "yc_labels config' = LabelSeq q'" using c by simp
  show ?thesis
    unfolding get_seq_value [OF l] get_seq_value [OF LabelSeq]
    using label_seq_set_get [OF assms(1) i q'] c by auto
next
  case (OtherLabels i a)
  then show ?thesis using assms(2) by (simp add: set_service_label_value_def)
qed


text \<open>C19: Setting a label of a service: the label then reads as the value set, every other label reads
  as before (or fails as before), and nothing but the labels of the service changes.\<close>

theorem label_set_get:
  assumes "CHR ''='' \<notin> set key" and "set_service_label_value fresh config key v service = Inr config'"
  shows "get_service_label_value config' key service = Inr v \<and>
    (\<forall>key'. key' \<noteq> key \<longrightarrow>
       get_service_label_value config' key' service = get_service_label_value config key' service) \<and>
    config'\<lparr>yc_labels := yc_labels config, yc_labels_direct := yc_labels_direct config\<rparr> = config"
  by (rule set_label_value_reads [OF assms])

definition demo_config :: service_config where
  "demo_config = (demo_service 1 ''x:1'' 1 1)\<lparr>yc_labels := LabelSeq demo_labels, yc_labels_direct := True\<rparr>"

theorem label_set_get_witness:
  "get_service_label_value (projr (set_service_label_value 9 demo_config ''wud.tag.include'' ''^2$'' ''web''))
     ''wud.tag.include'' ''web'' = Inr ''^2$''"
proof -
  have "set_service_label_value 9 demo_config ''wud.tag.include'' ''^2$'' ''web'' =
      Inr (projr (set_service_label_value 9 demo_config ''wud.tag.include'' ''^2$'' ''web''))"
    by code_simp
  from label_set_get [OF _ this] show ?thesis by simp
qed


section \<open>The marker a retag leaves\<close>

lemma tag_char_plain: "tag_char c \<Longrightarrow> \<not> py_space c \<and> \<not> line_end c"
  by (auto simp: tag_char_def is_word_def is_alpha_def is_digit_def py_space_def line_end_def Let_def)

lemma splitlines_one: "\<forall>c \<in> set w. \<not> line_end c \<Longrightarrow> splitlines_keep (w @ [newline]) = [w @ [newline]]"
  by (induction w) (auto simp: newline_def line_end_def Let_def)

lemma drop_line_end_newline: "\<forall>c \<in> set w. \<not> line_end c \<Longrightarrow> drop_line_end (w @ [newline]) = w"
  by (cases w rule: rev_cases) (auto simp: drop_line_end_def newline_def line_end_def Let_def)

lemma strip_one_space: "s \<noteq> [] \<Longrightarrow> \<not> py_space (hd s) \<Longrightarrow> \<not> py_space (last s) \<Longrightarrow> py_strip (CHR '' '' # s) = s"
  using strip_by_id [of s py_space] by (auto simp: py_strip_def strip_by_def py_space_def)

lemma marker_line:
  assumes "tag_value_valid tag"
  shows "comment_line_resolved_tag_marker (''# '' @ DIGEST_PIN_MARKER_PREFIX @ tag) = Some tag"
proof -
  have c: "\<forall>c \<in> set tag. \<not> py_space c" using tag_value_valid_chars [OF assms] tag_char_plain by blast
  have ne: "tag \<noteq> []" using assms by (auto simp: tag_value_valid_def)
  have l: "\<not> py_space (last tag)" "\<not> py_space (hd tag)" using c ne by auto
  let ?m = "DIGEST_PIN_MARKER_PREFIX @ tag"
  have m: "?m \<noteq> []" "hd ?m = CHR ''w''" "last ?m = last tag" using ne by (auto simp: DIGEST_PIN_MARKER_PREFIX_def)
  have sp: "\<not> py_space (CHR ''#'')" "\<not> py_space (CHR ''w'')" by (simp_all add: py_space_def)
  have "py_strip (''# '' @ ?m) = ''# '' @ ?m"
    unfolding py_strip_def by (rule strip_by_id) (use l m sp ne in \<open>auto simp: py_space_def\<close>)
  moreover have "py_strip (CHR '' '' # ?m) = ?m" by (rule strip_one_space) (use m l sp in auto)
  moreover have "py_strip tag = tag" unfolding py_strip_def by (rule strip_by_id) (use l in auto)
  ultimately show ?thesis
    by (simp add: comment_line_resolved_tag_marker_def Let_def startswith_def removeprefix_def)
qed

definition markers_of :: "string \<Rightarrow> string list" where
  "markers_of v = filter (\<lambda>m. m \<noteq> '''')
     (List.map_filter (\<lambda>l. comment_line_resolved_tag_marker (drop_line_end l)) (splitlines_keep v))"

lemma markers_of_comment:
  assumes "tag_value_valid tag"
  shows "markers_of (comment_before (DIGEST_PIN_MARKER_PREFIX @ tag)) = [tag]"
proof -
  let ?w = "''# '' @ DIGEST_PIN_MARKER_PREFIX @ tag"
  have "\<forall>c \<in> set ?w. \<not> line_end c"
    using tag_value_valid_chars [OF assms] tag_char_plain
    by (auto simp: DIGEST_PIN_MARKER_PREFIX_def line_end_def)
  moreover have "comment_before (DIGEST_PIN_MARKER_PREFIX @ tag) = ?w @ [newline]" by (simp add: comment_before_def)
  moreover have "tag \<noteq> ''''" using assms by (auto simp: tag_value_valid_def)
  ultimately show ?thesis
    using marker_line [OF assms] splitlines_one [of ?w] drop_line_end_newline [of ?w]
    by (simp add: markers_of_def List.map_filter_def)
qed

lemma marker_tokens:
  "service_resolved_tag_marker service tokens =
     (case sorted_set (concat (map markers_of tokens)) of
        [] \<Rightarrow> Inr ''''
      | [tag] \<Rightarrow> if tag_value_valid tag then Inr tag
          else Inl (''Service '' @ service @ '' resolved-tag marker has invalid tag '' @ tag @ ''.'')
      | vs \<Rightarrow> Inl (''Service '' @ service @ '' has conflicting resolved-tag markers: '' @ join_with '', '' vs @ ''.''))"
  unfolding service_resolved_tag_marker_def Let_def markers_of_def [abs_def, symmetric]
  by (rule list.case_cong) (simp_all split: list.split)

lemma no_marker: "service_resolved_tag_marker service tokens = Inr '''' \<Longrightarrow> concat (map markers_of tokens) = []"
  by (auto simp: marker_tokens tag_value_valid_def simp del: concat_eq_Nil_conv split: list.splits if_splits)

lemma plan_edit_Inr [simp]: "plan_edit m = Inr x \<longleftrightarrow> m = Inr x"
  by (cases m) (auto simp: plan_edit_def)

lemma cleared_comments:
  assumes "clear_service_resolved_tag_markers s c = Inr c'"
  shows "concat (map markers_of (yc_comments c')) = [] \<and> (\<exists>k. c' = c\<lparr>yc_comments := k\<rparr>)"
proof -
  define k where "k = map fst (filter snd (map clear_comment_token_resolved_tag_markers (yc_comments c)))"
  have m: "config_marker s (c\<lparr>yc_comments := k\<rparr>) = Inr ''''" and c': "c' = c\<lparr>yc_comments := k\<rparr>"
    using assms by (auto simp add: clear_service_resolved_tag_markers_def Let_def edit_Inr simp flip: k_def)
  from m have "service_resolved_tag_marker s (yc_comments c') = Inr ''''" by (simp add: c' config_marker_def)
  from no_marker [OF this] c' show ?thesis by blast
qed

lemma marker_set:
  assumes "update_service_resolved_tag_marker s c (DIGEST_PIN_MARKER_PREFIX @ tag) = Inr c'" and "tag_value_valid tag"
  shows "config_marker s c' = Inr tag \<and> (\<exists>k. c' = c\<lparr>yc_comments := k\<rparr>)"
proof -
  obtain c1 where c1: "clear_service_resolved_tag_markers s c = Inr c1"
      and c': "c' = c1\<lparr>yc_comments := yc_comments c1 @ [comment_before (DIGEST_PIN_MARKER_PREFIX @ tag)]\<rparr>"
    using assms(1) by (auto simp: update_service_resolved_tag_marker_def edit_Inr DIGEST_PIN_MARKER_PREFIX_def)
  have "concat (map markers_of (yc_comments c')) = [tag]"
    using cleared_comments [OF c1] markers_of_comment [OF assms(2)] c' by simp
  then have "config_marker s c' = Inr tag"
    using assms(2) by (simp add: config_marker_def marker_tokens sorted_set_def plan_edit_def)
  then show ?thesis using cleared_comments [OF c1] c' by auto
qed

text \<open>Labels and image of a service after its transform was added.\<close>

lemma get_label_image [simp]:
  "get_service_label_value (c\<lparr>yc_comments := k\<rparr>) key s = get_service_label_value c key s"
  "get_service_label_value (c\<lparr>yc_image := i, yc_image_node := n\<rparr>) key s = get_service_label_value c key s"
  by (simp_all add: get_service_label_value_def)

lemma transform_keeps:
  assumes "add_transform fresh c s tag v transforms = Inr (c', added)" and "key \<noteq> WUD_TAG_TRANSFORM_LABEL"
  shows "get_service_label_value c' key s = get_service_label_value c key s"
proof -
  have k: "CHR ''='' \<notin> set WUD_TAG_TRANSFORM_LABEL" by (simp add: WUD_TAG_TRANSFORM_LABEL_def)
  consider "c' = c" | t where "set_service_label_value fresh c WUD_TAG_TRANSFORM_LABEL t s = Inr c'"
  proof -
    from assms(1) obtain pr ad where
      "(case ad of [] \<Rightarrow> Inr (c, []) | (_, t) # rest \<Rightarrow>
          edit_bind (set_service_label_value fresh c WUD_TAG_TRANSFORM_LABEL (compose_escape_dollars t) s)
            (\<lambda>config'. Inr (config', ad))) = (Inr (c', added) :: (service_config \<times> (string \<times> string) list) edit)"
      by (auto simp: add_transform_def edit_Inr simp del: split_paired_Ex split_paired_All)
    then show thesis using that by (auto simp: edit_Inr split: list.splits)
  qed
  then show ?thesis
  proof cases
    case 2
    from set_label_value_reads [OF k this] assms(2) show ?thesis by blast
  qed simp
qed

text \<open>C18: A digest pin or retag of a service that does not fail leaves the service with the final image,
  with the tracking label reading the planned value (the tag stream's, when one was approved), with
  exactly one resolved-tag marker, that of the watched tag, and no other service of the file
  changed.
\<close>

theorem retag_service_outcome:
  fixes u :: digest_pin_update
  assumes run: "retag_service stack_name source offsets streams approvals transforms u s st = Inr st'"
    and key: "dp_label_key u \<noteq> WUD_TAG_TRANSFORM_LABEL" "CHR ''='' \<notin> set (dp_label_key u)"
    and marker: "dp_marker u = DIGEST_PIN_MARKER_PREFIX @ dp_watch_tag u" "tag_value_valid (dp_watch_tag u)"
  shows "(\<exists>c. map_of (rs_services st') s = Some (Some c) \<and>
      yc_image c = Text (dp_final_image u) \<and>
      get_service_label_value c (dp_label_key u) s =
        Inr (case map_of streams s of None \<Rightarrow> dp_label_value u | Some su \<Rightarrow> su_proposed_label_value su) \<and>
      config_marker s c = Inr (dp_watch_tag u)) \<and>
    (\<forall>s'. s' \<noteq> s \<longrightarrow> map_of (rs_services st') s' = map_of (rs_services st) s')"
proof -
  obtain config config1 raw v rewrite streamed config2 config3 added config4 fresh where
      v: "retag_label_rewrite stack_name s (image_text config) (compose_unescape_dollars raw) u
            (map_of streams s) approvals = Inr (v, rewrite, streamed)"
    and c2: "set_service_label_value fresh config1 (dp_label_key u) v s = Inr config2"
    and c3: "add_transform fresh config2 s (dp_watch_tag u) v transforms = Inr (config3, added)"
    and c4: "update_service_resolved_tag_marker s
       (config3\<lparr>yc_image := Text (dp_final_image u), yc_image_node := None\<rparr>) (dp_marker u) = Inr config4"
    and st': "rs_services st' = set_service s config4 (rs_services st)"
    using run by (auto simp: retag_service_def edit_Inr Let_def simp del: split_paired_Ex split_paired_All)
  have "get_service_label_value config2 (dp_label_key u) s = Inr v"
    using set_label_value_reads [OF key(2) c2] by blast
  then have l3: "get_service_label_value config3 (dp_label_key u) s = Inr v"
    using transform_keeps [OF c3 key(1)] by simp
  from marker_set [OF c4 [unfolded marker(1)] marker(2)] obtain k where
      m: "config_marker s config4 = Inr (dp_watch_tag u)"
    and k: "config4 = config3\<lparr>yc_image := Text (dp_final_image u), yc_image_node := None, yc_comments := k\<rparr>"
    by auto
  have "v = (case map_of streams s of None \<Rightarrow> dp_label_value u | Some su \<Rightarrow> su_proposed_label_value su)"
    using v by (auto simp: retag_label_rewrite_def split: option.splits sum.splits if_splits)
  moreover have "get_service_label_value config4 (dp_label_key u) s = Inr v" using l3 k by simp
  ultimately show ?thesis
    using m k by (simp add: st' set_service_def update_conv')
qed

definition demo_pin :: digest_pin_update where
  "demo_pin = \<lparr>dp_old_image = ''y:1'', dp_resolved_tag = ''1'', dp_resolved_image = ''y:1'',
     dp_planned_digest = ''sha256:ab'', dp_final_image = ''y@sha256:ab'', dp_watch_tag = ''1'',
     dp_marker = ''wudup.resolved-tag=1'', dp_label_key = ''wud.tag.include'', dp_label_value = ''^1$$'',
     dp_services = [''b'']\<rparr>"

definition demo_retag :: "retag_state edit" where
  "demo_retag = retag_service ''web'' demo_source (line_start_offsets demo_source) [] [] None demo_pin ''b''
     \<lparr>rs_services = demo_services, rs_seen = {}, rs_labels = [], rs_transforms = [], rs_streams = []\<rparr>"

theorem retag_service_outcome_witness:
  "map_of (rs_services (projr demo_retag)) ''a'' = Some (Some (demo_service 1 ''x:1'' 1 1)) \<and>
   (\<exists>c. map_of (rs_services (projr demo_retag)) ''b'' = Some (Some c) \<and> yc_image c = Text ''y@sha256:ab'' \<and>
      get_service_label_value c ''wud.tag.include'' ''b'' = Inr ''^1$$'' \<and> config_marker ''b'' c = Inr ''1'')"
proof -
  have run: "retag_service ''web'' demo_source (line_start_offsets demo_source) [] [] None demo_pin ''b''
     \<lparr>rs_services = demo_services, rs_seen = {}, rs_labels = [], rs_transforms = [], rs_streams = []\<rparr> =
     Inr (projr demo_retag)"
    by code_simp
  have "dp_label_key demo_pin \<noteq> WUD_TAG_TRANSFORM_LABEL" "CHR ''='' \<notin> set (dp_label_key demo_pin)"
       "dp_marker demo_pin = DIGEST_PIN_MARKER_PREFIX @ dp_watch_tag demo_pin" "tag_value_valid (dp_watch_tag demo_pin)"
    by code_simp+
  from retag_service_outcome [OF run this] show ?thesis by (simp add: demo_pin_def demo_services_def)
qed

end
