(* ===== verification/Flow_Bounds.thy ===== *)
theory Flow_Bounds
  imports Compose_Source
begin

text \<open>
  The scan of a flow-style label collection (\<open>_flow_collection_bounds\<close> in
  \<open>src/src/wudup/compose_source.py\<close>): where it ends and after which character an entry is added. What
  the scan finds is compared with a grammar of flow collections that knows no scanner state.
\<close>

section \<open>A grammar of flow collections\<close>

definition bracket :: "char \<Rightarrow> bool" where
  "bracket c \<longleftrightarrow> c = CHR ''['' \<or> c = CHR ''{''"

definition plain_flow :: "char \<Rightarrow> bool" where
  "plain_flow c \<longleftrightarrow> \<not> quote_char c \<and> c \<notin> set ''[]{}''"

text \<open>What may stand between two quotes: a single quote only doubled, a double quote only after a backslash.\<close>

fun single_body :: "string \<Rightarrow> bool" where
  "single_body [] = True"
| "single_body (c # cs) =
     (if c = CHR 0x27 then (case cs of [] \<Rightarrow> False | d # r \<Rightarrow> d = CHR 0x27 \<and> single_body r) else single_body cs)"

fun double_body :: "string \<Rightarrow> bool" where
  "double_body [] = True"
| "double_body (c # cs) =
     (if c = CHR 0x22 then False
      else if c = CHR 0x5C then (case cs of [] \<Rightarrow> False | d # r \<Rightarrow> double_body r) else double_body cs)"

text \<open>
  \<open>flow_items p s n\<close>: the text \<open>s\<close> behind the character \<open>p\<close> is a sequence of plain characters, quoted texts, comments
  (after white space, to the end of the line) and balanced collections, and its last significant
  character, neither white space nor in a comment, is the \<open>n\<close>-th, none if \<open>n\<close> is 0.
\<close>

inductive flow_items :: "char \<Rightarrow> string \<Rightarrow> nat \<Rightarrow> bool" where
  items_none: "flow_items p '''' 0"
| items_plain: "flow_items p s n \<Longrightarrow> plain_flow c \<Longrightarrow> c = CHR ''#'' \<longrightarrow> \<not> py_space (last (p # s)) \<Longrightarrow>
    flow_items p (s @ [c]) (if py_space c then n else Suc (length s))"
| items_comment: "flow_items p s n \<Longrightarrow> py_space (last (p # s)) \<Longrightarrow> newline \<notin> set w \<Longrightarrow>
    flow_items p (s @ CHR ''#'' # w @ [newline]) n"
| items_single: "flow_items p s n \<Longrightarrow> last (p # s) \<noteq> CHR 0x27 \<Longrightarrow> single_body w \<Longrightarrow>
    flow_items p (s @ CHR 0x27 # w @ [CHR 0x27]) (length s + length w + 2)"
| items_double: "flow_items p s n \<Longrightarrow> double_body w \<Longrightarrow>
    flow_items p (s @ CHR 0x22 # w @ [CHR 0x22]) (length s + length w + 2)"
| items_nested: "flow_items p s n \<Longrightarrow> bracket b \<Longrightarrow> flow_items b t m \<Longrightarrow>
    flow_items p (s @ b # t @ [closing_of b]) (length s + length t + 2)"

lemma flow_items_append:
  "flow_items q t m \<Longrightarrow> flow_items p s n \<Longrightarrow> q = last (p # s) \<Longrightarrow>
     flow_items p (s @ t) (if m = 0 then n else length s + m)"
proof (induction rule: flow_items.induct)
  case (items_none q)
  then show ?case by simp
next
  case (items_plain q t m c)
  then have "flow_items p (s @ t) (if m = 0 then n else length s + m)" by blast
  moreover have "last (p # s @ t) = last (q # t)" using items_plain.prems by simp
  ultimately show ?case
    using flow_items.items_plain [of p "s @ t" _ c] items_plain.hyps by (auto split: if_splits)
next
  case (items_comment q t m w)
  then have "flow_items p (s @ t) (if m = 0 then n else length s + m)" by blast
  moreover have "last (p # s @ t) = last (q # t)" using items_comment.prems by simp
  ultimately show ?case
    using flow_items.items_comment [of p "s @ t" _ w] items_comment.hyps by simp
next
  case (items_single q t m w)
  then have "flow_items p (s @ t) (if m = 0 then n else length s + m)" by blast
  moreover have "last (p # s @ t) = last (q # t)" using items_single.prems by simp
  ultimately show ?case
    using flow_items.items_single [of p "s @ t" _ w] items_single.hyps by (simp add: add.assoc)
next
  case (items_double q t m w)
  then have "flow_items p (s @ t) (if m = 0 then n else length s + m)" by blast
  then show ?case
    using flow_items.items_double [of p "s @ t" _ w] items_double.hyps by (simp add: add.assoc)
next
  case (items_nested q t m b u k)
  then have "flow_items p (s @ t) (if m = 0 then n else length s + m)" by blast
  then show ?case
    using flow_items.items_nested [of p "s @ t" _ b u k] items_nested.hyps by (simp add: add.assoc)
qed

section \<open>Single steps of the scan\<close>

text \<open>The states of the scan: outside of everything, in a quoted text and in a comment.\<close>

abbreviation flow_out :: "string \<Rightarrow> nat \<Rightarrow> flow_state" where
  "flow_out os l \<equiv> \<lparr>fl_open = os, fl_quote = None, fl_escaped = False, fl_comment = False, fl_last = l\<rparr>"

abbreviation flow_quoted :: "string \<Rightarrow> char \<Rightarrow> bool \<Rightarrow> nat \<Rightarrow> flow_state" where
  "flow_quoted os q esc l \<equiv> \<lparr>fl_open = os, fl_quote = Some q, fl_escaped = esc, fl_comment = False, fl_last = l\<rparr>"

abbreviation flow_comment :: "string \<Rightarrow> nat \<Rightarrow> flow_state" where
  "flow_comment os l \<equiv> \<lparr>fl_open = os, fl_quote = None, fl_escaped = False, fl_comment = True, fl_last = l\<rparr>"

lemma drop_ConsD: "drop i s = c # r \<Longrightarrow> i < length s \<and> s ! i = c \<and> drop (Suc i) s = r"
  by (metis Cons_nth_drop_Suc drop_eq_Nil2 leI list.inject list.distinct(1))

lemma scan_plain:
  assumes "drop i s = c # r" "plain_flow c" "start < i" "c = CHR ''#'' \<longrightarrow> \<not> py_space (s ! (i - 1))"
  shows "flow_scan s start i (flow_out os l) = flow_scan s start (Suc i) (flow_out os (if py_space c then l else i))"
  using assms drop_ConsD [OF assms(1)]
  by (subst flow_scan.simps) (auto simp: unquoted_flow_character_def plain_flow_def Let_def)

lemma scan_open:
  assumes "drop i s = c # r" "bracket c"
  shows "flow_scan s start i (flow_out os l) = flow_scan s start (Suc i) (flow_out (c # os) i)"
  using assms drop_ConsD [OF assms(1)]
  by (subst flow_scan.simps) (auto simp: unquoted_flow_character_def bracket_def quote_char_def Let_def)

lemma scan_close:
  assumes "drop i s = closing_of b # r"
  shows "flow_scan s start i (flow_out (b # bs) l) =
    (if bs = [] then Inr (Suc i, l) else flow_scan s start (Suc i) (flow_out bs i))"
  using drop_ConsD [OF assms]
  by (subst flow_scan.simps) (auto simp: unquoted_flow_character_def closing_of_def quote_char_def Let_def)

lemma scan_quote:
  assumes "drop i s = c # r" "quote_char c"
  shows "flow_scan s start i (flow_out os l) = flow_scan s start (Suc i) (flow_quoted os c False i)"
  using assms drop_ConsD [OF assms(1)]
  by (subst flow_scan.simps) (auto simp: unquoted_flow_character_def quote_char_def Let_def)

lemma scan_hash:
  assumes "drop i s = CHR ''#'' # r" "py_space (s ! (i - 1))"
  shows "flow_scan s start i (flow_out os l) = flow_scan s start (Suc i) (flow_comment os l)"
  using assms drop_ConsD [OF assms(1)]
  by (subst flow_scan.simps) (auto simp: unquoted_flow_character_def Let_def)

lemma scan_comment_step:
  "drop i s = c # r \<Longrightarrow>
   flow_scan s start i (flow_comment os l) = flow_scan s start (Suc i) (if c = newline then flow_out os l else flow_comment os l)"
  using drop_ConsD [of i s c r] by (subst flow_scan.simps) simp

lemma scan_quoted_step:
  "drop i s = c # r \<Longrightarrow>
   flow_scan s start i (flow_quoted os q esc l) =
     (case quoted_flow_character s i q (flow_quoted os q esc l) of (st, j) \<Rightarrow> flow_scan s start (Suc j) st)"
  using drop_ConsD [of i s c r] by (subst flow_scan.simps) simp

lemma scan_comment:
  "drop i s = w @ newline # r \<Longrightarrow> newline \<notin> set w \<Longrightarrow>
   flow_scan s start i (flow_comment os l) = flow_scan s start (i + length w + 1) (flow_out os l)"
proof (induction w arbitrary: i)
  case (Cons c w)
  then show ?case
    using Cons.IH [of "Suc i"] drop_ConsD [of i s c "w @ newline # r"]
      scan_comment_step [of i s c "w @ newline # r" start os l] by auto
qed (simp add: scan_comment_step)

lemma scan_single:
  "single_body w \<Longrightarrow> drop i s = w @ CHR 0x27 # r \<Longrightarrow> take 1 r \<noteq> [CHR 0x27] \<Longrightarrow>
   flow_scan s start i (flow_quoted os (CHR 0x27) False l) = flow_scan s start (i + length w + 1) (flow_out os (i + length w))"
proof (induction w arbitrary: i l rule: single_body.induct)
  case 1
  then show ?case
    using drop_ConsD [of i s "CHR 0x27" r] scan_quoted_step [of i s "CHR 0x27" r]
    by (simp add: quoted_flow_character_def Let_def)
next
  case (2 c cs)
  have d: "drop i s = c # cs @ CHR 0x27 # r" "i < length s" "s ! i = c" "drop (Suc i) s = cs @ CHR 0x27 # r"
    using drop_ConsD [of i s c] 2(4) by auto
  show ?case
  proof (cases "c = CHR 0x27")
    case True
    then obtain cs' where cs: "cs = CHR 0x27 # cs'" "single_body cs'"
      using 2(3) by (cases cs) auto
    have d': "drop (Suc (Suc i)) s = cs' @ CHR 0x27 # r" using drop_ConsD [of "Suc i" s "CHR 0x27"] d(4) cs by simp
    have "flow_scan s start i (flow_quoted os (CHR 0x27) False l) =
        flow_scan s start (Suc (Suc i)) (flow_quoted os (CHR 0x27) False (Suc i))"
      using d True cs scan_quoted_step [OF d(1)] by (simp add: quoted_flow_character_def Let_def)
    also have "\<dots> = flow_scan s start (Suc (Suc i) + length cs' + 1) (flow_out os (Suc (Suc i) + length cs'))"
      using 2(1) [OF True cs(1) cs(2) d'] 2(5) by simp
    finally show ?thesis by (simp add: cs(1))
  next
    case False
    have "flow_scan s start i (flow_quoted os (CHR 0x27) False l) = flow_scan s start (Suc i) (flow_quoted os (CHR 0x27) False i)"
      using d False scan_quoted_step [OF d(1)] by (simp add: quoted_flow_character_def Let_def)
    also have "\<dots> = flow_scan s start (Suc i + length cs + 1) (flow_out os (Suc i + length cs))"
      using 2(2) [OF False _ d(4)] 2(3,5) False by simp
    finally show ?thesis by simp
  qed
qed

lemma scan_double:
  "double_body w \<Longrightarrow> drop i s = w @ CHR 0x22 # r \<Longrightarrow>
   flow_scan s start i (flow_quoted os (CHR 0x22) False l) = flow_scan s start (i + length w + 1) (flow_out os (i + length w))"
proof (induction w arbitrary: i l rule: double_body.induct)
  case 1
  then show ?case
    using drop_ConsD [of i s "CHR 0x22" r] scan_quoted_step [of i s "CHR 0x22" r]
    by (simp add: quoted_flow_character_def Let_def)
next
  case (2 c cs)
  have d: "drop i s = c # cs @ CHR 0x22 # r" "i < length s" "s ! i = c" "drop (Suc i) s = cs @ CHR 0x22 # r"
    using drop_ConsD [of i s c] 2(4) by auto
  have q: "c \<noteq> CHR 0x22" using 2(3) by auto
  show ?case
  proof (cases "c = CHR 0x5C")
    case True
    then obtain e cs' where cs: "cs = e # cs'" "double_body cs'"
      using 2(3) by (cases cs) auto
    have d': "drop (Suc i) s = e # cs' @ CHR 0x22 # r" "drop (Suc (Suc i)) s = cs' @ CHR 0x22 # r"
      using drop_ConsD [of "Suc i" s e] d(4) cs by simp_all
    have "flow_scan s start i (flow_quoted os (CHR 0x22) False l) = flow_scan s start (Suc i) (flow_quoted os (CHR 0x22) True i)"
      using d True scan_quoted_step [OF d(1)] by (simp add: quoted_flow_character_def Let_def)
    also have "\<dots> = flow_scan s start (Suc (Suc i)) (flow_quoted os (CHR 0x22) False (Suc i))"
      using scan_quoted_step [OF d'(1)] by (simp add: quoted_flow_character_def Let_def)
    also have "\<dots> = flow_scan s start (Suc (Suc i) + length cs' + 1) (flow_out os (Suc (Suc i) + length cs'))"
      using 2(1) [OF q True cs(1) cs(2) d'(2)] by simp
    finally show ?thesis by (simp add: cs(1))
  next
    case False
    have "flow_scan s start i (flow_quoted os (CHR 0x22) False l) = flow_scan s start (Suc i) (flow_quoted os (CHR 0x22) False i)"
      using d False q scan_quoted_step [OF d(1)] by (simp add: quoted_flow_character_def Let_def)
    also have "\<dots> = flow_scan s start (Suc i + length cs + 1) (flow_out os (Suc i + length cs))"
      using 2(2) [OF q False _ d(4)] 2(3) False q by simp
    finally show ?thesis by simp
  qed
qed

section \<open>The scan passes over items\<close>

lemma drop_past: "drop i s = t @ r \<Longrightarrow> drop (i + length t) s = r"
  by (metis add.commute append_eq_conv_conj drop_drop)

lemma last_past:
  assumes "drop i s = t @ r" and "0 < i"
  shows "s ! (i + length t - 1) = last (s ! (i - 1) # t)"
proof (cases t rule: rev_cases)
  case (snoc u c)
  have "drop (i + length u) s = c # r" using drop_past [of i s u "c # r"] assms(1) snoc by simp
  then show ?thesis using drop_ConsD [of "i + length u" s c r] snoc by simp
qed simp

lemma scan_items:
  "flow_items p t n \<Longrightarrow> start < i \<Longrightarrow> s ! (i - 1) = p \<Longrightarrow> drop i s = t @ r \<Longrightarrow>
   last (p # t) = CHR 0x27 \<longrightarrow> take 1 r \<noteq> [CHR 0x27] \<Longrightarrow> os \<noteq> '''' \<Longrightarrow>
   flow_scan s start i (flow_out os l) =
     flow_scan s start (i + length t) (flow_out os (if n = 0 then l else i + n - 1))"
proof (induction arbitrary: i l r os rule: flow_items.induct)
  case (items_none p)
  then show ?case by simp
next
  case (items_plain p t n c)
  have dr: "drop i s = t @ c # r" using items_plain.prems(3) by simp
  note d = drop_past [OF dr]
  have prev: "s ! (i + length t - 1) = last (p # t)" using last_past [OF dr] items_plain.prems(1,2) by simp
  have "flow_scan s start i (flow_out os l) = flow_scan s start (i + length t) (flow_out os (if n = 0 then l else i + n - 1))"
    using items_plain.IH [OF items_plain.prems(1,2) dr _ items_plain.prems(5)] items_plain.hyps(2)
    by (auto simp: plain_flow_def quote_char_def)
  also have "\<dots> = flow_scan s start (Suc (i + length t))
      (flow_out os (if py_space c then (if n = 0 then l else i + n - 1) else i + length t))"
    using scan_plain [OF d items_plain.hyps(2)] items_plain.hyps(3) items_plain.prems(1) prev by simp
  finally show ?case by (simp add: add.assoc)
next
  case (items_comment p t n w)
  have dr: "drop i s = t @ CHR ''#'' # w @ newline # r" using items_comment.prems(3) by simp
  note d = drop_past [OF dr]
  have prev: "s ! (i + length t - 1) = last (p # t)" using last_past [OF dr] items_comment.prems(1,2) by simp
  have "flow_scan s start i (flow_out os l) = flow_scan s start (i + length t) (flow_out os (if n = 0 then l else i + n - 1))"
    using items_comment.IH [OF items_comment.prems(1,2) dr _ items_comment.prems(5)] by simp
  also have "\<dots> = flow_scan s start (Suc (i + length t)) (flow_comment os (if n = 0 then l else i + n - 1))"
    using scan_hash [OF d] prev items_comment.hyps(2) by simp
  also have "\<dots> = flow_scan s start (Suc (i + length t) + length w + 1) (flow_out os (if n = 0 then l else i + n - 1))"
    by (rule scan_comment [OF _ items_comment.hyps(3)]) (use drop_ConsD [OF d] in simp)
  finally show ?case by (simp add: add.assoc)
next
  case (items_single p t n w)
  have dr: "drop i s = t @ CHR 0x27 # w @ CHR 0x27 # r" using items_single.prems(3) by simp
  note d = drop_past [OF dr]
  have "flow_scan s start i (flow_out os l) = flow_scan s start (i + length t) (flow_out os (if n = 0 then l else i + n - 1))"
    using items_single.IH [OF items_single.prems(1,2) dr _ items_single.prems(5)] items_single.hyps(2) by simp
  also have "\<dots> = flow_scan s start (Suc (i + length t)) (flow_quoted os (CHR 0x27) False (i + length t))"
    by (rule scan_quote [OF d]) (simp add: quote_char_def)
  also have "\<dots> = flow_scan s start (Suc (i + length t) + length w + 1) (flow_out os (Suc (i + length t) + length w))"
    by (rule scan_single [OF items_single.hyps(3)]) (use drop_ConsD [OF d] items_single.prems(4) in simp_all)
  finally show ?case by (simp add: add.assoc)
next
  case (items_double p t n w)
  have dr: "drop i s = t @ CHR 0x22 # w @ CHR 0x22 # r" using items_double.prems(3) by simp
  note d = drop_past [OF dr]
  have "flow_scan s start i (flow_out os l) = flow_scan s start (i + length t) (flow_out os (if n = 0 then l else i + n - 1))"
    using items_double.IH [OF items_double.prems(1,2) dr _ items_double.prems(5)] by simp
  also have "\<dots> = flow_scan s start (Suc (i + length t)) (flow_quoted os (CHR 0x22) False (i + length t))"
    by (rule scan_quote [OF d]) (simp add: quote_char_def)
  also have "\<dots> = flow_scan s start (Suc (i + length t) + length w + 1) (flow_out os (Suc (i + length t) + length w))"
    by (rule scan_double [OF items_double.hyps(2)]) (use drop_ConsD [OF d] in simp)
  finally show ?case by (simp add: add.assoc)
next
  case (items_nested p t n b u m)
  have dr: "drop i s = t @ b # u @ closing_of b # r" using items_nested.prems(3) by simp
  note d = drop_past [OF dr]
  let ?j = "Suc (i + length t)"
  have in_b: "drop ?j s = u @ closing_of b # r" "s ! (?j - 1) = b" using drop_ConsD [OF d] by simp_all
  have b: "b \<noteq> CHR 0x27" "closing_of b \<noteq> CHR 0x27" using items_nested.hyps(2) by (auto simp: bracket_def closing_of_def)
  have "flow_scan s start i (flow_out os l) = flow_scan s start (i + length t) (flow_out os (if n = 0 then l else i + n - 1))"
    using items_nested.IH(1) [OF items_nested.prems(1,2) dr _ items_nested.prems(5)] b by simp
  also have "\<dots> = flow_scan s start ?j (flow_out (b # os) (i + length t))"
    by (rule scan_open [OF d items_nested.hyps(2)])
  also have "\<dots> = flow_scan s start (?j + length u) (flow_out (b # os) (if m = 0 then i + length t else ?j + m - 1))"
    by (rule items_nested.IH(2) [OF _ in_b(2,1)]) (use items_nested.prems(1) b in simp_all)
  also have "\<dots> = flow_scan s start (Suc (?j + length u)) (flow_out os (?j + length u))"
    using scan_close [OF drop_past [OF in_b(1)]] items_nested.prems(5) by simp
  finally show ?case by (simp add: add.assoc)
qed

section \<open>What the scan accepts is a sequence of items\<close>

lemma scan_end: "length s \<le> i \<Longrightarrow> flow_scan s start i st \<noteq> Inr x"
  by (subst flow_scan.simps) simp

lemma comment_found:
  "flow_scan s start i (flow_comment os l) = Inr x \<Longrightarrow> \<exists>w r. drop i s = w @ newline # r \<and> newline \<notin> set w"
proof (induction "length s - i" arbitrary: i rule: less_induct)
  case less
  have i: "i < length s" using less.prems scan_end [of s i] by (meson leI)
  then have lt1: "length s - Suc i < length s - i" and lt2: "length s - Suc (Suc i) < length s - i" by simp_all
  from i have d: "drop i s = s ! i # drop (Suc i) s" by (simp add: Cons_nth_drop_Suc)
  show ?case
  proof (cases "s ! i = newline")
    case True
    then show ?thesis using d by (intro exI [of _ "''''"] exI [of _ "drop (Suc i) s"]) auto
  next
    case False
    then obtain w r where w: "drop (Suc i) s = w @ newline # r" "newline \<notin> set w"
      using less.hyps [OF lt1] less.prems scan_comment_step [OF d] by auto
    then show ?thesis using d False by (intro exI [of _ "s ! i # w"] exI [of _ r]) auto
  qed
qed

lemma single_found:
  "flow_scan s start i (flow_quoted os (CHR 0x27) False l) = Inr x \<Longrightarrow>
   \<exists>w r. drop i s = w @ CHR 0x27 # r \<and> single_body w \<and> take 1 r \<noteq> [CHR 0x27]"
proof (induction "length s - i" arbitrary: i l rule: less_induct)
  case less
  have i: "i < length s" using less.prems scan_end [of s i] by (meson leI)
  then have lt1: "length s - Suc i < length s - i" and lt2: "length s - Suc (Suc i) < length s - i" by simp_all
  from i have d: "drop i s = s ! i # drop (Suc i) s" by (simp add: Cons_nth_drop_Suc)
  note step = scan_quoted_step [OF d, of start os "CHR 0x27" False l]
  show ?case
  proof (cases "s ! i = CHR 0x27")
    case q: True
    show ?thesis
    proof (cases "take 1 (drop (Suc i) s) = [CHR 0x27]")
      case True
      then have d2: "drop (Suc i) s = CHR 0x27 # drop (Suc (Suc i)) s"
        by (cases "drop (Suc i) s") (auto dest: drop_ConsD)
      then have "flow_scan s start (Suc (Suc i)) (flow_quoted os (CHR 0x27) False (Suc i)) = Inr x"
        using step q less.prems by (simp add: quoted_flow_character_def Let_def)
      from less.hyps [OF lt2 this] obtain w r where "drop (Suc (Suc i)) s = w @ CHR 0x27 # r" "single_body w" "take 1 r \<noteq> [CHR 0x27]"
        by auto
      then show ?thesis using d d2 q by (intro exI [of _ "CHR 0x27 # CHR 0x27 # w"] exI [of _ r]) auto
    next
      case False
      then show ?thesis using d q by (intro exI [of _ "''''"] exI [of _ "drop (Suc i) s"]) auto
    qed
  next
    case False
    then have "flow_scan s start (Suc i) (flow_quoted os (CHR 0x27) False i) = Inr x"
      using step less.prems by (simp add: quoted_flow_character_def Let_def)
    from less.hyps [OF lt1 this] obtain w r where "drop (Suc i) s = w @ CHR 0x27 # r" "single_body w" "take 1 r \<noteq> [CHR 0x27]"
      by auto
    then show ?thesis using d False by (intro exI [of _ "s ! i # w"] exI [of _ r]) auto
  qed
qed

lemma double_found:
  "flow_scan s start i (flow_quoted os (CHR 0x22) False l) = Inr x \<Longrightarrow>
   \<exists>w r. drop i s = w @ CHR 0x22 # r \<and> double_body w"
proof (induction "length s - i" arbitrary: i l rule: less_induct)
  case less
  have i: "i < length s" using less.prems scan_end [of s i] by (meson leI)
  then have lt1: "length s - Suc i < length s - i" and lt2: "length s - Suc (Suc i) < length s - i" by simp_all
  from i have d: "drop i s = s ! i # drop (Suc i) s" by (simp add: Cons_nth_drop_Suc)
  note step = scan_quoted_step [OF d, of start os "CHR 0x22" False l]
  consider "s ! i = CHR 0x22" | "s ! i = CHR 0x5C" | "s ! i \<noteq> CHR 0x22" "s ! i \<noteq> CHR 0x5C" by blast
  then show ?case
  proof cases
    case 1
    then show ?thesis using d by (intro exI [of _ "''''"] exI [of _ "drop (Suc i) s"]) auto
  next
    case 2
    then have e: "flow_scan s start (Suc i) (flow_quoted os (CHR 0x22) True i) = Inr x"
      using step less.prems by (simp add: quoted_flow_character_def Let_def)
    have i': "Suc i < length s" using e scan_end [of s "Suc i"] by (meson leI)
    then have d': "drop (Suc i) s = s ! Suc i # drop (Suc (Suc i)) s" by (simp add: Cons_nth_drop_Suc)
    have "flow_scan s start (Suc (Suc i)) (flow_quoted os (CHR 0x22) False (Suc i)) = Inr x"
      using scan_quoted_step [OF d', of start os "CHR 0x22" True i] e by (simp add: quoted_flow_character_def Let_def)
    from less.hyps [OF lt2 this] obtain w r where "drop (Suc (Suc i)) s = w @ CHR 0x22 # r" "double_body w" by auto
    then show ?thesis using d d' 2 by (intro exI [of _ "CHR 0x5C # s ! Suc i # w"] exI [of _ r]) auto
  next
    case 3
    then have "flow_scan s start (Suc i) (flow_quoted os (CHR 0x22) False i) = Inr x"
      using step less.prems by (simp add: quoted_flow_character_def Let_def)
    from less.hyps [OF lt1 this] obtain w r where "drop (Suc i) s = w @ CHR 0x22 # r" "double_body w" by auto
    then show ?thesis using d 3 by (intro exI [of _ "s ! i # w"] exI [of _ r]) auto
  qed
qed

lemma scan_found:
  "flow_scan s start i (flow_out (b # bs) l) = Inr x \<Longrightarrow> start < i \<Longrightarrow>
   s ! (i - 1) = CHR 0x27 \<longrightarrow> take 1 (drop i s) \<noteq> [CHR 0x27] \<Longrightarrow>
   \<exists>t n r. drop i s = t @ closing_of b # r \<and> flow_items (s ! (i - 1)) t n"
proof (induction "length s - i" arbitrary: i b bs l rule: less_induct)
  case less
  let ?p = "s ! (i - 1)"
  have i: "i < length s" using less.prems(1) scan_end [of s i] by (meson leI)
  define c where "c = s ! i"
  have d: "drop i s = c # drop (Suc i) s" using i by (simp add: c_def Cons_nth_drop_Suc)
  have onward: "\<exists>t n r. drop i s = t @ closing_of b # r \<and> flow_items ?p t n"
    if item: "flow_items ?p u k" "drop i s = u @ drop (i + length u) s" "u \<noteq> ''''"
      and go: "flow_scan s start (i + length u) (flow_out (b # bs) l') = Inr x"
      and quote: "last u = CHR 0x27 \<longrightarrow> take 1 (drop (i + length u) s) \<noteq> [CHR 0x27]" for u k l'
  proof -
    have lt: "length s - (i + length u) < length s - i" using item(3) i by (cases u) auto
    have prev: "s ! (i + length u - 1) = last u"
      using last_past [OF item(2)] less.prems(2) item(3) by simp
    have lu: "last (?p # u) = last u" using item(3) by simp
    obtain t n r where t: "drop (i + length u) s = t @ closing_of b # r" "flow_items (last u) t n"
      using less.hyps [OF lt go _ quote [folded prev]] less.prems(2) unfolding prev by auto
    have "flow_items ?p (u @ t) (if n = 0 then k else length u + n)"
      by (rule flow_items_append [OF t(2) item(1) lu [symmetric]])
    moreover have "drop i s = (u @ t) @ closing_of b # r" using item(2) t(1) by simp
    ultimately show ?thesis by blast
  qed
  have one: "drop i s = [c] @ drop (i + length [c]) s" using d by simp
  consider (close) "c = closing_of b" | (odd) "c \<in> set '']}''" "c \<noteq> closing_of b" | (nested) "bracket c"
    | (single) "c = CHR 0x27" | (double) "c = CHR 0x22" | (hash) "c = CHR ''#''" "py_space ?p"
    | (plain) "plain_flow c" "c = CHR ''#'' \<longrightarrow> \<not> py_space ?p"
    by (auto simp: plain_flow_def quote_char_def bracket_def)
  then show ?case
  proof cases
    case close
    then show ?thesis using d flow_items.items_none by (intro exI [of _ "''''"] exI [of _ 0] exI [of _ "drop (Suc i) s"]) simp
  next
    case odd
    then have "flow_scan s start i (flow_out (b # bs) l) = Inl (Rewrite ''Service labels use a malformed flow collection.'')"
      using i by (subst flow_scan.simps) (auto simp: unquoted_flow_character_def c_def quote_char_def Let_def)
    then show ?thesis using less.prems(1) by simp
  next
    case nested
    have in_c: "flow_scan s start (Suc i) (flow_out (c # b # bs) i) = Inr x"
      using scan_open [OF d nested] less.prems(1) by simp
    have cq: "c \<noteq> CHR 0x27" "closing_of c \<noteq> CHR 0x27" using nested by (auto simp: bracket_def closing_of_def)
    have lt1: "length s - Suc i < length s - i" using i by simp
    obtain t n r where t: "drop (Suc i) s = t @ closing_of c # r" "flow_items c t n"
      using less.hyps [OF lt1 in_c] less.prems(2) cq by (auto simp: c_def)
    have "flow_scan s start (Suc i + length t) (flow_out (c # b # bs) (if n = 0 then i else Suc i + n - 1)) = Inr x"
      using scan_items [OF t(2) _ _ t(1), of start "c # b # bs" i] in_c less.prems(2) cq by (simp add: c_def)
    then have "flow_scan s start (Suc (Suc i + length t)) (flow_out (b # bs) (Suc i + length t)) = Inr x"
      using scan_close [OF drop_past [OF t(1)]] by simp
    moreover have "flow_items ?p (c # t @ [closing_of c]) (length t + 2)"
      using flow_items.items_nested [OF items_none nested t(2), of ?p] by simp
    moreover have "drop (i + length (c # t @ [closing_of c])) s = r"
      by (rule drop_past) (use d t(1) in simp)
    ultimately show ?thesis
      using onward [of "c # t @ [closing_of c]" "length t + 2" "Suc i + length t"] d t(1) cq by simp
  next
    case single
    have q: "quote_char c" using single by (simp add: quote_char_def)
    have in_q: "flow_scan s start (Suc i) (flow_quoted (b # bs) (CHR 0x27) False i) = Inr x"
      using scan_quote [OF d q] less.prems(1) single by simp
    obtain w r where w: "drop (Suc i) s = w @ CHR 0x27 # r" "single_body w" "take 1 r \<noteq> [CHR 0x27]"
      using single_found [OF in_q] by blast
    have "?p \<noteq> CHR 0x27" using less.prems(3) d single by auto
    then have "flow_items ?p (c # w @ [CHR 0x27]) (length w + 2)"
      using flow_items.items_single [OF items_none _ w(2), of ?p] single by simp
    moreover have "flow_scan s start (Suc i + length w + 1) (flow_out (b # bs) (Suc i + length w)) = Inr x"
      using scan_single [OF w(2,1,3)] in_q by simp
    moreover have "drop (i + length (c # w @ [CHR 0x27])) s = r"
      by (rule drop_past) (use d w(1) in simp)
    ultimately show ?thesis
      using onward [of "c # w @ [CHR 0x27]" "length w + 2" "Suc i + length w"] d w(1,3) by simp
  next
    case double
    have q: "quote_char c" using double by (simp add: quote_char_def)
    have in_q: "flow_scan s start (Suc i) (flow_quoted (b # bs) (CHR 0x22) False i) = Inr x"
      using scan_quote [OF d q] less.prems(1) double by simp
    obtain w r where w: "drop (Suc i) s = w @ CHR 0x22 # r" "double_body w"
      using double_found [OF in_q] by blast
    have "flow_items ?p (c # w @ [CHR 0x22]) (length w + 2)"
      using flow_items.items_double [OF items_none w(2), of ?p] double by simp
    moreover have "flow_scan s start (Suc i + length w + 1) (flow_out (b # bs) (Suc i + length w)) = Inr x"
      using scan_double [OF w(2,1)] in_q by simp
    moreover have "drop (i + length (c # w @ [CHR 0x22])) s = r"
      by (rule drop_past) (use d w(1) in simp)
    ultimately show ?thesis
      using onward [of "c # w @ [CHR 0x22]" "length w + 2" "Suc i + length w"] d w(1) by simp
  next
    case hash
    have in_c: "flow_scan s start (Suc i) (flow_comment (b # bs) l) = Inr x"
      using scan_hash [of i s "drop (Suc i) s"] d hash less.prems(1) by simp
    obtain w r where w: "drop (Suc i) s = w @ newline # r" "newline \<notin> set w"
      using comment_found [OF in_c] by blast
    have "flow_items ?p (c # w @ [newline]) 0"
      using flow_items.items_comment [OF items_none _ w(2), of ?p] hash by simp
    moreover have "flow_scan s start (Suc i + length w + 1) (flow_out (b # bs) l) = Inr x"
      using scan_comment [OF w] in_c by simp
    moreover have "drop (i + length (c # w @ [newline])) s = r"
      by (rule drop_past) (use d w(1) in simp)
    ultimately show ?thesis
      using onward [of "c # w @ [newline]" 0 l] d w(1) by (simp add: newline_def)
  next
    case plain
    have "flow_scan s start (i + length [c]) (flow_out (b # bs) (if py_space c then l else i)) = Inr x"
      using scan_plain [OF d plain(1) less.prems(2) plain(2)] less.prems(1) by simp
    moreover have "flow_items ?p [c] (if py_space c then 0 else 1)"
      using flow_items.items_plain [OF items_none plain(1), of ?p] plain(2) by (cases "py_space c") simp_all
    moreover have "c \<noteq> CHR 0x27" using plain(1) by (auto simp: plain_flow_def quote_char_def)
    ultimately show ?thesis using onward [OF _ one] by simp
  qed
qed

section \<open>The bounds of a collection\<close>

text \<open>C21: The bounds found for a flow collection are those of the collection, read by a grammar that knows
  quoted texts, comments and nesting. The scan from an opening bracket succeeds exactly when the source goes
  on with a sequence of items and the bracket that closes the opening one; it then returns the position after
  that bracket and the position of the last significant character between the two, the opening bracket
  itself when there is none. Brackets in quotes and comments count for nothing.\<close>

theorem flow_collection_bounds_exact:
  assumes "bracket (source ! start)"
  shows "flow_collection_bounds source start = Inr (e, l) \<longleftrightarrow>
    (\<exists>items n rest. drop start source = source ! start # items @ closing_of (source ! start) # rest \<and>
       flow_items (source ! start) items n \<and> e = start + length items + 2 \<and> l = start + n)"
proof
  let ?b = "source ! start"
  have b: "?b \<noteq> CHR 0x27" "closing_of ?b \<noteq> CHR 0x27" using assms by (auto simp: bracket_def closing_of_def)
  have found: "flow_collection_bounds source start = Inr (start + length items + 2, start + n)"
    if "drop start source = ?b # items @ closing_of ?b # rest" "flow_items ?b items n" for items n rest
  proof -
    have d: "drop (Suc start) source = items @ closing_of ?b # rest" using drop_ConsD [OF that(1)] by simp
    have "flow_collection_bounds source start = flow_scan source start (Suc start) (flow_out [?b] start)"
      unfolding flow_collection_bounds_def by (rule scan_open [OF that(1) assms])
    also have "\<dots> = flow_scan source start (Suc start + length items) (flow_out [?b] (if n = 0 then start else Suc start + n - 1))"
      by (rule scan_items [OF that(2) _ _ d]) (use b in simp_all)
    also have "\<dots> = Inr (start + length items + 2, start + n)"
      using scan_close [OF drop_past [OF d]] by simp
    finally show ?thesis .
  qed
  show "\<exists>items n rest. drop start source = ?b # items @ closing_of ?b # rest \<and>
       flow_items ?b items n \<and> e = start + length items + 2 \<and> l = start + n"
    if "flow_collection_bounds source start = Inr (e, l)"
  proof -
    have i: "start < length source"
      using that scan_end [of source start] unfolding flow_collection_bounds_def by (meson leI)
    then have d: "drop start source = ?b # drop (Suc start) source" by (simp add: Cons_nth_drop_Suc)
    have "flow_scan source start (Suc start) (flow_out [?b] start) = Inr (e, l)"
      using that scan_open [OF d assms] unfolding flow_collection_bounds_def by simp
    from scan_found [OF this] b obtain items n rest where
      t: "drop (Suc start) source = items @ closing_of ?b # rest" "flow_items ?b items n" by auto
    then have "drop start source = ?b # items @ closing_of ?b # rest" using d by simp
    moreover from found [OF this t(2)] that have "e = start + length items + 2" "l = start + n" by simp_all
    ultimately show ?thesis using t(2) by blast
  qed
  show "flow_collection_bounds source start = Inr (e, l)"
    if "\<exists>items n rest. drop start source = ?b # items @ closing_of ?b # rest \<and>
       flow_items ?b items n \<and> e = start + length items + 2 \<and> l = start + n"
    using that found by blast
qed

theorem flow_collection_bounds_exact_witness:
  "\<exists>items rest. ''l: {a: '' @ [CHR 0x27] @ ''}'' @ [CHR 0x27] @ '', b: [2] } # x'' =
     ''l: {'' @ items @ ''}'' @ rest \<and> length items = 15 \<and> flow_items (CHR ''{'') items 14"
proof -
  let ?s = "''l: {a: '' @ [CHR 0x27] @ ''}'' @ [CHR 0x27] @ '', b: [2] } # x''"
  have "flow_collection_bounds ?s 3 = Inr (20, 17)" by code_simp
  moreover have "bracket (?s ! 3)" by (simp add: bracket_def)
  ultimately obtain items n rest where "drop 3 ?s = ?s ! 3 # items @ closing_of (?s ! 3) # rest"
      "flow_items (?s ! 3) items n" "20 = 3 + length items + 2" "17 = 3 + n"
    using flow_collection_bounds_exact [of ?s 3 20 17] by blast
  then show ?thesis by (intro exI [of _ items] exI [of _ rest]) (simp add: closing_of_def)
qed

end
