(* ===== verification/Digest_Provenance.thy ===== *)
theory Digest_Provenance
  imports Digest_Pins
begin

text \<open>
  \<open>src/src/wudup/digest_provenance.py\<close>: where the digest of a pinned image came from, and its columns in
  the database.
\<close>

record provenance =
  pv_source_image :: string
  pv_resolved_tag :: string
  pv_watch_tag :: string
  pv_target_digest :: string
  pv_final_image :: string
  pv_source :: string
  pv_confidence :: string

definition is_empty_provenance :: "provenance \<Rightarrow> bool" where
  "is_empty_provenance p =
     (pv_source_image p = '''' \<and> pv_resolved_tag p = '''' \<and> pv_watch_tag p = '''' \<and> pv_target_digest p = '''' \<and>
      pv_final_image p = '''' \<and> pv_source p = '''' \<and> pv_confidence p = '''')"

definition DIGEST_PROVENANCE_SQL_COLUMNS :: "string list" where
  "DIGEST_PROVENANCE_SQL_COLUMNS =
     [''digest_source_image'', ''digest_resolved_tag'', ''digest_watch_tag'', ''digest_target_digest'',
      ''digest_final_image'', ''digest_provenance_source'', ''digest_provenance_confidence'']"

definition sql_values :: "provenance \<Rightarrow> (string \<times> string) list" where
  "sql_values p =
     [(''digest_source_image'', pv_source_image p), (''digest_resolved_tag'', pv_resolved_tag p),
      (''digest_watch_tag'', pv_watch_tag p), (''digest_target_digest'', pv_target_digest p),
      (''digest_final_image'', pv_final_image p), (''digest_provenance_source'', pv_source p),
      (''digest_provenance_confidence'', pv_confidence p)]"

definition empty_digest_provenance_sql_values :: "(string \<times> string) list" where
  "empty_digest_provenance_sql_values = map (\<lambda>k. (k, '''')) DIGEST_PROVENANCE_SQL_COLUMNS"

definition digest_provenance_from_update :: "string \<Rightarrow> string \<Rightarrow> digest_pin_update \<Rightarrow> provenance" where
  "digest_provenance_from_update source confidence u =
     \<lparr>pv_source_image = dp_old_image u, pv_resolved_tag = dp_resolved_tag u, pv_watch_tag = dp_watch_tag u,
      pv_target_digest = dp_planned_digest u, pv_final_image = dp_final_image u, pv_source = source,
      pv_confidence = confidence\<rparr>"

definition digest_provenance_from_unpin_update :: "string \<Rightarrow> string \<Rightarrow> digest_unpin_update \<Rightarrow> provenance" where
  "digest_provenance_from_unpin_update source confidence u =
     \<lparr>pv_source_image = du_old_image u, pv_resolved_tag = du_resolved_tag u, pv_watch_tag = du_watch_tag u,
      pv_target_digest = du_target_digest u,
      pv_final_image = (if du_target_digest u \<noteq> '''' then image_with_digest (du_tag_image u) (du_target_digest u)
                        else du_tag_image u),
      pv_source = source, pv_confidence = confidence\<rparr>"

definition digest_provenance_from_digest_target ::
  "string \<Rightarrow> string \<Rightarrow> string \<Rightarrow> string \<Rightarrow> provenance option" where
  "digest_provenance_from_digest_target source confidence source_image target_digest =
     (let tag = image_tag source_image; digest = normalize_digest target_digest
      in if \<not> image_has_tag source_image \<or> tag = '''' \<or> digest = '''' then None
         else let tagged = image_with_tag source_image tag
              in Some \<lparr>pv_source_image = tagged, pv_resolved_tag = tag, pv_watch_tag = tag, pv_target_digest = digest,
                       pv_final_image = image_with_digest tagged digest, pv_source = source,
                       pv_confidence = confidence\<rparr>)"

text \<open>A row is a dictionary; an absent column and a null one both read as the empty text.\<close>

definition column :: "(string \<times> string option) list \<Rightarrow> string \<Rightarrow> string" where
  "column row k = (case map_of row k of Some (Some v) \<Rightarrow> v | _ \<Rightarrow> '''')"

definition digest_provenance_from_row :: "(string \<times> string option) list \<Rightarrow> provenance option" where
  "digest_provenance_from_row row =
     (let p = \<lparr>pv_source_image = column row ''digest_source_image'', pv_resolved_tag = column row ''digest_resolved_tag'',
               pv_watch_tag = column row ''digest_watch_tag'', pv_target_digest = column row ''digest_target_digest'',
               pv_final_image = column row ''digest_final_image'', pv_source = column row ''digest_provenance_source'',
               pv_confidence = column row ''digest_provenance_confidence''\<rparr>
      in if is_empty_provenance p then None else Some p)"

definition digest_provenance_or_empty :: "provenance option \<Rightarrow> (string \<times> string) list" where
  "digest_provenance_or_empty p =
     (case p of None \<Rightarrow> empty_digest_provenance_sql_values | Some v \<Rightarrow> sql_values v)"

section \<open>Columns\<close>

text \<open>What is stored of a provenance is read back: a row holding the columns written for a
  provenance, or for none, whatever other columns come after them, gives the provenance back, and an empty
  one is none at all. Every write names the same seven columns.\<close>

lemma provenance_row_roundtrip:
  "digest_provenance_from_row (map (\<lambda>(k, v). (k, Some v)) (digest_provenance_or_empty p) @ rest) =
     (case p of None \<Rightarrow> None | Some v \<Rightarrow> if is_empty_provenance v then None else Some v) \<and>
   map fst (digest_provenance_or_empty p) = DIGEST_PROVENANCE_SQL_COLUMNS"
  by (cases p)
    (auto simp: digest_provenance_from_row_def digest_provenance_or_empty_def column_def sql_values_def
      empty_digest_provenance_sql_values_def DIGEST_PROVENANCE_SQL_COLUMNS_def is_empty_provenance_def Let_def)

end
