(* ===== verification/Runner_Matching.thy ===== *)
theory Runner_Matching
  imports Compose_Labels Line_Specs
begin

text \<open>
  What a run works on: \<open>src/src/wudup/updater_runner_matching.py\<close> (the selected lines of the WUD
  file, tag overrides, and the matches of targets with the services of the discovered stacks) and
  the selections of \<open>src/src/wudup/plan_matching.py\<close>. The images of running containers, resolved
  paths and the hash of a selection's identity are parameters. \<open>UpdaterError\<close>, \<open>LineSpecError\<close> and
  \<open>PlanInputError\<close> are \<open>Inl\<close> of their message; log lines are left out.
\<close>

section \<open>Selected lines\<close>

record tag_override =
  to_line_no :: nat
  to_tag :: string

definition override_of :: "tag_override list \<Rightarrow> nat \<rightharpoonup> string" where
  "override_of overrides = map_of (rev (map (\<lambda>o'. (to_line_no o', to_tag o')) overrides))"

fun override_targets :: "(nat \<rightharpoonup> string) \<Rightarrow> wud_target list \<Rightarrow> wud_target list planned" where
  "override_targets ov [] = Inr []"
| "override_targets ov (t # ts) =
     (case ov (wt_line_no t) of
        None \<Rightarrow> map_sum id (\<lambda>ts'. t # ts') (override_targets ov ts)
      | Some tag \<Rightarrow>
          if wt_desired_tag t = '''' then Inl (''--tag-override line '' @ show_nat (wt_line_no t) @
            '' does not target a tag update'')
          else map_sum id (\<lambda>ts'. t\<lparr>wt_desired_tag := tag\<rparr> # ts') (override_targets ov ts))"

definition apply_tag_overrides :: "tag_override list \<Rightarrow> parsed_wud_file \<Rightarrow> parsed_wud_file planned" where
  "apply_tag_overrides overrides parsed =
     (if overrides = [] then Inr parsed
      else let missing = sorted_set (filter (\<lambda>n. n \<notin> set (map wt_line_no (pw_targets parsed))) (map to_line_no overrides))
           in if missing \<noteq> [] then Inl (''--tag-override line(s) did not match selected WUD entries: '' @
                join_with '', '' (map show_nat missing))
              else map_sum id (\<lambda>ts. parsed\<lparr>pw_targets := ts\<rparr>) (override_targets (override_of overrides) (pw_targets parsed)))"

record line_options =
  lo_only_lines :: "string option"
  lo_exclude_tag_lines :: "string option"
  lo_remove_lines :: "string option"
  lo_overrides :: "tag_override list"

definition actionable_lines :: "parsed_wud_file \<Rightarrow> nat list" where
  "actionable_lines parsed = map wl_no (filter wl_actionable (pw_lines parsed))"

text \<open>
  \<open>_parse_wud_files\<close>: the lines to update, then the excluded ones. The file is read three times, without
  the lock, so the three texts may differ.
\<close>

definition selected_lines :: "int list \<Rightarrow> int list \<Rightarrow> nat list \<Rightarrow> nat set option" where
  "selected_lines only excluded actionable =
     (let chosen = (if only \<noteq> [] then Some (set (map nat only)) else None)
      in if excluded = [] then chosen
         else Some ((case chosen of None \<Rightarrow> set actionable | Some S \<Rightarrow> S) - set (map nat excluded)))"

definition parse_wud_files ::
  "line_options \<Rightarrow> string \<Rightarrow> string \<Rightarrow> string \<Rightarrow> (parsed_wud_file \<times> parsed_wud_file) planned" where
  "parse_wud_files opts t1 t2 t3 =
     (let full = parse_wud_text t1 None; n = int (length (pw_lines full))
      in case parse_line_spec (lo_only_lines opts) n ''--only-lines'' of
        Inl e \<Rightarrow> Inl e
      | Inr only \<Rightarrow>
      (case parse_line_spec (lo_exclude_tag_lines opts) n ''--exclude-tag-lines'' of
        Inl e \<Rightarrow> Inl e
      | Inr excluded \<Rightarrow>
      (case parse_line_spec (lo_remove_lines opts) n ''--remove-lines-before-run'' of
        Inl e \<Rightarrow> Inl e
      | Inr _ \<Rightarrow>
          (case apply_tag_overrides (lo_overrides opts)
              (parse_wud_text t2 (selected_lines only excluded (actionable_lines full))) of
             Inl e \<Rightarrow> Inl e
           | Inr parsed \<Rightarrow> Inr (parsed, parse_wud_text t3 (Some (set (map nat excluded))))))))"

section \<open>Matches\<close>

record match_options =
  mo_allow_tag_updates :: bool
  mo_digest_pin_updates :: bool
  mo_digest_unpin_plan :: "digest_unpin_update list"

definition prefilter_targets :: "bool \<Rightarrow> wud_target list \<Rightarrow> wud_target list \<times> wud_target list" where
  "prefilter_targets allow targets =
     (filter (\<lambda>t. wt_desired_tag t = '''' \<or> allow) targets, filter (\<lambda>t. \<not> (wt_desired_tag t = '''' \<or> allow)) targets)"

definition digest_from_image :: "string \<Rightarrow> string" where
  "digest_from_image img =
     (if \<not> contains img ''@sha256:'' then ''''
      else normalize_digest (case break_at ''@'' img of Some (_, b) \<Rightarrow> b | None \<Rightarrow> ''''))"

definition digest_unpin_plan_candidates ::
  "digest_unpin_update list \<Rightarrow> wud_target \<Rightarrow> compose_stack \<Rightarrow> (string \<times> string \<times> string) list" where
  "digest_unpin_plan_candidates plan target stack =
     (if \<not> is_digest_target_line target then []
      else concat (map (\<lambda>u.
        if du_resolved_tag u \<noteq> image_tag (wt_first target) \<or> du_target_digest u \<noteq> normalize_digest (wt_digest target)
           \<or> repo_key (du_old_image u) \<noteq> wt_repo target \<or> digest_from_image (du_old_image u) = ''''
        then []
        else map (\<lambda>s. (du_tag_image u, du_old_image u, s))
          (filter (\<lambda>s. \<exists>i \<in> set (cs_service_images stack). si_service i = s \<and> si_image i = du_old_image u)
            (du_services u))) plan))"

definition resolved_of :: "(string \<rightharpoonup> string) \<Rightarrow> wud_target \<Rightarrow> string" where
  "resolved_of container_images target =
     (case container_images (wt_first target) of None \<Rightarrow> wt_first target | Some i \<Rightarrow> i)"

definition match_target_in_stack ::
  "match_options \<Rightarrow> wud_target \<Rightarrow> compose_stack \<Rightarrow> (string \<rightharpoonup> string) \<Rightarrow> (string \<times> string \<times> string) list" where
  "match_target_in_stack opts target stack container_images =
     (let resolved = resolved_of container_images target;
          allow_repo = (wt_allow_repo target \<or> resolved \<noteq> wt_first target \<or> \<not> image_has_tag resolved);
          candidates = concat (map (\<lambda>img.
            case services_for_target_match exact_tag_include_matches (cs_service_images stack) img target resolved
                   allow_repo (mo_digest_pin_updates opts) of
              None \<Rightarrow> []
            | Some services \<Rightarrow> map (\<lambda>s. (resolved, img, s)) (if services = [] then [''''] else services))
            (cs_images stack))
      in if candidates = [] then digest_unpin_plan_candidates (mo_digest_unpin_plan opts) target stack else candidates)"

definition candidate_matches ::
  "match_options \<Rightarrow> (string \<rightharpoonup> string) \<Rightarrow> wud_target list \<Rightarrow> compose_stack list \<Rightarrow> match_t list" where
  "candidate_matches opts container_images targets stacks =
     concat (map (\<lambda>t. concat (map (\<lambda>st.
       map (\<lambda>(resolved, img, s). \<lparr>m_stack = st, m_target = t, m_resolved = resolved, m_compose_image = img, m_service = s\<rparr>)
         (match_target_in_stack opts t st container_images)) stacks)) targets)"

definition match_order :: "match_t \<Rightarrow> nat \<times> nat \<times> string \<times> string \<times> string \<times> string" where
  "match_order m = (match_index m, match_line m, wt_first (m_target m), m_resolved m, m_compose_image m, m_service m)"

definition all_matches ::
  "match_options \<Rightarrow> (string \<rightharpoonup> string) \<Rightarrow> wud_target list \<Rightarrow> compose_stack list \<Rightarrow> match_t list" where
  "all_matches opts container_images targets stacks =
     sort_key match_order (unique_matches (candidate_matches opts container_images targets stacks))"

section \<open>Selections\<close>

record update_selection =
  us_line_no :: int
  us_selection_id :: string

definition selection_key :: "update_selection \<Rightarrow> int \<times> string" where
  "selection_key s = (us_line_no s, us_selection_id s)"

fun check_selections :: "(int \<times> string) set \<Rightarrow> update_selection list \<Rightarrow> unit planned" where
  "check_selections seen [] = Inr ()"
| "check_selections seen (s # ss) =
     (if us_line_no s < 1 then Inl (''selections line numbers must be positive integers: '' @ show_int (us_line_no s))
      else if selection_key s \<in> seen
      then Inl (''selection for line '' @ show_int (us_line_no s) @ '' was provided more than once'')
      else check_selections (insert (selection_key s) seen) ss)"

definition mixed_lines :: "update_selection list \<Rightarrow> int list" where
  "mixed_lines ss = sorted_set (map us_line_no (filter (\<lambda>s.
     us_selection_id s = '''' \<and> (\<exists>s' \<in> set ss. us_line_no s' = us_line_no s \<and> us_selection_id s' \<noteq> '''')) ss))"

definition normalize_update_selections :: "update_selection list \<Rightarrow> update_selection list planned" where
  "normalize_update_selections ss =
     (case check_selections {} ss of
        Inl e \<Rightarrow> Inl e
      | Inr _ \<Rightarrow>
          if mixed_lines ss \<noteq> []
          then Inl (''selections cannot mix line-wide and stack-scoped entries for line(s): '' @
                 join_with '', '' (map show_int (mixed_lines ss)))
          else Inr (sort_key selection_key ss))"

record selection_identity =
  se_compose_file :: string
  se_compose_images :: "string list"
  se_directory :: string
  se_line_no :: nat
  se_project_directory :: string
  se_project_name :: string
  se_services :: "string list"
  se_target :: string

text \<open>\<open>_selection_identity_payload\<close> of the matches of one stack and line; \<open>norm\<close> resolves a path.\<close>

definition selection_identity_payload :: "(string \<Rightarrow> string) \<Rightarrow> match_t list \<Rightarrow> selection_identity" where
  "selection_identity_payload norm ms =
     (let first = hd ms; dir = norm (cs_directory (m_stack first))
      in \<lparr>se_compose_file = norm (dir @ ''/'' @ cs_file (m_stack first)),
          se_compose_images = sorted_set (map m_compose_image ms), se_directory = dir,
          se_line_no = match_line first,
          se_project_directory = (case cs_project_directory (m_stack first) of None \<Rightarrow> '''' | Some d \<Rightarrow> norm d),
          se_project_name = cs_project_name (m_stack first), se_services = sorted_set (map m_service ms),
          se_target = wt_raw (m_target first)\<rparr>)"

definition selection_id_for_matches ::
  "(selection_identity \<Rightarrow> string) \<Rightarrow> (string \<Rightarrow> string) \<Rightarrow> match_t list \<Rightarrow> string" where
  "selection_id_for_matches hash norm ms = ''sel-v1-'' @ hash (selection_identity_payload norm ms)"

definition match_group :: "match_t \<Rightarrow> nat \<times> nat" where
  "match_group m = (match_index m, match_line m)"

definition grouped_matches :: "match_t list \<Rightarrow> match_t list list" where
  "grouped_matches ms = map (\<lambda>k. filter (\<lambda>m. match_group m = k) ms) (nub (map match_group ms))"

definition by_selection_id ::
  "(selection_identity \<Rightarrow> string) \<Rightarrow> (string \<Rightarrow> string) \<Rightarrow> match_t list \<Rightarrow> string \<rightharpoonup> match_t list" where
  "by_selection_id hash norm ms =
     map_of (rev (map (\<lambda>g. (selection_id_for_matches hash norm g, g)) (grouped_matches ms)))"

fun collect_selected ::
  "(string \<rightharpoonup> match_t list) \<Rightarrow> match_t list \<Rightarrow> update_selection list \<Rightarrow> match_t list planned" where
  "collect_selected by_id ms [] = Inr []"
| "collect_selected by_id ms (s # ss) =
     (if us_selection_id s = ''''
      then map_sum id (\<lambda>rest. filter (\<lambda>m. int (match_line m) = us_line_no s) ms @ rest) (collect_selected by_id ms ss)
      else case by_id (us_selection_id s) of
        Some (m # g) \<Rightarrow>
          if int (match_line m) = us_line_no s
          then map_sum id (\<lambda>rest. (m # g) @ rest) (collect_selected by_id ms ss)
          else Inl (''selection for line '' @ show_int (us_line_no s) @ '' is stale or no longer available'')
      | _ \<Rightarrow> Inl (''selection for line '' @ show_int (us_line_no s) @ '' is stale or no longer available''))"

definition filter_matches_for_selections ::
  "(selection_identity \<Rightarrow> string) \<Rightarrow> (string \<Rightarrow> string) \<Rightarrow> match_t list \<Rightarrow> update_selection list \<Rightarrow> match_t list planned" where
  "filter_matches_for_selections hash norm ms ss =
     (case normalize_update_selections ss of
        Inl e \<Rightarrow> Inl e
      | Inr normalized \<Rightarrow>
          if normalized = [] then Inr ms
          else map_sum id (\<lambda>selected. filter (\<lambda>m. match_key m \<in> set (map match_key selected)) ms)
                 (collect_selected (by_selection_id hash norm ms) ms normalized))"

definition service_scope :: "match_t \<Rightarrow> nat \<times> string \<times> string" where
  "service_scope m = (match_index m, m_compose_image m, m_service m)"

definition scopes_of_line :: "match_t list \<Rightarrow> nat \<Rightarrow> (nat \<times> string \<times> string) set" where
  "scopes_of_line ms n = set (map service_scope (filter (\<lambda>m. match_line m = n) ms))"

definition partially_selected_line_numbers :: "match_t list \<Rightarrow> match_t list \<Rightarrow> nat list" where
  "partially_selected_line_numbers every selected =
     filter (\<lambda>n. scopes_of_line selected n \<noteq> scopes_of_line every n) (sorted_set (map match_line selected))"

section \<open>Tag streams\<close>

definition stream_target_key :: "tag_stream_update \<Rightarrow> nat \<times> string \<times> string \<times> string \<times> string \<times> string \<times> string" where
  "stream_target_key u = (su_line_no u, su_stack u, su_stack_directory u, su_compose_file u, su_service u,
     su_current_tag u, su_reported_tag u)"

definition match_stream_key ::
  "(string \<Rightarrow> string) \<Rightarrow> match_t \<Rightarrow> nat \<times> string \<times> string \<times> string \<times> string \<times> string \<times> string" where
  "match_stream_key norm m = (match_line m, cs_name (m_stack m), norm (cs_directory (m_stack m)), cs_file (m_stack m),
     m_service m, image_tag (m_compose_image m), wt_desired_tag (m_target m))"

definition stream_for :: "(string \<Rightarrow> string) \<Rightarrow> tag_stream_update list \<Rightarrow> match_t \<Rightarrow> tag_stream_update option" where
  "stream_for norm us m = map_of (rev (map (\<lambda>u. (stream_target_key u, u)) us)) (match_stream_key norm m)"

definition apply_tag_stream_updates ::
  "(string \<Rightarrow> string) \<Rightarrow> tag_stream_update list \<Rightarrow> match_t list \<Rightarrow> match_t list" where
  "apply_tag_stream_updates norm us ms =
     map (\<lambda>m. case stream_for norm us m of
       None \<Rightarrow> m
     | Some u \<Rightarrow> m\<lparr>m_target := (m_target m)\<lparr>wt_desired_tag := su_selected_tag u\<rparr>\<rparr>) ms"

definition matched_tag_stream_updates ::
  "(string \<Rightarrow> string) \<Rightarrow> tag_stream_update list \<Rightarrow> match_t list \<Rightarrow> tag_stream_update set" where
  "matched_tag_stream_updates norm us ms = set (List.map_filter (stream_for norm us) ms)"

text \<open>\<open>_build_matches\<close>: the matches, the partially selected lines and the skipped tag targets.\<close>

definition build_matches ::
  "(selection_identity \<Rightarrow> string) \<Rightarrow> (string \<Rightarrow> string) \<Rightarrow> match_options \<Rightarrow> update_selection list \<Rightarrow>
   tag_stream_update list \<Rightarrow> (string \<rightharpoonup> string) \<Rightarrow> parsed_wud_file \<Rightarrow> compose_stack list \<Rightarrow>
   (match_t list \<times> nat list \<times> wud_target list) planned" where
  "build_matches hash norm opts selections streams container_images parsed stacks =
     (case prefilter_targets (mo_allow_tag_updates opts) (pw_targets parsed) of (targets, skipped) \<Rightarrow>
      let every = all_matches opts container_images targets stacks
      in map_sum id (\<lambda>selected.
           (apply_tag_stream_updates norm streams selected, partially_selected_line_numbers every selected, skipped))
         (filter_matches_for_selections hash norm every selections))"

section \<open>Which lines are updated\<close>

lemma override_targets_lines:
  "override_targets ov ts = Inr ts' \<Longrightarrow> map wt_line_no ts' = map wt_line_no ts"
proof (induction ts arbitrary: ts')
  case (Cons t ts)
  then show ?case by (cases "override_targets ov ts") (auto split: option.splits if_splits)
qed simp

lemma apply_tag_overrides_keeps:
  "apply_tag_overrides ov p = Inr p' \<Longrightarrow> pw_lines p' = pw_lines p \<and> map wt_line_no (pw_targets p') = map wt_line_no (pw_targets p)"
  by (cases "override_targets (override_of ov) (pw_targets p)")
    (auto simp: apply_tag_overrides_def Let_def override_targets_lines split: if_splits)

lemma parsed_target_lines:
  "map wt_line_no (pw_targets (parse_lines S n raws)) =
     map fst (filter (\<lambda>(i, raw). line_actionable raw \<and> (case S of None \<Rightarrow> True | Some L \<Rightarrow> i \<in> L)) (zip [n..<n + length raws] raws))"
proof (induction raws arbitrary: n)
  case (Cons raw raws)
  have "[n..<n + length (raw # raws)] = n # [Suc n..<Suc n + length raws]" by (simp add: upt_rec)
  then show ?case
    using Cons.IH [of "Suc n"] by (auto simp: Let_def parse_target_def split: option.splits)
qed simp

lemma target_lines:
  "set (map wt_line_no (pw_targets (parse_wud_text t S))) =
     set (map wt_line_no (pw_targets (parse_wud_text t None))) \<inter> (case S of None \<Rightarrow> UNIV | Some L \<Rightarrow> L)"
  unfolding parse_wud_text_def parsed_target_lines by (cases S) force+

lemma parse_lines_actionable_lines:
  "map wl_no (filter wl_actionable (pw_lines (parse_lines S n raws))) = map wt_line_no (pw_targets (parse_lines None n raws))"
  by (induction raws arbitrary: n) (auto simp: Let_def parse_target_def)

lemma actionable_targets: "actionable_lines (parse_wud_text t S) = map wt_line_no (pw_targets (parse_wud_text t None))"
  by (simp add: actionable_lines_def parse_wud_text_def parse_lines_actionable_lines)

definition overridden :: "(nat \<rightharpoonup> string) \<Rightarrow> wud_target \<Rightarrow> wud_target" where
  "overridden ov u = (case ov (wt_line_no u) of None \<Rightarrow> u | Some tag \<Rightarrow> u\<lparr>wt_desired_tag := tag\<rparr>)"

lemma override_targets_map: "override_targets ov ts = Inr ts' \<Longrightarrow> ts' = map (overridden ov) ts"
proof (induction ts arbitrary: ts')
  case (Cons t ts)
  then show ?case by (cases "override_targets ov ts") (auto simp: overridden_def split: option.splits if_splits)
qed simp

lemma apply_tag_overrides_exact:
  assumes "apply_tag_overrides ov p = Inr p'"
  shows "pw_targets p' = map (overridden (override_of ov)) (pw_targets p)"
    "\<forall>o' \<in> set ov. to_line_no o' \<in> set (map wt_line_no (pw_targets p))"
proof -
  have none: "map (overridden (override_of [])) ts = ts" for ts
    by (rule map_idI) (simp add: overridden_def override_of_def)
  show "pw_targets p' = map (overridden (override_of ov)) (pw_targets p)"
  proof (cases "ov = []")
    case True
    then show ?thesis using assms none by (simp add: apply_tag_overrides_def)
  next
    case False
    then show ?thesis
      using assms override_targets_map [of "override_of ov" "pw_targets p"]
      by (cases "override_targets (override_of ov) (pw_targets p)")
        (auto simp: apply_tag_overrides_def Let_def split: if_splits)
  qed
  show "\<forall>o' \<in> set ov. to_line_no o' \<in> set (map wt_line_no (pw_targets p))"
    using assms by (auto simp: apply_tag_overrides_def Let_def filter_empty_conv split: if_splits)
qed

lemma parse_lines_selected:
  "pw_targets (parse_lines (Some L) n raws) = filter (\<lambda>u. wt_line_no u \<in> L) (pw_targets (parse_lines None n raws))"
proof (induction raws arbitrary: n)
  case (Cons raw raws)
  obtain u ws where "parse_target n raw (trim raw) = (u, ws)" by (cases "parse_target n raw (trim raw)")
  moreover from this have "wt_line_no u = n" using parse_target_line(1) [of n raw "trim raw"] by simp
  ultimately show ?case using Cons by (simp add: Let_def)
qed simp

lemma parse_text_selected:
  "pw_targets (parse_wud_text t S) =
     filter (\<lambda>u. case S of None \<Rightarrow> True | Some L \<Rightarrow> wt_line_no u \<in> L) (pw_targets (parse_wud_text t None))"
  by (cases S) (simp_all add: parse_wud_text_def parse_lines_selected)

text \<open>C29: The entries of a run, exactly. The file is read three times and other processes may write it in
  between. The excluded entries are those of the third reading on the lines of
  \<open>--exclude-tag-lines\<close>. The entries to update are those of the second reading, in order, that are not excluded
  and, with \<open>--only-lines\<close>, on one of its lines; without it but with exclusions, only on lines that were actionable
  in the first reading. Each carries the tag its last override names, and every override names
  one of them. So with one text no line is both updated and excluded, and without \<open>--only-lines\<close> the two lists together are
  all its entries.\<close>

theorem wud_lines_selected:
  assumes "parse_wud_files opts t1 t2 t3 = Inr (parsed, excluded)"
  shows "\<exists>only ex. parse_line_spec (lo_only_lines opts) (int (length (pw_lines (parse_wud_text t1 None)))) ''--only-lines'' = Inr only \<and>
      parse_line_spec (lo_exclude_tag_lines opts) (int (length (pw_lines (parse_wud_text t1 None)))) ''--exclude-tag-lines'' = Inr ex \<and>
      pw_targets excluded = filter (\<lambda>u. wt_line_no u \<in> nat ` set ex) (pw_targets (parse_wud_text t3 None)) \<and>
      pw_targets parsed = map (overridden (override_of (lo_overrides opts)))
        (filter (\<lambda>u. wt_line_no u \<notin> nat ` set ex \<and>
            (if only \<noteq> [] then wt_line_no u \<in> nat ` set only
             else ex = [] \<or> wt_line_no u \<in> set (map wt_line_no (pw_targets (parse_wud_text t1 None)))))
          (pw_targets (parse_wud_text t2 None))) \<and>
      (\<forall>o' \<in> set (lo_overrides opts). to_line_no o' \<in> set (map wt_line_no (pw_targets parsed)))"
proof -
  let ?n = "int (length (pw_lines (parse_wud_text t1 None)))"
  obtain only ex where o: "parse_line_spec (lo_only_lines opts) ?n ''--only-lines'' = Inr only"
    and e: "parse_line_spec (lo_exclude_tag_lines opts) ?n ''--exclude-tag-lines'' = Inr ex"
    and p: "apply_tag_overrides (lo_overrides opts)
        (parse_wud_text t2 (selected_lines only ex (actionable_lines (parse_wud_text t1 None)))) = Inr parsed"
    and x: "excluded = parse_wud_text t3 (Some (set (map nat ex)))"
    using assms by (auto simp: parse_wud_files_def Let_def split: sum.splits)
  have "pw_targets (parse_wud_text t2 (selected_lines only ex (actionable_lines (parse_wud_text t1 None)))) =
      filter (\<lambda>u. wt_line_no u \<notin> nat ` set ex \<and>
            (if only \<noteq> [] then wt_line_no u \<in> nat ` set only
             else ex = [] \<or> wt_line_no u \<in> set (map wt_line_no (pw_targets (parse_wud_text t1 None)))))
          (pw_targets (parse_wud_text t2 None))"
    by (subst parse_text_selected, rule filter_cong) (auto simp: selected_lines_def Let_def actionable_targets)
  moreover have "pw_targets excluded = filter (\<lambda>u. wt_line_no u \<in> nat ` set ex) (pw_targets (parse_wud_text t3 None))"
    unfolding x parse_text_selected [of t3 "Some (set (map nat ex))"] by simp
  moreover have "\<forall>o' \<in> set (lo_overrides opts). to_line_no o' \<in> set (map wt_line_no (pw_targets parsed))"
    unfolding conjunct2 [OF apply_tag_overrides_keeps [OF p]] by (rule apply_tag_overrides_exact(2) [OF p])
  ultimately show ?thesis
    using o e apply_tag_overrides_exact(1) [OF p] by (intro exI [of _ only] exI [of _ ex] conjI) simp_all
qed

definition demo_wud_text :: string where
  "demo_wud_text = ''x:1 tag=2'' @ [CHR 0x0A] @ ''y:1 tag=3'' @ [CHR 0x0A]"

definition demo_line_options :: line_options where
  "demo_line_options = \<lparr>lo_only_lines = None, lo_exclude_tag_lines = Some ''2'', lo_remove_lines = None, lo_overrides = []\<rparr>"

definition demo_parsed :: "parsed_wud_file \<times> parsed_wud_file" where
  "demo_parsed = projr (parse_wud_files demo_line_options demo_wud_text demo_wud_text demo_wud_text)"

theorem wud_lines_selected_witness:
  "map wt_line_no (pw_targets (fst demo_parsed)) = [1] \<and> map wt_line_no (pw_targets (snd demo_parsed)) = [2] \<and>
   (\<exists>ex. pw_targets (snd demo_parsed) = filter (\<lambda>u. wt_line_no u \<in> nat ` set ex) (pw_targets (parse_wud_text demo_wud_text None)))"
proof -
  have "parse_wud_files demo_line_options demo_wud_text demo_wud_text demo_wud_text = Inr (fst demo_parsed, snd demo_parsed)"
    by code_simp
  from wud_lines_selected [OF this]
  have "\<exists>ex. pw_targets (snd demo_parsed) = filter (\<lambda>u. wt_line_no u \<in> nat ` set ex) (pw_targets (parse_wud_text demo_wud_text None))"
    by blast
  moreover have "map wt_line_no (pw_targets (fst demo_parsed)) = [1]" "map wt_line_no (pw_targets (snd demo_parsed)) = [2]"
    by code_simp+
  ultimately show ?thesis by blast
qed

section \<open>Which services are matched\<close>

lemma candidate_iff:
  "m \<in> set (candidate_matches opts ci targets stacks) \<longleftrightarrow>
     m_target m \<in> set targets \<and> m_stack m \<in> set stacks \<and>
     (m_resolved m, m_compose_image m, m_service m) \<in> set (match_target_in_stack opts (m_target m) (m_stack m) ci)"
  by (cases m) (force simp: candidate_matches_def)

lemma unique_by_subset: "set (unique_by f seen xs) \<subseteq> set xs"
  by (induction f seen xs rule: unique_by.induct) auto

text \<open>C27: The matches of a run are exactly the triples that some selected target finds in some stack, each
  once, in the order of the stacks and, within a stack, of the lines.\<close>

theorem matches_exact:
  assumes "inj_on cs_index (set stacks)" and "inj_on wt_line_no (set targets)"
  shows "set (all_matches opts ci targets stacks) =
      {m. m_target m \<in> set targets \<and> m_stack m \<in> set stacks \<and>
        (m_resolved m, m_compose_image m, m_service m) \<in> set (match_target_in_stack opts (m_target m) (m_stack m) ci)} \<and>
    distinct (all_matches opts ci targets stacks) \<and> sorted (map match_order (all_matches opts ci targets stacks))"
proof -
  let ?c = "candidate_matches opts ci targets stacks"
  have inj: "inj_on match_key (set ?c)"
    using assms by (auto simp: inj_on_def candidate_iff match_key_def match_index_def match_line_def)
  have keys: "match_key ` set (unique_matches ?c) = match_key ` set ?c"
    using set_unique_by [of match_key "{}" ?c] by (simp add: unique_matches_def)
  have sub: "set (unique_matches ?c) \<subseteq> set ?c" by (simp add: unique_matches_def unique_by_subset)
  have same: "set (unique_matches ?c) = set ?c"
    using inj keys sub by (metis inj_on_image_eq_iff subset_refl)
  have dist: "distinct (unique_matches ?c)"
    using distinct_unique_by [of match_key "{}" ?c] by (simp add: unique_matches_def distinct_map)
  have "set (all_matches opts ci targets stacks) = {m. m \<in> set ?c}" by (simp add: all_matches_def same)
  then show ?thesis unfolding candidate_iff using dist by (simp add: all_matches_def)
qed

definition demo_image_stack :: compose_stack where
  "demo_image_stack = \<lparr>cs_index = 0, cs_directory = ''/s'', cs_file = ''c.yml'', cs_name = ''s'', cs_images = [''x:1''],
     cs_service_images = [\<lparr>si_service = ''a'', si_image = ''x:1'', si_network_mode = '''', si_labels = [], si_platform = None\<rparr>,
       \<lparr>si_service = ''b'', si_image = ''x:1'', si_network_mode = '''', si_labels = [], si_platform = None\<rparr>],
     cs_project_directory = None, cs_project_name = ''s''\<rparr>"

definition demo_match_options :: match_options where
  "demo_match_options = \<lparr>mo_allow_tag_updates = True, mo_digest_pin_updates = False, mo_digest_unpin_plan = []\<rparr>"

definition demo_matches :: "match_t list" where
  "demo_matches = all_matches demo_match_options Map.empty (pw_targets (fst demo_parsed)) [demo_image_stack]"

theorem matches_exact_witness:
  "map m_service demo_matches = [''a'', ''b''] \<and> sorted (map match_order demo_matches)"
proof
  show "map m_service demo_matches = [''a'', ''b'']" by code_simp
  have "inj_on cs_index (set [demo_image_stack])" "inj_on wt_line_no (set (pw_targets (fst demo_parsed)))"
    by simp code_simp
  from matches_exact [OF this] show "sorted (map match_order demo_matches)" unfolding demo_matches_def by blast
qed

section \<open>What a selection keeps\<close>

lemma collect_selected_from:
  assumes "collect_selected by_id ms ss = Inr sel" "\<And>i g m. by_id i = Some g \<Longrightarrow> m \<in> set g \<Longrightarrow> \<forall>m' \<in> set g. match_line m' = match_line m"
  shows "(\<forall>m \<in> set sel. \<exists>s \<in> set ss. us_line_no s = int (match_line m)) \<and>
    (\<forall>s \<in> set ss. us_selection_id s = '''' \<longrightarrow> (\<forall>m \<in> set ms. int (match_line m) = us_line_no s \<longrightarrow> m \<in> set sel))"
  using assms(1)
proof (induction ss arbitrary: sel)
  case (Cons s ss)
  show ?case
  proof (cases "collect_selected by_id ms ss")
    case (Inr rest)
    note IH = Cons.IH [OF Inr]
    show ?thesis
    proof (cases "us_selection_id s = ''''")
      case True
      with Cons.prems Inr IH show ?thesis by auto
    next
      case False
      then obtain m g where g: "by_id (us_selection_id s) = Some (m # g)" "int (match_line m) = us_line_no s" "sel = (m # g) @ rest"
        using Cons.prems Inr by (auto split: option.splits list.splits if_splits)
      have "\<forall>m' \<in> set (m # g). int (match_line m') = us_line_no s"
        using assms(2) [OF g(1), of m] g(2) by auto
      with g(3) IH False show ?thesis by fastforce
    qed
  qed (use Cons.prems in \<open>auto split: if_splits option.splits list.splits\<close>)
qed simp

lemma selection_group_line:
  "by_selection_id hash norm ms i = Some g \<Longrightarrow> m \<in> set g \<Longrightarrow> \<forall>m' \<in> set g. match_line m' = match_line m"
  by (drule map_of_SomeD [of _ i g, folded by_selection_id_def] | clarsimp simp: by_selection_id_def dest!: map_of_SomeD)+
    (auto simp: grouped_matches_def match_group_def)

lemma normalized_set: "normalize_update_selections ss = Inr n \<Longrightarrow> set n = set ss"
  by (auto simp: normalize_update_selections_def split: sum.splits if_splits)

text \<open>C28: Accepted selections only narrow the matches: every kept match is on a selected line, a line selected
  as a whole keeps all its matches, and a line is reported as partially selected exactly when some
  service it matched was left out, so that its entry stays pending.\<close>

theorem selections_narrow:
  assumes sel: "filter_matches_for_selections hash norm ms ss = Inr sel" and ne: "ss \<noteq> []"
  shows "subseq sel ms \<and> (\<forall>m \<in> set sel. \<exists>s \<in> set ss. us_line_no s = int (match_line m)) \<and>
    (\<forall>s \<in> set ss. us_selection_id s = '''' \<longrightarrow> (\<forall>m \<in> set ms. int (match_line m) = us_line_no s \<longrightarrow> m \<in> set sel)) \<and>
    set (partially_selected_line_numbers ms sel) =
      {n. \<exists>m \<in> set sel. match_line m = n \<and> (\<exists>m' \<in> set ms. match_line m' = n \<and>
         (\<forall>m'' \<in> set sel. match_line m'' = n \<longrightarrow> service_scope m'' \<noteq> service_scope m'))}"
proof -
  obtain n chosen where n: "normalize_update_selections ss = Inr n"
    and c: "collect_selected (by_selection_id hash norm ms) ms n = Inr chosen"
    and s: "sel = filter (\<lambda>m. match_key m \<in> set (map match_key chosen)) ms"
    using sel ne normalized_set [of ss]
    by (cases "collect_selected (by_selection_id hash norm ms) ms (projr (normalize_update_selections ss))")
      (auto simp: filter_matches_for_selections_def split: sum.splits if_splits)
  note from_ = collect_selected_from [OF c selection_group_line]
  have 1: "\<forall>m \<in> set sel. \<exists>s \<in> set ss. us_line_no s = int (match_line m)"
    using from_ normalized_set [OF n] by (fastforce simp: s match_key_def)
  have 2: "\<forall>s \<in> set ss. us_selection_id s = '''' \<longrightarrow> (\<forall>m \<in> set ms. int (match_line m) = us_line_no s \<longrightarrow> m \<in> set sel)"
    using from_ normalized_set [OF n] by (auto simp: s)
  have sub: "set sel \<subseteq> set ms" by (auto simp: s)
  then have "scopes_of_line sel k \<subseteq> scopes_of_line ms k" for k by (auto simp: scopes_of_line_def)
  then have "scopes_of_line sel k \<noteq> scopes_of_line ms k \<longleftrightarrow> (\<exists>x \<in> scopes_of_line ms k. x \<notin> scopes_of_line sel k)" for k
    by blast
  moreover have in_scopes: "x \<in> scopes_of_line ms k \<longleftrightarrow> (\<exists>m' \<in> set ms. match_line m' = k \<and> service_scope m' = x)" for ms k x
    by (auto simp: scopes_of_line_def)
  ultimately have "scopes_of_line sel k \<noteq> scopes_of_line ms k \<longleftrightarrow> (\<exists>m' \<in> set ms. match_line m' = k \<and>
         (\<forall>m'' \<in> set sel. match_line m'' = k \<longrightarrow> service_scope m'' \<noteq> service_scope m'))" for k
    by (metis (no_types, lifting))
  then have "set (partially_selected_line_numbers ms sel) =
      {n. \<exists>m \<in> set sel. match_line m = n \<and> (\<exists>m' \<in> set ms. match_line m' = n \<and>
         (\<forall>m'' \<in> set sel. match_line m'' = n \<longrightarrow> service_scope m'' \<noteq> service_scope m'))}"
    unfolding partially_selected_line_numbers_def by auto
  with 1 2 show ?thesis by (simp add: s subseq_filter_left)
qed

theorem selections_narrow_witness:
  "\<exists>sel. filter_matches_for_selections se_target id demo_matches [\<lparr>us_line_no = 1, us_selection_id = ''''\<rparr>] = Inr sel \<and>
     set demo_matches \<subseteq> set sel"
proof -
  have ok: "filter_matches_for_selections se_target id demo_matches [\<lparr>us_line_no = 1, us_selection_id = ''''\<rparr>] = Inr demo_matches"
    by code_simp
  have "\<forall>m \<in> set demo_matches. int (match_line m) = 1" by code_simp
  with selections_narrow [OF ok] ok show ?thesis by auto
qed

end
