(* ===== verification/Run_State.thy ===== *)
theory Run_State
  imports Digest_Provenance Runner_Matching Lifecycle_Safety
begin

text \<open>
  The state of an updater run (\<open>UpdateFromWudRunner\<close> in \<open>src/src/wudup/updater.py\<close>) over the world of
  \<open>Lifecycle_State\<close>: the entries in flight, the outcomes recorded so far and the audit database, whose
  statements may fail one by one. Actions of the lifecycle and file operations are lifted to it. Log lines
  are left out, but for the error that names the entries a stopped run could not put back
  (\<open>rn_unkept\<close>). An error of the database is the \<open>UpdaterError\<close> it becomes.
\<close>

section \<open>State\<close>

record in_flight_pending =
  if_parsed :: parsed_wud_file
  if_matches :: "match_t list"
  if_exclusions :: "tag_exclusion_update list"

text \<open>A row of \<open>pending_updates\<close>; a row of \<open>update_events\<close>; service, stack and image are those of the match.\<close>

record pending_row =
  pu_raw :: string
  pu_image :: string
  pu_target_digest :: string
  pu_desired_tag :: string
  pu_status :: string
  pu_reason :: string
  pu_service_key :: string
  pu_stack :: string
  pu_service :: string
  pu_provenance :: "provenance option"

record update_event =
  ev_match :: match_t
  ev_target_image :: string
  ev_old_id :: string
  ev_new_id :: string
  ev_old_digest :: string
  ev_new_digest :: string
  ev_status :: stack_status
  ev_provenance :: "provenance option"

record known_image =
  ki_image :: string
  ki_image_id :: string
  ki_digest :: string
  ki_provenance :: "provenance option"

text \<open>An active rule: scope, image repository, service key and tag.\<close>

type_synonym exclusion_rule = "string \<times> string \<times> string \<times> string"

record runner =
  rn_world :: world
  rn_in_flight :: "in_flight_pending option"
  rn_statuses :: "(nat \<times> stack_status) list"
  rn_exclusion_statuses :: "((nat \<times> nat) \<times> stack_status) list"
  rn_skipped :: "nat list"
  rn_run :: "string option"
  rn_rows :: "(nat \<times> pending_row) list"
  rn_events :: "update_event list"
  rn_known :: "(string \<times> known_image) list"
  rn_rules :: "exclusion_rule list"
  rn_writes :: nat
  rn_unkept :: "string list"

record rctx =
  rc_ctx :: ctx
  rc_file :: string
  rc_uid :: int
  rc_gid :: int
  rc_owner :: "owner_config option"
  rc_lock :: directory_lock
  rc_lines :: line_options
  rc_partial :: "nat list"
  rc_recreate_excluded :: bool
  rc_render_exclusions :: "tag_exclusion_update list \<Rightarrow> (string \<Rightarrow> string list) \<Rightarrow> string rendered"
  rc_db_raises :: "nat \<Rightarrow> bool"

type_synonym 'a run = "(rctx, runner, lexc, 'a) prog"

section \<open>Primitives\<close>

definition rask :: "(rctx \<Rightarrow> 'a) \<Rightarrow> 'a run" where
  "rask f rc r = (Inr (f rc), r)"

definition rget :: "(runner \<Rightarrow> 'a) \<Rightarrow> 'a run" where
  "rget f rc r = (Inr (f r), r)"

definition rput :: "(runner \<Rightarrow> runner) \<Rightarrow> unit run" where
  "rput g rc r = (Inr (), g r)"

definition lift_act :: "'a act \<Rightarrow> 'a run" where
  "lift_act m rc r = (case m (rc_ctx rc) (rn_world r) of (x, w) \<Rightarrow> (x, r\<lparr>rn_world := w\<rparr>))"

definition lift_io :: "(rctx \<Rightarrow> 'a io) \<Rightarrow> 'a run" where
  "lift_io m rc r = lift_act (lift_fs (\<lambda>_. m rc)) rc r"

definition report_progress :: "string \<Rightarrow> string \<Rightarrow> unit run" where
  "report_progress phase status = lift_act (progress phase status (Some []))"

fun each :: "('a \<Rightarrow> unit run) \<Rightarrow> 'a list \<Rightarrow> unit run" where
  "each f [] = io_ret ()"
| "each f (x # xs) = io_bind (f x) (\<lambda>_. each f xs)"

definition rwhen :: "bool \<Rightarrow> unit run \<Rightarrow> unit run" where
  "rwhen b m = (if b then m else io_ret ())"

text \<open>\<open>contextlib.suppress(Exception)\<close>, \<open>except Exception\<close>: an interrupt passes.\<close>

definition catch_exception :: "'a run \<Rightarrow> (lexc \<Rightarrow> 'a run) \<Rightarrow> 'a run" where
  "catch_exception m h = io_catch m (\<lambda>e. if e = Abort then io_raise e else h e)"

definition checked_run :: "(string + 'a) \<Rightarrow> 'a run" where
  "checked_run r = (case r of Inl e \<Rightarrow> io_raise (UpdaterErr e) | Inr x \<Rightarrow> io_ret x)"

section \<open>The database\<close>

text \<open>One committed statement. The two guards: a connection with an open run, and a connection.\<close>

definition db_write :: "(runner \<Rightarrow> runner) \<Rightarrow> unit run" where
  "db_write g rc r =
     (let r' = r\<lparr>rn_writes := Suc (rn_writes r)\<rparr>
      in if rc_db_raises rc (rn_writes r) then (Inl (UpdaterErr ''Could not update audit database''), r')
         else (Inr (), g r'))"

definition with_run :: "unit run \<Rightarrow> unit run" where
  "with_run m = io_bind (rget rn_run) (\<lambda>run. rwhen (run \<noteq> None) m)"

definition insert_pending_update :: "wud_target \<Rightarrow> unit run" where
  "insert_pending_update t = db_write (\<lambda>r. r\<lparr>rn_rows := rn_rows r @
     [(wt_line_no t, \<lparr>pu_raw = wt_raw t, pu_image = wt_first t, pu_target_digest = wt_digest t,
        pu_desired_tag = wt_desired_tag t, pu_status = ''pending'', pu_reason = '''', pu_service_key = '''',
        pu_stack = '''', pu_service = '''', pu_provenance = None\<rparr>)]\<rparr>)"

definition set_rows :: "(nat \<Rightarrow> pending_row \<Rightarrow> pending_row) \<Rightarrow> runner \<Rightarrow> runner" where
  "set_rows f r = r\<lparr>rn_rows := map (\<lambda>(k, row). (k, f k row)) (rn_rows r)\<rparr>"

text \<open>\<open>update_pending_update\<close>: arguments that are \<open>None\<close> leave their columns alone.\<close>

definition row_with ::
  "string \<Rightarrow> string \<Rightarrow> (string \<times> string \<times> string) option \<Rightarrow> provenance option \<Rightarrow> pending_row \<Rightarrow> pending_row" where
  "row_with status reason who prov row =
     (let row1 = row\<lparr>pu_status := status, pu_reason := reason\<rparr>;
          row2 = (case who of None \<Rightarrow> row1
            | Some (key, stack, service) \<Rightarrow> row1\<lparr>pu_service_key := key, pu_stack := stack, pu_service := service\<rparr>)
      in case prov of None \<Rightarrow> row2 | Some p \<Rightarrow> row2\<lparr>pu_provenance := Some p\<rparr>)"

definition update_pending_update ::
  "nat \<Rightarrow> string \<Rightarrow> string \<Rightarrow> (string \<times> string \<times> string) option \<Rightarrow> provenance option \<Rightarrow> unit run" where
  "update_pending_update n status reason who prov =
     db_write (set_rows (\<lambda>k row. if k = n then row_with status reason who prov row else row))"

text \<open>The upserts: the row with this key is replaced.\<close>

definition upsert_known_image :: "string \<Rightarrow> known_image \<Rightarrow> unit run" where
  "upsert_known_image key row = db_write (\<lambda>r. r\<lparr>rn_known := AList.update key row (rn_known r)\<rparr>)"

definition insert_update_event :: "update_event \<Rightarrow> unit run" where
  "insert_update_event e = db_write (\<lambda>r. r\<lparr>rn_events := rn_events r @ [e]\<rparr>)"

definition upsert_tag_exclusion_rule :: "exclusion_rule \<Rightarrow> unit run" where
  "upsert_tag_exclusion_rule rule =
     db_write (\<lambda>r. r\<lparr>rn_rules := (if rule \<in> set (rn_rules r) then rn_rules r else rn_rules r @ [rule])\<rparr>)"

definition active_tag_exclusion_rules :: "string \<Rightarrow> string \<Rightarrow> exclusion_rule list \<Rightarrow> string list" where
  "active_tag_exclusion_rules image_repo key rules =
     sort (map (\<lambda>(scope, repo, k, tag). tag)
       (filter (\<lambda>(scope, repo, k, tag). repo = image_repo \<and>
          ((scope = ''image_repo'' \<and> k = '''') \<or> (scope = ''service'' \<and> k = key))) rules))"

end
