(* ===== verification/Run_Audit.thy ===== *)
theory Run_Audit
  imports Run_State
begin

text \<open>
  \<open>src/src/wudup/updater_audit.py\<close>: the rows a run keeps of its entries, its events and the images it
  left behind. Each operation does nothing without an open run.
\<close>

section \<open>Opening and closing\<close>

definition finish_audit_run :: "string \<Rightarrow> unit run" where
  "finish_audit_run status = with_run (db_write (\<lambda>r. r\<lparr>rn_run :=
     (if rn_run r = Some ''started'' then Some status else rn_run r)\<rparr>))"

text \<open>\<open>best_effort\<close>: a failing statement is swallowed.\<close>

definition best_effort :: "unit run \<Rightarrow> unit run" where
  "best_effort m = io_catch m (\<lambda>_. io_ret ())"

definition start_audit :: "parsed_wud_file \<Rightarrow> unit run" where
  "start_audit parsed =
     io_bind (rget rn_run) (\<lambda>run.
       if run \<noteq> None then io_ret ()
       else io_catch
         (io_bind (db_write (\<lambda>r. r\<lparr>rn_run := Some ''started''\<rparr>)) (\<lambda>_.
            each insert_pending_update (pw_targets parsed)))
         (\<lambda>e. io_bind (best_effort (finish_audit_run ''failure'')) (\<lambda>_.
            io_bind (rput (\<lambda>r. r\<lparr>rn_run := None\<rparr>)) (\<lambda>_.
              io_raise (UpdaterErr ''Could not initialize audit database'')))))"

text \<open>\<open>audit_parsed_file\<close>: the file is read again when a line to audit is not among the targets.\<close>

definition audit_parsed_file :: "parsed_wud_file \<Rightarrow> nat list \<Rightarrow> parsed_wud_file run" where
  "audit_parsed_file parsed lines =
     (let targets = map wt_line_no (pw_targets parsed)
      in if set lines \<subseteq> set targets then io_ret parsed
         else io_bind (rask (\<lambda>c. (rc_file c, lo_overrides (rc_lines c)))) (\<lambda>(n, overrides).
              io_bind (lift_io (\<lambda>_. read_text (Named n))) (\<lambda>t.
                checked_run (apply_tag_overrides overrides (parse_wud_text t (Some (set targets \<union> set lines)))))))"

section \<open>Provenance\<close>

definition planned_digest_unpin_for_match :: "digest_unpin_update list \<Rightarrow> match_t \<Rightarrow> digest_unpin_update option" where
  "planned_digest_unpin_for_match plan m =
     find (\<lambda>u. du_old_image u = m_compose_image m \<and> du_tag_image u = m_resolved m \<and>
       du_target_digest u = wt_digest (m_target m) \<and> (m_service m = '''' \<or> m_service m \<in> set (du_services u))) plan"

definition pin_of_match :: "digest_pin_update list \<Rightarrow> match_t \<Rightarrow> digest_pin_update option" where
  "pin_of_match updates m =
     (if digest_pin_match_tag m = '''' then None
      else map_of (rev (map (\<lambda>u. ((dp_old_image u, dp_resolved_tag u), u)) updates))
        (m_compose_image m, digest_pin_match_tag m))"

definition unpin_provenance :: "digest_unpin_update list \<Rightarrow> match_t list \<Rightarrow> (nat \<times> provenance) list" where
  "unpin_provenance plan matches =
     foldl (\<lambda>d m. case planned_digest_unpin_for_match plan m of None \<Rightarrow> d
       | Some u \<Rightarrow> setdefault (match_line m) (digest_provenance_from_unpin_update ''plan'' ''recovered'' u) d) [] matches"

fun pin_provenance ::
  "(match_t list \<Rightarrow> digest_pin_update list planned) \<Rightarrow> match_t list \<Rightarrow> compose_stack list \<Rightarrow>
   (nat \<times> provenance) list \<Rightarrow> (nat \<times> provenance) list planned" where
  "pin_provenance pins matches [] d = Inr d"
| "pin_provenance pins matches (stack # stacks) d =
     (let ms = filter (\<lambda>m. match_index m = cs_index stack) matches
      in case pins ms of
           Inl e \<Rightarrow> Inl e
         | Inr updates \<Rightarrow> pin_provenance pins matches stacks
             (foldl (\<lambda>d m. case pin_of_match updates m of None \<Rightarrow> d
                | Some u \<Rightarrow> setdefault (match_line m) (digest_provenance_from_update ''plan'' ''verified'' u) d) d ms))"

definition planned_digest_provenance_by_line :: "ctx \<Rightarrow> match_t list \<Rightarrow> (nat \<times> provenance) list planned" where
  "planned_digest_provenance_by_line c matches =
     (let opts = c_opts c; d = unpin_provenance (op_digest_unpin_plan opts) matches
      in if \<not> op_digest_pin_updates opts then Inr d
         else pin_provenance (digest_pin_updates True (c_resolve c) (op_digest_pin_plan opts)) matches
                (stacks_to_update matches) d)"

definition slot_of :: "match_t \<Rightarrow> nat \<times> nat \<times> string" where
  "slot_of m = (match_index m, match_line m, m_service m)"

definition applied_digest_provenance_for_match :: "world \<Rightarrow> match_t \<Rightarrow> provenance option" where
  "applied_digest_provenance_for_match w m =
     (case map_of (w_unpinned w) (slot_of m) of
        Some u \<Rightarrow> Some (digest_provenance_from_unpin_update ''apply'' ''verified'' u)
      | None \<Rightarrow> map_option (digest_provenance_from_update ''apply'' ''verified'') (map_of (w_pinned w) (slot_of m)))"

definition digest_provenance_for_event :: "ctx \<Rightarrow> world \<Rightarrow> match_t \<Rightarrow> provenance option planned" where
  "digest_provenance_for_event c w m =
     (case applied_digest_provenance_for_match w m of
        Some p \<Rightarrow> Inr (Some p)
      | None \<Rightarrow> map_sum id (\<lambda>d. map_of d (match_line m)) (planned_digest_provenance_by_line c [m]))"

text \<open>\<open>_target_image_for_match\<close> of the runner: what was applied goes before what was planned.\<close>

definition applied_target_image :: "world \<Rightarrow> match_t \<Rightarrow> string" where
  "applied_target_image w m =
     (case map_of (w_unpinned w) (slot_of m) of
        Some u \<Rightarrow> du_tag_image u
      | None \<Rightarrow> (case map_of (w_pinned w) (slot_of m) of
          Some u \<Rightarrow> dp_final_image u
        | None \<Rightarrow> target_image_for_match m))"

section \<open>Pending rows\<close>

definition who :: "match_t \<Rightarrow> string \<times> string \<times> string" where
  "who m = (service_key m, cs_name (m_stack m), m_service m)"

definition exclusion_service_key :: "tag_exclusion_update \<Rightarrow> string" where
  "exclusion_service_key u = cs_name (te_stack u) @ ''/'' @ te_service u"

definition exclusion_who :: "tag_exclusion_update \<Rightarrow> string \<times> string \<times> string" where
  "exclusion_who u = (exclusion_service_key u, cs_name (te_stack u), te_service u)"

definition mark_interrupted_pending :: "unit run" where
  "mark_interrupted_pending = with_run (best_effort (db_write (set_rows (\<lambda>_ row.
     if pu_status row = ''in_progress'' then row_with ''failed'' ''run-interrupted'' None None row else row))))"

definition mark_unmatched_pending :: "parsed_wud_file \<Rightarrow> match_t list \<Rightarrow> wud_target list \<Rightarrow> unit run" where
  "mark_unmatched_pending parsed matches skipped =
     with_run (each (\<lambda>t. update_pending_update (wt_line_no t) ''pending''
         (if wt_line_no t \<in> set (map wt_line_no skipped) then ''tag-update-disabled'' else ''unmatched'') None None)
       (filter (\<lambda>t. wt_line_no t \<notin> set (map match_line matches)) (pw_targets parsed)))"

definition mark_matched_pending :: "match_t list \<Rightarrow> string \<Rightarrow> string \<Rightarrow> unit run" where
  "mark_matched_pending matches status reason =
     with_run (io_bind (rask (\<lambda>c. planned_digest_provenance_by_line (rc_ctx c) matches)) (\<lambda>planned.
       io_bind (checked_run planned) (\<lambda>by_line.
         each (\<lambda>(n, m). update_pending_update n status reason (Some (who m)) (map_of by_line n))
           (first_match_by_line matches))))"

definition mark_removed_pending :: "parsed_wud_file \<Rightarrow> nat list \<Rightarrow> match_t list \<Rightarrow> unit run" where
  "mark_removed_pending parsed remove matches =
     with_run (each (\<lambda>t. update_pending_update (wt_line_no t) ''resolved'' ''removed-before-run'' None None)
       (filter (\<lambda>t. wt_line_no t \<in> set remove - set (map match_line matches)) (pw_targets parsed)))"

text \<open>
  \<open>_stale_pending_digest_line_numbers\<close>: lines that ask for a digest by name and whose digests, at every
  image concerned, were found to have been replaced.
\<close>

definition digest_keys_of_line :: "match_t list \<Rightarrow> nat \<Rightarrow> requirement_key list" where
  "digest_keys_of_line matches n =
     map expected_digest_key (filter (\<lambda>m. match_line m = n \<and> wt_digest (m_target m) \<noteq> '''' \<and>
       contains (wt_first (m_target m)) ''@sha256:'') matches)"

definition stale_line :: "world \<Rightarrow> match_t list \<Rightarrow> nat \<Rightarrow> bool" where
  "stale_line w matches n =
     (digest_keys_of_line matches n \<noteq> [] \<and>
      (set (digest_keys_of_line matches n) \<subseteq> ro_stale (w_pre w) \<or>
       set (digest_keys_of_line matches n) \<subseteq> ro_stale (w_exp w)))"

definition failed_reason ::
  "world \<Rightarrow> nat list \<Rightarrow> match_t list \<Rightarrow> (nat \<rightharpoonup> stack_status) \<Rightarrow> nat \<Rightarrow> match_t \<Rightarrow> string" where
  "failed_reason w skipped matches statuses n m =
     (if n \<in> set skipped then ''preflight-skipped''
      else if stale_line w matches n then STALE_PENDING_DIGEST_REASON
      else if outcome (w_exp w) (expected_digest_key m) = ''failed'' then ''expected-digest-not-reached''
      else if failed_in_stack (w_exp w) (match_index m) then ''expected-digest-sibling-failed''
      else line_status_reason n matches statuses)"

definition mark_failed_pending :: "match_t list \<Rightarrow> (nat \<times> stack_status) list \<Rightarrow> nat list \<Rightarrow> unit run" where
  "mark_failed_pending matches statuses failed =
     with_run (io_bind (rget (\<lambda>r. (rn_world r, rn_skipped r))) (\<lambda>(w, skipped).
       each (\<lambda>n. case failed_match_for_line n matches (map_of statuses) of
            None \<Rightarrow> io_ret ()
          | Some m \<Rightarrow> update_pending_update n ''failed''
              (failed_reason w skipped matches (map_of statuses) n m) (Some (who m)) None) (nub failed)))"

definition mark_successful_pending :: "match_t list \<Rightarrow> (nat \<times> stack_status) list \<Rightarrow> unit run" where
  "mark_successful_pending matches statuses =
     with_run (io_bind (rget rn_world) (\<lambda>w.
       each (\<lambda>(n, m). update_pending_update n ''resolved'' (line_status_reason n matches (map_of statuses))
           (Some (who m)) (applied_digest_provenance_for_match w m))
         (filter (\<lambda>(n, m). n \<notin> set (failed_line_numbers matches (map_of statuses))) (first_match_by_line matches))))"

section \<open>Tag exclusions\<close>

definition record_tag_exclusion_rules :: "tag_exclusion_update list \<Rightarrow> unit run" where
  "record_tag_exclusion_rules updates =
     with_run (each upsert_tag_exclusion_rule
       (nub (map (\<lambda>u. (te_scope u, te_image_repo u,
          if te_scope u = ''image_repo'' then '''' else exclusion_service_key u, te_tag u)) updates)))"

definition existing_exact_tag_exclusions ::
  "exclusion_rule list \<Rightarrow> tag_exclusion_update list \<Rightarrow> string \<Rightarrow> string list" where
  "existing_exact_tag_exclusions rules updates service =
     sorted_set (concat (map (\<lambda>u. active_tag_exclusion_rules (te_image_repo u) (exclusion_service_key u) rules)
       (filter (\<lambda>u. te_service u = service) updates)))"

definition mark_tag_exclusions_pending :: "tag_exclusion_update list \<Rightarrow> unit run" where
  "mark_tag_exclusions_pending updates =
     with_run (each (\<lambda>(n, u). update_pending_update n ''in_progress'' ''tag-exclusion'' (Some (exclusion_who u)) None)
       (first_tag_exclusion_by_line updates))"

definition mark_tag_exclusion_failures :: "(wud_target \<times> string) list \<Rightarrow> unit run" where
  "mark_tag_exclusion_failures failures =
     with_run (each (\<lambda>(t, reason). update_pending_update (wt_line_no t) ''failed'' (''tag-exclusion-'' @ reason)
       None None) failures)"

text \<open>The row of a line with several exclusions: the first failure, but for a skipped one.\<close>

definition exclusion_status :: "((nat \<times> nat) \<times> stack_status) list \<Rightarrow> tag_exclusion_update \<Rightarrow> stack_status" where
  "exclusion_status statuses u = dict_get statuses (cs_index (te_stack u), te_source_line u) missing_status"

definition exclusion_row_step ::
  "((nat \<times> nat) \<times> stack_status) list \<Rightarrow> (nat \<times> tag_exclusion_update \<times> stack_status) list \<Rightarrow>
   tag_exclusion_update \<Rightarrow> (nat \<times> tag_exclusion_update \<times> stack_status) list" where
  "exclusion_row_step statuses d u =
     (let s = exclusion_status statuses u
      in case map_of d (te_source_line u) of
           None \<Rightarrow> AList.update (te_source_line u) (u, s) d
         | Some (_, p) \<Rightarrow>
             if st_status p = ''success'' \<or> (st_reason p = ''preflight-skipped'' \<and> st_status s \<noteq> ''success'' \<and>
                 st_reason s \<noteq> ''preflight-skipped'')
             then AList.update (te_source_line u) (u, s) d else d)"

definition mark_successful_tag_exclusions ::
  "tag_exclusion_update list \<Rightarrow> ((nat \<times> nat) \<times> stack_status) list \<Rightarrow> unit run" where
  "mark_successful_tag_exclusions updates statuses =
     with_run (each (\<lambda>(n, u, s). update_pending_update n (if st_status s = ''success'' then ''resolved'' else ''failed'')
         (st_reason s) (Some (exclusion_who u)) None)
       (foldl (exclusion_row_step statuses) [] updates))"

section \<open>Events and images\<close>

definition event_status_for_match ::
  "world \<Rightarrow> nat list \<Rightarrow> (nat \<rightharpoonup> stack_status) \<Rightarrow> match_t \<Rightarrow> stack_status" where
  "event_status_for_match w skipped statuses m =
     (let status = status_of statuses (match_index m);
          pre = outcome (w_pre w) (expected_digest_key m);
          later = outcome (w_exp w) (expected_digest_key m)
      in if pre = ''stale'' then failure STALE_PENDING_DIGEST_REASON
         else if pre = ''failed'' then failure ''manifest-integrity-mismatch''
         else if match_line m \<in> set skipped \<and> (\<exists>k \<in> ro_stale (w_pre w) \<union> ro_failed (w_pre w). fst k = match_index m)
         then failure ''preflight-skipped''
         else if st_status status \<noteq> ''failure'' \<or> \<not> failed_in_stack (w_exp w) (match_index m) then status
         else if later = ''failed'' then failure ''expected-digest-not-reached''
         else if later = ''stale'' then failure STALE_PENDING_DIGEST_REASON
         else failure ''expected-digest-sibling-failed'')"

definition image_state_for_reference :: "(string \<times> image_state) list \<Rightarrow> string \<Rightarrow> image_state option" where
  "image_state_for_reference states img =
     (if img = '''' then None
      else case map_of states img of
        Some s \<Rightarrow> Some s
      | None \<Rightarrow> map_option snd (find (\<lambda>(i, s). image_repo_ref i = image_repo_ref img) states))"

definition retry_previous_image_state :: "world \<Rightarrow> match_t \<Rightarrow> image_state option" where
  "retry_previous_image_state w m =
     (let previous = dict_get (w_retry_previous w) (match_index m) []
      in if m_service m \<noteq> '''' then map_of previous (m_service m)
         else case nub (List.map_filter (\<lambda>i. map_of previous (si_service i))
                (filter (\<lambda>i. si_image i = m_compose_image m) (cs_service_images (m_stack m)))) of
              [s] \<Rightarrow> Some s
            | _ \<Rightarrow> None)"

definition first_some :: "'a option list \<Rightarrow> 'a option" where
  "first_some xs = Option.bind (find (\<lambda>x. x \<noteq> None) xs) id"

definition image_states_for_match :: "world \<Rightarrow> match_t \<Rightarrow> string \<Rightarrow> image_state option \<times> image_state option" where
  "image_states_for_match w m target =
     (case map_of (w_image_states w) (match_index m) of
        None \<Rightarrow> (None, None)
      | Some (olds, news) \<Rightarrow>
          (first_some [retry_previous_image_state w m, image_state_for_reference olds (m_compose_image m)],
           first_some [image_state_for_reference news target, image_state_for_reference news (m_resolved m),
             image_state_for_reference news (m_compose_image m)]))"

definition old_event_digest :: "match_t \<Rightarrow> provenance option \<Rightarrow> image_state option \<Rightarrow> string" where
  "old_event_digest m prov old =
     (case old of
        Some s \<Rightarrow> if is_digest s \<noteq> '''' then is_digest s
                  else if prov \<noteq> None then digest_from_image (m_compose_image m) else ''''
      | None \<Rightarrow> if prov \<noteq> None then digest_from_image (m_compose_image m) else '''')"

definition new_event_digest :: "provenance option \<Rightarrow> image_state option \<Rightarrow> string" where
  "new_event_digest prov new =
     (case prov of Some p \<Rightarrow> pv_target_digest p
      | None \<Rightarrow> (case new of Some s \<Rightarrow> is_digest s | None \<Rightarrow> ''''))"

definition id_of :: "image_state option \<Rightarrow> string" where
  "id_of s = (case s of None \<Rightarrow> '''' | Some i \<Rightarrow> is_image_id i)"

definition event_of_match ::
  "world \<Rightarrow> nat list \<Rightarrow> (nat \<rightharpoonup> stack_status) \<Rightarrow> match_t \<Rightarrow> provenance option \<Rightarrow> update_event" where
  "event_of_match w skipped statuses m prov =
     (let target = applied_target_image w m
      in case image_states_for_match w m target of
        (old, new) \<Rightarrow> \<lparr>ev_match = m, ev_target_image = target, ev_old_id = id_of old, ev_new_id = id_of new,
          ev_old_digest = old_event_digest m prov old, ev_new_digest = new_event_digest prov new,
          ev_status = event_status_for_match w skipped statuses m, ev_provenance = prov\<rparr>)"

definition record_update_events :: "match_t list \<Rightarrow> (nat \<times> stack_status) list \<Rightarrow> unit run" where
  "record_update_events matches statuses =
     with_run (each (\<lambda>m.
       io_bind (rget (\<lambda>r. (rn_world r, rn_skipped r))) (\<lambda>(w, skipped).
       io_bind (rask (\<lambda>c. digest_provenance_for_event (rc_ctx c) w m)) (\<lambda>planned.
       io_bind (checked_run planned) (\<lambda>prov.
         insert_update_event (event_of_match w skipped (map_of statuses) m prov))))) matches)"

definition record_known_images :: "match_t list \<Rightarrow> (nat \<times> stack_status) list \<Rightarrow> unit run" where
  "record_known_images matches statuses =
     with_run (each (\<lambda>m.
       case map_of statuses (match_index m) of
         None \<Rightarrow> io_ret ()
       | Some s \<Rightarrow>
           if st_status s \<noteq> ''success'' then io_ret ()
           else io_bind (rget (\<lambda>r. (applied_target_image (rn_world r) m, applied_digest_provenance_for_match (rn_world r) m)))
                  (\<lambda>(img, prov).
                io_bind (lift_act (image_id img)) (\<lambda>i.
                io_bind (lift_act (image_digest img)) (\<lambda>d.
                  upsert_known_image (service_key m)
                    \<lparr>ki_image = img, ki_image_id = i, ki_digest = d, ki_provenance = prov\<rparr>)))) matches)"

end
