(* ===== verification/Tag_Exclusions.thy ===== *)
theory Tag_Exclusions
  imports Run_Audit
begin

text \<open>
  \<open>src/src/wudup/updater_tag_exclusions.py\<close>: the entries a run excludes instead of applying. Each
  becomes a \<open>wud.tag.exclude\<close> label in the Compose files that use the image, and the services may be
  recreated so that What's Up Docker sees it, stopped ones without starting them. What the label rewrite
  renders is a parameter.
\<close>

section \<open>Planning\<close>

definition tag_exclusion_services_for_image :: "compose_stack \<Rightarrow> string \<Rightarrow> string \<Rightarrow> bool \<Rightarrow> string list" where
  "tag_exclusion_services_for_image stack img resolved allow_repo =
     (if \<not> image_matches_resolved_target img resolved allow_repo then []
      else services_for_image (cs_service_images stack) img)"

definition tag_exclusion_matches_for_target ::
  "wud_target \<Rightarrow> string \<Rightarrow> bool \<Rightarrow> compose_stack list \<Rightarrow> match_t list" where
  "tag_exclusion_matches_for_target t resolved allow_repo stacks =
     concat (map (\<lambda>st. concat (map (\<lambda>img.
       map (\<lambda>s. \<lparr>m_stack = st, m_target = t, m_resolved = resolved, m_compose_image = img, m_service = s\<rparr>)
         (tag_exclusion_services_for_image st img resolved allow_repo)) (cs_images st))) stacks)"

definition target_exclusion_matches ::
  "(string \<rightharpoonup> string) \<Rightarrow> compose_stack list \<Rightarrow> wud_target \<Rightarrow> match_t list" where
  "target_exclusion_matches container_images stacks t =
     (let resolved = resolved_of container_images t
      in tag_exclusion_matches_for_target t resolved
           (wt_allow_repo t \<or> resolved \<noteq> wt_first t \<or> \<not> image_has_tag resolved) stacks)"

definition build_tag_exclusion_matches ::
  "(string \<rightharpoonup> string) \<Rightarrow> wud_target list \<Rightarrow> compose_stack list \<Rightarrow> match_t list \<times> (wud_target \<times> string) list" where
  "build_tag_exclusion_matches container_images targets stacks =
     (sort_key match_order (unique_by match_key {}
        (concat (map (target_exclusion_matches container_images stacks)
          (filter (\<lambda>t. wt_desired_tag t \<noteq> '''') targets)))),
      List.map_filter (\<lambda>t.
        if wt_desired_tag t = '''' then Some (t, ''not-a-tag-update'')
        else if target_exclusion_matches container_images stacks t = [] then Some (t, ''unmatched'') else None) targets)"

definition tag_exclusion_repo_updates ::
  "compose_stack list \<Rightarrow> string \<Rightarrow> string \<Rightarrow> nat \<Rightarrow> tag_exclusion_update list" where
  "tag_exclusion_repo_updates stacks repo tag line_no =
     concat (map (\<lambda>st. map (\<lambda>i. \<lparr>te_stack = st, te_service = si_service i, te_image = si_image i,
         te_image_repo = repo, te_tag = tag, te_source_line = line_no, te_scope = ''image_repo''\<rparr>)
       (filter (\<lambda>i. repo_key (si_image i) = repo) (cs_service_images st))) stacks)"

definition service_tag_exclusion_updates :: "match_t list \<Rightarrow> nat \<Rightarrow> tag_exclusion_update list" where
  "service_tag_exclusion_updates ms line_no =
     map (\<lambda>m. \<lparr>te_stack = m_stack m, te_service = m_service m, te_image = m_compose_image m,
       te_image_repo = repo_key (m_compose_image m), te_tag = wt_desired_tag (m_target m),
       te_source_line = line_no, te_scope = ''service''\<rparr>) ms"

definition stack_file :: "compose_stack \<Rightarrow> path" where
  "stack_file st = Named (compose_name st)"

definition render_stack_exclusions ::
  "compose_stack \<Rightarrow> tag_exclusion_update list \<Rightarrow> (string \<times> string list) run" where
  "render_stack_exclusions st us =
     io_bind (rask rc_render_exclusions) (\<lambda>render.
     io_bind (rget (\<lambda>r. existing_exact_tag_exclusions (rn_rules r) us)) (\<lambda>existing.
     io_bind (lift_io (\<lambda>_. read_text (stack_file st))) (\<lambda>src.
       case render us existing src of Inl e \<Rightarrow> io_raise e | Inr x \<Rightarrow> io_ret x)))"

definition rewrite_error :: "lexc \<Rightarrow> string option" where
  "rewrite_error e =
     (case e of FileError (ComposeTagRewriteError s) \<Rightarrow>
        Some (if s \<noteq> '''' then s else ''the Compose labels cannot be rewritten safely.'')
      | _ \<Rightarrow> None)"

definition tag_exclusion_rewrite_error :: "tag_exclusion_update list \<Rightarrow> string run" where
  "tag_exclusion_rewrite_error us =
     io_catch
       (io_bind (each (\<lambda>(st, us). io_bind (render_stack_exclusions st us) (\<lambda>_. io_ret ()))
          (tag_exclusion_updates_by_stack us)) (\<lambda>_. io_ret ''''))
       (\<lambda>e. case rewrite_error e of Some s \<Rightarrow> io_ret s | None \<Rightarrow> io_raise e)"

text \<open>One line: for every service that uses the repository, or else for its own services.\<close>

definition plan_line_exclusions ::
  "match_t list \<Rightarrow> compose_stack list \<Rightarrow> nat \<times> match_t \<Rightarrow> (string + tag_exclusion_update list) run" where
  "plan_line_exclusions matches stacks nm =
     (case nm of (n, first) \<Rightarrow>
        let ms = filter (\<lambda>m. match_line m = n) matches;
            repo_us = tag_exclusion_repo_updates stacks (repo_key (m_compose_image first))
                        (wt_desired_tag (m_target first)) n;
            service_us = service_tag_exclusion_updates ms n
        in if \<exists>m \<in> set ms. m_service m = '''' then io_ret (Inl ''service-unmapped'')
           else io_bind (if repo_us = [] then io_ret ''none'' else tag_exclusion_rewrite_error repo_us) (\<lambda>reason.
             if reason = '''' then io_ret (Inr repo_us)
             else io_bind (tag_exclusion_rewrite_error service_us) (\<lambda>reason'.
               io_ret (if reason' \<noteq> '''' then Inl ''compose-label-unsupported'' else Inr service_us))))"

fun plan_exclusion_lines ::
  "match_t list \<Rightarrow> compose_stack list \<Rightarrow> (nat \<times> match_t) list \<Rightarrow> tag_exclusion_update list \<Rightarrow>
   (wud_target \<times> string) list \<Rightarrow> (tag_exclusion_update list \<times> (wud_target \<times> string) list) run" where
  "plan_exclusion_lines matches stacks [] us fs = io_ret (unique_tag_exclusion_updates us, fs)"
| "plan_exclusion_lines matches stacks (nm # nms) us fs =
     io_bind (plan_line_exclusions matches stacks nm) (\<lambda>r. case r of
       Inl reason \<Rightarrow> plan_exclusion_lines matches stacks nms us (fs @ [(m_target (snd nm), reason)])
     | Inr planned \<Rightarrow> plan_exclusion_lines matches stacks nms (us @ planned) fs)"

definition plan_tag_exclusions ::
  "match_t list \<Rightarrow> compose_stack list \<Rightarrow> (tag_exclusion_update list \<times> (wud_target \<times> string) list) run" where
  "plan_tag_exclusions matches stacks =
     plan_exclusion_lines matches stacks (sort_key fst (first_match_by_line matches)) [] []"

section \<open>Writing the labels\<close>

type_synonym exclusion_statuses = "((nat \<times> nat) \<times> stack_status) list"

definition exclusion_slot :: "tag_exclusion_update \<Rightarrow> nat \<times> nat" where
  "exclusion_slot u = (cs_index (te_stack u), te_source_line u)"

definition fail_stack_updates ::
  "exclusion_statuses \<Rightarrow> tag_exclusion_update list \<Rightarrow> string \<Rightarrow> exclusion_statuses" where
  "fail_stack_updates statuses us reason =
     foldl (\<lambda>d u. AList.update (exclusion_slot u) (failure reason) d) statuses us"

definition apply_compose_tag_exclusions :: "compose_stack \<Rightarrow> tag_exclusion_update list \<Rightarrow> string list run" where
  "apply_compose_tag_exclusions st us =
     io_bind (lift_io (\<lambda>c. compose_source_hash (c_sha (rc_ctx c)) (stack_file st))) (\<lambda>h.
     io_bind (render_stack_exclusions st us) (\<lambda>(rendered, applied).
       if applied = [] then io_ret []
       else io_bind (lift_io (\<lambda>c. atomic_replace_compose (c_sha (rc_ctx c)) (c_unsup (rc_ctx c)) (stack_file st)
              rendered ''exclude'' (Some h) False)) (\<lambda>_. io_ret applied)))"

text \<open>The statuses so far, and the updates whose label was written.\<close>

definition write_stack_tag_exclusions ::
  "compose_stack \<Rightarrow> tag_exclusion_update list \<Rightarrow> exclusion_statuses \<Rightarrow>
   (exclusion_statuses \<times> tag_exclusion_update list) run" where
  "write_stack_tag_exclusions st us statuses =
     io_bind (io_catch (io_bind (apply_compose_tag_exclusions st us) (\<lambda>a. io_ret (Some a)))
         (\<lambda>e. case file_error e of None \<Rightarrow> io_raise e | Some _ \<Rightarrow> io_ret None))
       (\<lambda>applied. case applied of
          None \<Rightarrow> io_ret (fail_stack_updates statuses us ''tag-exclusion-label-failed'', [])
        | Some services \<Rightarrow>
            io_bind (record_tag_exclusion_rules us) (\<lambda>_.
              io_ret (statuses, filter (\<lambda>u. te_service u \<in> set services) us)))"

section \<open>Recreating\<close>

definition compose_runtime_keys :: "runtime_key list option act" where
  "compose_runtime_keys =
     catch_cmd (io_bind (run_cmd PsKeys) (\<lambda>rows. io_bind (ask c_norm) (\<lambda>norm.
       io_ret (Some (compose_runtime_service_keys norm rows))))) (\<lambda>_. io_ret None)"

definition compose_file_refusal_reason :: "compose_stack \<Rightarrow> runtime_key list option \<Rightarrow> string act" where
  "compose_file_refusal_reason st found =
     (case found of
        None \<Rightarrow> io_ret ''tag-exclusion-recreate-failed''
      | Some keys \<Rightarrow>
          io_bind (ask (\<lambda>c. (c_norm c, c_discovered c))) (\<lambda>(norm, discovered).
            if compose_runtime_extra_config_files norm (stack_project_dir st) (cs_file st) (cs_project_name st) keys
                 (compose_project_file_sets norm discovered (cs_project_name st)) \<noteq> []
            then io_ret ''compose-override-files''
            else io_bind (only_if (compose_runtime_project_shared norm (stack_project_dir st) (cs_file st)
                     (cs_project_name st) keys)
                   (put (\<lambda>w. w\<lparr>w_keep_orphans := insert (cs_index st) (w_keep_orphans w)\<rparr>))) (\<lambda>_.
                 io_ret '''')))"

primrec split_running ::
  "(string \<Rightarrow> string list) \<Rightarrow> string list \<Rightarrow> string list \<Rightarrow> string list \<Rightarrow> (string list \<times> string list) option" where
  "split_running states [] running stopped = Some (running, stopped)"
| "split_running states (s # ss) running stopped =
     (if service_state_is_unverifiable (states s) then None
      else if set (states s) = {''running''} then split_running states ss (running @ [s]) stopped
      else split_running states ss running (stopped @ [s]))"

definition tag_exclusion_runtime_state ::
  "compose_stack \<Rightarrow> string list \<Rightarrow> (string list \<times> string list) option act" where
  "tag_exclusion_runtime_state st services =
     (if cs_project_name st = '''' then io_ret None
      else io_bind (catch_cmd (io_bind (run_cmd PsStates) (\<lambda>rows. io_ret (Some rows))) (\<lambda>_. io_ret None)) (\<lambda>found.
        case found of
          None \<Rightarrow> io_ret None
        | Some rows \<Rightarrow> io_bind (ask c_norm) (\<lambda>norm.
            io_ret (split_running
              (\<lambda>s. compose_service_runtime_states norm st s (compose_runtime_service_states norm rows)) services [] []))))"

text \<open>
  One pass of the \<open>while changed\<close> loop; the loop ends because a pass that changes something blocks one
  more of the running services.
\<close>

fun block_pass ::
  "(string \<times> string) list \<Rightarrow> string list \<Rightarrow> string list \<times> string list \<Rightarrow> string list \<times> string list" where
  "block_pass providers [] acc = acc"
| "block_pass providers (s # ss) (unavailable, blocked) =
     block_pass providers ss
       (if s \<in> set unavailable then (unavailable, blocked)
        else case map_of providers s of
          Some p \<Rightarrow> if p \<in> set unavailable then (unavailable @ [s], blocked @ [s]) else (unavailable, blocked)
        | None \<Rightarrow> (unavailable, blocked))"

fun block_rounds ::
  "nat \<Rightarrow> (string \<times> string) list \<Rightarrow> string list \<Rightarrow> string list \<times> string list \<Rightarrow> string list \<times> string list" where
  "block_rounds 0 providers running acc = acc"
| "block_rounds (Suc n) providers running acc =
     (let acc' = block_pass providers running acc
      in if acc' = acc then acc else block_rounds n providers running acc')"

definition running_consumers_of_stopped_providers ::
  "string list \<Rightarrow> string list \<Rightarrow> (string \<times> string) list \<Rightarrow> string list" where
  "running_consumers_of_stopped_providers running stopped providers =
     snd (block_rounds (Suc (length running)) providers running (stopped, []))"

definition recreate_preserving_runtime_state ::
  "compose_stack \<Rightarrow> string list \<Rightarrow> (string \<times> string) list \<Rightarrow> bool \<Rightarrow> bool act" where
  "recreate_preserving_runtime_state st services providers no_deps =
     io_bind (tag_exclusion_runtime_state st services) (\<lambda>runtime. case runtime of
       None \<Rightarrow> io_ret False
     | Some (running, stopped) \<Rightarrow>
         if running_consumers_of_stopped_providers running stopped providers \<noteq> [] then io_ret False
         else io_bind (if stopped = [] then io_ret True
             else io_bind (run_compose_up_no_start st stopped False) (\<lambda>u. io_ret (ur_ok u))) (\<lambda>ok1.
           if \<not> ok1 then io_ret False
           else io_bind (if running = [] then io_ret True
               else io_bind (run_compose_up st running False (no_deps \<or> stopped \<noteq> [])) (\<lambda>u.
                 if \<not> ur_ok u then io_ret False
                 else if ur_wait_handled u then io_ret True else wait_for_health (Some running))) (\<lambda>ok2.
             if \<not> ok2 then io_ret False
             else if stopped = [] then io_ret True
             else io_bind (verify_services_stopped stopped) (\<lambda>u. io_ret (ur_ok u)))))"

definition recreate_stack_services :: "compose_stack \<Rightarrow> tag_exclusion_update list \<Rightarrow> bool act" where
  "recreate_stack_services st us =
     (let services = sorted_set (map te_service us);
          providers = network_mode_providers (cs_service_images st);
          (up, uses) = expand_network_mode_services services providers
      in io_bind (missing_network_mode_providers False services providers) (\<lambda>missing.
           recreate_preserving_runtime_state st
             (if missing \<noteq> [] then ordered_unique (missing @ up) else up) providers
             (\<not> (uses \<or> missing \<noteq> []))))"

fun recreate_tag_exclusion_services ::
  "(compose_stack \<times> tag_exclusion_update list) list \<Rightarrow> exclusion_statuses \<Rightarrow> exclusion_statuses run" where
  "recreate_tag_exclusion_services [] statuses = io_ret statuses"
| "recreate_tag_exclusion_services ((st, us) # rest) statuses =
     io_bind (lift_act (recreate_stack_services st us)) (\<lambda>ok.
       recreate_tag_exclusion_services rest
         (if ok then statuses else fail_stack_updates statuses us ''tag-exclusion-recreate-failed''))"

fun write_tag_exclusions ::
  "runtime_key list option option \<Rightarrow> (compose_stack \<times> tag_exclusion_update list) list \<Rightarrow> exclusion_statuses \<Rightarrow>
   tag_exclusion_update list \<Rightarrow> (exclusion_statuses \<times> tag_exclusion_update list) run" where
  "write_tag_exclusions keys [] statuses ok = io_ret (statuses, ok)"
| "write_tag_exclusions keys ((st, us) # rest) statuses ok =
     io_bind (case keys of None \<Rightarrow> io_ret '''' | Some ks \<Rightarrow> lift_act (compose_file_refusal_reason st ks)) (\<lambda>refusal.
       if refusal \<noteq> '''' then write_tag_exclusions keys rest (fail_stack_updates statuses us refusal) ok
       else io_bind (write_stack_tag_exclusions st us statuses) (\<lambda>(statuses', written).
              write_tag_exclusions keys rest statuses' (ok @ written)))"

definition apply_tag_exclusions :: "tag_exclusion_update list \<Rightarrow> exclusion_statuses run" where
  "apply_tag_exclusions us =
     (let statuses = foldl (\<lambda>d u. AList.update (exclusion_slot u) (success ''tag-excluded'') d) [] us
      in if us = [] then io_ret statuses
         else io_bind (rask rc_recreate_excluded) (\<lambda>recreate.
              io_bind (if recreate then io_bind (lift_act compose_runtime_keys) (\<lambda>ks. io_ret (Some ks)) else io_ret None)
                (\<lambda>keys.
              io_bind (write_tag_exclusions keys (tag_exclusion_updates_by_stack us) statuses []) (\<lambda>(statuses', written).
                if recreate then recreate_tag_exclusion_services (tag_exclusion_updates_by_stack written) statuses'
                else io_ret statuses'))))"

end
