(* ===== verification/Runner.thy ===== *)
theory Runner
  imports Tag_Exclusions
begin

text \<open>
  A run that changes something, from the removal of its entries out of the WUD file to their
  reconciliation: \<open>_prepare_mutation\<close> and the rest of \<open>UpdateFromWudRunner.run\<close> in
  \<open>src/src/wudup/updater.py\<close>, with its handling of every error. The stack updates are those of
  \<open>Lifecycle\<close>, on the same file system. Error reports and log lines are left out.
\<close>

section \<open>Before the first change\<close>

definition in_flight_lines :: "match_t list \<Rightarrow> nat list \<Rightarrow> tag_exclusion_update list \<Rightarrow> nat list" where
  "in_flight_lines matches remove us = sorted_set (map match_line matches @ remove @ map te_source_line us)"

definition remove_line_numbers :: "parsed_wud_file \<Rightarrow> nat list run" where
  "remove_line_numbers parsed =
     io_bind (rask (\<lambda>c. lo_remove_lines (rc_lines c))) (\<lambda>spec.
     io_bind (checked_run (parse_line_spec spec (int (length (pw_lines parsed))) ''--remove-lines-before-run'')) (\<lambda>ns.
       io_ret (map nat ns)))"

definition audit_start ::
  "parsed_wud_file \<Rightarrow> nat list \<Rightarrow> match_t list \<Rightarrow> wud_target list \<Rightarrow> tag_exclusion_update list \<Rightarrow>
   (wud_target \<times> string) list \<Rightarrow> parsed_wud_file run" where
  "audit_start parsed remove matches skipped us fs =
     io_bind (audit_parsed_file parsed (sorted_set (in_flight_lines matches remove us @ map (wt_line_no \<circ> fst) fs))) (\<lambda>audit.
     io_bind (start_audit audit) (\<lambda>_.
     io_bind (mark_unmatched_pending audit matches skipped) (\<lambda>_.
     io_bind (mark_removed_pending audit remove matches) (\<lambda>_.
     io_bind (mark_matched_pending matches ''in_progress'' ''matched'') (\<lambda>_.
     io_bind (mark_tag_exclusions_pending us) (\<lambda>_.
     io_bind (mark_tag_exclusion_failures fs) (\<lambda>_.
       io_ret audit)))))))"

definition with_lock :: "unit run \<Rightarrow> unit run" where
  "with_lock m =
     io_bind (lift_io (\<lambda>c. acquire (rc_lock c))) (\<lambda>_.
       io_finally m (\<lambda>_. lift_io (\<lambda>c. release (rc_lock c))))"

definition remove_in_flight :: "parsed_wud_file \<Rightarrow> nat list \<Rightarrow> unit run" where
  "remove_in_flight audit lines =
     io_bind (lift_io (\<lambda>c. remove_lines_before_run (rc_uid c) (rc_gid c) (rc_file c) audit (set lines)
        (Some (rc_lock c)) (SecondsText ''30'') (rc_owner c))) (\<lambda>_. io_ret ())"

definition prepare_mutation ::
  "parsed_wud_file \<Rightarrow> match_t list \<Rightarrow> wud_target list \<Rightarrow> tag_exclusion_update list \<Rightarrow>
   (wud_target \<times> string) list \<Rightarrow> unit run" where
  "prepare_mutation parsed matches skipped us fs =
     io_bind (remove_line_numbers parsed) (\<lambda>remove.
     io_bind (audit_start parsed remove matches skipped us fs) (\<lambda>audit.
       with_lock
         (io_bind (rput (\<lambda>r. r\<lparr>rn_in_flight := Some \<lparr>if_parsed = audit, if_matches = matches, if_exclusions = us\<rparr>,
             rn_statuses := [], rn_exclusion_statuses := []\<rparr>)) (\<lambda>_.
          remove_in_flight audit (in_flight_lines matches remove us)))))"

section \<open>The changes\<close>

definition matches_of_stack :: "match_t list \<Rightarrow> compose_stack \<Rightarrow> match_t list" where
  "matches_of_stack matches stack = filter (\<lambda>m. match_index m = cs_index stack) matches"

fun preflight_stacks ::
  "match_t list \<Rightarrow> compose_stack list \<Rightarrow> (nat \<times> stack_status) list \<Rightarrow> (nat \<times> stack_status) list act" where
  "preflight_stacks matches [] stale = io_ret stale"
| "preflight_stacks matches (st # sts) stale =
     io_bind (preflight_stack_expected_digests st (matches_of_stack matches st)) (\<lambda>s. case s of
       None \<Rightarrow> preflight_stacks matches sts stale
     | Some status \<Rightarrow> preflight_stacks matches sts (AList.update (cs_index st) status stale))"

definition key_lines :: "requirement_key set \<Rightarrow> nat set" where
  "key_lines ks = (\<lambda>(i, n, img). n) ` ks"

text \<open>The lines of a stale stack whose own digest was fine.\<close>

definition preflight_skipped_lines :: "match_t list \<Rightarrow> (nat \<times> stack_status) list \<Rightarrow> requirement_outcomes \<Rightarrow> nat list" where
  "preflight_skipped_lines matches stale pre =
     filter (\<lambda>n. n \<notin> key_lines (ro_stale pre) - key_lines (ro_viable pre) \<and> n \<notin> key_lines (ro_failed pre))
       (map match_line (filter (\<lambda>m. match_index m \<in> set (map fst stale)) matches))"

definition preflight_matching_stack_digests :: "match_t list \<Rightarrow> unit run" where
  "preflight_matching_stack_digests matches =
     io_bind (lift_act (preflight_stacks matches (stacks_to_update matches) [])) (\<lambda>stale.
       if stale = [] then io_ret ()
       else rput (\<lambda>r. r\<lparr>rn_skipped := preflight_skipped_lines matches stale (w_pre (rn_world r)),
              rn_statuses := stale\<rparr>))"

fun update_stacks :: "match_t list \<Rightarrow> compose_stack list \<Rightarrow> unit run" where
  "update_stacks matches [] = io_ret ()"
| "update_stacks matches (st # sts) =
     io_bind (lift_act (update_stack st (matches_of_stack matches st))) (\<lambda>status.
     io_bind (rput (\<lambda>r. r\<lparr>rn_statuses := AList.update (cs_index st) status (rn_statuses r)\<rparr>)) (\<lambda>_.
       update_stacks matches sts))"

definition unblocked :: "(nat \<times> stack_status) list \<Rightarrow> nat \<Rightarrow> bool" where
  "unblocked stale i = (i \<notin> set (map fst stale))"

definition apply_changes :: "match_t list \<Rightarrow> tag_exclusion_update list \<Rightarrow> unit run" where
  "apply_changes matches us =
     io_bind (preflight_matching_stack_digests matches) (\<lambda>_.
     io_bind (rget rn_statuses) (\<lambda>stale.
     io_bind (apply_tag_exclusions (filter (\<lambda>u. unblocked stale (cs_index (te_stack u))) us)) (\<lambda>sts.
     io_bind (rput (\<lambda>r. r\<lparr>rn_exclusion_statuses :=
         foldl (\<lambda>d u. AList.update (exclusion_slot u) (failure ''preflight-skipped'') d) sts
           (filter (\<lambda>u. \<not> unblocked stale (cs_index (te_stack u))) us)\<rparr>)) (\<lambda>_.
       let ms = filter (\<lambda>m. unblocked stale (match_index m)) matches
       in update_stacks ms (stacks_to_update ms)))))"

section \<open>Putting entries back\<close>

definition exclusion_failed_lines :: "tag_exclusion_update list \<Rightarrow> exclusion_statuses \<Rightarrow> nat list" where
  "exclusion_failed_lines us statuses =
     sorted_set (map te_source_line (filter (\<lambda>u. st_status (exclusion_status statuses u) \<noteq> ''success'') us))"

definition unfinished_pending_lines ::
  "match_t list \<Rightarrow> (nat \<times> stack_status) list \<Rightarrow> tag_exclusion_update list \<Rightarrow> exclusion_statuses \<Rightarrow> nat list" where
  "unfinished_pending_lines matches statuses us exclusions =
     failed_line_numbers matches (map_of statuses) @ exclusion_failed_lines us exclusions"

definition restore_lines :: "parsed_wud_file \<Rightarrow> nat list \<Rightarrow> unit run" where
  "restore_lines parsed lines =
     io_bind (lift_io (\<lambda>c. restore_failed_lines (rc_uid c) (rc_gid c) (rc_file c) parsed (set lines)
        (Some (rc_lock c)) (SecondsText ''30'') (rc_owner c))) (\<lambda>_. io_ret ())"

text \<open>\<open>_report_cleanup_failure\<close>: the lines that were reconciled are reported on their own.\<close>

definition report_cleanup_failure :: "match_t list \<Rightarrow> nat list \<Rightarrow> unit run" where
  "report_cleanup_failure matches failed =
     io_bind (rwhen (\<exists>m \<in> set matches. match_line m \<notin> set failed) (report_progress ''cleanup'' ''success'')) (\<lambda>_.
       report_progress ''cleanup'' ''failure'')"

definition reconcile_pending_entries ::
  "parsed_wud_file \<Rightarrow> match_t list \<Rightarrow> tag_exclusion_update list \<Rightarrow> unit run" where
  "reconcile_pending_entries audit matches us =
     io_bind (report_progress ''cleanup'' ''running'') (\<lambda>_.
     io_bind (rget (\<lambda>r. (rn_statuses r, rn_exclusion_statuses r, rn_world r))) (\<lambda>(statuses, exclusions, w).
     io_bind (rask rc_partial) (\<lambda>partial.
       let failed = unfinished_pending_lines matches statuses us exclusions;
           restorable = filter (\<lambda>n. \<not> stale_line w matches n \<or> n \<in> set partial) failed;
           back = sorted_set (restorable @ partial)
       in io_bind (rwhen (back \<noteq> []) (restore_lines audit back)) (\<lambda>_.
            if failed \<noteq> []
            then io_bind (mark_failed_pending matches statuses failed) (\<lambda>_. report_cleanup_failure matches failed)
            else report_progress ''cleanup'' ''success''))))"

section \<open>The end of a run\<close>

definition failed_run :: "(nat \<times> stack_status) list \<Rightarrow> exclusion_statuses \<Rightarrow> (wud_target \<times> string) list \<Rightarrow> bool" where
  "failed_run statuses exclusions fs =
     ((\<exists>(i, s) \<in> set statuses. st_status s \<noteq> ''success'') \<or>
      (\<exists>(k, s) \<in> set exclusions. st_status s \<noteq> ''success'' \<and> st_reason s \<noteq> ''preflight-skipped'') \<or> fs \<noteq> [] \<or>
      (\<exists>(k, s) \<in> set exclusions. st_reason s = ''preflight-skipped''))"

definition finish_run ::
  "match_t list \<Rightarrow> tag_exclusion_update list \<Rightarrow> (wud_target \<times> string) list \<Rightarrow> nat run" where
  "finish_run matches us fs =
     io_bind (rget (\<lambda>r. (rn_statuses r, rn_exclusion_statuses r))) (\<lambda>(statuses, exclusions).
     io_bind (mark_successful_pending matches statuses) (\<lambda>_.
     io_bind (mark_successful_tag_exclusions us exclusions) (\<lambda>_.
     io_bind (record_update_events matches statuses) (\<lambda>_.
     io_bind (record_known_images matches statuses) (\<lambda>_.
       if failed_run statuses exclusions fs
       then io_bind (finish_audit_run ''failure'') (\<lambda>_.
            io_bind (report_progress ''completion'' ''failure'') (\<lambda>_. io_ret 1))
       else io_bind (finish_audit_run ''success'') (\<lambda>_.
            io_bind (report_progress ''completion'' ''success'') (\<lambda>_. io_ret 0)))))))"

section \<open>A run that stops\<close>

text \<open>
  Entries that cannot be put back are named in an error, \<open>rn_unkept\<close>.
\<close>

definition restore_unfinished_pending :: "in_flight_pending \<Rightarrow> unit run" where
  "restore_unfinished_pending fl =
     io_bind (rget (\<lambda>r. (rn_statuses r, rn_exclusion_statuses r))) (\<lambda>(statuses, exclusions).
     io_bind (rask rc_partial) (\<lambda>partial.
       let unfinished = sorted_set (unfinished_pending_lines (if_matches fl) statuses (if_exclusions fl) exclusions @ partial)
       in if unfinished = [] then io_ret ()
          else catch_exception (restore_lines (if_parsed fl) unfinished) (\<lambda>e.
            rput (\<lambda>r. r\<lparr>rn_unkept := rn_unkept r @ needed_lines (pw_lines (if_parsed fl)) (set unfinished)\<rparr>))))"

definition attempted :: "match_t list \<Rightarrow> (nat \<times> stack_status) list \<Rightarrow> match_t list" where
  "attempted matches statuses = filter (\<lambda>m. match_index m \<in> set (map fst statuses)) matches"

definition record_finished_stacks :: "in_flight_pending \<Rightarrow> unit run" where
  "record_finished_stacks fl =
     io_bind (rget (\<lambda>r. (rn_statuses r, rn_exclusion_statuses r))) (\<lambda>(statuses, exclusions).
       let tried = attempted (if_matches fl) statuses;
           failed = sorted_set (map match_line (filter (\<lambda>m. st_status (status_of (map_of statuses) (match_index m)) \<noteq> ''success'') tried));
           us = filter (\<lambda>u. exclusion_slot u \<in> set (map fst exclusions)) (if_exclusions fl)
       in catch_exception
            (io_bind (mark_successful_pending (if_matches fl) statuses) (\<lambda>_.
             io_bind (mark_failed_pending tried statuses failed) (\<lambda>_.
             io_bind (mark_successful_tag_exclusions us exclusions) (\<lambda>_.
             io_bind (record_update_events tried statuses) (\<lambda>_.
               record_known_images tried statuses))))) (\<lambda>_. io_ret ()))"

definition suppress_exception :: "unit run \<Rightarrow> unit run" where
  "suppress_exception m = catch_exception m (\<lambda>_. io_ret ())"

definition abort_run :: "unit run" where
  "abort_run =
     io_bind (rget rn_in_flight) (\<lambda>fl.
     io_bind (rput (\<lambda>r. r\<lparr>rn_in_flight := None\<rparr>)) (\<lambda>_.
     io_finally
       (case fl of
          None \<Rightarrow> io_ret ()
        | Some fl \<Rightarrow> io_bind (suppress_exception (restore_unfinished_pending fl)) (\<lambda>_.
                       suppress_exception (record_finished_stacks fl)))
       (\<lambda>_. io_finally mark_interrupted_pending (\<lambda>_. best_effort (finish_audit_run ''failure'')))))"

text \<open>The error a stopped run ends with.\<close>

definition run_error :: "lexc \<Rightarrow> lexc" where
  "run_error e =
     (case e of
        CommandError s \<Rightarrow> UpdaterErr s
      | FileError (OSError s) \<Rightarrow> UpdaterErr (''Filesystem operation failed: '' @ s)
      | FileError (FileNotFound p) \<Rightarrow> UpdaterErr ''Filesystem operation failed: No such file or directory''
      | FileError (OwnerConfigError s) \<Rightarrow> UpdaterErr s
      | FileError (LockTimeout s) \<Rightarrow> UpdaterErr s
      | FileError (LockError s) \<Rightarrow> UpdaterErr s
      | _ \<Rightarrow> e)"

definition run_body ::
  "parsed_wud_file \<Rightarrow> match_t list \<Rightarrow> wud_target list \<Rightarrow> tag_exclusion_update list \<Rightarrow>
   (wud_target \<times> string) list \<Rightarrow> nat run" where
  "run_body parsed matches skipped us fs =
     io_bind (prepare_mutation parsed matches skipped us fs) (\<lambda>_.
     io_bind (apply_changes matches us) (\<lambda>_.
     io_bind (rget (\<lambda>r. if_parsed (the (rn_in_flight r)))) (\<lambda>audit.
     io_bind (reconcile_pending_entries audit matches us) (\<lambda>_.
     io_bind (rput (\<lambda>r. r\<lparr>rn_in_flight := None\<rparr>)) (\<lambda>_.
       finish_run matches us fs)))))"

definition run_mutation ::
  "parsed_wud_file \<Rightarrow> match_t list \<Rightarrow> wud_target list \<Rightarrow> tag_exclusion_update list \<Rightarrow>
   (wud_target \<times> string) list \<Rightarrow> nat run" where
  "run_mutation parsed matches skipped us fs =
     io_finally
       (io_catch (run_body parsed matches skipped us fs) (\<lambda>e. io_bind abort_run (\<lambda>_. io_raise (run_error e))))
       (\<lambda>_. lift_io (\<lambda>c. release (rc_lock c)))"

text \<open>\<open>_handle_no_matches\<close>: nothing to change, but the run is on record.\<close>

definition handle_no_matches ::
  "bool \<Rightarrow> parsed_wud_file \<Rightarrow> wud_target list \<Rightarrow> match_t list \<Rightarrow> wud_target list \<Rightarrow>
   (wud_target \<times> string) list \<Rightarrow> nat run" where
  "handle_no_matches dry_run parsed excluded matches skipped fs =
     (let status = (if fs = [] then ''success'' else ''failure'')
      in io_bind (rwhen (\<not> dry_run)
             (io_bind (audit_parsed_file parsed (map wt_line_no excluded)) (\<lambda>audit.
              io_bind (start_audit audit) (\<lambda>_.
              io_bind (mark_unmatched_pending audit matches skipped) (\<lambda>_.
              io_bind (mark_tag_exclusion_failures fs) (\<lambda>_. finish_audit_run status)))))) (\<lambda>_.
         io_bind (report_progress ''preflight'' status) (\<lambda>_.
         io_bind (report_progress ''completion'' status) (\<lambda>_.
           io_ret (if fs = [] then 0 else 1)))))"

end
