(* ===== verification/Runner_Steps.thy ===== *)
theory Runner_Steps
  imports Runner Lifecycle_Commands
begin

text \<open>
  Which parts of a run leave the files and the recorded outcomes alone: the locale \<open>bystander\<close> has an
  invariant of those, and every operation on the audit database, every report and every question to
  Docker keeps it.
\<close>

section \<open>Bystanders\<close>

definition same_core :: "runner \<Rightarrow> runner \<Rightarrow> bool" where
  "same_core r r' =
     (fs_files (w_fs (rn_world r')) = fs_files (w_fs (rn_world r)) \<and>
      fs_next (w_fs (rn_world r')) = fs_next (w_fs (rn_world r)) \<and>
      w_pre (rn_world r') = w_pre (rn_world r) \<and> w_exp (rn_world r') = w_exp (rn_world r) \<and>
      rn_in_flight r' = rn_in_flight r \<and> rn_statuses r' = rn_statuses r \<and>
      rn_exclusion_statuses r' = rn_exclusion_statuses r \<and> rn_unkept r' = rn_unkept r \<and> rn_run r' = rn_run r)"

named_theorems runs "what keeps the invariant of a bystander"

lemma valid_rput: "(\<And>r. P r \<Longrightarrow> Q () (g r)) \<Longrightarrow> valid c P (rput g) Q E"
  by (simp add: valid_def holds_def rput_def)

lemma valid_rget: "(\<And>r. P r \<Longrightarrow> Q (f r) r) \<Longrightarrow> valid c P (rget f) Q E"
  by (simp add: valid_def holds_def rget_def)

lemma valid_rask: "(\<And>r. P r \<Longrightarrow> Q (f c) r) \<Longrightarrow> valid c P (rask f) Q E"
  by (simp add: valid_def holds_def rask_def)

lemma valid_rask_bind: "valid c P (f (g c)) Q E \<Longrightarrow> valid c P (io_bind (rask g) f) Q E"
  by (simp add: valid_def holds_def io_bind_def rask_def)

lemma valid_rget_bind:
  "(\<And>v. valid c (\<lambda>r. P r \<and> v = g r) (f v) Q E) \<Longrightarrow> valid c P (io_bind (rget g) f) Q E"
  by (simp add: valid_def holds_def io_bind_def rget_def)

lemma valid_finally:
  fixes m :: "('c, 's, 'e, 'a) prog"
  assumes "valid c P m Q R" and "\<And>x. valid c (Q x) (k (Inr x)) (\<lambda>_. Q x) E"
    and "\<And>e. valid c R (k (Inl e)) (\<lambda>_. E) E"
  shows "valid c P (io_finally m k) Q E"
proof (rule validI)
  fix w assume "P w"
  then have 1: "holds m c w (ends Q R)" using assms(1) by (simp add: valid_def)
  show "holds (io_finally m k) c w (ends Q E)"
    unfolding holds_finally
  proof (rule holds_mono [OF 1])
    fix r :: "'e + 'a" and w' assume r: "ends Q R r w'"
    show "holds (k r) c w' (\<lambda>r' s''. case r' of Inl e \<Rightarrow> ends Q E (Inl e) s'' | Inr _ \<Rightarrow> ends Q E r s'')"
    proof (cases r)
      case (Inl e)
      with r assms(3) [of e] have "holds (k (Inl e)) c w' (ends (\<lambda>_. E) E)" by (simp add: valid_def)
      then show ?thesis unfolding Inl by (rule holds_mono) (auto simp: ends_def split: sum.splits)
    next
      case (Inr x)
      with r assms(2) [of x] have "holds (k (Inr x)) c w' (ends (\<lambda>_. Q x) E)" by (simp add: valid_def)
      then show ?thesis unfolding Inr by (rule holds_mono) (auto simp: ends_def split: sum.splits)
    qed
  qed
qed

lemma valid_lift_act:
  assumes "\<And>r. P r \<Longrightarrow> holds m (rc_ctx rc) (rn_world r)
     (\<lambda>x w. case x of Inl e \<Rightarrow> E (r\<lparr>rn_world := w\<rparr>) | Inr y \<Rightarrow> Q y (r\<lparr>rn_world := w\<rparr>))"
  shows "valid rc P (lift_act m) Q E"
  unfolding valid_def holds_def lift_act_def using assms
  by (fastforce simp: holds_def ends_def split: prod.splits sum.splits)

lemma holds_lift_io:
  "holds (lift_io m) rc r Q = holds (m rc) (c_fault (rc_ctx rc)) (w_fs (rn_world r))
     (\<lambda>x s. Q (map_sum FileError id x) (r\<lparr>rn_world := (rn_world r)\<lparr>w_fs := s\<rparr>\<rparr>))"
  by (auto simp: holds_def lift_io_def lift_act_def lift_fs_def split: prod.splits sum.splits)

locale bystander =
  fixes rc :: rctx and I :: "runner \<Rightarrow> bool"
  assumes same: "\<And>r r'. I r \<Longrightarrow> same_core r r' \<Longrightarrow> I r'"
begin

lemma b_ret [runs]: "keeps rc I (io_ret x)" by (rule valid_ret)
lemma b_raise [runs]: "keeps rc I (io_raise e)" by (rule valid_raise)
lemma b_rget [runs]: "keeps rc I (rget f)" by (rule valid_rget)
lemma b_rask [runs]: "keeps rc I (rask f)" by (rule valid_rask)

lemma b_rput: "(\<And>r. same_core r (g r)) \<Longrightarrow> keeps rc I (rput g)"
  by (rule valid_rput) (rule same)

lemma b_bind [runs]: "keeps rc I m \<Longrightarrow> (\<And>x. keeps rc I (f x)) \<Longrightarrow> keeps rc I (io_bind m f)"
  by (rule valid_bind)

lemma b_if [runs]: "(b \<Longrightarrow> keeps rc I m) \<Longrightarrow> (\<not> b \<Longrightarrow> keeps rc I m') \<Longrightarrow> keeps rc I (if b then m else m')"
  by simp

lemma b_option [runs]:
  "keeps rc I m \<Longrightarrow> (\<And>x. keeps rc I (f x)) \<Longrightarrow> keeps rc I (case v of None \<Rightarrow> m | Some x \<Rightarrow> f x)"
  by (cases v) simp_all

lemma b_prod [runs]: "(\<And>a b. keeps rc I (f a b)) \<Longrightarrow> keeps rc I (case v of (a, b) \<Rightarrow> f a b)"
  by (cases v) simp

lemma b_catch [runs]: "keeps rc I m \<Longrightarrow> (\<And>e. keeps rc I (h e)) \<Longrightarrow> keeps rc I (io_catch m h)"
  by (rule valid_catch)

lemma b_finally [runs]: "keeps rc I m \<Longrightarrow> (\<And>x. keeps rc I (k x)) \<Longrightarrow> keeps rc I (io_finally m k)"
  by (rule valid_finally)

lemma b_catch_exception [runs]: "keeps rc I m \<Longrightarrow> (\<And>e. keeps rc I (h e)) \<Longrightarrow> keeps rc I (catch_exception m h)"
  unfolding catch_exception_def by (intro runs)

lemma b_when [runs]: "(b \<Longrightarrow> keeps rc I m) \<Longrightarrow> keeps rc I (rwhen b m)"
  unfolding rwhen_def by (intro runs)

lemma b_checked [runs]: "keeps rc I (checked_run v)"
  unfolding checked_run_def by (cases v) (simp_all add: b_raise b_ret)

lemma b_each [runs]: "(\<And>x. keeps rc I (f x)) \<Longrightarrow> keeps rc I (each f xs)"
  by (induction xs) (simp_all add: b_ret b_bind)

lemma b_db [runs]: "(\<And>r. same_core r (g r)) \<Longrightarrow> keeps rc I (db_write g)"
proof (rule validI)
  fix r assume g: "\<And>r. same_core r (g r)" and I: "I r"
  have "same_core r (g (r\<lparr>rn_writes := Suc (rn_writes r)\<rparr>))"
    using g [of "r\<lparr>rn_writes := Suc (rn_writes r)\<rparr>"] by (simp add: same_core_def)
  with I show "holds (db_write g) rc r (ends (\<lambda>_. I) I)"
    by (auto simp: holds_def db_write_def Let_def same_core_def intro: same)
qed

lemma b_with_run [runs]: "keeps rc I m \<Longrightarrow> keeps rc I (with_run m)"
  unfolding with_run_def by (intro runs)

text \<open>An action that only issues commands and reports.\<close>

lemma b_act: "(\<And>w0 :: world. keeps (rc_ctx rc) (\<lambda>w. w_fs w = w_fs w0 \<and> w_pre w = w_pre w0 \<and> w_exp w = w_exp w0) m) \<Longrightarrow>
   keeps rc I (lift_act m)"
proof (rule valid_lift_act)
  fix r assume m: "\<And>w0 :: world. keeps (rc_ctx rc) (\<lambda>w. w_fs w = w_fs w0 \<and> w_pre w = w_pre w0 \<and> w_exp w = w_exp w0) m"
    and I: "I r"
  show "holds m (rc_ctx rc) (rn_world r)
     (\<lambda>x w. case x of Inl e \<Rightarrow> I (r\<lparr>rn_world := w\<rparr>) | Inr y \<Rightarrow> I (r\<lparr>rn_world := w\<rparr>))"
    by (rule holds_mono [OF m [of "rn_world r", unfolded valid_def, rule_format]])
      (use I in \<open>auto simp: ends_def same_core_def split: sum.splits intro!: same [OF I]\<close>)
qed

lemma b_progress [runs]: "keeps rc I (report_progress a b)"
  unfolding report_progress_def by (rule b_act) (rule valid_progress; simp)

lemma b_inspect [runs]: "keeps rc I (lift_act (image_id i))" "keeps rc I (lift_act (image_digest i))"
  by (rule b_act; simp add: image_id_def image_digest_def try_cmd_def catch_cmd_def valid_def io_holds act_holds
      issue_def split: resp.splits lexc.splits)+

lemma b_read [runs]: "keeps rc I (lift_io (\<lambda>_. read_text p))"
  by (rule validI) (auto simp: holds_lift_io read_text_def io_holds same_core_def Let_def split: option.splits intro: same)

lemma b_hash [runs]: "keeps rc I (lift_io (\<lambda>c. compose_source_hash (f c) p))"
  by (rule validI)
    (auto simp: holds_lift_io compose_source_hash_def read_text_def io_holds same_core_def Let_def
      split: option.splits intro: same)

lemma only_locks_core:
  "only_locks (w_fs (rn_world r)) s \<Longrightarrow> same_core r (r\<lparr>rn_world := (rn_world r)\<lparr>w_fs := s\<rparr>\<rparr>)"
  by (simp add: same_core_def only_locks_def)

lemma b_acquire [runs]: "keeps rc I (lift_io (\<lambda>c. acquire (f c)))"
proof (rule validI)
  fix r assume I: "I r"
  let ?s = "w_fs (rn_world r)"
  have "holds (acquire (f rc)) (c_fault (rc_ctx rc)) ?s (\<lambda>x s. only_locks ?s s)"
    using acquire_outcome [where l = "f rc" and fault = "c_fault (rc_ctx rc)" and s = ?s]
    by (auto simp: holds_def no_lock_def acquired_def split: prod.splits sum.splits)
  then show "holds (lift_io (\<lambda>c. acquire (f c))) rc r (ends (\<lambda>_. I) I)"
    unfolding holds_lift_io
    by (rule holds_mono) (auto simp: ends_def split: sum.splits intro: same [OF I] only_locks_core)
qed

lemma b_release [runs]: "keeps rc I (lift_io (\<lambda>c. release (f c)))"
proof (rule validI)
  fix r assume I: "I r"
  let ?s = "w_fs (rn_world r)"
  have "holds (release (f rc)) (c_fault (rc_ctx rc)) ?s (\<lambda>x s. only_locks ?s s)"
    using release_outcome [where l = "f rc" and fault = "c_fault (rc_ctx rc)" and s = ?s]
    by (auto simp: holds_def)
  then show "holds (lift_io (\<lambda>c. release (f c))) rc r (ends (\<lambda>_. I) I)"
    unfolding holds_lift_io
    by (rule holds_mono) (auto simp: ends_def split: sum.splits intro: same [OF I] only_locks_core)
qed

lemma b_rows [runs]:
  "keeps rc I (update_pending_update n s re w p)" "keeps rc I (insert_pending_update t)"
  "keeps rc I (upsert_known_image k row)" "keeps rc I (insert_update_event e)"
  "keeps rc I (upsert_tag_exclusion_rule rule)"
  unfolding update_pending_update_def insert_pending_update_def upsert_known_image_def insert_update_event_def
    upsert_tag_exclusion_rule_def
  by (intro runs; simp add: same_core_def set_rows_def)+

lemma b_best_effort [runs]: "keeps rc I m \<Longrightarrow> keeps rc I (best_effort m)"
  unfolding best_effort_def by (intro runs)

lemma b_interrupted [runs]: "keeps rc I mark_interrupted_pending"
  unfolding mark_interrupted_pending_def by (intro runs) (simp add: same_core_def set_rows_def)

lemma b_marks [runs]:
  "keeps rc I (mark_unmatched_pending parsed ms sk)" "keeps rc I (mark_matched_pending ms s re)"
  "keeps rc I (mark_removed_pending parsed ns ms)" "keeps rc I (mark_failed_pending ms sts ns)"
  "keeps rc I (mark_successful_pending ms sts)" "keeps rc I (mark_tag_exclusions_pending us)"
  "keeps rc I (mark_tag_exclusion_failures fs)" "keeps rc I (mark_successful_tag_exclusions us xs)"
  "keeps rc I (record_tag_exclusion_rules us)"
  unfolding mark_unmatched_pending_def mark_matched_pending_def mark_removed_pending_def mark_failed_pending_def
    mark_successful_pending_def mark_tag_exclusions_pending_def mark_tag_exclusion_failures_def
    mark_successful_tag_exclusions_def record_tag_exclusion_rules_def
  by (intro runs)+

lemma b_history [runs]: "keeps rc I (record_update_events ms sts)" "keeps rc I (record_known_images ms sts)"
  unfolding record_update_events_def record_known_images_def by (intro runs)+

lemma b_audit_parsed [runs]: "keeps rc I (audit_parsed_file parsed ns)"
  unfolding audit_parsed_file_def Let_def by (intro runs)

lemma b_lines [runs]: "keeps rc I (remove_line_numbers parsed)"
  unfolding remove_line_numbers_def by (intro runs)

lemma b_cleanup_failure [runs]: "keeps rc I (report_cleanup_failure ms ns)"
  unfolding report_cleanup_failure_def by (intro runs)

lemma b_finished [runs]: "keeps rc I (record_finished_stacks fl)"
  unfolding record_finished_stacks_def Let_def by (intro runs)

end

text \<open>An invariant that does not look at the status of the run's own record.\<close>

locale unrecorded = bystander rc I for rc I +
  assumes any_run: "\<And>r x. I r \<Longrightarrow> I (r\<lparr>rn_run := x\<rparr>)"
begin

lemma b_db_run: "(\<And>r. g r = r\<lparr>rn_run := f r\<rparr>) \<Longrightarrow> keeps rc I (db_write g)"
proof (rule validI)
  fix r assume g: "\<And>r. g r = r\<lparr>rn_run := f r\<rparr>" and I: "I r"
  have "I (r\<lparr>rn_writes := Suc (rn_writes r)\<rparr>)" by (rule same [OF I]) (simp add: same_core_def)
  then show "holds (db_write g) rc r (ends (\<lambda>_. I) I)"
    by (auto simp: holds_def db_write_def Let_def g intro: any_run)
qed

lemma b_finish_audit [runs]: "keeps rc I (finish_audit_run s)"
  unfolding finish_audit_run_def by (intro runs b_db_run) simp

lemma b_start_audit [runs]: "keeps rc I (start_audit parsed)"
  unfolding start_audit_def by (intro runs b_db_run valid_rput) (simp_all add: any_run)

lemma b_finish_run [runs]: "keeps rc I (finish_run ms us fs)"
  unfolding finish_run_def by (intro runs)

end

end
