(* ===== verification/Runner_Safety.thy ===== *)
theory Runner_Safety
  imports Runner_Steps Lifecycle_Example
begin

text \<open>
  No pending entry is lost: whatever fails in a run, every line of the WUD file is afterwards in the file
  again, or its update went through, or it was found stale, or the run names it in an error.
\<close>

section \<open>The files of a run\<close>

definition lines_at :: "rctx \<Rightarrow> runner \<Rightarrow> string list option" where
  "lines_at rc r = map_option split_shell_lines (text_at (w_fs (rn_world r)) (rc_file rc))"

definition files_ok :: "string set \<Rightarrow> fs \<Rightarrow> bool" where
  "files_ok C s = (fs_ok s \<and> (\<forall>k \<in> C. fs_files s (Named k) \<noteq> None))"

text \<open>The file holds these lines, these entries are in flight, and nothing was given up.\<close>

definition held :: "rctx \<Rightarrow> string set \<Rightarrow> string list \<Rightarrow> in_flight_pending option \<Rightarrow> runner \<Rightarrow> bool" where
  "held rc C L fl r =
     (files_ok C (w_fs (rn_world r)) \<and> lines_at rc r = Some L \<and> rn_in_flight r = fl \<and> rn_unkept r = [])"

lemma core_lines: "same_core r r' \<Longrightarrow> lines_at rc r' = lines_at rc r"
  by (simp add: same_core_def lines_at_def text_at_def)

lemma core_files: "same_core r r' \<Longrightarrow> files_ok C (w_fs (rn_world r')) = files_ok C (w_fs (rn_world r))"
  by (simp add: same_core_def files_ok_def fs_ok_def)

lemma run_lines [simp]: "lines_at rc (r\<lparr>rn_run := x\<rparr>) = lines_at rc r"
  by (simp add: lines_at_def)

interpretation held: unrecorded rc "held rc C L fl" for rc C L fl
proof unfold_locales
  show "held rc C L fl r \<Longrightarrow> same_core r r' \<Longrightarrow> held rc C L fl r'" for r r'
    by (auto simp: held_def core_lines core_files) (simp_all add: same_core_def)
qed (simp add: held_def)

lemma held_put:
  "(\<And>r. rn_world (g r) = rn_world r \<and> rn_in_flight (g r) = rn_in_flight r \<and> rn_unkept (g r) = rn_unkept r) \<Longrightarrow>
   keeps rc (held rc C L fl) (rput g)"
  by (rule valid_rput) (simp add: held_def lines_at_def)

text \<open>An action that changes Compose files only; it may add files.\<close>

definition leaves :: "string set \<Rightarrow> fs \<Rightarrow> world \<Rightarrow> bool" where
  "leaves C s w =
     (files_ok C (w_fs w) \<and> (\<forall>k. k \<notin> C \<longrightarrow> fs_files s (Named k) \<noteq> None \<longrightarrow>
        fs_files (w_fs w) (Named k) = fs_files s (Named k)))"

lemma held_act:
  assumes m: "\<And>s. keeps (rc_ctx rc) (leaves C s) m" and n: "rc_file rc \<notin> C"
  shows "keeps rc (held rc C L fl) (lift_act m)"
proof (rule valid_lift_act)
  fix r assume h: "held rc C L fl r"
  let ?s = "w_fs (rn_world r)"
  have "leaves C ?s (rn_world r)" using h by (simp add: leaves_def held_def)
  with m [of ?s] have "holds m (rc_ctx rc) (rn_world r) (ends (\<lambda>_. leaves C ?s) (leaves C ?s))"
    by (simp add: valid_def)
  then show "holds m (rc_ctx rc) (rn_world r)
     (\<lambda>x w. case x of Inl e \<Rightarrow> held rc C L fl (r\<lparr>rn_world := w\<rparr>) | Inr y \<Rightarrow> held rc C L fl (r\<lparr>rn_world := w\<rparr>))"
    by (rule holds_mono)
      (use h n in \<open>auto simp: ends_def leaves_def held_def lines_at_def text_at_def split: sum.splits\<close>)
qed

interpretation leaving: commander c "leaves C s" "\<lambda>_. True" for c C s
  by unfold_locales (auto simp: leaves_def files_ok_def fs_ok_def issue_def same_effects_def)


lemma leaves_update:
  assumes "compose_name st \<in> C"
  shows "keeps c (leaves C s) (update_stack st ms)"
proof (rule validI)
  fix w assume w: "leaves C s w"
  then have ok: "fs_ok (w_fs w)" "fs_files (w_fs w) (Named (compose_name st)) \<noteq> None"
    using assms by (auto simp: leaves_def files_ok_def)
  show "holds (update_stack st ms) c w (ends (\<lambda>_. leaves C s) (leaves C s))"
  proof (rule holds_intro)
    fix r w' assume run: "update_stack st ms c w = (r, w')"
    have "leaves C s w'"
      using update_stack_leaves [OF ok run] w assms unfolding leaves_def files_ok_def by metis
    then show "ends (\<lambda>_. leaves C s) (leaves C s) r w'" by (cases r) simp_all
  qed
qed

lemma leaves_preflight: "keeps c (leaves C s) (preflight_stacks ms sts stale)"
proof (induction ms sts stale rule: preflight_stacks.induct)
  case (2 ms st sts stale)
  show ?case unfolding preflight_stacks.simps
    by (intro keeps) (rule 2)+
qed (simp add: leaving.k_ret)

lemma leaves_keys: "keeps c (leaves C s) compose_runtime_keys"
  unfolding compose_runtime_keys_def by (intro keeps) simp

lemma leaves_refusal: "keeps c (leaves C s) (compose_file_refusal_reason st ks)"
  unfolding compose_file_refusal_reason_def by (intro keeps) (simp add: same_effects_def)

lemma leaves_runtime: "keeps c (leaves C s) (tag_exclusion_runtime_state st ss)"
  unfolding tag_exclusion_runtime_state_def by (intro keeps) simp

lemma leaves_recreate: "keeps c (leaves C s) (recreate_preserving_runtime_state st ss ps nd)"
  unfolding recreate_preserving_runtime_state_def
  by (intro keeps leaves_runtime leaving.k_up leaving.k_up_no_start leaving.k_verify_stopped TrueI)

lemma leaves_recreate_stack: "keeps c (leaves C s) (recreate_stack_services st us)"
  unfolding recreate_stack_services_def Let_def by (intro keeps leaves_recreate)

section \<open>The changes\<close>

lemma held_io:
  assumes "\<And>s. files_ok C s \<Longrightarrow> holds (m rc) (c_fault (rc_ctx rc)) s
      (\<lambda>x s'. files_ok C s' \<and> (\<forall>k. k \<notin> C \<longrightarrow> fs_files s' (Named k) = fs_files s (Named k)))"
    and n: "rc_file rc \<notin> C"
  shows "keeps rc (held rc C L fl) (lift_io m)"
proof (rule validI)
  fix r assume h: "held rc C L fl r"
  show "holds (lift_io m) rc r (ends (\<lambda>_. held rc C L fl) (held rc C L fl))"
    unfolding holds_lift_io
    by (rule holds_mono [OF assms(1)])
      (use h n in \<open>auto simp: held_def lines_at_def text_at_def ends_def split: sum.splits\<close>)
qed

lemma replace_leaves:
  assumes "files_ok C s" and "k \<in> C"
  shows "holds (atomic_replace_compose sha unsup (Named k) t pfx ex tracked) fault s
     (\<lambda>x s'. files_ok C s' \<and> (\<forall>k. k \<notin> C \<longrightarrow> fs_files s' (Named k) = fs_files s (Named k)))"
proof (rule holds_mono [OF atomic_replace_holds])
  show "fs_ok s" using assms(1) by (simp add: files_ok_def)
  fix r s' assume "atomic_replace_outcome sha tracked k t ex s r s'"
  then show "files_ok C s' \<and> (\<forall>k. k \<notin> C \<longrightarrow> fs_files s' (Named k) = fs_files s (Named k))"
    using assms by (auto simp: atomic_replace_outcome_def files_ok_def only_temps_def swapped_def)
qed

lemma held_write:
  assumes "compose_name st \<in> C" and n: "rc_file rc \<notin> C"
  shows "keeps rc (held rc C L fl) (write_stack_tag_exclusions st us xs)"
proof -
  have render: "keeps rc (held rc C L fl) (render_stack_exclusions st us)"
    unfolding render_stack_exclusions_def
    by (intro runs) (auto split: sum.splits intro: held.b_raise held.b_ret)
  show ?thesis
    unfolding write_stack_tag_exclusions_def apply_compose_tag_exclusions_def stack_file_def
    by (intro runs render held_io [OF _ n] replace_leaves [OF _ assms(1)])
qed

lemma held_writes:
  assumes n: "rc_file rc \<notin> C"
  shows "\<forall>(st, us) \<in> set groups. compose_name st \<in> C \<Longrightarrow>
    keeps rc (held rc C L fl) (write_tag_exclusions ks groups xs ok)"
proof (induction ks groups xs ok rule: write_tag_exclusions.induct)
  case (2 ks st us rest xs ok)
  then show ?case unfolding write_tag_exclusions.simps
    by (intro runs held_write n held_act leaves_refusal) auto
qed (simp add: held.b_ret)

lemma held_recreates:
  assumes n: "rc_file rc \<notin> C"
  shows "keeps rc (held rc C L fl) (recreate_tag_exclusion_services groups xs)"
proof (induction groups xs rule: recreate_tag_exclusion_services.induct)
  case (2 st us rest xs)
  then show ?case unfolding recreate_tag_exclusion_services.simps
    by (intro runs held_act leaves_recreate_stack n)
qed (simp add: held.b_ret)

lemma groups_stacks:
  "(st, us') \<in> set (tag_exclusion_updates_by_stack us) \<Longrightarrow> st \<in> te_stack ` set us"
proof -
  have "fst ` set (foldl (\<lambda>d u. AList.update (te_stack u) (dict_get d (te_stack u) [] @ [u]) d) d us)
      \<subseteq> fst ` set d \<union> te_stack ` set us" for d
  proof (induction us arbitrary: d)
    case (Cons u us)
    show ?case unfolding foldl_Cons by (rule order_trans [OF Cons.IH]) (auto simp: dom_update)
  qed simp
  from this [of "[]"] show "(st, us') \<in> set (tag_exclusion_updates_by_stack us) \<Longrightarrow> st \<in> te_stack ` set us"
    unfolding tag_exclusion_updates_by_stack_def by force
qed

lemma held_exclusions:
  assumes n: "rc_file rc \<notin> C" and us: "compose_name ` te_stack ` set us \<subseteq> C"
  shows "keeps rc (held rc C L fl) (apply_tag_exclusions us)"
proof -
  have "\<forall>(st, us') \<in> set (tag_exclusion_updates_by_stack us). compose_name st \<in> C"
    using us groups_stacks [of _ _ us] by blast
  then show ?thesis
    unfolding apply_tag_exclusions_def Let_def
    by (intro runs held_writes held_recreates n held_act leaves_keys)
qed

lemma stacks_of_matches: "set (stacks_to_update ms) \<subseteq> m_stack ` set ms"
proof -
  have "map_of (foldl (\<lambda>d m. AList.update (cs_index (m_stack m)) (m_stack m) d) d ms) i = Some st \<Longrightarrow>
      map_of d i = Some st \<or> st \<in> m_stack ` set ms" for d i st
    by (induction ms arbitrary: d) (fastforce simp: update_conv' split: if_splits)+
  from this [of "[]"] show ?thesis
    unfolding stacks_to_update_def Let_def by (force dest: weak_map_of_SomeI)
qed

lemma held_updates:
  assumes n: "rc_file rc \<notin> C"
  shows "compose_name ` set sts \<subseteq> C \<Longrightarrow> keeps rc (held rc C L fl) (update_stacks ms sts)"
proof (induction ms sts rule: update_stacks.induct)
  case (2 ms st sts)
  then show ?case unfolding update_stacks.simps
    by (intro runs held_act n leaves_update held_put) simp_all
qed (simp add: held.b_ret)

lemma held_changes:
  assumes n: "rc_file rc \<notin> C" and us: "compose_name ` te_stack ` set us \<subseteq> C"
    and ms: "compose_name ` m_stack ` set ms \<subseteq> C"
  shows "keeps rc (held rc C L fl) (apply_changes ms us)"
proof -
  have "compose_name ` set (stacks_to_update (filter P ms)) \<subseteq> C" for P
    using stacks_of_matches [of "filter P ms"] ms by auto
  moreover have "compose_name ` te_stack ` set (filter P us) \<subseteq> C" for P
    using us by auto
  ultimately show ?thesis
    unfolding apply_changes_def preflight_matching_stack_digests_def Let_def
    by (intro runs held_exclusions held_updates n held_act leaves_preflight held_put) simp_all
qed


section \<open>Taking lines out and putting them back\<close>

definition entries :: "string \<Rightarrow> wud_line list" where
  "entries t = pw_lines (parse_wud_text t None)"

definition kept_lines :: "wud_line list \<Rightarrow> nat set \<Rightarrow> string list" where
  "kept_lines ls F = map wl_raw (filter (\<lambda>l. wl_no l \<notin> F) ls)"

lemma entries_raw: "map wl_raw (entries t) = split_shell_lines t"
  by (simp add: entries_def parse_wud_text_def parse_lines_lines)

lemma entries_plain: "l \<in> set (entries t) \<Longrightarrow> CHR 0x0A \<notin> set (wl_raw l)"
  unfolding entries_def by (rule parsed_lines_plain)

lemma remove_same:
  assumes "map wl_raw ls = current"
  shows "remove_transform ls F current = kept_lines ls F"
proof -
  obtain added where "remove_transform ls F current = kept_lines ls F @ added" "mset added = {#}"
    using remove_transform_parts [of ls F current] assms by (auto simp: kept_lines_def)
  then show ?thesis by simp
qed

lemma rewrite_with_lock:
  "fs_ok s \<Longrightarrow> holds (rewrite_wud_file u g n transform (Some l) tmo ow) fault s (wud_rewritten transform n s)"
  using rewrite_locked [OF _ refl, of s l n u g transform ow fault]
  by (simp add: rewrite_wud_file_def holds_bind holds_ret is_held_def holds_def [of "is_held l"] Let_def)

definition same_outcomes :: "runner \<Rightarrow> runner \<Rightarrow> bool" where
  "same_outcomes r r' =
     (w_pre (rn_world r') = w_pre (rn_world r) \<and> w_exp (rn_world r') = w_exp (rn_world r) \<and>
      rn_statuses r' = rn_statuses r \<and> rn_exclusion_statuses r' = rn_exclusion_statuses r)"

text \<open>A rewrite of the WUD file, from a state that holds \<open>L\<close>.\<close>

lemma rewrite_held:
  fixes m :: "rctx \<Rightarrow> bool io"
  assumes h: "held rc C L fl r" and n: "rc_file rc \<notin> C"
    and w: "\<And>s. fs_ok s \<Longrightarrow> holds (m rc) (c_fault (rc_ctx rc)) s (wud_rewritten transform (rc_file rc) s)"
    and plain: "\<forall>x \<in> set (transform L). CHR 0x0A \<notin> set x"
  shows "holds (io_bind (lift_io m) (\<lambda>_. io_ret ())) rc r (\<lambda>res r'.
    same_outcomes r r' \<and>
    (case res of Inl e \<Rightarrow> e \<noteq> Abort \<and> held rc C L fl r' | Inr _ \<Rightarrow> held rc C (transform L) fl r'))"
proof -
  let ?s = "w_fs (rn_world r)"
  from h obtain t where t: "text_at ?s (rc_file rc) = Some t" "L = split_shell_lines t"
    by (auto simp: held_def lines_at_def)
  have ok: "fs_ok ?s" using h by (simp add: held_def files_ok_def)
  have join: "split_shell_lines (join_shell_lines (transform L)) = transform L"
    by (rule split_join_shell_lines [OF plain])
  show ?thesis unfolding holds_bind holds_lift_io holds_ret
  proof (rule holds_mono [OF w [OF ok]])
    fix x s assume rw: "wud_rewritten transform (rc_file rc) ?s x s"
    let ?r = "r\<lparr>rn_world := (rn_world r)\<lparr>w_fs := s\<rparr>\<rparr>"
    have others: "k \<noteq> rc_file rc \<Longrightarrow> fs_files s (Named k) = fs_files ?s (Named k)" for k
      using rw by (cases x) (auto simp: wud_rewritten_def)
    then have files: "files_ok C s"
      using h n rw unfolding held_def files_ok_def wud_rewritten_def by metis
    have "held rc C L fl ?r" if "x = Inl e" for e
      using h files rw t unfolding that by (simp add: held_def lines_at_def wud_rewritten_def text_at_def)
    moreover have "held rc C (transform L) fl ?r" if "x = Inr y" for y
      using h files rw t join unfolding that by (simp add: held_def lines_at_def wud_rewritten_def)
    ultimately show "case map_sum FileError id x of
        Inl e \<Rightarrow> same_outcomes r ?r \<and> (case Inl e of Inl e \<Rightarrow> e \<noteq> Abort \<and> held rc C L fl ?r
          | Inr (y :: unit) \<Rightarrow> held rc C (transform L) fl ?r)
      | Inr y \<Rightarrow> same_outcomes r ?r \<and> (case Inr () of Inl e \<Rightarrow> e \<noteq> Abort \<and> held rc C L fl ?r
          | Inr (y :: unit) \<Rightarrow> held rc C (transform L) fl ?r)"
      by (cases x) (simp_all add: same_outcomes_def)
  qed
qed

lemma held_plain: "held rc C L fl r \<Longrightarrow> x \<in> set L \<Longrightarrow> CHR 0x0A \<notin> set x"
  by (auto simp: held_def lines_at_def dest: split_shell_lines_plain)

lemma remove_in_flight_holds:
  assumes n: "rc_file rc \<notin> C" and audit: "pw_lines audit = entries t"
  shows "valid rc (held rc C (split_shell_lines t) fl) (remove_in_flight audit ns)
    (\<lambda>_. held rc C (kept_lines (entries t) (set ns)) fl) (held rc C (split_shell_lines t) fl)"
proof (rule validI)
  fix r assume h: "held rc C (split_shell_lines t) fl r"
  let ?f = "remove_transform (entries t) (set ns)"
  have same: "?f (split_shell_lines t) = kept_lines (entries t) (set ns)"
    by (rule remove_same [OF entries_raw])
  show "holds (remove_in_flight audit ns) rc r
     (ends (\<lambda>_. held rc C (kept_lines (entries t) (set ns)) fl) (held rc C (split_shell_lines t) fl))"
  proof (cases "ns = []")
    case True
    then show ?thesis using h
      by (simp add: remove_in_flight_def remove_lines_before_run_def io_holds holds_lift_io kept_lines_def entries_raw)
  next
    case False
    have w: "fs_ok s \<Longrightarrow> holds (remove_lines_before_run (rc_uid rc) (rc_gid rc) (rc_file rc) audit (set ns)
        (Some (rc_lock rc)) (SecondsText ''30'') (rc_owner rc)) (c_fault (rc_ctx rc)) s
        (wud_rewritten ?f (rc_file rc) s)" for s
      using False unfolding remove_lines_before_run_def audit
      by (simp, intro holds_then_ret [OF rewrite_with_lock]) (simp_all add: wud_rewritten_def)
    have plain: "\<forall>x \<in> set (?f (split_shell_lines t)). CHR 0x0A \<notin> set x"
      unfolding same by (auto simp: kept_lines_def dest: entries_plain)
    show ?thesis
      unfolding remove_in_flight_def
      by (rule holds_mono [OF rewrite_held [where transform = ?f and
        m = "\<lambda>c. remove_lines_before_run (rc_uid c) (rc_gid c) (rc_file c) audit (set ns) (Some (rc_lock c)) (SecondsText ''30'') (rc_owner c)",
        OF h n w plain]]) (auto simp: same ends_def split: sum.splits)
  qed
qed

lemma restore_lines_holds:
  assumes h: "held rc C L fl r" and n: "rc_file rc \<notin> C" and audit: "pw_lines audit = entries t"
  shows "holds (restore_lines audit ns) rc r (\<lambda>res r'.
    same_outcomes r r' \<and>
    (case res of Inl e \<Rightarrow> e \<noteq> Abort \<and> held rc C L fl r'
     | Inr _ \<Rightarrow> \<exists>L'. held rc C L' fl r' \<and> set L' = set L \<union> set (needed_lines (entries t) (set ns))))"
proof (cases "needed_lines (entries t) (set ns) = []")
  case True
  then show ?thesis using h audit
    by (cases "ns = []") (auto simp: same_outcomes_def restore_lines_def restore_failed_lines_def io_holds holds_lift_io)
next
  case False
  then have ne: "ns \<noteq> []" by (auto simp: needed_lines_def)
  let ?f = "restore_transform (entries t) (set ns)"
  have w: "fs_ok s \<Longrightarrow> holds (restore_failed_lines (rc_uid rc) (rc_gid rc) (rc_file rc) audit (set ns)
      (Some (rc_lock rc)) (SecondsText ''30'') (rc_owner rc)) (c_fault (rc_ctx rc)) s
      (wud_rewritten ?f (rc_file rc) s)" for s
    using False ne unfolding restore_failed_lines_def audit
    by (simp, intro holds_then_ret [OF rewrite_with_lock]) (simp_all add: wud_rewritten_def)
  have plain: "\<forall>x \<in> set (?f L). CHR 0x0A \<notin> set x"
    by (rule restore_transform_plain) (auto dest: entries_plain held_plain [OF h])
  have "set (?f L) = set L \<union> set (needed_lines (entries t) (set ns))"
    using arg_cong [OF mset_restore_transform [of "entries t" "set ns" L], of set_mset] by simp
  then show ?thesis
    unfolding restore_lines_def
    by (intro holds_mono [OF rewrite_held [where transform = ?f and
        m = "\<lambda>c. restore_failed_lines (rc_uid c) (rc_gid c) (rc_file c) audit (set ns) (Some (rc_lock c)) (SecondsText ''30'') (rc_owner c)",
        OF h n w plain]]) (auto split: sum.splits)
qed


section \<open>Where every entry is\<close>

text \<open>
  The lines a run is asked about: those its matches and its tag exclusions come from, and those the operator
  lists with \<open>--remove-lines-before-run\<close>. Of them an entry is finished when every update and exclusion
  asked for on its line succeeded, in all the stacks it concerns. A line that is not asked about is never
  taken out of the file.
\<close>

definition asked_lines :: "rctx \<Rightarrow> match_t list \<Rightarrow> tag_exclusion_update list \<Rightarrow> nat \<Rightarrow> nat set" where
  "asked_lines rc matches us len =
     match_line ` set matches \<union> te_source_line ` set us \<union>
     (case parse_line_spec (lo_remove_lines (rc_lines rc)) (int len) ''--remove-lines-before-run'' of
        Inl e \<Rightarrow> {} | Inr ns \<Rightarrow> nat ` set ns)"

definition finished_line :: "rctx \<Rightarrow> match_t list \<Rightarrow> tag_exclusion_update list \<Rightarrow> runner \<Rightarrow> nat \<Rightarrow> bool" where
  "finished_line rc matches us r n =
     (n \<notin> set (rc_partial rc) \<and>
      (\<forall>m \<in> set matches. match_line m = n \<longrightarrow>
         st_status (status_of (map_of (rn_statuses r)) (match_index m)) = ''success'') \<and>
      (\<forall>u \<in> set us. te_source_line u = n \<longrightarrow>
         st_status (exclusion_status (rn_exclusion_statuses r) u) = ''success''))"

definition accounted ::
  "rctx \<Rightarrow> match_t list \<Rightarrow> tag_exclusion_update list \<Rightarrow> nat \<Rightarrow> string list \<Rightarrow> runner \<Rightarrow> wud_line \<Rightarrow> bool" where
  "accounted rc matches us len L r l =
     (wl_raw l \<in> set L \<or>
      (wl_no l \<in> asked_lines rc matches us len \<and>
       (wl_raw l \<in> set (rn_unkept r) \<or> finished_line rc matches us r (wl_no l) \<or>
        (stale_line (rn_world r) matches (wl_no l) \<and> wl_no l \<notin> set (rc_partial rc)))))"

definition all_accounted ::
  "rctx \<Rightarrow> match_t list \<Rightarrow> tag_exclusion_update list \<Rightarrow> wud_line list \<Rightarrow> runner \<Rightarrow> bool" where
  "all_accounted rc matches us ls r =
     (\<exists>L. lines_at rc r = Some L \<and> (\<forall>l \<in> set ls. accounted rc matches us (length ls) L r l))"

text \<open>The state while entries are in flight: those not in \<open>F\<close> are in the file.\<close>

definition recoverable ::
  "rctx \<Rightarrow> string set \<Rightarrow> wud_line list \<Rightarrow> nat set \<Rightarrow> in_flight_pending option \<Rightarrow> runner \<Rightarrow> bool" where
  "recoverable rc C ls F fl r =
     (\<exists>L. held rc C L fl r \<and> (\<forall>l \<in> set ls. wl_no l \<notin> F \<longrightarrow> wl_raw l \<in> set L))"

lemma core_stale: "same_core r r' \<Longrightarrow> stale_line (rn_world r') ms n = stale_line (rn_world r) ms n"
  by (simp add: stale_line_def same_core_def)

lemma core_finished: "same_core r r' \<Longrightarrow> finished_line rc ms us r' n = finished_line rc ms us r n"
  by (simp add: finished_line_def same_core_def)

lemma core_accounted: "same_core r r' \<Longrightarrow> all_accounted rc ms us ls r' = all_accounted rc ms us ls r"
  by (simp add: all_accounted_def accounted_def core_lines core_finished core_stale)
    (simp add: same_core_def)

lemma core_recoverable: "same_core r r' \<Longrightarrow> recoverable rc C ls F fl r \<Longrightarrow> recoverable rc C ls F fl r'"
  unfolding recoverable_def by (blast intro: held.same)

lemma run_accounted [simp]: "all_accounted rc ms us ls (r\<lparr>rn_run := x\<rparr>) = all_accounted rc ms us ls r"
  by (simp add: all_accounted_def accounted_def finished_line_def)

lemma run_recoverable [simp]: "recoverable rc C ls F fl (r\<lparr>rn_run := x\<rparr>) = recoverable rc C ls F fl r"
  by (simp add: recoverable_def held_def)

interpretation accounted: unrecorded rc "all_accounted rc ms us ls" for rc ms us ls
  by unfold_locales (simp_all add: core_accounted)

interpretation settled: unrecorded rc "\<lambda>r. recoverable rc C ls F fl r \<and> all_accounted rc ms us ls r"
  for rc C ls F fl ms us
  by unfold_locales (auto simp: core_accounted intro: core_recoverable)

lemma not_unfinished:
  "n \<notin> set (unfinished_pending_lines ms (rn_statuses r) us (rn_exclusion_statuses r)) \<Longrightarrow> n \<notin> set (rc_partial rc) \<Longrightarrow>
   finished_line rc ms us r n"
  by (auto simp: unfinished_pending_lines_def failed_line_numbers_def exclusion_failed_lines_def finished_line_def)

lemma needed_entry: "l \<in> set ls \<Longrightarrow> wl_no l \<in> F \<Longrightarrow> wl_raw l \<in> set (needed_lines ls F)"
  by (simp add: needed_lines_def)

section \<open>Reconciliation\<close>

text \<open>What putting lines back gives: the old lines and every line asked for.\<close>

lemma restored_accounted:
  assumes rec: "held rc C L fl r" "\<forall>l \<in> set ls. wl_no l \<notin> F \<longrightarrow> wl_raw l \<in> set L"
    and asked: "F \<subseteq> asked_lines rc ms us (length ls)"
    and h': "held rc C L' fl r'" and same: "same_outcomes r r'"
    and L': "set L \<subseteq> set L'" "set (needed_lines ls (set again)) \<subseteq> set L'"
    and rest: "\<And>n. n \<in> F \<Longrightarrow> n \<notin> set again \<Longrightarrow> finished_line rc ms us r n \<or>
      (stale_line (rn_world r) ms n \<and> n \<notin> set (rc_partial rc))"
  shows "recoverable rc C ls F fl r'" "all_accounted rc ms us ls r'"
proof -
  show "recoverable rc C ls F fl r'"
    unfolding recoverable_def using h' rec(2) L'(1) by blast
  have kept_rest: "finished_line rc ms us r' n = finished_line rc ms us r n"
    "stale_line (rn_world r') ms n = stale_line (rn_world r) ms n" for n
    using same by (simp_all add: same_outcomes_def finished_line_def stale_line_def)
  have "accounted rc ms us (length ls) L' r' l" if l: "l \<in> set ls" for l
  proof (cases "wl_no l \<in> F \<and> wl_no l \<notin> set again")
    case True
    then show ?thesis using rest [of "wl_no l"] asked by (auto simp: accounted_def kept_rest)
  next
    case False
    then have "wl_raw l \<in> set L'" using l rec(2) L' needed_entry [OF l, of "set again"] by blast
    then show ?thesis by (simp add: accounted_def)
  qed
  moreover have "lines_at rc r' = Some L'" using h' by (simp add: held_def)
  ultimately show "all_accounted rc ms us ls r'" by (auto simp: all_accounted_def)
qed

lemma reconcile_restores:
  assumes n: "rc_file rc \<notin> C" and audit: "pw_lines audit = entries t"
    and asked: "F \<subseteq> asked_lines rc ms us (length (entries t))"
    and again: "again = sorted_set (filter (\<lambda>n. \<not> stale_line w ms n \<or> n \<in> set (rc_partial rc))
      (unfinished_pending_lines ms sts us xs) @ rc_partial rc)"
  shows "valid rc (\<lambda>r. recoverable rc C (entries t) F fl r \<and> (sts, xs, w) = (rn_statuses r, rn_exclusion_statuses r, rn_world r))
     (rwhen (again \<noteq> []) (restore_lines audit again))
     (\<lambda>_ r. recoverable rc C (entries t) F fl r \<and> all_accounted rc ms us (entries t) r)
     (recoverable rc C (entries t) F fl)"
proof (rule validI)
  fix r assume r: "recoverable rc C (entries t) F fl r \<and> (sts, xs, w) = (rn_statuses r, rn_exclusion_statuses r, rn_world r)"
  then obtain L where L: "held rc C L fl r" "\<forall>l \<in> set (entries t). wl_no l \<notin> F \<longrightarrow> wl_raw l \<in> set L"
    by (auto simp: recoverable_def)
  have rest: "finished_line rc ms us r n \<or> (stale_line (rn_world r) ms n \<and> n \<notin> set (rc_partial rc))"
    if "n \<notin> set again" for n
    using that r not_unfinished [of n ms r us rc] by (auto simp: again)
  show "holds (rwhen (again \<noteq> []) (restore_lines audit again)) rc r
    (ends (\<lambda>_ r. recoverable rc C (entries t) F fl r \<and> all_accounted rc ms us (entries t) r)
       (recoverable rc C (entries t) F fl))"
  proof (cases "again = []")
    case True
    have "recoverable rc C (entries t) F fl r \<and> all_accounted rc ms us (entries t) r"
      using restored_accounted [OF L asked L(1), where again = "[]"] rest True
      by (simp add: same_outcomes_def needed_lines_def)
    then show ?thesis using True by (simp add: rwhen_def holds_ret)
  next
    case False
    have "ends (\<lambda>_ r. recoverable rc C (entries t) F fl r \<and> all_accounted rc ms us (entries t) r)
       (recoverable rc C (entries t) F fl) res r'"
      if "same_outcomes r r' \<and> (case res of Inl e \<Rightarrow> e \<noteq> Abort \<and> held rc C L fl r'
        | Inr _ \<Rightarrow> \<exists>L'. held rc C L' fl r' \<and> set L' = set L \<union> set (needed_lines (entries t) (set again)))"
      for res :: "lexc + unit" and r'
    proof (cases res)
      case (Inl e)
      then show ?thesis using that L(2) by (auto simp: recoverable_def)
    next
      case (Inr x)
      with that obtain L' where L': "held rc C L' fl r'" "same_outcomes r r'"
        "set L' = set L \<union> set (needed_lines (entries t) (set again))" by auto
      show ?thesis unfolding Inr ends_simps
        using restored_accounted [OF L asked L'(1,2), where again = again] L'(3) rest by simp
    qed
    then show ?thesis
      using False by (simp add: rwhen_def) (rule holds_mono [OF restore_lines_holds [OF L(1) n audit]])
  qed
qed

interpretation recov: unrecorded rc "recoverable rc C ls F fl" for rc C ls F fl
  by unfold_locales (auto intro: core_recoverable)

lemma settled_weaken:
  assumes "\<And>C ls F fl ms us. keeps rc (\<lambda>r. recoverable rc C ls F fl r \<and> all_accounted rc ms us ls r) m"
  shows "valid rc (\<lambda>r. recoverable rc C ls F fl r \<and> all_accounted rc ms us ls r) m
    (\<lambda>_. all_accounted rc ms us ls) (recoverable rc C ls F fl)"
  by (rule valid_weaken [OF assms]) auto

lemma reconcile_accounts:
  assumes n: "rc_file rc \<notin> C" and audit: "pw_lines audit = entries t"
    and asked: "F \<subseteq> asked_lines rc ms us (length (entries t))"
  shows "valid rc (recoverable rc C (entries t) F fl) (reconcile_pending_entries audit ms us)
     (\<lambda>_. all_accounted rc ms us (entries t)) (recoverable rc C (entries t) F fl)"
proof -
  let ?rec = "recoverable rc C (entries t) F fl"
  have rest: "valid rc (\<lambda>r. ?rec r \<and> (sts, xs, w) = (rn_statuses r, rn_exclusion_statuses r, rn_world r))
    (io_bind (rask rc_partial) (\<lambda>partial.
       let failed = unfinished_pending_lines ms sts us xs;
           restorable = filter (\<lambda>n. \<not> stale_line w ms n \<or> n \<in> set partial) failed;
           again = sorted_set (restorable @ partial)
       in io_bind (rwhen (again \<noteq> []) (restore_lines audit again)) (\<lambda>_.
            if failed \<noteq> []
            then io_bind (mark_failed_pending ms sts failed) (\<lambda>_. report_cleanup_failure ms failed)
            else report_progress ''cleanup'' ''success'')))
    (\<lambda>_. all_accounted rc ms us (entries t)) ?rec" for sts xs w
    unfolding Let_def
    by (rule valid_rask_bind,
      rule valid_bind [OF reconcile_restores [OF n audit asked refl, where sts = sts and xs = xs]],
      rule settled_weaken, intro runs)
  show ?thesis
    unfolding reconcile_pending_entries_def
    by (rule valid_bind [OF recov.b_progress], rule valid_rget_bind) (use rest in \<open>auto split: prod.splits\<close>)
qed

section \<open>A run that stops\<close>

lemma restore_unfinished_accounts:
  assumes n: "rc_file rc \<notin> C"
    and fl: "pw_lines (if_parsed fl) = entries t" "if_matches fl = ms" "if_exclusions fl = us"
    and asked: "F \<subseteq> asked_lines rc ms us (length (entries t))"
  shows "valid rc (recoverable rc C (entries t) F None) (restore_unfinished_pending fl)
     (\<lambda>_. all_accounted rc ms us (entries t)) (all_accounted rc ms us (entries t))"
proof (rule validI)
  fix r assume "recoverable rc C (entries t) F None r"
  then obtain L where L: "held rc C L None r" "\<forall>l \<in> set (entries t). wl_no l \<notin> F \<longrightarrow> wl_raw l \<in> set L"
    by (auto simp: recoverable_def)
  let ?all = "all_accounted rc ms us (entries t)"
  define ns where "ns = sorted_set (unfinished_pending_lines ms (rn_statuses r) us (rn_exclusion_statuses r) @ rc_partial rc)"
  have rest: "finished_line rc ms us r k" if "k \<notin> set ns" for k
    using that not_unfinished [of k ms r us rc] by (auto simp: ns_def)
  have run: "restore_unfinished_pending fl rc r =
    (if ns = [] then io_ret ()
     else catch_exception (restore_lines (if_parsed fl) ns)
       (\<lambda>e. rput (\<lambda>r. r\<lparr>rn_unkept := rn_unkept r @ needed_lines (entries t) (set ns)\<rparr>))) rc r"
    by (simp add: restore_unfinished_pending_def io_bind_def rget_def rask_def Let_def fl ns_def)
  show "holds (restore_unfinished_pending fl) rc r (ends (\<lambda>_. ?all) ?all)"
  proof (cases "ns = []")
    case True
    have "?all r"
      using restored_accounted(2) [OF L asked L(1), where again = "[]"] rest True
      by (simp add: same_outcomes_def needed_lines_def)
    then show ?thesis using True by (simp add: holds_def run io_ret_def)
  next
    case False
    let ?give = "\<lambda>e. rput (\<lambda>r. r\<lparr>rn_unkept := rn_unkept r @ needed_lines (entries t) (set ns)\<rparr>)"
    have "holds (catch_exception (restore_lines (if_parsed fl) ns) ?give) rc r (ends (\<lambda>_. ?all) ?all)"
      unfolding catch_exception_def holds_catch
    proof (rule holds_mono [OF restore_lines_holds [OF L(1) n fl(1)]])
      fix res r'
      assume that: "same_outcomes r r' \<and> (case res of Inl e \<Rightarrow> e \<noteq> Abort \<and> held rc C L None r'
        | Inr _ \<Rightarrow> \<exists>L'. held rc C L' None r' \<and> set L' = set L \<union> set (needed_lines (entries t) (set ns)))"
      show "case res of Inl e \<Rightarrow> holds (if e = Abort then io_raise e else ?give e) rc r' (ends (\<lambda>_. ?all) ?all)
        | Inr x \<Rightarrow> ends (\<lambda>_. ?all) ?all (Inr x) r'"
      proof (cases res)
        case (Inl e)
        let ?r = "r'\<lparr>rn_unkept := rn_unkept r' @ needed_lines (entries t) (set ns)\<rparr>"
        have lines: "lines_at rc ?r = Some L" using that Inl by (simp add: held_def lines_at_def)
        have fin: "finished_line rc ms us ?r k = finished_line rc ms us r k" for k
          using that by (simp add: same_outcomes_def finished_line_def)
        have "accounted rc ms us (length (entries t)) L ?r l" if l: "l \<in> set (entries t)" for l
          using rest [of "wl_no l"] needed_entry [OF l, of "set ns"] L(2) l asked by (auto simp: accounted_def fin)
        then have "?all ?r" using lines by (auto simp: all_accounted_def)
        with that Inl show ?thesis by (simp add: holds_def rput_def)
      next
        case (Inr x)
        with that obtain L' where L': "held rc C L' None r'" "same_outcomes r r'"
          "set L' = set L \<union> set (needed_lines (entries t) (set ns))" by auto
        show ?thesis unfolding Inr
          using restored_accounted(2) [OF L asked L'(1,2), where again = ns] L'(3) rest by simp
      qed
    qed
    then show ?thesis using False by (simp add: holds_def run)
  qed
qed

text \<open>What a stopped run starts its clean-up from.\<close>

definition stopped_at ::
  "rctx \<Rightarrow> string set \<Rightarrow> match_t list \<Rightarrow> tag_exclusion_update list \<Rightarrow> wud_line list \<Rightarrow> runner \<Rightarrow> bool" where
  "stopped_at rc C ms us ls r =
     ((rn_in_flight r = None \<and> all_accounted rc ms us ls r) \<or>
      (\<exists>fl F. recoverable rc C ls F (Some fl) r \<and> F \<subseteq> asked_lines rc ms us (length ls) \<and>
         pw_lines (if_parsed fl) = ls \<and> if_matches fl = ms \<and> if_exclusions fl = us))"

lemma abort_accounts:
  assumes n: "rc_file rc \<notin> C"
  shows "valid rc (stopped_at rc C ms us (entries t)) abort_run
     (\<lambda>_. all_accounted rc ms us (entries t)) (all_accounted rc ms us (entries t))"
proof -
  let ?all = "all_accounted rc ms us (entries t)"
  have tail: "keeps rc ?all (io_finally mark_interrupted_pending (\<lambda>_. best_effort (finish_audit_run ''failure'')))"
    by (intro runs)
  show ?thesis unfolding abort_run_def
  proof (rule valid_rget_bind)
    fix v
    show "valid rc (\<lambda>r. stopped_at rc C ms us (entries t) r \<and> v = rn_in_flight r)
     (io_bind (rput (\<lambda>r. r\<lparr>rn_in_flight := None\<rparr>)) (\<lambda>_.
     io_finally
       (case v of
          None \<Rightarrow> io_ret ()
        | Some fl \<Rightarrow> io_bind (suppress_exception (restore_unfinished_pending fl)) (\<lambda>_.
                       suppress_exception (record_finished_stacks fl)))
       (\<lambda>_. io_finally mark_interrupted_pending (\<lambda>_. best_effort (finish_audit_run ''failure'')))))
     (\<lambda>_. ?all) ?all"
    proof (cases v)
      case None
      show ?thesis unfolding None option.case
        by (rule valid_bind [where R = "\<lambda>_. ?all"], rule valid_rput)
          (auto simp: stopped_at_def recoverable_def held_def all_accounted_def accounted_def lines_at_def
            finished_line_def intro: accounted.b_finally [OF accounted.b_ret tail])
    next
      case (Some fl)
      let ?R = "\<lambda>r. (\<exists>F. recoverable rc C (entries t) F None r \<and> F \<subseteq> asked_lines rc ms us (length (entries t))) \<and> pw_lines (if_parsed fl) = entries t \<and>
        if_matches fl = ms \<and> if_exclusions fl = us"
      have restore: "valid rc ?R (restore_unfinished_pending fl) (\<lambda>_. ?all) ?all"
        using restore_unfinished_accounts [OF n] by (fastforce simp: valid_def)
      then have restore': "valid rc ?R (suppress_exception (restore_unfinished_pending fl)) (\<lambda>_. ?all) ?all"
        unfolding suppress_exception_def catch_exception_def
        by (rule valid_catch) (auto intro: valid_ret valid_raise)
      show ?thesis unfolding Some option.case
        by (rule valid_bind [where R = "\<lambda>_. ?R"], rule valid_rput,
          force simp: stopped_at_def recoverable_def held_def lines_at_def,
          rule valid_finally [where R = ?all], rule valid_bind [OF restore'])
          (unfold suppress_exception_def, (intro runs)+)
    qed
  qed
qed

section \<open>The whole run\<close>

lemma parse_lines_same: "pw_lines (parse_lines sel n raws) = pw_lines (parse_lines None n raws)"
  by (induction raws arbitrary: n) (auto simp: Let_def split: prod.splits option.splits)

lemma parsed_entries: "split_shell_lines t' = split_shell_lines t \<Longrightarrow> pw_lines (parse_wud_text t' sel) = entries t"
  unfolding entries_def parse_wud_text_def by (metis parse_lines_same)

lemma overrides_lines: "apply_tag_overrides os parsed = Inr p \<Longrightarrow> pw_lines p = pw_lines parsed"
  by (cases "override_targets (override_of os) (pw_targets parsed)")
    (auto simp: apply_tag_overrides_def Let_def split: if_splits)

lemma audit_parsed_holds:
  assumes parsed: "pw_lines parsed = entries t"
  shows "valid rc (held rc C (split_shell_lines t) fl) (audit_parsed_file parsed ns)
    (\<lambda>a r. pw_lines a = entries t \<and> held rc C (split_shell_lines t) fl r) (held rc C (split_shell_lines t) fl)"
proof (cases "set ns \<subseteq> set (map wt_line_no (pw_targets parsed))")
  case True
  then show ?thesis using parsed by (simp add: audit_parsed_file_def Let_def valid_ret)
next
  case False
  have read: "valid rc (held rc C (split_shell_lines t) fl) (lift_io (\<lambda>_. read_text (Named (rc_file rc))))
    (\<lambda>t' r. split_shell_lines t' = split_shell_lines t \<and> held rc C (split_shell_lines t) fl r)
    (held rc C (split_shell_lines t) fl)"
    by (rule validI) (auto simp: holds_lift_io read_text_def io_holds held_def files_ok_def fs_ok_def lines_at_def
      text_at_def Let_def split: option.splits)
  have checked: "valid rc (\<lambda>r. split_shell_lines t' = split_shell_lines t \<and> held rc C (split_shell_lines t) fl r)
     (checked_run (apply_tag_overrides os (parse_wud_text t' (Some S))))
     (\<lambda>a r. pw_lines a = entries t \<and> held rc C (split_shell_lines t) fl r) (held rc C (split_shell_lines t) fl)"
    for os t' S
    by (cases "apply_tag_overrides os (parse_wud_text t' (Some S))")
      (auto simp: checked_run_def overrides_lines parsed_entries intro!: valid_raise valid_ret)
  show ?thesis
    unfolding audit_parsed_file_def Let_def if_not_P [OF False]
    by (rule valid_rask_bind, unfold prod.case, rule valid_bind [OF read], rule checked)
qed

lemma audit_start_holds:
  assumes parsed: "pw_lines parsed = entries t"
  shows "valid rc (held rc C (split_shell_lines t) fl) (audit_start parsed remove ms sk us fs)
    (\<lambda>a r. pw_lines a = entries t \<and> held rc C (split_shell_lines t) fl r) (held rc C (split_shell_lines t) fl)"
proof -
  let ?h = "held rc C (split_shell_lines t) fl"
  have rest: "valid rc ?h (io_bind (start_audit a) (\<lambda>_.
     io_bind (mark_unmatched_pending a ms sk) (\<lambda>_.
     io_bind (mark_removed_pending a remove ms) (\<lambda>_.
     io_bind (mark_matched_pending ms ''in_progress'' ''matched'') (\<lambda>_.
     io_bind (mark_tag_exclusions_pending us) (\<lambda>_.
     io_bind (mark_tag_exclusion_failures fs) (\<lambda>_. io_ret a)))))))
    (\<lambda>a r. pw_lines a = entries t \<and> ?h r) ?h" if "pw_lines a = entries t" for a
    by ((rule valid_bind, rule runs)+, rule valid_ret) (simp add: that)
  show ?thesis
    unfolding audit_start_def
    by (rule valid_bind [OF audit_parsed_holds [OF parsed]]) (use rest in \<open>auto simp: valid_def\<close>)
qed

text \<open>In flight, whatever \<open>F\<close> and the entries' file.\<close>

definition flying ::
  "rctx \<Rightarrow> string set \<Rightarrow> match_t list \<Rightarrow> tag_exclusion_update list \<Rightarrow> wud_line list \<Rightarrow> runner \<Rightarrow> bool" where
  "flying rc C ms us ls r =
     (\<exists>fl F. recoverable rc C ls F (Some fl) r \<and> F \<subseteq> asked_lines rc ms us (length ls) \<and>
        pw_lines (if_parsed fl) = ls \<and> if_matches fl = ms \<and> if_exclusions fl = us)"

lemma flying_stopped: "flying rc C ms us ls r \<Longrightarrow> stopped_at rc C ms us ls r"
  by (auto simp: flying_def stopped_at_def)

interpretation flying: unrecorded rc "flying rc C ms us ls" for rc C ms us ls
  by unfold_locales (auto simp: flying_def intro: core_recoverable)

lemma unstarted: "held rc C (split_shell_lines t) None r \<Longrightarrow> stopped_at rc C ms us (entries t) r"
proof -
  assume h: "held rc C (split_shell_lines t) None r"
  have "wl_raw l \<in> set (split_shell_lines t)" if "l \<in> set (entries t)" for l
    using that by (simp flip: entries_raw)
  then have "all_accounted rc ms us (entries t) r"
    using h unfolding all_accounted_def held_def accounted_def by blast
  then show ?thesis using h by (simp add: stopped_at_def held_def)
qed

lemma prepare_holds:
  assumes n: "rc_file rc \<notin> C" and parsed: "pw_lines parsed = entries t"
  shows "valid rc (held rc C (split_shell_lines t) None) (prepare_mutation parsed ms sk us fs)
     (\<lambda>_. flying rc C ms us (entries t)) (stopped_at rc C ms us (entries t))"
proof -
  let ?h = "held rc C (split_shell_lines t)" and ?fly = "flying rc C ms us (entries t)"
  have body: "valid rc (?h None)
      (with_lock (io_bind (rput (\<lambda>r. r\<lparr>rn_in_flight := Some \<lparr>if_parsed = a, if_matches = ms, if_exclusions = us\<rparr>,
             rn_statuses := [], rn_exclusion_statuses := []\<rparr>)) (\<lambda>_. remove_in_flight a ns)))
      (\<lambda>_. ?fly) (stopped_at rc C ms us (entries t))"
    if a: "pw_lines a = entries t" and asked: "set ns \<subseteq> asked_lines rc ms us (length (entries t))" for a ns
  proof -
    let ?fl = "\<lparr>if_parsed = a, if_matches = ms, if_exclusions = us\<rparr>"
    have fly: "held rc C (kept_lines (entries t) F) (Some ?fl) r \<Longrightarrow> F \<subseteq> set ns \<Longrightarrow> ?fly r" for F r
      unfolding flying_def recoverable_def using asked
      by (intro exI [of _ ?fl] exI [of _ F]) (auto simp: a kept_lines_def)
    have all: "?h (Some ?fl) r \<Longrightarrow> ?fly r" for r
      using fly [of "{}" r] by (simp add: kept_lines_def entries_raw)
    have inner: "valid rc (?h None)
      (io_bind (rput (\<lambda>r. r\<lparr>rn_in_flight := Some ?fl, rn_statuses := [], rn_exclusion_statuses := []\<rparr>))
        (\<lambda>_. remove_in_flight a ns)) (\<lambda>_. ?fly) ?fly"
      by (rule valid_bind [where R = "\<lambda>_. ?h (Some ?fl)"], rule valid_rput, simp add: held_def lines_at_def,
        rule valid_weaken [OF remove_in_flight_holds [OF n a]]) (auto intro: fly all)
    have "valid rc (?h None) (lift_io (\<lambda>c. acquire (rc_lock c))) (\<lambda>_. ?h None) (stopped_at rc C ms us (entries t))"
      by (rule valid_weaken [OF held.b_acquire]) (auto intro: unstarted)
    moreover have "valid rc ?fly (lift_io (\<lambda>c. release (rc_lock c))) (\<lambda>_. ?fly) (stopped_at rc C ms us (entries t))"
      by (rule valid_weaken [OF flying.b_release]) (auto intro: flying_stopped)
    moreover have "valid rc ?fly (lift_io (\<lambda>c. release (rc_lock c))) (\<lambda>_. stopped_at rc C ms us (entries t))
        (stopped_at rc C ms us (entries t))"
      by (rule valid_weaken [OF flying.b_release]) (auto intro: flying_stopped)
    ultimately show ?thesis
      unfolding with_lock_def by (blast intro: valid_bind valid_finally inner)
  qed
  have remove: "valid rc (?h None) (remove_line_numbers parsed)
      (\<lambda>remove r. ?h None r \<and> set (in_flight_lines ms remove us) \<subseteq> asked_lines rc ms us (length (entries t)))
      (stopped_at rc C ms us (entries t))"
    unfolding remove_line_numbers_def
  proof (rule valid_rask_bind)
    show "valid rc (?h None)
      (io_bind (checked_run (parse_line_spec (lo_remove_lines (rc_lines rc)) (int (length (pw_lines parsed))) ''--remove-lines-before-run''))
        (\<lambda>ns. io_ret (map nat ns)))
      (\<lambda>remove r. ?h None r \<and> set (in_flight_lines ms remove us) \<subseteq> asked_lines rc ms us (length (entries t)))
      (stopped_at rc C ms us (entries t))"
    proof (cases "parse_line_spec (lo_remove_lines (rc_lines rc)) (int (length (pw_lines parsed))) ''--remove-lines-before-run''")
      case (Inl e)
      then show ?thesis
        by (auto simp: checked_run_def valid_def holds_def io_bind_def io_raise_def intro: unstarted)
    next
      case (Inr ns)
      then show ?thesis
        by (auto simp: checked_run_def valid_def holds_def io_bind_def io_ret_def in_flight_lines_def asked_lines_def parsed)
    qed
  qed
  have after: "valid rc (\<lambda>r. ?h None r \<and> set (in_flight_lines ms remove us) \<subseteq> asked_lines rc ms us (length (entries t)))
      (io_bind (audit_start parsed remove ms sk us fs) (\<lambda>audit.
       with_lock
         (io_bind (rput (\<lambda>r. r\<lparr>rn_in_flight := Some \<lparr>if_parsed = audit, if_matches = ms, if_exclusions = us\<rparr>,
             rn_statuses := [], rn_exclusion_statuses := []\<rparr>)) (\<lambda>_. remove_in_flight audit (in_flight_lines ms remove us)))))
      (\<lambda>_. ?fly) (stopped_at rc C ms us (entries t))" for remove
  proof (cases "set (in_flight_lines ms remove us) \<subseteq> asked_lines rc ms us (length (entries t))")
    case True
    have one: "valid rc (\<lambda>r. pw_lines a = entries t \<and> ?h None r)
        (with_lock
         (io_bind (rput (\<lambda>r. r\<lparr>rn_in_flight := Some \<lparr>if_parsed = a, if_matches = ms, if_exclusions = us\<rparr>,
             rn_statuses := [], rn_exclusion_statuses := []\<rparr>)) (\<lambda>_. remove_in_flight a (in_flight_lines ms remove us))))
        (\<lambda>_. ?fly) (stopped_at rc C ms us (entries t))" for a
      using body [OF _ True, of a] by (cases "pw_lines a = entries t") (auto simp: valid_def)
    have audit: "valid rc (\<lambda>r. ?h None r \<and> set (in_flight_lines ms remove us) \<subseteq> asked_lines rc ms us (length (entries t)))
        (audit_start parsed remove ms sk us fs) (\<lambda>a r. pw_lines a = entries t \<and> ?h None r) (stopped_at rc C ms us (entries t))"
      by (rule valid_weaken [OF audit_start_holds [OF parsed]]) (auto intro: unstarted)
    show ?thesis by (rule valid_bind [OF audit one])
  qed (simp add: valid_def)
  show ?thesis
    unfolding prepare_mutation_def by (rule valid_bind [OF remove after])
qed

lemma changes_fly:
  assumes n: "rc_file rc \<notin> C" and us: "compose_name ` te_stack ` set us \<subseteq> C"
    and ms: "compose_name ` m_stack ` set ms \<subseteq> C"
  shows "keeps rc (flying rc C ms us ls) (apply_changes ms us)"
proof (rule validI)
  fix r assume "flying rc C ms us ls r"
  then obtain fl F L where fl: "held rc C L (Some fl) r" "\<forall>l \<in> set ls. wl_no l \<notin> F \<longrightarrow> wl_raw l \<in> set L"
    "F \<subseteq> asked_lines rc ms us (length ls)" "pw_lines (if_parsed fl) = ls" "if_matches fl = ms" "if_exclusions fl = us"
    by (auto simp: flying_def recoverable_def)
  have fly: "held rc C L (Some fl) r' \<Longrightarrow> flying rc C ms us ls r'" for r'
    unfolding flying_def recoverable_def using fl(2-6) by blast
  have "holds (apply_changes ms us) rc r (ends (\<lambda>_. held rc C L (Some fl)) (held rc C L (Some fl)))"
    using held_changes [OF assms, of L "Some fl"] fl(1) by (simp add: valid_def)
  then show "holds (apply_changes ms us) rc r (ends (\<lambda>_. flying rc C ms us ls) (flying rc C ms us ls))"
    by (rule holds_mono) (auto simp: ends_def fly split: sum.splits)
qed

lemma reconcile_flying:
  assumes n: "rc_file rc \<notin> C"
  shows "valid rc (flying rc C ms us (entries t))
    (io_bind (rget (\<lambda>r. if_parsed (the (rn_in_flight r)))) (\<lambda>audit. reconcile_pending_entries audit ms us))
    (\<lambda>_. all_accounted rc ms us (entries t)) (stopped_at rc C ms us (entries t))"
proof (rule valid_rget_bind, rule validI)
  fix a r assume "flying rc C ms us (entries t) r \<and> a = if_parsed (the (rn_in_flight r))"
  then obtain fl F where fl: "recoverable rc C (entries t) F (Some fl) r" "a = if_parsed fl"
    "pw_lines (if_parsed fl) = entries t" "if_matches fl = ms" "if_exclusions fl = us"
    "F \<subseteq> asked_lines rc ms us (length (entries t))"
    by (auto simp: flying_def recoverable_def held_def)
  have stop: "recoverable rc C (entries t) F (Some fl) r' \<Longrightarrow> stopped_at rc C ms us (entries t) r'" for r'
    unfolding stopped_at_def using fl(3-6) by blast
  have "holds (reconcile_pending_entries a ms us) rc r
      (ends (\<lambda>_. all_accounted rc ms us (entries t)) (recoverable rc C (entries t) F (Some fl)))"
    using reconcile_accounts [OF n _ fl(6), of a "Some fl"] fl by (simp add: valid_def)
  then show "holds (reconcile_pending_entries a ms us) rc r
      (ends (\<lambda>_. all_accounted rc ms us (entries t)) (stopped_at rc C ms us (entries t)))"
    by (rule holds_mono) (auto simp: ends_def stop split: sum.splits)
qed

interpretation finished_run: unrecorded rc "\<lambda>r. rn_in_flight r = None \<and> all_accounted rc ms us ls r" for rc ms us ls
  by unfold_locales (auto simp: core_accounted, simp add: same_core_def)

lemma bind_assoc: "io_bind (io_bind m f) g = io_bind m (\<lambda>x. io_bind (f x) g)"
  by (auto simp: io_bind_def fun_eq_iff split: prod.splits sum.splits)

lemma run_accounts:
  assumes n: "rc_file rc \<notin> C" and parsed: "pw_lines parsed = entries t"
    and us: "compose_name ` te_stack ` set us \<subseteq> C" and ms: "compose_name ` m_stack ` set ms \<subseteq> C"
  shows "valid rc (held rc C (split_shell_lines t) None) (run_mutation parsed ms sk us fs)
    (\<lambda>_. all_accounted rc ms us (entries t)) (all_accounted rc ms us (entries t))"
proof -
  let ?all = "all_accounted rc ms us (entries t)" and ?stop = "stopped_at rc C ms us (entries t)"
  have after: "valid rc ?all (io_bind (rput (\<lambda>r. r\<lparr>rn_in_flight := None\<rparr>)) (\<lambda>_. finish_run ms us fs)) (\<lambda>_. ?all) ?stop"
    by (rule valid_bind [where R = "\<lambda>_ r. rn_in_flight r = None \<and> ?all r"], rule valid_rput)
      (auto simp: all_accounted_def accounted_def lines_at_def finished_line_def stopped_at_def
        intro: valid_weaken [OF finished_run.b_finish_run [where rc = rc and ms = ms and us = us and ls = "entries t"]])
  let ?fly = "flying rc C ms us (entries t)"
  have changed: "valid rc ?fly (apply_changes ms us) (\<lambda>_. ?fly) ?stop"
    by (rule valid_weaken [OF changes_fly [OF n us ms]]) (auto intro: flying_stopped)
  have ending: "valid rc ?fly
      (io_bind (rget (\<lambda>r. if_parsed (the (rn_in_flight r)))) (\<lambda>audit.
       io_bind (reconcile_pending_entries audit ms us) (\<lambda>_.
       io_bind (rput (\<lambda>r. r\<lparr>rn_in_flight := None\<rparr>)) (\<lambda>_. finish_run ms us fs)))) (\<lambda>_. ?all) ?stop"
    using valid_bind [OF reconcile_flying [OF n] after] unfolding bind_assoc .
  have body: "valid rc (held rc C (split_shell_lines t) None) (run_body parsed ms sk us fs) (\<lambda>_. ?all) ?stop"
    unfolding run_body_def
    by (rule valid_bind [OF prepare_holds [OF n parsed] valid_bind [OF changed ending]])
  show ?thesis
    unfolding run_mutation_def
    by (rule valid_finally [where R = ?all], rule valid_catch [OF body], rule valid_bind [OF abort_accounts [OF n]],
      rule valid_raise, assumption, (rule accounted.b_release)+)
qed

section \<open>Properties\<close>

text \<open>C2: no pending entry is lost by a run that changes something, whatever fails in it: a system call, a
  Docker command, a database statement, a callback or an interrupt. Afterwards the WUD file exists, and
  each line it had before is in it, or is a line the run was asked about. Such a line is missing only
  if all that was asked for on it succeeded in every stack it
  concerns (and no unselected stack still needs it), or its digest was found to have been replaced, or
  the error that ends the run names it. Asked about are the lines of the matches and of the tag exclusions, and
  those the operator lists with \<open>--remove-lines-before-run\<close>, for which nothing more may have been asked.\<close>

theorem no_entry_lost:
  assumes "fs_ok (w_fs (rn_world r))" and "text_at (w_fs (rn_world r)) (rc_file rc) = Some t"
    and "pw_lines parsed = pw_lines (parse_wud_text t None)"
    and "\<forall>st \<in> m_stack ` set ms \<union> te_stack ` set us. compose_name st \<noteq> rc_file rc \<and>
      fs_files (w_fs (rn_world r)) (Named (compose_name st)) \<noteq> None"
    and "rn_in_flight r = None" and "rn_unkept r = []"
    and "run_mutation parsed ms skipped us failures rc r = (res, r')"
  shows "\<exists>t'. text_at (w_fs (rn_world r')) (rc_file rc) = Some t' \<and>
    (\<forall>l \<in> set (pw_lines (parse_wud_text t None)).
       wl_raw l \<in> set (split_shell_lines t') \<or>
       wl_no l \<in> asked_lines rc ms us (length (pw_lines (parse_wud_text t None))) \<and>
       (finished_line rc ms us r' (wl_no l) \<or>
        (stale_line (rn_world r') ms (wl_no l) \<and> wl_no l \<notin> set (rc_partial rc)) \<or>
        wl_raw l \<in> set (rn_unkept r')))"
proof -
  let ?C = "compose_name ` (m_stack ` set ms \<union> te_stack ` set us)"
  have "held rc ?C (split_shell_lines t) None r"
    using assms(1,2,4,5,6) by (auto simp: held_def files_ok_def lines_at_def)
  moreover have "rc_file rc \<notin> ?C" using assms(4) by auto
  ultimately have "ends (\<lambda>_. all_accounted rc ms us (entries t)) (all_accounted rc ms us (entries t)) res r'"
    using valid_run [OF run_accounts [of rc ?C parsed t us ms skipped failures] _ assms(7)] assms(3)
    by (simp add: entries_def image_Un)
  then have "all_accounted rc ms us (entries t) r'" by (cases res) simp_all
  then obtain L where L: "lines_at rc r' = Some L" "\<forall>l \<in> set (entries t). accounted rc ms us (length (entries t)) L r' l"
    by (auto simp: all_accounted_def)
  from L(1) obtain t' where t': "text_at (w_fs (rn_world r')) (rc_file rc) = Some t'" "L = split_shell_lines t'"
    by (auto simp: lines_at_def)
  show ?thesis
    using L(2) unfolding accounted_def t'(2) entries_def by (intro exI [of _ t'] conjI t'(1)) blast
qed

text \<open>A run on the demonstration stack, interrupted by its first container command.\<close>

definition demo_rctx :: rctx where
  "demo_rctx = \<lparr>rc_ctx = demo_ctx\<lparr>c_resp := \<lambda>h k. Interrupted\<rparr>, rc_file = ''wud'', rc_uid = 0, rc_gid = 0, rc_owner = None,
     rc_lock = \<lparr>dl_id = 7, dl_path = ''wud'', dl_timeout = Seconds 1\<rparr>,
     rc_lines = \<lparr>lo_only_lines = None, lo_exclude_tag_lines = None, lo_remove_lines = None, lo_overrides = []\<rparr>,
     rc_partial = [], rc_recreate_excluded = False,
     rc_render_exclusions = (\<lambda>us ex src. Inr (src, [])), rc_db_raises = (\<lambda>n. False)\<rparr>"

definition demo_wud :: string where
  "demo_wud = ''nginx:1'' @ [CHR 0x0A] @ ''pg:2'' @ [CHR 0x0A]"

definition demo_runner :: runner where
  "demo_runner = \<lparr>rn_world = demo_world\<lparr>w_fs := (w_fs demo_world)\<lparr>fs_files := (fs_files (w_fs demo_world))
       (Named ''wud'' \<mapsto> \<lparr>f_text = demo_wud, f_meta = f_meta demo_file\<rparr>)\<rparr>\<rparr>,
     rn_in_flight = None, rn_statuses = [], rn_exclusion_statuses = [], rn_skipped = [], rn_run = None, rn_rows = [],
     rn_events = [], rn_known = [], rn_rules = [], rn_writes = 0, rn_unkept = []\<rparr>"

definition demo_stopped :: "(lexc + nat) \<times> runner" where
  "demo_stopped = run_mutation (parse_wud_text demo_wud None) [demo_match] [] [] [] demo_rctx demo_runner"

theorem no_entry_lost_witness:
  "\<exists>t'. text_at (w_fs (rn_world (snd demo_stopped))) ''wud'' = Some t' \<and>
    (\<forall>l \<in> set (pw_lines (parse_wud_text demo_wud None)).
       wl_raw l \<in> set (split_shell_lines t') \<or>
       wl_no l \<in> asked_lines demo_rctx [demo_match] [] (length (pw_lines (parse_wud_text demo_wud None))) \<and>
       (finished_line demo_rctx [demo_match] [] (snd demo_stopped) (wl_no l) \<or>
        (stale_line (rn_world (snd demo_stopped)) [demo_match] (wl_no l) \<and> wl_no l \<notin> set (rc_partial demo_rctx)) \<or>
        wl_raw l \<in> set (rn_unkept (snd demo_stopped))))"
proof -
  have wud: "rc_file demo_rctx = ''wud''" by (simp add: demo_rctx_def)
  have name: "compose_name (m_stack demo_match) = ''/s/c.yml''"
    by (simp add: compose_name_def demo_match_def demo_stack_def)
  have ok: "fs_ok (w_fs (rn_world demo_runner))" by (simp add: demo_runner_def demo_world_def fs_ok_def)
  have listed: "text_at (w_fs (rn_world demo_runner)) (rc_file demo_rctx) = Some demo_wud"
    by (simp add: demo_runner_def demo_world_def text_at_def wud)
  have stacks: "\<forall>st \<in> m_stack ` set [demo_match] \<union> te_stack ` set []. compose_name st \<noteq> rc_file demo_rctx \<and>
      fs_files (w_fs (rn_world demo_runner)) (Named (compose_name st)) \<noteq> None"
    by (simp add: name wud) (simp add: demo_runner_def demo_world_def)
  have "rn_in_flight demo_runner = None" "rn_unkept demo_runner = []" by (simp_all add: demo_runner_def)
  from no_entry_lost [OF ok listed refl stacks this, of "[]" "[]" "fst demo_stopped" "snd demo_stopped"]
  show ?thesis by (simp add: demo_stopped_def wud)
qed

end
