(* ===== verification/Runner_Outcome.thy ===== *)
theory Runner_Outcome
  imports Runner_Safety
begin

text \<open>
  What the result of a run means: it reports success only when every update and exclusion it was asked
  for succeeded, and its record in the audit database is always closed, with the same answer.
\<close>

section \<open>Invariants that no action on the world touches\<close>

locale ledger = bystander rc I for rc I +
  assumes any_world: "\<And>r w. I r \<Longrightarrow> I (r\<lparr>rn_world := w\<rparr>)"
begin

lemma b_any_act [runs]: "keeps rc I (lift_act m)"
  by (rule validI) (auto simp: holds_def lift_act_def ends_def any_world split: prod.splits sum.splits)

lemma b_any_io [runs]: "keeps rc I (lift_io m)"
  using b_any_act [of "lift_fs (\<lambda>_. m rc)"] by (simp add: valid_def holds_def lift_io_def)

lemma b_render [runs]: "keeps rc I (render_stack_exclusions st us)"
  unfolding render_stack_exclusions_def by (intro runs) (auto split: sum.splits intro: b_raise b_ret)

lemma b_write [runs]: "keeps rc I (apply_compose_tag_exclusions st us)"
  unfolding apply_compose_tag_exclusions_def by (intro runs)

lemma b_restore_lines [runs]: "keeps rc I (restore_lines parsed ns)"
  unfolding restore_lines_def by (intro runs)

lemma b_reconcile [runs]: "keeps rc I (reconcile_pending_entries audit ms us)"
  unfolding reconcile_pending_entries_def Let_def by (intro runs)

lemma b_audit_rest [runs]: "keeps rc I (remove_in_flight a ns)"
  unfolding remove_in_flight_def by (intro runs)

end

text \<open>The run is open and nothing else is said.\<close>

definition run_open :: "runner \<Rightarrow> bool" where
  "run_open r = (rn_run r = Some ''started'')"

interpretation run_open: ledger rc run_open for rc
  by unfold_locales (auto simp: run_open_def same_core_def)

definition keys_of :: "('k \<times> 'v) list \<Rightarrow> 'k set" where
  "keys_of d = fst ` set d"

text \<open>Every match has the status of its stack, every exclusion its own.\<close>

definition reported :: "match_t list \<Rightarrow> tag_exclusion_update list \<Rightarrow> runner \<Rightarrow> bool" where
  "reported ms us r =
     (run_open r \<and> match_index ` set ms \<subseteq> keys_of (rn_statuses r) \<and>
      exclusion_slot ` set us \<subseteq> keys_of (rn_exclusion_statuses r))"

interpretation open_with: ledger rc "\<lambda>r. run_open r \<and> stale = rn_statuses r" for rc stale
  by unfold_locales (auto simp: run_open_def same_core_def)

interpretation reported: ledger rc "reported ms us" for rc ms us
  by unfold_locales (auto simp: reported_def run_open_def same_core_def)

section \<open>Every status is recorded\<close>

lemma keys_foldl_update: "keys_of (foldl (\<lambda>d u. AList.update (f u) (g u) d) d us) = keys_of d \<union> f ` set us"
  by (induction us arbitrary: d) (auto simp: dom_update keys_of_def)

lemma fail_keys: "keys_of (fail_stack_updates xs us reason) = keys_of xs \<union> exclusion_slot ` set us"
  unfolding fail_stack_updates_def by (rule keys_foldl_update)

lemma valid_fact: "(A \<Longrightarrow> valid c I m Q E) \<Longrightarrow> valid c (\<lambda>r. I r \<and> A) m Q E"
  by (simp add: valid_def)

context ledger begin

lemma write_keys:
  "valid rc I (write_stack_tag_exclusions st us xs)
     (\<lambda>(ys, written) r. I r \<and> keys_of xs \<subseteq> keys_of ys) I"
proof -
  have 1: "valid rc I
     (io_catch (io_bind (apply_compose_tag_exclusions st us) (\<lambda>a. io_ret (Some a)))
         (\<lambda>e. case file_error e of None \<Rightarrow> io_raise e | Some _ \<Rightarrow> io_ret None)) (\<lambda>_. I) I"
    by (intro runs)
  have 2: "valid rc I
    (case applied of
          None \<Rightarrow> io_ret (fail_stack_updates xs us ''tag-exclusion-label-failed'', [])
        | Some services \<Rightarrow>
            io_bind (record_tag_exclusion_rules us) (\<lambda>_. io_ret (xs, filter (\<lambda>u. te_service u \<in> set services) us)))
     (\<lambda>(ys, written) r. I r \<and> keys_of xs \<subseteq> keys_of ys) I" for applied
    by (cases applied)
      (auto simp: fail_keys intro!: valid_ret valid_bind [OF b_marks(9)])
  show ?thesis unfolding write_stack_tag_exclusions_def by (rule valid_bind [OF 1 2])
qed

lemma writes_keys:
  "valid rc I (write_tag_exclusions ks groups xs ok)
     (\<lambda>(ys, written) r. I r \<and> keys_of xs \<subseteq> keys_of ys) I"
proof (induction ks groups xs ok rule: write_tag_exclusions.induct)
  case (2 ks st us rest xs ok)
  have step: "valid rc I (io_bind (write_stack_tag_exclusions st us xs) (\<lambda>(ys, written).
       write_tag_exclusions ks rest ys (ok @ written)))
     (\<lambda>(ys, written) r. I r \<and> keys_of xs \<subseteq> keys_of ys) I"
  proof (rule valid_bind [OF write_keys])
    fix v :: "exclusion_statuses \<times> tag_exclusion_update list"
    obtain ys written where v: "v = (ys, written)" by (cases v)
    have "valid rc I (write_tag_exclusions ks rest ys (ok @ written))
       (\<lambda>(zs, written) r. I r \<and> keys_of ys \<subseteq> keys_of zs) I" by (rule 2(2) [of "[]"]) simp_all
    then show "valid rc ((\<lambda>(ys, written) r. I r \<and> keys_of xs \<subseteq> keys_of ys) v)
       (case v of (ys, written) \<Rightarrow> write_tag_exclusions ks rest ys (ok @ written))
       (\<lambda>(ys, written) r. I r \<and> keys_of xs \<subseteq> keys_of ys) I"
      unfolding v prod.case by (intro valid_fact) (erule valid_weaken, auto)
  qed
  have refused: "valid rc I (write_tag_exclusions ks rest (fail_stack_updates xs us refusal) ok)
     (\<lambda>(ys, written) r. I r \<and> keys_of xs \<subseteq> keys_of ys) I" if "refusal \<noteq> ''''" for refusal
    by (rule valid_weaken [OF "2.IH"(1) [OF that]]) (auto simp: fail_keys)
  show ?case unfolding write_tag_exclusions.simps
    by (rule valid_bind [where R = "\<lambda>_. I"], intro runs) (use step refused in auto)
qed (auto intro: valid_ret)

lemma recreates_keys:
  "valid rc I (recreate_tag_exclusion_services groups xs)
     (\<lambda>ys r. I r \<and> keys_of xs \<subseteq> keys_of ys) I"
proof (induction groups xs rule: recreate_tag_exclusion_services.induct)
  case (2 st us rest xs)
  show ?case unfolding recreate_tag_exclusion_services.simps
    by (rule valid_bind [OF b_any_act], rule valid_weaken [OF 2]) (auto simp: fail_keys split: if_splits)
qed (auto intro: valid_ret)

lemma exclusions_keys:
  "valid rc I (apply_tag_exclusions us)
     (\<lambda>xs r. I r \<and> exclusion_slot ` set us \<subseteq> keys_of xs) I"
proof -
  let ?xs = "foldl (\<lambda>d u. AList.update (exclusion_slot u) (success ''tag-excluded'') d) [] us"
  have start: "keys_of ?xs = exclusion_slot ` set us"
    unfolding keys_foldl_update by (simp add: keys_of_def)
  let ?Q = "\<lambda>xs r. I r \<and> exclusion_slot ` set us \<subseteq> keys_of xs"
  have rest: "valid rc (\<lambda>r. I r \<and> keys_of ?xs \<subseteq> keys_of ys)
    (if recreate then recreate_tag_exclusion_services groups ys else io_ret ys) ?Q I" for recreate groups ys
  proof (rule valid_fact)
    assume k: "keys_of ?xs \<subseteq> keys_of ys"
    show "valid rc I (if recreate then recreate_tag_exclusion_services groups ys else io_ret ys) ?Q I"
    proof (cases recreate)
      case True
      then show ?thesis unfolding if_P [OF True]
        by (intro valid_weaken [OF recreates_keys]) (use k start in blast)+
    next
      case False
      then show ?thesis using k start by (simp add: valid_ret)
    qed
  qed
  have body: "valid rc I (io_bind (rask rc_recreate_excluded) (\<lambda>recreate.
      io_bind (if recreate then io_bind (lift_act compose_runtime_keys) (\<lambda>ks. io_ret (Some ks)) else io_ret None)
        (\<lambda>keys.
      io_bind (write_tag_exclusions keys (tag_exclusion_updates_by_stack us) ?xs []) (\<lambda>(statuses', written).
        if recreate then recreate_tag_exclusion_services (tag_exclusion_updates_by_stack written) statuses'
        else io_ret statuses')))) ?Q I"
    by (rule valid_rask_bind, rule valid_bind [where R = "\<lambda>_. I"], intro runs, rule valid_bind [OF writes_keys])
      (use rest in \<open>auto split: prod.splits\<close>)
  show ?thesis
    unfolding apply_tag_exclusions_def Let_def
    by (cases "us = []") (use body start in \<open>simp_all add: valid_ret\<close>)
qed

end

lemma updates_keys:
  "valid rc (\<lambda>r. run_open r \<and> K \<subseteq> keys_of (rn_statuses r) \<and> X \<subseteq> keys_of (rn_exclusion_statuses r))
     (update_stacks ms sts)
     (\<lambda>_ r. run_open r \<and> K \<union> cs_index ` set sts \<subseteq> keys_of (rn_statuses r) \<and> X \<subseteq> keys_of (rn_exclusion_statuses r))
     run_open"
proof (induction ms sts arbitrary: K rule: update_stacks.induct)
  case (2 ms st sts)
  have act: "valid rc (\<lambda>r. run_open r \<and> K \<subseteq> keys_of (rn_statuses r) \<and> X \<subseteq> keys_of (rn_exclusion_statuses r))
      (lift_act (update_stack st (matches_of_stack ms st)))
      (\<lambda>_ r. run_open r \<and> K \<subseteq> keys_of (rn_statuses r) \<and> X \<subseteq> keys_of (rn_exclusion_statuses r)) run_open"
    by (rule valid_lift_act) (auto simp: holds_def run_open_def split: prod.splits sum.splits)
  show ?case unfolding update_stacks.simps
    by (rule valid_bind [OF act], rule valid_bind [where R = "\<lambda>_ r. run_open r \<and>
          insert (cs_index st) K \<subseteq> keys_of (rn_statuses r) \<and> X \<subseteq> keys_of (rn_exclusion_statuses r)"],
        rule valid_rput, force simp: run_open_def keys_of_def dom_update,
        rule valid_weaken [OF 2 [of "insert (cs_index st) K"]]) auto
qed (simp add: valid_ret)

lemma stacks_cover: "match_index ` set ms \<subseteq> cs_index ` set (stacks_to_update ms)"
proof -
  have "m \<in> set ms \<Longrightarrow> \<exists>m' \<in> set ms. map_of (foldl (\<lambda>d m. AList.update (cs_index (m_stack m)) (m_stack m) d) d ms)
      (match_index m) = Some (m_stack m') \<and> match_index m' = match_index m" for d m
  proof (induction ms rule: rev_induct)
    case (snoc x xs)
    then show ?case by (cases "match_index x = match_index m") (auto simp: update_conv' match_index_def)
  qed simp
  then have found: "m \<in> set ms \<Longrightarrow> \<exists>st. map_of (foldl (\<lambda>d m. AList.update (cs_index (m_stack m)) (m_stack m) d) [] ms)
      (match_index m) = Some st \<and> cs_index st = match_index m" for m
    unfolding match_index_def by blast
  show ?thesis
  proof (rule image_subsetI)
    fix m assume "m \<in> set ms"
    from found [OF this] obtain st where st: "map_of (foldl (\<lambda>d m. AList.update (cs_index (m_stack m)) (m_stack m) d) [] ms)
      (match_index m) = Some st" "cs_index st = match_index m" by blast
    then have "st \<in> set (stacks_to_update ms)"
      unfolding stacks_to_update_def Let_def using map_of_SomeD [OF st(1)] by force
    with st(2) show "match_index m \<in> cs_index ` set (stacks_to_update ms)" by force
  qed
qed

text \<open>After the changes every stack and every exclusion has a status.\<close>

lemma changes_reported: "valid rc run_open (apply_changes ms us) (\<lambda>_. reported ms us) run_open"
proof -
  let ?ms = "\<lambda>stale. filter (\<lambda>m. unblocked stale (match_index m)) ms"
  have pre: "valid rc run_open (preflight_matching_stack_digests ms) (\<lambda>_. run_open) run_open"
    unfolding preflight_matching_stack_digests_def
    by (rule valid_bind [OF run_open.b_any_act])
      (auto intro!: valid_ret valid_rput simp: run_open_def)
  have cover: "match_index ` set ms \<subseteq> keys_of stale \<union> cs_index ` set (stacks_to_update (?ms stale))"
    for stale :: "(nat \<times> stack_status) list"
    using stacks_cover [of "?ms stale"] by (auto simp: unblocked_def keys_of_def)
  have last: "valid rc (\<lambda>r. run_open r \<and> keys_of stale \<subseteq> keys_of (rn_statuses r) \<and> exclusion_slot ` set us \<subseteq> keys_of (rn_exclusion_statuses r))
      (update_stacks (?ms stale) (stacks_to_update (?ms stale))) (\<lambda>_. reported ms us) run_open" for stale
  proof (rule valid_weaken [OF updates_keys [where K = "keys_of stale" and X = "exclusion_slot ` set us"]])
    fix r assume "run_open r \<and> keys_of stale \<union> cs_index ` set (stacks_to_update (?ms stale)) \<subseteq> keys_of (rn_statuses r) \<and>
      exclusion_slot ` set us \<subseteq> keys_of (rn_exclusion_statuses r)"
    then show "reported ms us r"
      using cover [of stale] unfolding reported_def by blast
  qed auto
  have mid: "valid rc (\<lambda>r. (run_open r \<and> stale = rn_statuses r) \<and> exclusion_slot ` set (filter (\<lambda>u. unblocked stale (cs_index (te_stack u))) us) \<subseteq> keys_of xs)
     (rput (\<lambda>r. r\<lparr>rn_exclusion_statuses :=
         foldl (\<lambda>d u. AList.update (exclusion_slot u) (failure ''preflight-skipped'') d) xs
           (filter (\<lambda>u. \<not> unblocked stale (cs_index (te_stack u))) us)\<rparr>))
     (\<lambda>_ r. run_open r \<and> keys_of stale \<subseteq> keys_of (rn_statuses r) \<and> exclusion_slot ` set us \<subseteq> keys_of (rn_exclusion_statuses r)) run_open"
    for stale xs
  proof (rule valid_rput)
    fix r assume h: "(run_open r \<and> stale = rn_statuses r) \<and> exclusion_slot ` set (filter (\<lambda>u. unblocked stale (cs_index (te_stack u))) us) \<subseteq> keys_of xs"
    have "exclusion_slot ` set us \<subseteq> keys_of (foldl (\<lambda>d u. AList.update (exclusion_slot u) (failure ''preflight-skipped'') d) xs
           (filter (\<lambda>u. \<not> unblocked stale (cs_index (te_stack u))) us))"
      unfolding keys_foldl_update using h by fastforce
    with h show "run_open (r\<lparr>rn_exclusion_statuses := foldl (\<lambda>d u. AList.update (exclusion_slot u) (failure ''preflight-skipped'') d) xs
           (filter (\<lambda>u. \<not> unblocked stale (cs_index (te_stack u))) us)\<rparr>) \<and>
      keys_of stale \<subseteq> keys_of (rn_statuses (r\<lparr>rn_exclusion_statuses := foldl (\<lambda>d u. AList.update (exclusion_slot u) (failure ''preflight-skipped'') d) xs
           (filter (\<lambda>u. \<not> unblocked stale (cs_index (te_stack u))) us)\<rparr>)) \<and>
      exclusion_slot ` set us \<subseteq> keys_of (rn_exclusion_statuses (r\<lparr>rn_exclusion_statuses := foldl (\<lambda>d u. AList.update (exclusion_slot u) (failure ''preflight-skipped'') d) xs
           (filter (\<lambda>u. \<not> unblocked stale (cs_index (te_stack u))) us)\<rparr>))"
      by (simp add: run_open_def)
  qed
  have excl: "valid rc (\<lambda>r. run_open r \<and> stale = rn_statuses r) (apply_tag_exclusions vs)
      (\<lambda>xs r. (run_open r \<and> stale = rn_statuses r) \<and> exclusion_slot ` set vs \<subseteq> keys_of xs) run_open" for stale vs
    by (rule valid_weaken [OF open_with.exclusions_keys]) auto
  show ?thesis
    unfolding apply_changes_def Let_def
    by (rule valid_bind [OF pre], rule valid_rget_bind, rule valid_bind [OF excl], rule valid_bind [OF mid last])
qed

section \<open>The end of a run\<close>

definition closed_as :: "string \<Rightarrow> runner \<Rightarrow> bool" where
  "closed_as status r = (rn_run r = Some status)"

interpretation closed_as: ledger rc "closed_as s" for rc s
  by unfold_locales (auto simp: closed_as_def same_core_def)

definition all_succeeded :: "match_t list \<Rightarrow> tag_exclusion_update list \<Rightarrow> runner \<Rightarrow> bool" where
  "all_succeeded ms us r =
     ((\<forall>m \<in> set ms. st_status (status_of (map_of (rn_statuses r)) (match_index m)) = ''success'') \<and>
      (\<forall>u \<in> set us. st_status (exclusion_status (rn_exclusion_statuses r) u) = ''success''))"

lemma unfailed_succeeded:
  assumes "reported ms us r" and "\<not> failed_run (rn_statuses r) (rn_exclusion_statuses r) fs"
  shows "all_succeeded ms us r \<and> fs = []"
proof -
  have "st_status (status_of (map_of (rn_statuses r)) (match_index m)) = ''success''" if m: "m \<in> set ms" for m
  proof -
    have "match_index m \<in> fst ` set (rn_statuses r)" using assms(1) m by (auto simp: reported_def keys_of_def)
    then obtain s where "map_of (rn_statuses r) (match_index m) = Some s"
      by (cases "map_of (rn_statuses r) (match_index m)") (auto simp: map_of_eq_None_iff)
    with assms(2) show ?thesis by (auto simp: failed_run_def status_of_def dest: map_of_SomeD)
  qed
  moreover have "st_status (exclusion_status (rn_exclusion_statuses r) u) = ''success''" if u: "u \<in> set us" for u
  proof -
    have "exclusion_slot u \<in> fst ` set (rn_exclusion_statuses r)" using assms(1) u by (auto simp: reported_def keys_of_def)
    then obtain s where "map_of (rn_exclusion_statuses r) (exclusion_slot u) = Some s"
      by (cases "map_of (rn_exclusion_statuses r) (exclusion_slot u)") (auto simp: map_of_eq_None_iff)
    with assms(2) show ?thesis
      by (fastforce simp: failed_run_def exclusion_status_def exclusion_slot_def dict_get_def dest: map_of_SomeD)
  qed
  ultimately show ?thesis using assms(2) by (auto simp: all_succeeded_def failed_run_def)
qed

lemma finish_audit_closes:
  assumes "\<And>r x y. Q (r\<lparr>rn_writes := y, rn_run := x\<rparr>) = Q r"
  shows "valid rc (\<lambda>r. run_open r \<and> Q r) (finish_audit_run s) (\<lambda>_ r. closed_as s r \<and> Q r) (\<lambda>_. True)"
proof (rule validI)
  fix r assume "run_open r \<and> Q r"
  then show "holds (finish_audit_run s) rc r (ends (\<lambda>_ r. closed_as s r \<and> Q r) (\<lambda>_. True))"
    using assms [where r = r and x = "Some s" and y = "Suc (rn_writes r)"]
    by (simp add: finish_audit_run_def with_run_def rwhen_def io_bind_def rget_def db_write_def holds_def run_open_def
        closed_as_def Let_def)
qed

definition run_answer :: "match_t list \<Rightarrow> tag_exclusion_update list \<Rightarrow> (wud_target \<times> string) list \<Rightarrow> nat \<Rightarrow> runner \<Rightarrow> bool" where
  "run_answer ms us fs code r =
     ((code = 0 \<and> closed_as ''success'' r \<and> all_succeeded ms us r \<and> fs = []) \<or> (code = 1 \<and> closed_as ''failure'' r))"

interpretation answered: bystander rc "run_answer ms us fs code" for rc ms us fs code
  by unfold_locales (auto simp: run_answer_def closed_as_def all_succeeded_def same_core_def)

interpretation closing: bystander rc "\<lambda>r. reported ms us r \<and> (sts, xs) = (rn_statuses r, rn_exclusion_statuses r)"
  for rc ms us sts xs
  by unfold_locales (auto simp: reported_def run_open_def same_core_def)

lemma close_run:
  assumes "\<And>r. P r \<Longrightarrow> run_open r \<and> Q r" and "\<And>r x y. Q (r\<lparr>rn_writes := y, rn_run := x\<rparr>) = Q r"
    and "\<And>r. closed_as s r \<Longrightarrow> Q r \<Longrightarrow> run_answer ms us fs code r"
  shows "valid rc P (io_bind (finish_audit_run s) (\<lambda>_. io_bind (report_progress ''completion'' s') (\<lambda>_. io_ret code)))
    (run_answer ms us fs) (\<lambda>_. True)"
proof -
  have 1: "valid rc P (finish_audit_run s) (\<lambda>_. run_answer ms us fs code) (\<lambda>_. True)"
    by (rule valid_weaken [OF finish_audit_closes [of Q, OF assms(2)]]) (use assms(1,3) in blast)+
  have 2: "valid rc (run_answer ms us fs code) (report_progress ''completion'' s') (\<lambda>_. run_answer ms us fs code) (\<lambda>_. True)"
    by (rule valid_weaken [OF answered.b_progress]) auto
  show ?thesis by (rule valid_bind [OF 1 valid_bind [OF 2]]) (rule valid_ret)
qed

lemma weaken_keeps: "keeps rc I m \<Longrightarrow> valid rc I m (\<lambda>_. I) (\<lambda>_. True)"
  by (erule valid_weaken) auto

lemma finish_answers: "valid rc (reported ms us) (finish_run ms us fs) (run_answer ms us fs) (\<lambda>_. True)"
proof -
  have final: "valid rc (\<lambda>r. reported ms us r \<and> (sts, xs) = (rn_statuses r, rn_exclusion_statuses r))
    (if failed_run sts xs fs
       then io_bind (finish_audit_run ''failure'') (\<lambda>_. io_bind (report_progress ''completion'' ''failure'') (\<lambda>_. io_ret 1))
       else io_bind (finish_audit_run ''success'') (\<lambda>_. io_bind (report_progress ''completion'' ''success'') (\<lambda>_. io_ret 0)))
    (run_answer ms us fs) (\<lambda>_. True)" for sts xs
  proof (cases "failed_run sts xs fs")
    case True
    show ?thesis unfolding if_P [OF True]
      by (rule close_run [where Q = "\<lambda>_. True"]) (auto simp: reported_def run_answer_def)
  next
    case False
    show ?thesis unfolding if_not_P [OF False]
      by (rule close_run [where Q = "\<lambda>r. all_succeeded ms us r \<and> fs = []"])
        (use False unfailed_succeeded [of ms us _ fs] in \<open>auto simp: reported_def run_answer_def all_succeeded_def\<close>)
  qed
  have "valid rc (\<lambda>r. reported ms us r \<and> (sts, xs) = (rn_statuses r, rn_exclusion_statuses r))
     (io_bind (mark_successful_pending ms sts) (\<lambda>_.
     io_bind (mark_successful_tag_exclusions us xs) (\<lambda>_.
     io_bind (record_update_events ms sts) (\<lambda>_.
     io_bind (record_known_images ms sts) (\<lambda>_.
       if failed_run sts xs fs
       then io_bind (finish_audit_run ''failure'') (\<lambda>_. io_bind (report_progress ''completion'' ''failure'') (\<lambda>_. io_ret 1))
       else io_bind (finish_audit_run ''success'') (\<lambda>_. io_bind (report_progress ''completion'' ''success'') (\<lambda>_. io_ret 0)))))))
    (run_answer ms us fs) (\<lambda>_. True)" for sts xs
    by ((rule valid_bind [OF weaken_keeps], intro runs)+, rule final)
  then show ?thesis
    unfolding finish_run_def by (intro valid_rget_bind) (simp split: prod.splits)
qed

lemma valid_any: "valid rc (\<lambda>_. True) m (\<lambda>_ _. True) (\<lambda>_. True)"
  by (auto simp: valid_def holds_def ends_def split: prod.splits sum.splits)

lemma start_opens: "valid rc (\<lambda>r. rn_run r = None) (start_audit parsed) (\<lambda>_. run_open) (\<lambda>_. True)"
proof -
  have 1: "valid rc (\<lambda>r. rn_run r = None) (db_write (\<lambda>r. r\<lparr>rn_run := Some ''started''\<rparr>)) (\<lambda>_. run_open) (\<lambda>_. True)"
    by (rule validI) (simp add: holds_def db_write_def Let_def run_open_def)
  have 2: "valid rc run_open (each insert_pending_update (pw_targets parsed)) (\<lambda>_. run_open) (\<lambda>_. True)"
    by (rule weaken_keeps) (intro runs)
  have 3: "valid rc (\<lambda>_. True) (io_bind (best_effort (finish_audit_run ''failure'')) (\<lambda>_.
            io_bind (rput (\<lambda>r. r\<lparr>rn_run := None\<rparr>)) (\<lambda>_. io_raise e))) (\<lambda>_. run_open) (\<lambda>_. True)" for e
    by (rule valid_bind [OF valid_any], rule valid_bind [OF valid_any], rule valid_raise) simp
  show ?thesis
    unfolding start_audit_def
  proof (rule valid_rget_bind)
    fix v
    show "valid rc (\<lambda>r. rn_run r = None \<and> v = rn_run r)
     (if v \<noteq> None then io_ret ()
      else io_catch
         (io_bind (db_write (\<lambda>r. r\<lparr>rn_run := Some ''started''\<rparr>)) (\<lambda>_.
            each insert_pending_update (pw_targets parsed)))
         (\<lambda>e. io_bind (best_effort (finish_audit_run ''failure'')) (\<lambda>_.
            io_bind (rput (\<lambda>r. r\<lparr>rn_run := None\<rparr>)) (\<lambda>_.
              io_raise (UpdaterErr ''Could not initialize audit database'')))))
     (\<lambda>_. run_open) (\<lambda>_. True)"
    proof (cases "v = None")
      case True
      have "valid rc (\<lambda>r. rn_run r = None) (io_catch
         (io_bind (db_write (\<lambda>r. r\<lparr>rn_run := Some ''started''\<rparr>)) (\<lambda>_.
            each insert_pending_update (pw_targets parsed)))
         (\<lambda>e. io_bind (best_effort (finish_audit_run ''failure'')) (\<lambda>_.
            io_bind (rput (\<lambda>r. r\<lparr>rn_run := None\<rparr>)) (\<lambda>_.
              io_raise (UpdaterErr ''Could not initialize audit database'')))))
     (\<lambda>_. run_open) (\<lambda>_. True)"
        by (rule valid_catch [OF valid_bind [OF 1 2] 3])
      then show ?thesis using True by (simp add: valid_def)
    next
      case False
      then show ?thesis by (auto simp: valid_def)
    qed
  qed
qed

text \<open>Nothing is on record yet.\<close>

definition unopened :: "runner \<Rightarrow> bool" where
  "unopened r = (rn_run r = None)"

interpretation unopened: ledger rc unopened for rc
  by unfold_locales (auto simp: unopened_def same_core_def)

lemma prepare_opens: "valid rc unopened (prepare_mutation parsed ms sk us fs) (\<lambda>_. run_open) (\<lambda>_. True)"
proof -
  have open': "valid rc unopened (start_audit a) (\<lambda>_. run_open) (\<lambda>_. True)" for a
    using start_opens [of rc a] by (simp add: unopened_def [abs_def])
  have rest: "valid rc run_open (io_bind (mark_unmatched_pending a ms sk) (\<lambda>_.
     io_bind (mark_removed_pending a remove ms) (\<lambda>_.
     io_bind (mark_matched_pending ms ''in_progress'' ''matched'') (\<lambda>_.
     io_bind (mark_tag_exclusions_pending us) (\<lambda>_.
     io_bind (mark_tag_exclusion_failures fs) (\<lambda>_. io_ret a)))))) (\<lambda>_. run_open) (\<lambda>_. True)" for a remove
    by (rule weaken_keeps) (intro runs)
  have audit: "valid rc unopened (audit_start parsed remove ms sk us fs) (\<lambda>_. run_open) (\<lambda>_. True)" for remove
    unfolding audit_start_def
    by (rule valid_bind [OF weaken_keeps [OF unopened.b_audit_parsed]], rule valid_bind [OF open'], rule rest)
  have lock: "valid rc run_open (with_lock (io_bind (rput (\<lambda>r. r\<lparr>rn_in_flight := fl, rn_statuses := [],
      rn_exclusion_statuses := []\<rparr>)) (\<lambda>_. remove_in_flight a ns))) (\<lambda>_. run_open) (\<lambda>_. True)" for fl a ns
    unfolding with_lock_def
    by (rule weaken_keeps, intro runs valid_rput) (simp add: run_open_def)
  show ?thesis
    unfolding prepare_mutation_def
    by (rule valid_bind [OF weaken_keeps [OF unopened.b_lines]], rule valid_bind [OF audit], rule lock)
qed

text \<open>A run that stops closes its record, unless the database refuses the statement.\<close>

definition not_open :: "rctx \<Rightarrow> runner \<Rightarrow> bool" where
  "not_open rc r = ((\<forall>k. \<not> rc_db_raises rc k) \<longrightarrow> rn_run r \<noteq> Some ''started'')"

interpretation not_open: ledger rc "not_open rc" for rc
  by unfold_locales (auto simp: not_open_def same_core_def)

lemma valid_finally_any:
  assumes "\<And>x. valid c (\<lambda>_. True) (k x) (\<lambda>_. J) J"
  shows "valid c P (io_finally m k) (\<lambda>_. J) J"
proof -
  have "valid c (\<lambda>_. True) (io_finally m k) (\<lambda>_. J) J"
    unfolding valid_def
  proof (intro allI impI)
    fix w show "holds (io_finally m k) c w (ends (\<lambda>_. J) J)"
      using assms [of "fst (m c w)"]
      by (auto simp: valid_def holds_def io_finally_def ends_def split: prod.splits sum.splits)
  qed
  then show ?thesis by (simp add: valid_def)
qed

lemma abort_closes: "valid rc (\<lambda>_. True) abort_run (\<lambda>_. not_open rc) (not_open rc)"
proof -
  have close: "valid rc (\<lambda>_. True) (best_effort (finish_audit_run ''failure'')) (\<lambda>_. not_open rc) (not_open rc)"
    by (rule validI, simp add: finish_audit_run_def best_effort_def with_run_def rwhen_def io_bind_def rget_def
        db_write_def holds_def io_catch_def io_ret_def not_open_def Let_def, blast)
  have last: "valid rc (\<lambda>_. True) (io_finally mark_interrupted_pending (\<lambda>_. best_effort (finish_audit_run ''failure'')))
      (\<lambda>_. not_open rc) (not_open rc)"
    by (rule valid_finally_any) (rule close)
  show ?thesis
    unfolding abort_run_def
    by (rule valid_bind [where R = "\<lambda>_ _. True"], rule valid_rget, simp,
      rule valid_bind [where R = "\<lambda>_ _. True"], rule valid_rput, simp, rule valid_finally_any, rule last)
qed

lemma body_answers:
  "valid rc unopened (run_body parsed ms sk us fs) (run_answer ms us fs) (\<lambda>_. True)"
proof -
  have reconcile: "valid rc (reported ms us) (reconcile_pending_entries a ms us) (\<lambda>_. reported ms us) (\<lambda>_. True)" for a
    by (rule weaken_keeps [OF reported.b_reconcile])
  have landed: "valid rc (reported ms us) (rput (\<lambda>r. r\<lparr>rn_in_flight := None\<rparr>)) (\<lambda>_. reported ms us) (\<lambda>_. True)"
    by (rule valid_rput) (simp add: reported_def run_open_def)
  show ?thesis
    unfolding run_body_def
    by (rule valid_bind [OF prepare_opens], rule valid_bind [OF valid_weaken [OF changes_reported]], assumption, assumption,
      simp, rule valid_bind [OF weaken_keeps [OF reported.b_rget]], rule valid_bind [OF reconcile],
      rule valid_bind [OF landed finish_answers])
qed

section \<open>Properties\<close>

text \<open>C3: a run's answer can be trusted. Whatever happens in it, exit code 0 is returned only when every
  update and every exclusion asked for succeeded and none was refused, and the run's record then
  says success; the only other code is 1, with a record that says failure. A run that ends with an error
  or an interrupt never leaves its record open, as long as the database takes the statements.\<close>

theorem run_result:
  assumes "rn_run r = None" and "run_mutation parsed ms skipped us failures rc r = (res, r')"
  shows "case res of
      Inr code \<Rightarrow> (code = 0 \<and> rn_run r' = Some ''success'' \<and> failures = [] \<and>
           (\<forall>m \<in> set ms. st_status (status_of (map_of (rn_statuses r')) (match_index m)) = ''success'') \<and>
           (\<forall>u \<in> set us. st_status (exclusion_status (rn_exclusion_statuses r') u) = ''success'')) \<or>
         (code = 1 \<and> rn_run r' = Some ''failure'')
    | Inl e \<Rightarrow> (\<forall>k. \<not> rc_db_raises rc k) \<longrightarrow> rn_run r' \<noteq> Some ''started''"
proof -
  have aborted: "valid rc (\<lambda>_. True) (io_bind abort_run (\<lambda>_. io_raise (run_error e))) (run_answer ms us failures) (not_open rc)"
    for e by (rule valid_bind [OF abort_closes], rule valid_raise)
  have released: "valid rc (run_answer ms us failures x) (lift_io (\<lambda>c. release (rc_lock c)))
      (\<lambda>_. run_answer ms us failures x) (not_open rc)" for x
    by (rule valid_weaken [OF answered.b_release]) (auto simp: not_open_def run_answer_def closed_as_def)
  have "valid rc unopened (run_mutation parsed ms skipped us failures) (run_answer ms us failures) (not_open rc)"
    unfolding run_mutation_def
    by (rule valid_finally [OF valid_catch [OF body_answers aborted] released not_open.b_release])
  then have "ends (run_answer ms us failures) (not_open rc) res r'"
    by (rule valid_run [where c = rc and w = r]) (simp_all add: unopened_def assms)
  then show ?thesis
    by (cases res) (auto simp: run_answer_def closed_as_def all_succeeded_def not_open_def)
qed

text \<open>On the demonstration stack, with every command answered, the run succeeds.\<close>

definition demo_ended :: "(lexc + nat) \<times> runner" where
  "demo_ended = run_mutation (parse_wud_text demo_wud None) [demo_match] [] [] [] (demo_rctx\<lparr>rc_ctx := demo_ctx\<rparr>) demo_runner"

theorem run_result_witness:
  "case fst demo_ended of
      Inr code \<Rightarrow> (code = 0 \<and> st_status (status_of (map_of (rn_statuses (snd demo_ended))) (match_index demo_match)) = ''success'') \<or>
        (code = 1 \<and> rn_run (snd demo_ended) = Some ''failure'')
    | Inl e \<Rightarrow> rn_run (snd demo_ended) \<noteq> Some ''started''"
proof -
  have new: "rn_run demo_runner = None" by (simp add: demo_runner_def)
  have db: "\<forall>k. \<not> rc_db_raises (demo_rctx\<lparr>rc_ctx := demo_ctx\<rparr>) k" by (simp add: demo_rctx_def)
  from run_result [OF new, of "parse_wud_text demo_wud None" "[demo_match]" "[]" "[]" "[]" "demo_rctx\<lparr>rc_ctx := demo_ctx\<rparr>"
      "fst demo_ended" "snd demo_ended"] db
  show ?thesis by (auto simp: demo_ended_def split: sum.splits)
qed

end
