(* ===== verification/Web_Jobs.thy ===== *)
theory Web_Jobs
  imports Prelude
begin

text \<open>
  The jobs of the web application: the registry of \<open>src/src/wudup/web_job_registry.py\<close>, the
  security scan jobs of \<open>web_security.py\<close> that share its gate, and the background functions of
  \<open>web_jobs.py\<close>, \<open>web_retag_apply.py\<close> and \<open>web_tracking.py\<close> as the sequences of registry calls they
  make. What those functions do between two calls (the updater run, Compose, the database) enters as
  the outcome they had. A dict is an association list in insertion order; every operation holds the
  lock from its first to its last access, so each is one definition on the state.
\<close>

section \<open>Jobs\<close>

datatype job_status = JobQueued | JobRunning | JobSuccess | JobFailure

fun terminal_status :: "job_status \<Rightarrow> bool" where
  "terminal_status JobSuccess = True"
| "terminal_status JobFailure = True"
| "terminal_status _ = False"

fun active_status :: "job_status \<Rightarrow> bool" where
  "active_status JobQueued = True"
| "active_status JobRunning = True"
| "active_status _ = False"

record progress_report =
  pr_phase :: string
  pr_status :: string
  pr_message :: string
  pr_stack :: string
  pr_services :: "string list"
  pr_lines :: "nat list"

record job_progress = progress_report +
  jp_created_at :: string

record apply_job =
  aj_id :: string
  aj_status :: job_status
  aj_lines :: "nat list"
  aj_version :: nat
  aj_run_id :: "int option"
  aj_log_file :: string
  aj_started_at :: "string option"
  aj_finished_at :: "string option"
  aj_error :: string
  aj_progress :: "job_progress list"

definition queued_job :: "string \<Rightarrow> nat list \<Rightarrow> apply_job" where
  "queued_job i lines = \<lparr>aj_id = i, aj_status = JobQueued, aj_lines = lines, aj_version = 0, aj_run_id = None,
     aj_log_file = '''', aj_started_at = None, aj_finished_at = None, aj_error = '''', aj_progress = []\<rparr>"

record scan_job =
  sj_id :: string
  sj_status :: job_status
  sj_total :: nat
  sj_completed :: nat
  sj_error :: string

type_synonym 'j registry = "(string \<times> 'j) list"

record web_state =
  ws_jobs :: "apply_job registry"
  ws_self_update :: bool
  ws_restart :: bool
  ws_scans :: "scan_job registry"

definition initialize_apply_job_state :: web_state where
  "initialize_apply_job_state = \<lparr>ws_jobs = [], ws_self_update = False, ws_restart = False, ws_scans = []\<rparr>"

section \<open>Registering and eviction\<close>

definition WEB_APPLY_JOB_LIMIT :: nat where
  "WEB_APPLY_JOB_LIMIT = 20"

definition pop_all :: "string list \<Rightarrow> 'j registry \<Rightarrow> 'j registry" where
  "pop_all ids jobs = filter (\<lambda>(i, _). i \<notin> set ids) jobs"

definition terminal_ids :: "('j \<Rightarrow> job_status) \<Rightarrow> 'j registry \<Rightarrow> string list" where
  "terminal_ids st jobs = map fst (filter (\<lambda>(_, j). terminal_status (st j)) jobs)"

definition register_apply_job :: "apply_job \<Rightarrow> apply_job registry \<Rightarrow> apply_job registry" where
  "register_apply_job job jobs =
     AList.update (aj_id job) job
       (pop_all (take (length jobs + 1 - WEB_APPLY_JOB_LIMIT) (terminal_ids aj_status jobs)) jobs)"

section \<open>The gate\<close>

definition any_active :: "('j \<Rightarrow> job_status) \<Rightarrow> 'j registry \<Rightarrow> bool" where
  "any_active st jobs = list_ex (\<lambda>(_, j). active_status (st j)) jobs"

definition active_security_scan_error :: "web_state \<Rightarrow> string" where
  "active_security_scan_error s =
     (if any_active sj_status (ws_scans s) then ''security scan refresh is already running'' else '''')"

definition active_mutation_error :: "bool \<Rightarrow> web_state \<Rightarrow> string" where
  "active_mutation_error include_scans s =
     (if any_active aj_status (ws_jobs s) then ''an apply job is already running''
      else if ws_self_update s then ''self-update is already running''
      else if ws_restart s then ''container restart is already running''
      else if \<not> include_scans then ''''
      else active_security_scan_error s)"

definition active_apply_job_exists :: "web_state \<Rightarrow> bool" where
  "active_apply_job_exists s = (active_mutation_error True s \<noteq> '''')"

datatype http_error = HTTPException nat string | SubmitFailed

text \<open>\<open>_reserve_mutation_state\<close>: the error of the gate, or what \<open>reserve\<close> makes of the state.\<close>

definition reserve_mutation_state ::
  "(web_state \<Rightarrow> http_error + web_state) \<Rightarrow> bool \<Rightarrow> web_state \<Rightarrow> http_error + (string \<times> web_state)" where
  "reserve_mutation_state reserve include_scans s =
     (let active_error = active_mutation_error include_scans s
      in if active_error \<noteq> '''' then Inr (active_error, s)
         else case reserve s of Inl e \<Rightarrow> Inl e | Inr s' \<Rightarrow> Inr ('''', s'))"

definition reserve_self_update :: "web_state \<Rightarrow> http_error + (string \<times> web_state)" where
  "reserve_self_update = reserve_mutation_state (\<lambda>s. Inr (s\<lparr>ws_self_update := True\<rparr>)) True"

definition release_self_update :: "web_state \<Rightarrow> web_state" where
  "release_self_update s = s\<lparr>ws_self_update := False\<rparr>"

definition reserve_container_restart :: "web_state \<Rightarrow> http_error + (string \<times> web_state)" where
  "reserve_container_restart = reserve_mutation_state (\<lambda>s. Inr (s\<lparr>ws_restart := True\<rparr>)) True"

definition release_container_restart :: "web_state \<Rightarrow> web_state" where
  "release_container_restart s = s\<lparr>ws_restart := False\<rparr>"

section \<open>Submitting\<close>

text \<open>
  \<open>_submit_apply_job_state\<close> and \<open>submit_retag_apply_job\<close>: \<open>accepted\<close> says whether the executor took
  the task. A refused task takes the job back, not the evictions.
\<close>

definition submit_apply_job ::
  "string \<Rightarrow> nat list \<Rightarrow> bool \<Rightarrow> web_state \<Rightarrow> (http_error + apply_job) \<times> web_state" where
  "submit_apply_job i lines accepted s =
     (let active_error = active_mutation_error True s
      in if active_error \<noteq> '''' then (Inl (HTTPException 409 active_error), s)
         else let job = queued_job i lines; jobs = register_apply_job job (ws_jobs s)
              in if accepted then (Inr job, s\<lparr>ws_jobs := jobs\<rparr>)
                 else (Inl SubmitFailed, s\<lparr>ws_jobs := AList.delete i jobs\<rparr>))"

definition submit_retag_apply_job :: "string \<Rightarrow> bool \<Rightarrow> web_state \<Rightarrow> (http_error + apply_job) \<times> web_state" where
  "submit_retag_apply_job i accepted s = submit_apply_job i [] accepted s"

text \<open>\<open>api_apply_tracking_repair\<close>: \<open>plan_fresh\<close> is whether the rebuilt plan is the approved one.\<close>

definition submit_tracking_repair ::
  "bool \<Rightarrow> bool \<Rightarrow> string \<Rightarrow> bool \<Rightarrow> web_state \<Rightarrow> (http_error + apply_job) \<times> web_state" where
  "submit_tracking_repair mutations_enabled plan_fresh i accepted s =
     (if \<not> mutations_enabled then (Inl (HTTPException 403 ''mutations are disabled''), s)
      else if \<not> plan_fresh then (Inl (HTTPException 409 ''Tracking repair plan is stale or blocked.''), s)
      else submit_apply_job i [] accepted s)"

definition SECURITY_SCAN_JOBS_KEPT :: nat where
  "SECURITY_SCAN_JOBS_KEPT = 20"

definition prune_security_scan_jobs :: "scan_job registry \<Rightarrow> scan_job registry" where
  "prune_security_scan_jobs jobs =
     (if length jobs \<le> SECURITY_SCAN_JOBS_KEPT then jobs
      else pop_all (take (length jobs - SECURITY_SCAN_JOBS_KEPT) (terminal_ids sj_status jobs)) jobs)"

definition queued_scan :: "string \<Rightarrow> scan_job" where
  "queued_scan i = \<lparr>sj_id = i, sj_status = JobQueued, sj_total = 0, sj_completed = 0, sj_error = ''''\<rparr>"

definition reserve_scan_job :: "string \<Rightarrow> web_state \<Rightarrow> http_error + web_state" where
  "reserve_scan_job i s =
     (if any_active sj_status (ws_scans s)
      then Inl (HTTPException 409 ''security scan refresh is already running'')
      else Inr (s\<lparr>ws_scans := prune_security_scan_jobs (AList.update i (queued_scan i) (ws_scans s))\<rparr>))"

definition refresh_security_scans ::
  "bool \<Rightarrow> bool \<Rightarrow> string \<Rightarrow> bool \<Rightarrow> web_state \<Rightarrow> (http_error + scan_job) \<times> web_state" where
  "refresh_security_scans scans_enabled mutations_enabled i accepted s =
     (if \<not> scans_enabled then (Inl (HTTPException 403 ''security scanning is disabled''), s)
      else if \<not> mutations_enabled then (Inl (HTTPException 403 ''mutations are disabled''), s)
      else case reserve_mutation_state (reserve_scan_job i) False s of
        Inl e \<Rightarrow> (Inl e, s)
      | Inr (active_error, s') \<Rightarrow>
          if active_error \<noteq> '''' then (Inl (HTTPException 409 active_error), s')
          else if accepted then (Inr (queued_scan i), s')
          else (Inl SubmitFailed, s'\<lparr>ws_scans := AList.delete i (ws_scans s')\<rparr>))"

section \<open>Updating a job\<close>

text \<open>The keyword arguments of \<open>_update_apply_job\<close>; the times are read when the call is made.\<close>

datatype job_change =
    SetStatus job_status
  | SetStartedAt
  | SetFinishedAt
  | SetRunId "int option"
  | SetLogFile string
  | SetError string

fun apply_change :: "string \<Rightarrow> job_change \<Rightarrow> apply_job \<Rightarrow> apply_job" where
  "apply_change now (SetStatus s) j = j\<lparr>aj_status := s\<rparr>"
| "apply_change now SetStartedAt j = j\<lparr>aj_started_at := Some now\<rparr>"
| "apply_change now SetFinishedAt j = j\<lparr>aj_finished_at := Some now\<rparr>"
| "apply_change now (SetRunId r) j = j\<lparr>aj_run_id := r\<rparr>"
| "apply_change now (SetLogFile f) j = j\<lparr>aj_log_file := f\<rparr>"
| "apply_change now (SetError e) j = j\<lparr>aj_error := e\<rparr>"

definition changed_job :: "string \<Rightarrow> job_change list \<Rightarrow> apply_job \<Rightarrow> apply_job" where
  "changed_job now changes j = (let j' = fold (apply_change now) changes j in j'\<lparr>aj_version := aj_version j' + 1\<rparr>)"

definition APPLY_JOB_PROGRESS_STATUSES :: "string list" where
  "APPLY_JOB_PROGRESS_STATUSES = [''running'', ''success'', ''failure'', ''skipped'']"

definition progressed_job :: "string \<Rightarrow> progress_report \<Rightarrow> apply_job \<Rightarrow> apply_job" where
  "progressed_job now r j =
     (let status = (if pr_status r \<in> set APPLY_JOB_PROGRESS_STATUSES then pr_status r else ''running'')
      in j\<lparr>aj_progress := aj_progress j @
            [progress_report.extend (r\<lparr>pr_status := status\<rparr>) \<lparr>jp_created_at = now\<rparr>]\<rparr>)"

datatype job_event = JobUpdate "job_change list" | JobProgress progress_report

fun event_job :: "string \<Rightarrow> job_event \<Rightarrow> apply_job \<Rightarrow> apply_job" where
  "event_job now (JobUpdate changes) j = changed_job now changes j"
| "event_job now (JobProgress r) j = progressed_job now r j"

text \<open>\<open>_update_apply_job\<close> and \<open>_append_apply_job_progress\<close>: a job no longer registered is left alone.\<close>

definition update_apply_job :: "string \<Rightarrow> string \<Rightarrow> job_event \<Rightarrow> apply_job registry \<Rightarrow> apply_job registry" where
  "update_apply_job now i e jobs =
     (case map_of jobs i of None \<Rightarrow> jobs | Some j \<Rightarrow> AList.update i (event_job now e j) jobs)"

definition run_job_event :: "string \<Rightarrow> string \<Rightarrow> job_event \<Rightarrow> web_state \<Rightarrow> web_state" where
  "run_job_event now i e s = s\<lparr>ws_jobs := update_apply_job now i e (ws_jobs s)\<rparr>"

datatype scan_change = ScanStatus job_status | ScanTotal nat | ScanCompleted nat | ScanError string

fun scan_apply :: "scan_change \<Rightarrow> scan_job \<Rightarrow> scan_job" where
  "scan_apply (ScanStatus s) j = j\<lparr>sj_status := s\<rparr>"
| "scan_apply (ScanTotal n) j = j\<lparr>sj_total := n\<rparr>"
| "scan_apply (ScanCompleted n) j = j\<lparr>sj_completed := n\<rparr>"
| "scan_apply (ScanError e) j = j\<lparr>sj_error := e\<rparr>"

definition run_scan_event :: "string \<Rightarrow> scan_change list \<Rightarrow> web_state \<Rightarrow> web_state" where
  "run_scan_event i changes s =
     (case map_of (ws_scans s) i of
        None \<Rightarrow> s
      | Some j \<Rightarrow> s\<lparr>ws_scans := prune_security_scan_jobs
                      (AList.update i (fold scan_apply changes j) (ws_scans s))\<rparr>)"

section \<open>Reading a job\<close>

record job_response =
  jr_job_id :: string
  jr_status :: job_status
  jr_run_id :: "int option"
  jr_log_file :: string
  jr_started_at :: "string option"
  jr_finished_at :: "string option"
  jr_error :: string
  jr_lines :: "nat list"
  jr_progress :: "(string \<times> job_progress) list"

definition apply_job_response :: "apply_job \<Rightarrow> job_response" where
  "apply_job_response j = \<lparr>jr_job_id = aj_id j, jr_status = aj_status j, jr_run_id = aj_run_id j,
     jr_log_file = aj_log_file j, jr_started_at = aj_started_at j, jr_finished_at = aj_finished_at j,
     jr_error = aj_error j, jr_lines = aj_lines j, jr_progress = map (\<lambda>p. (aj_id j, p)) (aj_progress j)\<rparr>"

definition require_apply_job :: "string \<Rightarrow> web_state \<Rightarrow> http_error + apply_job" where
  "require_apply_job i s =
     (case map_of (ws_jobs s) i of None \<Rightarrow> Inl (HTTPException 404 ''apply job not found'') | Some j \<Rightarrow> Inr j)"

definition apply_job_response_for_request :: "string \<Rightarrow> web_state \<Rightarrow> http_error + job_response" where
  "apply_job_response_for_request i s =
     (case require_apply_job i s of Inl e \<Rightarrow> Inl e | Inr j \<Rightarrow> Inr (apply_job_response j))"

section \<open>The background functions\<close>

definition job_report :: "string \<Rightarrow> string \<Rightarrow> string \<Rightarrow> progress_report" where
  "job_report phase status message = \<lparr>pr_phase = phase, pr_status = status, pr_message = message, pr_stack = '''',
     pr_services = [], pr_lines = []\<rparr>"

definition job_started :: job_event where
  "job_started = JobUpdate [SetStatus JobRunning, SetStartedAt]"

text \<open>
  \<open>_run_apply_job\<close>. The set-up before the runner exists can raise, the run reports its progress and
  returns a status code, raises, or is interrupted by something that is no \<open>Exception\<close>; the pending
  refresh reports once where it applies, and recording the run on the schedules can raise, also in
  the handler of an earlier error.
\<close>

datatype run_result = Returned int | Raised string | Interrupted

record apply_outcome =
  ao_setup_error :: "string option"
  ao_log_file :: string
  ao_run_id :: "int option"
  ao_reports :: "progress_report list"
  ao_result :: run_result
  ao_refresh :: "progress_report option"
  ao_schedule_error :: "string option"
  ao_handler_fails :: bool

definition apply_job_exit_error :: "int \<Rightarrow> string" where
  "apply_job_exit_error code = (if code = 0 then '''' else ''updater exited with status '' @ show_int code)"

definition job_finished :: "job_status \<Rightarrow> int option \<Rightarrow> string \<Rightarrow> string \<Rightarrow> job_event" where
  "job_finished status run_id log_file err =
     JobUpdate [SetFinishedAt, SetStatus status, SetRunId run_id, SetLogFile log_file, SetError err]"

definition job_incomplete :: job_event where
  "job_incomplete = job_finished JobFailure None '''' ''apply job did not complete''"

definition apply_job_failed :: "apply_outcome \<Rightarrow> string \<Rightarrow> int option \<Rightarrow> string \<Rightarrow> job_event list" where
  "apply_job_failed out err run_id log_file =
     [JobProgress (job_report ''completion'' ''failure'' err),
      if ao_handler_fails out then job_incomplete else job_finished JobFailure run_id log_file err]"

definition apply_job_events :: "apply_outcome \<Rightarrow> job_event list" where
  "apply_job_events out =
     job_started #
     (case ao_setup_error out of
        Some err \<Rightarrow> apply_job_failed out err None ''''
      | None \<Rightarrow>
          JobUpdate [SetLogFile (ao_log_file out)] # map JobProgress (ao_reports out) @
          (case ao_result out of
             Interrupted \<Rightarrow> [job_incomplete]
           | Raised err \<Rightarrow> apply_job_failed out err (ao_run_id out) (ao_log_file out)
           | Returned code \<Rightarrow>
               (case ao_refresh out of None \<Rightarrow> [] | Some r \<Rightarrow> [JobProgress r]) @
               (case ao_schedule_error out of
                  Some err \<Rightarrow> apply_job_failed out err (ao_run_id out) (ao_log_file out)
                | None \<Rightarrow> [job_finished (if code = 0 then JobSuccess else JobFailure) (ao_run_id out)
                             (ao_log_file out) (apply_job_exit_error code)])))"

text \<open>
  \<open>_run_retag_apply_job\<close>. A failure carries its safe text and, when it is a blocked scope, the stack
  and services it names.
\<close>

record retag_error =
  re_message :: string
  re_scope :: "(string \<times> string list) option"

definition retag_failure_progress :: "retag_error \<Rightarrow> bool \<Rightarrow> progress_report" where
  "retag_failure_progress e preflight =
     (case re_scope e of
        Some (stack, services) \<Rightarrow>
          (job_report ''preflight'' ''failure'' (re_message e))\<lparr>pr_stack := stack, pr_services := services\<rparr>
      | None \<Rightarrow> job_report (if preflight then ''preflight'' else ''completion'') ''failure'' (re_message e))"

record retag_outcome =
  ro_plan_error :: "retag_error option"
  ro_audit_error :: "retag_error option"
  ro_run_id :: int
  ro_reports :: "progress_report list"
  ro_apply_error :: "retag_error option"

definition retag_failed :: "retag_error \<Rightarrow> bool \<Rightarrow> int option \<Rightarrow> job_event list" where
  "retag_failed e preflight run_id =
     [JobProgress (retag_failure_progress e preflight),
      JobUpdate [SetStatus JobFailure, SetRunId run_id, SetFinishedAt, SetError (re_message e)]]"

definition retag_job_events :: "retag_outcome \<Rightarrow> job_event list" where
  "retag_job_events out =
     [job_started, JobProgress (job_report ''preflight'' ''running'' ''Revalidating the selected retag plan.'')] @
     (case ro_plan_error out of
        Some e \<Rightarrow> retag_failed e True None
      | None \<Rightarrow>
          JobProgress (job_report ''preflight'' ''success'' ''Selected retag plan revalidated.'') #
          (case ro_audit_error out of
             Some e \<Rightarrow> retag_failed e False None
           | None \<Rightarrow>
               map JobProgress (ro_reports out) @
               (case ro_apply_error out of
                  Some e \<Rightarrow> retag_failed e False (Some (ro_run_id out))
                | None \<Rightarrow>
                    [JobProgress (job_report ''completion'' ''success'' ''Retag changes applied.''),
                     JobUpdate [SetStatus JobSuccess, SetRunId (Some (ro_run_id out)), SetFinishedAt]])))"

text \<open>
  \<open>_run_tracking_repair\<close>: \<open>to_failed\<close> is the number of progress reports made before an error, if one
  came, with its text. The run is recorded after the second report.
\<close>

record tracking_outcome =
  to_failed :: "(nat \<times> string) option"
  to_recorded :: bool
  to_run_id :: int
  to_rollback_error :: string
  to_audit_error :: "string option"

definition tracking_reports :: "progress_report list" where
  "tracking_reports =
     [job_report ''preflight'' ''running'' ''Revalidating Compose and runtime state.'',
      job_report ''preflight'' ''success'' ''Selected service and plan revalidated.'',
      job_report ''compose'' ''running'' ''Writing the tracking label in Compose.'',
      job_report ''compose'' ''success'' ''Tracking label written; image unchanged.'',
      job_report ''recreate'' ''running'' ''Recreating only the selected service without a pull.'',
      job_report ''recreate'' ''success'' ''Selected service is running after recreation.'',
      job_report ''completion'' ''success'' ''Tracking label repaired and service recreated.'']"

definition tracking_run_id :: "tracking_outcome \<Rightarrow> nat \<Rightarrow> int option" where
  "tracking_run_id out reports =
     (if 2 < reports \<or> reports = 2 \<and> to_recorded out then Some (to_run_id out) else None)"

definition tracking_error :: "tracking_outcome \<Rightarrow> nat \<Rightarrow> string \<Rightarrow> string" where
  "tracking_error out reports err =
     err
     @ (if to_rollback_error out = '''' then ''''
        else ''; '' @ to_rollback_error out @ ''. Compose backup was preserved for manual recovery'')
     @ (if tracking_run_id out reports = None then ''''
        else case to_audit_error out of None \<Rightarrow> '''' | Some a \<Rightarrow> ''; '' @ a)"

definition tracking_job_events :: "tracking_outcome \<Rightarrow> job_event list" where
  "tracking_job_events out =
     job_started #
     (case to_failed out of
        Some (n, err) \<Rightarrow>
          let reports = max 1 (min n 6)
          in map JobProgress (take reports tracking_reports) @
             [JobProgress (job_report ''completion'' ''failure'' (tracking_error out reports err)),
              JobUpdate [SetStatus JobFailure, SetRunId (tracking_run_id out reports), SetFinishedAt,
                SetError (tracking_error out reports err)]]
      | None \<Rightarrow>
          map JobProgress tracking_reports @
          [JobUpdate [SetStatus JobSuccess, SetRunId (Some (to_run_id out)), SetFinishedAt]])"

text \<open>
  \<open>_run_security_scan_job\<close>: it cannot list the images, stops with an error after some of them, or
  scans them all.
\<close>

datatype scan_outcome = ContextFailed string | ScanStopped nat nat string | ScanDone nat

definition scan_counts :: "nat \<Rightarrow> nat \<Rightarrow> scan_change list list" where
  "scan_counts n k = [ScanTotal n] # map (\<lambda>i. [ScanCompleted (Suc i)]) [0..<k]"

definition scan_failed :: "string \<Rightarrow> scan_change list" where
  "scan_failed err = [ScanStatus JobFailure, ScanError err]"

fun scan_job_events :: "scan_outcome \<Rightarrow> scan_change list list" where
  "scan_job_events (ContextFailed err) = [[ScanStatus JobRunning], scan_failed err]"
| "scan_job_events (ScanStopped n k err) =
     [ScanStatus JobRunning] # scan_counts n (min k n) @ [scan_failed err]"
| "scan_job_events (ScanDone n) = [ScanStatus JobRunning] # scan_counts n n @ [[ScanStatus JobSuccess]]"

end
