(* ===== verification/Web_Job_Steps.thy ===== *)
theory Web_Job_Steps
  imports Web_Jobs
begin

text \<open>
  The web application as a step relation: requests submit jobs and reserve the gate, background
  functions make their registry calls one at a time, in any interleaving. The theorems say that one
  mutation runs at a time, that the registry stays bounded and never drops an unfinished job, and that
  every background function leaves its job finished.
\<close>

section \<open>Programs that finish their job\<close>

text \<open>The status an event leaves, when it sets one.\<close>

fun change_status :: "job_change \<Rightarrow> job_status option" where
  "change_status (SetStatus s) = Some s"
| "change_status _ = None"

fun last_status :: "job_status option \<Rightarrow> job_change list \<Rightarrow> job_status option" where
  "last_status acc [] = acc"
| "last_status acc (c # cs) = last_status (case change_status c of None \<Rightarrow> acc | Some s \<Rightarrow> Some s) cs"

fun event_status :: "job_event \<Rightarrow> job_status option" where
  "event_status (JobUpdate cs) = last_status None cs"
| "event_status (JobProgress r) = None"

fun scan_status :: "scan_change list \<Rightarrow> job_status option" where
  "scan_status [] = None"
| "scan_status (c # cs) = (case scan_status cs of None \<Rightarrow> (case c of ScanStatus s \<Rightarrow> Some s | _ \<Rightarrow> None) | Some s \<Rightarrow> Some s)"

definition status_set :: "job_status option \<Rightarrow> job_status \<Rightarrow> job_status" where
  "status_set new old = (case new of None \<Rightarrow> old | Some s \<Rightarrow> s)"

text \<open>The last event finishes the job, the others leave it active.\<close>

fun finishes :: "('e \<Rightarrow> job_status option) \<Rightarrow> 'e list \<Rightarrow> bool" where
  "finishes status [] = False"
| "finishes status [e] = (\<exists>s \<in> set_option (status e). terminal_status s)"
| "finishes status (e # es) = ((\<forall>s \<in> set_option (status e). s = JobRunning) \<and> finishes status es)"

lemma finishes_Cons:
  "es \<noteq> [] \<Longrightarrow> finishes status (e # es) = ((\<forall>s \<in> set_option (status e). s = JobRunning) \<and> finishes status es)"
  by (cases es) auto

lemma finishes_append:
  "\<forall>e \<in> set es. \<forall>s \<in> set_option (status e). s = JobRunning \<Longrightarrow> es' \<noteq> [] \<Longrightarrow>
   finishes status (es @ es') = finishes status es'"
  by (induction es) (auto simp: finishes_Cons)

lemma last_status_acc: "last_status acc cs = (case last_status None cs of None \<Rightarrow> acc | Some s \<Rightarrow> Some s)"
proof (induction cs arbitrary: acc)
  case (Cons c cs)
  show ?case
    using Cons [of "case change_status c of None \<Rightarrow> acc | Some s \<Rightarrow> Some s"] Cons [of "change_status c"]
    by (auto split: option.splits)
qed simp

lemma aj_status_changes: "aj_status (fold (apply_change now) cs j) = status_set (last_status None cs) (aj_status j)"
proof (induction cs arbitrary: j)
  case (Cons c cs)
  show ?case
    by (cases c) (simp_all add: Cons status_set_def last_status_acc [of "Some _" cs] split: option.split)
qed (simp add: status_set_def)

lemma aj_status_event: "aj_status (event_job now e j) = status_set (event_status e) (aj_status j)"
  by (cases e) (simp_all add: changed_job_def progressed_job_def Let_def aj_status_changes status_set_def)

lemma sj_status_changes: "sj_status (fold scan_apply cs j) = status_set (scan_status cs) (sj_status j)"
proof (induction cs arbitrary: j)
  case (Cons c cs)
  then show ?case by (cases c) (auto simp: status_set_def split: option.split)
qed (simp add: status_set_def)

text \<open>Every background function finishes its job, whatever happens to it.\<close>

datatype background = ApplyJob apply_outcome | RetagJob retag_outcome | TrackingJob tracking_outcome

fun job_events :: "background \<Rightarrow> job_event list" where
  "job_events (ApplyJob out) = apply_job_events out"
| "job_events (RetagJob out) = retag_job_events out"
| "job_events (TrackingJob out) = tracking_job_events out"

fun submit :: "background \<Rightarrow> string \<Rightarrow> nat list \<Rightarrow> bool \<Rightarrow> web_state \<Rightarrow> (http_error + apply_job) \<times> web_state" where
  "submit (ApplyJob out) i lines accepted s = submit_apply_job i lines accepted s"
| "submit (RetagJob out) i lines accepted s = submit_retag_apply_job i accepted s"
| "submit (TrackingJob out) i lines accepted s = submit_tracking_repair True True i accepted s"

lemma finishes_reports: "es \<noteq> [] \<Longrightarrow> finishes event_status (map JobProgress rs @ es) = finishes event_status es"
  by (subst finishes_append) auto

lemma event_statuses [simp]:
  "event_status job_started = Some JobRunning"
  "event_status (job_finished s rid f err) = Some s"
  "event_status job_incomplete = Some JobFailure"
  by (simp_all add: job_started_def job_finished_def job_incomplete_def)

lemma job_events_finish: "finishes event_status (job_events b)"
proof (cases b)
  case (ApplyJob out)
  show ?thesis
    by (cases "ao_setup_error out"; cases "ao_result out"; cases "ao_refresh out"; cases "ao_schedule_error out")
      (simp_all add: ApplyJob apply_job_events_def finishes_reports finishes_Cons apply_job_failed_def)
next
  case (RetagJob out)
  show ?thesis
    by (cases "ro_plan_error out"; cases "ro_audit_error out"; cases "ro_apply_error out")
      (simp_all add: RetagJob retag_job_events_def finishes_reports finishes_Cons retag_failed_def)
next
  case (TrackingJob out)
  show ?thesis
    by (cases "to_failed out")
      (auto simp: TrackingJob tracking_job_events_def finishes_reports finishes_Cons Let_def)
qed

lemma scan_events_finish: "finishes scan_status (scan_job_events out)"
proof -
  have *: "es \<noteq> [] \<Longrightarrow> finishes scan_status (scan_counts n k @ es) = finishes scan_status es" for n k es
    by (rule finishes_append) (auto simp: scan_counts_def)
  show ?thesis by (cases out) (simp_all add: finishes_Cons * scan_failed_def scan_counts_def [symmetric])
qed

section \<open>Registries and their unfinished tasks\<close>

text \<open>
  The active jobs of a registry are those of the tasks still to finish, and the rest of each task
  finishes its job.
\<close>

definition tracks :: "('j \<Rightarrow> job_status) \<Rightarrow> ('e \<Rightarrow> job_status option) \<Rightarrow> 'j registry \<Rightarrow> (string \<times> 'e list) list \<Rightarrow> bool" where
  "tracks st status jobs tasks \<longleftrightarrow>
     distinct (map fst jobs) \<and> length jobs \<le> 20 \<and>
     (\<forall>(i, j) \<in> set jobs. active_status (st j) = (i \<in> fst ` set tasks)) \<and>
     (\<forall>(i, es) \<in> set tasks. finishes status es \<and> i \<in> fst ` set jobs)"

lemma terminal_iff: "terminal_status s = (\<not> active_status s)"
  by (cases s) auto

lemma tracks_idle: "tracks st status jobs tasks \<Longrightarrow> any_active st jobs = (tasks \<noteq> [])"
  by (cases tasks) (fastforce simp: tracks_def any_active_def list_ex_iff)+

lemma tracks_terminal: "tracks st status jobs [] \<Longrightarrow> terminal_ids st jobs = map fst jobs"
  by (auto simp: tracks_def terminal_ids_def terminal_iff intro!: arg_cong [of _ _ "map fst"] filter_True)

lemma pop_all_take: "distinct (map fst jobs) \<Longrightarrow> pop_all (take k (map fst jobs)) jobs = drop k jobs"
proof (induction jobs arbitrary: k)
  case (Cons j jobs)
  have id: "filter (\<lambda>(i, _). i \<noteq> fst j \<and> i \<notin> A) jobs = filter (\<lambda>(i, _). i \<notin> A) jobs" for A
    using Cons.prems by (intro filter_cong) (auto simp: image_iff)
  show ?case
  proof (cases k)
    case (Suc n)
    then show ?thesis using Cons id by (simp add: pop_all_def case_prod_beta)
  qed (simp add: pop_all_def)
qed (simp add: pop_all_def)

lemma tracks_drop: "tracks st status jobs [] \<Longrightarrow> tracks st status (drop k jobs) []"
  by (auto simp: tracks_def distinct_drop drop_map [symmetric] dest: in_set_dropD)

lemma update_fresh: "i \<notin> fst ` set jobs \<Longrightarrow> AList.update i j jobs = jobs @ [(i, j)]"
  by (induction jobs) auto

lemma delete_fresh: "i \<notin> fst ` set jobs \<Longrightarrow> AList.delete i (jobs @ [(i, j)]) = jobs"
  by (induction jobs) (auto simp: AList.delete_eq)

lemma tracks_add:
  assumes "tracks st status jobs []" "i \<notin> fst ` set jobs" "active_status (st j)" "finishes status es"
  shows "tracks st status (drop (length jobs + 1 - 20) jobs @ [(i, j)]) [(i, es)]"
proof -
  have new: "(i, b) \<notin> set (drop k jobs)" for k b using assms(2) by (force dest: in_set_dropD)
  from tracks_drop [OF assms(1), of "length jobs + 1 - 20"] show ?thesis
    using assms(2-4) by (auto simp: tracks_def image_iff new)
qed

lemma registry_keys_update: "map_of jobs i = Some j \<Longrightarrow> map fst (AList.update i j' jobs) = map fst jobs"
  by (induction jobs) (auto split: if_splits)

lemma update_entry:
  "distinct (map fst jobs) \<Longrightarrow> (k, x) \<in> set (AList.update i j' jobs) \<Longrightarrow> k = i \<and> x = j' \<or> k \<noteq> i \<and> (k, x) \<in> set jobs"
  by (induction jobs) (auto simp: image_iff split: if_splits)

lemma tracks_work:
  assumes t: "tracks st status jobs [(i, e # es)]" and j: "map_of jobs i = Some j"
    and st: "st j' = status_set (status e) (st j)"
  shows "tracks st status (AList.update i j' jobs) (if es = [] then [] else [(i, es)])"
proof -
  have d: "distinct (map fst jobs)" and f: "finishes status (e # es)" and l: "length jobs \<le> 20"
    using t by (auto simp: tracks_def)
  have act: "active_status (st j)" using t map_of_SomeD [OF j] by (auto simp: tracks_def)
  have keys: "map fst (AList.update i j' jobs) = map fst jobs" using registry_keys_update [OF j] .
  then have len: "length (AList.update i j' jobs) \<le> 20" using l by (metis length_map)
  have dom: "i \<in> fst ` set (AList.update i j' jobs)" by (simp add: dom_update)
  have "active_status (st j') = (es \<noteq> [])"
    using f act by (cases es; cases "status e") (auto simp: st status_set_def terminal_iff)
  moreover have "\<forall>(k, x) \<in> set jobs. k \<noteq> i \<longrightarrow> \<not> active_status (st x)"
    using t by (auto simp: tracks_def)
  ultimately have "\<forall>(k, x) \<in> set (AList.update i j' jobs). active_status (st x) = (k = i \<and> es \<noteq> [])"
    using update_entry [OF d] by (fastforce)
  moreover have "es \<noteq> [] \<Longrightarrow> finishes status es" using f by (cases es) auto
  ultimately show ?thesis
    using d keys len dom by (auto simp: tracks_def)
qed

section \<open>The application\<close>

text \<open>
  The state, the rest of each background function, and how many requests hold each reservation. A
  submitted identifier is fresh, as a random token is.
\<close>

record service =
  sv_state :: web_state
  sv_tasks :: "(string \<times> job_event list) list"
  sv_self_updates :: nat
  sv_restarts :: nat
  sv_scans :: "(string \<times> scan_change list list) list"

definition initial_service :: service where
  "initial_service = \<lparr>sv_state = initialize_apply_job_state, sv_tasks = [], sv_self_updates = 0,
     sv_restarts = 0, sv_scans = []\<rparr>"

definition rest_of :: "string \<Rightarrow> 'e list \<Rightarrow> (string \<times> 'e list) list" where
  "rest_of i es = (if es = [] then [] else [(i, es)])"

inductive web_step :: "service \<Rightarrow> service \<Rightarrow> bool" where
  submitted: "submit b i lines True (sv_state w) = (Inr job, s') \<Longrightarrow> i \<notin> fst ` set (ws_jobs (sv_state w)) \<Longrightarrow>
    web_step w (w\<lparr>sv_state := s', sv_tasks := sv_tasks w @ [(i, job_events b)]\<rparr>)"
| refused: "submit b i lines False (sv_state w) = (Inl e, s') \<Longrightarrow> i \<notin> fst ` set (ws_jobs (sv_state w)) \<Longrightarrow>
    web_step w (w\<lparr>sv_state := s'\<rparr>)"
| worked: "sv_tasks w = before @ (i, e # es) # after \<Longrightarrow>
    web_step w (w\<lparr>sv_state := run_job_event now i e (sv_state w), sv_tasks := before @ rest_of i es @ after\<rparr>)"
| self_reserved: "reserve_self_update (sv_state w) = Inr ('''', s') \<Longrightarrow>
    web_step w (w\<lparr>sv_state := s', sv_self_updates := Suc (sv_self_updates w)\<rparr>)"
| self_released: "0 < sv_self_updates w \<Longrightarrow>
    web_step w (w\<lparr>sv_state := release_self_update (sv_state w), sv_self_updates := sv_self_updates w - 1\<rparr>)"
| restart_reserved: "reserve_container_restart (sv_state w) = Inr ('''', s') \<Longrightarrow>
    web_step w (w\<lparr>sv_state := s', sv_restarts := Suc (sv_restarts w)\<rparr>)"
| restart_released: "0 < sv_restarts w \<Longrightarrow>
    web_step w (w\<lparr>sv_state := release_container_restart (sv_state w), sv_restarts := sv_restarts w - 1\<rparr>)"
| scan_submitted: "refresh_security_scans True True i True (sv_state w) = (Inr sj, s') \<Longrightarrow>
    i \<notin> fst ` set (ws_scans (sv_state w)) \<Longrightarrow>
    web_step w (w\<lparr>sv_state := s', sv_scans := sv_scans w @ [(i, scan_job_events so)]\<rparr>)"
| scan_refused: "refresh_security_scans True True i False (sv_state w) = (Inl e, s') \<Longrightarrow>
    i \<notin> fst ` set (ws_scans (sv_state w)) \<Longrightarrow> web_step w (w\<lparr>sv_state := s'\<rparr>)"
| scan_worked: "sv_scans w = before @ (i, c # cs) # after \<Longrightarrow>
    web_step w (w\<lparr>sv_state := run_scan_event i c (sv_state w), sv_scans := before @ rest_of i cs @ after\<rparr>)"

definition mutations :: "service \<Rightarrow> nat" where
  "mutations w = length (sv_tasks w) + sv_self_updates w + sv_restarts w + length (sv_scans w)"

definition gate_ok :: "service \<Rightarrow> bool" where
  "gate_ok w \<longleftrightarrow>
     tracks aj_status event_status (ws_jobs (sv_state w)) (sv_tasks w) \<and>
     tracks sj_status scan_status (ws_scans (sv_state w)) (sv_scans w) \<and>
     ws_self_update (sv_state w) = (0 < sv_self_updates w) \<and>
     ws_restart (sv_state w) = (0 < sv_restarts w) \<and> mutations w \<le> 1"

lemma gate_closed: "gate_ok w \<Longrightarrow> (active_mutation_error True (sv_state w) = '''') = (mutations w = 0)"
  unfolding gate_ok_def active_mutation_error_def active_security_scan_error_def mutations_def
  by (clarsimp simp: tracks_idle)

lemma gate_closed_no_scans:
  "gate_ok w \<Longrightarrow> active_mutation_error False (sv_state w) = '''' \<Longrightarrow> mutations w = length (sv_scans w)"
  unfolding gate_ok_def active_mutation_error_def mutations_def
  by (clarsimp simp: tracks_idle split: if_splits)

lemma singleton_task: "xs @ y # ys = zs \<Longrightarrow> length zs \<le> 1 \<Longrightarrow> xs = [] \<and> ys = []"
  by auto

text \<open>The three background jobs are submitted the same way.\<close>

lemma submit_cases:
  "\<exists>lines'. submit b i lines accepted s = submit_apply_job i lines' accepted s"
  by (cases b) (auto simp: submit_retag_apply_job_def submit_tracking_repair_def)

lemma submit_apply_job_outcome:
  assumes "submit_apply_job i lines accepted s = (r, s')"
    and "tracks aj_status event_status (ws_jobs s) []" "i \<notin> fst ` set (ws_jobs s)"
  shows "s' = s \<and> active_mutation_error True s \<noteq> '''' \<and> isl r \<or>
    active_mutation_error True s = '''' \<and> isl r = (\<not> accepted) \<and>
    s' = s\<lparr>ws_jobs := drop (length (ws_jobs s) + 1 - 20) (ws_jobs s) @
           (if accepted then [(i, queued_job i lines)] else [])\<rparr>"
proof -
  have d: "distinct (map fst (ws_jobs s))" using assms(2) by (simp add: tracks_def)
  define kept where "kept = drop (length (ws_jobs s) + 1 - 20) (ws_jobs s)"
  have new: "i \<notin> fst ` set kept" using assms(3) by (force simp: kept_def dest: in_set_dropD)
  have "register_apply_job (queued_job i lines) (ws_jobs s) = kept @ [(i, queued_job i lines)]"
    unfolding register_apply_job_def WEB_APPLY_JOB_LIMIT_def tracks_terminal [OF assms(2)] pop_all_take [OF d]
      kept_def [symmetric] using update_fresh [OF new] by (simp add: queued_job_def)
  moreover have "AList.delete i (kept @ [(i, j)]) = kept" for j
    by (rule delete_fresh [OF new])
  ultimately show ?thesis
    using assms(1) by (auto simp: submit_apply_job_def Let_def kept_def split: if_splits)
qed

lemma prune_added:
  assumes "tracks sj_status status jobs []" "i \<notin> fst ` set jobs"
  shows "prune_security_scan_jobs (AList.update i (queued_scan i) jobs) =
    drop (length jobs + 1 - 20) jobs @ [(i, queued_scan i)]"
proof -
  have d: "distinct (map fst jobs)" using assms(1) by (simp add: tracks_def)
  have t: "terminal_ids sj_status (jobs @ [(i, queued_scan i)]) = map fst jobs"
    using tracks_terminal [OF assms(1)] by (simp add: terminal_ids_def queued_scan_def)
  have "i \<notin> set (take k (map fst jobs))" for k using assms(2) by (auto dest: in_set_takeD)
  then have "pop_all (take k (map fst jobs)) (jobs @ [(i, x)]) = drop k jobs @ [(i, x)]" for k x
    using pop_all_take [OF d, of k] by (simp add: pop_all_def)
  then show ?thesis
    by (auto simp: prune_security_scan_jobs_def SECURITY_SCAN_JOBS_KEPT_def update_fresh [OF assms(2)] t)
qed

lemma refresh_outcome:
  assumes "refresh_security_scans True True i accepted s = (r, s')"
    and "tracks sj_status status (ws_scans s) []" "i \<notin> fst ` set (ws_scans s)"
  shows "s' = s \<and> isl r \<or>
    active_mutation_error False s = '''' \<and> isl r = (\<not> accepted) \<and>
    s' = s\<lparr>ws_scans := drop (length (ws_scans s) + 1 - 20) (ws_scans s) @
           (if accepted then [(i, queued_scan i)] else [])\<rparr>"
proof -
  have "i \<notin> fst ` set (drop k (ws_scans s))" for k using assms(3) by (force dest: in_set_dropD)
  from delete_fresh [OF this] show ?thesis
    using assms(1) tracks_idle [OF assms(2)] prune_added [OF assms(2,3)]
    unfolding refresh_security_scans_def reserve_mutation_state_def reserve_scan_job_def Let_def
    by (auto split: if_splits)
qed

lemma scans_tracked_no_change:
  "tracks sj_status status jobs tasks \<Longrightarrow> prune_security_scan_jobs jobs = jobs"
  by (simp add: tracks_def prune_security_scan_jobs_def SECURITY_SCAN_JOBS_KEPT_def)

section \<open>The invariant\<close>

lemma gate_idle: "gate_ok w \<Longrightarrow> mutations w = 0 \<Longrightarrow> sv_tasks w = [] \<and> sv_scans w = [] \<and> sv_self_updates w = 0 \<and> sv_restarts w = 0"
  by (simp add: mutations_def)

lemma tracked_task: "tracks st status jobs [(i, es)] \<Longrightarrow> \<exists>j. map_of jobs i = Some j"
  by (auto simp: tracks_def dest!: weak_map_of_SomeI)

lemma queued_active [simp]: "active_status (aj_status (queued_job i lines))" "active_status (sj_status (queued_scan i))"
  by (simp_all add: queued_job_def queued_scan_def)

lemma step_submitted:
  assumes g: "gate_ok w" and s: "submit b i lines True (sv_state w) = (Inr job, s')" and i: "i \<notin> fst ` set (ws_jobs (sv_state w))"
  shows "gate_ok (w\<lparr>sv_state := s', sv_tasks := sv_tasks w @ [(i, job_events b)]\<rparr>)"
proof -
  obtain lines' where sub: "submit_apply_job i lines' True (sv_state w) = (Inr job, s')" using submit_cases s by metis
  have "active_mutation_error True (sv_state w) = ''''"
    using sub by (auto simp: submit_apply_job_def Let_def split: if_splits)
  then have m: "mutations w = 0" using gate_closed [OF g] by simp
  note idle = gate_idle [OF g m]
  have t: "tracks aj_status event_status (ws_jobs (sv_state w)) []" using g idle by (simp add: gate_ok_def)
  from submit_apply_job_outcome [OF sub t i] have
    "s' = sv_state w\<lparr>ws_jobs := drop (length (ws_jobs (sv_state w)) + 1 - 20) (ws_jobs (sv_state w)) @ [(i, queued_job i lines')]\<rparr>"
    by auto
  with tracks_add [OF t i, of "queued_job i lines'" "job_events b"] job_events_finish g idle show ?thesis
    by (simp add: gate_ok_def mutations_def)
qed

lemma step_refused:
  assumes g: "gate_ok w" and s: "submit b i lines False (sv_state w) = (r, s')" and i: "i \<notin> fst ` set (ws_jobs (sv_state w))"
  shows "gate_ok (w\<lparr>sv_state := s'\<rparr>)"
proof (cases "active_mutation_error True (sv_state w) = ''''")
  case True
  obtain lines' where sub: "submit_apply_job i lines' False (sv_state w) = (r, s')" using submit_cases s by metis
  have m: "mutations w = 0" using gate_closed [OF g] True by simp
  note idle = gate_idle [OF g m]
  have t: "tracks aj_status event_status (ws_jobs (sv_state w)) []" using g idle by (simp add: gate_ok_def)
  from submit_apply_job_outcome [OF sub t i] True have
    "s' = sv_state w\<lparr>ws_jobs := drop (length (ws_jobs (sv_state w)) + 1 - 20) (ws_jobs (sv_state w))\<rparr>"
    by auto
  with tracks_drop [OF t] g idle show ?thesis by (simp add: gate_ok_def mutations_def)
next
  case False
  obtain lines' where "submit_apply_job i lines' False (sv_state w) = (r, s')" using submit_cases s by metis
  then have "s' = sv_state w" using False by (auto simp: submit_apply_job_def Let_def)
  then show ?thesis using g by simp
qed

lemma step_worked:
  assumes g: "gate_ok w" and t: "sv_tasks w = before @ (i, e # es) # after"
  shows "gate_ok (w\<lparr>sv_state := run_job_event now i e (sv_state w), sv_tasks := before @ rest_of i es @ after\<rparr>)"
proof -
  have m: "length (sv_tasks w) \<le> 1" and one: "sv_self_updates w = 0" "sv_restarts w = 0" "sv_scans w = []"
    using g t by (auto simp: gate_ok_def mutations_def)
  from singleton_task [OF t [symmetric] m] t have e: "before = []" "after = []" and t': "sv_tasks w = [(i, e # es)]" by auto
  have tr: "tracks aj_status event_status (ws_jobs (sv_state w)) [(i, e # es)]" using g t' by (simp add: gate_ok_def)
  from tracked_task [OF tr] obtain j where j: "map_of (ws_jobs (sv_state w)) i = Some j" ..
  from tracks_work [OF tr j aj_status_event] j g e one show ?thesis
    by (simp add: gate_ok_def mutations_def run_job_event_def update_apply_job_def rest_of_def)
qed

lemma step_scan_worked:
  assumes g: "gate_ok w" and t: "sv_scans w = before @ (i, c # cs) # after"
  shows "gate_ok (w\<lparr>sv_state := run_scan_event i c (sv_state w), sv_scans := before @ rest_of i cs @ after\<rparr>)"
proof -
  have m: "length (sv_scans w) \<le> 1" and one: "sv_self_updates w = 0" "sv_restarts w = 0" "sv_tasks w = []"
    using g t by (auto simp: gate_ok_def mutations_def)
  from singleton_task [OF t [symmetric] m] t have e: "before = []" "after = []" and t': "sv_scans w = [(i, c # cs)]" by auto
  have tr: "tracks sj_status scan_status (ws_scans (sv_state w)) [(i, c # cs)]" using g t' by (simp add: gate_ok_def)
  from tracked_task [OF tr] obtain j where j: "map_of (ws_scans (sv_state w)) i = Some j" ..
  note tr' = tracks_work [OF tr j sj_status_changes]
  from tr' scans_tracked_no_change [OF tr'] j g e one show ?thesis
    by (simp add: gate_ok_def mutations_def run_scan_event_def rest_of_def)
qed

lemma step_scan_submitted:
  assumes g: "gate_ok w" and s: "refresh_security_scans True True i accepted (sv_state w) = (r, s')"
    and i: "i \<notin> fst ` set (ws_scans (sv_state w))" and acc: "isl r = (\<not> accepted)"
  shows "gate_ok (w\<lparr>sv_state := s', sv_scans := sv_scans w @ (if accepted then [(i, scan_job_events so)] else [])\<rparr>)"
proof (cases "sv_scans w = []")
  case True
  have t: "tracks sj_status scan_status (ws_scans (sv_state w)) []" using g True by (simp add: gate_ok_def)
  from refresh_outcome [OF s t i] show ?thesis
  proof
    assume c: "active_mutation_error False (sv_state w) = '''' \<and> isl r = (\<not> accepted) \<and>
      s' = sv_state w\<lparr>ws_scans := drop (length (ws_scans (sv_state w)) + 1 - 20) (ws_scans (sv_state w)) @
        (if accepted then [(i, queued_scan i)] else [])\<rparr>"
    then have "mutations w = 0" using gate_closed_no_scans [OF g] True by simp
    with c tracks_drop [OF t] tracks_add [OF t i, of "queued_scan i" "scan_job_events so"] g True show ?thesis
      by (auto simp: gate_ok_def mutations_def scan_events_finish)
  qed (use g acc in \<open>auto split: if_splits\<close>)
next
  case False
  then have "any_active sj_status (ws_scans (sv_state w))" using g tracks_idle by (auto simp: gate_ok_def)
  then have "s' = sv_state w \<and> isl r"
    using s by (auto simp: refresh_security_scans_def reserve_mutation_state_def reserve_scan_job_def Let_def split: if_splits)
  then show ?thesis using g acc by simp
qed

lemma gate_reserved:
  assumes g: "gate_ok w" and r: "reserve_mutation_state reserve True (sv_state w) = Inr ('''', s')"
  shows "reserve (sv_state w) = Inr s' \<and> sv_tasks w = [] \<and> sv_scans w = [] \<and> sv_self_updates w = 0 \<and> sv_restarts w = 0"
proof -
  have "active_mutation_error True (sv_state w) = ''''" and "reserve (sv_state w) = Inr s'"
    using r by (auto simp: reserve_mutation_state_def Let_def split: if_splits sum.splits)
  then show ?thesis using gate_closed [OF g] gate_idle [OF g] by blast
qed

lemma step_reserved:
  assumes g: "gate_ok w"
  shows "reserve_self_update (sv_state w) = Inr ('''', s') \<Longrightarrow>
      gate_ok (w\<lparr>sv_state := s', sv_self_updates := Suc (sv_self_updates w)\<rparr>)"
    and "reserve_container_restart (sv_state w) = Inr ('''', s') \<Longrightarrow>
      gate_ok (w\<lparr>sv_state := s', sv_restarts := Suc (sv_restarts w)\<rparr>)"
  unfolding reserve_self_update_def reserve_container_restart_def
  using g by (auto dest!: gate_reserved [OF g] simp: gate_ok_def mutations_def)

lemma step_released:
  assumes g: "gate_ok w"
  shows "0 < sv_self_updates w \<Longrightarrow>
      gate_ok (w\<lparr>sv_state := release_self_update (sv_state w), sv_self_updates := sv_self_updates w - 1\<rparr>)"
    and "0 < sv_restarts w \<Longrightarrow>
      gate_ok (w\<lparr>sv_state := release_container_restart (sv_state w), sv_restarts := sv_restarts w - 1\<rparr>)"
  using g by (auto simp: release_self_update_def release_container_restart_def gate_ok_def mutations_def)

lemma step_gate_ok:
  assumes step: "web_step w w'" and g: "gate_ok w"
  shows "gate_ok w'"
  using step
proof (cases rule: web_step.cases)
  case (submitted b i lines job s')
  then show ?thesis using step_submitted [OF g] by simp
next
  case (refused b i lines e s')
  then show ?thesis using step_refused [OF g] by simp
next
  case (worked before i e es after now)
  then show ?thesis using step_worked [OF g] by simp
next
  case (scan_submitted i sj s' so)
  then show ?thesis using step_scan_submitted [OF g scan_submitted(2,3)] by simp
next
  case (scan_refused i e s')
  then show ?thesis using step_scan_submitted [OF g scan_refused(2,3)] by simp
next
  case (scan_worked before i c cs after)
  then show ?thesis using step_scan_worked [OF g] by simp
next
  case self_released
  then show ?thesis using step_released(1) [OF g] by simp
next
  case restart_released
  then show ?thesis using step_released(2) [OF g] by simp
qed (simp_all add: step_reserved [OF g])

lemma initial_gate_ok: "gate_ok initial_service"
  by (simp add: gate_ok_def initial_service_def initialize_apply_job_state_def tracks_def mutations_def)

lemma reachable_gate_ok: "web_step\<^sup>*\<^sup>* initial_service w \<Longrightarrow> gate_ok w"
  by (induction rule: rtranclp_induct) (auto intro: initial_gate_ok step_gate_ok)

section \<open>One mutation at a time\<close>

definition active_jobs :: "('j \<Rightarrow> job_status) \<Rightarrow> 'j registry \<Rightarrow> string list" where
  "active_jobs st jobs = map fst (filter (\<lambda>(_, j). active_status (st j)) jobs)"

definition running_mutations :: "web_state \<Rightarrow> nat" where
  "running_mutations s = length (active_jobs aj_status (ws_jobs s)) + of_bool (ws_self_update s)
     + of_bool (ws_restart s) + length (active_jobs sj_status (ws_scans s))"

lemma tracks_active:
  assumes t: "tracks st status jobs tasks" and one: "length tasks \<le> 1"
  shows "length (active_jobs st jobs) = length tasks"
proof -
  have "distinct (active_jobs st jobs)"
    using t by (auto simp: tracks_def active_jobs_def distinct_map_filter)
  moreover have "set (active_jobs st jobs) = fst ` set tasks"
    using t by (force simp: tracks_def active_jobs_def)
  moreover have "distinct (map fst tasks)" using one by (cases tasks) auto
  ultimately show ?thesis by (metis distinct_card length_map set_map)
qed

lemma gate_ok_mutations: "gate_ok w \<Longrightarrow> running_mutations (sv_state w) = mutations w"
  using tracks_active [of aj_status event_status] tracks_active [of sj_status scan_status]
  by (fastforce simp: gate_ok_def running_mutations_def mutations_def of_bool_def)

text \<open>C22: In every reachable state at most one of the following is under way: one queued or running
  job (an apply, a retag or a tracking repair), one self-update, one container restart, or one security
  scan; both registries hold at most twenty jobs, each under its own identifier.\<close>

theorem one_mutation_at_a_time:
  assumes "web_step\<^sup>*\<^sup>* initial_service w"
  shows "running_mutations (sv_state w) \<le> 1 \<and>
    length (ws_jobs (sv_state w)) \<le> 20 \<and> distinct (map fst (ws_jobs (sv_state w))) \<and>
    length (ws_scans (sv_state w)) \<le> 20 \<and> distinct (map fst (ws_scans (sv_state w)))"
  using reachable_gate_ok [OF assms] gate_ok_mutations [OF reachable_gate_ok [OF assms]]
  by (simp add: gate_ok_def tracks_def)

definition demo_outcome :: apply_outcome where
  "demo_outcome = \<lparr>ao_setup_error = None, ao_log_file = ''run.log'', ao_run_id = Some 7, ao_reports = [],
     ao_result = Returned 3, ao_refresh = None, ao_schedule_error = None, ao_handler_fails = False\<rparr>"

definition demo_submitted :: service where
  "demo_submitted = initial_service\<lparr>
     sv_state := snd (submit_apply_job ''j1'' [4] True (sv_state initial_service)),
     sv_tasks := [(''j1'', apply_job_events demo_outcome)]\<rparr>"

lemma demo_step: "web_step initial_service demo_submitted"
proof -
  have "submit (ApplyJob demo_outcome) ''j1'' [4] True (sv_state initial_service) =
      (Inr (queued_job ''j1'' [4]), snd (submit_apply_job ''j1'' [4] True (sv_state initial_service)))"
    and "''j1'' \<notin> fst ` set (ws_jobs (sv_state initial_service))"
    by code_simp+
  from web_step.submitted [OF this] show ?thesis by (simp add: demo_submitted_def initial_service_def)
qed

theorem one_mutation_at_a_time_witness:
  "map fst (ws_jobs (sv_state demo_submitted)) = [''j1''] \<and> running_mutations (sv_state demo_submitted) \<le> 1"
proof
  show "map fst (ws_jobs (sv_state demo_submitted)) = [''j1'']" by code_simp
  show "running_mutations (sv_state demo_submitted) \<le> 1"
    using one_mutation_at_a_time [OF r_into_rtranclp [of web_step, OF demo_step]] by blast
qed

section \<open>The history of a job\<close>

definition follows :: "apply_job \<Rightarrow> apply_job \<Rightarrow> bool" where
  "follows j j' \<longleftrightarrow>
     aj_id j' = aj_id j \<and> aj_lines j' = aj_lines j \<and> aj_version j \<le> aj_version j' \<and>
     (\<exists>ps. aj_progress j' = aj_progress j @ ps) \<and>
     (aj_status j' = JobQueued \<longrightarrow> aj_status j = JobQueued) \<and>
     (aj_version j' = aj_version j \<longrightarrow> j' = j\<lparr>aj_progress := aj_progress j'\<rparr>) \<and>
     (terminal_status (aj_status j) \<longrightarrow> j' = j)"

lemma follows_refl: "follows j j"
  by (simp add: follows_def)

lemma changes_keep:
  "let j' = fold (apply_change now) cs j
   in aj_id j' = aj_id j \<and> aj_lines j' = aj_lines j \<and> aj_version j' = aj_version j \<and> aj_progress j' = aj_progress j"
proof (induction cs arbitrary: j)
  case (Cons c cs)
  then show ?case by (cases c) (simp_all add: Let_def)
qed simp

lemma event_follows:
  assumes "active_status (aj_status j)" "\<forall>s \<in> set_option (event_status e). s \<noteq> JobQueued"
  shows "follows j (event_job now e j)"
proof -
  have "\<not> terminal_status (aj_status j)" using assms(1) by (simp add: terminal_iff)
  moreover have "aj_status (event_job now e j) = JobQueued \<longrightarrow> aj_status j = JobQueued"
    using assms(2) by (auto simp: aj_status_event status_set_def split: option.splits)
  ultimately show ?thesis
    using changes_keep [of now _ j]
    by (cases e) (auto simp: follows_def changed_job_def progressed_job_def Let_def)
qed

lemma finishes_not_queued: "finishes status (e # es) \<Longrightarrow> \<forall>s \<in> set_option (status e). s \<noteq> JobQueued"
  by (cases es) auto

lemma jobs_unchanged:
  "reserve_self_update s = Inr (m, s') \<Longrightarrow> ws_jobs s' = ws_jobs s"
  "reserve_container_restart s = Inr (m, s') \<Longrightarrow> ws_jobs s' = ws_jobs s"
  "ws_jobs (release_self_update s) = ws_jobs s"
  "ws_jobs (release_container_restart s) = ws_jobs s"
  "refresh_security_scans a b i accepted s = (r, s') \<Longrightarrow> ws_jobs s' = ws_jobs s"
  "ws_jobs (run_scan_event i c s) = ws_jobs s"
  by (auto simp: reserve_self_update_def reserve_container_restart_def reserve_mutation_state_def
      release_self_update_def release_container_restart_def refresh_security_scans_def reserve_scan_job_def
      run_scan_event_def Let_def split: if_splits sum.splits option.split)

lemma map_of_drop_append:
  assumes "distinct (map fst jobs)" "map_of jobs i = Some j" "i \<notin> fst ` set rest"
  shows "map_of (drop k jobs @ rest) i \<in> {None, Some j}"
proof (cases "map_of (drop k jobs) i")
  case (Some j')
  then have "(i, j') \<in> set jobs" by (auto dest: map_of_SomeD in_set_dropD)
  then show ?thesis using assms(1,2) Some by (simp add: map_add_def)
next
  case None
  have "map_of rest i = None" using assms(3) by (simp add: map_of_eq_None_iff)
  then show ?thesis using None by (simp add: map_add_def)
qed

lemma submit_history:
  assumes g: "gate_ok w" and s: "submit b i' lines accepted (sv_state w) = (r, s')"
    and i': "i' \<notin> fst ` set (ws_jobs (sv_state w))" and j: "map_of (ws_jobs (sv_state w)) i = Some j"
  shows "case map_of (ws_jobs s') i of None \<Rightarrow> terminal_status (aj_status j) | Some j' \<Rightarrow> follows j j'"
proof -
  obtain lines' where sub: "submit_apply_job i' lines' accepted (sv_state w) = (r, s')" using submit_cases s by metis
  show ?thesis
  proof (cases "active_mutation_error True (sv_state w) = ''''")
    case True
    have t: "tracks aj_status event_status (ws_jobs (sv_state w)) []"
      using g gate_closed [OF g] gate_idle [OF g] True by (auto simp: gate_ok_def)
    have ne: "i \<notin> fst ` set [(i', queued_job i' lines')]" using i' map_of_SomeD [OF j] by force
    have d: "distinct (map fst (ws_jobs (sv_state w)))" using t by (simp add: tracks_def)
    have "terminal_status (aj_status j)" using t map_of_SomeD [OF j] by (auto simp: tracks_def terminal_iff)
    moreover have "map_of (ws_jobs s') i \<in> {None, Some j}"
      using submit_apply_job_outcome [OF sub t i'] j True map_of_drop_append [OF d j ne]
        map_of_drop_append [OF d j, of "[]"] by (cases accepted) auto
    ultimately show ?thesis by (auto simp: follows_refl split: option.split)
  next
    case False
    then have "s' = sv_state w" using sub by (auto simp: submit_apply_job_def Let_def)
    then show ?thesis using j by (simp add: follows_refl)
  qed
qed

lemma worked_history:
  assumes g: "gate_ok w" and t: "sv_tasks w = before @ (i', e # es) # after"
    and j: "map_of (ws_jobs (sv_state w)) i = Some j"
  shows "\<exists>j'. map_of (ws_jobs (run_job_event now i' e (sv_state w))) i = Some j' \<and> follows j j'"
proof (cases "i' = i")
  case True
  have tr: "tracks aj_status event_status (ws_jobs (sv_state w)) (sv_tasks w)" using g by (simp add: gate_ok_def)
  then have "finishes event_status (e # es)" and "active_status (aj_status j)"
    using t True map_of_SomeD [OF j] by (auto simp: tracks_def)
  from event_follows [OF this(2) finishes_not_queued [OF this(1)]] show ?thesis
    using True j by (simp add: run_job_event_def update_apply_job_def update_conv')
next
  case False
  then show ?thesis
    using j by (auto simp: run_job_event_def update_apply_job_def update_conv' follows_refl split: option.split)
qed

text \<open>C23: A step never drops a queued or running job, and never changes a finished one: a job that is
  still registered keeps its identifier and its lines, its version does not go down (and goes up when
  anything but its progress changes), its progress is only extended, and it does not return to the queue.\<close>

theorem job_history:
  assumes "web_step\<^sup>*\<^sup>* initial_service w" and step: "web_step w w'"
    and j: "map_of (ws_jobs (sv_state w)) i = Some j"
  shows "case map_of (ws_jobs (sv_state w')) i of None \<Rightarrow> terminal_status (aj_status j) | Some j' \<Rightarrow> follows j j'"
proof -
  note g = reachable_gate_ok [OF assms(1)]
  show ?thesis
    using step
  proof (cases rule: web_step.cases)
    case (submitted b i' lines job s')
    then show ?thesis using submit_history [OF g _ _ j] by simp
  next
    case (refused b i' lines e s')
    then show ?thesis using submit_history [OF g _ _ j] by simp
  next
    case (worked before i' e es after now)
    then show ?thesis using worked_history [OF g worked(2) j, of now] by auto
  qed (simp_all add: j follows_refl jobs_unchanged)
qed

theorem job_history_witness:
  "follows (queued_job ''j1'' [4]) (event_job ''10:00'' job_started (queued_job ''j1'' [4]))"
proof -
  have t: "sv_tasks demo_submitted = [] @ (''j1'', job_started # tl (apply_job_events demo_outcome)) # []"
    and j: "map_of (ws_jobs (sv_state demo_submitted)) ''j1'' = Some (queued_job ''j1'' [4])"
    by (simp add: demo_submitted_def apply_job_events_def) code_simp
  from job_history [OF r_into_rtranclp [of web_step, OF demo_step] web_step.worked [OF t, of "''10:00''"] j]
  show ?thesis using j by (simp add: run_job_event_def update_apply_job_def update_conv')
qed

section \<open>Finishing\<close>

fun succeeds :: "background \<Rightarrow> bool" where
  "succeeds (ApplyJob out) =
     (ao_setup_error out = None \<and> ao_result out = Returned 0 \<and> ao_schedule_error out = None)"
| "succeeds (RetagJob out) = (ro_plan_error out = None \<and> ro_audit_error out = None \<and> ro_apply_error out = None)"
| "succeeds (TrackingJob out) = (to_failed out = None)"

definition run_events :: "string \<Rightarrow> (string \<times> job_event) list \<Rightarrow> web_state \<Rightarrow> web_state" where
  "run_events i es s = fold (\<lambda>(now, e). run_job_event now i e) es s"

lemma run_events_job:
  "map_of (ws_jobs s) i = Some j \<Longrightarrow>
   map_of (ws_jobs (run_events i es s)) i = Some (fold (\<lambda>(now, e). event_job now e) es j)"
proof (induction es arbitrary: s j)
  case (Cons e es)
  then show ?case
    by (cases e) (simp add: run_events_def run_job_event_def update_apply_job_def update_conv')
qed (simp add: run_events_def)

lemma finished_status:
  "finishes event_status (map snd es) \<Longrightarrow>
   Some (aj_status (fold (\<lambda>(now, e). event_job now e) es j)) = event_status (last (map snd es))"
proof (induction es arbitrary: j rule: rev_induct)
  case (snoc x xs)
  have "finishes status (ys @ [y]) \<Longrightarrow> status y \<noteq> None" for status and ys :: "job_event list" and y
    by (induction ys) (auto simp: finishes_Cons)
  with snoc(2) show ?case by (fastforce simp: aj_status_event status_set_def split: prod.split)
qed simp

definition stamps :: "job_event \<Rightarrow> bool" where
  "stamps e = (case e of JobUpdate cs \<Rightarrow> SetFinishedAt \<in> set cs | _ \<Rightarrow> False)"

lemma finished_at_changes:
  "SetFinishedAt \<in> set cs \<or> aj_finished_at j \<noteq> None \<Longrightarrow> aj_finished_at (fold (apply_change now) cs j) \<noteq> None"
proof (induction cs arbitrary: j)
  case (Cons c cs)
  then show ?case by (cases c) auto
qed simp

lemma last_stamps:
  "es \<noteq> [] \<Longrightarrow> stamps (last (map snd es)) \<Longrightarrow> aj_finished_at (fold (\<lambda>(now, e). event_job now e) es j) \<noteq> None"
  by (induction es rule: rev_induct)
    (auto simp: stamps_def changed_job_def Let_def split: job_event.splits prod.splits intro!: finished_at_changes [simplified])

lemma last_job_event:
  "stamps (last (job_events b)) \<and> event_status (last (job_events b)) = Some (if succeeds b then JobSuccess else JobFailure)"
proof (cases b)
  case (ApplyJob out)
  show ?thesis
    by (cases "ao_setup_error out"; cases "ao_result out"; cases "ao_refresh out"; cases "ao_schedule_error out")
      (simp_all add: ApplyJob apply_job_events_def apply_job_failed_def stamps_def job_finished_def job_incomplete_def)
next
  case (RetagJob out)
  show ?thesis
    by (cases "ro_plan_error out"; cases "ro_audit_error out"; cases "ro_apply_error out")
      (simp_all add: RetagJob retag_job_events_def retag_failed_def stamps_def)
next
  case (TrackingJob out)
  show ?thesis
    by (cases "to_failed out") (auto simp: TrackingJob tracking_job_events_def stamps_def Let_def)
qed

text \<open>C24: Whatever its set-up, its run and its error handler do, a background function leaves its job
  finished, with a finishing time: successful exactly when nothing failed (and, for an apply, the updater
  returned zero), failed otherwise.\<close>

theorem background_finishes:
  assumes "map_of (ws_jobs s) i = Some j" and "length nows = length (job_events b)"
  shows "\<exists>j'. map_of (ws_jobs (run_events i (zip nows (job_events b)) s)) i = Some j' \<and>
    aj_status j' = (if succeeds b then JobSuccess else JobFailure) \<and> aj_finished_at j' \<noteq> None"
proof -
  let ?es = "zip nows (job_events b)"
  have es: "map snd ?es = job_events b" using assms(2) by simp
  have ne: "?es \<noteq> []" using es job_events_finish [of b] by (metis finishes.simps(1) list.simps(8))
  let ?j = "fold (\<lambda>(now, e). event_job now e) ?es j"
  have "Some (aj_status ?j) = event_status (last (map snd ?es))"
    by (rule finished_status) (simp add: es job_events_finish)
  then have "aj_status ?j = (if succeeds b then JobSuccess else JobFailure)" using last_job_event [of b] es by simp
  moreover have "aj_finished_at ?j \<noteq> None" using last_stamps [OF ne] last_job_event [of b] es by simp
  ultimately show ?thesis using run_events_job [OF assms(1)] by blast
qed

theorem background_finishes_witness:
  "\<exists>j'. map_of (ws_jobs (run_events ''j1'' (zip [''1'', ''2'', ''3''] (job_events (ApplyJob demo_outcome)))
     (sv_state demo_submitted))) ''j1'' = Some j' \<and> aj_status j' = JobFailure \<and> aj_finished_at j' \<noteq> None"
proof -
  have "map_of (ws_jobs (sv_state demo_submitted)) ''j1'' = Some (queued_job ''j1'' [4])"
    and "length [''1'', ''2'', ''3''] = length (job_events (ApplyJob demo_outcome))"
    by code_simp+
  from background_finishes [OF this] show ?thesis by (simp add: demo_outcome_def)
qed

section \<open>The gate opens again\<close>

definition work_left :: "service \<Rightarrow> nat" where
  "work_left w = sum_list (map (length \<circ> snd) (sv_tasks w)) + sv_self_updates w + sv_restarts w
     + sum_list (map (length \<circ> snd) (sv_scans w))"

lemma tracked_head: "tracks st status jobs ((i, es) # ts) \<Longrightarrow> \<exists>e es'. es = e # es'"
  by (cases es) (auto simp: tracks_def)

lemma step_progress:
  assumes g: "gate_ok w" and m: "mutations w \<noteq> 0"
  shows "\<exists>w'. web_step w w' \<and> work_left w' < work_left w"
proof -
  have t: "tracks aj_status event_status (ws_jobs (sv_state w)) (sv_tasks w)"
    and c: "tracks sj_status scan_status (ws_scans (sv_state w)) (sv_scans w)" using g by (simp_all add: gate_ok_def)
  consider i es ts where "sv_tasks w = (i, es) # ts" | i cs ts where "sv_scans w = (i, cs) # ts"
    | "0 < sv_self_updates w" | "0 < sv_restarts w"
    using m by (auto simp: mutations_def neq_Nil_conv)
  then show ?thesis
  proof cases
    case 1
    from tracked_head [OF t [unfolded 1]] obtain e es' where "es = e # es'" by blast
    with 1 web_step.worked [of w "[]" i e es' ts] show ?thesis
      by (intro exI conjI) (assumption | force simp: work_left_def rest_of_def)+
  next
    case 2
    from tracked_head [OF c [unfolded 2]] obtain d cs' where "cs = d # cs'" by blast
    with 2 web_step.scan_worked [of w "[]" i d cs' ts] show ?thesis
      by (intro exI conjI) (assumption | force simp: work_left_def rest_of_def)+
  next
    case 3
    from web_step.self_released [OF 3] 3 show ?thesis
      by (intro exI conjI) (assumption | force simp: work_left_def)+
  next
    case 4
    from web_step.restart_released [OF 4] 4 show ?thesis
      by (intro exI conjI) (assumption | force simp: work_left_def)+
  qed
qed

text \<open>C25: The gate never stays shut: from every reachable state the background functions and requests
  under way can run to their ends, and then the next mutation is accepted.\<close>

theorem gate_opens_again:
  assumes "web_step\<^sup>*\<^sup>* initial_service w"
  shows "\<exists>w'. web_step\<^sup>*\<^sup>* w w' \<and> active_mutation_error True (sv_state w') = ''''"
  using reachable_gate_ok [OF assms]
proof (induction "work_left w" arbitrary: w rule: less_induct)
  case less
  show ?case
  proof (cases "mutations w = 0")
    case True
    then show ?thesis using gate_closed [OF less(2)] by blast
  next
    case False
    from step_progress [OF less(2) this] obtain w1 where w1: "web_step w w1" "work_left w1 < work_left w" by blast
    from less(1) [OF w1(2) step_gate_ok [OF w1(1) less(2)]] w1(1) show ?thesis
      by (blast intro: converse_rtranclp_into_rtranclp)
  qed
qed

theorem gate_opens_again_witness:
  "active_mutation_error True (sv_state demo_submitted) \<noteq> '''' \<and>
   (\<exists>w'. web_step\<^sup>*\<^sup>* demo_submitted w' \<and> active_mutation_error True (sv_state w') = '''')"
proof
  show "active_mutation_error True (sv_state demo_submitted) \<noteq> ''''" by code_simp
  show "\<exists>w'. web_step\<^sup>*\<^sup>* demo_submitted w' \<and> active_mutation_error True (sv_state w') = ''''"
    by (rule gate_opens_again) (rule r_into_rtranclp [of web_step, OF demo_step])
qed

end
