(* ===== verification/Web_Job_Stream.thy ===== *)
theory Web_Job_Stream
  imports Web_Job_Steps
begin

text \<open>
  The event stream of a job (\<open>_apply_job_stream\<close> of \<open>src/src/wudup/web_jobs.py\<close>): what a client is
  sent over a sequence of looks at the registry. A look reads the job and, when nothing is new, waits
  and reads it again. The log tail and the clock are read from outside; the hash of a log's content is
  a parameter.
\<close>

record job_log =
  lg_exists :: bool
  lg_content :: string
  lg_truncated :: bool
  lg_error :: string

type_synonym log_signature = "string \<times> string \<times> bool \<times> bool \<times> string \<times> string"

record stream_snapshot =
  sn_job :: job_response
  sn_response :: "job_response option"
  sn_progress :: "(string \<times> job_progress) list"
  sn_terminal :: bool
  sn_version :: int
  sn_count :: nat

text \<open>\<open>first\<close> and \<open>second\<close> are what the registry holds before and after the wait.\<close>

definition snapshot_job :: "apply_job option \<Rightarrow> apply_job option \<Rightarrow> int \<Rightarrow> nat \<Rightarrow> apply_job option" where
  "snapshot_job first second last_version last_count =
     (case first of
        None \<Rightarrow> None
      | Some j \<Rightarrow> if int (aj_version j) = last_version \<and> length (aj_progress j) = last_count then second else Some j)"

definition snapshot_of :: "int \<Rightarrow> nat \<Rightarrow> apply_job \<Rightarrow> stream_snapshot" where
  "snapshot_of last_version last_count j =
     (let snapshot = apply_job_response j;
          response = (if int (aj_version j) \<noteq> last_version then Some snapshot else None);
          count = length (aj_progress j)
      in \<lparr>sn_job = snapshot, sn_response = response,
          sn_progress = (if count > last_count then drop last_count (jr_progress snapshot) else []),
          sn_terminal = terminal_status (aj_status j),
          sn_version = (if response \<noteq> None then int (aj_version j) else last_version),
          sn_count = max last_count count\<rparr>)"

definition apply_job_stream_snapshot ::
  "apply_job option \<Rightarrow> apply_job option \<Rightarrow> int \<Rightarrow> nat \<Rightarrow> stream_snapshot option" where
  "apply_job_stream_snapshot first second last_version last_count =
     map_option (snapshot_of last_version last_count) (snapshot_job first second last_version last_count)"

datatype sse =
    SseProgress string job_progress
  | SseJob job_response
  | SseLog job_response job_log
  | SseHeartbeat

definition log_signature_of :: "(string \<Rightarrow> string) \<Rightarrow> job_response \<Rightarrow> job_log \<Rightarrow> log_signature" where
  "log_signature_of hash job log =
     (jr_job_id job, jr_log_file job, lg_exists log, lg_truncated log, lg_error log, hash (lg_content log))"

text \<open>\<open>_apply_job_stream_log_event\<close>: nothing without a log file or a readable path.\<close>

definition apply_job_stream_log_event ::
  "(string \<Rightarrow> string) \<Rightarrow> stream_snapshot \<Rightarrow> job_log option \<Rightarrow> log_signature option \<Rightarrow> bool \<Rightarrow>
   sse list \<times> log_signature option \<times> bool" where
  "apply_job_stream_log_event hash sn log last_signature emitted =
     (case (if jr_log_file (sn_job sn) = '''' then None else log) of
        None \<Rightarrow> ([], last_signature, emitted)
      | Some l \<Rightarrow>
          let signature = log_signature_of hash (sn_job sn) l;
              should_emit = ((lg_content l \<noteq> '''' \<or> lg_error l \<noteq> '''' \<or> sn_terminal sn) \<and>
                (Some signature \<noteq> last_signature \<or> (sn_terminal sn \<and> \<not> emitted)))
          in if should_emit then ([SseLog (sn_job sn) l], Some signature, emitted \<or> sn_terminal sn)
             else ([], last_signature, emitted))"

text \<open>One look: the registry before and after the wait, the log, and whether a heartbeat is due.\<close>

record look =
  lk_first :: "apply_job option"
  lk_second :: "apply_job option"
  lk_log :: "job_log option"
  lk_late :: bool

definition look_events :: "stream_snapshot \<Rightarrow> sse list \<Rightarrow> bool \<Rightarrow> sse list" where
  "look_events sn log_event late =
     (if sn_terminal sn then log_event else []) @
     map (\<lambda>(i, p). SseProgress i p) (sn_progress sn) @
     (case sn_response sn of None \<Rightarrow> [] | Some r \<Rightarrow> [SseJob r]) @
     (if sn_terminal sn then [] else log_event) @
     (if sn_response sn = None \<and> late then [SseHeartbeat] else [])"

fun apply_job_stream ::
  "(string \<Rightarrow> string) \<Rightarrow> int \<Rightarrow> nat \<Rightarrow> log_signature option \<Rightarrow> bool \<Rightarrow> look list \<Rightarrow> sse list" where
  "apply_job_stream hash v c sig emitted [] = []"
| "apply_job_stream hash v c sig emitted (lk # looks) =
     (case apply_job_stream_snapshot (lk_first lk) (lk_second lk) v c of
        None \<Rightarrow> []
      | Some sn \<Rightarrow>
          (case apply_job_stream_log_event hash sn (lk_log lk) sig emitted of
             (log_event, sig', emitted') \<Rightarrow>
               look_events sn log_event (lk_late lk) @
               (if sn_terminal sn then []
                else apply_job_stream hash (sn_version sn) (sn_count sn) sig' emitted' looks)))"

definition open_stream :: "(string \<Rightarrow> string) \<Rightarrow> look list \<Rightarrow> sse list" where
  "open_stream hash looks = apply_job_stream hash (- 1) 0 None False looks"

section \<open>What the client gets\<close>

text \<open>The jobs the looks of a stream rest on, up to the first finished one.\<close>

fun stream_jobs :: "int \<Rightarrow> nat \<Rightarrow> look list \<Rightarrow> apply_job list" where
  "stream_jobs v c [] = []"
| "stream_jobs v c (lk # looks) =
     (case snapshot_job (lk_first lk) (lk_second lk) v c of
        None \<Rightarrow> []
      | Some j \<Rightarrow> j # (if terminal_status (aj_status j) then []
                      else stream_jobs (int (aj_version j)) (length (aj_progress j)) looks))"

text \<open>The looks of one job still registered, in the order of its history.\<close>

fun history_from :: "apply_job option \<Rightarrow> look list \<Rightarrow> bool" where
  "history_from j [] = True"
| "history_from j (lk # looks) =
     (case (lk_first lk, lk_second lk) of
        (Some a, Some b) \<Rightarrow> (\<forall>j0 \<in> set_option j. follows j0 a) \<and> follows a b \<and> history_from (Some b) looks
      | _ \<Rightarrow> False)"

fun progress_of :: "sse list \<Rightarrow> (string \<times> job_progress) list" where
  "progress_of [] = []"
| "progress_of (SseProgress i p # es) = (i, p) # progress_of es"
| "progress_of (_ # es) = progress_of es"

fun responses_of :: "sse list \<Rightarrow> job_response list" where
  "responses_of [] = []"
| "responses_of (SseJob r # es) = r # responses_of es"
| "responses_of (_ # es) = responses_of es"

lemma of_append [simp]:
  "progress_of (es @ es') = progress_of es @ progress_of es'"
  "responses_of (es @ es') = responses_of es @ responses_of es'"
  by (induction es rule: progress_of.induct) auto

lemma of_progress [simp]:
  "progress_of (map (\<lambda>(i, p). SseProgress i p) ps) = ps"
  "responses_of (map (\<lambda>(i, p). SseProgress i p) ps) = []"
  by (induction ps) auto

lemma log_event_only_log:
  "apply_job_stream_log_event hash sn log sig emitted = (es, sig', emitted') \<Longrightarrow>
   progress_of es = [] \<and> responses_of es = []"
  by (auto simp: apply_job_stream_log_event_def Let_def split: option.splits if_splits)

lemma of_look:
  assumes "progress_of le = []" "responses_of le = []"
  shows "progress_of (look_events sn le late) = sn_progress sn"
    and "responses_of (look_events sn le late) = (case sn_response sn of None \<Rightarrow> [] | Some r \<Rightarrow> [r])"
  using assms by (auto simp: look_events_def split: option.split)

lemma follows_same: "follows a b \<Longrightarrow> aj_version b = aj_version a \<Longrightarrow> b = a\<lparr>aj_progress := aj_progress b\<rparr>"
  unfolding follows_def by blast

lemma follows_version: "follows a b \<Longrightarrow> aj_version a \<le> aj_version b"
  unfolding follows_def by blast

lemma follows_extends: "follows a b \<Longrightarrow> aj_id b = aj_id a \<and> (\<exists>ps. aj_progress b = aj_progress a @ ps)"
  unfolding follows_def by blast

lemma follows_same_trans:
  assumes "follows a b" "follows b c" "aj_version c = aj_version a"
  shows "c = a\<lparr>aj_progress := aj_progress c\<rparr>"
proof -
  have v: "aj_version b = aj_version a" "aj_version c = aj_version b"
    using follows_version [OF assms(1)] follows_version [OF assms(2)] assms(3) by simp_all
  note b = follows_same [OF assms(1) v(1)]
  note follows_same [OF assms(2) v(2)]
  also have "b\<lparr>aj_progress := aj_progress c\<rparr> = a\<lparr>aj_progress := aj_progress b\<rparr>\<lparr>aj_progress := aj_progress c\<rparr>"
    using arg_cong [OF b, of "\<lambda>x. x\<lparr>aj_progress := aj_progress c\<rparr>"] .
  finally show ?thesis by simp
qed

lemma follows_trans:
  assumes ab: "follows a b" and bc: "follows b c"
  shows "follows a c"
proof -
  have "\<exists>ps. aj_progress c = aj_progress a @ ps"
    using follows_extends [OF ab] follows_extends [OF bc] by auto
  moreover have "terminal_status (aj_status a) \<longrightarrow> c = a"
    using ab bc unfolding follows_def by (metis (no_types))
  moreover have "aj_status c = JobQueued \<longrightarrow> aj_status a = JobQueued" "aj_lines c = aj_lines a" "aj_id c = aj_id a"
    using ab bc unfolding follows_def by (metis (no_types))+
  ultimately show ?thesis
    using follows_same_trans [OF ab bc] follows_version [OF ab] follows_version [OF bc]
    unfolding follows_def by (intro conjI) (assumption | (rule impI)?, simp)+
qed

lemma history_earlier: "history_from (Some b) looks \<Longrightarrow> follows a b \<Longrightarrow> history_from (Some a) looks"
  by (cases looks) (auto intro: follows_trans split: option.splits)

definition caught_up :: "int \<Rightarrow> nat \<Rightarrow> apply_job option \<Rightarrow> bool" where
  "caught_up v c j = (case j of
     None \<Rightarrow> v = - 1 \<and> c = 0
   | Some x \<Rightarrow> v = int (aj_version x) \<and> c = length (aj_progress x))"

definition tagged :: "apply_job \<Rightarrow> (string \<times> job_progress) list" where
  "tagged j = map (\<lambda>p. (aj_id j, p)) (aj_progress j)"

definition answers :: "job_response \<Rightarrow> apply_job \<Rightarrow> bool" where
  "answers r j \<longleftrightarrow> r\<lparr>jr_progress := []\<rparr> = (apply_job_response j)\<lparr>jr_progress := []\<rparr>"

lemma tagged_follows: "follows a b \<Longrightarrow> tagged b = tagged a @ drop (length (aj_progress a)) (tagged b)"
  by (drule follows_extends) (auto simp: tagged_def)

lemma answers_follows:
  assumes "answers r a" "follows a b" "aj_version b = aj_version a"
  shows "answers r b"
proof -
  note b = follows_same [OF assms(2,3)]
  have "(apply_job_response (a\<lparr>aj_progress := q\<rparr>))\<lparr>jr_progress := []\<rparr> = (apply_job_response a)\<lparr>jr_progress := []\<rparr>" for q
    by (simp add: apply_job_response_def)
  from this [of "aj_progress b"] show ?thesis using assms(1) unfolding answers_def b [symmetric] by simp
qed

text \<open>One look: the job it rests on, what it sends, and the state it leaves.\<close>

lemma look_job:
  assumes "history_from j0 (lk # looks)" "caught_up v c j0"
  obtains j where "snapshot_job (lk_first lk) (lk_second lk) v c = Some j"
    and "\<forall>x \<in> set_option j0. follows x j" and "history_from (Some j) looks"
    and "sn_progress (snapshot_of v c j) = drop c (tagged j)"
    and "sn_version (snapshot_of v c j) = int (aj_version j)" and "sn_count (snapshot_of v c j) = length (aj_progress j)"
    and "sn_response (snapshot_of v c j) = (if v = int (aj_version j) then None else Some (apply_job_response j))"
proof -
  obtain a b where ab: "lk_first lk = Some a" "lk_second lk = Some b" "\<forall>x \<in> set_option j0. follows x a" "follows a b"
      "history_from (Some b) looks"
    using assms(1) by (auto split: option.splits)
  define j where "j = (if int (aj_version a) = v \<and> length (aj_progress a) = c then b else a)"
  have s: "snapshot_job (lk_first lk) (lk_second lk) v c = Some j" by (simp add: snapshot_job_def ab j_def)
  have f: "\<forall>x \<in> set_option j0. follows x j" using ab(3,4) by (auto simp: j_def intro: follows_trans)
  have h: "history_from (Some j) looks" using history_earlier [OF ab(5,4)] ab(5) by (simp add: j_def)
  have c: "c \<le> length (aj_progress j)"
    using f assms(2) by (cases j0) (auto simp: caught_up_def dest: follows_extends)
  show ?thesis
    by (rule that [OF s f h]) (use c in \<open>auto simp: snapshot_of_def Let_def tagged_def apply_job_response_def\<close>)
qed

lemma stream_from:
  assumes "history_from j0 looks" "caught_up v c j0" "looks \<noteq> []"
  shows "stream_jobs v c looks \<noteq> [] \<and> (\<forall>x \<in> set_option j0. follows x (last (stream_jobs v c looks))) \<and>
    progress_of (apply_job_stream hash v c sig emitted looks) = drop c (tagged (last (stream_jobs v c looks))) \<and>
    (if responses_of (apply_job_stream hash v c sig emitted looks) = []
     then \<exists>x \<in> set_option j0. aj_version (last (stream_jobs v c looks)) = aj_version x
     else answers (last (responses_of (apply_job_stream hash v c sig emitted looks))) (last (stream_jobs v c looks)))"
  using assms
proof (induction looks arbitrary: j0 v c sig emitted)
  case (Cons lk looks)
  from look_job [OF Cons.prems(1,2)] obtain j where
      j: "snapshot_job (lk_first lk) (lk_second lk) v c = Some j" and f: "\<forall>x \<in> set_option j0. follows x j"
    and h: "history_from (Some j) looks" and p: "sn_progress (snapshot_of v c j) = drop c (tagged j)"
    and v: "sn_version (snapshot_of v c j) = int (aj_version j)" and n: "sn_count (snapshot_of v c j) = length (aj_progress j)"
    and r: "sn_response (snapshot_of v c j) = (if v = int (aj_version j) then None else Some (apply_job_response j))"
    by metis
  obtain le sig' emitted' where
    le: "apply_job_stream_log_event hash (snapshot_of v c j) (lk_log lk) sig emitted = (le, sig', emitted')"
    by (metis prod_cases3)
  note only = log_event_only_log [OF le]
  have t: "sn_terminal (snapshot_of v c j) = terminal_status (aj_status j)" by (simp add: snapshot_of_def Let_def)
  have now: "v = int (aj_version j) \<Longrightarrow> \<exists>x \<in> set_option j0. aj_version j = aj_version x"
    using Cons.prems(2) by (auto simp: caught_up_def split: option.splits)
  have self: "answers (apply_job_response j) j" by (simp add: answers_def)
  let ?rest = "apply_job_stream hash (int (aj_version j)) (length (aj_progress j)) sig' emitted' looks"
  let ?js = "stream_jobs (int (aj_version j)) (length (aj_progress j)) looks"
  have run: "apply_job_stream hash v c sig emitted (lk # looks) =
      look_events (snapshot_of v c j) le (lk_late lk) @ (if terminal_status (aj_status j) then [] else ?rest)"
    by (simp add: apply_job_stream_snapshot_def j le v n t)
  have js: "stream_jobs v c (lk # looks) = j # (if terminal_status (aj_status j) then [] else ?js)" by (simp add: j)
  show ?case
  proof (cases "terminal_status (aj_status j) \<or> looks = []")
    case True
    then show ?thesis
      unfolding run js using f p r only now self by (auto simp: of_look only)
  next
    case False
    have "caught_up (int (aj_version j)) (length (aj_progress j)) (Some j)" by (simp add: caught_up_def)
    from Cons.IH [OF h this, of sig' emitted'] False have
        ne: "?js \<noteq> []" and fl: "follows j (last ?js)"
      and pr: "progress_of ?rest = drop (length (aj_progress j)) (tagged (last ?js))"
      and re: "if responses_of ?rest = [] then aj_version (last ?js) = aj_version j
        else answers (last (responses_of ?rest)) (last ?js)"
      by auto
    have c: "c \<le> length (tagged j)"
      using f Cons.prems(2) by (cases j0) (auto simp: caught_up_def tagged_def dest: follows_extends)
    have "drop c (tagged (last ?js)) = drop c (tagged j) @ drop (length (aj_progress j)) (tagged (last ?js))"
      using tagged_follows [OF fl] c by (metis drop_append diff_is_0_eq drop0)
    moreover have "\<forall>x \<in> set_option j0. follows x (last ?js)" using f fl by (auto intro: follows_trans)
    moreover have "responses_of ?rest = [] \<Longrightarrow> answers (apply_job_response j) (last ?js)"
      using answers_follows [OF self fl] re by simp
    ultimately show ?thesis
      unfolding run js using False ne p r pr re only now by (auto simp: of_look only)
  qed
qed simp

text \<open>C26: Over looks at one registered job, in the order of its history and however often the stream
  looks, the client is sent every progress report of the job it last saw, each once and in order, and
  the last status it is sent is that job's.\<close>

theorem stream_complete:
  assumes "history_from None looks" and "looks \<noteq> []"
  shows "progress_of (open_stream hash looks) = tagged (last (stream_jobs (- 1) 0 looks)) \<and>
    responses_of (open_stream hash looks) \<noteq> [] \<and>
    answers (last (responses_of (open_stream hash looks))) (last (stream_jobs (- 1) 0 looks))"
  using stream_from [OF assms(1) _ assms(2), of "- 1" 0 hash None False]
  by (auto simp: open_stream_def caught_up_def split: if_splits)

definition demo_running :: apply_job where
  "demo_running = event_job ''1'' job_started (queued_job ''j1'' [4])"

definition demo_reported :: apply_job where
  "demo_reported = event_job ''2'' (JobProgress (job_report ''pull'' ''running'' ''Pulling.'')) demo_running"

definition demo_done :: apply_job where
  "demo_done = event_job ''3'' job_incomplete demo_reported"

definition demo_looks :: "look list" where
  "demo_looks =
     [\<lparr>lk_first = Some demo_running, lk_second = Some demo_running, lk_log = None, lk_late = False\<rparr>,
      \<lparr>lk_first = Some demo_running, lk_second = Some demo_reported, lk_log = None, lk_late = False\<rparr>,
      \<lparr>lk_first = Some demo_done, lk_second = Some demo_done, lk_log = None, lk_late = False\<rparr>]"

theorem stream_complete_witness:
  "map (pr_phase \<circ> snd) (progress_of (open_stream id demo_looks)) = [''pull''] \<and>
   answers (last (responses_of (open_stream id demo_looks))) demo_done"
proof -
  have f: "follows demo_running demo_reported" "follows demo_reported demo_done"
    unfolding demo_reported_def demo_done_def demo_running_def
    by (rule event_follows; simp add: event_job.simps job_started_def changed_job_def progressed_job_def
        queued_job_def Let_def)+
  have "history_from None demo_looks" using f by (simp add: demo_looks_def follows_refl)
  moreover have "demo_looks \<noteq> []" by (simp add: demo_looks_def)
  ultimately have "progress_of (open_stream id demo_looks) = tagged (last (stream_jobs (- 1) 0 demo_looks)) \<and>
    answers (last (responses_of (open_stream id demo_looks))) (last (stream_jobs (- 1) 0 demo_looks))"
    using stream_complete by blast
  moreover have "last (stream_jobs (- 1) 0 demo_looks) = demo_done" "map (pr_phase \<circ> snd) (tagged demo_done) = [''pull'']"
    by code_simp+
  ultimately show ?thesis by simp
qed

end
