(* ===== verification/Ip_Address.thy ===== *)
theory Ip_Address
  imports Prelude "HOL-Library.Word"
begin

text \<open>
  The parts of the Python library the web application reads addresses and origins with:
  \<open>ipaddress.ip_address\<close>, membership of an address in a network, and \<open>urllib.parse.urlsplit\<close> with the
  parts of an authority. A version 4 address is a 32 bit word, a version 6 address a 128 bit word; a
  ValueError is None.
\<close>

section \<open>Addresses\<close>

datatype ip_address = Ip4 "32 word" | Ip6 "128 word"

datatype ip_network = Net4 "32 word" nat | Net6 "128 word" nat

definition ip_octet :: "string \<Rightarrow> nat option" where
  "ip_octet s =
     (if all_digits s \<and> length s \<le> 3 \<and> (s = ''0'' \<or> hd s \<noteq> CHR ''0'') \<and> digits_val s \<le> 255
      then Some (digits_val s) else None)"

fun all_some :: "'a option list \<Rightarrow> 'a list option" where
  "all_some [] = Some []"
| "all_some (None # xs) = None"
| "all_some (Some x # xs) = (case all_some xs of None \<Rightarrow> None | Some ys \<Rightarrow> Some (x # ys))"

definition in_base :: "int \<Rightarrow> nat list \<Rightarrow> int" where
  "in_base b ds = foldl (\<lambda>n d. n * b + int d) 0 ds"

definition ip4_value :: "string \<Rightarrow> int option" where
  "ip4_value s =
     (case all_some (map ip_octet (split_on CHR ''.'' s)) of
        Some [a, b, c, d] \<Rightarrow> Some (in_base 256 [a, b, c, d])
      | _ \<Rightarrow> None)"

definition hex_digit :: "char \<Rightarrow> nat option" where
  "hex_digit c = (let n = of_char c :: nat in
     if 48 \<le> n \<and> n \<le> 57 then Some (n - 48)
     else if 65 \<le> n \<and> n \<le> 70 then Some (n - 55)
     else if 97 \<le> n \<and> n \<le> 102 then Some (n - 87) else None)"

definition ip_hextet :: "string \<Rightarrow> nat option" where
  "ip_hextet s =
     (if s = '''' \<or> length s > 4 then None
      else case all_some (map hex_digit s) of None \<Rightarrow> None | Some ds \<Rightarrow> Some (nat (in_base 16 ds)))"

text \<open>The parts of a version 6 address, a version 4 tail as its two words.\<close>

definition ip6_parts :: "string \<Rightarrow> nat option list option" where
  "ip6_parts s =
     (let parts = split_on CHR '':'' s; words = map ip_hextet parts
      in if length parts < 3 then None
         else if CHR ''.'' \<in> set (last parts)
         then case ip4_value (last parts) of
                None \<Rightarrow> None
              | Some v \<Rightarrow> Some (butlast words @ [Some (nat (v div 65536)), Some (nat (v mod 65536))])
         else Some words)"

text \<open>
  \<open>gaps\<close> are the inner empty parts. With one of them an empty first or last part only belongs to it, and
  at least one word is left out; without one there are eight words. A part that is no hexadecimal number
  is None, and so is an empty part, which has to be told from it.
\<close>

definition ip6_value :: "string \<Rightarrow> int option" where
  "ip6_value s =
     (case ip6_parts s of
        None \<Rightarrow> None
      | Some words \<Rightarrow>
          let parts = split_on CHR '':'' s;
              n = length words;
              gaps = filter (\<lambda>i. i < length parts \<and> parts ! i = '''') [1..<n - 1]
          in if n > 9 then None
             else case gaps of
               [] \<Rightarrow> if n = 8 then map_option (in_base 65536) (all_some words) else None
             | [skip] \<Rightarrow>
                 let leading = parts ! 0 = ''''; trailing = last parts = '''';
                     hi = (if leading then drop 1 (take skip words) else take skip words);
                     lo = (if trailing then butlast (drop (skip + 1) words) else drop (skip + 1) words)
                 in if (leading \<and> hi \<noteq> []) \<or> (trailing \<and> lo \<noteq> []) \<or> length hi + length lo \<ge> 8 then None
                    else (case (all_some hi, all_some lo) of
                            (Some h, Some l) \<Rightarrow> Some (in_base 65536 (h @ replicate (8 - (length h + length l)) 0 @ l))
                          | _ \<Rightarrow> None)
             | _ \<Rightarrow> None)"

definition ip_address_of :: "string \<Rightarrow> ip_address option" where
  "ip_address_of s =
     (if CHR ''/'' \<in> set s then None
      else case ip4_value s of
        Some v \<Rightarrow> Some (Ip4 (of_int v))
      | None \<Rightarrow>
          (case break_at ''%'' s of
             None \<Rightarrow> map_option (\<lambda>v. Ip6 (of_int v)) (ip6_value s)
           | Some (addr, scope) \<Rightarrow>
               if scope = '''' \<or> CHR ''%'' \<in> set scope then None else map_option (\<lambda>v. Ip6 (of_int v)) (ip6_value addr)))"

fun in_network :: "ip_address \<Rightarrow> ip_network \<Rightarrow> bool" where
  "in_network (Ip4 a) (Net4 n p) = (drop_bit (32 - p) a = drop_bit (32 - p) n)"
| "in_network (Ip6 a) (Net6 n p) = (drop_bit (128 - p) a = drop_bit (128 - p) n)"
| "in_network _ _ = False"

section \<open>Splitting an address of the web\<close>

record url_parts =
  up_scheme :: string
  up_netloc :: string
  up_path :: string
  up_query :: string
  up_fragment :: string

definition scheme_char :: "char \<Rightarrow> bool" where
  "scheme_char c = (is_alpha c \<or> is_digit c \<or> c \<in> set ''+-.'')"

definition c0_or_space :: "char \<Rightarrow> bool" where
  "c0_or_space c = ((of_char c :: nat) \<le> 32)"

definition unsafe_url_char :: "char \<Rightarrow> bool" where
  "unsafe_url_char c = ((of_char c :: nat) \<in> {9, 10, 13})"

text \<open>The first part and, after its first \<open>c\<close>, the rest; the rest is empty without one.\<close>

definition cut_at :: "string \<Rightarrow> string \<Rightarrow> string \<times> string" where
  "cut_at c s = (case break_at c s of None \<Rightarrow> (s, '''') | Some p \<Rightarrow> p)"

definition split_scheme :: "string \<Rightarrow> string \<times> string" where
  "split_scheme url =
     (case break_at '':'' url of
        None \<Rightarrow> ('''', url)
      | Some (l, r) \<Rightarrow> if l \<noteq> '''' \<and> is_alpha (hd l) \<and> list_all scheme_char l then (lower l, r) else ('''', url))"

text \<open>\<open>_check_bracketed_host\<close>: a version 6 address, or \<open>v\<close>, hexadecimal digits, a dot and something on one line.\<close>

definition bracketed_host_ok :: "string \<Rightarrow> bool" where
  "bracketed_host_ok h =
     (if startswith h ''v''
      then let d = takeWhile (\<lambda>c. hex_digit c \<noteq> None) (tl h); r = drop (length d) (tl h)
           in d \<noteq> [] \<and> length r \<ge> 2 \<and> hd r = CHR ''.'' \<and> CHR 0x0A \<notin> set (tl r)
      else case ip_address_of h of Some (Ip6 v) \<Rightarrow> True | _ \<Rightarrow> False)"

definition netloc_ok :: "string \<Rightarrow> bool" where
  "netloc_ok netloc =
     (if CHR ''['' \<in> set netloc \<and> CHR '']'' \<in> set netloc
      then bracketed_host_ok (fst (cut_at '']'' (snd (cut_at ''['' netloc))))
      else CHR ''['' \<notin> set netloc \<and> CHR '']'' \<notin> set netloc)"

text \<open>
  The normal form that \<open>_checknetloc\<close> forbids to bring in delimiters never does so for the code points of
  the model.
\<close>

definition urlsplit :: "string \<Rightarrow> url_parts option" where
  "urlsplit url =
     (let (scheme, r) = split_scheme (filter (\<lambda>c. \<not> unsafe_url_char c) (dropWhile c0_or_space url));
          (netloc, r) = (if startswith r ''//''
             then (takeWhile (\<lambda>c. c \<notin> set ''/?#'') (drop 2 r), dropWhile (\<lambda>c. c \<notin> set ''/?#'') (drop 2 r)) else ('''', r));
          (r, fragment) = cut_at ''#'' r;
          (path, query) = cut_at ''?'' r
      in if netloc_ok netloc
         then Some \<lparr>up_scheme = scheme, up_netloc = netloc, up_path = path, up_query = query, up_fragment = fragment\<rparr>
         else None)"

text \<open>User information, host and port of an authority; an empty user or password counts as absent.\<close>

definition url_host_part :: "string \<Rightarrow> string" where
  "url_host_part netloc = (case rbreak_char CHR ''@'' netloc of None \<Rightarrow> netloc | Some (l, r) \<Rightarrow> r)"

definition url_username :: "string \<Rightarrow> string" where
  "url_username netloc = (case rbreak_char CHR ''@'' netloc of None \<Rightarrow> '''' | Some (l, r) \<Rightarrow> fst (cut_at '':'' l))"

definition url_password :: "string \<Rightarrow> string" where
  "url_password netloc = (case rbreak_char CHR ''@'' netloc of None \<Rightarrow> '''' | Some (l, r) \<Rightarrow> snd (cut_at '':'' l))"

definition url_hostname :: "string \<Rightarrow> string" where
  "url_hostname netloc =
     (let h = url_host_part netloc;
          name = (case break_at ''['' h of None \<Rightarrow> fst (cut_at '':'' h) | Some (l, r) \<Rightarrow> fst (cut_at '']'' r))
      in case break_at ''%'' name of None \<Rightarrow> lower name | Some (l, r) \<Rightarrow> lower l @ ''%'' @ r)"

end
