(* ===== verification/Auth_Throttle.thy ===== *)
theory Auth_Throttle
  imports Prelude Complex_Main
begin

text \<open>
  The login throttle of \<open>src/src/wudup/web_auth.py\<close>: the failures counted for an account at an address
  and for an address, the attempts in flight, and the separate bucket of wrong bearer tokens. A throttle
  is a dict, so an association list in insertion order; \<open>time.monotonic\<close> is a \<^typ>\<open>real\<close> number of
  seconds. Every operation holds one lock from its first to its last access and is one definition on the
  state; the client address is worked out by \<open>Request_Context\<close>.
\<close>

named_theorems throttle_simps "what the operations on a throttle do to its entries"

section \<open>Entries\<close>

definition LOGIN_THROTTLE_MAX_FAILURES :: nat where
  "LOGIN_THROTTLE_MAX_FAILURES = 5"

definition LOGIN_THROTTLE_COOLDOWN_SECONDS :: real where
  "LOGIN_THROTTLE_COOLDOWN_SECONDS = 60"

definition LOGIN_THROTTLE_MAX_ENTRIES :: nat where
  "LOGIN_THROTTLE_MAX_ENTRIES = 1024"

definition LOGIN_THROTTLE_MAX_CLIENT_ENTRIES :: nat where
  "LOGIN_THROTTLE_MAX_CLIENT_ENTRIES = 1024"

record throttle_entry =
  lt_failures :: nat
  lt_first_failed_at :: real
  lt_last_failed_at :: real
  lt_locked_until :: real

type_synonym 'k throttle = "('k \<times> throttle_entry) list"

definition first_failure :: "real \<Rightarrow> throttle_entry" where
  "first_failure now = \<lparr>lt_failures = 1, lt_first_failed_at = now, lt_last_failed_at = now, lt_locked_until = 0\<rparr>"

definition prune_login_throttle :: "real \<Rightarrow> 'k throttle \<Rightarrow> 'k throttle" where
  "prune_login_throttle now =
     filter (\<lambda>(k, entry). now - lt_last_failed_at entry < LOGIN_THROTTLE_COOLDOWN_SECONDS)"

text \<open>\<open>min\<close> with a key: the first of the entries with the least key.\<close>

definition entry_age :: "'k \<times> throttle_entry \<Rightarrow> real \<times> real" where
  "entry_age item = (lt_last_failed_at (snd item), lt_first_failed_at (snd item))"

fun oldest :: "('k \<times> throttle_entry) list \<Rightarrow> ('k \<times> throttle_entry) option" where
  "oldest [] = None"
| "oldest (item # items) =
     (case oldest items of None \<Rightarrow> Some item
      | Some best \<Rightarrow> Some (if entry_age item \<le> entry_age best then item else best))"

text \<open>\<open>_evict_login_throttle_entry\<close>: the throttle without its oldest entry, or None when all are kept.\<close>

definition evict_login_throttle_entry :: "bool \<Rightarrow> real \<Rightarrow> 'k throttle \<Rightarrow> 'k throttle option" where
  "evict_login_throttle_entry preserve_locked now throttle =
     (case oldest (filter (\<lambda>(k, entry). \<not> preserve_locked \<or> lt_locked_until entry \<le> now) throttle) of
        None \<Rightarrow> None
      | Some (key, entry) \<Rightarrow> Some (AList.delete key throttle))"

definition login_attempts_exhausted :: "throttle_entry option \<Rightarrow> nat \<Rightarrow> real \<Rightarrow> bool" where
  "login_attempts_exhausted entry pending now =
     (case entry of
        None \<Rightarrow> pending \<ge> LOGIN_THROTTLE_MAX_FAILURES
      | Some e \<Rightarrow> lt_locked_until e > now \<or> lt_failures e + pending \<ge> LOGIN_THROTTLE_MAX_FAILURES)"

text \<open>The failure added to an entry, and the lock it may bring.\<close>

definition failed_again :: "real \<Rightarrow> throttle_entry \<Rightarrow> throttle_entry" where
  "failed_again now entry = entry\<lparr>lt_failures := lt_failures entry + 1, lt_last_failed_at := now\<rparr>"

definition lock_entry :: "real \<Rightarrow> throttle_entry \<Rightarrow> throttle_entry" where
  "lock_entry now entry =
     (if lt_failures entry \<ge> LOGIN_THROTTLE_MAX_FAILURES
      then entry\<lparr>lt_locked_until := now + LOGIN_THROTTLE_COOLDOWN_SECONDS\<rparr> else entry)"

definition record_login_client_failure :: "'c \<Rightarrow> real \<Rightarrow> 'c throttle \<Rightarrow> 'c throttle" where
  "record_login_client_failure client_address now throttle =
     (case map_of throttle client_address of
        None \<Rightarrow>
          AList.update client_address (lock_entry now (first_failure now))
            (if length throttle \<ge> LOGIN_THROTTLE_MAX_CLIENT_ENTRIES
             then case evict_login_throttle_entry False now throttle of None \<Rightarrow> throttle | Some t \<Rightarrow> t
             else throttle)
      | Some entry \<Rightarrow> AList.update client_address (lock_entry now (failed_again now entry)) throttle)"

definition record_login_account_failure :: "'k \<Rightarrow> real \<Rightarrow> 'k throttle \<Rightarrow> 'k throttle" where
  "record_login_account_failure key now throttle =
     (case map_of throttle key of
        None \<Rightarrow>
          (if length throttle \<ge> LOGIN_THROTTLE_MAX_ENTRIES
           then case evict_login_throttle_entry True now throttle of
                  None \<Rightarrow> throttle
                | Some t \<Rightarrow> AList.update key (lock_entry now (first_failure now)) t
           else AList.update key (lock_entry now (first_failure now)) throttle)
      | Some entry \<Rightarrow> AList.update key (lock_entry now (failed_again now entry)) throttle)"

section \<open>The state of the throttles and its operations\<close>

type_synonym login_key = "string \<times> string"

record login_state =
  ls_throttle :: "login_key throttle"
  ls_client_throttle :: "string throttle"
  ls_pending :: "(login_key \<times> nat) list"
  ls_client_pending :: "(string \<times> nat) list"
  ls_bearer_throttle :: "string throttle"

definition initial_login_state :: login_state where
  "initial_login_state =
     \<lparr>ls_throttle = [], ls_client_throttle = [], ls_pending = [], ls_client_pending = [], ls_bearer_throttle = []\<rparr>"

text \<open>
  \<open>str.casefold\<close> on the code points of the model: lower case, and the sharp s as two letters. The micro
  sign folds to the Greek letter outside the range, which no other character of the range does; it keeps
  its place here.
\<close>

definition casefold :: "string \<Rightarrow> string" where
  "casefold s = concat (map (\<lambda>c. if (of_char c :: nat) = 223 then ''ss'' else [lower_char c]) s)"

definition normalize_username :: "string \<Rightarrow> string" where
  "normalize_username v = py_strip v"

definition login_throttle_key :: "string \<Rightarrow> string \<Rightarrow> login_key" where
  "login_throttle_key username client_address = (casefold (normalize_username username), client_address)"

definition reserve_login_attempt :: "string \<Rightarrow> string \<Rightarrow> real \<Rightarrow> login_state \<Rightarrow> bool \<times> login_state" where
  "reserve_login_attempt client_address username now s =
     (let key = login_throttle_key username client_address;
          throttle = prune_login_throttle now (ls_throttle s);
          clients = prune_login_throttle now (ls_client_throttle s);
          s' = s\<lparr>ls_throttle := throttle, ls_client_throttle := clients\<rparr>
      in if login_attempts_exhausted (map_of throttle key) (dict_get (ls_pending s) key 0) now
            \<or> login_attempts_exhausted (map_of clients client_address)
                (dict_get (ls_client_pending s) client_address 0) now
         then (False, s')
         else (True, s'\<lparr>ls_pending := AList.update key (dict_get (ls_pending s) key 0 + 1) (ls_pending s),
                       ls_client_pending := AList.update client_address
                         (dict_get (ls_client_pending s) client_address 0 + 1) (ls_client_pending s)\<rparr>))"

text \<open>\<open>remaining\<close> is an integer: a key that is not pending is popped too.\<close>

definition decrement_pending :: "'k \<Rightarrow> ('k \<times> nat) list \<Rightarrow> ('k \<times> nat) list" where
  "decrement_pending key pending =
     (let remaining = int (dict_get pending key 0) - 1
      in if remaining > 0 then AList.update key (nat remaining) pending else AList.delete key pending)"

definition release_login_attempt :: "string \<Rightarrow> string \<Rightarrow> login_state \<Rightarrow> login_state" where
  "release_login_attempt client_address username s =
     s\<lparr>ls_pending := decrement_pending (login_throttle_key username client_address) (ls_pending s),
       ls_client_pending := decrement_pending client_address (ls_client_pending s)\<rparr>"

definition record_login_failure :: "string \<Rightarrow> string \<Rightarrow> real \<Rightarrow> login_state \<Rightarrow> login_state" where
  "record_login_failure client_address username now s =
     s\<lparr>ls_throttle := record_login_account_failure (login_throttle_key username client_address) now
         (prune_login_throttle now (ls_throttle s)),
       ls_client_throttle := record_login_client_failure client_address now
         (prune_login_throttle now (ls_client_throttle s))\<rparr>"

definition clear_login_throttle :: "string \<Rightarrow> string \<Rightarrow> login_state \<Rightarrow> login_state" where
  "clear_login_throttle client_address username s =
     s\<lparr>ls_throttle := AList.delete (login_throttle_key username client_address) (ls_throttle s),
       ls_client_throttle := AList.delete client_address (ls_client_throttle s)\<rparr>"

section \<open>Bearer tokens\<close>

text \<open>\<open>partition\<close> at the first blank: the parts and whether there is one.\<close>

definition bearer_parts :: "string option \<Rightarrow> string \<times> bool \<times> string" where
  "bearer_parts authorization =
     (let v = (case authorization of None \<Rightarrow> '''' | Some a \<Rightarrow> a)
      in case break_at '' '' v of None \<Rightarrow> (v, False, '''') | Some (l, r) \<Rightarrow> (l, True, r))"

definition bearer_token_valid :: "string \<Rightarrow> string option \<Rightarrow> bool" where
  "bearer_token_valid auth_token authorization =
     (if auth_token = '''' then False
      else let (scheme, separated, token) = bearer_parts authorization
           in separated \<and> lower scheme = ''bearer'' \<and> token = auth_token)"

definition bearer_token_accepted ::
  "string \<Rightarrow> string \<Rightarrow> string option \<Rightarrow> real \<Rightarrow> login_state \<Rightarrow> bool \<times> login_state" where
  "bearer_token_accepted auth_token client_address authorization now s =
     (if auth_token = '''' then (False, s)
      else let (scheme, separated, token) = bearer_parts authorization
           in if \<not> separated \<or> lower scheme \<noteq> ''bearer'' \<or> token = '''' then (False, s)
              else let throttle = prune_login_throttle now (ls_bearer_throttle s);
                       locked = (case map_of throttle client_address of None \<Rightarrow> False
                                 | Some entry \<Rightarrow> lt_locked_until entry > now)
                   in if locked then (False, s\<lparr>ls_bearer_throttle := throttle\<rparr>)
                      else if bearer_token_valid auth_token authorization
                           then (True, s\<lparr>ls_bearer_throttle := throttle\<rparr>)
                           else (False, s\<lparr>ls_bearer_throttle :=
                                  record_login_client_failure client_address now throttle\<rparr>))"

section \<open>What the operations do to the entries\<close>

abbreviation keys :: "('k \<times> 'v) list \<Rightarrow> 'k list" where
  "keys m \<equiv> map fst m"

definition failures_of :: "'k throttle \<Rightarrow> 'k \<Rightarrow> nat" where
  "failures_of throttle k = (case map_of throttle k of None \<Rightarrow> 0 | Some e \<Rightarrow> lt_failures e)"

text \<open>Entries as the operations leave them: a full count comes with the lock of its last failure.\<close>

definition sound_entry :: "throttle_entry \<Rightarrow> bool" where
  "sound_entry e = (1 \<le> lt_failures e \<and> (lt_failures e \<ge> LOGIN_THROTTLE_MAX_FAILURES \<longrightarrow>
     lt_locked_until e = lt_last_failed_at e + LOGIN_THROTTLE_COOLDOWN_SECONDS))"

definition sound_throttle :: "'k throttle \<Rightarrow> bool" where
  "sound_throttle m = (distinct (keys m) \<and> (\<forall>(k, e) \<in> set m. sound_entry e))"

lemma map_of_filter_keys:
  "distinct (keys m) \<Longrightarrow> map_of (filter (\<lambda>(k, e). P k e) m) x =
     (case map_of m x of None \<Rightarrow> None | Some e \<Rightarrow> if P x e then Some e else None)"
  by (induction m) (auto split: option.splits simp: map_of_eq_None_iff image_iff)

lemma map_of_prune [throttle_simps]:
  "distinct (keys m) \<Longrightarrow> map_of (prune_login_throttle now m) x =
     (case map_of m x of None \<Rightarrow> None
      | Some e \<Rightarrow> if now - lt_last_failed_at e < LOGIN_THROTTLE_COOLDOWN_SECONDS then Some e else None)"
  by (simp add: prune_login_throttle_def map_of_filter_keys)

lemma sound_throttle_subset:
  "sound_throttle m \<Longrightarrow> set m' \<subseteq> set m \<Longrightarrow> distinct (keys m') \<Longrightarrow> sound_throttle m'"
  by (auto simp: sound_throttle_def)

lemma sound_prune [throttle_simps, intro]: "sound_throttle m \<Longrightarrow> sound_throttle (prune_login_throttle now m)"
  by (rule sound_throttle_subset) (auto simp: prune_login_throttle_def sound_throttle_def distinct_map_filter)

lemma sound_delete [throttle_simps, intro]: "sound_throttle m \<Longrightarrow> sound_throttle (AList.delete k m)"
  by (rule sound_throttle_subset) (auto simp: sound_throttle_def AList.delete_eq distinct_map_filter)

lemma set_update_subset: "set (AList.update k v m) \<subseteq> insert (k, v) (set m)"
  by (induction m) auto

lemma sound_update [throttle_simps, intro]:
  "sound_throttle m \<Longrightarrow> sound_entry e \<Longrightarrow> sound_throttle (AList.update k e m)"
  using set_update_subset[of k e m] by (auto simp: sound_throttle_def distinct_update)

lemma sound_distinct [intro]: "sound_throttle m \<Longrightarrow> distinct (keys m)"
  by (simp add: sound_throttle_def)

lemma sound_map_of: "sound_throttle m \<Longrightarrow> map_of m k = Some e \<Longrightarrow> sound_entry e"
  by (auto simp: sound_throttle_def dest: map_of_SomeD)

lemma sound_first_failure [intro]: "sound_entry (lock_entry now (first_failure now))"
  by (simp add: sound_entry_def lock_entry_def first_failure_def LOGIN_THROTTLE_MAX_FAILURES_def)

lemma sound_failed_again [intro]: "sound_entry (lock_entry now (failed_again now e))"
  by (simp add: sound_entry_def lock_entry_def failed_again_def)

lemma lock_entry_failures [simp]: "lt_failures (lock_entry now e) = lt_failures e"
  by (simp add: lock_entry_def)

lemma evict_deletes:
  "evict_login_throttle_entry p now m = Some m' \<Longrightarrow>
     \<exists>k e. m' = AList.delete k m \<and> (k, e) \<in> set m \<and> (\<not> p \<or> lt_locked_until e \<le> now)"
proof -
  have old: "oldest items = Some i \<Longrightarrow> i \<in> set items" for items :: "('b \<times> throttle_entry) list" and i
    by (induction items arbitrary: i) (auto split: option.splits if_splits)
  assume "evict_login_throttle_entry p now m = Some m'"
  then show ?thesis
    by (fastforce simp: evict_login_throttle_entry_def split: option.splits dest!: old)
qed

lemma evict_some: "\<not> p \<Longrightarrow> m \<noteq> [] \<Longrightarrow> \<exists>m'. evict_login_throttle_entry p now m = Some m'"
proof -
  have "items \<noteq> [] \<Longrightarrow> oldest items \<noteq> None" for items :: "('b \<times> throttle_entry) list"
    by (cases items) (auto split: option.splits)
  then show "\<not> p \<Longrightarrow> m \<noteq> [] \<Longrightarrow> ?thesis"
    by (fastforce simp: evict_login_throttle_entry_def split: option.splits)
qed

lemma sound_record_client [throttle_simps, intro]:
  "sound_throttle m \<Longrightarrow> sound_throttle (record_login_client_failure c now m)"
  by (auto simp: record_login_client_failure_def split: option.splits dest!: evict_deletes)

lemma sound_record_account [throttle_simps, intro]:
  "sound_throttle m \<Longrightarrow> sound_throttle (record_login_account_failure c now m)"
  by (auto simp: record_login_account_failure_def split: option.splits dest!: evict_deletes)

lemma failures_prune: "distinct (keys m) \<Longrightarrow> failures_of (prune_login_throttle now m) k \<le> failures_of m k"
  by (auto simp: failures_of_def map_of_prune split: option.splits)

lemma failures_delete: "failures_of (AList.delete x m) k = (if k = x then 0 else failures_of m k)"
  by (simp add: failures_of_def delete_conv')

lemma failures_update: "failures_of (AList.update x e m) k = (if k = x then lt_failures e else failures_of m k)"
  by (simp add: failures_of_def update_conv')

lemma failures_record_client:
  "failures_of (record_login_client_failure c now m) k \<le> failures_of m k + (if k = c then 1 else 0)"
  by (auto simp: record_login_client_failure_def failures_update failures_delete first_failure_def failed_again_def
    split: option.splits if_splits dest!: evict_deletes) (auto simp: failures_of_def)

lemma failures_record_account:
  "failures_of (record_login_account_failure c now m) k \<le> failures_of m k + (if k = c then 1 else 0)"
  by (auto simp: record_login_account_failure_def failures_update failures_delete first_failure_def failed_again_def
    split: option.splits if_splits dest!: evict_deletes) (auto simp: failures_of_def)

text \<open>An attempt that is not exhausted has a free place among the five.\<close>

lemma exhausted_room:
  "\<not> login_attempts_exhausted (map_of m k) pending now \<Longrightarrow> failures_of m k + pending < LOGIN_THROTTLE_MAX_FAILURES"
  by (auto simp: login_attempts_exhausted_def failures_of_def split: option.splits)

lemma length_delete: "(k, e) \<in> set m \<Longrightarrow> length (AList.delete k m) < length m"
  by (induction m) (auto simp: AList.delete_eq intro: le_imp_less_Suc length_filter_le)

lemma length_update_le: "length (AList.update k e m) \<le> Suc (length m)"
  by (induction m) auto

lemma length_update_known: "map_of m k = Some v \<Longrightarrow> length (AList.update k e m) = length m"
  by (induction m) auto

lemma length_record_client:
  assumes "length m \<le> LOGIN_THROTTLE_MAX_CLIENT_ENTRIES"
  shows "length (record_login_client_failure c now m) \<le> LOGIN_THROTTLE_MAX_CLIENT_ENTRIES"
proof (cases "map_of m c")
  case None
  note new = length_update_le[of c "lock_entry now (first_failure now)"]
  show ?thesis
  proof (cases "length m \<ge> LOGIN_THROTTLE_MAX_CLIENT_ENTRIES")
    case True
    then have "m \<noteq> []" by (auto simp: LOGIN_THROTTLE_MAX_CLIENT_ENTRIES_def)
    then obtain m' where e: "evict_login_throttle_entry False now m = Some m'" using evict_some[of False m] by blast
    with evict_deletes[OF e] have "length m' < length m" using length_delete by fastforce
    then show ?thesis using None True e new[of m'] assms by (simp add: record_login_client_failure_def)
  next
    case False
    then show ?thesis using None new[of m] by (simp add: record_login_client_failure_def)
  qed
next
  case (Some e)
  then show ?thesis using assms by (simp add: record_login_client_failure_def length_update_known)
qed

lemma length_record_account:
  assumes "length m \<le> LOGIN_THROTTLE_MAX_ENTRIES"
  shows "length (record_login_account_failure c now m) \<le> LOGIN_THROTTLE_MAX_ENTRIES"
proof (cases "map_of m c")
  case None
  note new = length_update_le[of c "lock_entry now (first_failure now)"]
  show ?thesis
  proof (cases "evict_login_throttle_entry True now m")
    case (Some m')
    with evict_deletes[OF Some] have "length m' < length m" using length_delete by fastforce
    then show ?thesis using None Some new[of m'] new[of m] assms by (auto simp: record_login_account_failure_def)
  next
    case e: None
    then show ?thesis using None new[of m] assms by (auto simp: record_login_account_failure_def)
  qed
next
  case (Some e)
  then show ?thesis using assms by (simp add: record_login_account_failure_def length_update_known)
qed

end
