(* ===== verification/Request_Context.thy ===== *)
theory Request_Context
  imports Ip_Address
begin

text \<open>
  Who sent a request, as \<open>src/src/wudup/web_request_context.py\<close> works it out: the address of the client and
  the origin it sees, directly or through a trusted proxy, and the normal forms of hosts and origins. The
  names of headers are in lower case as ASGI hands them over. \<open>urlsplit\<close> raises a ValueError for a bad
  bracketed host, which nothing here catches: origins are optional values, None where it is raised.
\<close>

section \<open>Requests and settings\<close>

record http_request =
  rq_method :: string
  rq_scheme :: string
  rq_path :: string
  rq_headers :: "(string \<times> string) list"
  rq_cookies :: "(string \<times> string) list"
  rq_client :: "string option"

record web_settings =
  se_auth_token :: string
  se_dev_no_auth :: bool
  se_allowed_origins :: "string list"
  se_public_origin :: string
  se_allowed_hosts :: "string list"
  se_trusted_proxies :: "ip_network list"
  se_secure_cookies :: string

definition header :: "http_request \<Rightarrow> string \<Rightarrow> string" where
  "header rq name = dict_get (rq_headers rq) name ''''"

definition cookie :: "http_request \<Rightarrow> string \<Rightarrow> string" where
  "cookie rq name = dict_get (rq_cookies rq) name ''''"

section \<open>Origins and hosts\<close>

definition rstrip_char :: "char \<Rightarrow> string \<Rightarrow> string" where
  "rstrip_char c s = rev (dropWhile (\<lambda>x. x = c) (rev s))"

definition normalize_origin :: "string \<Rightarrow> string option" where
  "normalize_origin v =
     (let raw = rstrip_char CHR ''/'' (py_strip v)
      in if raw = '''' then Some ''''
         else case urlsplit raw of
           None \<Rightarrow> None
         | Some u \<Rightarrow> Some (
             if up_scheme u \<notin> {''http'', ''https''} \<or> up_netloc u = '''' then ''''
             else if url_username (up_netloc u) \<noteq> '''' \<or> url_password (up_netloc u) \<noteq> '''' \<or> up_path u \<noteq> ''''
               \<or> up_query u \<noteq> '''' \<or> up_fragment u \<noteq> '''' then ''''
             else if url_hostname (up_netloc u) = '''' then ''''
             else lower (up_scheme u) @ ''://'' @ lower (up_netloc u)))"

definition normalize_host :: "string \<Rightarrow> string" where
  "normalize_host v =
     (let raw = rstrip_char CHR ''.'' (lower (py_strip v))
      in if raw = '''' then ''''
         else if startswith raw ''[''
         then (case break_at '']'' (tl raw) of None \<Rightarrow> '''' | Some (l, r) \<Rightarrow> l)
         else case break_at '':'' raw of
           None \<Rightarrow> raw
         | Some (l, r) \<Rightarrow> if CHR '':'' \<notin> set r \<and> r \<noteq> '''' \<and> list_all py_isdigit_char r then l else raw)"

section \<open>Trusted proxies\<close>

definition client_is_trusted_proxy :: "http_request \<Rightarrow> web_settings \<Rightarrow> bool" where
  "client_is_trusted_proxy rq se =
     (case rq_client rq of
        None \<Rightarrow> False
      | Some host \<Rightarrow> (case ip_address_of host of
            None \<Rightarrow> False
          | Some address \<Rightarrow> list_ex (in_network address) (se_trusted_proxies se)))"

fun first_item :: "string list \<Rightarrow> string" where
  "first_item [] = ''''"
| "first_item (x # xs) = (if py_strip x \<noteq> '''' then py_strip x else first_item xs)"

definition last_forwarded_header_value :: "string \<Rightarrow> string" where
  "last_forwarded_header_value v = first_item (rev (split_on CHR '','' v))"

definition has_x_forwarded_headers :: "http_request \<Rightarrow> bool" where
  "has_x_forwarded_headers rq =
     list_ex (\<lambda>name. last_forwarded_header_value (header rq name) \<noteq> '''')
       [''x-forwarded-for'', ''x-forwarded-proto'', ''x-forwarded-host'']"

definition ip_address_or_empty :: "string \<Rightarrow> string" where
  "ip_address_or_empty v = (if ip_address_of v = None then '''' else v)"

definition normalize_forwarded_client_address :: "string \<Rightarrow> string" where
  "normalize_forwarded_client_address v =
     (let raw = strip_by (\<lambda>c. c = CHR 0x22) (py_strip v)
      in if raw = '''' \<or> lower raw = ''unknown'' then ''''
         else if startswith raw ''[''
         then (case break_at '']'' (tl raw) of None \<Rightarrow> raw | Some (host, r) \<Rightarrow> host)
         else if ip_address_or_empty raw \<noteq> '''' then raw
         else case rbreak_char CHR '':'' raw of
           None \<Rightarrow> raw
         | Some (host, port) \<Rightarrow>
             if port \<noteq> '''' \<and> list_all py_isdigit_char port \<and> ip_address_of host \<noteq> None then host else raw)"

text \<open>The pairs of the last hop of a Forwarded header: the key, and what follows the first equals sign.\<close>

definition forwarded_pairs :: "string \<Rightarrow> (string \<times> string) list" where
  "forwarded_pairs v =
     concat (map (\<lambda>segment. case break_at ''='' (py_strip segment) of None \<Rightarrow> [] | Some (k, raw) \<Rightarrow> [(lower k, raw)])
       (split_on CHR '';'' (last_forwarded_header_value v)))"

definition client_address_from_forwarded_header :: "string \<Rightarrow> string" where
  "client_address_from_forwarded_header v =
     (if v = '''' then ''''
      else case map_of (forwarded_pairs v) ''for'' of
        None \<Rightarrow> ''''
      | Some raw \<Rightarrow> ip_address_or_empty (normalize_forwarded_client_address raw))"

definition trusted_forwarded_client_address :: "http_request \<Rightarrow> web_settings \<Rightarrow> string" where
  "trusted_forwarded_client_address rq se =
     (if \<not> client_is_trusted_proxy rq se then ''''
      else if \<not> has_x_forwarded_headers rq then client_address_from_forwarded_header (header rq ''forwarded'')
      else ip_address_or_empty (normalize_forwarded_client_address
        (last_forwarded_header_value (header rq ''x-forwarded-for''))))"

definition request_client_address :: "http_request \<Rightarrow> web_settings \<Rightarrow> string" where
  "request_client_address rq se =
     (let forwarded = trusted_forwarded_client_address rq se
      in if forwarded \<noteq> '''' then forwarded else case rq_client rq of None \<Rightarrow> '''' | Some host \<Rightarrow> host)"

text \<open>A later pair of a hop replaces an earlier one, and values lose blanks, then quotes.\<close>

definition origin_from_forwarded_header :: "string \<Rightarrow> string option" where
  "origin_from_forwarded_header v =
     (if v = '''' then Some ''''
      else let parts = map (\<lambda>(k, raw). (k, strip_by (\<lambda>c. c = CHR 0x22) (py_strip raw))) (rev (forwarded_pairs v));
               proto = dict_get parts ''proto'' ''''; host = dict_get parts ''host'' ''''
           in if proto \<noteq> '''' \<and> host \<noteq> '''' then normalize_origin (proto @ ''://'' @ host) else Some '''')"

definition trusted_forwarded_origin :: "http_request \<Rightarrow> web_settings \<Rightarrow> string option" where
  "trusted_forwarded_origin rq se =
     (if \<not> client_is_trusted_proxy rq se then Some ''''
      else if \<not> has_x_forwarded_headers rq then origin_from_forwarded_header (header rq ''forwarded'')
      else let proto = last_forwarded_header_value (header rq ''x-forwarded-proto'');
               host = last_forwarded_header_value (header rq ''x-forwarded-host'')
           in if proto \<noteq> '''' \<and> host \<noteq> '''' then normalize_origin (proto @ ''://'' @ host) else Some '''')"

definition effective_origin :: "http_request \<Rightarrow> web_settings \<Rightarrow> string option" where
  "effective_origin rq se =
     (if se_public_origin se \<noteq> '''' then Some (se_public_origin se)
      else case trusted_forwarded_origin rq se of
        None \<Rightarrow> None
      | Some forwarded \<Rightarrow>
          if forwarded \<noteq> '''' then Some forwarded
          else normalize_origin (rq_scheme rq @ ''://'' @ header rq ''host''))"

definition request_has_forwarding_headers :: "http_request \<Rightarrow> bool" where
  "request_has_forwarding_headers rq =
     list_ex (\<lambda>(name, v). name = ''forwarded'' \<or> name = ''x-real-ip'' \<or> startswith name ''x-forwarded-'') (rq_headers rq)"

definition host_from_origin :: "string \<Rightarrow> string option" where
  "host_from_origin origin = map_option (\<lambda>u. normalize_host (url_hostname (up_netloc u))) (urlsplit origin)"

section \<open>Facts about addresses\<close>

lemma split_on_last_part: "c \<notin> set w \<Longrightarrow> \<exists>ps. ps \<noteq> [] \<and> split_on c (s @ c # w) = ps @ [w]"
proof (induction s)
  case (Cons x s)
  then obtain p ps where "split_on c (s @ c # w) = p # ps @ [w]" by (metis append_Cons neq_Nil_conv)
  then show ?case by (cases "x = c") (auto intro: exI[of _ "[] # p # ps"] exI[of _ "(x # p) # ps"])
qed (auto simp: split_on_single intro: exI[of _ "[[]]"])

text \<open>What the proxy appends to the header is what is read, whatever the client put before it.\<close>

lemma last_forwarded_appended:
  assumes "CHR '','' \<notin> set w" and "py_strip w \<noteq> ''''"
  shows "last_forwarded_header_value (s @ CHR '','' # w) = py_strip w"
  using split_on_last_part[OF assms(1), of s] assms(2) by (auto simp: last_forwarded_header_value_def)

lemma no_separator_no_address:
  assumes "CHR '':'' \<notin> set s" and "CHR ''.'' \<notin> set s" and "CHR ''%'' \<notin> set s"
  shows "ip_address_of s = None"
proof -
  have "ip4_value s = None"
    using assms(2) by (simp add: ip4_value_def split_on_single) (cases "ip_octet s"; simp)
  moreover have "ip6_value s = None" using assms(1) by (simp add: ip6_value_def ip6_parts_def split_on_single Let_def)
  moreover have "break_at ''%'' s = None" using assms(3) by (simp add: break_at_char_None)
  ultimately show ?thesis by (simp add: ip_address_of_def)
qed

lemma no_address_Nil: "ip_address_of '''' = None"
  by (rule no_separator_no_address) auto

lemma no_address_unknown: "lower s = ''unknown'' \<Longrightarrow> ip_address_of s = None"
proof (rule no_separator_no_address)
  assume u: "lower s = ''unknown''"
  have *: "c \<notin> set s" if c: "lower_char c \<notin> set ''unknown''" for c
    using c u by (metis image_eqI list.set_map lower_def)
  show "CHR '':'' \<notin> set s" by (rule *) code_simp
  show "CHR ''.'' \<notin> set s" by (rule *) code_simp
  show "CHR ''%'' \<notin> set s" by (rule *) code_simp
qed

lemma normalize_plain_address:
  assumes "ip_address_of a \<noteq> None" and "py_strip a = a" and "CHR 0x22 \<notin> set a" and "CHR ''['' \<notin> set a"
  shows "normalize_forwarded_client_address a = a"
proof -
  have ne: "a \<noteq> ''''" using assms(1) no_address_Nil by auto
  have "strip_by (\<lambda>c. c = CHR 0x22) a = a"
    using assms(3) by (intro strip_by_id) (metis hd_in_set last_in_set)
  moreover have "lower a \<noteq> ''unknown''" using assms(1) no_address_unknown by auto
  moreover have "\<not> startswith a ''[''" using assms(4) ne by (cases a) auto
  ultimately show ?thesis
    using assms ne by (auto simp: normalize_forwarded_client_address_def ip_address_or_empty_def)
qed

section \<open>Properties\<close>

text \<open>
  How a proxy writes an address into a header: bare, with a port behind it, in brackets with or
  without a port, and any of these between double quotes.
\<close>

definition clean_address :: "string \<Rightarrow> bool" where
  "clean_address a \<longleftrightarrow> ip_address_of a \<noteq> None \<and> py_strip a = a \<and> list_all (\<lambda>c. c \<notin> {CHR 0x22, CHR ''['', CHR '']''}) a"

definition port_text :: "string \<Rightarrow> bool" where
  "port_text p \<longleftrightarrow> p \<noteq> '''' \<and> list_all (\<lambda>c. c \<in> set ''0123456789'') p"

definition bare_form :: "string \<Rightarrow> string \<Rightarrow> bool" where
  "bare_form w a \<longleftrightarrow> clean_address a \<and>
     (w = a \<or> w = CHR ''['' # a @ '']'' \<or> (\<exists>p. port_text p \<and> w = CHR ''['' # a @ '']:'' @ p) \<or>
      (\<exists>p. port_text p \<and> w = a @ '':'' @ p \<and> ip_address_of w = None))"

definition writes_address :: "string \<Rightarrow> string \<Rightarrow> bool" where
  "writes_address w a \<longleftrightarrow> bare_form w a \<or> (\<exists>v. bare_form v a \<and> w = CHR 0x22 # v @ [CHR 0x22])"

text \<open>The last hop of a header: the whole value, or what follows the last comma.\<close>

definition last_hop :: "string \<Rightarrow> string \<Rightarrow> bool" where
  "last_hop v hop \<longleftrightarrow> CHR '','' \<notin> set hop \<and> (v = hop \<or> (\<exists>sent. v = sent @ CHR '','' # hop))"

text \<open>
  The address the server's peer vouches for. A peer that is no trusted proxy vouches for its own. A trusted
  proxy vouches for the one it appended to X-Forwarded-For, whatever else the headers say; or, when no
  X-Forwarded-* header says anything, for the one that starts the hop it appended to Forwarded.
\<close>

definition vouched_address :: "http_request \<Rightarrow> web_settings \<Rightarrow> string \<Rightarrow> bool" where
  "vouched_address rq se address \<longleftrightarrow>
     (if client_is_trusted_proxy rq se
      then \<exists>hop w. writes_address w address \<and>
        (last_hop (header rq ''x-forwarded-for'') hop \<and> py_strip hop = w \<or>
         \<not> has_x_forwarded_headers rq \<and> last_hop (header rq ''forwarded'') hop \<and> CHR '';'' \<notin> set w \<and>
           (py_strip hop = ''for='' @ w \<or> (\<exists>pairs. py_strip hop = ''for='' @ w @ '';'' @ pairs)))
      else rq_client rq = Some address)"

lemma digit_facts:
  "\<forall>c \<in> set ''0123456789''. py_isdigit_char c \<and> \<not> py_space c \<and> c \<noteq> CHR 0x22 \<and> c \<noteq> CHR '':''"
  by code_simp

lemma port_text_facts:
  assumes "port_text p"
  shows "list_all py_isdigit_char p" "\<not> py_space (last p)" "last p \<noteq> CHR 0x22" "CHR '':'' \<notin> set p" "p \<noteq> ''''"
proof -
  have p: "p \<noteq> ''''" "\<forall>c \<in> set p. c \<in> set ''0123456789''" using assms by (auto simp: port_text_def list_all_iff)
  show "p \<noteq> ''''" by (rule p(1))
  show "list_all py_isdigit_char p" using p digit_facts unfolding list_all_iff by blast
  have l: "last p \<in> set ''0123456789''" using p by (meson last_in_set)
  show "\<not> py_space (last p)" "last p \<noteq> CHR 0x22" using bspec [OF digit_facts l] by blast+
  show "CHR '':'' \<notin> set p" using p(2) digit_facts by blast
qed

lemma clean_address_facts:
  assumes "clean_address a"
  shows "a \<noteq> ''''" "\<not> py_space (hd a)" "\<not> py_space (last a)" "hd a \<noteq> CHR 0x22" "last a \<noteq> CHR 0x22"
    "hd a \<noteq> CHR ''[''" "CHR '']'' \<notin> set a" "lower a \<noteq> ''unknown''"
proof -
  show ne: "a \<noteq> ''''" using assms no_address_Nil by (auto simp: clean_address_def)
  have s: "py_strip a = a" "CHR 0x22 \<notin> set a" "CHR ''['' \<notin> set a" "CHR '']'' \<notin> set a"
    using assms by (auto simp: clean_address_def list_all_iff)
  show "\<not> py_space (hd a)" "\<not> py_space (last a)"
    using hd_strip_by [of py_space a] last_strip_by [of py_space a] s(1) ne by (simp_all add: py_strip_def)
  show "hd a \<noteq> CHR 0x22" "last a \<noteq> CHR 0x22" "hd a \<noteq> CHR ''[''"
    using s(2,3) hd_in_set [OF ne] last_in_set [OF ne] by metis+
  show "CHR '']'' \<notin> set a" by (rule s(4))
  show "lower a \<noteq> ''unknown''" using assms no_address_unknown by (auto simp: clean_address_def)
qed

text \<open>What is left after blanks and quotes are stripped.\<close>

definition forwarded_raw :: "string \<Rightarrow> string" where
  "forwarded_raw raw =
     (if raw = '''' \<or> lower raw = ''unknown'' then ''''
      else if startswith raw ''[''
      then (case break_at '']'' (tl raw) of None \<Rightarrow> raw | Some (host, r) \<Rightarrow> host)
      else if ip_address_or_empty raw \<noteq> '''' then raw
      else case rbreak_char CHR '':'' raw of
        None \<Rightarrow> raw
      | Some (host, port) \<Rightarrow>
          if port \<noteq> '''' \<and> list_all py_isdigit_char port \<and> ip_address_of host \<noteq> None then host else raw)"

lemma forwarded_raw_bare:
  assumes "bare_form v a"
  shows "forwarded_raw v = a" "v \<noteq> ''''" "\<not> py_space (hd v)" "\<not> py_space (last v)" "hd v \<noteq> CHR 0x22" "last v \<noteq> CHR 0x22"
proof -
  have c: "clean_address a" using assms by (simp add: bare_form_def)
  note f = clean_address_facts [OF c]
  have addr: "ip_address_of a \<noteq> None" using c by (simp add: clean_address_def)
  have br: "break_at '']'' (a @ CHR '']'' # r) = Some (a, r)" for r
    using f(7) by (simp add: break_at_char_Some)
  have ns: "\<not> startswith (a @ r) ''[''" for r using f(1,6) by (cases a) auto
  have "lower_char CHR ''['' \<noteq> CHR ''u''" by code_simp
  then have unk: "lower (CHR ''['' # cs) \<noteq> ''unknown''" for cs by (simp add: lower_def)
  have col: "lower w = ''unknown'' \<Longrightarrow> CHR '':'' \<notin> set w" for w
  proof -
    have "lower_char CHR '':'' \<notin> set ''unknown''" by code_simp
    then show "lower w = ''unknown'' \<Longrightarrow> CHR '':'' \<notin> set w" by (metis image_eqI list.set_map lower_def)
  qed
  from assms consider "v = a" | "v = CHR ''['' # a @ '']''" | p where "port_text p" "v = CHR ''['' # a @ '']:'' @ p"
    | p where "port_text p" "v = a @ '':'' @ p" "ip_address_of v = None"
    unfolding bare_form_def by blast
  then have "forwarded_raw v = a \<and> v \<noteq> '''' \<and> \<not> py_space (hd v) \<and> \<not> py_space (last v) \<and> hd v \<noteq> CHR 0x22 \<and> last v \<noteq> CHR 0x22"
  proof cases
    case 1
    then show ?thesis using f addr ns [of "''''"] by (auto simp: forwarded_raw_def ip_address_or_empty_def)
  next
    case 2
    moreover have "\<not> py_space CHR ''[''" "\<not> py_space CHR '']''" by code_simp+
    ultimately show ?thesis using br [of "''''"] unk by (simp add: forwarded_raw_def startswith_def)
  next
    case 3
    moreover have "\<not> py_space CHR ''[''" by code_simp
    ultimately show ?thesis using br [of "CHR '':'' # p"] unk port_text_facts [OF 3(1)]
      by (simp add: forwarded_raw_def startswith_def)
  next
    case 4
    note p = port_text_facts [OF 4(1)]
    have "rbreak_char CHR '':'' v = Some (a, p)" using 4(2) p(4) by (simp add: rbreak_char_Some)
    moreover have "\<not> startswith v ''[''" using ns 4(2) by simp
    moreover have "lower v \<noteq> ''unknown''" using col [of v] 4(2) by auto
    ultimately show ?thesis using 4 p f addr by (simp add: forwarded_raw_def ip_address_or_empty_def)
  qed
  then show "forwarded_raw v = a" "v \<noteq> ''''" "\<not> py_space (hd v)" "\<not> py_space (last v)" "hd v \<noteq> CHR 0x22" "last v \<noteq> CHR 0x22"
    by blast+
qed

lemma normalize_written:
  assumes "writes_address w a"
  shows "normalize_forwarded_client_address w = a" "py_strip w = w" "w \<noteq> ''''"
proof -
  have n: "normalize_forwarded_client_address w = forwarded_raw (strip_by (\<lambda>c. c = CHR 0x22) (py_strip w))"
    by (simp add: normalize_forwarded_client_address_def forwarded_raw_def Let_def)
  have "py_strip w = w \<and> forwarded_raw (strip_by (\<lambda>c. c = CHR 0x22) w) = a \<and> w \<noteq> ''''"
    using assms unfolding writes_address_def
  proof
    assume b: "bare_form w a"
    note f = forwarded_raw_bare [OF b]
    then show ?thesis by (simp add: py_strip_def strip_by_id)
  next
    assume "\<exists>v. bare_form v a \<and> w = CHR 0x22 # v @ [CHR 0x22]"
    then obtain v where v: "bare_form v a" "w = CHR 0x22 # v @ [CHR 0x22]" by blast
    note f = forwarded_raw_bare [OF v(1)]
    have q: "\<not> py_space CHR 0x22" by code_simp
    have "strip_by (\<lambda>c. c = CHR 0x22) w = strip_by (\<lambda>c. c = CHR 0x22) v"
      unfolding v(2) using f(2,5) by (cases v) (simp_all add: strip_by_def)
    then have "strip_by (\<lambda>c. c = CHR 0x22) w = v" using f(5,6) by (simp add: strip_by_id)
    moreover have "py_strip w = w" using q v(2) by (simp add: py_strip_def strip_by_id)
    ultimately show ?thesis using f(1) v(2) by simp
  qed
  with n show "normalize_forwarded_client_address w = a" "py_strip w = w" "w \<noteq> ''''" by simp_all
qed

lemma last_hop_value:
  assumes "last_hop v hop" and "py_strip hop \<noteq> ''''"
  shows "last_forwarded_header_value v = py_strip hop"
  using assms last_forwarded_appended [of hop]
  by (auto simp: last_hop_def last_forwarded_header_value_def split_on_single)

lemma forwarded_pairs_first:
  assumes "last_hop v hop" and "CHR '';'' \<notin> set w" and "w \<noteq> ''''" and "py_strip w = w"
    and "py_strip hop = ''for='' @ w \<or> (\<exists>pairs. py_strip hop = ''for='' @ w @ '';'' @ pairs)"
  shows "map_of (forwarded_pairs v) ''for'' = Some w"
proof -
  have ne: "py_strip hop \<noteq> ''''" using assms(5) by auto
  note last = last_hop_value [OF assms(1) ne]
  have sep: "CHR '';'' \<notin> set (''for='' @ w)" using assms(2) by simp
  have "\<not> py_space (last w)" using last_strip_by [of py_space w] assms(3,4) by (simp add: py_strip_def)
  moreover have "\<not> py_space CHR ''f''" by code_simp
  ultimately have "py_strip (''for='' @ w) = ''for='' @ w" using assms(3) by (simp add: py_strip_def strip_by_id)
  moreover have "break_at ''='' (''for='' @ w) = Some (''for'', w)" by (simp add: break_at_char_Some)
  moreover have "lower ''for'' = ''for''" by code_simp
  moreover obtain rest where "split_on CHR '';'' (py_strip hop) = (''for='' @ w) # rest"
    using assms(5)
  proof
    assume "py_strip hop = ''for='' @ w"
    then show thesis using that [of "[]"] sep by (simp add: split_on_single)
  next
    assume "\<exists>pairs. py_strip hop = ''for='' @ w @ '';'' @ pairs"
    then obtain pairs where "py_strip hop = (''for='' @ w) @ CHR '';'' # pairs" by auto
    then show thesis using that split_on_append [OF sep] by metis
  qed
  ultimately show ?thesis unfolding forwarded_pairs_def last by simp
qed

section \<open>Properties\<close>

text \<open>C32: The client address the throttles count by is the one the server's peer vouches for. A peer that is
  no trusted proxy counts by its own address, whatever headers it sends. Behind a trusted proxy that appends the address it saw
  to X-Forwarded-For, or sets the header, that address counts: neither what the client put into the header before it nor a Forwarded header
  of its own changes it. Behind a trusted proxy that only appends a hop to Forwarded, the address of that hop counts
  as long as no X-Forwarded-* header says anything; the operator is told to have such a proxy strip those the
  client sends. The address may be written with a port, brackets and quotes.\<close>

theorem client_address_not_forged:
  assumes "vouched_address rq se address"
  shows "request_client_address rq se = address"
proof (cases "client_is_trusted_proxy rq se")
  case False
  then show ?thesis
    using assms by (simp add: vouched_address_def request_client_address_def trusted_forwarded_client_address_def)
next
  case True
  then obtain hop w where w: "writes_address w address" and c:
      "last_hop (header rq ''x-forwarded-for'') hop \<and> py_strip hop = w \<or>
       \<not> has_x_forwarded_headers rq \<and> last_hop (header rq ''forwarded'') hop \<and> CHR '';'' \<notin> set w \<and>
         (py_strip hop = ''for='' @ w \<or> (\<exists>pairs. py_strip hop = ''for='' @ w @ '';'' @ pairs))"
    using assms by (auto simp: vouched_address_def)
  note n = normalize_written [OF w]
  have "clean_address address" using w by (auto simp: writes_address_def bare_form_def)
  then have a: "ip_address_or_empty address = address" "address \<noteq> ''''"
    using clean_address_facts(1) by (auto simp: ip_address_or_empty_def clean_address_def)
  from c have "trusted_forwarded_client_address rq se = address"
  proof
    assume x: "last_hop (header rq ''x-forwarded-for'') hop \<and> py_strip hop = w"
    then have last: "last_forwarded_header_value (header rq ''x-forwarded-for'') = w"
      using last_hop_value n(3) by blast
    then have "has_x_forwarded_headers rq" using n(3) by (simp add: has_x_forwarded_headers_def)
    with True last n(1) a(1) show ?thesis by (simp add: trusted_forwarded_client_address_def)
  next
    assume x: "\<not> has_x_forwarded_headers rq \<and> last_hop (header rq ''forwarded'') hop \<and> CHR '';'' \<notin> set w \<and>
         (py_strip hop = ''for='' @ w \<or> (\<exists>pairs. py_strip hop = ''for='' @ w @ '';'' @ pairs))"
    then have "map_of (forwarded_pairs (header rq ''forwarded'')) ''for'' = Some w"
      using forwarded_pairs_first n(2,3) by blast
    moreover have "header rq ''forwarded'' \<noteq> ''''" using x by (auto simp: last_hop_def py_strip_def strip_by_def)
    ultimately show ?thesis
      using True x n(1) a(1)
      by (simp add: trusted_forwarded_client_address_def client_address_from_forwarded_header_def)
  qed
  with a(2) show ?thesis by (simp add: request_client_address_def)
qed

definition proxied_request :: http_request where
  "proxied_request = \<lparr>rq_method = ''POST'', rq_scheme = ''http'', rq_path = ''/api/v1/auth/login'',
     rq_headers = [(''x-forwarded-for'', ''1.1.1.1, [2001:db8::7]:80''), (''forwarded'', ''for=8.8.8.8'')],
     rq_cookies = [], rq_client = Some ''10.0.0.2''\<rparr>"

definition proxied_settings :: web_settings where
  "proxied_settings = \<lparr>se_auth_token = '''', se_dev_no_auth = False, se_allowed_origins = [], se_public_origin = '''',
     se_allowed_hosts = [], se_trusted_proxies = [Net4 (10 * 16777216) 8], se_secure_cookies = ''auto''\<rparr>"

theorem client_address_not_forged_witness:
  "request_client_address proxied_request proxied_settings = ''2001:db8::7''"
proof (rule client_address_not_forged)
  have "clean_address ''2001:db8::7''" "port_text ''80''" by code_simp+
  then have "bare_form ''[2001:db8::7]:80'' ''2001:db8::7''"
    unfolding bare_form_def by (intro conjI disjI2 disjI1 exI[of _ "''80''"]) simp_all
  then have w: "writes_address ''[2001:db8::7]:80'' ''2001:db8::7''" by (simp add: writes_address_def)
  have p: "client_is_trusted_proxy proxied_request proxied_settings" by code_simp
  have h: "header proxied_request ''x-forwarded-for'' = ''1.1.1.1, [2001:db8::7]:80''" by code_simp
  have "py_strip '' [2001:db8::7]:80'' = ''[2001:db8::7]:80''" by code_simp
  moreover have "last_hop (header proxied_request ''x-forwarded-for'') '' [2001:db8::7]:80''"
    unfolding last_hop_def h by (intro conjI disjI2 exI[of _ "''1.1.1.1''"]) simp_all
  ultimately show "vouched_address proxied_request proxied_settings ''2001:db8::7''"
    unfolding vouched_address_def if_P [OF p] using w by blast
qed

text \<open>
  Only the first header line of a name is read. A proxy that adds a line of its own instead of appending to
  the one the client sent is not heard.
\<close>

definition second_line_request :: http_request where
  "second_line_request = proxied_request\<lparr>rq_headers :=
     [(''x-forwarded-for'', ''1.1.1.1''), (''x-forwarded-for'', ''2001:db8::7'')]\<rparr>"

lemma second_header_line_unread: "request_client_address second_line_request proxied_settings = ''1.1.1.1''"
  by code_simp

end
