(* ===== verification/Auth_Requests.thy ===== *)
theory Auth_Requests
  imports Request_Context Auth_Throttle
begin

text \<open>
  The checks \<open>src/src/wudup/web_auth.py\<close> makes of every request before its handler runs: the Host header,
  the origin and the CSRF token of an unsafe request, and the cookies and configuration values they rest on.
  A ValueError of \<open>urlsplit\<close> that leaves a check is the answer 500 of the framework.
\<close>

section \<open>The safety middleware\<close>

datatype middleware_answer = CallNext | Refuse nat string

definition SAFE_METHODS :: "string list" where
  "SAFE_METHODS = [''GET'', ''HEAD'', ''OPTIONS'', ''TRACE'']"

definition CSRF_HEADER :: string where
  "CSRF_HEADER = ''x-wud-csrf-token''"

definition CSRF_COOKIE :: string where
  "CSRF_COOKIE = ''wud_csrf_token''"

text \<open>\<open>str.upper\<close> of a request method, whose letters are those of ASCII.\<close>

definition upper_char :: "char \<Rightarrow> char" where
  "upper_char c = (let n = of_char c :: nat in if 97 \<le> n \<and> n \<le> 122 then char_of (n - 32) else c)"

definition safe_method :: "http_request \<Rightarrow> bool" where
  "safe_method rq = (map upper_char (rq_method rq) \<in> set SAFE_METHODS)"

definition host_header_error :: "http_request \<Rightarrow> web_settings \<Rightarrow> middleware_answer option" where
  "host_header_error rq se =
     (let normalized = normalize_host (header rq ''host'')
      in if normalized \<noteq> '''' \<and> normalized \<in> set (se_allowed_hosts se) then None
         else Some (Refuse 400 ''host is not allowed''))"

definition requires_csrf_origin_check :: "http_request \<Rightarrow> bool" where
  "requires_csrf_origin_check rq = (\<not> safe_method rq \<and> startswith (rq_path rq) ''/api/v1/'')"

text \<open>\<open>_origin_allowed\<close>, None where parsing an origin raises.\<close>

definition origin_allowed :: "http_request \<Rightarrow> web_settings \<Rightarrow> string \<Rightarrow> bool option" where
  "origin_allowed rq se origin =
     (case normalize_origin origin of
        None \<Rightarrow> None
      | Some normalized \<Rightarrow>
          if normalized = '''' then Some False
          else if normalized \<in> set (se_allowed_origins se) then Some True
          else map_option (\<lambda>same_origin. normalized = same_origin) (effective_origin rq se))"

definition server_error :: middleware_answer where
  "server_error = Refuse 500 ''Internal Server Error''"

definition csrf_origin_error :: "http_request \<Rightarrow> web_settings \<Rightarrow> middleware_answer option" where
  "csrf_origin_error rq se =
     (let origin = header rq ''origin''
      in if origin = '''' then Some (Refuse 403 ''origin header is required'')
         else case origin_allowed rq se origin of
           None \<Rightarrow> Some server_error
         | Some False \<Rightarrow> Some (Refuse 403 ''origin is not allowed'')
         | Some True \<Rightarrow>
             let csrf_header = header rq CSRF_HEADER; csrf_cookie = cookie rq CSRF_COOKIE
             in if csrf_header = '''' \<or> csrf_cookie = '''' then Some (Refuse 403 ''csrf token is required'')
                else if csrf_header \<noteq> csrf_cookie then Some (Refuse 403 ''csrf token is invalid'')
                else None)"

definition request_safety_middleware :: "http_request \<Rightarrow> web_settings \<Rightarrow> middleware_answer" where
  "request_safety_middleware rq se =
     (case host_header_error rq se of
        Some host_error \<Rightarrow> host_error
      | None \<Rightarrow>
          if requires_csrf_origin_check rq
          then (case csrf_origin_error rq se of Some e \<Rightarrow> e | None \<Rightarrow> CallNext)
          else CallNext)"

section \<open>Cookies\<close>

record set_cookie =
  ck_name :: string
  ck_content :: string
  ck_max_age :: "nat option"
  ck_http_only :: bool
  ck_secure :: bool

definition SESSION_COOKIE :: string where
  "SESSION_COOKIE = ''wud_session''"

definition SESSION_MAX_AGE_SECONDS :: nat where
  "SESSION_MAX_AGE_SECONDS = 86400"

definition secure_cookie :: "web_settings \<Rightarrow> http_request \<Rightarrow> bool option" where
  "secure_cookie se rq =
     (if se_secure_cookies se = ''true'' then Some True
      else if se_secure_cookies se = ''false'' then Some False
      else map_option (\<lambda>origin. startswith origin ''https://'') (effective_origin rq se))"

definition csrf_cookie_of :: "string \<Rightarrow> http_request \<Rightarrow> web_settings \<Rightarrow> set_cookie option" where
  "csrf_cookie_of csrf_token rq se =
     map_option (\<lambda>secure. \<lparr>ck_name = CSRF_COOKIE, ck_content = csrf_token, ck_max_age = Some SESSION_MAX_AGE_SECONDS,
       ck_http_only = False, ck_secure = secure\<rparr>) (secure_cookie se rq)"

definition session_cookie_of :: "string \<Rightarrow> http_request \<Rightarrow> web_settings \<Rightarrow> set_cookie option" where
  "session_cookie_of session rq se =
     map_option (\<lambda>secure. \<lparr>ck_name = SESSION_COOKIE, ck_content = session, ck_max_age = Some SESSION_MAX_AGE_SECONDS,
       ck_http_only = True, ck_secure = secure\<rparr>) (secure_cookie se rq)"

section \<open>Configuration values\<close>

definition WEB_TOKEN_RECOMMENDED_MIN_LENGTH :: nat where
  "WEB_TOKEN_RECOMMENDED_MIN_LENGTH = 32"

definition weak_auth_token_warning :: "web_settings \<Rightarrow> string" where
  "weak_auth_token_warning se =
     (if se_auth_token se = '''' \<or> length (se_auth_token se) \<ge> WEB_TOKEN_RECOMMENDED_MIN_LENGTH then ''''
      else ''WUD_WEB_TOKEN is shorter than '' @ show_nat WEB_TOKEN_RECOMMENDED_MIN_LENGTH
        @ '' characters, so a client that can reach the WebUI could guess it. ''
        @ ''Replace it with a long random value, for example from `openssl rand -hex 32`.'')"

definition secure_cookie_mode_known :: "string \<Rightarrow> bool" where
  "secure_cookie_mode_known mode = (mode \<in> {''auto'', ''true'', ''false''})"

definition secure_cookie_mode_error :: string where
  "secure_cookie_mode_error = ''WUD_WEB_SECURE_COOKIES must be auto, true, or false''"

definition validate_startup_auth :: "web_settings \<Rightarrow> string + unit" where
  "validate_startup_auth se =
     (if secure_cookie_mode_known (se_secure_cookies se) then Inr () else Inl secure_cookie_mode_error)"

definition any_address :: "string \<Rightarrow> bool" where
  "any_address host = (host \<in> {''0.0.0.0'', ''::''})"

definition validate_bind_host_allowed :: "web_settings \<Rightarrow> string \<Rightarrow> string + unit" where
  "validate_bind_host_allowed se host =
     (let normalized = normalize_host host
      in if normalized = '''' \<or> any_address normalized then Inr ()
         else if normalized \<in> set (se_allowed_hosts se) then Inr ()
         else Inl (''WUD_WEB_ALLOWED_HOSTS must include '' @ normalized @ '' when binding the WebUI to that host. ''
           @ ''Set WUD_WEB_PUBLIC_ORIGIN to the browser-visible origin, or add extra aliases to WUD_WEB_ALLOWED_HOSTS.''))"

definition parse_bool :: "string option \<Rightarrow> bool \<Rightarrow> string + bool" where
  "parse_bool v d =
     (case v of
        None \<Rightarrow> Inr d
      | Some raw \<Rightarrow>
          let normalized = lower (py_strip raw)
          in if normalized \<in> {''1'', ''true'', ''yes'', ''on''} then Inr True
             else if normalized \<in> {'''', ''0'', ''false'', ''no'', ''off''} then Inr False
             else Inl (''invalid boolean value: '' @ raw))"

text \<open>The origins of a comma separated list, in order; the code keeps them as a set.\<close>

definition parse_origins :: "string \<Rightarrow> string list option" where
  "parse_origins v = map_option (filter (\<lambda>origin. origin \<noteq> '''')) (all_some (map normalize_origin (split_on CHR '','' v)))"

definition parse_public_origin :: "string \<Rightarrow> (string + string) option" where
  "parse_public_origin v =
     (if py_strip v = '''' then Some (Inr '''')
      else map_option (\<lambda>origin. if origin = '''' then Inl ''WUD_WEB_PUBLIC_ORIGIN must be an http(s) origin'' else Inr origin)
        (normalize_origin v))"

definition DEFAULT_ALLOWED_HOSTS :: "string list" where
  "DEFAULT_ALLOWED_HOSTS = [''localhost'', ''127.0.0.1'', ''::1'']"

definition parse_allowed_hosts :: "string \<Rightarrow> string \<Rightarrow> string \<Rightarrow> string list option" where
  "parse_allowed_hosts v public_origin bind_host =
     (case (if public_origin = '''' then Some '''' else host_from_origin public_origin) of
        None \<Rightarrow> None
      | Some public_host \<Rightarrow>
          let bind = normalize_host bind_host
          in Some (DEFAULT_ALLOWED_HOSTS @ filter (\<lambda>h. h \<noteq> '''') [public_host]
               @ filter (\<lambda>h. h \<noteq> '''' \<and> \<not> any_address h) [bind]
               @ filter (\<lambda>h. h \<noteq> '''') (map normalize_host (split_on CHR '','' v))))"

definition parse_secure_cookie_mode :: "string \<Rightarrow> string + string" where
  "parse_secure_cookie_mode v =
     (let normalized = lower (py_strip v); mode = (if normalized = '''' then ''auto'' else normalized)
      in if secure_cookie_mode_known mode then Inr mode else Inl secure_cookie_mode_error)"

definition display_origin :: "web_settings \<Rightarrow> string \<Rightarrow> nat \<Rightarrow> string" where
  "display_origin se host port =
     (if se_public_origin se \<noteq> '''' then se_public_origin se
      else let shown = (if any_address host then ''127.0.0.1'' else host);
               shown = (if CHR '':'' \<in> set shown \<and> \<not> startswith shown ''['' then ''['' @ shown @ '']'' else shown)
           in ''http://'' @ shown @ '':'' @ show_nat port)"

end
