(* ===== verification/Auth_Lockout.thy ===== *)
theory Auth_Lockout
  imports Auth_Throttle
begin

text \<open>
  Logins running side by side. \<open>api_auth_login\<close> of \<open>src/src/wudup/web_auth.py\<close> reserves an attempt, checks
  the password without holding the lock, records a failure or clears the throttle, and always releases the
  attempt; bearer tokens have a bucket of their own. A step is one of these operations by one request, and
  steps of different requests come in any order. Each carries the time its request read from the clock
  before it took the lock, so the times of successive steps need not be ordered.
\<close>

section \<open>Steps\<close>

text \<open>A request in flight: its address, its user name, and whether its password is still to be judged.\<close>

type_synonym login_attempt = "string \<times> string \<times> bool"

record login_system =
  sy_state :: login_state
  sy_attempts :: "login_attempt list"

datatype login_event =
    Admitted string string
  | Refused string string
  | WrongPassword string string
  | LoggedIn string string
  | Released string string
  | BearerSeen string "string option"

inductive login_step :: "string \<Rightarrow> login_system \<Rightarrow> real \<Rightarrow> login_event \<Rightarrow> login_system \<Rightarrow> bool" for auth_token where
  admit: "reserve_login_attempt c u t (sy_state y) = (True, s') \<Longrightarrow>
     login_step auth_token y t (Admitted c u) \<lparr>sy_state = s', sy_attempts = (c, u, True) # sy_attempts y\<rparr>"
| refuse: "reserve_login_attempt c u t (sy_state y) = (False, s') \<Longrightarrow>
     login_step auth_token y t (Refused c u) \<lparr>sy_state = s', sy_attempts = sy_attempts y\<rparr>"
| wrong: "(c, u, True) \<in> set (sy_attempts y) \<Longrightarrow>
     login_step auth_token y t (WrongPassword c u) \<lparr>sy_state = record_login_failure c u t (sy_state y),
       sy_attempts = (c, u, False) # remove1 (c, u, True) (sy_attempts y)\<rparr>"
| right: "(c, u, True) \<in> set (sy_attempts y) \<Longrightarrow>
     login_step auth_token y t (LoggedIn c u) \<lparr>sy_state = clear_login_throttle c u (sy_state y),
       sy_attempts = (c, u, False) # remove1 (c, u, True) (sy_attempts y)\<rparr>"
| release: "(c, u, checking) \<in> set (sy_attempts y) \<Longrightarrow>
     login_step auth_token y t (Released c u) \<lparr>sy_state = release_login_attempt c u (sy_state y),
       sy_attempts = remove1 (c, u, checking) (sy_attempts y)\<rparr>"
| bearer: "bearer_token_accepted auth_token c a t (sy_state y) = (ok, s') \<Longrightarrow>
     login_step auth_token y t (BearerSeen c a) \<lparr>sy_state = s', sy_attempts = sy_attempts y\<rparr>"

inductive_cases admitE: "login_step tok y t (Admitted c u) y'"
inductive_cases loginE: "login_step tok y t e y'"

inductive login_run :: "string \<Rightarrow> login_system \<Rightarrow> (real \<times> login_event) list \<Rightarrow> login_system \<Rightarrow> bool" for auth_token where
  login_stay: "login_run auth_token y [] y"
| login_next: "login_step auth_token y t e y' \<Longrightarrow> login_run auth_token y' es y'' \<Longrightarrow>
     login_run auth_token y ((t, e) # es) y''"

inductive_cases login_run_ConsE: "login_run tok y (te # es) y'"
inductive_simps login_run_Nil [simp]: "login_run tok y [] y'"

definition initial_login_system :: login_system where
  "initial_login_system = \<lparr>sy_state = initial_login_state, sy_attempts = []\<rparr>"

definition login_reachable :: "string \<Rightarrow> login_system \<Rightarrow> bool" where
  "login_reachable tok y = (\<exists>es. login_run tok initial_login_system es y)"

lemma login_run_append:
  "login_run tok y es y' \<Longrightarrow> login_run tok y' fs y'' \<Longrightarrow> login_run tok y (es @ fs) y''"
  by (induction rule: login_run.induct) (auto intro: login_next)

lemma login_reachable_run: "login_reachable tok y \<Longrightarrow> login_run tok y es y' \<Longrightarrow> login_reachable tok y'"
  unfolding login_reachable_def using login_run_append by blast

section \<open>The invariant\<close>

text \<open>How many attempts in flight have a key, and how many of them still wait for their verdict.\<close>

definition attempt_key :: "login_attempt \<Rightarrow> login_key" where
  "attempt_key a = login_throttle_key (fst (snd a)) (fst a)"

definition attempts_of :: "(login_attempt \<Rightarrow> 'k) \<Rightarrow> 'k \<Rightarrow> login_attempt list \<Rightarrow> nat" where
  "attempts_of key k as = length (filter (\<lambda>a. key a = k) as)"

definition checking_of :: "(login_attempt \<Rightarrow> 'k) \<Rightarrow> 'k \<Rightarrow> login_attempt list \<Rightarrow> nat" where
  "checking_of key k as = length (filter (\<lambda>a. key a = k \<and> snd (snd a)) as)"

text \<open>One of the two throttles with its pending counts; \<open>key\<close> reads the account or the address of an attempt.\<close>

definition throttle_inv ::
  "(login_attempt \<Rightarrow> 'k) \<Rightarrow> 'k throttle \<Rightarrow> ('k \<times> nat) list \<Rightarrow> login_attempt list \<Rightarrow> bool" where
  "throttle_inv key m pending as =
     (sound_throttle m \<and>
      (\<forall>k. dict_get pending k 0 = attempts_of key k as) \<and>
      (\<forall>k. failures_of m k + checking_of key k as \<le> LOGIN_THROTTLE_MAX_FAILURES))"

lemma checking_le_attempts: "checking_of key k as \<le> attempts_of key k as"
  unfolding checking_of_def attempts_of_def by (induction as) auto

lemma attempts_Cons [simp]: "attempts_of key k (a # as) = attempts_of key k as + (if key a = k then 1 else 0)"
  by (simp add: attempts_of_def)

lemma checking_Cons [simp]:
  "checking_of key k (a # as) = checking_of key k as + (if key a = k \<and> snd (snd a) then 1 else 0)"
  by (simp add: checking_of_def)

lemma attempts_remove1:
  "a \<in> set as \<Longrightarrow> attempts_of key k (remove1 a as) = attempts_of key k as - (if key a = k then 1 else 0)"
  by (simp add: attempts_of_def filter_remove1 length_remove1)

lemma attempts_pos: "a \<in> set as \<Longrightarrow> key a = k \<Longrightarrow> 0 < attempts_of key k as"
  by (force simp: attempts_of_def filter_empty_conv)

lemma checking_remove1:
  "a \<in> set as \<Longrightarrow> checking_of key k (remove1 a as) = checking_of key k as - (if key a = k \<and> snd (snd a) then 1 else 0)"
  by (simp add: checking_of_def filter_remove1 length_remove1)

lemma checking_pos: "a \<in> set as \<Longrightarrow> key a = k \<Longrightarrow> snd (snd a) \<Longrightarrow> 0 < checking_of key k as"
  by (force simp: checking_of_def filter_empty_conv)

lemma dict_get_delete: "dict_get (AList.delete k m) x d = (if x = k then d else dict_get m x d)"
  by (simp add: dict_get_def delete_conv')

lemma dict_get_decrement: "dict_get (decrement_pending k m) x 0 = dict_get m x 0 - (if x = k then 1 else 0)"
  by (auto simp: decrement_pending_def Let_def dict_get_delete)

text \<open>The five things an attempt does to a throttle keep its invariant.\<close>

lemma throttle_inv_count:
  "throttle_inv key m pending as \<Longrightarrow> failures_of m k + checking_of key k as \<le> LOGIN_THROTTLE_MAX_FAILURES"
  by (simp add: throttle_inv_def)

lemma throttle_inv_prune:
  assumes "throttle_inv key m pending as"
  shows "throttle_inv key (prune_login_throttle now m) pending as"
  unfolding throttle_inv_def
proof (intro conjI allI)
  fix k
  have "failures_of (prune_login_throttle now m) k \<le> failures_of m k"
    using assms failures_prune[of m] by (simp add: throttle_inv_def sound_distinct)
  then show "failures_of (prune_login_throttle now m) k + checking_of key k as \<le> LOGIN_THROTTLE_MAX_FAILURES"
    using throttle_inv_count[OF assms, of k] by linarith
qed (use assms in \<open>auto simp: throttle_inv_def\<close>)

lemma throttle_inv_admit:
  assumes i: "throttle_inv key m pending as"
    and ok: "\<not> login_attempts_exhausted (map_of m (key (c, u, True))) (dict_get pending (key (c, u, True)) 0) now"
  shows "throttle_inv key m (AList.update (key (c, u, True)) (dict_get pending (key (c, u, True)) 0 + 1) pending)
    ((c, u, True) # as)"
  using i exhausted_room[OF ok] checking_le_attempts[of key "key (c, u, True)" as]
  by (auto simp: throttle_inv_def)

lemma throttle_inv_wrong:
  assumes i: "throttle_inv key m pending as" and a: "(c, u, True) \<in> set as"
    and same: "key (c, u, False) = key (c, u, True)"
    and s: "sound_throttle m'"
    and f: "\<And>k. failures_of m' k \<le> failures_of m k + (if k = key (c, u, True) then 1 else 0)"
  shows "throttle_inv key m' pending ((c, u, False) # remove1 (c, u, True) as)"
  unfolding throttle_inv_def
proof (intro conjI allI)
  fix k
  have b: "failures_of m k + checking_of key k as \<le> LOGIN_THROTTLE_MAX_FAILURES" using i by (simp add: throttle_inv_def)
  show "failures_of m' k + checking_of key k ((c, u, False) # remove1 (c, u, True) as) \<le> LOGIN_THROTTLE_MAX_FAILURES"
    using f[of k] b a checking_pos[OF a, of key k] by (auto simp: checking_remove1 split: if_splits)
  show "dict_get pending k 0 = attempts_of key k ((c, u, False) # remove1 (c, u, True) as)"
    using i a same attempts_pos[OF a, of key k] by (auto simp: throttle_inv_def attempts_remove1)
qed (rule s)

lemma throttle_inv_clear:
  assumes i: "throttle_inv key m pending as" and a: "(c, u, True) \<in> set as"
    and same: "key (c, u, False) = key (c, u, True)"
  shows "throttle_inv key (AList.delete (key (c, u, True)) m) pending ((c, u, False) # remove1 (c, u, True) as)"
  by (rule throttle_inv_wrong[OF i a same])
     (use i in \<open>auto simp: throttle_inv_def failures_delete\<close>)

lemma throttle_inv_release:
  assumes i: "throttle_inv key m pending as" and a: "(c, u, p) \<in> set as"
  shows "throttle_inv key m (decrement_pending (key (c, u, p)) pending) (remove1 (c, u, p) as)"
proof -
  have "failures_of m k + checking_of key k (remove1 (c, u, p) as) \<le> LOGIN_THROTTLE_MAX_FAILURES" for k
    using throttle_inv_count[OF i, of k] checking_remove1[OF a, of key k] by linarith
  with i a show ?thesis
    by (auto simp: throttle_inv_def dict_get_decrement attempts_remove1)
qed

definition login_inv :: "login_system \<Rightarrow> bool" where
  "login_inv y =
     (throttle_inv attempt_key (ls_throttle (sy_state y)) (ls_pending (sy_state y)) (sy_attempts y) \<and>
      throttle_inv fst (ls_client_throttle (sy_state y)) (ls_client_pending (sy_state y)) (sy_attempts y) \<and>
      length (ls_throttle (sy_state y)) \<le> LOGIN_THROTTLE_MAX_ENTRIES \<and>
      length (ls_client_throttle (sy_state y)) \<le> LOGIN_THROTTLE_MAX_CLIENT_ENTRIES)"

lemma length_prune: "length (prune_login_throttle now m) \<le> length m"
  by (simp add: prune_login_throttle_def)

lemma length_delete_le: "length (AList.delete k m) \<le> length m"
  by (simp add: AList.delete_eq)

lemma attempt_key_simps [simp]: "attempt_key (c, u, p) = login_throttle_key u c"
  by (simp add: attempt_key_def)

lemmas throttle_inv_account = throttle_inv_admit[where key = attempt_key, simplified]
  throttle_inv_wrong[where key = attempt_key, simplified] throttle_inv_clear[where key = attempt_key, simplified]
  throttle_inv_release[where key = attempt_key, simplified]
lemmas throttle_inv_client = throttle_inv_admit[where key = fst, simplified]
  throttle_inv_wrong[where key = fst, simplified] throttle_inv_clear[where key = fst, simplified]
  throttle_inv_release[where key = fst, simplified]

lemma login_inv_step:
  assumes "login_step tok y t e y'" and "login_inv y"
  shows "login_inv y'"
  using assms
proof (cases rule: login_step.cases)
  case (admit c u s')
  let ?m = "prune_login_throttle t (ls_throttle (sy_state y))"
    and ?c = "prune_login_throttle t (ls_client_throttle (sy_state y))"
  from assms(2) have i: "throttle_inv attempt_key ?m (ls_pending (sy_state y)) (sy_attempts y)"
      "throttle_inv fst ?c (ls_client_pending (sy_state y)) (sy_attempts y)"
    by (simp_all add: login_inv_def throttle_inv_prune)
  from assms(2) have l: "length ?m \<le> LOGIN_THROTTLE_MAX_ENTRIES" "length ?c \<le> LOGIN_THROTTLE_MAX_CLIENT_ENTRIES"
    by (auto simp: login_inv_def intro: order_trans[OF length_prune])
  from admit have ok: "\<not> login_attempts_exhausted (map_of ?m (login_throttle_key u c))
        (dict_get (ls_pending (sy_state y)) (login_throttle_key u c) 0) t"
      "\<not> login_attempts_exhausted (map_of ?c c) (dict_get (ls_client_pending (sy_state y)) c 0) t"
    by (auto simp: reserve_login_attempt_def Let_def split: if_splits)
  show ?thesis
    using admit l throttle_inv_account(1)[OF i(1) ok(1)] throttle_inv_client(1)[OF i(2) ok(2)] ok
    by (auto simp: login_inv_def reserve_login_attempt_def Let_def)
next
  case (refuse c u s')
  then have "ls_throttle s' = prune_login_throttle t (ls_throttle (sy_state y))"
    "ls_client_throttle s' = prune_login_throttle t (ls_client_throttle (sy_state y))"
    "ls_pending s' = ls_pending (sy_state y)" "ls_client_pending s' = ls_client_pending (sy_state y)"
    by (auto simp: reserve_login_attempt_def Let_def split: if_splits)
  with refuse assms(2) show ?thesis
    by (auto simp: login_inv_def intro: throttle_inv_prune order_trans[OF length_prune])
next
  case (wrong c u)
  let ?m = "prune_login_throttle t (ls_throttle (sy_state y))"
    and ?c = "prune_login_throttle t (ls_client_throttle (sy_state y))"
  from assms(2) have i: "throttle_inv attempt_key ?m (ls_pending (sy_state y)) (sy_attempts y)"
      "throttle_inv fst ?c (ls_client_pending (sy_state y)) (sy_attempts y)"
    by (simp_all add: login_inv_def throttle_inv_prune)
  then have s: "sound_throttle ?m" "sound_throttle ?c" by (simp_all add: throttle_inv_def)
  from assms(2) have l: "length ?m \<le> LOGIN_THROTTLE_MAX_ENTRIES" "length ?c \<le> LOGIN_THROTTLE_MAX_CLIENT_ENTRIES"
    by (auto simp: login_inv_def intro: order_trans[OF length_prune])
  show ?thesis
    using wrong l length_record_account length_record_client
      throttle_inv_account(2)[OF i(1) wrong(3) sound_record_account[OF s(1)] failures_record_account]
      throttle_inv_client(2)[OF i(2) wrong(3) sound_record_client[OF s(2)] failures_record_client]
    by (auto simp: login_inv_def record_login_failure_def)
next
  case (right c u)
  with assms(2) show ?thesis
    by (auto simp: login_inv_def clear_login_throttle_def throttle_inv_account throttle_inv_client
      intro: order_trans[OF length_delete_le])
next
  case (release c u p)
  with assms(2) show ?thesis
    by (auto simp: login_inv_def release_login_attempt_def throttle_inv_account(4) throttle_inv_client(4))
next
  case (bearer c a ok s')
  then have "ls_throttle s' = ls_throttle (sy_state y)" "ls_client_throttle s' = ls_client_throttle (sy_state y)"
    "ls_pending s' = ls_pending (sy_state y)" "ls_client_pending s' = ls_client_pending (sy_state y)"
    by (auto simp: bearer_token_accepted_def Let_def split: if_splits prod.splits)
  with bearer assms(2) show ?thesis by (simp add: login_inv_def)
qed

lemma login_inv_run: "login_run tok y es y' \<Longrightarrow> login_inv y \<Longrightarrow> login_inv y'"
  by (induction rule: login_run.induct) (auto intro: login_inv_step)

lemma login_inv_initial: "login_inv initial_login_system"
  by (simp add: login_inv_def initial_login_system_def initial_login_state_def throttle_inv_def sound_throttle_def
    failures_of_def attempts_of_def checking_of_def dict_get_def)

lemma login_reachable_inv: "login_reachable tok y \<Longrightarrow> login_inv y"
  unfolding login_reachable_def using login_inv_run login_inv_initial by blast

section \<open>A locked account stays locked\<close>

definition locked_since :: "'k throttle \<Rightarrow> 'k \<Rightarrow> real \<Rightarrow> bool" where
  "locked_since m k T = (case map_of m k of None \<Rightarrow> False
     | Some e \<Rightarrow> lt_failures e \<ge> LOGIN_THROTTLE_MAX_FAILURES \<and> lt_last_failed_at e = T)"

text \<open>Whether an event starts the check of a password for the key.\<close>

definition admits :: "login_key \<Rightarrow> login_event \<Rightarrow> bool" where
  "admits k e = (case e of Admitted c u \<Rightarrow> login_throttle_key u c = k | _ \<Rightarrow> False)"

lemma locked_until: "locked_since m k T \<Longrightarrow> sound_throttle m \<Longrightarrow>
    \<exists>e. map_of m k = Some e \<and> lt_locked_until e = T + LOGIN_THROTTLE_COOLDOWN_SECONDS \<and> lt_last_failed_at e = T"
  by (fastforce simp: locked_since_def sound_entry_def split: option.splits dest: sound_map_of)

lemma locked_prune:
  "locked_since m k T \<Longrightarrow> sound_throttle m \<Longrightarrow> t < T + LOGIN_THROTTLE_COOLDOWN_SECONDS \<Longrightarrow>
     locked_since (prune_login_throttle t m) k T"
  by (cases "map_of m k") (auto simp: locked_since_def map_of_prune[OF sound_distinct])

lemma locked_other: "locked_since m k T \<Longrightarrow> k \<noteq> x \<Longrightarrow> locked_since (AList.update x e m) k T"
  by (simp add: locked_since_def update_conv')

lemma locked_delete_other: "locked_since m k T \<Longrightarrow> k \<noteq> x \<Longrightarrow> locked_since (AList.delete x m) k T"
  by (simp add: locked_since_def delete_conv')

lemma locked_evict:
  assumes "locked_since m k T" and s: "sound_throttle m" and t: "t < T + LOGIN_THROTTLE_COOLDOWN_SECONDS"
    and e: "evict_login_throttle_entry True t m = Some m'"
  shows "locked_since m' k T"
proof -
  from evict_deletes[OF e] obtain x d where d: "m' = AList.delete x m" "(x, d) \<in> set m" "lt_locked_until d \<le> t" by auto
  have "x \<noteq> k"
  proof
    assume "x = k"
    with d(2) s have "map_of m k = Some d" by (simp add: map_of_is_SomeI sound_distinct)
    with locked_until[OF assms(1) s] d(3) t show False by auto
  qed
  with d(1) assms(1) show ?thesis by (auto intro: locked_delete_other)
qed

lemma locked_record_other:
  "locked_since m k T \<Longrightarrow> sound_throttle m \<Longrightarrow> t < T + LOGIN_THROTTLE_COOLDOWN_SECONDS \<Longrightarrow> k \<noteq> x \<Longrightarrow>
     locked_since (record_login_account_failure x t m) k T"
  by (auto simp: record_login_account_failure_def split: option.splits intro: locked_other locked_evict)

lemma locked_exhausted:
  "locked_since m k T \<Longrightarrow> login_attempts_exhausted (map_of m k) pending t"
  by (auto simp: locked_since_def login_attempts_exhausted_def split: option.splits)

lemma locked_no_check:
  "locked_since m k T \<Longrightarrow> throttle_inv key m pending as \<Longrightarrow> checking_of key k as = 0"
  using throttle_inv_count[of key m pending as k]
  by (auto simp: locked_since_def failures_of_def split: option.splits)

lemma locked_step:
  assumes "login_step tok y t e y'" and i: "login_inv y"
    and l: "locked_since (ls_throttle (sy_state y)) k T" and t: "t < T + LOGIN_THROTTLE_COOLDOWN_SECONDS"
  shows "\<not> admits k e \<and> locked_since (ls_throttle (sy_state y')) k T"
proof -
  let ?m = "ls_throttle (sy_state y)"
  from i have s: "sound_throttle ?m" by (simp add: login_inv_def throttle_inv_def)
  have p: "locked_since (prune_login_throttle t ?m) k T" "sound_throttle (prune_login_throttle t ?m)"
    using l s t by (auto intro: locked_prune)
  have none: "(c, u, True) \<in> set (sy_attempts y) \<Longrightarrow> login_throttle_key u c \<noteq> k" for c u
    using locked_no_check[OF l] i checking_pos[of "(c, u, True)" "sy_attempts y" attempt_key k]
    by (auto simp: login_inv_def)
  from assms(1) show ?thesis
  proof (cases rule: login_step.cases)
    case (admit c u s')
    then have "\<not> login_attempts_exhausted (map_of (prune_login_throttle t ?m) (login_throttle_key u c))
        (dict_get (ls_pending (sy_state y)) (login_throttle_key u c) 0) t"
      by (auto simp: reserve_login_attempt_def Let_def split: if_splits)
    with locked_exhausted[OF p(1)] have "login_throttle_key u c \<noteq> k" by auto
    with admit p show ?thesis by (auto simp: admits_def reserve_login_attempt_def Let_def split: if_splits)
  next
    case (refuse c u s')
    with p show ?thesis by (auto simp: admits_def reserve_login_attempt_def Let_def split: if_splits)
  next
    case (wrong c u)
    with none p t show ?thesis by (auto simp: admits_def record_login_failure_def intro: locked_record_other)
  next
    case (right c u)
    with none[of c u] l show ?thesis by (auto simp: admits_def clear_login_throttle_def intro: locked_delete_other)
  next
    case (release c u p)
    with l show ?thesis by (simp add: admits_def release_login_attempt_def)
  next
    case (bearer c a ok s')
    with l show ?thesis
      by (auto simp: admits_def bearer_token_accepted_def Let_def split: if_splits prod.splits)
  qed
qed

lemma locked_run:
  "login_run tok y es y' \<Longrightarrow> login_inv y \<Longrightarrow> locked_since (ls_throttle (sy_state y)) k T \<Longrightarrow>
     \<forall>(t, e) \<in> set es. t < T + LOGIN_THROTTLE_COOLDOWN_SECONDS \<Longrightarrow> \<forall>(t, e) \<in> set es. \<not> admits k e"
proof (induction rule: login_run.induct)
  case (login_next y t e y' es y'')
  then have "t < T + LOGIN_THROTTLE_COOLDOWN_SECONDS" by simp
  from locked_step[OF login_next.hyps(1) login_next.prems(1,2) this] login_next show ?case
    by (auto dest: login_inv_step)
qed simp

lemma locked_when_recorded:
  assumes "login_step tok y T (WrongPassword c u) y'"
    and f: "failures_of (ls_throttle (sy_state y')) (login_throttle_key u c) \<ge> LOGIN_THROTTLE_MAX_FAILURES"
    and s: "sound_throttle (ls_throttle (sy_state y))"
  shows "locked_since (ls_throttle (sy_state y')) (login_throttle_key u c) T"
proof -
  let ?m = "prune_login_throttle T (ls_throttle (sy_state y))"
  have "ls_throttle (sy_state y') = record_login_account_failure (login_throttle_key u c) T ?m"
    using assms(1) by (cases rule: login_step.cases) (simp add: record_login_failure_def)
  with f show ?thesis
    by (auto simp: locked_since_def failures_of_def record_login_account_failure_def update_conv' delete_conv'
        LOGIN_THROTTLE_MAX_FAILURES_def lock_entry_def failed_again_def first_failure_def
      split: option.splits if_splits dest: evict_deletes)
qed

section \<open>Steps computed\<close>

definition login_exec :: "string \<Rightarrow> login_system \<Rightarrow> real \<Rightarrow> login_event \<Rightarrow> login_system option" where
  "login_exec tok y t e =
     (let s = sy_state y; as = sy_attempts y in
      case e of
        Admitted c u \<Rightarrow> (case reserve_login_attempt c u t s of
            (True, s') \<Rightarrow> Some \<lparr>sy_state = s', sy_attempts = (c, u, True) # as\<rparr> | _ \<Rightarrow> None)
      | Refused c u \<Rightarrow> (case reserve_login_attempt c u t s of
            (False, s') \<Rightarrow> Some \<lparr>sy_state = s', sy_attempts = as\<rparr> | _ \<Rightarrow> None)
      | WrongPassword c u \<Rightarrow>
          if (c, u, True) \<in> set as
          then Some \<lparr>sy_state = record_login_failure c u t s, sy_attempts = (c, u, False) # remove1 (c, u, True) as\<rparr> else None
      | LoggedIn c u \<Rightarrow>
          if (c, u, True) \<in> set as
          then Some \<lparr>sy_state = clear_login_throttle c u s, sy_attempts = (c, u, False) # remove1 (c, u, True) as\<rparr> else None
      | Released c u \<Rightarrow>
          if (c, u, False) \<in> set as
          then Some \<lparr>sy_state = release_login_attempt c u s, sy_attempts = remove1 (c, u, False) as\<rparr>
          else if (c, u, True) \<in> set as
          then Some \<lparr>sy_state = release_login_attempt c u s, sy_attempts = remove1 (c, u, True) as\<rparr> else None
      | BearerSeen c a \<Rightarrow> Some \<lparr>sy_state = snd (bearer_token_accepted tok c a t s), sy_attempts = as\<rparr>)"

fun login_exec_all :: "string \<Rightarrow> login_system \<Rightarrow> (real \<times> login_event) list \<Rightarrow> login_system option" where
  "login_exec_all tok y [] = Some y"
| "login_exec_all tok y ((t, e) # es) =
     (case login_exec tok y t e of None \<Rightarrow> None | Some y' \<Rightarrow> login_exec_all tok y' es)"

lemma login_exec_step: "login_exec tok y t e = Some y' \<Longrightarrow> login_step tok y t e y'"
  by (auto simp: login_exec_def Let_def intro: login_step.intros login_step.bearer[OF surjective_pairing] split: login_event.splits prod.splits bool.splits if_splits)

lemma login_exec_run: "login_exec_all tok y es = Some y' \<Longrightarrow> login_run tok y es y'"
  by (induction tok y es rule: login_exec_all.induct)
     (auto intro: login_next login_exec_step split: option.splits)

section \<open>Properties\<close>

text \<open>C31: Whatever logins run side by side and in whatever order they take the lock, for every account at an
  address and for every address the failures counted and the passwords still being checked together never
  exceed five, the pending counts are the numbers of attempts in flight, and the two tables stay within
  their 1024 entries. Every attempt in flight keeps its place until it is released.\<close>

theorem login_attempts_bounded:
  assumes "login_reachable tok y"
  shows "failures_of (ls_throttle (sy_state y)) k + checking_of attempt_key k (sy_attempts y) \<le> 5
    \<and> failures_of (ls_client_throttle (sy_state y)) c + checking_of fst c (sy_attempts y) \<le> 5
    \<and> dict_get (ls_pending (sy_state y)) k 0 = attempts_of attempt_key k (sy_attempts y)
    \<and> dict_get (ls_client_pending (sy_state y)) c 0 = attempts_of fst c (sy_attempts y)
    \<and> length (ls_throttle (sy_state y)) \<le> 1024 \<and> length (ls_client_throttle (sy_state y)) \<le> 1024"
  using login_reachable_inv[OF assms]
  by (cases k) (auto simp: login_inv_def throttle_inv_def LOGIN_THROTTLE_MAX_FAILURES_def LOGIN_THROTTLE_MAX_ENTRIES_def
    LOGIN_THROTTLE_MAX_CLIENT_ENTRIES_def)

text \<open>C30: After the fifth wrong password for an account from an address, no password for that account from that
  address is checked for the next 60 seconds, whatever other logins, successes, evictions and bearer tokens
  happen in between and even if requests read the clock before others took the lock.\<close>

theorem login_lockout:
  assumes "login_reachable tok y"
    and "login_step tok y T (WrongPassword c u) y'"
    and "failures_of (ls_throttle (sy_state y')) (login_throttle_key u c) \<ge> 5"
    and "login_run tok y' es y''"
    and "\<forall>(t, e) \<in> set es. t < T + 60"
  shows "\<forall>(t, e) \<in> set es. \<not> admits (login_throttle_key u c) e"
proof -
  from login_reachable_inv[OF assms(1)] have i: "login_inv y" .
  then have "sound_throttle (ls_throttle (sy_state y))" by (simp add: login_inv_def throttle_inv_def)
  with locked_when_recorded[OF assms(2)] assms(3)
  have "locked_since (ls_throttle (sy_state y')) (login_throttle_key u c) T"
    by (simp add: LOGIN_THROTTLE_MAX_FAILURES_def)
  from locked_run[OF assms(4) login_inv_step[OF assms(2) i] this] assms(5) show ?thesis
    by (simp add: LOGIN_THROTTLE_COOLDOWN_SECONDS_def)
qed

section \<open>An example\<close>

text \<open>Five wrong passwords, one after another, and a sixth attempt.\<close>

definition wrong_attempt :: "real \<Rightarrow> (real \<times> login_event) list" where
  "wrong_attempt t = [(t, Admitted ''9.9.9.9'' ''Bob''), (t, WrongPassword ''9.9.9.9'' ''Bob''), (t, Released ''9.9.9.9'' ''Bob'')]"

lemma example_key [simp]: "login_throttle_key ''Bob'' ''9.9.9.9'' = (''bob'', ''9.9.9.9'')"
  by code_simp

definition four_failures :: login_system where
  "four_failures = (let e = \<lparr>lt_failures = 4, lt_first_failed_at = 1, lt_last_failed_at = 4, lt_locked_until = 0\<rparr>
     in \<lparr>sy_state = \<lparr>ls_throttle = [((''bob'', ''9.9.9.9''), e)], ls_client_throttle = [(''9.9.9.9'', e)],
          ls_pending = [((''bob'', ''9.9.9.9''), 1)], ls_client_pending = [(''9.9.9.9'', 1)], ls_bearer_throttle = []\<rparr>,
        sy_attempts = [(''9.9.9.9'', ''Bob'', True)]\<rparr>)"

lemmas login_exec_simps = login_exec_def reserve_login_attempt_def record_login_failure_def release_login_attempt_def
  prune_login_throttle_def login_attempts_exhausted_def record_login_client_failure_def record_login_account_failure_def
  decrement_pending_def lock_entry_def failed_again_def first_failure_def dict_get_def
  LOGIN_THROTTLE_MAX_FAILURES_def LOGIN_THROTTLE_COOLDOWN_SECONDS_def LOGIN_THROTTLE_MAX_ENTRIES_def
  LOGIN_THROTTLE_MAX_CLIENT_ENTRIES_def

lemma four_failures_run:
  "login_exec_all '''' initial_login_system
     (wrong_attempt 1 @ wrong_attempt 2 @ wrong_attempt 3 @ wrong_attempt 4 @ [(5, Admitted ''9.9.9.9'' ''Bob'')]) =
     Some four_failures"
  by (simp add: login_exec_simps wrong_attempt_def four_failures_def initial_login_system_def initial_login_state_def Let_def)

lemma four_failures_reachable: "login_reachable '''' four_failures"
  unfolding login_reachable_def using login_exec_run[OF four_failures_run] by blast

theorem login_attempts_bounded_witness:
  "4 + checking_of attempt_key (''bob'', ''9.9.9.9'') (sy_attempts four_failures) \<le> 5
    \<and> failures_of (ls_throttle (sy_state four_failures)) (''bob'', ''9.9.9.9'') = 4"
  using login_attempts_bounded[OF four_failures_reachable, of "(''bob'', ''9.9.9.9'')" "''9.9.9.9''"]
  by (simp add: four_failures_def failures_of_def Let_def)

theorem login_lockout_witness:
  "\<exists>y' y''. login_run '''' y' [(64, Refused ''9.9.9.9'' ''Bob'')] y'' \<and> (\<forall>(t, e) \<in> set [(64 :: real, Refused ''9.9.9.9'' ''Bob'')].
     \<not> admits (login_throttle_key ''Bob'' ''9.9.9.9'') e)"
proof -
  let ?y' = "the (login_exec '''' four_failures 5 (WrongPassword ''9.9.9.9'' ''Bob''))"
  let ?es = "[(64 :: real, Refused ''9.9.9.9'' ''Bob'')]"
  have one: "login_exec '''' four_failures 5 (WrongPassword ''9.9.9.9'' ''Bob'') = Some ?y'"
    by (simp add: login_exec_simps four_failures_def Let_def)
  have two: "login_exec_all '''' ?y' ?es = Some (the (login_exec_all '''' ?y' ?es))"
    by (simp add: login_exec_simps four_failures_def Let_def)
  have five: "failures_of (ls_throttle (sy_state ?y')) (login_throttle_key ''Bob'' ''9.9.9.9'') \<ge> 5"
    by (simp add: login_exec_simps four_failures_def failures_of_def Let_def)
  note run = login_exec_run[OF two]
  from run login_lockout[OF four_failures_reachable login_exec_step[OF one] five run] show ?thesis by auto
qed

end
