(* ===== verification/Auth_Store.thy ===== *)
theory Auth_Store
  imports Auth_Throttle
begin

text \<open>
  The accounts, sessions and claims of \<open>src/src/wudup/web_auth.py\<close> and \<open>web_database.py\<close>. The tables are
  lists in row order; a connection holds the saved database and the one its open transaction works on, as
  Python's \<open>sqlite3\<close> does: the first write opens a transaction, \<open>with conn\<close> commits it, and closing the
  connection drops what was not committed. The hash of a secret and the checks of the password hasher are
  parameters; the new password hashes, secrets and timestamps an operation draws are arguments. Timestamps
  are ISO texts, compared as texts. A failing statement is an error value: all statements before the first
  write fail together with opening the database, all writes together.
\<close>

section \<open>Tables\<close>

record web_user =
  wu_id :: nat
  wu_username :: string
  wu_password_hash :: string
  wu_role :: string
  wu_created_at :: string
  wu_password_updated_at :: string
  wu_disabled_at :: "string option"

record web_session =
  we_id_hash :: string
  we_user_id :: nat
  we_created_at :: string
  we_last_seen_at :: string
  we_expires_at :: string
  we_user_agent_hash :: string
  we_revoked_at :: "string option"

text \<open>A run of mode \<open>web-auth\<close> with its one event; the texts are the JSON fields the code fills in.\<close>

record auth_audit =
  aa_source :: string
  aa_operation :: string
  aa_actor_type :: string
  aa_username :: string
  aa_user_id :: nat
  aa_before :: "(string \<times> string) list"
  aa_after :: "(string \<times> string) list"

record auth_db =
  ad_users :: "web_user list"
  ad_last_user_id :: nat
  ad_sessions :: "web_session list"
  ad_settings :: "(string \<times> string) list"
  ad_audits :: "(nat \<times> auth_audit) list"
  ad_last_run_id :: nat

record auth_env =
  ae_secret_hash :: "string \<Rightarrow> string"
  ae_verify :: "string \<Rightarrow> string \<Rightarrow> bool option"
  ae_needs_rehash :: "string \<Rightarrow> bool"

section \<open>Connections\<close>

datatype auth_error = Http_Error nat string | Reset_Error string | Database_Error | Unique_Error

datatype db_fault = No_Fault | Open_Fault | Write_Fault

record connection =
  cn_saved :: auth_db
  cn_work :: auth_db

type_synonym 'a db_op = "db_fault \<Rightarrow> connection \<Rightarrow> (auth_error + 'a) \<times> connection"

definition db_ret :: "'a \<Rightarrow> 'a db_op" where
  "db_ret x = (\<lambda>f c. (Inr x, c))"

definition db_raise :: "auth_error \<Rightarrow> 'a db_op" where
  "db_raise e = (\<lambda>f c. (Inl e, c))"

definition db_bind :: "'a db_op \<Rightarrow> ('a \<Rightarrow> 'b db_op) \<Rightarrow> 'b db_op" where
  "db_bind m k = (\<lambda>f c. case m f c of (Inl e, c') \<Rightarrow> (Inl e, c') | (Inr x, c') \<Rightarrow> k x f c')"

definition db_read :: "(auth_db \<Rightarrow> 'a) \<Rightarrow> 'a db_op" where
  "db_read g = (\<lambda>f c. (Inr (g (cn_work c)), c))"

definition db_change :: "(auth_db \<Rightarrow> 'a \<times> auth_db) \<Rightarrow> 'a db_op" where
  "db_change g = (\<lambda>f c. if f = Write_Fault then (Inl Database_Error, c)
     else let (x, db) = g (cn_work c) in (Inr x, c\<lparr>cn_work := db\<rparr>))"

definition db_commit :: "unit db_op" where
  "db_commit = (\<lambda>f c. (Inr (), c\<lparr>cn_saved := cn_work c\<rparr>))"

text \<open>\<open>immediate_transaction\<close> and \<open>with conn\<close>: commit, or roll back what the body wrote and raise again.\<close>

definition immediate_transaction :: "'a db_op \<Rightarrow> 'a db_op" where
  "immediate_transaction body = (\<lambda>f c. case body f c of
       (Inl e, c') \<Rightarrow> (Inl e, c'\<lparr>cn_work := cn_saved c'\<rparr>)
     | (Inr x, c') \<Rightarrow> (Inr x, c'\<lparr>cn_saved := cn_work c'\<rparr>))"

text \<open>\<open>with open_db\<close>: what is left of the database when the connection is closed.\<close>

definition open_db :: "'a db_op \<Rightarrow> db_fault \<Rightarrow> auth_db \<Rightarrow> (auth_error + 'a) \<times> auth_db" where
  "open_db body f db =
     (if f = Open_Fault then (Inl Database_Error, db)
      else let (r, c) = body f \<lparr>cn_saved = db, cn_work = db\<rparr> in (r, cn_saved c))"

text \<open>\<open>except (OSError, sqlite3.Error, DatabaseError)\<close>: the answer 500, its detail without the redacted cause.\<close>

definition or_500 :: "string \<Rightarrow> (auth_error + 'a) \<times> auth_db \<Rightarrow> (auth_error + 'a) \<times> auth_db" where
  "or_500 detail r = (case fst r of
       Inl e \<Rightarrow> (Inl (if e = Database_Error \<or> e = Unique_Error then Http_Error 500 detail else e), snd r)
     | Inr x \<Rightarrow> r)"

section \<open>Settings\<close>

definition web_setting :: "auth_db \<Rightarrow> string \<Rightarrow> string" where
  "web_setting db key = dict_get (ad_settings db) key ''''"

definition set_web_setting :: "string \<Rightarrow> string \<Rightarrow> auth_db \<Rightarrow> auth_db" where
  "set_web_setting key v db = db\<lparr>ad_settings := AList.update key v (ad_settings db)\<rparr>"

definition delete_web_setting :: "string \<Rightarrow> auth_db \<Rightarrow> auth_db" where
  "delete_web_setting key db = db\<lparr>ad_settings := AList.delete key (ad_settings db)\<rparr>"

definition SETUP_CLAIM_HASH_KEY :: string where "SETUP_CLAIM_HASH_KEY = ''setup_claim_hash''"
definition SETUP_CLAIM_EXPIRES_KEY :: string where "SETUP_CLAIM_EXPIRES_KEY = ''setup_claim_expires_at''"
definition RESET_ADMIN_CLAIM_HASH_KEY :: string where "RESET_ADMIN_CLAIM_HASH_KEY = ''reset_admin_claim_hash''"
definition RESET_ADMIN_CLAIM_EXPIRES_KEY :: string where "RESET_ADMIN_CLAIM_EXPIRES_KEY = ''reset_admin_claim_expires_at''"
definition RESET_ADMIN_CLAIM_USER_ID_KEY :: string where "RESET_ADMIN_CLAIM_USER_ID_KEY = ''reset_admin_claim_user_id''"

lemmas claim_keys = SETUP_CLAIM_HASH_KEY_def SETUP_CLAIM_EXPIRES_KEY_def RESET_ADMIN_CLAIM_HASH_KEY_def
  RESET_ADMIN_CLAIM_EXPIRES_KEY_def RESET_ADMIN_CLAIM_USER_ID_KEY_def

definition delete_setup_claim :: "auth_db \<Rightarrow> auth_db" where
  "delete_setup_claim db = delete_web_setting SETUP_CLAIM_EXPIRES_KEY (delete_web_setting SETUP_CLAIM_HASH_KEY db)"

definition delete_admin_recovery_claim :: "auth_db \<Rightarrow> auth_db" where
  "delete_admin_recovery_claim db =
     delete_web_setting RESET_ADMIN_CLAIM_USER_ID_KEY
       (delete_web_setting RESET_ADMIN_CLAIM_EXPIRES_KEY (delete_web_setting RESET_ADMIN_CLAIM_HASH_KEY db))"

section \<open>Statements\<close>

definition web_user_count :: "auth_db \<Rightarrow> nat" where
  "web_user_count db = length (ad_users db)"

definition select_user :: "(web_user \<Rightarrow> bool) \<Rightarrow> auth_db \<Rightarrow> web_user option" where
  "select_user P db = find P (ad_users db)"

definition enabled_named :: "string \<Rightarrow> web_user \<Rightarrow> bool" where
  "enabled_named username u = (wu_username u = username \<and> wu_disabled_at u = None)"

definition active_admin_user :: "string \<Rightarrow> auth_db \<Rightarrow> web_user option" where
  "active_admin_user username = select_user (\<lambda>u. enabled_named username u \<and> wu_role u = ''admin'')"

definition insert_admin :: "string \<Rightarrow> string \<Rightarrow> string \<Rightarrow> nat db_op" where
  "insert_admin username password_hash now =
     db_bind (db_read (\<lambda>db. \<exists>u \<in> set (ad_users db). wu_username u = username)) (\<lambda>taken.
     if taken then db_raise Unique_Error
     else db_change (\<lambda>db. let i = ad_last_user_id db + 1 in
       (i, db\<lparr>ad_users := ad_users db @ [\<lparr>wu_id = i, wu_username = username, wu_password_hash = password_hash,
              wu_role = ''admin'', wu_created_at = now, wu_password_updated_at = now, wu_disabled_at = None\<rparr>],
            ad_last_user_id := i\<rparr>)))"

definition set_password_hash :: "(web_user \<Rightarrow> bool) \<Rightarrow> string \<Rightarrow> string \<Rightarrow> auth_db \<Rightarrow> auth_db" where
  "set_password_hash P h now db =
     db\<lparr>ad_users := map (\<lambda>u. if P u then u\<lparr>wu_password_hash := h, wu_password_updated_at := now\<rparr> else u) (ad_users db)\<rparr>"

text \<open>UPDATE of the sessions a condition holds of, and how many rows it changed.\<close>

definition revoke_sessions :: "(web_session \<Rightarrow> bool) \<Rightarrow> string \<Rightarrow> auth_db \<Rightarrow> nat \<times> auth_db" where
  "revoke_sessions P now db =
     (length (filter P (ad_sessions db)),
      db\<lparr>ad_sessions := map (\<lambda>s. if P s then s\<lparr>we_revoked_at := Some now\<rparr> else s) (ad_sessions db)\<rparr>)"

definition insert_auth_audit ::
  "string \<Rightarrow> string \<Rightarrow> string \<Rightarrow> nat \<Rightarrow> (string \<times> string) list \<Rightarrow> (string \<times> string) list \<Rightarrow> auth_db \<Rightarrow> nat \<times> auth_db" where
  "insert_auth_audit source operation username user_id older newer db =
     (ad_last_run_id db + 1,
      db\<lparr>ad_last_run_id := ad_last_run_id db + 1, ad_audits := ad_audits db @ [(ad_last_run_id db + 1, \<lparr>aa_source = source, aa_operation = operation,
        aa_actor_type = (if source = ''cli'' then ''cli'' else ''reset_claim''), aa_username = username,
        aa_user_id = user_id, aa_before = older, aa_after = newer\<rparr>)]\<rparr>)"

end
