(* ===== verification/Auth_Sessions.thy ===== *)
theory Auth_Sessions
  imports Auth_Store Auth_Requests
begin

text \<open>
  Setting up the first administrator, recovering an account, checking credentials and the life of a
  session, from \<open>src/src/wudup/web_auth.py\<close>. Every operation opens the database, does its statements and
  closes it; a request that does two of them can have those of others between.
\<close>

definition compare_claim :: "auth_env \<Rightarrow> string \<Rightarrow> string \<Rightarrow> bool" where
  "compare_claim env expected_hash claim = (expected_hash = ae_secret_hash env claim)"

section \<open>The first administrator\<close>

text \<open>
  \<open>_prepare_web_auth_state\<close>: with users present the two deletions open a transaction that nothing commits.
\<close>

definition prepare_web_auth_state :: "auth_env \<Rightarrow> string \<Rightarrow> string \<Rightarrow> string db_op" where
  "prepare_web_auth_state env claim expires_at =
     db_bind (db_read web_user_count) (\<lambda>user_count.
     if user_count > 0 then db_bind (db_change (\<lambda>db. ((), delete_setup_claim db))) (\<lambda>_. db_ret '''')
     else immediate_transaction (db_bind
            (db_change (\<lambda>db. ((), set_web_setting SETUP_CLAIM_EXPIRES_KEY expires_at
               (set_web_setting SETUP_CLAIM_HASH_KEY (ae_secret_hash env claim) db)))) (\<lambda>_. db_ret claim)))"

definition setup_required :: "bool \<Rightarrow> db_fault \<Rightarrow> auth_db \<Rightarrow> auth_error + bool" where
  "setup_required dev_no_auth f db =
     (if dev_no_auth then Inr False
      else fst (or_500 ''could not read web auth state'' (open_db (db_read (\<lambda>d. web_user_count d = 0)) f db)))"

definition claim_initial_admin ::
  "auth_env \<Rightarrow> string \<Rightarrow> string \<Rightarrow> string \<Rightarrow> string \<Rightarrow> (nat \<times> string) db_op" where
  "claim_initial_admin env claim username password_hash now =
     immediate_transaction
       (db_bind (db_read (\<lambda>db. (web_user_count db, web_setting db SETUP_CLAIM_HASH_KEY,
          web_setting db SETUP_CLAIM_EXPIRES_KEY))) (\<lambda>(count, expected_hash, expires_at).
        if count > 0 then db_raise (Http_Error 409 ''setup is complete'')
        else if expected_hash = '''' \<or> expires_at = '''' then db_raise (Http_Error 403 ''setup claim is invalid'')
        else if expires_at < now then db_raise (Http_Error 403 ''setup claim expired'')
        else if \<not> compare_claim env expected_hash claim then db_raise (Http_Error 403 ''setup claim is invalid'')
        else db_bind (insert_admin username password_hash now) (\<lambda>user_id.
             db_bind (db_change (\<lambda>db. ((), delete_setup_claim db))) (\<lambda>_. db_ret (user_id, password_hash)))))"

text \<open>The handler's exceptions: a user name that is taken is the answer 409.\<close>

definition claimed_admin ::
  "auth_env \<Rightarrow> string \<Rightarrow> string \<Rightarrow> string \<Rightarrow> string \<Rightarrow> db_fault \<Rightarrow> auth_db \<Rightarrow> (auth_error + (nat \<times> string)) \<times> auth_db" where
  "claimed_admin env claim username password_hash now f db =
     (case open_db (claim_initial_admin env claim username password_hash now) f db of
        (Inl Unique_Error, db') \<Rightarrow> (Inl (Http_Error 409 ''username is unavailable''), db')
      | r \<Rightarrow> or_500 ''could not complete setup'' r)"

section \<open>Recovering an account\<close>

record recovery_claim =
  rc_username :: string
  rc_claim :: string
  rc_expires_at :: string
  rc_revoked_sessions :: nat
  rc_audit_run_id :: nat

definition of_user :: "nat \<Rightarrow> web_user \<Rightarrow> bool" where
  "of_user i u = (wu_id u = i)"

definition open_session_of :: "nat \<Rightarrow> web_session \<Rightarrow> bool" where
  "open_session_of i s = (we_user_id s = i \<and> we_revoked_at s = None)"

definition recovery_transaction ::
  "auth_env \<Rightarrow> string \<Rightarrow> string \<Rightarrow> string \<Rightarrow> string \<Rightarrow> string \<Rightarrow> recovery_claim db_op" where
  "recovery_transaction env username claim disabled_password_hash expires_at now =
     immediate_transaction
       (db_bind (db_read (\<lambda>db. (active_admin_user username db, web_user_count db))) (\<lambda>(user, count).
        case user of
          None \<Rightarrow> db_raise (Reset_Error (if count = 0 then ''WebUI setup is not complete''
            else ''active admin user not found: '' @ username))
        | Some u \<Rightarrow>
            db_bind (db_change (\<lambda>db. ((), set_password_hash (of_user (wu_id u)) disabled_password_hash now db))) (\<lambda>_.
            db_bind (db_change (revoke_sessions (open_session_of (wu_id u)) now)) (\<lambda>revoked.
            db_bind (db_change (\<lambda>db. ((), set_web_setting RESET_ADMIN_CLAIM_USER_ID_KEY (show_nat (wu_id u))
              (set_web_setting RESET_ADMIN_CLAIM_EXPIRES_KEY expires_at
                (set_web_setting RESET_ADMIN_CLAIM_HASH_KEY (ae_secret_hash env claim) db))))) (\<lambda>_.
            db_bind (db_change (insert_auth_audit ''cli'' ''admin_reset_claim_issued'' username (wu_id u)
               [(''password_updated_at'', wu_password_updated_at u)]
               [(''claim_expires_at'', expires_at), (''password_invalidated'', ''true''),
                (''revoked_sessions'', show_nat revoked)])) (\<lambda>run.
            db_ret \<lparr>rc_username = username, rc_claim = claim, rc_expires_at = expires_at,
              rc_revoked_sessions = revoked, rc_audit_run_id = run\<rparr>))))))"

text \<open>\<open>db_exists\<close> says whether the database file is there (or it is in memory).\<close>

definition issue_admin_recovery_claim ::
  "auth_env \<Rightarrow> bool \<Rightarrow> string \<Rightarrow> string \<Rightarrow> string \<Rightarrow> string \<Rightarrow> string \<Rightarrow> db_fault \<Rightarrow> auth_db \<Rightarrow>
     (auth_error + recovery_claim) \<times> auth_db" where
  "issue_admin_recovery_claim env db_exists username claim disabled_password_hash expires_at now f db =
     (let normalized = normalize_username username
      in if normalized = '''' then (Inl (Reset_Error ''username is required''), db)
         else if \<not> db_exists then (Inl (Reset_Error ''database file does not exist''), db)
         else case open_db (recovery_transaction env normalized claim disabled_password_hash expires_at now) f db of
             (Inl (Reset_Error e), db') \<Rightarrow> (Inl (Reset_Error e), db')
           | (Inl e, db') \<Rightarrow> (Inl (Reset_Error ''could not issue admin recovery claim''), db')
           | r \<Rightarrow> r)"

text \<open>\<open>int\<close> of the stored user id, None for the ValueError.\<close>

definition parse_user_id :: "string \<Rightarrow> nat option" where
  "parse_user_id s = (if all_digits (py_strip s) then Some (digits_val (py_strip s)) else None)"

definition redeem_admin_recovery_claim ::
  "auth_env \<Rightarrow> string \<Rightarrow> string \<Rightarrow> string \<Rightarrow> string \<Rightarrow> (nat \<times> string) db_op" where
  "redeem_admin_recovery_claim env claim username password_hash now =
     immediate_transaction
       (db_bind (db_read (\<lambda>db. (web_setting db RESET_ADMIN_CLAIM_HASH_KEY, web_setting db RESET_ADMIN_CLAIM_EXPIRES_KEY,
          web_setting db RESET_ADMIN_CLAIM_USER_ID_KEY))) (\<lambda>(expected_hash, expires_at, user_id_raw).
        if expected_hash = '''' \<or> expires_at = '''' \<or> user_id_raw = ''''
        then db_raise (Http_Error 403 ''admin recovery claim is invalid'')
        else if expires_at < now then db_raise (Http_Error 403 ''admin recovery claim expired'')
        else if \<not> compare_claim env expected_hash claim then db_raise (Http_Error 403 ''admin recovery claim is invalid'')
        else case parse_user_id user_id_raw of
            None \<Rightarrow> db_raise (Http_Error 403 ''admin recovery claim is invalid'')
          | Some user_id \<Rightarrow>
            db_bind (db_read (select_user (\<lambda>u. wu_id u = user_id \<and> enabled_named username u \<and> wu_role u = ''admin''))) (\<lambda>user.
            if user = None then db_raise (Http_Error 403 ''admin recovery claim is invalid'')
            else db_bind (db_change (\<lambda>db. ((), set_password_hash (of_user user_id) password_hash now db))) (\<lambda>_.
                 db_bind (db_change (\<lambda>db. ((), delete_admin_recovery_claim db))) (\<lambda>_.
                 db_bind (db_change (insert_auth_audit ''webui'' ''admin_reset_password_changed'' username user_id
                    [(''claim_expires_at'', expires_at)] [(''password_updated_at'', now)])) (\<lambda>_.
                 db_ret (user_id, password_hash)))))))"

section \<open>Checking credentials\<close>

text \<open>
  \<open>_verify_web_user\<close> reads the row, checks the password without a transaction, and may store the password
  under a new hash; the three parts are apart because other requests can come between them. A check that
  raises is None, as is one of a name nobody has: it is made with a dummy hash only for its time.
\<close>

definition passes :: "auth_env \<Rightarrow> string \<Rightarrow> string \<Rightarrow> bool" where
  "passes env stored password = (ae_verify env stored password = Some True)"

definition verify_lookup :: "string \<Rightarrow> auth_db \<Rightarrow> web_user option" where
  "verify_lookup username db =
     (let normalized = normalize_username username
      in if normalized = '''' then None else select_user (enabled_named normalized) db)"

definition rehash_web_user :: "auth_env \<Rightarrow> web_user \<Rightarrow> string \<Rightarrow> string \<Rightarrow> string \<Rightarrow> web_user option db_op" where
  "rehash_web_user env user password new_hash now =
     db_bind (immediate_transaction
       (let current = (\<lambda>u. wu_id u = wu_id user \<and> wu_password_hash u = wu_password_hash user \<and> wu_disabled_at u = None)
        in db_bind (db_read (\<lambda>db. length (filter current (ad_users db)))) (\<lambda>rowcount.
           db_bind (db_change (\<lambda>db. ((), set_password_hash current new_hash now db))) (\<lambda>_.
           db_bind (db_read (select_user (of_user (wu_id user)))) (\<lambda>row.
           db_ret (rowcount, row)))))) (\<lambda>(rowcount, row).
     db_ret (if rowcount = 1 then row
       else case row of
           None \<Rightarrow> None
         | Some u \<Rightarrow> if wu_disabled_at u \<noteq> None \<or> \<not> passes env (wu_password_hash u) password then None else Some u))"

definition verify_web_user :: "auth_env \<Rightarrow> string \<Rightarrow> string \<Rightarrow> string \<Rightarrow> string \<Rightarrow> web_user option db_op" where
  "verify_web_user env username password new_hash now =
     db_bind (db_read (verify_lookup username)) (\<lambda>user.
     case user of
       None \<Rightarrow> db_ret None
     | Some u \<Rightarrow>
         if \<not> passes env (wu_password_hash u) password then db_ret None
         else if ae_needs_rehash env (wu_password_hash u) then rehash_web_user env u password new_hash now
         else db_ret (Some u))"

section \<open>Sessions\<close>

definition create_web_session ::
  "auth_env \<Rightarrow> nat \<Rightarrow> string \<Rightarrow> string \<Rightarrow> string \<Rightarrow> string \<Rightarrow> string \<Rightarrow> string option db_op" where
  "create_web_session env user_id password_hash session_id user_agent expires_at now =
     immediate_transaction
       (db_bind (db_read (\<lambda>db.
          (list_ex (\<lambda>u. wu_id u = user_id \<and> wu_password_hash u = password_hash \<and> wu_disabled_at u = None) (ad_users db),
           list_ex (\<lambda>s. we_id_hash s = ae_secret_hash env session_id) (ad_sessions db)))) (\<lambda>(current, taken).
        if \<not> current then db_ret None
        else if taken then db_raise Unique_Error
        else db_bind (db_change (\<lambda>db. ((), db\<lparr>ad_sessions := ad_sessions db @
                [\<lparr>we_id_hash = ae_secret_hash env session_id, we_user_id = user_id, we_created_at = now,
                   we_last_seen_at = now, we_expires_at = expires_at,
                   we_user_agent_hash = (if user_agent = '''' then '''' else ae_secret_hash env user_agent),
                   we_revoked_at = None\<rparr>]\<rparr>))) (\<lambda>_. db_ret (Some session_id))))"

definition live_session :: "string \<Rightarrow> string \<Rightarrow> web_session \<Rightarrow> bool" where
  "live_session id_hash now s = (we_id_hash s = id_hash \<and> we_revoked_at s = None \<and> now \<le> we_expires_at s)"

text \<open>The join of sessions and users: the first live session whose user is enabled.\<close>

definition session_row :: "string \<Rightarrow> string \<Rightarrow> auth_db \<Rightarrow> web_user option" where
  "session_row id_hash now db =
     (case concat (map (\<lambda>s. if live_session id_hash now s
          then filter (\<lambda>u. wu_id u = we_user_id s \<and> wu_disabled_at u = None) (ad_users db) else []) (ad_sessions db)) of
        [] \<Rightarrow> None | u # _ \<Rightarrow> Some u)"

definition touch_session :: "string \<Rightarrow> string \<Rightarrow> auth_db \<Rightarrow> auth_db" where
  "touch_session id_hash now db =
     db\<lparr>ad_sessions := map (\<lambda>s. if we_id_hash s = id_hash then s\<lparr>we_last_seen_at := now\<rparr> else s) (ad_sessions db)\<rparr>"

text \<open>A database error means nobody is signed in.\<close>

definition session_user ::
  "auth_env \<Rightarrow> string \<Rightarrow> bool \<Rightarrow> string \<Rightarrow> db_fault \<Rightarrow> auth_db \<Rightarrow> web_user option \<times> auth_db" where
  "session_user env session_id touch now f db =
     (if session_id = '''' then (None, db)
      else case open_db
          (db_bind (db_read (session_row (ae_secret_hash env session_id) now)) (\<lambda>row.
           if row = None \<or> \<not> touch then db_ret row
           else immediate_transaction (db_bind (db_change (\<lambda>db. ((), touch_session (ae_secret_hash env session_id) now db)))
             (\<lambda>_. db_ret row)))) f db of
          (Inl e, db') \<Rightarrow> (None, db')
        | (Inr row, db') \<Rightarrow> (row, db'))"

definition revoke_web_session :: "auth_env \<Rightarrow> string \<Rightarrow> string \<Rightarrow> db_fault \<Rightarrow> auth_db \<Rightarrow> auth_db" where
  "revoke_web_session env session_id now f db =
     (if session_id = '''' then db
      else snd (open_db (immediate_transaction
        (db_change (revoke_sessions (\<lambda>s. we_id_hash s = ae_secret_hash env session_id) now))) f db))"

text \<open>
  With users present the deletion of a left over setup claim is never committed: the database stays as it
  was, claim included.
\<close>

lemma stale_setup_claim_kept:
  assumes "web_user_count d > 0"
  shows "snd (open_db (prepare_web_auth_state env claim expires_at) f d) = d"
  using assms
  by (simp add: prepare_web_auth_state_def open_db_def db_bind_def db_read_def db_change_def db_ret_def Let_def)

end
