(* ===== verification/Auth_Recovery.thy ===== *)
theory Auth_Recovery
  imports Auth_Sessions
begin

text \<open>
  Requests that sign in, recover an account and use sessions side by side, as the statements of
  \<open>src/src/wudup/web_auth.py\<close> interleave: a login holds the row it read, then the credentials it checked,
  while other requests change the database. The lemmas say what each operation leaves of the database
  whatever fails; the property is that an issued recovery claim shuts everybody out of the account.
\<close>

section \<open>Steps\<close>

text \<open>
  What a login holds between two operations: the row it read with the password it was given, or the
  credentials it has checked.
\<close>

datatype login_phase = Looked web_user string | Holding nat string

record auth_system =
  xs_db :: auth_db
  xs_threads :: "login_phase list"

datatype auth_event = Redeemed nat | Issued nat | Other

text \<open>A stored hash that a password of the set passes; the requests present passwords of that set.\<close>

definition usable :: "auth_env \<Rightarrow> (string \<Rightarrow> bool) \<Rightarrow> string \<Rightarrow> bool" where
  "usable env known h = (\<exists>pw. known pw \<and> passes env h pw)"

lemma usableI: "known pw \<Longrightarrow> passes env h pw \<Longrightarrow> usable env known h"
  by (auto simp: usable_def)

text \<open>
  A new hash of a password verifies that password, and the hash of the random secret that disables an
  account verifies no password that is presented: the documented behaviour of the hasher.
\<close>

inductive auth_step :: "auth_env \<Rightarrow> (string \<Rightarrow> bool) \<Rightarrow> auth_system \<Rightarrow> auth_event \<Rightarrow> auth_system \<Rightarrow> bool"
  for env known where
  look: "verify_lookup name (xs_db y) = Some u \<Longrightarrow> known pw \<Longrightarrow>
     auth_step env known y Other (y\<lparr>xs_threads := Looked u pw # xs_threads y\<rparr>)"
| check: "Looked u pw \<in> set (xs_threads y) \<Longrightarrow> passes env (wu_password_hash u) pw \<Longrightarrow>
     auth_step env known y Other (y\<lparr>xs_threads := Holding (wu_id u) (wu_password_hash u) # xs_threads y\<rparr>)"
| rehash: "Looked u pw \<in> set (xs_threads y) \<Longrightarrow> passes env (wu_password_hash u) pw \<Longrightarrow> known pw \<Longrightarrow> passes env h pw \<Longrightarrow>
     open_db (rehash_web_user env u pw h now) f (xs_db y) = (r, db) \<Longrightarrow>
     auth_step env known y Other \<lparr>xs_db = db, xs_threads =
       (case r of Inr (Some v) \<Rightarrow> [Holding (wu_id v) (wu_password_hash v)] | _ \<Rightarrow> []) @ xs_threads y\<rparr>"
| leave: "auth_step env known y Other (y\<lparr>xs_threads := remove1 t (xs_threads y)\<rparr>)"
| create: "Holding i h \<in> set (xs_threads y) \<Longrightarrow>
     open_db (create_web_session env i h sid agent expires now) f (xs_db y) = (r, db) \<Longrightarrow>
     auth_step env known y Other (y\<lparr>xs_db := db\<rparr>)"
| issue: "\<not> usable env known h \<Longrightarrow>
     issue_admin_recovery_claim env ex name claim h expires now f (xs_db y) = (r, db) \<Longrightarrow>
     e = (case (r, active_admin_user (normalize_username name) (xs_db y)) of (Inr c, Some u) \<Rightarrow> Issued (wu_id u) | _ \<Rightarrow> Other) \<Longrightarrow>
     auth_step env known y e (y\<lparr>xs_db := db\<rparr>)"
| redeem: "known pw \<Longrightarrow> passes env h pw \<Longrightarrow>
     open_db (redeem_admin_recovery_claim env claim name h now) f (xs_db y) = (r, db) \<Longrightarrow>
     e = (case r of Inr (i, h') \<Rightarrow> Redeemed i | _ \<Rightarrow> Other) \<Longrightarrow>
     auth_step env known y e \<lparr>xs_db = db, xs_threads =
       (case r of Inr (i, h') \<Rightarrow> [Holding i h'] | _ \<Rightarrow> []) @ xs_threads y\<rparr>"
| claim: "known pw \<Longrightarrow> passes env h pw \<Longrightarrow> claimed_admin env cl name h now f (xs_db y) = (r, db) \<Longrightarrow>
     auth_step env known y Other \<lparr>xs_db = db, xs_threads =
       (case r of Inr (i, h') \<Rightarrow> [Holding i h'] | _ \<Rightarrow> []) @ xs_threads y\<rparr>"
| use_session: "session_user env sid touch now f (xs_db y) = (r, db) \<Longrightarrow> auth_step env known y Other (y\<lparr>xs_db := db\<rparr>)"
| logout: "auth_step env known y Other (y\<lparr>xs_db := revoke_web_session env sid now f (xs_db y)\<rparr>)"
| restart: "open_db (prepare_web_auth_state env cl expires) f (xs_db y) = (r, db) \<Longrightarrow>
     auth_step env known y Other (y\<lparr>xs_db := db\<rparr>)"

inductive auth_run :: "auth_env \<Rightarrow> (string \<Rightarrow> bool) \<Rightarrow> auth_system \<Rightarrow> auth_event list \<Rightarrow> auth_system \<Rightarrow> bool"
  for env known where
  auth_stay: "auth_run env known y [] y"
| auth_next: "auth_step env known y e y' \<Longrightarrow> auth_run env known y' es y'' \<Longrightarrow> auth_run env known y (e # es) y''"

section \<open>What the operations leave of the database\<close>

lemmas db_ops = db_bind_def db_ret_def db_raise_def db_read_def db_change_def immediate_transaction_def open_db_def
  or_500_def

lemmas settings_ops = set_web_setting_def delete_web_setting_def delete_setup_claim_def delete_admin_recovery_claim_def

named_theorems db_after "the database an operation leaves"

text \<open>The users and sessions of two databases.\<close>

definition same_accounts :: "auth_db \<Rightarrow> auth_db \<Rightarrow> bool" where
  "same_accounts d d' = (ad_users d' = ad_users d \<and> ad_sessions d' = ad_sessions d \<and> ad_last_user_id d' = ad_last_user_id d)"

lemma same_accounts_refl [simp]: "same_accounts d d"
  by (simp add: same_accounts_def)

lemma restart_accounts [db_after]:
  "open_db (prepare_web_auth_state env cl expires) f d = (r, d') \<Longrightarrow> same_accounts d d'"
  by (auto simp: prepare_web_auth_state_def db_ops settings_ops same_accounts_def Let_def split: if_splits)

lemma create_after [db_after]:
  assumes "open_db (create_web_session env i h sid agent expires now) f d = (r, d')"
  shows "ad_users d' = ad_users d \<and> ad_last_user_id d' = ad_last_user_id d \<and>
    (ad_sessions d' = ad_sessions d \<or>
     (\<exists>u \<in> set (ad_users d). wu_id u = i \<and> wu_password_hash u = h) \<and>
     (\<exists>s. ad_sessions d' = ad_sessions d @ [s] \<and> we_user_id s = i))"
  using assms by (auto simp: create_web_session_def db_ops Let_def list_ex_iff split: if_splits)

lemma touch_session_users [simp]:
  "ad_users (touch_session i t d) = ad_users d" "ad_last_user_id (touch_session i t d) = ad_last_user_id d"
  by (simp_all add: touch_session_def)

lemma session_user_after [db_after]:
  assumes "session_user env sid touch now f d = (r, d')"
  shows "ad_users d' = ad_users d \<and> ad_last_user_id d' = ad_last_user_id d \<and>
    (ad_sessions d' = ad_sessions d \<or> ad_sessions d' = ad_sessions (touch_session (ae_secret_hash env sid) now d))"
  using assms
  by (auto simp: session_user_def db_ops Let_def split: if_splits sum.splits prod.splits)

lemma logout_after [db_after]:
  "ad_users (revoke_web_session env sid now f d) = ad_users d \<and>
   ad_last_user_id (revoke_web_session env sid now f d) = ad_last_user_id d \<and>
   (ad_sessions (revoke_web_session env sid now f d) = ad_sessions d \<or>
     ad_sessions (revoke_web_session env sid now f d) =
       ad_sessions (snd (revoke_sessions (\<lambda>s. we_id_hash s = ae_secret_hash env sid) now d)))"
  by (auto simp: revoke_web_session_def db_ops Let_def revoke_sessions_def)

lemma claim_after [db_after]:
  assumes "claimed_admin env cl name h now f d = (r, d')"
  shows "(case r of Inl e \<Rightarrow> d' = d
    | Inr (i, h') \<Rightarrow> ad_users d = [] \<and> i = ad_last_user_id d + 1 \<and> h' = h \<and> ad_sessions d' = ad_sessions d \<and>
        ad_last_user_id d' = i \<and> map wu_id (ad_users d') = [i] \<and> map wu_password_hash (ad_users d') = [h])"
  using assms
  by (auto simp: claimed_admin_def claim_initial_admin_def insert_admin_def db_ops settings_ops Let_def web_user_count_def
    split: if_splits sum.splits prod.splits auth_error.splits)

lemma redeem_after [db_after]:
  assumes "open_db (redeem_admin_recovery_claim env cl name h now) f d = (r, d')"
  shows "(case r of Inl e \<Rightarrow> d' = d
    | Inr (i, h') \<Rightarrow> h' = h \<and> ad_users d' = ad_users (set_password_hash (of_user i) h now d) \<and>
        ad_sessions d' = ad_sessions d \<and> ad_last_user_id d' = ad_last_user_id d)"
  using assms
  by (auto simp: redeem_admin_recovery_claim_def db_ops settings_ops Let_def set_password_hash_def insert_auth_audit_def
    split: if_splits option.splits)

lemma issue_after [db_after]:
  assumes "issue_admin_recovery_claim env ex name cl h expires now f d = (r, d')"
  shows "(case r of Inl e \<Rightarrow> d' = d
    | Inr c \<Rightarrow> \<exists>u. active_admin_user (normalize_username name) d = Some u \<and>
        ad_users d' = ad_users (set_password_hash (of_user (wu_id u)) h now d) \<and>
        ad_sessions d' = ad_sessions (snd (revoke_sessions (open_session_of (wu_id u)) now d)) \<and>
        ad_last_user_id d' = ad_last_user_id d)"
  using assms
  by (auto simp: issue_admin_recovery_claim_def recovery_transaction_def db_ops settings_ops Let_def set_password_hash_def
      insert_auth_audit_def revoke_sessions_def
    split: if_splits option.splits sum.splits prod.splits auth_error.splits)

lemma rehash_after [db_after]:
  assumes "open_db (rehash_web_user env u pw h now) f d = (r, d')"
  defines "current \<equiv> \<lambda>v. wu_id v = wu_id u \<and> wu_password_hash v = wu_password_hash u \<and> wu_disabled_at v = None"
  shows "(d' = d \<or> (ad_users d' = ad_users (set_password_hash current h now d) \<and> ad_sessions d' = ad_sessions d \<and>
        ad_last_user_id d' = ad_last_user_id d)) \<and>
    (\<forall>v. r = Inr (Some v) \<longrightarrow> v \<in> set (ad_users d') \<and> wu_id v = wu_id u \<and>
       (passes env (wu_password_hash v) pw \<or> (\<exists>w \<in> set (ad_users d). current w) \<and> d' = set_password_hash current h now d))"
  using assms
  by (auto simp: rehash_web_user_def db_ops Let_def set_password_hash_def select_user_def of_user_def find_Some_iff
    split: if_splits option.splits)

section \<open>Accounts and credentials in flight\<close>

definition accounts_ok :: "auth_db \<Rightarrow> bool" where
  "accounts_ok d = (distinct (map wu_id (ad_users d)) \<and> (\<forall>u \<in> set (ad_users d). wu_id u \<le> ad_last_user_id d))"

text \<open>Credentials in flight are of hashes some presented password passes.\<close>

definition auth_inv :: "auth_env \<Rightarrow> (string \<Rightarrow> bool) \<Rightarrow> auth_system \<Rightarrow> bool" where
  "auth_inv env known y = (accounts_ok (xs_db y) \<and>
     (\<forall>i h. Holding i h \<in> set (xs_threads y) \<longrightarrow> usable env known h) \<and>
     (\<forall>u pw. Looked u pw \<in> set (xs_threads y) \<longrightarrow> known pw))"

lemma accounts_ok_same: "accounts_ok d \<Longrightarrow> map wu_id (ad_users d') = map wu_id (ad_users d) \<Longrightarrow>
    ad_last_user_id d' = ad_last_user_id d \<Longrightarrow> accounts_ok d'"
  unfolding accounts_ok_def by (metis (mono_tags) image_iff list.set_map)

lemma set_password_ids [simp]: "map wu_id (ad_users (set_password_hash P h now d)) = map wu_id (ad_users d)"
  by (simp add: set_password_hash_def)

lemma set_password_sessions [simp]: "ad_sessions (set_password_hash P h now d) = ad_sessions d"
  "ad_last_user_id (set_password_hash P h now d) = ad_last_user_id d"
  by (simp_all add: set_password_hash_def)

lemma rehash_usable:
  assumes "open_db (rehash_web_user env u pw h now) f d = (Inr (Some v), d')" and "accounts_ok d"
    and "known pw" and "passes env h pw"
  shows "usable env known (wu_password_hash v)"
proof -
  let ?current = "\<lambda>v. wu_id v = wu_id u \<and> wu_password_hash v = wu_password_hash u \<and> wu_disabled_at v = None"
  from rehash_after[OF assms(1)] consider "passes env (wu_password_hash v) pw"
    | w where "w \<in> set (ad_users d)" "?current w" "v \<in> set (ad_users d')" "wu_id v = wu_id u" "d' = set_password_hash ?current h now d"
    by blast
  then show ?thesis
  proof cases
    case 2
    then obtain x where x: "x \<in> set (ad_users d)" and v: "v = (if ?current x then x\<lparr>wu_password_hash := h, wu_password_updated_at := now\<rparr> else x)"
      by (auto simp: set_password_hash_def)
    from v 2(4) have "wu_id x = wu_id w" using 2(2) by (auto split: if_splits)
    with x 2(1) assms(2) have "x = w" by (simp add: accounts_ok_def distinct_map inj_on_def)
    with v 2(2) assms(3,4) show ?thesis by (simp add: usableI)
  qed (rule usableI[where known = known, OF assms(3)])
qed

lemma accounts_ok_single: "map wu_id (ad_users d) = [i] \<Longrightarrow> ad_last_user_id d = i \<Longrightarrow> accounts_ok d"
  by (auto simp: accounts_ok_def)

lemma auth_inv_step:
  assumes "auth_step env known y e y'" and i: "auth_inv env known y"
  shows "auth_inv env known y'"
proof -
  from i have a: "accounts_ok (xs_db y)" by (simp add: auth_inv_def)
  from assms(1) show ?thesis
  proof (cases rule: auth_step.cases)
    case (rehash u pw h now f r db)
    have "accounts_ok db" using rehash_after[OF rehash(7)] a by (auto intro: accounts_ok_same)
    moreover have "usable env known (wu_password_hash v)" if "r = Inr (Some v)" for v
      using rehash_usable[where known = known, OF _ a rehash(5,6)] rehash(7) that by blast
    ultimately show ?thesis using i rehash(2) by (auto simp: auth_inv_def split: sum.splits option.splits)
  next
    case (create i' h sid agent expires now f r db)
    then have "accounts_ok db" using create_after[OF create(4)] a by (auto intro: accounts_ok_same)
    with create i show ?thesis by (simp add: auth_inv_def)
  next
    case (issue h ex name cl expires now f r db)
    then have "accounts_ok db" using issue_after[OF issue(3)] a
      by (auto split: sum.splits intro: accounts_ok_same)
    with issue i show ?thesis by (simp add: auth_inv_def)
  next
    case (redeem pw h cl name now f r db)
    then have "accounts_ok db" using redeem_after[OF redeem(4)] a
      by (auto split: sum.splits prod.splits intro: accounts_ok_same)
    moreover have "h' = h" if "r = Inr (j, h')" for j h' using redeem_after[OF redeem(4)] that by simp
    ultimately show ?thesis using i redeem usableI[where known = known, OF redeem(2,3)]
      by (auto simp: auth_inv_def split: sum.splits prod.splits)
  next
    case (claim pw h cl name now f r db)
    then have "accounts_ok db" using claim_after[OF claim(5)] a
      by (auto split: sum.splits prod.splits intro: accounts_ok_single)
    moreover have "h' = h" if "r = Inr (j, h')" for j h' using claim_after[OF claim(5)] that by simp
    ultimately show ?thesis using i claim usableI[where known = known, OF claim(3,4)]
      by (auto simp: auth_inv_def split: sum.splits prod.splits)
  next
    case (use_session sid touch now f r db)
    then have "accounts_ok db" using session_user_after[OF use_session(3)] a by (auto intro: accounts_ok_same)
    with use_session i show ?thesis by (simp add: auth_inv_def)
  next
    case (logout sid now f)
    then show ?thesis using i logout_after[of env sid now f "xs_db y"] by (auto simp: auth_inv_def intro: accounts_ok_same)
  next
    case (restart cl expires f r db)
    then have "accounts_ok db" using restart_accounts[OF restart(3)] a
      by (auto simp: same_accounts_def intro: accounts_ok_same)
    with restart i show ?thesis by (simp add: auth_inv_def)
  next
    case (check u pw)
    with i have "known pw" by (auto simp: auth_inv_def)
    from usableI[where known = known, OF this check(4)] check i show ?thesis by (auto simp: auth_inv_def)
  next
    case (leave t)
    with i set_remove1_subset[of t "xs_threads y"] show ?thesis by (auto simp: auth_inv_def)
  qed (use i in \<open>auto simp: auth_inv_def\<close>)
qed

lemma auth_inv_run: "auth_run env known y es y' \<Longrightarrow> auth_inv env known y \<Longrightarrow> auth_inv env known y'"
  by (induction rule: auth_run.induct) (auto intro: auth_inv_step)

section \<open>An account under recovery\<close>

definition shut_out :: "auth_env \<Rightarrow> (string \<Rightarrow> bool) \<Rightarrow> nat \<Rightarrow> auth_db \<Rightarrow> bool" where
  "shut_out env known i d = ((\<exists>u \<in> set (ad_users d). wu_id u = i) \<and>
     (\<forall>u \<in> set (ad_users d). wu_id u = i \<longrightarrow> \<not> usable env known (wu_password_hash u)) \<and>
     (\<forall>s \<in> set (ad_sessions d). we_user_id s = i \<longrightarrow> we_revoked_at s \<noteq> None))"

lemma shut_out_same: "shut_out env known i d \<Longrightarrow> same_accounts d d' \<Longrightarrow> shut_out env known i d'"
  by (simp add: shut_out_def same_accounts_def)

lemma shut_out_users:
  assumes "shut_out env known i d" and u: "ad_users d' = ad_users (set_password_hash P h now d)"
    and "ad_sessions d' = ad_sessions d"
    and h: "\<And>u. u \<in> set (ad_users d) \<Longrightarrow> wu_id u = i \<Longrightarrow> P u \<Longrightarrow> \<not> usable env known h"
  shows "shut_out env known i d'"
proof -
  have ids: "wu_id ` set (ad_users d') = wu_id ` set (ad_users d)"
    using u set_password_ids[of P h now d] by (metis list.set_map)
  have "\<not> usable env known (wu_password_hash v)" if "v \<in> set (ad_users d')" "wu_id v = i" for v
  proof -
    from that(1) u obtain w where w: "w \<in> set (ad_users d)"
      "v = (if P w then w\<lparr>wu_password_hash := h, wu_password_updated_at := now\<rparr> else w)"
      by (auto simp: set_password_hash_def)
    with that(2) have "wu_id w = i" by (auto split: if_splits)
    with w h[of w] assms(1) show ?thesis by (auto simp: shut_out_def split: if_splits)
  qed
  moreover have "\<exists>v \<in> set (ad_users d'). wu_id v = i"
    using assms(1) ids unfolding shut_out_def by (metis (no_types, lifting) image_iff)
  ultimately show ?thesis using assms(1,3) by (simp add: shut_out_def)
qed

lemma shut_out_sessions:
  assumes "shut_out env known i d" and "ad_users d' = ad_users d"
    and "ad_sessions d' = ad_sessions d \<or> ad_sessions d' = map g (ad_sessions d)"
    and "\<And>s. we_user_id (g s) = we_user_id s \<and> (we_revoked_at s \<noteq> None \<longrightarrow> we_revoked_at (g s) \<noteq> None)"
  shows "shut_out env known i d'"
  using assms by (auto simp: shut_out_def)

lemma issue_shuts_out:
  assumes "issue_admin_recovery_claim env ex name cl h expires now f d = (Inr c, d')"
    and "active_admin_user (normalize_username name) d = Some u" and "\<not> usable env known h"
  shows "shut_out env known (wu_id u) d'"
proof -
  from assms(2) have "u \<in> set (ad_users d)"
    by (auto simp: active_admin_user_def select_user_def find_Some_iff)
  with issue_after[OF assms(1)] assms(2,3) show ?thesis
    by (auto simp: shut_out_def set_password_hash_def revoke_sessions_def of_user_def open_session_of_def bex_Un)
qed

lemma shut_out_step:
  assumes "auth_step env known y e y'" and i: "auth_inv env known y"
    and s: "shut_out env known i (xs_db y)" and e: "e \<noteq> Redeemed i"
  shows "shut_out env known i (xs_db y')"
  using assms(1)
proof (cases rule: auth_step.cases)
  case (rehash u pw h now f r db)
  let ?current = "\<lambda>v. wu_id v = wu_id u \<and> wu_password_hash v = wu_password_hash u \<and> wu_disabled_at v = None"
  have "usable env known (wu_password_hash u)" using rehash by (intro usableI)
  from conjunct1[OF rehash_after[OF rehash(7)]] have "shut_out env known i db"
  proof
    assume d: "ad_users db = ad_users (set_password_hash ?current h now (xs_db y)) \<and>
      ad_sessions db = ad_sessions (xs_db y) \<and> ad_last_user_id db = ad_last_user_id (xs_db y)"
    from \<open>usable env known (wu_password_hash u)\<close> s show ?thesis
      by (intro shut_out_users[OF s conjunct1[OF d]]) (use d in \<open>auto simp: shut_out_def\<close>)
  qed (use s in simp)
  with rehash show ?thesis by simp
next
  case (create j h sid agent expires now f r db)
  from i create(3) have "usable env known h" by (auto simp: auth_inv_def)
  with s have "\<not> (\<exists>u \<in> set (ad_users (xs_db y)). wu_id u = i \<and> wu_password_hash u = h)" by (auto simp: shut_out_def)
  with create_after[OF create(4)] have "ad_users db = ad_users (xs_db y)"
    "ad_sessions db = ad_sessions (xs_db y) \<or> (\<exists>s. ad_sessions db = ad_sessions (xs_db y) @ [s] \<and> we_user_id s \<noteq> i)"
    by (cases "j = i"; auto)+
  with s have "shut_out env known i db" by (auto simp: shut_out_def)
  with create show ?thesis by simp
next
  case (issue h ex name cl expires now f r db)
  have "shut_out env known i db"
  proof (cases r)
    case (Inr c)
    from issue_after[OF issue(3)] obtain u :: web_user where u: "ad_users db = ad_users (set_password_hash (of_user (wu_id u)) h now (xs_db y))"
      "ad_sessions db = ad_sessions (snd (revoke_sessions (open_session_of (wu_id u)) now (xs_db y)))"
      unfolding Inr sum.case by blast
    have "shut_out env known i (xs_db y\<lparr>ad_users := ad_users db\<rparr>)"
      by (rule shut_out_users[OF s, where P = "of_user (wu_id u)" and h = h and now = now]) (use u issue in auto)
    then show ?thesis
      by (rule shut_out_sessions[where g = "\<lambda>s. if open_session_of (wu_id u) s then s\<lparr>we_revoked_at := Some now\<rparr> else s"])
         (use u in \<open>auto simp: revoke_sessions_def\<close>)
  qed (use issue_after[OF issue(3)] s in auto)
  with issue show ?thesis by simp
next
  case (redeem pw h cl name now f r db)
  have "shut_out env known i db"
  proof (cases r)
    case (Inr jh)
    then obtain j h' where jh: "r = Inr (j, h')" by (cases jh) auto
    with e redeem(5) have "j \<noteq> i" by auto
    with redeem_after[OF redeem(4)] jh show ?thesis
      by (intro shut_out_users[OF s, where P = "of_user j" and h = h and now = now]) (auto simp: of_user_def)
  qed (use redeem_after[OF redeem(4)] s in auto)
  with redeem show ?thesis by simp
next
  case (claim pw h cl name now f r db)
  from s have "ad_users (xs_db y) \<noteq> []" by (auto simp: shut_out_def)
  with claim_after[OF claim(5)] have "db = xs_db y" by (auto split: sum.splits prod.splits)
  with claim s show ?thesis by simp
next
  case (use_session sid touch now f r db)
  with session_user_after[OF use_session(3)] have "shut_out env known i db"
    by (intro shut_out_sessions[OF s, where g = "\<lambda>s. if we_id_hash s = ae_secret_hash env sid
        then s\<lparr>we_last_seen_at := now\<rparr> else s"]) (auto simp: touch_session_def)
  with use_session show ?thesis by simp
next
  case (logout sid now f)
  have "shut_out env known i (revoke_web_session env sid now f (xs_db y))"
    using logout_after[of env sid now f "xs_db y"]
    by (intro shut_out_sessions[OF s, where g = "\<lambda>s. if we_id_hash s = ae_secret_hash env sid
        then s\<lparr>we_revoked_at := Some now\<rparr> else s"]) (auto simp: revoke_sessions_def)
  with logout show ?thesis by simp
next
  case (restart cl expires f r db)
  with shut_out_same[OF s restart_accounts[OF restart(3)]] show ?thesis by simp
qed (use s in auto)

lemma shut_out_run:
  "auth_run env known y es y' \<Longrightarrow> auth_inv env known y \<Longrightarrow> shut_out env known i (xs_db y) \<Longrightarrow> Redeemed i \<notin> set es \<Longrightarrow>
     auth_inv env known y' \<and> shut_out env known i (xs_db y')"
  by (induction rule: auth_run.induct) (auto intro: auth_inv_step shut_out_step)

lemma shut_out_no_session:
  assumes "shut_out env known i d"
  shows "fst (session_user env sid touch now f d) = Some v \<Longrightarrow> wu_id v \<noteq> i"
proof -
  have "wu_id v \<noteq> i" if "session_row id_hash t d = Some v" for id_hash t v
  proof -
    let ?rows = "concat (map (\<lambda>s. if live_session id_hash t s
        then filter (\<lambda>u. wu_id u = we_user_id s \<and> wu_disabled_at u = None) (ad_users d) else []) (ad_sessions d))"
    from that obtain rest where "?rows = v # rest" unfolding session_row_def by (cases ?rows) auto
    then have "v \<in> set ?rows" by (simp only: list.set_intros)
    then obtain s where "s \<in> set (ad_sessions d)" "we_revoked_at s = None" "wu_id v = we_user_id s"
      by (auto simp: live_session_def split: if_splits)
    with assms show ?thesis by (auto simp: shut_out_def)
  qed
  then show "fst (session_user env sid touch now f d) = Some v \<Longrightarrow> wu_id v \<noteq> i"
    by (auto simp: session_user_def db_ops Let_def split: if_splits sum.splits prod.splits)
qed

lemma shut_out_no_login:
  assumes "shut_out env known i d" and "known pw"
    and "fst (open_db (verify_web_user env name pw h now) f d) = Inr (Some v)"
  shows "wu_id v \<noteq> i"
proof
  assume v: "wu_id v = i"
  from assms(3) obtain u where u: "verify_lookup name d = Some u" "passes env (wu_password_hash u) pw"
    and r: "v = u \<or> fst (open_db (rehash_web_user env u pw h now) f d) = Inr (Some v)"
    by (auto simp: verify_web_user_def db_ops Let_def split: if_splits option.splits prod.splits)
  have "wu_id v = wu_id u"
    using r rehash_after[of env u pw h now f d "Inr (Some v)" "snd (open_db (rehash_web_user env u pw h now) f d)"]
    by (metis prod.collapse)
  moreover have "u \<in> set (ad_users d)"
    using u(1) by (auto simp: verify_lookup_def select_user_def find_Some_iff Let_def split: if_splits)
  ultimately show False using assms(1,2) v u(2) by (auto simp: shut_out_def dest: usableI[where known = known, OF assms(2)])
qed

section \<open>Properties\<close>

definition empty_auth_db :: auth_db where
  "empty_auth_db = \<lparr>ad_users = [], ad_last_user_id = 0, ad_sessions = [], ad_settings = [], ad_audits = [], ad_last_run_id = 0\<rparr>"

definition auth_reachable :: "auth_env \<Rightarrow> (string \<Rightarrow> bool) \<Rightarrow> auth_system \<Rightarrow> bool" where
  "auth_reachable env known y = (\<exists>es. auth_run env known \<lparr>xs_db = empty_auth_db, xs_threads = []\<rparr> es y)"

lemma auth_reachable_inv: "auth_reachable env known y \<Longrightarrow> auth_inv env known y"
  unfolding auth_reachable_def
  using auth_inv_run[of env known "\<lparr>xs_db = empty_auth_db, xs_threads = []\<rparr>"]
  by (auto simp: auth_inv_def accounts_ok_def empty_auth_db_def)

text \<open>C33: From the moment a recovery claim for an account is issued until that claim is redeemed, nobody is
  signed in to the account: no session of it is accepted, not even one that a login under way opens with
  credentials it checked before, and no password anybody presents logs in to it; whatever other requests,
  rehashes, restarts and database failures happen in between.\<close>

theorem recovery_shuts_out:
  assumes "auth_reachable env known y"
    and "auth_step env known y (Issued i) y1"
    and "auth_run env known y1 es y2" and "Redeemed i \<notin> set es"
    and "known pw"
  shows "(fst (session_user env sid touch now f (xs_db y2)) = Some v \<longrightarrow> wu_id v \<noteq> i) \<and>
    (fst (open_db (verify_web_user env name pw h now) f (xs_db y2)) = Inr (Some v) \<longrightarrow> wu_id v \<noteq> i)"
proof -
  note inv = auth_reachable_inv[OF assms(1)]
  from assms(2) have "shut_out env known i (xs_db y1)"
  proof (cases rule: auth_step.cases)
    case (issue h ex name cl expires now f r db)
    then obtain c u where "r = Inr c" "active_admin_user (normalize_username name) (xs_db y) = Some u" "i = wu_id u"
      by (auto split: sum.splits option.splits)
    with issue issue_shuts_out[of env ex name cl h expires now f "xs_db y" c db u known] show ?thesis by simp
  qed (auto split: sum.splits prod.splits)
  with shut_out_run[OF assms(3) auth_inv_step[OF assms(2) inv] _ assms(4)] have s: "shut_out env known i (xs_db y2)" by blast
  then show ?thesis using shut_out_no_session shut_out_no_login[where known = known, OF _ assms(5)] by blast
qed

section \<open>An example\<close>

text \<open>An administrator is set up; before the session is opened a recovery claim is issued.\<close>

definition toy_env :: auth_env where
  "toy_env = \<lparr>ae_secret_hash = (\<lambda>s. CHR ''#'' # s), ae_verify = (\<lambda>h pw. Some (h = ''h:'' @ pw)), ae_needs_rehash = (\<lambda>_. False)\<rparr>"

definition toy_known :: "string \<Rightarrow> bool" where
  "toy_known pw = (pw = ''old'')"

definition toy_prepared :: auth_db where
  "toy_prepared = snd (open_db (prepare_web_auth_state toy_env ''cl'' ''2030'') No_Fault empty_auth_db)"

definition toy_claimed :: auth_db where
  "toy_claimed = snd (claimed_admin toy_env ''cl'' ''bob'' ''h:old'' ''2029'' No_Fault toy_prepared)"

definition toy_issued :: auth_db where
  "toy_issued = snd (issue_admin_recovery_claim toy_env True ''bob'' ''rc'' ''h:zz'' ''2031'' ''2030'' No_Fault toy_claimed)"

definition toy_late :: auth_db where
  "toy_late = snd (open_db (create_web_session toy_env 1 ''h:old'' ''sid'' '''' ''2032'' ''2030'') No_Fault toy_issued)"

lemma toy_claimed_reachable:
  "auth_reachable toy_env toy_known \<lparr>xs_db = toy_claimed, xs_threads = [Holding 1 ''h:old'']\<rparr>"
proof -
  have "open_db (prepare_web_auth_state toy_env ''cl'' ''2030'') No_Fault empty_auth_db = (Inr ''cl'', toy_prepared)"
    unfolding toy_prepared_def by code_simp
  then have p: "auth_step toy_env toy_known \<lparr>xs_db = empty_auth_db, xs_threads = []\<rparr> Other \<lparr>xs_db = toy_prepared, xs_threads = []\<rparr>"
    using auth_step.restart[of toy_env "''cl''" "''2030''" No_Fault "\<lparr>xs_db = empty_auth_db, xs_threads = []\<rparr>"] by simp
  have "claimed_admin toy_env ''cl'' ''bob'' ''h:old'' ''2029'' No_Fault toy_prepared = (Inr (1, ''h:old''), toy_claimed)"
    unfolding toy_claimed_def toy_prepared_def by code_simp
  then have c: "auth_step toy_env toy_known \<lparr>xs_db = toy_prepared, xs_threads = []\<rparr> Other
      \<lparr>xs_db = toy_claimed, xs_threads = [Holding 1 ''h:old'']\<rparr>"
    using auth_step.claim[of toy_known "''old''" toy_env "''h:old''" "''cl''" "''bob''" "''2029''" No_Fault
        "\<lparr>xs_db = toy_prepared, xs_threads = []\<rparr>"]
    by (simp add: toy_known_def toy_env_def passes_def)
  show ?thesis unfolding auth_reachable_def using auth_next[OF p auth_next[OF c auth_stay]] by blast
qed

theorem recovery_shuts_out_witness:
  "map_option wu_id (fst (session_user toy_env ''sid'' False ''2030'' No_Fault toy_late)) \<noteq> Some 1 \<and>
   fst (session_user toy_env ''sid'' False ''2030'' No_Fault
     (snd (open_db (create_web_session toy_env 1 ''h:old'' ''sid'' '''' ''2032'' ''2030'') No_Fault toy_claimed))) \<noteq> None"
proof
  let ?y = "\<lparr>xs_db = toy_claimed, xs_threads = [Holding 1 ''h:old'']\<rparr>"
  let ?y1 = "\<lparr>xs_db = toy_issued, xs_threads = [Holding 1 ''h:old'']\<rparr>"
  let ?y2 = "\<lparr>xs_db = toy_late, xs_threads = [Holding 1 ''h:old'']\<rparr>"
  have "case fst (issue_admin_recovery_claim toy_env True ''bob'' ''rc'' ''h:zz'' ''2031'' ''2030'' No_Fault toy_claimed) of Inr c \<Rightarrow> True | _ \<Rightarrow> False"
    unfolding toy_claimed_def toy_prepared_def by code_simp
  then obtain c where c: "issue_admin_recovery_claim toy_env True ''bob'' ''rc'' ''h:zz'' ''2031'' ''2030'' No_Fault toy_claimed = (Inr c, toy_issued)"
    unfolding toy_issued_def 
    by (cases "issue_admin_recovery_claim toy_env True ''bob'' ''rc'' ''h:zz'' ''2031'' ''2030'' No_Fault toy_claimed")
       (auto split: sum.splits)
  have "map_option wu_id (active_admin_user (normalize_username ''bob'') toy_claimed) = Some 1"
    unfolding toy_claimed_def toy_prepared_def by code_simp
  then obtain z where z: "active_admin_user (normalize_username ''bob'') toy_claimed = Some z" "wu_id z = 1" by auto
  have "\<not> usable toy_env toy_known ''h:zz''" by (auto simp: usable_def toy_known_def toy_env_def passes_def)
  then have i: "auth_step toy_env toy_known ?y (Issued 1) ?y1"
    using auth_step.issue[of toy_env toy_known "''h:zz''" True "''bob''" "''rc''" "''2031''" "''2030''" No_Fault ?y "Inr c" toy_issued "Issued 1"]
      c z by simp
  have "auth_step toy_env toy_known ?y1 Other ?y2"
    using auth_step.create[of 1 "''h:old''" ?y1 toy_env "''sid''" "''''" "''2032''" "''2030''" No_Fault _ toy_late toy_known]
    by (auto simp: toy_late_def prod_eq_iff)
  from auth_next[OF this auth_stay] have r: "auth_run toy_env toy_known ?y1 [Other] ?y2" .
  show "map_option wu_id (fst (session_user toy_env ''sid'' False ''2030'' No_Fault toy_late)) \<noteq> Some 1"
    using recovery_shuts_out[OF toy_claimed_reachable i r, of "''old''" "''sid''" False "''2030''" No_Fault
        "the (fst (session_user toy_env ''sid'' False ''2030'' No_Fault toy_late))"]
    by (cases "fst (session_user toy_env ''sid'' False ''2030'' No_Fault toy_late)") (auto simp: toy_known_def)
qed (unfold toy_claimed_def toy_prepared_def, code_simp)

end
