(* ===== verification/Auth_Handlers.thy ===== *)
theory Auth_Handlers
  imports Auth_Sessions
begin

text \<open>
  The handlers of \<open>src/src/wudup/web_auth.py\<close> over the throttles and the database: setup, login, recovery,
  logout, the session endpoint and the guard \<open>require_auth\<close>. What a request draws from clocks, random
  numbers and the password hasher, and how its database operations fare, is one record; the origin a cookie
  is secured by may not parse, which is the error 500.
\<close>

record auth_state =
  st_login :: login_state
  st_db :: auth_db

record auth_draws =
  dr_monotonic :: real
  dr_now :: string
  dr_expires_at :: string
  dr_session_id :: string
  dr_password_hash :: string
  dr_fault :: "string \<Rightarrow> db_fault"

record auth_session_response =
  ar_authenticated :: bool
  ar_setup_required :: bool
  ar_auth_required :: bool
  ar_dev_auth_bypass :: bool
  ar_username :: "string option"

type_synonym auth_answer = "(auth_error + (auth_session_response \<times> set_cookie list)) \<times> auth_state"

definition auth_response :: "web_settings \<Rightarrow> bool \<Rightarrow> bool \<Rightarrow> string option \<Rightarrow> auth_session_response" where
  "auth_response se authenticated setup username =
     \<lparr>ar_authenticated = authenticated, ar_setup_required = setup, ar_auth_required = (\<not> se_dev_no_auth se),
       ar_dev_auth_bypass = se_dev_no_auth se, ar_username = username\<rparr>"

definition auth_failed :: auth_error where
  "auth_failed = Http_Error 401 ''authentication required''"

section \<open>Opening a session\<close>

definition opened_session ::
  "auth_env \<Rightarrow> http_request \<Rightarrow> auth_draws \<Rightarrow> nat \<Rightarrow> string \<Rightarrow> auth_state \<Rightarrow> (auth_error + string option) \<times> auth_state" where
  "opened_session env rq dr user_id password_hash s =
     (let (r, db) = or_500 ''could not create session''
            (open_db (create_web_session env user_id password_hash (dr_session_id dr) (header rq ''user-agent'')
               (dr_expires_at dr) (dr_now dr)) (dr_fault dr ''session'') (st_db s))
      in (r, s\<lparr>st_db := db\<rparr>))"

definition signed_in ::
  "web_settings \<Rightarrow> http_request \<Rightarrow> string \<Rightarrow> string \<Rightarrow> auth_state \<Rightarrow> auth_answer" where
  "signed_in se rq session_id username s =
     (case session_cookie_of session_id rq se of
        None \<Rightarrow> (Inl (Http_Error 500 ''Internal Server Error''), s)
      | Some c \<Rightarrow> (Inr (auth_response se True False (Some username), [c]), s))"

text \<open>The end of setup and recovery: a session for the new credentials.\<close>

definition session_for_new_password ::
  "auth_env \<Rightarrow> web_settings \<Rightarrow> http_request \<Rightarrow> auth_draws \<Rightarrow> string \<Rightarrow>
     (auth_error + (nat \<times> string)) \<times> auth_db \<Rightarrow> auth_state \<Rightarrow> auth_answer" where
  "session_for_new_password env se rq dr username r s =
     (case fst r of
        Inl e \<Rightarrow> (Inl e, s\<lparr>st_db := snd r\<rparr>)
      | Inr (user_id, password_hash) \<Rightarrow>
          (case opened_session env rq dr user_id password_hash (s\<lparr>st_db := snd r\<rparr>) of
             (Inl e, s') \<Rightarrow> (Inl e, s')
           | (Inr None, s') \<Rightarrow> (Inl auth_failed, s')
           | (Inr (Some session_id), s') \<Rightarrow> signed_in se rq session_id username s'))"

section \<open>Setup and recovery\<close>

definition api_setup_claim ::
  "auth_env \<Rightarrow> web_settings \<Rightarrow> http_request \<Rightarrow> string \<Rightarrow> string \<Rightarrow> auth_draws \<Rightarrow> auth_state \<Rightarrow> auth_answer" where
  "api_setup_claim env se rq claim username_given dr s =
     (if se_dev_no_auth se then (Inr (auth_response se True False None, []), s)
      else let username = normalize_username username_given
           in if username = '''' then (Inl (Http_Error 422 ''username is required''), s)
              else session_for_new_password env se rq dr username
                (claimed_admin env claim username (dr_password_hash dr) (dr_now dr) (dr_fault dr ''claim'') (st_db s)) s)"

definition api_auth_reset_admin_claim ::
  "auth_env \<Rightarrow> web_settings \<Rightarrow> http_request \<Rightarrow> string \<Rightarrow> string \<Rightarrow> auth_draws \<Rightarrow> auth_state \<Rightarrow> auth_answer" where
  "api_auth_reset_admin_claim env se rq claim username_given dr s =
     (let username = normalize_username username_given
      in if username = '''' then (Inl (Http_Error 422 ''username is required''), s)
         else session_for_new_password env se rq dr username
           (or_500 ''could not reset admin password''
              (open_db (redeem_admin_recovery_claim env claim username (dr_password_hash dr) (dr_now dr))
                (dr_fault dr ''claim'') (st_db s))) s)"

section \<open>Login\<close>

text \<open>
  \<open>api_auth_login\<close>: the attempt is reserved before the password is checked, counted as a failure or
  cleared after it, and released whatever happened.
\<close>

definition login_attempt_body ::
  "auth_env \<Rightarrow> http_request \<Rightarrow> string \<Rightarrow> string \<Rightarrow> string \<Rightarrow> auth_draws \<Rightarrow> auth_state \<Rightarrow>
     (auth_error + (string \<times> string)) \<times> auth_state" where
  "login_attempt_body env rq client username password dr s =
     (let (r, db) = or_500 ''could not verify credentials''
            (open_db (verify_web_user env username password (dr_password_hash dr) (dr_now dr)) (dr_fault dr ''verify'') (st_db s));
          s1 = s\<lparr>st_db := db\<rparr>;
          failed = (\<lambda>s. s\<lparr>st_login := record_login_failure client (normalize_username username) (dr_monotonic dr) (st_login s)\<rparr>)
      in case r of
           Inl e \<Rightarrow> (Inl e, s1)
         | Inr None \<Rightarrow> (Inl auth_failed, failed s1)
         | Inr (Some user) \<Rightarrow>
             (case opened_session env rq dr (wu_id user) (wu_password_hash user) s1 of
                (Inl e, s2) \<Rightarrow> (Inl e, s2)
              | (Inr None, s2) \<Rightarrow> (Inl auth_failed, failed s2)
              | (Inr (Some session_id), s2) \<Rightarrow>
                  (Inr (session_id, wu_username user),
                   s2\<lparr>st_login := clear_login_throttle client (normalize_username username) (st_login s2)\<rparr>)))"

definition api_auth_login ::
  "auth_env \<Rightarrow> web_settings \<Rightarrow> http_request \<Rightarrow> string \<Rightarrow> string \<Rightarrow> auth_draws \<Rightarrow> auth_state \<Rightarrow> auth_answer" where
  "api_auth_login env se rq username password dr s =
     (if se_dev_no_auth se then (Inr (auth_response se True False None, []), s)
      else case setup_required False (dr_fault dr ''setup'') (st_db s) of
        Inl e \<Rightarrow> (Inl e, s)
      | Inr True \<Rightarrow> (Inl (Http_Error 403 ''setup required''), s)
      | Inr False \<Rightarrow>
          let client = request_client_address rq se;
              name = normalize_username username;
              (admitted, login) = reserve_login_attempt client name (dr_monotonic dr) (st_login s)
          in if \<not> admitted then (Inl auth_failed, s\<lparr>st_login := login\<rparr>)
             else let (r, s1) = login_attempt_body env rq client username password dr (s\<lparr>st_login := login\<rparr>);
                      s2 = s1\<lparr>st_login := release_login_attempt client name (st_login s1)\<rparr>
                  in case r of
                       Inl e \<Rightarrow> (Inl e, s2)
                     | Inr (session_id, user) \<Rightarrow> signed_in se rq session_id user s2)"

section \<open>Who is signed in\<close>

definition requested_session ::
  "auth_env \<Rightarrow> http_request \<Rightarrow> auth_draws \<Rightarrow> auth_state \<Rightarrow> web_user option \<times> auth_state" where
  "requested_session env rq dr s =
     (let (user, db) = session_user env (cookie rq SESSION_COOKIE) (\<not> safe_method rq) (dr_now dr)
            (dr_fault dr ''session'') (st_db s)
      in (user, s\<lparr>st_db := db\<rparr>))"

definition bearer_accepted ::
  "web_settings \<Rightarrow> http_request \<Rightarrow> string option \<Rightarrow> auth_draws \<Rightarrow> auth_state \<Rightarrow> bool \<times> auth_state" where
  "bearer_accepted se rq authorization dr s =
     (let (ok, login) = bearer_token_accepted (se_auth_token se) (request_client_address rq se) authorization
            (dr_monotonic dr) (st_login s)
      in (ok, s\<lparr>st_login := login\<rparr>))"

definition require_auth ::
  "auth_env \<Rightarrow> web_settings \<Rightarrow> http_request \<Rightarrow> string option \<Rightarrow> auth_draws \<Rightarrow> auth_state \<Rightarrow> (auth_error + unit) \<times> auth_state" where
  "require_auth env se rq authorization dr s =
     (if se_dev_no_auth se then (Inr (), s)
      else case setup_required False (dr_fault dr ''setup'') (st_db s) of
        Inl e \<Rightarrow> (Inl e, s)
      | Inr True \<Rightarrow> (Inl (Http_Error 403 ''setup required''), s)
      | Inr False \<Rightarrow>
          let (ok, s1) = bearer_accepted se rq authorization dr s
          in if ok then (Inr (), s1)
             else let (user, s2) = requested_session env rq dr s1
                  in (if user \<noteq> None then Inr () else Inl auth_failed, s2))"

definition request_authenticated ::
  "auth_env \<Rightarrow> web_settings \<Rightarrow> http_request \<Rightarrow> string option \<Rightarrow> auth_draws \<Rightarrow> auth_state \<Rightarrow> (auth_error + bool) \<times> auth_state" where
  "request_authenticated env se rq authorization dr s =
     (if se_dev_no_auth se then (Inr True, s)
      else case setup_required False (dr_fault dr ''setup'') (st_db s) of
        Inl e \<Rightarrow> (Inl e, s)
      | Inr True \<Rightarrow> (Inr False, s)
      | Inr False \<Rightarrow>
          let (ok, s1) = bearer_accepted se rq authorization dr s
          in if ok then (Inr True, s1)
             else let (user, s2) = requested_session env rq dr s1 in (Inr (user \<noteq> None), s2))"

definition api_auth_logout ::
  "auth_env \<Rightarrow> web_settings \<Rightarrow> http_request \<Rightarrow> auth_draws \<Rightarrow> auth_state \<Rightarrow> (auth_error + auth_session_response) \<times> auth_state" where
  "api_auth_logout env se rq dr s =
     (let s1 = s\<lparr>st_db := revoke_web_session env (cookie rq SESSION_COOKIE) (dr_now dr) (dr_fault dr ''session'') (st_db s)\<rparr>
      in (case setup_required (se_dev_no_auth se) (dr_fault dr ''setup'') (st_db s1) of
            Inl e \<Rightarrow> (Inl e, s1)
          | Inr required \<Rightarrow> (Inr (auth_response se (se_dev_no_auth se) required None), s1)))"

definition api_auth_session ::
  "auth_env \<Rightarrow> web_settings \<Rightarrow> http_request \<Rightarrow> string option \<Rightarrow> auth_draws \<Rightarrow> auth_state \<Rightarrow>
     (auth_error + auth_session_response) \<times> auth_state" where
  "api_auth_session env se rq authorization dr s =
     (case setup_required (se_dev_no_auth se) (dr_fault dr ''setup'') (st_db s) of
        Inl e \<Rightarrow> (Inl e, s)
      | Inr required \<Rightarrow>
          let (user, s1) = requested_session env rq dr s;
              (ok, s2) = (if se_dev_no_auth se then (True, s1)
                 else if required then (False, s1) else bearer_accepted se rq authorization dr s1)
          in (Inr (auth_response se (ok \<or> user \<noteq> None) required (map_option wu_username user)), s2))"

definition request_actor_type :: "web_settings \<Rightarrow> http_request \<Rightarrow> string" where
  "request_actor_type se rq =
     (if se_dev_no_auth se then ''dev''
      else if bearer_token_valid (se_auth_token se) (map_of (rq_headers rq) ''authorization'') then ''bearer''
      else if cookie rq SESSION_COOKIE \<noteq> '''' then ''session''
      else ''unknown'')"

end
