(* ===== verification/Lsio_Updates.thy ===== *)
theory Lsio_Updates
  imports Prelude
begin

text \<open>
  The tags of LinuxServer.io images, from \<open>src/src/wudup/lsio_updates.py\<close>: architecture, branch, upstream
  version and build of a tag, and whether an update changes the upstream version or rebuilds the image.
  The patterns are written out as the recognisers they denote on one line of text.
\<close>

datatype lsio_change = UpstreamUpdate | ImageRebuild | UnknownChange

datatype lsio_kind = BuildTag | VersionTag | BranchTag | PseudoSemver | UnknownTag

record lsio_parts =
  lp_raw :: string
  lp_kind :: lsio_kind
  lp_arch :: string
  lp_branch :: string
  lp_upstream :: string
  lp_build :: string

definition unknown_parts :: "string \<Rightarrow> string \<Rightarrow> string \<Rightarrow> lsio_parts" where
  "unknown_parts raw arch build = \<lparr>lp_raw = raw, lp_kind = UnknownTag, lp_arch = arch, lp_branch = '''',
     lp_upstream = '''', lp_build = build\<rparr>"

record lsio_classification =
  lc_change :: lsio_change
  lc_reason :: string
  lc_current :: lsio_parts
  lc_target :: lsio_parts

section \<open>Patterns\<close>

definition ARCH_PREFIXES :: "string list" where
  "ARCH_PREFIXES = [''amd64'', ''arm32v6'', ''arm32v7'', ''arm64v8'', ''ppc64le'', ''riscv64'', ''s390x'']"

definition alnum :: "char \<Rightarrow> bool" where
  "alnum c = (is_digit c \<or> is_alpha c)"

text \<open>\<open>(?:[._-][\da-z]+)*\<close> to the end, letters in either case.\<close>

function (sequential) suffix_groups :: "string \<Rightarrow> bool" where
  "suffix_groups [] = True"
| "suffix_groups (c # s) =
     (c \<in> set ''._-'' \<and> takeWhile alnum s \<noteq> [] \<and> suffix_groups (dropWhile alnum s))"
  by pat_completeness auto
termination
  by (relation "measure length") (auto simp: le_imp_less_Suc length_dropWhile_le)

definition build_suffix :: "string \<Rightarrow> bool" where
  "build_suffix s =
     (lower (take 2 s) = ''ls'' \<and> takeWhile is_digit (drop 2 s) \<noteq> [] \<and> suffix_groups (dropWhile is_digit (drop 2 s)))"

text \<open>\<open>LSIO_BUILD_SUFFIX_RE.search\<close>: the first dash a build suffix follows, as the texts around it.\<close>

fun search_build :: "string \<Rightarrow> (string \<times> string) option" where
  "search_build [] = None"
| "search_build (c # s) =
     (if c = CHR ''-'' \<and> build_suffix s then Some ([], s)
      else map_option (\<lambda>(body, build). (c # body, build)) (search_build s))"

text \<open>\<open>VERSION_START_RE\<close>: a number, a dot and a digit, after at most one \<open>v\<close>.\<close>

definition drop_v :: "string \<Rightarrow> string" where
  "drop_v s = (case s of [] \<Rightarrow> [] | c # r \<Rightarrow> if c = CHR ''v'' \<or> c = CHR ''V'' then r else s)"

definition version_start :: "string \<Rightarrow> bool" where
  "version_start s =
     (let number = takeWhile is_digit (drop_v s); r = dropWhile is_digit (drop_v s)
      in number \<noteq> [] \<and> length r \<ge> 2 \<and> r ! 0 = CHR ''.'' \<and> is_digit (r ! 1))"

section \<open>Parsing\<close>

definition split_arch :: "string list \<Rightarrow> string \<times> string list" where
  "split_arch tokens = (case tokens of [] \<Rightarrow> ('''', [])
     | t # ts \<Rightarrow> if lower t \<in> set ARCH_PREFIXES then (t, ts) else ('''', tokens))"

fun index_where :: "('a \<Rightarrow> bool) \<Rightarrow> 'a list \<Rightarrow> nat option" where
  "index_where P [] = None"
| "index_where P (x # xs) = (if P x then Some 0 else map_option Suc (index_where P xs))"

definition join_dash :: "string list \<Rightarrow> string" where
  "join_dash tokens = join_with ''-'' tokens"

definition parse_lsio_tag :: "string \<Rightarrow> lsio_parts" where
  "parse_lsio_tag tag =
     (let raw = py_strip tag in
      if raw = '''' then unknown_parts '''' '''' ''''
      else let (arch, tokens) = split_arch (split_on CHR ''-'' raw) in
      case index_where (\<lambda>t. lower t = ''version'') tokens of
        Some i \<Rightarrow>
          (let upstream = join_dash (drop (i + 1) tokens)
           in if upstream \<noteq> '''' \<and> version_start upstream
              then \<lparr>lp_raw = raw, lp_kind = VersionTag, lp_arch = arch, lp_branch = join_dash (take i tokens),
                     lp_upstream = upstream, lp_build = ''''\<rparr>
              else unknown_parts raw arch '''')
      | None \<Rightarrow>
          (case search_build raw of
             Some (c # body, build) \<Rightarrow>
               (let (arch, body_tokens) = split_arch (split_on CHR ''-'' (c # body)) in
                case index_where version_start body_tokens of
                  Some i \<Rightarrow> \<lparr>lp_raw = raw, lp_kind = BuildTag, lp_arch = arch, lp_branch = join_dash (take i body_tokens),
                    lp_upstream = join_dash (drop i body_tokens), lp_build = build\<rparr>
                | None \<Rightarrow> unknown_parts raw arch build)
           | _ \<Rightarrow>
               if index_where version_start tokens = Some 0
               then \<lparr>lp_raw = raw, lp_kind = PseudoSemver, lp_arch = arch, lp_branch = '''', lp_upstream = raw, lp_build = ''''\<rparr>
               else \<lparr>lp_raw = raw, lp_kind = BranchTag, lp_arch = arch, lp_branch = join_dash tokens,
                      lp_upstream = '''', lp_build = ''''\<rparr>))"

definition normalize_lsio_version :: "string \<Rightarrow> string" where
  "normalize_lsio_version v =
     (let normalized = lower (py_strip v)
      in if startswith normalized ''v'' \<and> length normalized > 1 \<and> py_isdigit_char (normalized ! 1)
         then tl normalized else normalized)"

definition is_lsio_repo :: "string \<Rightarrow> bool" where
  "is_lsio_repo v =
     list_ex (\<lambda>part. part = ''linuxserver'' \<or> part = ''linuxserver.io'') (butlast (split_on CHR ''/'' (lower v)))"

section \<open>Classifying\<close>

definition versioned :: "lsio_parts \<Rightarrow> bool" where
  "versioned p = (lp_kind p \<in> {BuildTag, VersionTag, PseudoSemver})"

definition trusted_upstream :: "lsio_parts \<Rightarrow> string" where
  "trusted_upstream p = (if versioned p then normalize_lsio_version (lp_upstream p) else '''')"

definition first_of :: "string \<Rightarrow> string \<Rightarrow> string" where
  "first_of a b = (if a \<noteq> '''' then a else b)"

definition classify_lsio_update ::
  "string \<Rightarrow> string \<Rightarrow> string \<Rightarrow> string \<Rightarrow> string \<Rightarrow> lsio_classification" where
  "classify_lsio_update image_repo current_tag target_tag lsio_tag upstream_version =
     (let current = parse_lsio_tag current_tag;
          target = parse_lsio_tag (first_of target_tag lsio_tag);
          answer = (\<lambda>change reason. \<lparr>lc_change = change, lc_reason = reason, lc_current = current, lc_target = target\<rparr>);
          current_upstream = trusted_upstream current;
          target_upstream = first_of (trusted_upstream target) (normalize_lsio_version upstream_version)
      in if \<not> is_lsio_repo image_repo then answer UnknownChange ''non-lsio-image''
         else if current_upstream = '''' \<or> target_upstream = '''' then answer UnknownChange ''ambiguous-tags''
         else if lp_arch current \<noteq> lp_arch target \<or> lp_branch current \<noteq> lp_branch target
         then answer UnknownChange ''branch-or-arch-mismatch''
         else if current_upstream \<noteq> target_upstream then answer UpstreamUpdate ''upstream-version-changed''
         else if versioned current \<and> (versioned target \<or> upstream_version \<noteq> '''')
         then answer ImageRebuild ''same-upstream-image-layer-changed''
         else answer UnknownChange ''ambiguous-tags'')"

end
