(* ===== verification/Release_Skips.thy ===== *)
theory Release_Skips
  imports Lsio_Updates
begin

text \<open>
  Which offered release is which, and which one an operator's skip holds back: \<open>src/src/wudup/release_skips.py\<close>.
\<close>

datatype skip_basis = VersionBasis | TagBasis | DigestBasis

datatype skip_scope = ReleaseScope | LineScope

record release_key =
  rk_basis :: skip_basis
  rk_value :: string
  rk_line :: string

record release_skip =
  rs_id :: int
  rs_service_key :: string
  rs_basis :: skip_basis
  rs_value :: string
  rs_scope :: skip_scope
  rs_skipped_tag :: string
  rs_reason :: string
  rs_created_at :: string

section \<open>Versions\<close>

text \<open>\<open>\d+(?:\.\d+)*\<close> from the start, as the numbers and what follows.\<close>

function version_numbers :: "string \<Rightarrow> (string list \<times> string) option" where
  "version_numbers s =
     (let n = takeWhile is_digit s; r = dropWhile is_digit s
      in if n = '''' then None
         else if r \<noteq> '''' \<and> hd r = CHR ''.''
         then (case version_numbers (tl r) of None \<Rightarrow> Some ([n], r) | Some (ns, r') \<Rightarrow> Some (n # ns, r'))
         else Some ([n], r))"
  by pat_completeness auto
termination
proof (relation "measure length")
  fix s n r assume a: "n = takeWhile is_digit s" "r = dropWhile is_digit s" "n \<noteq> ''''" "r \<noteq> '''' \<and> hd r = CHR ''.''"
  then have "length n + length r = length s" by (metis length_append takeWhile_dropWhile_id)
  moreover from a have "0 < length n" "0 < length r" by blast+
  ultimately show "(tl r, s) \<in> measure length" by (cases r) auto
qed simp

declare version_numbers.simps [simp del]

definition suffix_char :: "char \<Rightarrow> bool" where
  "suffix_char c = (alnum c \<or> c \<in> set ''._+-'')"

text \<open>\<open>_VERSION_TAG_RE\<close>: an optional \<open>v\<close>, the numbers, and nothing or a separated suffix.\<close>

definition version_suffix :: "string \<Rightarrow> bool" where
  "version_suffix r = (r = '''' \<or> (hd r \<in> set ''-_+'' \<and> length r \<ge> 2 \<and> alnum (r ! 1) \<and> list_all suffix_char (tl r)))"

text \<open>\<open>_LSIO_PACKAGE_REVISION_RE.sub\<close> with the empty text.\<close>

definition drop_package_revision :: "string \<Rightarrow> string" where
  "drop_package_revision s =
     (let digits = takeWhile is_digit (rev s); r = dropWhile is_digit (rev s)
      in if digits \<noteq> '''' \<and> startswith r (rev ''-r'') then rev (drop 2 r) else s)"

definition release_version :: "string \<Rightarrow> string \<Rightarrow> string" where
  "release_version image_repo tag =
     (let source = py_strip tag;
          parts = parse_lsio_tag source;
          source = (if is_lsio_repo image_repo \<and> versioned parts then drop_package_revision (lp_upstream parts) else source)
      in case version_numbers (drop_v source) of
           None \<Rightarrow> ''''
         | Some (numbers, r) \<Rightarrow>
             if version_suffix r then join_with ''.'' (map (\<lambda>n. show_nat (digits_val n)) numbers) @ r else '''')"

definition release_line :: "string \<Rightarrow> string" where
  "release_line version =
     (case version_numbers version of
        None \<Rightarrow> ''''
      | Some (numbers, r) \<Rightarrow> if length numbers < 2 then '''' else join_with ''.'' (take 2 numbers))"

section \<open>Matching\<close>

definition release_key_of :: "string \<Rightarrow> string \<Rightarrow> string \<Rightarrow> release_key option" where
  "release_key_of image_repo target_tag digest =
     (let tag = py_strip target_tag; target_digest = py_strip digest
      in if tag \<noteq> ''''
         then let version = release_version image_repo tag
              in Some (if version \<noteq> '''' then \<lparr>rk_basis = VersionBasis, rk_value = version, rk_line = release_line version\<rparr>
                       else \<lparr>rk_basis = TagBasis, rk_value = tag, rk_line = ''''\<rparr>)
         else if target_digest \<noteq> '''' then Some \<lparr>rk_basis = DigestBasis, rk_value = target_digest, rk_line = ''''\<rparr>
         else None)"

definition skip_matches :: "release_skip \<Rightarrow> release_key option \<Rightarrow> bool" where
  "skip_matches skip key =
     (case key of
        None \<Rightarrow> False
      | Some k \<Rightarrow>
          if rk_basis k \<noteq> rs_basis skip then False
          else if rs_scope skip = LineScope then rk_line k \<noteq> '''' \<and> rk_line k = release_line (rs_value skip)
          else rk_value k = rs_value skip)"

definition short_digest :: "string \<Rightarrow> string" where
  "short_digest digest =
     (case break_at '':'' digest of
        None \<Rightarrow> take 12 digest
      | Some (algorithm, hex_value) \<Rightarrow> algorithm @ '':'' @ take 12 hex_value)"

definition skip_label :: "skip_basis \<Rightarrow> string \<Rightarrow> skip_scope \<Rightarrow> string" where
  "skip_label basis v scope =
     (if basis = DigestBasis then ''build '' @ short_digest v
      else if basis = VersionBasis \<and> scope = LineScope then release_line v @ ''.x''
      else v)"

definition key_label :: "release_key \<Rightarrow> string" where
  "key_label k = (if rk_basis k = DigestBasis then ''build '' @ short_digest (rk_value k) else rk_value k)"

definition basis_of :: "string \<Rightarrow> skip_basis" where
  "basis_of v = (if v = ''version'' then VersionBasis else if v = ''digest'' then DigestBasis else TagBasis)"

definition scope_of :: "string \<Rightarrow> skip_scope" where
  "scope_of v = (if v = ''line'' then LineScope else ReleaseScope)"

section \<open>Skips of services\<close>

definition skip_age :: "release_skip \<Rightarrow> string \<times> int" where
  "skip_age s = (rs_created_at s, rs_id s)"

text \<open>
  \<open>sorted(..., reverse=True)\<close> keeps the order of equal keys: the reverse of sorting the reverse.
\<close>

definition newest_first :: "release_skip list \<Rightarrow> release_skip list" where
  "newest_first skips = rev (sort_key skip_age (rev skips))"

definition skips_by_service :: "release_skip list \<Rightarrow> (string \<times> release_skip list) list" where
  "skips_by_service skips =
     foldl (\<lambda>d s. AList.update (rs_service_key s) (dict_get d (rs_service_key s) [] @ [s]) d) [] (newest_first skips)"

text \<open>\<open>max\<close> with a key: the first of the greatest.\<close>

fun newest :: "release_skip list \<Rightarrow> release_skip option" where
  "newest [] = None"
| "newest (s # ss) = (case newest ss of None \<Rightarrow> Some s
     | Some best \<Rightarrow> Some (if skip_age best \<le> skip_age s then s else best))"

definition skip_for_release ::
  "(string \<times> release_skip list) list \<Rightarrow> string list \<Rightarrow> release_key option \<Rightarrow> release_skip option \<times> bool" where
  "skip_for_release skips service_keys key =
     (let candidates = concat (map (\<lambda>k. dict_get skips k []) service_keys)
      in case find (\<lambda>s. skip_matches s key) candidates of
           Some s \<Rightarrow> (Some s, True)
         | None \<Rightarrow> (case key of
               None \<Rightarrow> (None, False)
             | Some k \<Rightarrow> (newest (filter (\<lambda>s. rs_basis s = rk_basis k) candidates), False)))"

lemma find_is_Some: "(find P xs = None) = (\<forall>x \<in> set xs. \<not> P x)"
  by (induction xs) auto

lemma skip_for_release_iff:
  "snd (skip_for_release skips service_keys key) \<longleftrightarrow>
     (\<exists>k \<in> set service_keys. \<exists>s \<in> set (dict_get skips k []). skip_matches s key)"
proof -
  let ?c = "concat (map (\<lambda>k. dict_get skips k []) service_keys)"
  have "snd (skip_for_release skips service_keys key) = (find (\<lambda>s. skip_matches s key) ?c \<noteq> None)"
    by (auto simp: skip_for_release_def Let_def split: option.splits)
  then show ?thesis by (auto simp: find_is_Some)
qed

end
