(* ===== verification/Tag_Streams.thy ===== *)
theory Tag_Streams
  imports Compose_Labels Lsio_Updates Runner_Matching
begin

text \<open>
  Update streams of \<open>src/src/wudup/tag_streams.py\<close>: the stream a version tag belongs to, the include labels
  that keep a service in a stream, and what a plan does with a reported tag of another stream. Patterns the
  code matches with are written out as recognisers on a tag, which holds no line break.
\<close>

section \<open>Streams and patterns\<close>

record stream_parts =
  tp_version :: string
  tp_suffix :: string

definition stream_name :: "stream_parts \<Rightarrow> string" where
  "stream_name p = (if tp_suffix p \<noteq> '''' then tl (tp_suffix p) else ''default'')"

text \<open>One number of a version and what follows it.\<close>

definition number_at :: "string \<Rightarrow> (string \<times> string) option" where
  "number_at s = (if takeWhile is_digit s = '''' then None else Some (takeWhile is_digit s, dropWhile is_digit s))"

text \<open>\<open>\.\d+\<close>\<close>

definition dot_number_at :: "string \<Rightarrow> (string \<times> string) option" where
  "dot_number_at s =
     (case s of [] \<Rightarrow> None | c # r \<Rightarrow>
        if c \<noteq> CHR ''.'' then None else map_option (\<lambda>(n, t). (CHR ''.'' # n, t)) (number_at r))"

definition v_prefix :: "string \<Rightarrow> string" where
  "v_prefix s = (if startswith s ''v'' then ''v'' else '''')"

definition strict_suffix :: "string \<Rightarrow> bool" where
  "strict_suffix s = (s = '''' \<or> (hd s \<in> set ''-_.'' \<and> length s \<ge> 2 \<and> CHR 0x0A \<notin> set (tl s)))"

definition parse_tag_stream :: "string \<Rightarrow> stream_parts option" where
  "parse_tag_stream tag =
     (case number_at (removeprefix tag ''v'') of None \<Rightarrow> None | Some (a, r1) \<Rightarrow>
     (case dot_number_at r1 of None \<Rightarrow> None | Some (b, r2) \<Rightarrow>
     (case dot_number_at r2 of None \<Rightarrow> None | Some (c, sfx) \<Rightarrow>
        if strict_suffix sfx then Some \<lparr>tp_version = v_prefix tag @ a @ b @ c, tp_suffix = sfx\<rparr> else None)))"

record stream_hint =
  sh_current :: string
  sh_reported :: string

definition excluded_lsio_stream :: "string \<Rightarrow> string \<Rightarrow> string \<Rightarrow> bool" where
  "excluded_lsio_stream image_repo current_tag reported_tag =
     (is_lsio_repo image_repo \<or> lp_kind (parse_lsio_tag current_tag) = BuildTag \<or>
      lp_kind (parse_lsio_tag reported_tag) = BuildTag)"

definition pending_tag_stream_hint :: "string \<Rightarrow> string \<Rightarrow> string \<Rightarrow> stream_hint option" where
  "pending_tag_stream_hint image_repo current_tag reported_tag =
     (case (parse_tag_stream current_tag, parse_tag_stream reported_tag) of
        (Some current, Some reported) \<Rightarrow>
          if tp_suffix current = tp_suffix reported \<or> excluded_lsio_stream image_repo current_tag reported_tag then None
          else Some \<lparr>sh_current = stream_name current, sh_reported = stream_name reported\<rparr>
      | _ \<Rightarrow> None)"

definition digits_pattern :: string where
  "digits_pattern = [CHR 0x5C, CHR ''d'', CHR ''+'']"

definition escaped_dot :: string where
  "escaped_dot = [CHR 0x5C, CHR ''.'']"

definition tag_stream_include_regex :: "string \<Rightarrow> string planned" where
  "tag_stream_include_regex tag =
     (case parse_tag_stream tag of
        None \<Rightarrow> Inl (''tag is not a strict version stream: '' @ tag)
      | Some p \<Rightarrow> Inr (''^'' @ v_prefix (tp_version p) @ digits_pattern @ escaped_dot @ digits_pattern
          @ escaped_dot @ digits_pattern @ js_regex_escape (tp_suffix p) @ ''$''))"

text \<open>\<open>(?:\.\d+)+\<close>: how often it is matched, and what follows.\<close>

function dot_numbers :: "string \<Rightarrow> nat \<times> string" where
  "dot_numbers s = (case dot_number_at s of None \<Rightarrow> (0, s) | Some (n, r) \<Rightarrow> (let (k, t) = dot_numbers r in (Suc k, t)))"
  by pat_completeness auto
termination
proof (relation "measure length")
  fix s x n r assume a: "dot_number_at s = Some x" "(n, r) = x"
  then have "length r < length s"
    by (auto simp: dot_number_at_def number_at_def split: list.splits if_splits)
       (metis le_imp_less_Suc length_dropWhile_le)
  then show "(r, s) \<in> measure length" by simp
qed simp

declare dot_numbers.simps [simp del]

definition dotted_group :: string where
  "dotted_group = ''(?:'' @ escaped_dot @ digits_pattern @ '')+''"

text \<open>The fragments after the leading version: escaped texts between the numbers.\<close>

function number_fragments :: "string \<Rightarrow> string" where
  "number_fragments s =
     (let literal = takeWhile (\<lambda>c. \<not> is_digit c) s; r = dropWhile (\<lambda>c. \<not> is_digit c) s
      in js_regex_escape literal @ (if r = '''' then '''' else digits_pattern @ number_fragments (dropWhile is_digit r)))"
  by pat_completeness auto
termination
proof (relation "measure length")
  fix s :: string and literal r assume a: "r = dropWhile (\<lambda>c. \<not> is_digit c) s" "r \<noteq> ''''"
  then obtain c t where c: "r = c # t" "is_digit c" by (metis hd_dropWhile list.collapse)
  then have "length (dropWhile is_digit r) \<le> length t" by (simp add: length_dropWhile_le)
  moreover have "length r \<le> length s" using a(1) by (simp add: length_dropWhile_le)
  ultimately show "(dropWhile is_digit r, s) \<in> measure length" using c by simp
qed simp

declare number_fragments.simps [simp del]

definition retag_tag_include_regex :: "string \<Rightarrow> string planned" where
  "retag_tag_include_regex tag =
     (if \<not> tag_value_valid tag then Inl (''tag is not valid: '' @ tag)
      else case number_at (removeprefix tag ''v'') of
        None \<Rightarrow> Inr (''^'' @ number_fragments tag @ ''$'')
      | Some (major, r) \<Rightarrow>
          let (k, t) = dot_numbers r
          in if k \<ge> 1 \<and> t = ''-alpine'' then Inr (''^'' @ v_prefix tag @ major @ dotted_group @ ''-alpine$'')
             else if k \<ge> 1 \<and> t = '''' then Inr (''^'' @ v_prefix tag @ digits_pattern @ dotted_group @ ''$'')
             else if k \<ge> 1 \<and> managed_wud_tag_transform tag = ''''
             then Inr (''^'' @ v_prefix tag @ digits_pattern @ dotted_group @ number_fragments t @ ''$'')
             else Inr (''^'' @ number_fragments tag @ ''$''))"

section \<open>What a pattern matches\<close>

text \<open>
  The patterns the functions above build, read back: literals, \<open>\d+\<close> and \<open>(?:\.\d+)+\<close> between anchors.
\<close>

datatype re_item = Lit char | Digits | DotDigits

fun read_items :: "string \<Rightarrow> re_item list option" where
  "read_items [] = Some []"
| "read_items (c # s) =
     (if c = CHR 0x5C
      then (case s of
              [] \<Rightarrow> None
            | d # r \<Rightarrow>
                if d = CHR ''d''
                then (case r of [] \<Rightarrow> None | p # r' \<Rightarrow> if p = CHR ''+'' then map_option ((#) Digits) (read_items r') else None)
                else if js_special d then map_option ((#) (Lit d)) (read_items r) else None)
      else if c = CHR ''('' then
        (if startswith (c # s) dotted_group then map_option ((#) DotDigits) (read_items (drop 9 s)) else None)
      else if js_special c then None
      else map_option ((#) (Lit c)) (read_items s))"

definition read_pattern :: "string \<Rightarrow> re_item list option" where
  "read_pattern r = (if startswith r ''^'' \<and> endswith r ''$'' then read_items (butlast (tl r)) else None)"

fun item_matches :: "re_item list \<Rightarrow> string \<Rightarrow> bool" where
  "item_matches [] u = (u = '''')"
| "item_matches (Lit c # is) u = (u \<noteq> '''' \<and> hd u = c \<and> item_matches is (tl u))"
| "item_matches (Digits # is) u =
     list_ex (\<lambda>k. list_all is_digit (take k u) \<and> item_matches is (drop k u)) [1..<Suc (length u)]"
| "item_matches (DotDigits # is) u =
     list_ex (\<lambda>k. fst (dot_numbers (take k u)) \<ge> 1 \<and> snd (dot_numbers (take k u)) = '''' \<and> item_matches is (drop k u))
       [1..<Suc (length u)]"

definition pattern_matches :: "string \<Rightarrow> string \<Rightarrow> bool" where
  "pattern_matches r u = (case read_pattern r of None \<Rightarrow> False | Some is \<Rightarrow> item_matches is u)"

declare item_matches.simps(3,4) [simp del]

lemma read_escape: "read_items (js_regex_escape s @ r) = map_option (\<lambda>is. map Lit s @ is) (read_items r)"
proof (induction s)
  case (Cons c s)
  have "\<not> js_special (CHR ''d'')" by code_simp
  with Cons show ?case by (auto simp: option.map_comp comp_def)
qed (simp add: option.map_ident)

lemma read_digits: "read_items (digits_pattern @ r) = map_option ((#) Digits) (read_items r)"
  by (simp add: digits_pattern_def)

lemma read_dot: "read_items (escaped_dot @ r) = map_option ((#) (Lit CHR ''.'')) (read_items r)"
  by (simp add: escaped_dot_def js_special_def)

lemma read_dotted: "read_items (dotted_group @ r) = map_option ((#) DotDigits) (read_items r)"
  by (simp add: dotted_group_def escaped_dot_def digits_pattern_def startswith_def)

lemma plain_escape: "list_all (\<lambda>c. \<not> js_special c) s \<Longrightarrow> js_regex_escape s = s"
  by (induction s) auto

lemma read_plain: "list_all (\<lambda>c. \<not> js_special c) s \<Longrightarrow> read_items (s @ r) = map_option (\<lambda>is. map Lit s @ is) (read_items r)"
  using read_escape[of s r] by (simp add: plain_escape)

lemma digit_not_special: "is_digit c \<Longrightarrow> \<not> js_special c"
  by (auto simp: is_digit_def js_special_def)

lemma read_pattern_frame: "read_pattern (''^'' @ s @ ''$'') = read_items s"
  by (simp add: read_pattern_def butlast_append)

lemma matches_lits: "item_matches (map Lit s @ is) u \<longleftrightarrow> (\<exists>w. u = s @ w \<and> item_matches is w)"
proof (induction s arbitrary: u)
  case (Cons c s)
  then show ?case by (cases u) auto
qed simp

lemma matches_digits:
  "item_matches (Digits # is) u \<longleftrightarrow> (\<exists>n w. u = n @ w \<and> n \<noteq> '''' \<and> list_all is_digit n \<and> item_matches is w)"
proof
  assume "item_matches (Digits # is) u"
  then obtain k where "1 \<le> k" "k \<le> length u" "list_all is_digit (take k u)" "item_matches is (drop k u)"
    unfolding item_matches.simps list_ex_iff by auto
  then show "\<exists>n w. u = n @ w \<and> n \<noteq> '''' \<and> list_all is_digit n \<and> item_matches is w"
    by (intro exI[of _ "take k u"] exI[of _ "drop k u"]) auto
next
  assume "\<exists>n w. u = n @ w \<and> n \<noteq> '''' \<and> list_all is_digit n \<and> item_matches is w"
  then obtain n w where "u = n @ w" "n \<noteq> ''''" "list_all is_digit n" "item_matches is w" by blast
  then show "item_matches (Digits # is) u"
    unfolding item_matches.simps list_ex_iff by (intro bexI[of _ "length n"]) (auto simp: Suc_le_eq)
qed

lemma matches_dotted:
  "item_matches (DotDigits # is) u \<longleftrightarrow>
     (\<exists>n w. u = n @ w \<and> n \<noteq> '''' \<and> fst (dot_numbers n) \<ge> 1 \<and> snd (dot_numbers n) = '''' \<and> item_matches is w)"
proof
  assume "item_matches (DotDigits # is) u"
  then obtain k where "1 \<le> k" "k \<le> length u" "fst (dot_numbers (take k u)) \<ge> 1" "snd (dot_numbers (take k u)) = ''''"
    "item_matches is (drop k u)"
    unfolding item_matches.simps list_ex_iff by auto
  then show "\<exists>n w. u = n @ w \<and> n \<noteq> '''' \<and> fst (dot_numbers n) \<ge> 1 \<and> snd (dot_numbers n) = '''' \<and> item_matches is w"
    by (intro exI[of _ "take k u"] exI[of _ "drop k u"]) auto
next
  assume "\<exists>n w. u = n @ w \<and> n \<noteq> '''' \<and> fst (dot_numbers n) \<ge> 1 \<and> snd (dot_numbers n) = '''' \<and> item_matches is w"
  then obtain n w where "u = n @ w" "n \<noteq> ''''" "fst (dot_numbers n) \<ge> 1" "snd (dot_numbers n) = ''''" "item_matches is w" by blast
  then show "item_matches (DotDigits # is) u"
    unfolding item_matches.simps list_ex_iff by (intro bexI[of _ "length n"]) (auto simp: Suc_le_eq)
qed

section \<open>The include label of a stream\<close>

lemma number_at_append:
  "n \<noteq> '''' \<Longrightarrow> list_all is_digit n \<Longrightarrow> (r = '''' \<or> \<not> is_digit (hd r)) \<Longrightarrow> number_at (n @ r) = Some (n, r)"
  by (cases r) (auto simp: number_at_def list_all_iff takeWhile_eq_Nil_iff)

lemma number_at_Some:
  "number_at s = Some (n, r) \<Longrightarrow> s = n @ r \<and> n \<noteq> '''' \<and> list_all is_digit n \<and> (r = '''' \<or> \<not> is_digit (hd r))"
  by (auto simp: number_at_def list_all_iff dest: set_takeWhileD hd_dropWhile split: if_splits)

lemma dot_number_Some:
  "dot_number_at s = Some (n, r) \<Longrightarrow>
     \<exists>m. n = CHR ''.'' # m \<and> s = n @ r \<and> m \<noteq> '''' \<and> list_all is_digit m \<and> (r = '''' \<or> \<not> is_digit (hd r))"
  by (auto simp: dot_number_at_def split: list.splits if_splits dest!: number_at_Some)

lemma dot_number_append:
  "m \<noteq> '''' \<Longrightarrow> list_all is_digit m \<Longrightarrow> (r = '''' \<or> \<not> is_digit (hd r)) \<Longrightarrow>
     dot_number_at (CHR ''.'' # m @ r) = Some (CHR ''.'' # m, r)"
  by (simp add: dot_number_at_def number_at_append)

text \<open>The shape of a tag with a stream.\<close>

lemma parse_tag_stream_iff:
  "parse_tag_stream u = Some p \<longleftrightarrow>
     (\<exists>a b c. u = v_prefix u @ a @ CHR ''.'' # b @ CHR ''.'' # c @ tp_suffix p \<and>
        tp_version p = v_prefix u @ a @ CHR ''.'' # b @ CHR ''.'' # c \<and>
        a \<noteq> '''' \<and> b \<noteq> '''' \<and> c \<noteq> '''' \<and> list_all is_digit a \<and> list_all is_digit b \<and> list_all is_digit c \<and>
        strict_suffix (tp_suffix p))" (is "?l \<longleftrightarrow> ?r")
proof
  have u: "u = v_prefix u @ removeprefix u ''v''" by (auto simp: v_prefix_def removeprefix_def startswith_iff)
  assume ?l
  then obtain a r1 b r2 c where n: "number_at (removeprefix u ''v'') = Some (a, r1)" "dot_number_at r1 = Some (b, r2)"
      "dot_number_at r2 = Some (c, tp_suffix p)" "strict_suffix (tp_suffix p)" "tp_version p = v_prefix u @ a @ b @ c"
    by (auto simp: parse_tag_stream_def split: option.splits if_splits)
  from number_at_Some[OF n(1)] dot_number_Some[OF n(2)] dot_number_Some[OF n(3)] n(4,5) u show ?r
    by (metis append.assoc append_Cons)
next
  assume ?r
  then obtain a b c where r: "u = v_prefix u @ a @ CHR ''.'' # b @ CHR ''.'' # c @ tp_suffix p"
    "tp_version p = v_prefix u @ a @ CHR ''.'' # b @ CHR ''.'' # c"
    "a \<noteq> ''''" "b \<noteq> ''''" "c \<noteq> ''''" "list_all is_digit a" "list_all is_digit b" "list_all is_digit c"
    "strict_suffix (tp_suffix p)" by blast
  have "removeprefix u ''v'' = a @ CHR ''.'' # b @ CHR ''.'' # c @ tp_suffix p"
  proof (cases "startswith u ''v''")
    case True
    then show ?thesis using r(1) by (metis removeprefix_append v_prefix_def)
  next
    case False
    then show ?thesis using r(1) by (simp add: removeprefix_def v_prefix_def)
  qed
  moreover have "\<not> is_digit (CHR ''.'')" "\<not> is_digit (CHR ''-'')" "\<not> is_digit (CHR ''_'')" by code_simp+
  moreover from this r(9) have "tp_suffix p = '''' \<or> \<not> is_digit (hd (tp_suffix p))"
    by (auto simp: strict_suffix_def)
  ultimately show ?l using r(2-)
    by (cases p) (simp add: parse_tag_stream_def number_at_append dot_number_append)
qed

lemma v_prefix_cases: "v_prefix s = '''' \<or> v_prefix s = ''v''"
  by (simp add: v_prefix_def)

lemma v_prefix_version: "tp_version p = v_prefix u @ a @ r \<Longrightarrow> a \<noteq> '''' \<Longrightarrow> list_all is_digit a \<Longrightarrow> v_prefix (tp_version p) = v_prefix u"
proof -
  have "\<not> is_digit CHR ''v''" by code_simp
  then show "tp_version p = v_prefix u @ a @ r \<Longrightarrow> a \<noteq> '''' \<Longrightarrow> list_all is_digit a \<Longrightarrow> v_prefix (tp_version p) = v_prefix u"
    using v_prefix_cases[of u] by (cases a) (auto simp: v_prefix_def)
qed

lemma v_prefix_plain: "list_all (\<lambda>c. \<not> js_special c) (v_prefix s)"
  by (simp add: v_prefix_def js_special_def)

lemma v_prefix_digits:
  "a \<noteq> '''' \<Longrightarrow> list_all is_digit a \<Longrightarrow> v_prefix (v_prefix t @ a @ r) = v_prefix t"
  using v_prefix_version[of "\<lparr>tp_version = v_prefix t @ a @ r, tp_suffix = ''''\<rparr>" t a r] by simp

lemma matches_Lit: "item_matches (Lit c # is) u \<longleftrightarrow> (\<exists>w. u = c # w \<and> item_matches is w)"
  by (cases u) auto

lemma stream_pattern_items:
  "read_pattern (''^'' @ v @ digits_pattern @ escaped_dot @ digits_pattern @ escaped_dot @ digits_pattern @ js_regex_escape s @ ''$'') =
     (if list_all (\<lambda>c. \<not> js_special c) v
      then Some (map Lit v @ Digits # Lit CHR ''.'' # Digits # Lit CHR ''.'' # Digits # map Lit s)
      else read_pattern (''^'' @ v @ digits_pattern @ escaped_dot @ digits_pattern @ escaped_dot @ digits_pattern @ js_regex_escape s @ ''$''))"
proof -
  let ?body = "v @ digits_pattern @ escaped_dot @ digits_pattern @ escaped_dot @ digits_pattern @ js_regex_escape s @ ''''"
  have "read_pattern (''^'' @ ?body @ ''$'') = read_items ?body" by (rule read_pattern_frame)
  moreover have "read_items (js_regex_escape s @ '''') = Some (map Lit s)" unfolding read_escape by simp
  ultimately show ?thesis by (simp add: read_plain read_digits read_dot)
qed

text \<open>C34: The include label built from a tag admits exactly the tags of its stream: those with a strict version,
  the same suffix and the same use of a leading v. So a service kept in a stream is offered every newer
  version of the stream and nothing of another one.\<close>

theorem stream_label_language:
  assumes "tag_stream_include_regex t = Inr r" and "parse_tag_stream t = Some p"
  shows "pattern_matches r u \<longleftrightarrow>
    (case parse_tag_stream u of None \<Rightarrow> False | Some q \<Rightarrow> tp_suffix q = tp_suffix p \<and> v_prefix u = v_prefix t)"
proof -
  from parse_tag_stream_iff[THEN iffD1, OF assms(2)]
  have vp: "v_prefix (tp_version p) = v_prefix t" and sp: "strict_suffix (tp_suffix p)"
    by (auto intro: v_prefix_version)
  let ?items = "map Lit (v_prefix t) @ Digits # Lit CHR ''.'' # Digits # Lit CHR ''.'' # Digits # map Lit (tp_suffix p) @ []"
  have "read_pattern r = Some ?items"
    using assms vp v_prefix_plain[of t] stream_pattern_items[of "v_prefix t" "tp_suffix p"]
    by (simp add: tag_stream_include_regex_def)
  then have "pattern_matches r u \<longleftrightarrow> item_matches ?items u" by (simp add: pattern_matches_def)
  also have "\<dots> \<longleftrightarrow> (\<exists>a b c. u = v_prefix t @ a @ CHR ''.'' # b @ CHR ''.'' # c @ tp_suffix p \<and>
      a \<noteq> '''' \<and> b \<noteq> '''' \<and> c \<noteq> '''' \<and> list_all is_digit a \<and> list_all is_digit b \<and> list_all is_digit c)" (is "_ \<longleftrightarrow> ?shape")
    unfolding matches_lits matches_digits matches_Lit item_matches.simps(1)
    by (rule iffI, force, elim exE conjE, intro exI conjI, (assumption | rule refl | simp)+)
  also have "?shape \<longleftrightarrow>
    (case parse_tag_stream u of None \<Rightarrow> False | Some q \<Rightarrow> tp_suffix q = tp_suffix p \<and> v_prefix u = v_prefix t)"
  proof
    assume ?shape
    then obtain a b c where s: "u = v_prefix t @ a @ CHR ''.'' # b @ CHR ''.'' # c @ tp_suffix p"
      "a \<noteq> ''''" "b \<noteq> ''''" "c \<noteq> ''''" "list_all is_digit a" "list_all is_digit b" "list_all is_digit c" by blast
    from s have v: "v_prefix u = v_prefix t" by (simp add: v_prefix_digits)
    let ?q = "\<lparr>tp_version = v_prefix t @ a @ CHR ''.'' # b @ CHR ''.'' # c, tp_suffix = tp_suffix p\<rparr>"
    have "parse_tag_stream u = Some ?q"
      unfolding parse_tag_stream_iff
      by (rule exI[of _ a], rule exI[of _ b], rule exI[of _ c]) (use s v sp in auto)
    with v show "case parse_tag_stream u of None \<Rightarrow> False | Some q \<Rightarrow> tp_suffix q = tp_suffix p \<and> v_prefix u = v_prefix t" by simp
  next
    assume "case parse_tag_stream u of None \<Rightarrow> False | Some q \<Rightarrow> tp_suffix q = tp_suffix p \<and> v_prefix u = v_prefix t"
    then obtain q where q: "parse_tag_stream u = Some q" "tp_suffix q = tp_suffix p" "v_prefix u = v_prefix t"
      by (auto split: option.splits)
    from parse_tag_stream_iff[THEN iffD1, OF q(1)] q(2,3) show ?shape by (metis append.assoc)
  qed
  finally show ?thesis .
qed

theorem stream_label_language_witness:
  "pattern_matches (''^v'' @ digits_pattern @ escaped_dot @ digits_pattern @ escaped_dot @ digits_pattern @ ''-alpine$'') ''v20.4.0-alpine'' \<and>
   \<not> pattern_matches (''^v'' @ digits_pattern @ escaped_dot @ digits_pattern @ escaped_dot @ digits_pattern @ ''-alpine$'') ''v20.4.0-slim''"
proof -
  let ?r = "''^v'' @ digits_pattern @ escaped_dot @ digits_pattern @ escaped_dot @ digits_pattern @ ''-alpine$''"
  have r: "tag_stream_include_regex ''v1.2.3-alpine'' = Inr ?r" by code_simp
  have p: "parse_tag_stream ''v1.2.3-alpine'' = Some \<lparr>tp_version = ''v1.2.3'', tp_suffix = ''-alpine''\<rparr>" by code_simp
  have u: "parse_tag_stream ''v20.4.0-alpine'' = Some \<lparr>tp_version = ''v20.4.0'', tp_suffix = ''-alpine''\<rparr>"
    "parse_tag_stream ''v20.4.0-slim'' = Some \<lparr>tp_version = ''v20.4.0'', tp_suffix = ''-slim''\<rparr>" by code_simp+
  show ?thesis
    using stream_label_language[OF r p, of "''v20.4.0-alpine''"] stream_label_language[OF r p, of "''v20.4.0-slim''"]
    unfolding u by (simp add: v_prefix_def startswith_def)
qed

section \<open>The include label of a retag\<close>

lemma number_fragments_items:
  "\<exists>items. (\<forall>x. read_items (number_fragments s @ x) = map_option ((@) items) (read_items x)) \<and>
     (\<forall>js w. item_matches js w \<longrightarrow> item_matches (items @ js) (s @ w))"
proof (induction s rule: number_fragments.induct)
  case (1 s)
  define lit where "lit = takeWhile (\<lambda>c. \<not> is_digit c) s"
  define r where "r = dropWhile (\<lambda>c. \<not> is_digit c) s"
  have s: "s = lit @ r" by (simp add: lit_def r_def)
  show ?case
  proof (cases "r = ''''")
    case True
    then have "s = lit" using s by simp
    moreover have "number_fragments s = js_regex_escape lit"
      using True by (subst number_fragments.simps) (simp add: lit_def r_def Let_def)
    ultimately have "number_fragments s = js_regex_escape lit" "s = lit" by simp_all
    then show ?thesis
      by (intro exI[of _ "map Lit lit"]) (auto simp: read_escape matches_lits)
  next
    case False
    define n where "n = takeWhile is_digit r"
    define t where "t = dropWhile is_digit r"
    have f: "number_fragments s = js_regex_escape lit @ digits_pattern @ number_fragments t"
      unfolding number_fragments.simps[of s] Let_def lit_def[symmetric] r_def[symmetric] t_def[symmetric]
      using False by simp
    obtain items where i: "\<And>x. read_items (number_fragments t @ x) = map_option ((@) items) (read_items x)"
      "\<And>js w. item_matches js w \<Longrightarrow> item_matches (items @ js) (t @ w)"
      using "1.IH"[OF lit_def r_def False, folded t_def] by blast
    have "is_digit (hd r)" using False hd_dropWhile unfolding r_def by blast
    then have n: "n \<noteq> ''''" "list_all is_digit n" "r = n @ t"
      using False by (auto simp: n_def t_def list_all_iff takeWhile_eq_Nil_iff dest: set_takeWhileD)
    have "read_items (number_fragments s @ x) = map_option ((@) (map Lit lit @ Digits # items)) (read_items x)" for x
      using f i(1)[of x] by (cases "read_items x") (simp_all add: read_escape read_digits)
    moreover have "item_matches ((map Lit lit @ Digits # items) @ js) (s @ w)" if "item_matches js w" for js w
      using i(2)[OF that] n s by (simp add: matches_lits) (auto simp: matches_digits)
    ultimately show ?thesis by blast
  qed
qed

lemma dot_numbers_split:
  "dot_numbers s = (k, t) \<Longrightarrow> \<exists>n. s = n @ t \<and> dot_numbers n = (k, '''') \<and> (k \<ge> 1 \<longrightarrow> n \<noteq> '''')"
proof (induction s arbitrary: k t rule: dot_numbers.induct)
  case (1 s)
  show ?case
  proof (cases "dot_number_at s")
    case None
    then have "k = 0" "t = s" using "1.prems" by (subst (asm) dot_numbers.simps; simp)+
    moreover have "dot_numbers '''' = (0, '''')" by (subst dot_numbers.simps) (simp add: dot_number_at_def)
    ultimately show ?thesis by auto
  next
    case (Some x)
    obtain m r where x: "x = (m, r)" by (cases x)
    obtain k' t' where d: "dot_numbers r = (k', t')" by (cases "dot_numbers r")
    have k: "k = Suc k'" "t = t'" using "1.prems" Some x d by (subst (asm) dot_numbers.simps; simp)+
    from "1.IH"[OF Some x[symmetric] d] obtain n where n: "r = n @ t'" "dot_numbers n = (k', '''')" by auto
    from dot_number_Some[of s m r] Some x obtain l where l: "m = CHR ''.'' # l" "s = m @ r" "l \<noteq> ''''" "list_all is_digit l"
      "r = '''' \<or> \<not> is_digit (hd r)" by auto
    have "n = '''' \<or> \<not> is_digit (hd n)" using l(5) n(1) by (cases n) auto
    then have "dot_number_at (m @ n) = Some (m, n)" using l by (simp add: dot_number_append)
    then have "dot_numbers (m @ n) = (Suc k', '''')" using n(2) by (subst dot_numbers.simps) simp
    with l n k show ?thesis by (intro exI[of _ "m @ n"]) auto
  qed
qed

lemma v_split: "tag = v_prefix tag @ removeprefix tag ''v''"
  by (auto simp: v_prefix_def removeprefix_def startswith_iff)

lemma alpine_plain: "list_all (\<lambda>c. \<not> js_special c) ''-alpine''"
  by code_simp

lemma digits_plain: "list_all is_digit n \<Longrightarrow> list_all (\<lambda>c. \<not> js_special c) n"
  by (auto simp: list_all_iff digit_not_special)

lemma framed_match: "read_items s = Some is \<Longrightarrow> item_matches is u \<Longrightarrow> pattern_matches (''^'' @ s @ ''$'') u"
  unfolding pattern_matches_def read_pattern_frame by simp

lemma framed_fragments: "pattern_matches (''^'' @ number_fragments s @ ''$'') s"
proof -
  obtain items where i: "\<And>x. read_items (number_fragments s @ x) = map_option ((@) items) (read_items x)"
    "\<And>js w. item_matches js w \<Longrightarrow> item_matches (items @ js) (s @ w)"
    using number_fragments_items[of s] by blast
  from i(1)[of "''''"] i(2)[of "[]" "''''"] show ?thesis by (intro framed_match) auto
qed

lemma matches_dottedI:
  "n \<noteq> '''' \<Longrightarrow> dot_numbers n = (k, '''') \<Longrightarrow> k \<ge> 1 \<Longrightarrow> item_matches is w \<Longrightarrow> item_matches (DotDigits # is) (n @ w)"
  unfolding matches_dotted by (intro exI[of _ n] exI[of _ w]) simp

lemma matches_digitsI: "n \<noteq> '''' \<Longrightarrow> list_all is_digit n \<Longrightarrow> item_matches is w \<Longrightarrow> item_matches (Digits # is) (n @ w)"
  unfolding matches_digits by (intro exI[of _ n] exI[of _ w]) simp

text \<open>C35: Whatever tag a retag chooses, the include label it writes admits that tag: the service's own image is never
  outside the tags its label watches.\<close>

theorem retag_label_admits_tag:
  assumes "retag_tag_include_regex tag = Inr r"
  shows "pattern_matches r tag"
proof (cases "number_at (removeprefix tag ''v'')")
  case None
  then show ?thesis using assms framed_fragments[of tag] by (auto simp: retag_tag_include_regex_def split: if_splits)
next
  case (Some x)
  obtain major s where x: "x = (major, s)" by (cases x)
  obtain k t where d: "dot_numbers s = (k, t)" by (cases "dot_numbers s")
  obtain n where n: "s = n @ t" "dot_numbers n = (k, '''')" "k \<ge> 1 \<longrightarrow> n \<noteq> ''''" using dot_numbers_split[OF d] by blast
  have m: "major \<noteq> ''''" "list_all is_digit major" and tag: "tag = v_prefix tag @ major @ n @ t"
    using number_at_Some[of _ major s] Some x n(1) v_split[of tag] by auto
  from assms Some x d consider
      "k \<ge> 1" "t = ''-alpine''" "r = ''^'' @ (v_prefix tag @ major @ dotted_group @ ''-alpine'') @ ''$''"
    | "k \<ge> 1" "t = ''''" "r = ''^'' @ (v_prefix tag @ digits_pattern @ dotted_group) @ ''$''"
    | "k \<ge> 1" "r = ''^'' @ (v_prefix tag @ digits_pattern @ dotted_group @ number_fragments t) @ ''$''"
    | "r = ''^'' @ number_fragments tag @ ''$''"
    by (auto simp: retag_tag_include_regex_def Let_def split: if_splits)
  then show ?thesis
  proof cases
    case 1
    have "read_items (v_prefix tag @ major @ dotted_group @ ''-alpine'' @ '''') =
        Some (map Lit (v_prefix tag) @ map Lit major @ DotDigits # map Lit ''-alpine'')"
      using read_plain[OF alpine_plain, of "''''"]
      by (simp only: read_plain[OF v_prefix_plain] read_plain[OF digits_plain[OF m(2)]] read_dotted) simp
    moreover have "item_matches (map Lit (v_prefix tag) @ map Lit major @ DotDigits # map Lit ''-alpine'')
        (v_prefix tag @ major @ n @ ''-alpine'')"
      unfolding matches_lits using 1 n matches_lits[of "''-alpine''" "[]" "''-alpine''"] by (auto intro!: matches_dottedI)
    ultimately show ?thesis using 1 tag framed_match by (metis append_Nil2)
  next
    case 2
    have "read_items (v_prefix tag @ digits_pattern @ dotted_group @ '''') = Some (map Lit (v_prefix tag) @ [Digits, DotDigits])"
      by (simp only: read_plain[OF v_prefix_plain] read_digits read_dotted) simp
    moreover have "item_matches (map Lit (v_prefix tag) @ [Digits, DotDigits]) (v_prefix tag @ major @ n @ '''')"
      unfolding matches_lits using 2 n m by (auto intro!: matches_digitsI matches_dottedI[of n k "[]" "''''", simplified])
    ultimately show ?thesis using 2 tag framed_match by (metis append_Nil2)
  next
    case 3
    obtain items where i: "\<And>x. read_items (number_fragments t @ x) = map_option ((@) items) (read_items x)"
      "\<And>js w. item_matches js w \<Longrightarrow> item_matches (items @ js) (t @ w)"
      using number_fragments_items[of t] by blast
    have "read_items (v_prefix tag @ digits_pattern @ dotted_group @ number_fragments t @ '''') =
        Some (map Lit (v_prefix tag) @ Digits # DotDigits # items)"
      by (simp only: read_plain[OF v_prefix_plain] read_digits read_dotted i(1)) simp
    moreover have "item_matches items t" using i(2)[of "[]" "''''"] by simp
    then have "item_matches (map Lit (v_prefix tag) @ Digits # DotDigits # items) (v_prefix tag @ major @ n @ t)"
      unfolding matches_lits using 3 n m by (auto intro!: matches_digitsI matches_dottedI)
    ultimately show ?thesis using 3 tag framed_match by (metis append_Nil2)
  next
    case 4
    then show ?thesis using framed_fragments by simp
  qed
qed

theorem retag_label_admits_tag_witness:
  "\<exists>r. retag_tag_include_regex ''10.11.11ubu2604-ls43'' = Inr r \<and> pattern_matches r ''10.11.11ubu2604-ls43''"
proof -
  have "case retag_tag_include_regex ''10.11.11ubu2604-ls43'' of Inr r \<Rightarrow> True | Inl e \<Rightarrow> False" by code_simp
  then obtain r where "retag_tag_include_regex ''10.11.11ubu2604-ls43'' = Inr r" by (auto split: sum.splits)
  with retag_label_admits_tag[OF this] show ?thesis by blast
qed

end
