(* ===== verification/Stream_Plans.thy ===== *)
theory Stream_Plans
  imports Tag_Streams
begin

text \<open>
  What a plan does with reported tags of another update stream: \<open>plan_tag_stream_changes\<close> of
  \<open>src/src/wudup/tag_streams.py\<close> and the issue record of \<open>plan_models.py\<close>. Whether the registry has a
  manifest, what the Compose file says of a service, and \<open>Path.resolve\<close> are parameters; the cache asks the
  registry once for an image, so the registry is a function. \<open>PlanInputError\<close> is Inl of its message.
\<close>

section \<open>Data\<close>

record plan_issue =
  pi_severity :: string
  pi_code :: string
  pi_message :: string
  pi_line_no :: "nat option"
  pi_stack :: string
  pi_service :: string
  pi_hint :: string
  pi_details :: "(string \<times> string) list"

definition issue_at :: "string \<Rightarrow> string \<Rightarrow> string \<Rightarrow> nat \<Rightarrow> (string \<times> string) list \<Rightarrow> plan_issue" where
  "issue_at severity code message line_no details =
     \<lparr>pi_severity = severity, pi_code = code, pi_message = message, pi_line_no = Some line_no, pi_stack = '''',
       pi_service = '''', pi_hint = '''', pi_details = details\<rparr>"

definition service_issue :: "string \<Rightarrow> string \<Rightarrow> nat \<Rightarrow> match_t \<Rightarrow> (string \<times> string) list \<Rightarrow> plan_issue" where
  "service_issue code message line_no m details =
     (issue_at ''error'' code message line_no details)\<lparr>pi_stack := cs_name (m_stack m), pi_service := m_service m\<rparr>"

record stream_decision =
  sd_line_no :: nat
  sd_decision :: string

record stream_world =
  sw_manifest :: "string \<Rightarrow> bool"
  sw_compose :: "match_t \<Rightarrow> (string \<times> label_text) planned"
  sw_resolve :: "string \<Rightarrow> string"

record stream_change =
  vc_current :: stream_parts
  vc_reported :: stream_parts
  vc_reported_tag :: string
  vc_alternate_tag :: string
  vc_matches :: "match_t list"

record stream_line_plan =
  sl_verified :: bool
  sl_selected_tag :: string
  sl_issues :: "plan_issue list"
  sl_updates :: "(nat \<times> tag_stream_update) list"
  sl_used :: "stream_approval list"
  sl_matches :: "match_t list"

definition no_line_plan :: "plan_issue list \<Rightarrow> stream_line_plan" where
  "no_line_plan issues = \<lparr>sl_verified = False, sl_selected_tag = '''', sl_issues = issues, sl_updates = [],
     sl_used = [], sl_matches = []\<rparr>"

section \<open>One line\<close>

text \<open>A service whose current tag is in another stream, with its parts and the reported version in its own stream.\<close>

definition line_candidates :: "match_t list \<Rightarrow> string \<Rightarrow> (match_t \<times> stream_parts \<times> string) list" where
  "line_candidates matches reported_tag =
     concat (map (\<lambda>m. let current_tag = image_tag (m_compose_image m)
        in case pending_tag_stream_hint (image_repo_ref (m_compose_image m)) current_tag reported_tag of
             None \<Rightarrow> []
           | Some h \<Rightarrow> (case (parse_tag_stream current_tag, parse_tag_stream reported_tag) of
                 (Some current, Some reported) \<Rightarrow> [(m, current, tp_version reported @ tp_suffix current)]
               | _ \<Rightarrow> [])) matches)"

definition verified_tag_stream_change ::
  "stream_world \<Rightarrow> nat \<Rightarrow> match_t list \<Rightarrow> string \<Rightarrow> stream_change option \<times> plan_issue list" where
  "verified_tag_stream_change w line_no line_matches reported_tag =
     (case line_candidates line_matches reported_tag of
        [] \<Rightarrow> (None, [])
      | (m, current, alternate_tag) # candidates \<Rightarrow>
          if list_ex (\<lambda>(m', c', a'). a' \<noteq> alternate_tag) candidates
          then (None, [issue_at ''error'' ''tag-stream-change-ambiguous''
            ''Selected services use different current update streams; review their Compose images separately.'' line_no []])
          else case parse_tag_stream reported_tag of
            None \<Rightarrow> (None, [])
          | Some reported \<Rightarrow>
              let chosen = map fst ((m, current, alternate_tag) # candidates)
              in if list_all (\<lambda>m. sw_manifest w (image_with_tag (m_compose_image m) alternate_tag)) chosen
                 then (Some \<lparr>vc_current = current, vc_reported = reported, vc_reported_tag = reported_tag,
                         vc_alternate_tag = alternate_tag, vc_matches = chosen\<rparr>, [])
                 else (None, [issue_at ''warning'' ''possible-tag-stream-change''
                   (''Possible update stream change: '' @ stream_name current @ '' to '' @ stream_name reported
                     @ ''. A same-stream target could not be verified.'') line_no
                   [(''current_stream'', stream_name current), (''reported_stream'', stream_name reported)]]))"

definition stream_approval_of :: "tag_stream_update \<Rightarrow> stream_approval" where
  "stream_approval_of u = \<lparr>sa_line_no = su_line_no u, sa_stack = su_stack u, sa_stack_directory = su_stack_directory u,
     sa_compose_file = su_compose_file u, sa_service = su_service u, sa_label_key = su_label_key u,
     sa_current_label_value = su_current_label_value u, sa_selected_tag = su_selected_tag u,
     sa_proposed_label_value = su_proposed_label_value u\<rparr>"

definition approval_targets_match ::
  "stream_world \<Rightarrow> nat \<Rightarrow> match_t \<Rightarrow> string \<Rightarrow> string \<Rightarrow> stream_approval \<Rightarrow> bool" where
  "approval_targets_match w line_no m selected_tag proposed a =
     (sa_line_no a = line_no \<and> sa_stack a = cs_name (m_stack m) \<and>
      sa_stack_directory a = sw_resolve w (cs_directory (m_stack m)) \<and> sa_compose_file a = cs_file (m_stack m) \<and>
      sa_service a = m_service m \<and> sa_label_key a = WUD_TAG_INCLUDE_LABEL \<and> sa_selected_tag a = selected_tag \<and>
      sa_proposed_label_value a = proposed)"

definition stream_update_of_match ::
  "stream_world \<Rightarrow> nat \<Rightarrow> stream_change \<Rightarrow> string \<Rightarrow> string \<Rightarrow> string \<Rightarrow> stream_approval list \<Rightarrow> match_t \<Rightarrow>
     tag_stream_update planned" where
  "stream_update_of_match w line_no change decision selected_tag selected_regex approvals m =
     (case sw_compose w m of
        Inl e \<Rightarrow> Inl e
      | Inr (yaml_image, raw_label) \<Rightarrow>
          plan_compose_tag_stream_update yaml_image raw_label line_no (cs_name (m_stack m))
            (sw_resolve w (cs_directory (m_stack m))) (cs_file (m_stack m)) (m_service m) (m_compose_image m)
            (image_tag (m_compose_image m)) (vc_reported_tag change) selected_tag decision selected_regex approvals)"

text \<open>One service of a decided line: its issues, updates and the approvals it uses up.\<close>

definition decided_match ::
  "stream_world \<Rightarrow> nat \<Rightarrow> stream_change \<Rightarrow> string \<Rightarrow> string \<Rightarrow> string \<Rightarrow> stream_approval list \<Rightarrow> match_t \<Rightarrow>
     plan_issue list \<times> (nat \<times> tag_stream_update) list \<times> stream_approval list" where
  "decided_match w line_no change decision selected_tag selected_regex approvals m =
     (case stream_update_of_match w line_no change decision selected_tag selected_regex approvals m of
        Inl e \<Rightarrow>
          ([service_issue ''compose-tag-stream-rewrite-unsafe''
              (''Tag stream configuration cannot be rewritten safely: '' @ e) line_no m []], [],
           filter (approval_targets_match w line_no m selected_tag (compose_escape_dollars selected_regex)) approvals)
      | Inr u \<Rightarrow>
          (if su_reason u = ''approval-required''
           then [service_issue ''compose-tag-stream-label-rewrite-unapproved''
             (''Service '' @ m_service m @ '' has a custom wud.tag.include expression. Approve its exact replacement before apply.'')
             line_no m [(''stack_directory'', su_stack_directory u), (''compose_file'', su_compose_file u),
               (''label_key'', su_label_key u), (''current_label_value'', su_current_label_value u),
               (''selected_tag'', su_selected_tag u), (''proposed_label_value'', su_proposed_label_value u),
               (''proposed_label_regex'', su_proposed_label_regex u)]]
           else [],
           [(cs_index (m_stack m), u)],
           if su_reason u = ''approved'' then filter (\<lambda>a. a = stream_approval_of u) approvals else []))"

definition plan_decided_tag_stream_change ::
  "stream_world \<Rightarrow> nat \<Rightarrow> stream_change \<Rightarrow> string \<Rightarrow> stream_approval list \<Rightarrow> stream_line_plan planned" where
  "plan_decided_tag_stream_change w line_no change decision approvals =
     (let selected_tag = (if decision = ''preserve'' then vc_alternate_tag change else vc_reported_tag change)
      in case (tag_stream_include_regex (vc_alternate_tag change), tag_stream_include_regex (vc_reported_tag change)) of
           (Inl e, r) \<Rightarrow> Inl e
         | (Inr preserve_regex, Inl e) \<Rightarrow> Inl e
         | (Inr preserve_regex, Inr switch_regex) \<Rightarrow>
             let selected_regex = (if decision = ''preserve'' then preserve_regex else switch_regex);
                 parts = map (decided_match w line_no change decision selected_tag selected_regex approvals) (vc_matches change)
             in Inr \<lparr>sl_verified = True, sl_selected_tag = selected_tag, sl_issues = concat (map fst parts),
                  sl_updates = concat (map (\<lambda>p. fst (snd p)) parts), sl_used = concat (map (\<lambda>p. snd (snd p)) parts),
                  sl_matches = vc_matches change\<rparr>)"

definition undecided_issue :: "nat \<Rightarrow> stream_change \<Rightarrow> string \<Rightarrow> string \<Rightarrow> plan_issue" where
  "undecided_issue line_no change preserve_regex switch_regex =
     issue_at ''error'' ''tag-stream-change''
       (''WUD proposed changing the update stream from '' @ stream_name (vc_current change) @ '' to ''
         @ stream_name (vc_reported change) @ ''. Choose whether to preserve or switch streams.'') line_no
       [(''current_tag'', image_tag (m_compose_image (hd (vc_matches change)))), (''reported_tag'', vc_reported_tag change),
        (''current_stream'', stream_name (vc_current change)), (''reported_stream'', stream_name (vc_reported change)),
        (''same_stream_tag'', vc_alternate_tag change), (''preserve_label_regex'', preserve_regex),
        (''switch_label_regex'', switch_regex)]"

definition plan_tag_stream_line ::
  "stream_world \<Rightarrow> nat \<Rightarrow> match_t list \<Rightarrow> (nat \<times> string) list \<Rightarrow> nat list \<Rightarrow> stream_approval list \<Rightarrow> stream_line_plan planned" where
  "plan_tag_stream_line w line_no line_matches decision_by_line override_lines approvals =
     (let reported_tag = wt_desired_tag (m_target (hd line_matches))
      in if reported_tag = '''' then Inr (no_line_plan [])
         else case verified_tag_stream_change w line_no line_matches reported_tag of
           (None, issues) \<Rightarrow> Inr (no_line_plan issues)
         | (Some change, issues) \<Rightarrow>
             if line_no \<in> set override_lines
             then Inl (''tag_overrides line '' @ show_nat line_no
               @ '' has a verified stream change; submit an explicit tag_stream_decision'')
             else case map_of decision_by_line line_no of
               Some decision \<Rightarrow> plan_decided_tag_stream_change w line_no change decision approvals
             | None \<Rightarrow>
                 (case (tag_stream_include_regex (vc_alternate_tag change), tag_stream_include_regex (vc_reported_tag change)) of
                    (Inl e, r) \<Rightarrow> Inl e
                  | (Inr preserve_regex, Inl e) \<Rightarrow> Inl e
                  | (Inr preserve_regex, Inr switch_regex) \<Rightarrow>
                      Inr ((no_line_plan [undecided_issue line_no change preserve_regex switch_regex])\<lparr>sl_verified := True\<rparr>)))"

section \<open>The whole selection\<close>

fun decision_map :: "(nat \<times> string) list \<Rightarrow> stream_decision list \<Rightarrow> (nat \<times> string) list planned" where
  "decision_map d [] = Inr d"
| "decision_map d (item # items) =
     (if sd_line_no item \<in> fst ` set d
      then Inl (''tag_stream_decisions line '' @ show_nat (sd_line_no item) @ '' was provided more than once'')
      else if sd_decision item \<noteq> ''preserve'' \<and> sd_decision item \<noteq> ''switch''
      then Inl (''tag_stream_decisions line '' @ show_nat (sd_line_no item) @ '' has invalid decision'')
      else decision_map (d @ [(sd_line_no item, sd_decision item)]) items)"

fun plan_lines ::
  "stream_world \<Rightarrow> (nat \<times> string) list \<Rightarrow> nat list \<Rightarrow> stream_approval list \<Rightarrow> match_t list \<Rightarrow> nat list \<Rightarrow>
     (nat \<times> stream_line_plan) list planned" where
  "plan_lines w decisions override_lines approvals matches [] = Inr []"
| "plan_lines w decisions override_lines approvals matches (line_no # lines) =
     (case plan_tag_stream_line w line_no (filter (\<lambda>m. wt_line_no (m_target m) = line_no) matches)
            decisions override_lines approvals of
        Inl e \<Rightarrow> Inl e
      | Inr p \<Rightarrow> (case plan_lines w decisions override_lines approvals matches lines of
            Inl e \<Rightarrow> Inl e | Inr ps \<Rightarrow> Inr ((line_no, p) # ps)))"

record stream_plan_result =
  sr_matches :: "match_t list"
  sr_issues :: "plan_issue list"
  sr_updates :: "(nat \<times> tag_stream_update) list"
  sr_selected :: "(nat \<times> string) list"

definition adjusted_match :: "(nat \<times> string) list \<Rightarrow> match_t list \<Rightarrow> match_t \<Rightarrow> match_t" where
  "adjusted_match selected_tags chosen m =
     (if m \<in> set chosen
      then m\<lparr>m_target := (m_target m)\<lparr>wt_desired_tag :=
        dict_get selected_tags (wt_line_no (m_target m)) (wt_desired_tag (m_target m))\<rparr>\<rparr>
      else m)"

text \<open>
  The updates stay one list in the order of the lines; the code groups them by stack. \<open>decisions\<close> are
  checked first, unused decisions and approvals last.
\<close>

definition plan_tag_stream_changes ::
  "stream_world \<Rightarrow> match_t list \<Rightarrow> stream_decision list \<Rightarrow> stream_approval list \<Rightarrow> nat list \<Rightarrow> stream_plan_result planned" where
  "plan_tag_stream_changes w matches decisions approvals override_lines =
     (case decision_map [] decisions of
        Inl e \<Rightarrow> Inl e
      | Inr by_line \<Rightarrow>
          (case plan_lines w by_line override_lines approvals matches
                  (sorted_set (map (\<lambda>m. wt_line_no (m_target m)) matches)) of
             Inl e \<Rightarrow> Inl e
           | Inr plans \<Rightarrow>
               let verified_lines = map fst (filter (\<lambda>(l, p). sl_verified p) plans);
                   unused = sorted_set (filter (\<lambda>l. l \<notin> set verified_lines) (map fst by_line));
                   used = concat (map (\<lambda>(l, p). sl_used p) plans);
                   selected = map (\<lambda>(l, p). (l, sl_selected_tag p)) (filter (\<lambda>(l, p). sl_selected_tag p \<noteq> '''') plans);
                   chosen = concat (map (\<lambda>(l, p). sl_matches p) plans)
               in if unused \<noteq> []
                  then Inl (''tag_stream_decisions must reference verified stream-change lines: '' @ join_with '', '' (map show_nat unused))
                  else if list_ex (\<lambda>a. a \<notin> set used) approvals
                  then Inl ''tag_stream_label_rewrite_approvals contains a stale or forged approval''
                  else Inr \<lparr>sr_matches = map (adjusted_match selected chosen) matches,
                         sr_issues = concat (map (\<lambda>(l, p). sl_issues p) plans),
                         sr_updates = concat (map (\<lambda>(l, p). sl_updates p) plans), sr_selected = selected\<rparr>))"

end
