(* ===== verification/Auto_Schedule.thy ===== *)
theory Auto_Schedule
  imports Release_Skips
begin

text \<open>
  Which scheduled automatic updates are due, and which of them a tick of \<open>src/src/wudup/web_scheduler.py\<close>
  selects. Instants are microseconds of UTC; the time zone database, \<open>time.fromisoformat\<close> and the ISO texts
  of dates and instants are parameters. Rows are read in the order of their service keys, and a dict of
  policies is an association list in that order.
\<close>

section \<open>Clock\<close>

record schedule_clock =
  zc_local_day :: "int \<Rightarrow> int"
  zc_instant :: "int \<Rightarrow> int \<Rightarrow> int"
  zc_time_of_day :: "string \<Rightarrow> int option"
  zc_date_text :: "int \<Rightarrow> string"
  zc_instant_text :: "int \<Rightarrow> string"
  zc_name :: string

definition seconds :: "int \<Rightarrow> int" where
  "seconds n = n * 1000000"

definition AUTO_UPDATE_GRACE_SECONDS :: int where
  "AUTO_UPDATE_GRACE_SECONDS = 300"

definition AUTO_UPDATE_MAX_LATE_SECONDS :: int where
  "AUTO_UPDATE_MAX_LATE_SECONDS = 3600"

definition AUTO_UPDATE_DAYS :: "string list" where
  "AUTO_UPDATE_DAYS = [''mon'', ''tue'', ''wed'', ''thu'', ''fri'', ''sat'', ''sun'']"

text \<open>\<open>weekday\<close> of a day counted from 1970-01-01, a Thursday.\<close>

definition day_name :: "int \<Rightarrow> string" where
  "day_name d = AUTO_UPDATE_DAYS ! nat ((d + 3) mod 7)"

section \<open>Policies\<close>

text \<open>A row of \<open>service_policy\<close>; the days are the strings of its JSON list, none for other JSON.\<close>

record policy_row =
  py_service_key :: string
  py_auto_update :: bool
  py_time :: "string option"
  py_days :: "string list"
  py_mode :: string

record snooze_row =
  sz_service_key :: string
  sz_until :: string

record auto_policy =
  au_service_key :: string
  au_mode :: string
  au_time :: string
  au_days :: "string list"
  au_schedule_key :: string
  au_scheduled_for :: int

definition auto_update_days_from_row :: "policy_row \<Rightarrow> string list" where
  "auto_update_days_from_row row = nub (filter (\<lambda>d. d \<in> set AUTO_UPDATE_DAYS) (py_days row))"

definition auto_update_schedule_key :: "string \<Rightarrow> string \<Rightarrow> string \<Rightarrow> string \<Rightarrow> string" where
  "auto_update_schedule_key service_key local_date update_time timezone_name =
     service_key @ ''|'' @ local_date @ ''|'' @ update_time @ ''|'' @ timezone_name"

definition auto_update_latest_occurrence ::
  "schedule_clock \<Rightarrow> int \<Rightarrow> int \<Rightarrow> string list \<Rightarrow> (int \<times> int) option" where
  "auto_update_latest_occurrence z now_utc time days =
     find (\<lambda>(local_date, scheduled_for). day_name local_date \<in> set days \<and> scheduled_for \<le> now_utc)
       (map (\<lambda>d. (d, zc_instant z d time)) [zc_local_day z now_utc, zc_local_day z now_utc - 1])"

definition auto_update_row_occurrence ::
  "schedule_clock \<Rightarrow> int \<Rightarrow> string \<Rightarrow> string list \<Rightarrow> (int \<times> int) option" where
  "auto_update_row_occurrence z now_utc update_time days =
     (case zc_time_of_day z update_time of
        None \<Rightarrow> None
      | Some time \<Rightarrow> auto_update_latest_occurrence z now_utc time days)"

definition active_snooze :: "snooze_row list \<Rightarrow> string \<Rightarrow> string \<Rightarrow> bool" where
  "active_snooze snoozes service_key now = list_ex (\<lambda>s. sz_service_key s = service_key \<and> now < sz_until s) snoozes"

definition in_window :: "int \<Rightarrow> int \<Rightarrow> int \<Rightarrow> bool" where
  "in_window now_utc started_at scheduled_for =
     (let window_end = scheduled_for + seconds AUTO_UPDATE_GRACE_SECONDS in now_utc < window_end \<and> started_at < window_end)"

text \<open>
  One row: nothing, a due policy or a missed slot. \<open>recorded\<close> are the keys that have a schedule row,
  \<open>held\<close> the keys held back, \<open>mode\<close> the update mode of the settings.
\<close>

datatype slot = NotDue | Due auto_policy | Missed auto_policy

definition row_slot ::
  "schedule_clock \<Rightarrow> string \<Rightarrow> snooze_row list \<Rightarrow> string list \<Rightarrow> string list \<Rightarrow> int \<Rightarrow> int \<Rightarrow> policy_row \<Rightarrow> slot" where
  "row_slot z mode snoozes recorded held now_utc started_at row =
     (case py_time row of
        None \<Rightarrow> NotDue
      | Some update_time \<Rightarrow>
          if \<not> py_auto_update row then NotDue
          else let days = auto_update_days_from_row row
               in case auto_update_row_occurrence z now_utc update_time days of
                    None \<Rightarrow> NotDue
                  | Some (local_date, scheduled_for) \<Rightarrow>
                      let schedule_key = auto_update_schedule_key (py_service_key row) (zc_date_text z local_date)
                            update_time (zc_name z);
                          fresh = in_window now_utc started_at scheduled_for;
                          policy = \<lparr>au_service_key = py_service_key row,
                            au_mode = (if py_mode row \<noteq> '''' then py_mode row else mode), au_time = update_time,
                            au_days = days, au_schedule_key = schedule_key, au_scheduled_for = scheduled_for\<rparr>
                      in if \<not> fresh \<and> schedule_key \<notin> set held then NotDue
                         else if active_snooze snoozes (py_service_key row) (zc_instant_text z now_utc)
                           \<or> schedule_key \<in> set recorded then NotDue
                         else if fresh \<or> now_utc < scheduled_for + seconds AUTO_UPDATE_MAX_LATE_SECONDS then Due policy
                         else Missed policy)"

definition due_of :: "slot \<Rightarrow> auto_policy list" where
  "due_of s = (case s of Due p \<Rightarrow> [p] | _ \<Rightarrow> [])"

definition missed_of :: "slot \<Rightarrow> auto_policy list" where
  "missed_of s = (case s of Missed p \<Rightarrow> [p] | _ \<Rightarrow> [])"

definition due_auto_update_policies ::
  "schedule_clock \<Rightarrow> string \<Rightarrow> policy_row list \<Rightarrow> snooze_row list \<Rightarrow> string list \<Rightarrow> string list \<Rightarrow> int \<Rightarrow> int \<Rightarrow>
     auto_policy list \<times> auto_policy list" where
  "due_auto_update_policies z mode rows snoozes recorded held now_utc started_at =
     (let slots = map (row_slot z mode snoozes recorded held now_utc started_at) rows
      in (concat (map due_of slots), concat (map missed_of slots)))"

section \<open>Candidates\<close>

record pending_item =
  gi_line_no :: nat
  gi_services :: "string list"
  gi_repo :: string
  gi_desired_tag :: string
  gi_digest :: string

record pending_group =
  gr_name :: string
  gr_items :: "pending_item list"

record dependency_snooze =
  ds_service_key :: string
  ds_wait_for :: string

type_synonym auto_candidate = "nat \<times> string list \<times> auto_policy list"

definition item_service_keys :: "string \<Rightarrow> pending_item \<Rightarrow> string list" where
  "item_service_keys group_name item = map (\<lambda>s. group_name @ ''/'' @ s) (filter (\<lambda>s. s \<noteq> '''') (gi_services item))"

definition pending_service_keys :: "pending_group list \<Rightarrow> string list" where
  "pending_service_keys groups = sorted_set (concat (map (\<lambda>g. concat (map (item_service_keys (gr_name g)) (gr_items g))) groups))"

definition policy_of :: "auto_policy list \<Rightarrow> string \<Rightarrow> auto_policy option" where
  "policy_of policies service_key = find (\<lambda>p. au_service_key p = service_key) policies"

definition auto_update_candidate_for_item ::
  "string \<Rightarrow> auto_policy list \<Rightarrow> (string \<times> release_skip list) list \<Rightarrow> pending_item \<Rightarrow> (string \<times> auto_candidate) option" where
  "auto_update_candidate_for_item group_name policies skips item =
     (let service_keys = item_service_keys group_name item;
          line_policies = map (policy_of policies) service_keys;
          concrete = map the line_policies
      in if gi_desired_tag item \<noteq> '''' \<or> service_keys = [] then None
         else if snd (skip_for_release skips service_keys
                 (release_key_of (gi_repo item) (gi_desired_tag item) (gi_digest item))) then None
         else if None \<in> set line_policies then None
         else if list_ex (\<lambda>p. au_mode p \<noteq> au_mode (hd concrete)) concrete then None
         else Some (au_mode (hd concrete), (gi_line_no item, service_keys, concrete)))"

definition auto_update_candidates ::
  "pending_group list \<Rightarrow> auto_policy list \<Rightarrow> (string \<times> release_skip list) list \<Rightarrow> (string \<times> auto_candidate) list" where
  "auto_update_candidates groups policies skips =
     concat (map (\<lambda>g. concat (map (\<lambda>item. case auto_update_candidate_for_item (gr_name g) policies skips item of
        None \<Rightarrow> [] | Some c \<Rightarrow> [c]) (gr_items g))) groups)"

text \<open>The services that wait for another one: both values of the snooze must be there.\<close>

definition dependency_waits :: "dependency_snooze list \<Rightarrow> string list" where
  "dependency_waits rows = map ds_service_key (filter (\<lambda>r. ds_service_key r \<noteq> '''' \<and> ds_wait_for r \<noteq> '''') rows)"

text \<open>The candidates of a mode that no dependency holds back.\<close>

definition eligible_candidates :: "(string \<times> auto_candidate) list \<Rightarrow> string list \<Rightarrow> string \<Rightarrow> auto_candidate list" where
  "eligible_candidates candidates waits mode =
     map snd (filter (\<lambda>(m, (line, keys, ps)). m = mode \<and> list_all (\<lambda>k. k \<notin> set waits) keys) candidates)"

definition candidate_policies :: "auto_candidate list \<Rightarrow> auto_policy list" where
  "candidate_policies cs = concat (map (\<lambda>(line, keys, ps). ps) cs)"

record auto_selection =
  an_line_numbers :: "nat list"
  an_service_keys :: "string list"
  an_schedule_keys :: "string list"
  an_scheduled_for :: int
  an_mode :: string
  an_deferred :: "string list"

definition earliest :: "auto_candidate list \<Rightarrow> int" where
  "earliest cs = Min (set (map au_scheduled_for (candidate_policies cs)))"

text \<open>\<open>min\<close> with a key: the first of the least, over the modes in order.\<close>

fun first_mode :: "(string \<Rightarrow> int) \<Rightarrow> string list \<Rightarrow> string option" where
  "first_mode f [] = None"
| "first_mode f (m # ms) = (case first_mode f ms of None \<Rightarrow> Some m | Some b \<Rightarrow> Some (if f m \<le> f b then m else b))"

definition auto_update_selection ::
  "pending_group list \<Rightarrow> auto_policy list \<Rightarrow> dependency_snooze list \<Rightarrow> (string \<times> release_skip list) list \<Rightarrow>
     auto_selection option" where
  "auto_update_selection groups policies snoozes skips =
     (let candidates = auto_update_candidates groups policies skips;
          waits = dependency_waits snoozes;
          eligible = eligible_candidates candidates waits;
          modes = filter (\<lambda>m. eligible m \<noteq> []) (sorted_set (map fst candidates))
      in if policies = [] then None
         else case first_mode (\<lambda>m. earliest (eligible m)) modes of
           None \<Rightarrow> None
         | Some mode \<Rightarrow>
             Some \<lparr>an_line_numbers = sorted_set (map fst (eligible mode)),
               an_service_keys = sorted_set (concat (map (\<lambda>(line, keys, ps). keys) (eligible mode))),
               an_schedule_keys = sorted_set (map au_schedule_key (candidate_policies (eligible mode))),
               an_scheduled_for = earliest (eligible mode), an_mode = mode,
               an_deferred = sorted_set (concat (map (\<lambda>m. map au_schedule_key (candidate_policies (eligible m)))
                 (filter (\<lambda>m. m \<noteq> mode) modes)))\<rparr>)"

section \<open>What is selected\<close>

lemma policy_of_Some: "policy_of ps x = Some p \<Longrightarrow> p \<in> set ps \<and> au_service_key p = x"
  by (induction ps) (auto simp: policy_of_def split: if_splits)

lemma candidate_for_item_policies:
  assumes "auto_update_candidate_for_item g ps skips item = Some (m, (line, keys, qs))"
  shows "qs \<noteq> []" and "set qs \<subseteq> set ps" and "map au_service_key qs = keys"
    and "keys = item_service_keys g item" and "\<forall>q \<in> set qs. au_mode q = m"
proof -
  have ne: "item_service_keys g item \<noteq> []" and qs: "qs = map the (map (policy_of ps) (item_service_keys g item))"
    and k: "keys = item_service_keys g item" and all: "None \<notin> set (map (policy_of ps) (item_service_keys g item))"
    and m: "m = au_mode (hd qs)" "\<not> list_ex (\<lambda>p. au_mode p \<noteq> au_mode (hd qs)) qs"
    using assms by (auto simp: auto_update_candidate_for_item_def Let_def split: if_splits)
  have p: "\<exists>p. policy_of ps x = Some p \<and> p \<in> set ps \<and> au_service_key p = x" if x: "x \<in> set keys" for x
  proof -
    from x all k have "policy_of ps x \<noteq> None" by (metis image_eqI list.set_map)
    then show ?thesis using policy_of_Some by blast
  qed
  show "qs \<noteq> []" using ne qs by simp
  show "set qs \<subseteq> set ps" using p qs k by fastforce
  show "map au_service_key qs = keys" using p qs k by (fastforce intro: map_idI)
  show "keys = item_service_keys g item" by (rule k)
  show "\<forall>q \<in> set qs. au_mode q = m" using m by (auto simp: list_ex_iff)
qed

end
