(* ===== verification/Scheduler.thy ===== *)
theory Scheduler
  imports Auto_Schedule Web_Jobs
begin

text \<open>
  The automatic update scheduler of \<open>src/src/wudup/web_scheduler.py\<close>: the rows that claim a schedule slot, the
  slots held back in memory, and one tick of the loop. A tick reads the due policies, records missed slots,
  looks for a plan it can apply, claims its slots, submits the job and marks the rows. What the pending
  source, the grouping and the plan builder answered is an argument, as is which of the database
  transactions fail; a transaction that fails leaves the database as it was. Another process may have
  claimed slots between the reading and the claim.
\<close>

section \<open>State\<close>

record schedule_run =
  sx_key :: string
  sx_service_key :: string
  sx_scheduled_for :: string
  sx_run_id :: "nat option"
  sx_status :: string
  sx_job_id :: string
  sx_error :: string

record missed_slot =
  ms_policy :: auto_policy
  ms_reason :: string

record missed_run =
  mr_id :: nat
  mr_slots :: "missed_slot list"

record schedule_db =
  sd_policies :: "policy_row list"
  sd_snoozes :: "snooze_row list"
  sd_runs :: "schedule_run list"
  sd_missed :: "missed_run list"
  sd_next_run :: nat

record scheduler_state =
  sc_db :: schedule_db
  sc_held :: "(string \<times> string) list"
  sc_web :: web_state

definition recorded_keys :: "schedule_db \<Rightarrow> string list" where
  "recorded_keys db = map sx_key (sd_runs db)"

section \<open>Rows\<close>

definition key_service :: "string \<Rightarrow> string" where
  "key_service schedule_key = before_first ''|'' schedule_key"

definition new_row :: "string \<Rightarrow> string \<Rightarrow> string \<Rightarrow> string \<Rightarrow> schedule_run" where
  "new_row key service_key scheduled_for status =
     \<lparr>sx_key = key, sx_service_key = service_key, sx_scheduled_for = scheduled_for, sx_run_id = None,
       sx_status = status, sx_job_id = '''', sx_error = ''''\<rparr>"

text \<open>\<open>_reserve_auto_update_schedule_runs\<close>: the primary key refuses a slot that is recorded, None for all.\<close>

fun reserve_keys :: "string \<Rightarrow> string list \<Rightarrow> schedule_run list \<Rightarrow> schedule_run list option" where
  "reserve_keys scheduled_for [] rows = Some rows"
| "reserve_keys scheduled_for (k # ks) rows =
     (if k \<in> sx_key ` set rows then None
      else reserve_keys scheduled_for ks (rows @ [new_row k (key_service k) scheduled_for ''reserved'']))"

definition reserve_auto_update_schedule_runs ::
  "schedule_clock \<Rightarrow> auto_selection \<Rightarrow> schedule_db \<Rightarrow> schedule_db option" where
  "reserve_auto_update_schedule_runs z sel db =
     map_option (\<lambda>rows. db\<lparr>sd_runs := rows\<rparr>)
       (reserve_keys (zc_instant_text z (an_scheduled_for sel)) (an_schedule_keys sel) (sd_runs db))"

definition release_auto_update_schedule_runs :: "auto_selection \<Rightarrow> schedule_db \<Rightarrow> schedule_db" where
  "release_auto_update_schedule_runs sel db =
     db\<lparr>sd_runs := filter (\<lambda>r. \<not> (sx_key r \<in> set (an_schedule_keys sel) \<and> sx_run_id r = None \<and> sx_status r = ''reserved''))
       (sd_runs db)\<rparr>"

definition queue_auto_update_schedule_runs :: "auto_selection \<Rightarrow> string \<Rightarrow> schedule_db \<Rightarrow> schedule_db" where
  "queue_auto_update_schedule_runs sel job_id db =
     db\<lparr>sd_runs := map (\<lambda>r. if sx_key r \<in> set (an_schedule_keys sel)
        then r\<lparr>sx_status := ''queued'', sx_job_id := job_id\<rparr> else r) (sd_runs db)\<rparr>"

text \<open>The update of the rows when the job runs or ends.\<close>

definition update_auto_update_schedule_runs ::
  "string list \<Rightarrow> string \<Rightarrow> nat option \<Rightarrow> string \<Rightarrow> schedule_db \<Rightarrow> schedule_db" where
  "update_auto_update_schedule_runs keys status run_id error db =
     db\<lparr>sd_runs := map (\<lambda>r. if sx_key r \<in> set keys
        then r\<lparr>sx_status := status, sx_run_id := run_id, sx_error := error\<rparr> else r) (sd_runs db)\<rparr>"

section \<open>Missed slots\<close>

definition missed_slot_still_scheduled :: "schedule_clock \<Rightarrow> schedule_db \<Rightarrow> auto_policy \<Rightarrow> int \<Rightarrow> bool" where
  "missed_slot_still_scheduled z db p now_utc =
     (case find (\<lambda>row. py_service_key row = au_service_key p) (sd_policies db) of
        None \<Rightarrow> False
      | Some row \<Rightarrow>
          py_auto_update row \<and> (case py_time row of None \<Rightarrow> ''None'' | Some t \<Rightarrow> t) = au_time p \<and>
          day_name (zc_local_day z (au_scheduled_for p)) \<in> set (auto_update_days_from_row row) \<and>
          \<not> active_snooze (sd_snoozes db) (au_service_key p) (zc_instant_text z now_utc))"

definition claim_missed_auto_update_slot ::
  "schedule_clock \<Rightarrow> int \<Rightarrow> auto_policy \<Rightarrow> schedule_db \<Rightarrow> bool \<times> schedule_db" where
  "claim_missed_auto_update_slot z now_utc p db =
     (if \<not> missed_slot_still_scheduled z db p now_utc \<or> au_schedule_key p \<in> set (recorded_keys db) then (False, db)
      else (True, db\<lparr>sd_runs := sd_runs db @ [new_row (au_schedule_key p) (au_service_key p)
             (zc_instant_text z (au_scheduled_for p)) ''missed'']\<rparr>))"

fun claim_missed :: "schedule_clock \<Rightarrow> int \<Rightarrow> auto_policy list \<Rightarrow> schedule_db \<Rightarrow> auto_policy list \<times> schedule_db" where
  "claim_missed z now_utc [] db = ([], db)"
| "claim_missed z now_utc (p # ps) db =
     (let (claimed, db1) = claim_missed_auto_update_slot z now_utc p db;
          (qs, db2) = claim_missed z now_utc ps db1
      in (if claimed then p # qs else qs, db2))"

definition AUTO_UPDATE_HOLD_BUSY :: string where
  "AUTO_UPDATE_HOLD_BUSY = ''Another WUDup job was still running.''"

definition record_missed_auto_update_slots ::
  "schedule_clock \<Rightarrow> int \<Rightarrow> auto_policy list \<Rightarrow> (string \<times> string) list \<Rightarrow> schedule_db \<Rightarrow> schedule_db" where
  "record_missed_auto_update_slots z now_utc missed held db =
     (let (claimed, db') = claim_missed z now_utc missed db
      in if claimed = [] then db'
         else db'\<lparr>sd_missed := sd_missed db' @ [\<lparr>mr_id = sd_next_run db',
                mr_slots = map (\<lambda>p. \<lparr>ms_policy = p, ms_reason = dict_get held (au_schedule_key p) AUTO_UPDATE_HOLD_BUSY\<rparr>) claimed\<rparr>],
              sd_next_run := sd_next_run db' + 1,
              sd_runs := map (\<lambda>r. if sx_key r \<in> au_schedule_key ` set claimed then r\<lparr>sx_run_id := Some (sd_next_run db')\<rparr> else r)
                (sd_runs db')\<rparr>)"

section \<open>Held slots\<close>

definition strip_dots :: "string \<Rightarrow> string" where
  "strip_dots s = rev (dropWhile (\<lambda>c. c = CHR ''.'') (rev s))"

definition busy_hold_reason :: "string \<Rightarrow> string" where
  "busy_hold_reason active_error =
     (let detail = strip_dots (py_strip active_error)
      in if detail = '''' then AUTO_UPDATE_HOLD_BUSY
         else butlast AUTO_UPDATE_HOLD_BUSY @ '': '' @ detail @ ''.'')"

definition hold_keys :: "string \<Rightarrow> string list \<Rightarrow> (string \<times> string) list \<Rightarrow> (string \<times> string) list" where
  "hold_keys reason keys held = foldl (\<lambda>h k. setdefault k reason h) held keys"

definition AUTO_UPDATE_HOLD_OTHER_MODE :: string where
  "AUTO_UPDATE_HOLD_OTHER_MODE = ''Services scheduled at the same time with a different update mode ran first.''"

definition AUTO_UPDATE_HOLD_SUBMIT_FAILED :: string where
  "AUTO_UPDATE_HOLD_SUBMIT_FAILED = ''The update job could not be started.''"

definition AUTO_UPDATE_HOLD_PLAN_BLOCKED :: string where
  "AUTO_UPDATE_HOLD_PLAN_BLOCKED =
     ''The update plan could not be applied automatically; open Pending updates to review it.''"

definition hold_failed_submission :: "auto_selection \<Rightarrow> http_error \<Rightarrow> (string \<times> string) list \<Rightarrow> (string \<times> string) list" where
  "hold_failed_submission sel e held =
     hold_keys (case e of HTTPException status detail \<Rightarrow>
         if status = 409 then busy_hold_reason detail else AUTO_UPDATE_HOLD_SUBMIT_FAILED
       | SubmitFailed \<Rightarrow> AUTO_UPDATE_HOLD_SUBMIT_FAILED) (an_schedule_keys sel) held"

section \<open>Looking for a plan\<close>

text \<open>
  The answers of the pending source: None where reading it raised; \<open>pa_groups\<close> is None when the grouping is
  not ready. \<open>pa_can_apply\<close> is \<open>plan_can_apply\<close> of the plan built for the lines and the mode.
\<close>

record pending_answer =
  pa_groups :: "pending_group list option"
  pa_dependencies :: "dependency_snooze list"
  pa_skips :: "(string \<times> release_skip list) list"
  pa_can_apply :: "nat list \<Rightarrow> string \<Rightarrow> bool"

text \<open>
  The loop of \<open>_auto_update_candidate\<close>: a blocked plan takes its slots out and the next selection is tried.
  It has no bound of its own, so not returning is None.
\<close>

partial_function (option) candidate_loop ::
  "pending_group list \<Rightarrow> pending_answer \<Rightarrow> auto_policy list \<Rightarrow> (string \<times> string) list \<Rightarrow>
     (auto_selection option \<times> (string \<times> string) list) option" where
  "candidate_loop groups a remaining checked =
     (case auto_update_selection groups remaining (pa_dependencies a) (pa_skips a) of
        None \<Rightarrow> Some (None, checked)
      | Some sel \<Rightarrow>
          if pa_can_apply a (an_line_numbers sel) (an_mode sel)
          then Some (Some sel, foldl (\<lambda>h k. AList.update k AUTO_UPDATE_HOLD_OTHER_MODE h) checked (an_deferred sel))
          else candidate_loop groups a (filter (\<lambda>p. au_schedule_key p \<notin> set (an_schedule_keys sel)) remaining)
            (foldl (\<lambda>h k. AList.update k AUTO_UPDATE_HOLD_PLAN_BLOCKED h) checked (an_schedule_keys sel)))"

text \<open>The selection and the slots now held; the held slots stay as they are where the check did not complete.\<close>

definition auto_update_candidate ::
  "pending_answer option \<Rightarrow> auto_policy list \<Rightarrow> (string \<times> string) list \<Rightarrow>
     (auto_selection option \<times> (string \<times> string) list) option" where
  "auto_update_candidate answer policies held =
     (case answer of
        None \<Rightarrow> Some (None, held)
      | Some a \<Rightarrow> (case pa_groups a of
            None \<Rightarrow> Some (None, held)
          | Some groups \<Rightarrow> candidate_loop groups a policies []))"

section \<open>A tick\<close>

record tick_input =
  ti_now :: int
  ti_started_at :: int
  ti_answer :: "pending_answer option"
  ti_others :: "schedule_run list"
  ti_job_id :: string
  ti_accepted :: bool
  ti_missed_fails :: bool
  ti_reserve_fails :: bool
  ti_release_fails :: bool
  ti_queue_fails :: bool

datatype tick_result = Idle | Raised | Submitted auto_selection

text \<open>\<open>_runnable_auto_update_policies\<close>: the state after missed slots are recorded and held ones pruned.\<close>

definition runnable_auto_update_policies ::
  "schedule_clock \<Rightarrow> string \<Rightarrow> tick_input \<Rightarrow> scheduler_state \<Rightarrow> auto_policy list option \<times> scheduler_state" where
  "runnable_auto_update_policies z mode i s =
     (let db = sc_db s; held = sc_held s;
          (policies, missed) = due_auto_update_policies z mode (sd_policies db) (sd_snoozes db) (recorded_keys db)
            (map fst held) (ti_now i) (ti_started_at i)
      in if missed \<noteq> [] \<and> ti_missed_fails i then (None, s)
         else let db' = (if missed = [] then db else record_missed_auto_update_slots z (ti_now i) missed held db);
                  due_keys = map au_schedule_key policies;
                  held' = filter (\<lambda>(k, reason). k \<in> set due_keys) held;
                  active_error = active_mutation_error True (sc_web s)
              in if policies = [] then (Some [], s\<lparr>sc_db := db', sc_held := held'\<rparr>)
                 else if active_error \<noteq> ''''
                 then (Some [], s\<lparr>sc_db := db', sc_held := hold_keys (busy_hold_reason active_error) due_keys held'\<rparr>)
                 else (Some policies, s\<lparr>sc_db := db', sc_held := held'\<rparr>))"

text \<open>Rows another process wrote meanwhile; the primary key keeps those already there.\<close>

definition with_others :: "schedule_run list \<Rightarrow> schedule_db \<Rightarrow> schedule_db" where
  "with_others rows db =
     db\<lparr>sd_runs := foldl (\<lambda>rs r. if sx_key r \<in> sx_key ` set rs then rs else rs @ [r]) (sd_runs db) rows\<rparr>"

definition claim_and_submit ::
  "schedule_clock \<Rightarrow> tick_input \<Rightarrow> auto_selection \<Rightarrow> scheduler_state \<Rightarrow> tick_result \<times> scheduler_state" where
  "claim_and_submit z i sel s =
     (let db = with_others (ti_others i) (sc_db s)
      in if ti_reserve_fails i then (Raised, s\<lparr>sc_db := db\<rparr>)
         else case reserve_auto_update_schedule_runs z sel db of
           None \<Rightarrow> (Idle, s\<lparr>sc_db := db\<rparr>)
         | Some db1 \<Rightarrow>
             (case submit_apply_job (ti_job_id i) (an_line_numbers sel) (ti_accepted i) (sc_web s) of
                (Inl e, web) \<Rightarrow>
                  (Raised, s\<lparr>sc_db := (if ti_release_fails i then db1 else release_auto_update_schedule_runs sel db1),
                     sc_web := web, sc_held := hold_failed_submission sel e (sc_held s)\<rparr>)
              | (Inr job, web) \<Rightarrow>
                  (Submitted sel, s\<lparr>sc_db := (if ti_queue_fails i then db1
                     else queue_auto_update_schedule_runs sel (ti_job_id i) db1), sc_web := web\<rparr>)))"

definition auto_update_tick ::
  "schedule_clock \<Rightarrow> string \<Rightarrow> bool \<Rightarrow> tick_input \<Rightarrow> scheduler_state \<Rightarrow> (tick_result \<times> scheduler_state) option" where
  "auto_update_tick z mode mutations_enabled i s =
     (if \<not> mutations_enabled then Some (Idle, s)
      else case runnable_auto_update_policies z mode i s of
        (None, s1) \<Rightarrow> Some (Raised, s1)
      | (Some [], s1) \<Rightarrow> Some (Idle, s1)
      | (Some policies, s1) \<Rightarrow>
          (case auto_update_candidate (ti_answer i) policies (sc_held s1) of
             None \<Rightarrow> None
           | Some (None, held) \<Rightarrow> Some (if ti_answer i = None then Raised else Idle, s1\<lparr>sc_held := held\<rparr>)
           | Some (Some sel, held) \<Rightarrow> Some (claim_and_submit z i sel (s1\<lparr>sc_held := held\<rparr>))))"

end
