(* ===== verification/Scheduler_Safety.thy ===== *)
theory Scheduler_Safety
  imports Scheduler
begin

text \<open>
  What the scheduler guarantees over any sequence of ticks, restarts, job updates, edited policies and rows
  of other processes: the loop of a tick ends, no slot is submitted twice or both submitted and reported
  missed, and what is submitted is inside its time.
\<close>

section \<open>Selections\<close>

lemma eligible_from_candidates:
  "c \<in> set (eligible_candidates cs waits m) \<Longrightarrow> (m, c) \<in> set cs"
  by (auto simp: eligible_candidates_def)

lemma candidates_policies:
  assumes "(m, (line, keys, qs)) \<in> set (auto_update_candidates groups ps skips)"
  shows "qs \<noteq> []" and "set qs \<subseteq> set ps"
proof -
  from assms obtain g :: pending_group and item :: pending_item where "auto_update_candidate_for_item (gr_name g) ps skips item = Some (m, (line, keys, qs))"
    by (auto simp: auto_update_candidates_def split: option.splits)
  from candidate_for_item_policies(1,2)[OF this] show "qs \<noteq> []" and "set qs \<subseteq> set ps" by auto
qed

lemma first_mode_mem: "first_mode f ms = Some m \<Longrightarrow> m \<in> set ms"
  by (induction ms arbitrary: m) (auto split: option.splits if_splits)

lemma selection_keys:
  assumes "auto_update_selection groups ps deps skips = Some sel"
  shows "an_schedule_keys sel \<noteq> []" and "distinct (an_schedule_keys sel)"
    and "set (an_schedule_keys sel) \<subseteq> au_schedule_key ` set ps"
proof -
  let ?cs = "auto_update_candidates groups ps skips"
  let ?e = "eligible_candidates ?cs (dependency_waits deps)"
  from assms obtain mode where m: "first_mode (\<lambda>m. earliest (?e m)) (filter (\<lambda>m. ?e m \<noteq> []) (sorted_set (map fst ?cs))) = Some mode"
    and k: "an_schedule_keys sel = sorted_set (map au_schedule_key (candidate_policies (?e mode)))"
    by (auto simp: auto_update_selection_def Let_def split: if_splits option.splits)
  from first_mode_mem[OF m] have ne: "?e mode \<noteq> []" by simp
  have sub: "set (candidate_policies (?e mode)) \<subseteq> set ps"
    using candidates_policies(2) eligible_from_candidates by (fastforce simp: candidate_policies_def)
  obtain line keys qs where c: "(line, keys, qs) \<in> set (?e mode)" using ne by (cases "?e mode") auto
  with candidates_policies(1) eligible_from_candidates have "qs \<noteq> []" by blast
  with c have "candidate_policies (?e mode) \<noteq> []" by (force simp: candidate_policies_def)
  then have "set (an_schedule_keys sel) \<noteq> {}" using k by (simp add: sorted_set_def)
  then show "an_schedule_keys sel \<noteq> []" by auto
  show "distinct (an_schedule_keys sel)" using k by (simp add: sorted_set_def)
  show "set (an_schedule_keys sel) \<subseteq> au_schedule_key ` set ps" using k sub by (auto simp: sorted_set_def)
qed

text \<open>C37: The loop that looks for a plan always ends: every blocked plan takes at least one due slot out, so after at
  most as many rounds as there are due policies there is a plan or nothing left, whatever the plan builder
  answers.\<close>

theorem candidate_loop_returns:
  "\<exists>r. candidate_loop groups a policies checked = Some r"
proof (induction "length policies" arbitrary: policies checked rule: less_induct)
  case less
  show ?case
  proof (cases "auto_update_selection groups policies (pa_dependencies a) (pa_skips a)")
    case None
    then show ?thesis by (subst candidate_loop.simps) simp
  next
    case (Some sel)
    let ?rest = "filter (\<lambda>p. au_schedule_key p \<notin> set (an_schedule_keys sel)) policies"
    from selection_keys[OF Some] obtain p where "p \<in> set policies" "au_schedule_key p \<in> set (an_schedule_keys sel)"
      by (cases "an_schedule_keys sel") auto
    then have "length ?rest < length policies" by (intro length_filter_less) auto
    from less[OF this] Some show ?thesis by (subst candidate_loop.simps) auto
  qed
qed

lemma candidate_loop_selection:
  "candidate_loop groups a policies checked = Some (Some sel, held) \<Longrightarrow>
     \<exists>ps. set ps \<subseteq> set policies \<and> auto_update_selection groups ps (pa_dependencies a) (pa_skips a) = Some sel \<and>
       pa_can_apply a (an_line_numbers sel) (an_mode sel)"
proof (induction "length policies" arbitrary: policies checked rule: less_induct)
  case less
  show ?case
  proof (cases "auto_update_selection groups policies (pa_dependencies a) (pa_skips a)")
    case None
    with less.prems show ?thesis by (subst (asm) candidate_loop.simps) simp
  next
    case (Some s)
    let ?rest = "filter (\<lambda>p. au_schedule_key p \<notin> set (an_schedule_keys s)) policies"
    from selection_keys[OF Some] obtain p where "p \<in> set policies" "au_schedule_key p \<in> set (an_schedule_keys s)"
      by (cases "an_schedule_keys s") auto
    then have l: "length ?rest < length policies" by (intro length_filter_less) auto
    show ?thesis
    proof (cases "pa_can_apply a (an_line_numbers s) (an_mode s)")
      case True
      with less.prems Some show ?thesis by (subst (asm) candidate_loop.simps) auto
    next
      case False
      with less.prems Some have "candidate_loop groups a ?rest
          (foldl (\<lambda>h k. AList.update k AUTO_UPDATE_HOLD_PLAN_BLOCKED h) checked (an_schedule_keys s)) = Some (Some sel, held)"
        by (subst (asm) candidate_loop.simps) simp
      from less.hyps[OF l this] show ?thesis by auto
    qed
  qed
qed

lemma tick_total: "\<exists>r. auto_update_tick z mode enabled i s = Some r"
proof -
  have "\<exists>r. auto_update_candidate ans ps held = Some r" for ans ps held
    using candidate_loop_returns by (auto simp: auto_update_candidate_def split: option.splits)
  then show ?thesis
    by (auto simp: auto_update_tick_def split: prod.splits option.splits list.splits) (metis option.distinct(1))+
qed

section \<open>Any sequence of events\<close>

text \<open>
  A tick; the update of the rows of a job; rows of another process; edited policies and snoozes; changed
  jobs; and a restart, which forgets the held slots.
\<close>

datatype scheduler_event =
    Tick tick_input
  | JobUpdate "string list" string "nat option" string
  | OtherRows "schedule_run list"
  | Edited "policy_row list" "snooze_row list"
  | JobsChanged web_state
  | Restarted

definition submitted_keys :: "tick_result \<Rightarrow> string list" where
  "submitted_keys r = (case r of Submitted sel \<Rightarrow> an_schedule_keys sel | _ \<Rightarrow> [])"

fun scheduler_event_step ::
  "schedule_clock \<Rightarrow> string \<Rightarrow> bool \<Rightarrow> scheduler_event \<Rightarrow> scheduler_state \<Rightarrow> (string list \<times> scheduler_state) option" where
  "scheduler_event_step z mode enabled (Tick i) s =
     map_option (\<lambda>(r, s'). (submitted_keys r, s')) (auto_update_tick z mode enabled i s)"
| "scheduler_event_step z mode enabled (JobUpdate keys status run_id error) s =
     Some ([], s\<lparr>sc_db := update_auto_update_schedule_runs keys status run_id error (sc_db s)\<rparr>)"
| "scheduler_event_step z mode enabled (OtherRows rows) s = Some ([], s\<lparr>sc_db := with_others rows (sc_db s)\<rparr>)"
| "scheduler_event_step z mode enabled (Edited policies snoozes) s =
     Some ([], s\<lparr>sc_db := (sc_db s)\<lparr>sd_policies := policies, sd_snoozes := snoozes\<rparr>\<rparr>)"
| "scheduler_event_step z mode enabled (JobsChanged web) s = Some ([], s\<lparr>sc_web := web\<rparr>)"
| "scheduler_event_step z mode enabled Restarted s = Some ([], s\<lparr>sc_held := []\<rparr>)"

fun scheduler_run ::
  "schedule_clock \<Rightarrow> string \<Rightarrow> bool \<Rightarrow> scheduler_event list \<Rightarrow> scheduler_state \<Rightarrow> (string list \<times> scheduler_state) option" where
  "scheduler_run z mode enabled [] s = Some ([], s)"
| "scheduler_run z mode enabled (e # es) s =
     (case scheduler_event_step z mode enabled e s of
        None \<Rightarrow> None
      | Some (ks, s1) \<Rightarrow> (case scheduler_run z mode enabled es s1 of
            None \<Rightarrow> None | Some (ks', s2) \<Rightarrow> Some (ks @ ks', s2)))"

text \<open>The keys reported missed.\<close>

definition missed_keys :: "schedule_db \<Rightarrow> string list" where
  "missed_keys db = concat (map (\<lambda>r. map (\<lambda>m. au_schedule_key (ms_policy m)) (mr_slots r)) (sd_missed db))"

text \<open>
  What a step does to the keys: it records more of them, submits and reports as missed only keys that had no
  row, and a key is not both.
\<close>

definition keys_step :: "string list \<Rightarrow> schedule_db \<Rightarrow> schedule_db \<Rightarrow> bool" where
  "keys_step ks db db' =
     (set (recorded_keys db) \<subseteq> set (recorded_keys db') \<and> distinct ks \<and> set ks \<subseteq> set (recorded_keys db') - set (recorded_keys db) \<and>
      (\<exists>ms. missed_keys db' = missed_keys db @ ms \<and> set ms \<subseteq> set (recorded_keys db') - set (recorded_keys db) - set ks))"

lemma keys_step_refl: "keys_step [] db db"
  by (simp add: keys_step_def)

lemma keys_step_same: "recorded_keys db' = recorded_keys db \<Longrightarrow> sd_missed db' = sd_missed db \<Longrightarrow> keys_step [] db db'"
  by (simp add: keys_step_def missed_keys_def)

lemma keys_step_more:
  "set (recorded_keys db) \<subseteq> set (recorded_keys db') \<Longrightarrow> sd_missed db' = sd_missed db \<Longrightarrow> keys_step [] db db'"
  by (simp add: keys_step_def missed_keys_def)

lemma keys_step_trans:
  assumes "keys_step ks db db1" and "keys_step ks' db1 db2"
  shows "keys_step (ks @ ks') db db2"
proof -
  from assms obtain ms ms' where "missed_keys db1 = missed_keys db @ ms" "missed_keys db2 = missed_keys db1 @ ms'"
    "set ms \<subseteq> set (recorded_keys db1) - set (recorded_keys db) - set ks"
    "set ms' \<subseteq> set (recorded_keys db2) - set (recorded_keys db1) - set ks'" unfolding keys_step_def by blast
  then have "missed_keys db2 = missed_keys db @ (ms @ ms')"
    "set (ms @ ms') \<subseteq> set (recorded_keys db2) - set (recorded_keys db) - set (ks @ ks')"
    using assms by (auto simp: keys_step_def)
  with assms show ?thesis unfolding keys_step_def by auto
qed

lemma with_others_keys: "set (recorded_keys db) \<subseteq> set (recorded_keys (with_others rows db))"
  "sd_missed (with_others rows db) = sd_missed db"
proof -
  have "set rs \<subseteq> set (foldl (\<lambda>rs r. if sx_key r \<in> sx_key ` set rs then rs else rs @ [r]) rs rows)" for rs :: "schedule_run list"
  proof (induction rows arbitrary: rs)
    case (Cons r rows)
    let ?rs = "if sx_key r \<in> sx_key ` set rs then rs else rs @ [r]"
    have "set rs \<subseteq> set ?rs" by auto
    also have "\<dots> \<subseteq> set (foldl (\<lambda>rs r. if sx_key r \<in> sx_key ` set rs then rs else rs @ [r]) ?rs rows)" by (rule Cons.IH)
    finally show ?case by (simp only: foldl_Cons)
  qed simp
  then show "set (recorded_keys db) \<subseteq> set (recorded_keys (with_others rows db))"
    by (auto simp: recorded_keys_def with_others_def)
qed (simp add: with_others_def)

lemma reserve_keys_Some:
  "reserve_keys t ks rows = Some rows' \<Longrightarrow>
     map sx_key rows' = map sx_key rows @ ks \<and> set ks \<inter> sx_key ` set rows = {} \<and> distinct ks"
  by (induction t ks rows rule: reserve_keys.induct) (auto simp: new_row_def split: if_splits)

lemma reserve_Some:
  assumes "reserve_auto_update_schedule_runs z sel db = Some db'"
  shows "recorded_keys db' = recorded_keys db @ an_schedule_keys sel"
    and "set (an_schedule_keys sel) \<inter> set (recorded_keys db) = {}" and "distinct (an_schedule_keys sel)"
    and "sd_missed db' = sd_missed db"
proof -
  from assms obtain rows where r: "reserve_keys (zc_instant_text z (an_scheduled_for sel)) (an_schedule_keys sel) (sd_runs db) = Some rows"
    "db' = db\<lparr>sd_runs := rows\<rparr>" by (auto simp: reserve_auto_update_schedule_runs_def)
  from reserve_keys_Some[OF r(1)] r(2)
  show "recorded_keys db' = recorded_keys db @ an_schedule_keys sel"
    and "set (an_schedule_keys sel) \<inter> set (recorded_keys db) = {}" and "distinct (an_schedule_keys sel)"
    and "sd_missed db' = sd_missed db"
    by (simp_all add: recorded_keys_def)
qed

lemma claim_missed_keys:
  "claim_missed z t ps db = (qs, db') \<Longrightarrow>
     recorded_keys db' = recorded_keys db @ map au_schedule_key qs \<and>
     set (map au_schedule_key qs) \<inter> set (recorded_keys db) = {} \<and> sd_missed db' = sd_missed db"
proof (induction z t ps db arbitrary: qs db' rule: claim_missed.induct)
  case (2 z t p ps db)
  obtain c db1 where c: "claim_missed_auto_update_slot z t p db = (c, db1)" by fastforce
  obtain qs2 db2 where q: "claim_missed z t ps db1 = (qs2, db2)" by fastforce
  from c have one: "recorded_keys db1 = recorded_keys db @ (if c then [au_schedule_key p] else [])"
    "c \<longrightarrow> au_schedule_key p \<notin> set (recorded_keys db)" "sd_missed db1 = sd_missed db"
    by (auto simp: claim_missed_auto_update_slot_def recorded_keys_def new_row_def split: if_splits)
  from 2(1)[OF c[symmetric] refl q] have two: "recorded_keys db2 = recorded_keys db1 @ map au_schedule_key qs2"
    "set (map au_schedule_key qs2) \<inter> set (recorded_keys db1) = {}" "sd_missed db2 = sd_missed db1" by auto
  from 2(2) c q have "qs = (if c then p # qs2 else qs2)" "db' = db2" by auto
  with one two show ?case by (cases c; simp; blast?)
qed simp

lemma record_missed_step: "keys_step [] db (record_missed_auto_update_slots z t missed held db)"
proof -
  obtain qs db' where c: "claim_missed z t missed db = (qs, db')" by fastforce
  from claim_missed_keys[OF c] have k: "recorded_keys db' = recorded_keys db @ map au_schedule_key qs"
    "set (map au_schedule_key qs) \<inter> set (recorded_keys db) = {}" "sd_missed db' = sd_missed db" by auto
  let ?db = "record_missed_auto_update_slots z t missed held db"
  have "recorded_keys ?db = recorded_keys db'"
    using c by (auto simp: record_missed_auto_update_slots_def recorded_keys_def Let_def comp_def if_distrib cong: if_cong)
  moreover have "missed_keys ?db = missed_keys db @ map au_schedule_key qs"
    using c k(3) by (auto simp: record_missed_auto_update_slots_def missed_keys_def Let_def comp_def)
  ultimately show ?thesis using k unfolding keys_step_def by auto
qed

lemma release_keys:
  assumes "reserve_auto_update_schedule_runs z sel db = Some db1"
  shows "set (recorded_keys db) \<subseteq> set (recorded_keys (release_auto_update_schedule_runs sel db1))"
proof -
  from assms obtain rows where r: "reserve_keys (zc_instant_text z (an_scheduled_for sel)) (an_schedule_keys sel) (sd_runs db) = Some rows"
    "db1 = db\<lparr>sd_runs := rows\<rparr>" by (auto simp: reserve_auto_update_schedule_runs_def)
  have "set rows0 \<subseteq> set rows'" if "reserve_keys t ks rows0 = Some rows'" for t ks rows0 rows'
    using that by (induction t ks rows0 rule: reserve_keys.induct) (auto split: if_splits)
  from this[OF r(1)] have "set (sd_runs db) \<subseteq> set rows" .
  moreover have "sx_key x \<notin> set (an_schedule_keys sel)" if "x \<in> set (sd_runs db)" for x
    using reserve_Some(2)[OF assms] that by (auto simp: recorded_keys_def)
  ultimately have "set (sd_runs db) \<subseteq> set (sd_runs (release_auto_update_schedule_runs sel db1))"
    using r(2) by (auto simp: release_auto_update_schedule_runs_def)
  then show ?thesis by (auto simp: recorded_keys_def)
qed

lemma claim_and_submit_step:
  assumes "claim_and_submit z i sel s = (r, s')"
  shows "keys_step (submitted_keys r) (sc_db s) (sc_db s')"
proof -
  let ?db = "with_others (ti_others i) (sc_db s)"
  have o: "keys_step [] (sc_db s) ?db" by (rule keys_step_more) (rule with_others_keys)+
  show ?thesis
  proof (cases "reserve_auto_update_schedule_runs z sel ?db")
    case None
    with assms o show ?thesis
      by (auto simp: claim_and_submit_def Let_def submitted_keys_def split: if_splits)
  next
    case (Some db1)
    note rs = reserve_Some[OF Some]
    have rel: "keys_step [] ?db (release_auto_update_schedule_runs sel db1)"
      using release_keys[OF Some] rs(4) by (intro keys_step_more) (simp_all add: release_auto_update_schedule_runs_def)
    have db1: "keys_step [] ?db db1" using rs by (intro keys_step_more) auto
    have queued: "recorded_keys (queue_auto_update_schedule_runs sel j db1) = recorded_keys db1"
      "sd_missed (queue_auto_update_schedule_runs sel j db1) = sd_missed db1" for j
      by (simp_all add: queue_auto_update_schedule_runs_def recorded_keys_def comp_def if_distrib cong: if_cong)
    have sub: "keys_step (an_schedule_keys sel) ?db d" if "recorded_keys d = recorded_keys db1" "sd_missed d = sd_missed db1" for d
      using rs that by (auto simp: keys_step_def missed_keys_def)
    from assms Some keys_step_trans[OF o rel] keys_step_trans[OF o db1] keys_step_trans[OF o] sub queued o show ?thesis
      by (auto simp: claim_and_submit_def Let_def submitted_keys_def split: if_splits sum.splits prod.splits)
  qed
qed

lemma runnable_step:
  assumes "runnable_auto_update_policies z mode i s = (ps, s')"
  shows "keys_step [] (sc_db s) (sc_db s')"
  using assms record_missed_step keys_step_refl
  by (auto simp: runnable_auto_update_policies_def Let_def split: prod.splits if_splits)

lemma tick_step:
  assumes "auto_update_tick z mode enabled i s = Some (r, s')"
  shows "keys_step (submitted_keys r) (sc_db s) (sc_db s')"
proof (cases enabled)
  case False
  with assms show ?thesis by (auto simp: auto_update_tick_def submitted_keys_def keys_step_refl)
next
  case True
  obtain ps s1 where p: "runnable_auto_update_policies z mode i s = (ps, s1)" by fastforce
  note r1 = runnable_step[OF p]
  have "keys_step (submitted_keys r) (sc_db s1) (sc_db s')"
  proof (cases "\<exists>p qs. ps = Some (p # qs)")
    case False
    with assms True p show ?thesis
      by (cases ps) (auto simp: auto_update_tick_def submitted_keys_def keys_step_refl neq_Nil_conv split: list.splits)
  next
    case t: True
    then obtain p' qs where q: "ps = Some (p' # qs)" by blast
    with assms True p obtain sel held where c: "auto_update_candidate (ti_answer i) (p' # qs) (sc_held s1) = Some (sel, held)"
      by (auto simp: auto_update_tick_def split: option.splits)
    show ?thesis
    proof (cases sel)
      case None
      with assms True p q c show ?thesis
        by (auto simp: auto_update_tick_def submitted_keys_def keys_step_refl split: if_splits)
    next
      case (Some sel')
      with assms True p q c have "claim_and_submit z i sel' (s1\<lparr>sc_held := held\<rparr>) = (r, s')" by (simp add: auto_update_tick_def)
      from claim_and_submit_step[OF this] show ?thesis by simp
    qed
  qed
  from keys_step_trans[OF r1 this] show ?thesis by simp
qed

lemma event_step:
  "scheduler_event_step z mode enabled e s = Some (ks, s') \<Longrightarrow> keys_step ks (sc_db s) (sc_db s')"
proof (cases e)
  case (Tick i)
  then show "scheduler_event_step z mode enabled e s = Some (ks, s') \<Longrightarrow> ?thesis" using tick_step by auto
next
  case (JobUpdate keys status run_id error)
  then show "scheduler_event_step z mode enabled e s = Some (ks, s') \<Longrightarrow> ?thesis"
    by (auto intro!: keys_step_same simp: update_auto_update_schedule_runs_def recorded_keys_def comp_def if_distrib cong: if_cong)
next
  case (OtherRows rows)
  then show "scheduler_event_step z mode enabled e s = Some (ks, s') \<Longrightarrow> ?thesis"
    using keys_step_more[OF with_others_keys(1)[of "sc_db s" rows] with_others_keys(2)[of rows "sc_db s"]] by auto
qed (auto intro!: keys_step_same simp: recorded_keys_def)

lemma run_step:
  "scheduler_run z mode enabled es s = Some (ks, s') \<Longrightarrow> keys_step ks (sc_db s) (sc_db s')"
proof (induction es arbitrary: s ks)
  case Nil
  then show ?case by (simp add: keys_step_refl)
next
  case (Cons e es)
  then obtain ks1 s1 ks2 where "scheduler_event_step z mode enabled e s = Some (ks1, s1)"
    "scheduler_run z mode enabled es s1 = Some (ks2, s')" "ks = ks1 @ ks2"
    by (auto split: option.splits)
  with event_step Cons.IH show ?case by (blast intro: keys_step_trans)
qed

section \<open>What is due\<close>

lemma find_Some_mem: "find P xs = Some x \<Longrightarrow> x \<in> set xs \<and> P x"
  by (induction xs) (auto split: if_splits)

lemma due_policy:
  assumes "p \<in> set (fst (due_auto_update_policies z mode rows snoozes recorded held now started))"
  shows "au_scheduled_for p \<le> now \<and> now < au_scheduled_for p + seconds AUTO_UPDATE_MAX_LATE_SECONDS \<and>
    (now < au_scheduled_for p + seconds AUTO_UPDATE_GRACE_SECONDS \<or> au_schedule_key p \<in> set held) \<and>
    \<not> active_snooze snoozes (au_service_key p) (zc_instant_text z now) \<and> au_schedule_key p \<notin> set recorded"
proof -
  from assms obtain row where "row_slot z mode snoozes recorded held now started row = Due p"
    by (auto simp: due_auto_update_policies_def due_of_def Let_def split: slot.splits)
  then obtain t d f where o: "auto_update_row_occurrence z now t (auto_update_days_from_row row) = Some (d, f)"
    and p: "au_scheduled_for p = f" "au_schedule_key p \<notin> set recorded"
      "\<not> active_snooze snoozes (au_service_key p) (zc_instant_text z now)"
      "in_window now started f \<or> au_schedule_key p \<in> set held"
      "in_window now started f \<or> now < f + seconds AUTO_UPDATE_MAX_LATE_SECONDS"
    by (auto simp: row_slot_def Let_def split: option.splits if_splits prod.splits)
  from o obtain time where "auto_update_latest_occurrence z now time (auto_update_days_from_row row) = Some (d, f)"
    by (auto simp: auto_update_row_occurrence_def split: option.splits)
  from this[unfolded auto_update_latest_occurrence_def, THEN find_Some_mem] have "f \<le> now" by simp
  with p show ?thesis
    by (auto simp: in_window_def seconds_def AUTO_UPDATE_GRACE_SECONDS_def AUTO_UPDATE_MAX_LATE_SECONDS_def Let_def)
qed

lemma submitted_from_due:
  assumes "auto_update_tick z mode enabled i s = Some (Submitted sel, s')"
  shows "set (an_schedule_keys sel) \<subseteq> au_schedule_key ` set (fst (due_auto_update_policies z mode (sd_policies (sc_db s))
      (sd_snoozes (sc_db s)) (recorded_keys (sc_db s)) (map fst (sc_held s)) (ti_now i) (ti_started_at i)))"
    and "active_mutation_error True (sc_web s) = ''''"
proof -
  from assms obtain ps s1 held where r: "runnable_auto_update_policies z mode i s = (Some ps, s1)"
    and c: "ps \<noteq> []" "auto_update_candidate (ti_answer i) ps (sc_held s1) = Some (Some sel, held)"
    by (auto simp: auto_update_tick_def claim_and_submit_def Let_def
      split: if_splits prod.splits option.splits list.splits sum.splits)
  from r c(1) have ps: "ps = fst (due_auto_update_policies z mode (sd_policies (sc_db s))
      (sd_snoozes (sc_db s)) (recorded_keys (sc_db s)) (map fst (sc_held s)) (ti_now i) (ti_started_at i))"
    and "active_mutation_error True (sc_web s) = ''''"
    by (auto simp: runnable_auto_update_policies_def Let_def split: prod.splits if_splits)
  from c(2) obtain groups a where "candidate_loop groups a ps [] = Some (Some sel, held)"
    by (auto simp: auto_update_candidate_def split: option.splits)
  from candidate_loop_selection[OF this] selection_keys(3) ps
  show "set (an_schedule_keys sel) \<subseteq> au_schedule_key ` set (fst (due_auto_update_policies z mode (sd_policies (sc_db s))
      (sd_snoozes (sc_db s)) (recorded_keys (sc_db s)) (map fst (sc_held s)) (ti_now i) (ti_started_at i)))"
    by blast
  show "active_mutation_error True (sc_web s) = ''''" by fact
qed

section \<open>Properties\<close>

text \<open>C6: Over any sequence of ticks, restarts, job updates, edited policies and rows written by other processes, no
  schedule slot is submitted twice, none that already had a row is submitted at all, every submitted slot has
  a row from then on, and no slot is both submitted and reported as missed.\<close>

theorem slots_run_once:
  assumes "scheduler_run z mode enabled es s = Some (ks, s')"
    and "set (missed_keys (sc_db s)) \<subseteq> set (recorded_keys (sc_db s))"
  shows "distinct ks \<and> set ks \<inter> set (recorded_keys (sc_db s)) = {} \<and> set ks \<subseteq> set (recorded_keys (sc_db s')) \<and>
    set ks \<inter> set (missed_keys (sc_db s')) = {}"
proof -
  from run_step[OF assms(1)] obtain ms where "missed_keys (sc_db s') = missed_keys (sc_db s) @ ms"
    "set ms \<subseteq> set (recorded_keys (sc_db s')) - set (recorded_keys (sc_db s)) - set ks" "distinct ks"
    "set ks \<subseteq> set (recorded_keys (sc_db s')) - set (recorded_keys (sc_db s))"
    unfolding keys_step_def by blast
  with assms(2) show ?thesis by auto
qed

text \<open>C36: A tick that submits a job submits only slots whose time has come and is less than an hour ago, that are
  either inside their grace window of five minutes or were held back before, that are not snoozed and have
  no row, and it submits only while no other job is active.\<close>

theorem submitted_in_time:
  assumes "auto_update_tick z mode enabled i s = Some (Submitted sel, s')" and "k \<in> set (an_schedule_keys sel)"
  shows "active_mutation_error True (sc_web s) = '''' \<and>
    (\<exists>p \<in> set (fst (due_auto_update_policies z mode (sd_policies (sc_db s)) (sd_snoozes (sc_db s))
        (recorded_keys (sc_db s)) (map fst (sc_held s)) (ti_now i) (ti_started_at i))).
      au_schedule_key p = k \<and> au_scheduled_for p \<le> ti_now i \<and> ti_now i < au_scheduled_for p + 3600 * 1000000 \<and>
      (ti_now i < au_scheduled_for p + 300 * 1000000 \<or> k \<in> fst ` set (sc_held s)) \<and>
      \<not> active_snooze (sd_snoozes (sc_db s)) (au_service_key p) (zc_instant_text z (ti_now i)) \<and>
      k \<notin> set (recorded_keys (sc_db s)))"
proof -
  from submitted_from_due(1)[OF assms(1)] assms(2) obtain p where p: "au_schedule_key p = k"
    "p \<in> set (fst (due_auto_update_policies z mode (sd_policies (sc_db s)) (sd_snoozes (sc_db s))
        (recorded_keys (sc_db s)) (map fst (sc_held s)) (ti_now i) (ti_started_at i)))" by auto
  from due_policy[OF p(2)] p(1) have "au_scheduled_for p \<le> ti_now i \<and> ti_now i < au_scheduled_for p + 3600 * 1000000 \<and>
      (ti_now i < au_scheduled_for p + 300 * 1000000 \<or> k \<in> fst ` set (sc_held s)) \<and>
      \<not> active_snooze (sd_snoozes (sc_db s)) (au_service_key p) (zc_instant_text z (ti_now i)) \<and>
      k \<notin> set (recorded_keys (sc_db s))"
    by (simp add: seconds_def AUTO_UPDATE_GRACE_SECONDS_def AUTO_UPDATE_MAX_LATE_SECONDS_def)
  with p submitted_from_due(2)[OF assms(1)] show ?thesis by blast
qed

section \<open>An example\<close>

text \<open>A service scheduled on Fridays and Saturdays, and two ticks on the second day of a clock with short days.\<close>

definition toy_clock :: schedule_clock where
  "toy_clock = \<lparr>zc_local_day = (\<lambda>t. t div 1000), zc_instant = (\<lambda>d t. d * 1000 + t),
     zc_time_of_day = (\<lambda>s. if s = ''12:00'' then Some 500 else None),
     zc_date_text = (\<lambda>d. if d = 1 then ''1970-01-02'' else ''1970-01-01''), zc_instant_text = (\<lambda>t. ''1970''), zc_name = ''UTC''\<rparr>"

definition toy_scheduler :: scheduler_state where
  "toy_scheduler = \<lparr>sc_db = \<lparr>sd_policies = [\<lparr>py_service_key = ''m/w'', py_auto_update = True, py_time = Some ''12:00'',
       py_days = [''fri'', ''sat''], py_mode = ''''\<rparr>], sd_snoozes = [], sd_runs = [], sd_missed = [], sd_next_run = 1\<rparr>,
     sc_held = [], sc_web = initialize_apply_job_state\<rparr>"

definition toy_groups :: "pending_group list" where
  "toy_groups = [\<lparr>gr_name = ''m'', gr_items = [\<lparr>gi_line_no = 3, gi_services = [''w''], gi_repo = ''nginx'',
       gi_desired_tag = '''', gi_digest = ''sha256:ab''\<rparr>]\<rparr>]"

definition toy_answer :: pending_answer where
  "toy_answer = \<lparr>pa_groups = Some toy_groups, pa_dependencies = [], pa_skips = [], pa_can_apply = (\<lambda>_ _. True)\<rparr>"

definition toy_tick :: tick_input where
  "toy_tick = \<lparr>ti_now = 1505, ti_started_at = 0, ti_answer = Some toy_answer, ti_others = [],
     ti_job_id = ''j'', ti_accepted = True, ti_missed_fails = False, ti_reserve_fails = False, ti_release_fails = False,
     ti_queue_fails = False\<rparr>"

definition toy_policy :: auto_policy where
  "toy_policy = \<lparr>au_service_key = ''m/w'', au_mode = ''pull'', au_time = ''12:00'', au_days = [''fri'', ''sat''],
     au_schedule_key = ''m/w|1970-01-02|12:00|UTC'', au_scheduled_for = 1500\<rparr>"

definition toy_selection :: auto_selection where
  "toy_selection = \<lparr>an_line_numbers = [3], an_service_keys = [''m/w''], an_schedule_keys = [''m/w|1970-01-02|12:00|UTC''],
     an_scheduled_for = 1500, an_mode = ''pull'', an_deferred = []\<rparr>"

lemma toy_due:
  "due_auto_update_policies toy_clock ''pull'' (sd_policies (sc_db toy_scheduler)) [] [] [] 1505 0 = ([toy_policy], [])"
  "due_auto_update_policies toy_clock ''pull'' (sd_policies (sc_db toy_scheduler)) [] [''m/w|1970-01-02|12:00|UTC''] [] 1505 0 =
     ([], [])"
  by code_simp+

lemma toy_selected: "auto_update_selection toy_groups [toy_policy] [] [] = Some toy_selection"
  by code_simp

definition toy_after :: "schedule_run list \<Rightarrow> web_state \<Rightarrow> scheduler_state" where
  "toy_after rows web = toy_scheduler\<lparr>sc_db := (sc_db toy_scheduler)\<lparr>sd_runs := rows\<rparr>, sc_web := web\<rparr>"

definition toy_row :: schedule_run where
  "toy_row = \<lparr>sx_key = ''m/w|1970-01-02|12:00|UTC'', sx_service_key = ''m/w'', sx_scheduled_for = ''1970'', sx_run_id = None,
     sx_status = ''queued'', sx_job_id = ''j'', sx_error = ''''\<rparr>"

lemma toy_runnable: "runnable_auto_update_policies toy_clock ''pull'' toy_tick toy_scheduler = (Some [toy_policy], toy_scheduler)"
  "runnable_auto_update_policies toy_clock ''pull'' toy_tick (toy_after [toy_row] initialize_apply_job_state) =
     (Some [], toy_after [toy_row] initialize_apply_job_state)"
  by code_simp+

lemma toy_submit: "claim_and_submit toy_clock toy_tick toy_selection toy_scheduler =
    (Submitted toy_selection, toy_after [toy_row] (snd (submit_apply_job ''j'' [3] True initialize_apply_job_state)))"
  by code_simp

lemma toy_candidate: "auto_update_candidate (ti_answer toy_tick) [toy_policy] [] = Some (Some toy_selection, [])"
  by (simp add: auto_update_candidate_def toy_tick_def toy_answer_def candidate_loop.simps toy_selected)
    (simp add: toy_selection_def)

lemma toy_tick_result: "auto_update_tick toy_clock ''pull'' True toy_tick toy_scheduler =
    Some (Submitted toy_selection, toy_after [toy_row] (snd (submit_apply_job ''j'' [3] True initialize_apply_job_state)))"
proof -
  have "sc_held toy_scheduler = []" by (simp add: toy_scheduler_def)
  then show ?thesis
    unfolding auto_update_tick_def toy_runnable by (simp add: toy_candidate toy_submit[symmetric]) (simp add: toy_scheduler_def)
qed

lemma toy_run: "scheduler_run toy_clock ''pull'' True [Tick toy_tick, JobsChanged initialize_apply_job_state, Tick toy_tick] toy_scheduler =
    Some ([''m/w|1970-01-02|12:00|UTC''], toy_after [toy_row] initialize_apply_job_state)"
proof -
  have w: "(toy_after rows web)\<lparr>sc_web := web'\<rparr> = toy_after rows web'" for rows web web' by (simp add: toy_after_def)
  show ?thesis
    by (simp add: toy_tick_result w auto_update_tick_def[of _ _ _ _ "toy_after rows web" for rows web] toy_runnable
      submitted_keys_def toy_selection_def)
qed

lemma slots_run_once_witness:
  "(\<exists>ks s'. scheduler_run toy_clock ''pull'' True [Tick toy_tick, JobsChanged initialize_apply_job_state, Tick toy_tick]
      toy_scheduler = Some (ks, s') \<and> ks \<noteq> [] \<and> distinct ks \<and> set ks \<inter> set (missed_keys (sc_db s')) = {})"
  using slots_run_once[OF toy_run] toy_run by (auto simp: toy_scheduler_def missed_keys_def)

lemma submitted_in_time_witness:
  "\<exists>p \<in> set (fst (due_auto_update_policies toy_clock ''pull'' (sd_policies (sc_db toy_scheduler)) [] [] [] 1505 0)).
     au_schedule_key p = ''m/w|1970-01-02|12:00|UTC'' \<and> au_scheduled_for p \<le> 1505"
proof -
  have "''m/w|1970-01-02|12:00|UTC'' \<in> set (an_schedule_keys toy_selection)" by (simp add: toy_selection_def)
  from submitted_in_time[OF toy_tick_result this]
  have "\<exists>p \<in> set (fst (due_auto_update_policies toy_clock ''pull'' (sd_policies (sc_db toy_scheduler))
      (sd_snoozes (sc_db toy_scheduler)) (recorded_keys (sc_db toy_scheduler)) (map fst (sc_held toy_scheduler))
      (ti_now toy_tick) (ti_started_at toy_tick))).
     au_schedule_key p = ''m/w|1970-01-02|12:00|UTC'' \<and> au_scheduled_for p \<le> ti_now toy_tick" by blast
  moreover have "sd_snoozes (sc_db toy_scheduler) = []" "recorded_keys (sc_db toy_scheduler) = []"
    "sc_held toy_scheduler = []" "ti_now toy_tick = 1505" "ti_started_at toy_tick = 0"
    by (simp_all add: toy_scheduler_def toy_tick_def recorded_keys_def)
  ultimately show ?thesis by simp
qed

end
