(* ===== verification/Spec2Isabelle.thy ===== *)
theory Spec2Isabelle
  imports Line_Specs Compose_Persistence Wud_File Compose_Labels Digest_Pins Lifecycle_Planned Lifecycle_Order Lifecycle_Safety Compose_Label_Edits Flow_Bounds Runner_Outcome Web_Job_Stream Ip_Address Auth_Throttle Request_Context Auth_Requests Auth_Lockout Auth_Store Auth_Sessions Auth_Recovery Auth_Handlers Lsio_Updates Release_Skips Tag_Streams Stream_Plans Auto_Schedule Scheduler Scheduler_Safety Locks Compose_Exact Runner_Matching Runner_Safety Updater_Logging Lifecycle_State Lifecycle_Rewrite Lifecycle_Commands Lifecycle_Example Lifecycle_Gate
begin

text \<open>
  WUDup keeps the images of Docker Compose services up to date.
\<close>

end
